(* ===== verification/Prelude.thy ===== *)
theory Prelude
  imports Main "HOL-Library.Word" "HOL-Library.Monad_Syntax"
begin

text \<open>
  Shared vocabulary of the development: the machine-integer types of the C
  code, the fact collections the component proofs draw on, and the generic
  lemmas on lists, options and words that several components use.

  Conventions.  The platform is the one the sources assume: \<^verbatim>\<open>int\<close>, \<^verbatim>\<open>size_t\<close>
  and pointers have 32 bits (\<^verbatim>\<open>socket.c\<close> stores pointers in an \<^verbatim>\<open>int\<close>), and the
  machine is little endian.  Packet fields and sequence numbers are words of the
  C width.  Sizes and offsets are \<open>nat\<close>; a store into a \<^verbatim>\<open>uint16_t\<close> size field
  goes through \<open>u16_of\<close>, and a \<^verbatim>\<open>size_t\<close> subtraction that the code does not guard
  through \<open>size_sub\<close>, so that truncation and wrap-around are written out.

  A definition that can reach undefined behaviour has an \<open>option\<close> result: \<open>None\<close>
  means that C gives the run no meaning (a null or dangling pointer is
  dereferenced, an access leaves its object, a block is freed twice, a divisor
  is zero) or that the run does not return.  Error returns of the code itself
  (\<^verbatim>\<open>0\<close>, \<^verbatim>\<open>NULL\<close>, \<^verbatim>\<open>-1\<close>) are ordinary values.
\<close>

unbundle bit_operations_syntax

type_synonym u8 = "8 word"
type_synonym u16 = "16 word"
type_synonym u32 = "32 word"
type_synonym u64 = "64 word"
type_synonym addr = nat

named_theorems mem_simps \<open>equations for reads and writes of live buffers\<close>
named_theorems frame_simps \<open>what an operation leaves unchanged\<close>
named_theorems csum_simps \<open>evaluation of checksum sums\<close>

section \<open>Width conversions\<close>

definition u16_of :: "nat \<Rightarrow> nat" where
  "u16_of n = n mod 65536"

definition size_sub :: "nat \<Rightarrow> nat \<Rightarrow> nat" where
  "size_sub a b = nat ((int a - int b) mod 2 ^ 32)"

lemma u16_of_small [simp]: "n < 65536 \<Longrightarrow> u16_of n = n"
  by (simp add: u16_of_def)

lemma u16_of_less [simp]: "u16_of n < 65536"
  by (simp add: u16_of_def)

lemma u16_of_le: "u16_of n \<le> n"
  by (simp add: u16_of_def)

lemma size_sub_le [simp]: "b \<le> a \<Longrightarrow> a < 2 ^ 32 \<Longrightarrow> size_sub a b = a - b"
  by (simp add: size_sub_def flip: of_nat_diff)

lemma size_sub_wrap:
  "a < b \<Longrightarrow> b < 2 ^ 32 \<Longrightarrow> size_sub a b = 2 ^ 32 + a - b"
proof -
  assume ab: "a < b" "b < 2 ^ 32"
  have "(int a - int b) mod 2 ^ 32 = (int a - int b + 2 ^ 32) mod 2 ^ 32"
    by simp
  also have "\<dots> = int a - int b + 2 ^ 32"
    using ab by (intro mod_pos_pos_trivial) auto
  finally have "size_sub a b = nat (int a - int b + 2 ^ 32)"
    by (simp only: size_sub_def)
  then show ?thesis
    using ab by (simp add: nat_eq_iff)
qed

section \<open>Lists: overwriting a stretch\<close>

definition splice_at :: "'a list \<Rightarrow> nat \<Rightarrow> 'a list \<Rightarrow> 'a list" where
  "splice_at xs i ys = take i xs @ ys @ drop (i + length ys) xs"

lemma length_splice_at [simp]:
  "i + length ys \<le> length xs \<Longrightarrow> length (splice_at xs i ys) = length xs"
  by (simp add: splice_at_def)

lemma splice_at_Nil [simp]: "splice_at xs i [] = xs"
  by (simp add: splice_at_def)

lemma splice_at_all [simp]: "length ys = length xs \<Longrightarrow> splice_at xs 0 ys = ys"
  by (simp add: splice_at_def)

lemma nth_splice_at:
  "i + length ys \<le> length xs \<Longrightarrow> k < length xs \<Longrightarrow>
   splice_at xs i ys ! k =
     (if k < i then xs ! k else if k < i + length ys then ys ! (k - i) else xs ! k)"
  by (auto simp: splice_at_def nth_append)

lemma take_drop_splice_at:
  "i + length ys \<le> length xs \<Longrightarrow> take (length ys) (drop i (splice_at xs i ys)) = ys"
  by (simp add: splice_at_def)

lemma take_drop_splice_at_before:
  "k + n \<le> i \<Longrightarrow> i + length ys \<le> length xs \<Longrightarrow>
   take n (drop k (splice_at xs i ys)) = take n (drop k xs)"
  by (rule nth_equalityI) (auto simp: nth_splice_at)

lemma take_drop_splice_at_after:
  "i + length ys \<le> k \<Longrightarrow> i + length ys \<le> length xs \<Longrightarrow>
   take n (drop k (splice_at xs i ys)) = take n (drop k xs)"
  by (rule nth_equalityI) (auto simp: nth_splice_at)

lemma splice_at_splice_at_adj:
  "i + length ys + length zs \<le> length xs \<Longrightarrow>
   splice_at (splice_at xs i ys) (i + length ys) zs = splice_at xs i (ys @ zs)"
  by (rule nth_equalityI) (auto simp: nth_splice_at nth_append)

lemma splice_at_splice_at_adj_rev:
  "i + length ys + length zs \<le> length xs \<Longrightarrow>
   splice_at (splice_at xs (i + length ys) zs) i ys = splice_at xs i (ys @ zs)"
  by (rule nth_equalityI) (auto simp: nth_splice_at nth_append)

text \<open>The same laws in the form in which the simplifier collapses a run of stores.\<close>

lemma splice_at_next:
  "j = i + length ys \<Longrightarrow> j + length zs \<le> length xs \<Longrightarrow>
   splice_at (splice_at xs i ys) j zs = splice_at xs i (ys @ zs)"
  using splice_at_splice_at_adj [of i ys zs xs] by simp

lemma splice_at_over:
  "length ys \<le> length zs \<Longrightarrow> i + length zs \<le> length xs \<Longrightarrow>
   splice_at (splice_at xs i zs) i ys = splice_at xs i (ys @ drop (length ys) zs)"
  by (rule nth_equalityI) (auto simp: nth_splice_at nth_append)

lemma splice_at_inside:
  "j = i + k \<Longrightarrow> k + length zs \<le> length ys \<Longrightarrow> i + length ys \<le> length xs \<Longrightarrow>
   splice_at (splice_at xs i ys) j zs = splice_at xs i (splice_at ys k zs)"
  by (rule nth_equalityI) (auto simp: nth_splice_at)

lemma splice_at_idem:
  "i + length ys \<le> length xs \<Longrightarrow> take (length ys) (drop i xs) = ys \<Longrightarrow>
   splice_at xs i ys = xs"
  unfolding splice_at_def by (metis append_take_drop_id drop_drop add.commute)

lemma take_drop_take_drop:
  "n + k \<le> m \<Longrightarrow> take n (drop k (take m (drop i xs))) = take n (drop (i + k) xs)"
  by (rule nth_equalityI) (auto simp: add.assoc)

section \<open>Options\<close>

lemma bind_Some_iff:
  "Option.bind m f = Some y \<longleftrightarrow> (\<exists>x. m = Some x \<and> f x = Some y)"
  by (cases m) auto

section \<open>Words\<close>

lemma unat_and_mask16: "unat (w AND mask 16) = unat w mod 65536"
  for w :: "'a::len word"
  by (simp flip: take_bit_eq_mask add: unsigned_take_bit_eq) (simp add: take_bit_eq_mod)

lemma unat_u8_less [simp]: "unat (b :: 8 word) < 256"
  using unsigned_less [of b] by simp

lemma unat_u16_less [simp]: "unat (b :: 16 word) < 65536"
  using unsigned_less [of b] by simp

lemma not_bit_u8: "8 \<le> n \<Longrightarrow> \<not> bit (b :: 8 word) n"
  using bit_imp_le_length [of b n] by auto

lemma bit_shift_lt: "\<not> bit v (k + (n - k)) \<Longrightarrow> bit v n \<Longrightarrow> n < k"
  by (rule ccontr) simp

lemma unat_drop16: "unat (drop_bit 16 w) = unat w div 65536"
  for w :: "'a::len word"
  unfolding unat_drop_bit_eq by (simp add: drop_bit_eq_div)

end
