(* ===== verification/Cmem.thy ===== *)
theory Cmem
  imports Prelude
begin

text \<open>
  The memory the C code runs on.  Byte buffers and \<^verbatim>\<open>dblk_t\<close> objects live at
  addresses; a \<^verbatim>\<open>uint8_t *\<close> is a buffer with an offset into it, a \<^verbatim>\<open>dblk_t *\<close> an
  optional address.  \<^verbatim>\<open>dts_net_malloc\<close> is supplied by the user of the library:
  whether its \<open>n\<close>-th call succeeds is the parameter \<open>malloc_ok\<close> of the state and
  what a fresh block holds is the parameter \<open>junk\<close>, so every statement holds for
  every allocator.  Automatic variables are blocks too, which disappear when
  their function returns.  A copy reads its whole source before it writes
  (\<^verbatim>\<open>memmove\<close>); a copy of zero bytes never touches its pointers.

  The field \<open>wire\<close> is no memory of the program: it is the history of what the drivers have
  been given, device and frame.  No operation of the stack reads or writes it; a driver,
  which is a parameter, adds to it.
\<close>

section \<open>Pointers, nodes and the heap\<close>

datatype ptr = Null | Ptr addr nat

fun padd :: "ptr \<Rightarrow> nat \<Rightarrow> ptr" where
  "padd Null n = Null"
| "padd (Ptr b i) n = Ptr b (i + n)"

lemma padd_0 [simp]: "padd p 0 = p"
  by (cases p) simp_all

lemma padd_padd [simp]: "padd (padd p m) n = padd p (m + n)"
  by (cases p) simp_all

text \<open>
  \<^verbatim>\<open>struct dts_net_dblk\<close>: \<open>d_size\<close> and \<open>d_vsize\<close> are the \<^verbatim>\<open>uint16_t\<close> fields, the
  one-bit fields are booleans.
\<close>

record dblk =
  d_next :: "addr option"
  d_data :: ptr
  d_size :: nat
  d_data_malloc :: bool
  d_node_malloc :: bool
  d_more :: bool
  d_vsize :: nat
  d_vmem :: "addr option"
  d_offset :: nat

record heap =
  bufs :: "addr \<rightharpoonup> u8 list"
  nodes :: "addr \<rightharpoonup> dblk"
  brk :: addr
  mallocs :: nat
  malloc_ok :: "nat \<Rightarrow> bool"
  junk :: "addr \<Rightarrow> nat \<Rightarrow> u8"
  wire :: "(addr \<times> u8 list) list"

text \<open>The elementary updates.\<close>

definition set_buf :: "addr \<Rightarrow> u8 list \<Rightarrow> 'w heap_scheme \<Rightarrow> 'w heap_scheme" where
  "set_buf b bs h = h\<lparr>bufs := (bufs h)(b \<mapsto> bs)\<rparr>"

definition del_buf :: "addr \<Rightarrow> 'w heap_scheme \<Rightarrow> 'w heap_scheme" where
  "del_buf b h = h\<lparr>bufs := (bufs h)(b := None)\<rparr>"

definition set_node :: "addr \<Rightarrow> dblk \<Rightarrow> 'w heap_scheme \<Rightarrow> 'w heap_scheme" where
  "set_node a d h = h\<lparr>nodes := (nodes h)(a \<mapsto> d)\<rparr>"

definition del_node :: "addr \<Rightarrow> 'w heap_scheme \<Rightarrow> 'w heap_scheme" where
  "del_node a h = h\<lparr>nodes := (nodes h)(a := None)\<rparr>"

definition bump :: "'w heap_scheme \<Rightarrow> 'w heap_scheme" where
  "bump h = h\<lparr>brk := Suc (brk h)\<rparr>"

lemma set_buf_sel [simp]:
  "bufs (set_buf b bs h) = (bufs h)(b \<mapsto> bs)" "nodes (set_buf b bs h) = nodes h"
  "brk (set_buf b bs h) = brk h" "mallocs (set_buf b bs h) = mallocs h"
  "malloc_ok (set_buf b bs h) = malloc_ok h" "junk (set_buf b bs h) = junk h" "wire (set_buf b bs h) = wire h"
  by (simp_all add: set_buf_def)

lemma del_buf_sel [simp]:
  "bufs (del_buf b h) = (bufs h)(b := None)" "nodes (del_buf b h) = nodes h"
  "brk (del_buf b h) = brk h" "mallocs (del_buf b h) = mallocs h"
  "malloc_ok (del_buf b h) = malloc_ok h" "junk (del_buf b h) = junk h" "wire (del_buf b h) = wire h"
  by (simp_all add: del_buf_def)

lemma set_node_sel [simp]:
  "bufs (set_node a d h) = bufs h" "nodes (set_node a d h) = (nodes h)(a \<mapsto> d)"
  "brk (set_node a d h) = brk h" "mallocs (set_node a d h) = mallocs h"
  "malloc_ok (set_node a d h) = malloc_ok h" "junk (set_node a d h) = junk h" "wire (set_node a d h) = wire h"
  by (simp_all add: set_node_def)

lemma del_node_sel [simp]:
  "bufs (del_node a h) = bufs h" "nodes (del_node a h) = (nodes h)(a := None)"
  "brk (del_node a h) = brk h" "mallocs (del_node a h) = mallocs h"
  "malloc_ok (del_node a h) = malloc_ok h" "junk (del_node a h) = junk h" "wire (del_node a h) = wire h"
  by (simp_all add: del_node_def)

lemma bump_sel [simp]:
  "bufs (bump h) = bufs h" "nodes (bump h) = nodes h" "brk (bump h) = Suc (brk h)"
  "mallocs (bump h) = mallocs h" "malloc_ok (bump h) = malloc_ok h" "junk (bump h) = junk h" "wire (bump h) = wire h"
  by (simp_all add: bump_def)

lemma set_buf_set_buf [simp]: "set_buf b x (set_buf b y h) = set_buf b x h"
  by (simp add: set_buf_def)

lemma set_node_set_node [simp]: "set_node a x (set_node a y h) = set_node a x h"
  by (simp add: set_node_def)

lemma set_node_set_buf: "set_node a d (set_buf b x h) = set_buf b x (set_node a d h)"
  by (rule heap.equality) (simp_all add: set_buf_def set_node_def)

lemma set_buf_set_buf_other: "b \<noteq> c \<Longrightarrow> set_buf b x (set_buf c y h) = set_buf c y (set_buf b x h)"
  by (simp add: set_buf_def fun_upd_twist)

lemma set_buf_same [simp]: "bufs h b = Some bs \<Longrightarrow> set_buf b bs h = h"
  by (simp add: set_buf_def map_upd_triv)

lemma del_buf_set_buf [simp]: "del_buf b (set_buf b x h) = del_buf b h"
  by (simp add: set_buf_def del_buf_def)

lemma del_node_set_node [simp]: "del_node a (set_node a x h) = del_node a h"
  by (simp add: set_node_def del_node_def)

lemma del_buf_dead [simp]: "bufs h b = None \<Longrightarrow> del_buf b h = h"
  by (simp add: del_buf_def fun_upd_idem)

lemma del_node_dead [simp]: "nodes h a = None \<Longrightarrow> del_node a h = h"
  by (simp add: del_node_def fun_upd_idem)

fun ptr_buf :: "ptr \<Rightarrow> addr option" where
  "ptr_buf Null = None"
| "ptr_buf (Ptr b i) = Some b"

text \<open>
  Addresses from \<open>brk\<close> on have never been handed out: nothing lives there and no node
  points there.
\<close>

definition wf_heap :: "'w heap_scheme \<Rightarrow> bool" where
  "wf_heap h \<longleftrightarrow> (\<forall>a \<ge> brk h. bufs h a = None \<and> nodes h a = None) \<and>
     (\<forall>a d b. nodes h a = Some d \<longrightarrow> ptr_buf (d_data d) = Some b \<longrightarrow> b < brk h)"

lemma wf_heap_node: "wf_heap h \<Longrightarrow> nodes h a = Some d \<Longrightarrow> a < brk h"
  by (metis wf_heap_def not_le option.distinct(1))

lemma wf_heap_buf: "wf_heap h \<Longrightarrow> bufs h a = Some d \<Longrightarrow> a < brk h"
  by (metis wf_heap_def not_le option.distinct(1))

lemma wf_heap_data: "wf_heap h \<Longrightarrow> nodes h a = Some d \<Longrightarrow> ptr_buf (d_data d) = Some b \<Longrightarrow> b < brk h"
  by (auto simp: wf_heap_def)

section \<open>Bytes\<close>

fun rd8 :: "'w heap_scheme \<Rightarrow> ptr \<Rightarrow> u8 option" where
  "rd8 h Null = None"
| "rd8 h (Ptr b i) =
     (case bufs h b of None \<Rightarrow> None
      | Some bs \<Rightarrow> if i < length bs then Some (bs ! i) else None)"

fun wr8 :: "ptr \<Rightarrow> u8 \<Rightarrow> 'w heap_scheme \<Rightarrow> 'w heap_scheme option" where
  "wr8 Null v h = None"
| "wr8 (Ptr b i) v h =
     (case bufs h b of None \<Rightarrow> None
      | Some bs \<Rightarrow> if i < length bs then Some (set_buf b (bs[i := v]) h) else None)"

definition mem_read :: "'w heap_scheme \<Rightarrow> ptr \<Rightarrow> nat \<Rightarrow> u8 list option" where
  "mem_read h p n =
     (if n = 0 then Some []
      else case p of Null \<Rightarrow> None
        | Ptr b i \<Rightarrow> (case bufs h b of None \<Rightarrow> None
            | Some bs \<Rightarrow> if i + n \<le> length bs then Some (take n (drop i bs)) else None))"

definition mem_write :: "ptr \<Rightarrow> u8 list \<Rightarrow> 'w heap_scheme \<Rightarrow> 'w heap_scheme option" where
  "mem_write p ys h =
     (if ys = [] then Some h
      else case p of Null \<Rightarrow> None
        | Ptr b i \<Rightarrow> (case bufs h b of None \<Rightarrow> None
            | Some bs \<Rightarrow> if i + length ys \<le> length bs
                then Some (set_buf b (splice_at bs i ys) h) else None))"

definition memcpy :: "ptr \<Rightarrow> ptr \<Rightarrow> nat \<Rightarrow> 'w heap_scheme \<Rightarrow> 'w heap_scheme option" where
  "memcpy dst src n h = do { ys \<leftarrow> mem_read h src n; mem_write dst ys h }"

definition memset :: "ptr \<Rightarrow> u8 \<Rightarrow> nat \<Rightarrow> 'w heap_scheme \<Rightarrow> 'w heap_scheme option" where
  "memset p v n h = mem_write p (replicate n v) h"

section \<open>Allocation\<close>

definition new_buf :: "u8 list \<Rightarrow> 'w heap_scheme \<Rightarrow> ptr \<times> 'w heap_scheme" where
  "new_buf bs h = (Ptr (brk h) 0, bump (set_buf (brk h) bs h))"

definition new_node :: "dblk \<Rightarrow> 'w heap_scheme \<Rightarrow> addr option \<times> 'w heap_scheme" where
  "new_node d h = (Some (brk h), bump (set_node (brk h) d h))"

definition fresh_bytes :: "'w heap_scheme \<Rightarrow> nat \<Rightarrow> u8 list" where
  "fresh_bytes h n = map (junk h (brk h)) [0..<n]"

definition malloc_try :: "'w heap_scheme \<Rightarrow> bool \<times> 'w heap_scheme" where
  "malloc_try h = (malloc_ok h (mallocs h), h\<lparr>mallocs := Suc (mallocs h)\<rparr>)"

definition malloc_buf :: "nat \<Rightarrow> 'w heap_scheme \<Rightarrow> ptr \<times> 'w heap_scheme" where
  "malloc_buf n h = (case malloc_try h of (ok, h) \<Rightarrow>
     if ok then new_buf (fresh_bytes h n) h else (Null, h))"

text \<open>The content of a fresh node is not used by any caller: each initialises all its fields.\<close>

definition malloc_node :: "dblk \<Rightarrow> 'w heap_scheme \<Rightarrow> addr option \<times> 'w heap_scheme" where
  "malloc_node d h = (case malloc_try h of (ok, h) \<Rightarrow> if ok then new_node d h else (None, h))"

fun free_buf :: "ptr \<Rightarrow> 'w heap_scheme \<Rightarrow> 'w heap_scheme option" where
  "free_buf Null h = Some h"
| "free_buf (Ptr b i) h =
     (if i = 0 \<and> bufs h b \<noteq> None then Some (del_buf b h) else None)"

fun free_node :: "addr option \<Rightarrow> 'w heap_scheme \<Rightarrow> 'w heap_scheme option" where
  "free_node None h = Some h"
| "free_node (Some a) h =
     (if nodes h a \<noteq> None then Some (del_node a h) else None)"

text \<open>
  The end of an automatic variable's life.  It is undefined here when the object is gone
  already, which is what freeing a stack object leads to.
\<close>

definition pop_buf :: "ptr \<Rightarrow> 'w heap_scheme \<Rightarrow> 'w heap_scheme option" where
  "pop_buf p h = (if p = Null then None else free_buf p h)"

definition pop_node :: "addr option \<Rightarrow> 'w heap_scheme \<Rightarrow> 'w heap_scheme option" where
  "pop_node p h = (if p = None then None else free_node p h)"

definition get_node :: "'w heap_scheme \<Rightarrow> addr option \<Rightarrow> dblk option" where
  "get_node h p = Option.bind p (nodes h)"

definition upd_node :: "addr option \<Rightarrow> (dblk \<Rightarrow> dblk) \<Rightarrow> 'w heap_scheme \<Rightarrow> 'w heap_scheme option" where
  "upd_node p f h = do { a \<leftarrow> p; d \<leftarrow> nodes h a; Some (set_node a (f d) h) }"

section \<open>Laws of reads and writes\<close>

lemma mem_read_0 [simp]: "mem_read h p 0 = Some []"
  by (simp add: mem_read_def)

lemma mem_write_Nil [simp]: "mem_write p [] h = Some h"
  by (simp add: mem_write_def)

lemma memcpy_0 [simp]: "memcpy d s 0 h = Some h"
  by (simp add: memcpy_def)

lemma mem_read_live [mem_simps]:
  "bufs h b = Some bs \<Longrightarrow> i + n \<le> length bs \<Longrightarrow>
   mem_read h (Ptr b i) n = Some (take n (drop i bs))"
  by (auto simp: mem_read_def)

lemma mem_write_live [mem_simps]:
  "bufs h b = Some bs \<Longrightarrow> i + length ys \<le> length bs \<Longrightarrow>
   mem_write (Ptr b i) ys h = Some (set_buf b (splice_at bs i ys) h)"
  by (auto simp: mem_write_def)

lemma mem_read_length: "mem_read h p n = Some bs \<Longrightarrow> length bs = n"
  by (auto simp: mem_read_def split: if_splits ptr.splits option.splits)

lemma mem_read_outside:
  "bufs h b = Some bs \<Longrightarrow> length bs < i + n \<Longrightarrow> 0 < n \<Longrightarrow> mem_read h (Ptr b i) n = None"
  by (simp add: mem_read_def)

lemma mem_read_Null [simp]: "mem_read h Null n = (if n = 0 then Some [] else None)"
  by (simp add: mem_read_def)

lemma mem_write_Null [simp]: "mem_write Null ys h = (if ys = [] then Some h else None)"
  by (simp add: mem_write_def)

lemma mem_read_take:
  "mem_read h p n = Some bs \<Longrightarrow> m \<le> n \<Longrightarrow> mem_read h p m = Some (take m bs)"
  by (auto simp: mem_read_def min_def split: if_splits ptr.splits option.splits)

lemma mem_read_sub:
  "mem_read h p n = Some bs \<Longrightarrow> k + m \<le> n \<Longrightarrow>
   mem_read h (padd p k) m = Some (take m (drop k bs))"
  by (cases p)
     (auto simp: mem_read_def take_drop_take_drop add.assoc split: if_splits option.splits)

lemma mem_read_append:
  "mem_read h p m = Some xs \<Longrightarrow> mem_read h (padd p m) n = Some ys \<Longrightarrow>
   mem_read h p (m + n) = Some (xs @ ys)"
  by (cases p) (auto simp: mem_read_def take_add add.assoc add.commute
      split: if_splits option.splits)

lemma mem_read_split:
  "mem_read h p (m + n) = Some xs \<Longrightarrow>
   mem_read h p m = Some (take m xs) \<and> mem_read h (padd p m) n = Some (drop m xs)"
  using mem_read_take [of h p "m + n" xs m] mem_read_sub [of h p "m + n" xs m n]
    mem_read_length [of h p "m + n" xs] by simp

lemma mem_read_add:
  "mem_read h p (m + n) =
   do { xs \<leftarrow> mem_read h p m; ys \<leftarrow> mem_read h (padd p m) n; Some (xs @ ys) }"
proof (cases "mem_read h p (m + n)")
  case None
  then show ?thesis
    using mem_read_append [of h p m _ n]
    by (cases "mem_read h p m"; cases "mem_read h (padd p m) n") auto
next
  case (Some xs)
  then show ?thesis using mem_read_split [OF Some] by simp
qed

lemma rd8_mem_read: "rd8 h p = map_option hd (mem_read h p 1)"
  by (cases p) (auto simp: mem_read_def hd_drop_conv_nth split: option.splits)

lemma rd8_read:
  "mem_read h p n = Some bs \<Longrightarrow> k < n \<Longrightarrow> rd8 h (padd p k) = Some (bs ! k)"
  using mem_read_sub [of h p n bs k 1] mem_read_length [of h p n bs]
  by (simp add: rd8_mem_read hd_drop_conv_nth take_Suc_conv_app_nth flip: One_nat_def)

lemma wr8_mem_write: "wr8 p v h = mem_write p [v] h"
  by (cases p) (auto simp: mem_write_def splice_at_def upd_conv_take_nth_drop split: option.splits)

lemma mem_write_append:
  "mem_write p (xs @ ys) h =
   Option.bind (mem_write p xs h) (mem_write (padd p (length xs)) ys)"
  by (cases p) (auto simp: mem_write_def splice_at_splice_at_adj add.assoc split: option.splits)

lemma mem_write_append_rev:
  "mem_write p (xs @ ys) h =
   Option.bind (mem_write (padd p (length xs)) ys h) (mem_write p xs)"
  by (cases p) (auto simp: mem_write_def splice_at_splice_at_adj_rev add.assoc split: option.splits)

lemma mem_read_write_same:
  "mem_write p ys h = Some h' \<Longrightarrow> mem_read h' p (length ys) = Some ys"
  by (auto simp: mem_write_def mem_read_def take_drop_splice_at
      split: if_splits ptr.splits option.splits)

end
