(* ===== verification/Endian.thy ===== *)
theory Endian
  imports Cmem
begin

text \<open>
  \<^verbatim>\<open>include/dts/net/endian.h\<close>: reading and writing 16- and 32-bit integers in
  little-endian (\<open>lr\<close>, \<open>lw\<close>) and big-endian (\<open>br\<close>, \<open>bw\<close>) byte order.  Each writer
  returns the pointer behind the bytes it stored, as the code does.  The locale
  \<open>field_codec\<close> states what the packet modules rely on (a writer stores exactly
  the encoding, a reader inverts it); it is interpreted for all four pairs.
\<close>

section \<open>The accessors\<close>

definition lr16 :: "'w heap_scheme \<Rightarrow> ptr \<Rightarrow> u16 option" where
  "lr16 h p = do {
     d1 \<leftarrow> rd8 h (padd p 1);
     d0 \<leftarrow> rd8 h p;
     Some (ucast (push_bit 8 (ucast d1 :: u32) OR ucast d0)) }"

definition lw16 :: "u16 \<Rightarrow> ptr \<Rightarrow> 'w heap_scheme \<Rightarrow> (ptr \<times> 'w heap_scheme) option" where
  "lw16 data buff h = do {
     h \<leftarrow> wr8 buff (ucast (data AND 0xFF)) h;
     h \<leftarrow> wr8 (padd buff 1) (ucast (drop_bit 8 data AND 0xFF)) h;
     Some (padd buff 2, h) }"

definition lr32 :: "'w heap_scheme \<Rightarrow> ptr \<Rightarrow> u32 option" where
  "lr32 h p = do {
     d3 \<leftarrow> rd8 h (padd p 3);
     d2 \<leftarrow> rd8 h (padd p 2);
     d1 \<leftarrow> rd8 h (padd p 1);
     d0 \<leftarrow> rd8 h p;
     Some (push_bit 24 (ucast d3) OR push_bit 16 (ucast d2) OR
           push_bit 8 (ucast d1) OR ucast d0) }"

definition lw32 :: "u32 \<Rightarrow> ptr \<Rightarrow> 'w heap_scheme \<Rightarrow> (ptr \<times> 'w heap_scheme) option" where
  "lw32 data buff h = do {
     h \<leftarrow> wr8 buff (ucast (data AND 0xFF)) h;
     h \<leftarrow> wr8 (padd buff 1) (ucast (drop_bit 8 data AND 0xFF)) h;
     h \<leftarrow> wr8 (padd buff 2) (ucast (drop_bit 16 data AND 0xFF)) h;
     h \<leftarrow> wr8 (padd buff 3) (ucast (drop_bit 24 data AND 0xFF)) h;
     Some (padd buff 4, h) }"

definition br16 :: "'w heap_scheme \<Rightarrow> ptr \<Rightarrow> u16 option" where
  "br16 h p = do {
     d0 \<leftarrow> rd8 h p;
     d1 \<leftarrow> rd8 h (padd p 1);
     Some (ucast (push_bit 8 (ucast d0 :: u32) OR ucast d1)) }"

definition bw16 :: "u16 \<Rightarrow> ptr \<Rightarrow> 'w heap_scheme \<Rightarrow> (ptr \<times> 'w heap_scheme) option" where
  "bw16 data buff h = do {
     h \<leftarrow> wr8 (padd buff 1) (ucast (data AND 0xFF)) h;
     h \<leftarrow> wr8 buff (ucast (drop_bit 8 data AND 0xFF)) h;
     Some (padd buff 2, h) }"

definition br32 :: "'w heap_scheme \<Rightarrow> ptr \<Rightarrow> u32 option" where
  "br32 h p = do {
     d0 \<leftarrow> rd8 h p;
     d1 \<leftarrow> rd8 h (padd p 1);
     d2 \<leftarrow> rd8 h (padd p 2);
     d3 \<leftarrow> rd8 h (padd p 3);
     Some (push_bit 24 (ucast d0) OR push_bit 16 (ucast d1) OR
           push_bit 8 (ucast d2) OR ucast d3) }"

definition bw32 :: "u32 \<Rightarrow> ptr \<Rightarrow> 'w heap_scheme \<Rightarrow> (ptr \<times> 'w heap_scheme) option" where
  "bw32 data buff h = do {
     h \<leftarrow> wr8 (padd buff 3) (ucast (data AND 0xFF)) h;
     h \<leftarrow> wr8 (padd buff 2) (ucast (drop_bit 8 data AND 0xFF)) h;
     h \<leftarrow> wr8 (padd buff 1) (ucast (drop_bit 16 data AND 0xFF)) h;
     h \<leftarrow> wr8 buff (ucast (drop_bit 24 data AND 0xFF)) h;
     Some (padd buff 4, h) }"

section \<open>The encodings as byte lists\<close>

definition be16 :: "u16 \<Rightarrow> u8 list" where
  "be16 v = [ucast (drop_bit 8 v), ucast v]"

definition be32 :: "u32 \<Rightarrow> u8 list" where
  "be32 v = [ucast (drop_bit 24 v), ucast (drop_bit 16 v), ucast (drop_bit 8 v), ucast v]"

definition of_be16 :: "u8 list \<Rightarrow> u16" where
  "of_be16 bs = push_bit 8 (ucast (bs ! 0)) OR ucast (bs ! 1)"

definition of_be32 :: "u8 list \<Rightarrow> u32" where
  "of_be32 bs = push_bit 24 (ucast (bs ! 0)) OR push_bit 16 (ucast (bs ! 1)) OR
     push_bit 8 (ucast (bs ! 2)) OR ucast (bs ! 3)"

lemma length_be16 [simp]: "length (be16 v) = 2"
  by (simp add: be16_def)

lemma length_be32 [simp]: "length (be32 v) = 4"
  by (simp add: be32_def)

lemma of_be16_be16 [simp]: "of_be16 (be16 v) = v"
  by (rule bit_word_eqI) (auto simp: of_be16_def be16_def bit_simps)

lemma of_be32_be32 [simp]: "of_be32 (be32 v) = v"
  by (rule bit_word_eqI) (auto simp: of_be32_def be32_def bit_simps dest!: bit_shift_lt)

lemma list_of_length2: "length bs = 2 \<longleftrightarrow> (\<exists>a b. bs = [a, b])"
  by (auto simp: numeral_2_eq_2 length_Suc_conv)

lemma list_of_length4: "length bs = 4 \<longleftrightarrow> (\<exists>a b c d. bs = [a, b, c, d])"
  by (auto simp: length_Suc_conv eval_nat_numeral)

lemma be16_of_be16: "length bs = 2 \<Longrightarrow> be16 (of_be16 bs) = bs"
  by (auto simp: list_of_length2 of_be16_def be16_def bit_simps not_bit_u8 intro!: bit_word_eqI)

lemma be32_of_be32: "length bs = 4 \<Longrightarrow> be32 (of_be32 bs) = bs"
  by (auto simp: list_of_length4 of_be32_def be32_def bit_simps not_bit_u8 intro!: bit_word_eqI)

section \<open>The accessors over byte lists\<close>

lemma rd8_pair:
  "do { x \<leftarrow> rd8 h p; y \<leftarrow> rd8 h (padd p 1); Some (f x y) } =
   map_option (\<lambda>bs. f (bs ! 0) (bs ! 1)) (mem_read h p 2)"
  by (cases p) (auto simp: mem_read_def split: option.splits)

lemma rd8_quad:
  "do { x \<leftarrow> rd8 h p; y \<leftarrow> rd8 h (padd p 1); z \<leftarrow> rd8 h (padd p 2);
        w \<leftarrow> rd8 h (padd p 3); Some (f x y z w) } =
   map_option (\<lambda>bs. f (bs ! 0) (bs ! 1) (bs ! 2) (bs ! 3)) (mem_read h p 4)"
  by (cases p) (auto simp: mem_read_def split: option.splits)

lemma br16_read: "br16 h p = map_option of_be16 (mem_read h p 2)"
proof -
  have eq: "(ucast (push_bit 8 (ucast x :: u32) OR ucast y) :: u16) =
      push_bit 8 (ucast x) OR ucast y" for x y :: u8
    by (rule bit_word_eqI) (auto simp: bit_simps)
  show ?thesis
    unfolding br16_def rd8_pair by (simp add: eq of_be16_def [abs_def])
qed

lemma br32_read: "br32 h p = map_option of_be32 (mem_read h p 4)"
  unfolding br32_def rd8_quad of_be32_def [abs_def] ..

lemma lr16_read: "lr16 h p = map_option (\<lambda>bs. of_be16 (rev bs)) (mem_read h p 2)"
proof -
  have eq: "(ucast (push_bit 8 (ucast x :: u32) OR ucast y) :: u16) =
      push_bit 8 (ucast x) OR ucast y" for x y :: u8
    by (rule bit_word_eqI) (auto simp: bit_simps)
  have "lr16 h p = do { x \<leftarrow> rd8 h p; y \<leftarrow> rd8 h (padd p 1);
      Some (push_bit 8 (ucast y) OR ucast x) }"
    by (cases "rd8 h p"; cases "rd8 h (padd p 1)") (simp_all add: lr16_def eq)
  also have "\<dots> = map_option (\<lambda>bs. push_bit 8 (ucast (bs ! 1)) OR ucast (bs ! 0)) (mem_read h p 2)"
    by (rule rd8_pair)
  also have "\<dots> = map_option (\<lambda>bs. of_be16 (rev bs)) (mem_read h p 2)"
    by (auto simp: of_be16_def list_of_length2 dest!: mem_read_length intro!: option.map_cong0)
  finally show ?thesis .
qed

lemma lr32_read: "lr32 h p = map_option (\<lambda>bs. of_be32 (rev bs)) (mem_read h p 4)"
proof -
  have "lr32 h p = do { x \<leftarrow> rd8 h p; y \<leftarrow> rd8 h (padd p 1); z \<leftarrow> rd8 h (padd p 2);
      w \<leftarrow> rd8 h (padd p 3);
      Some (push_bit 24 (ucast w) OR push_bit 16 (ucast z) OR push_bit 8 (ucast y) OR ucast x) }"
    by (cases "rd8 h p"; cases "rd8 h (padd p 1)"; cases "rd8 h (padd p 2)";
        cases "rd8 h (padd p 3)") (simp_all add: lr32_def)
  also have "\<dots> = map_option (\<lambda>bs. push_bit 24 (ucast (bs ! 3)) OR push_bit 16 (ucast (bs ! 2)) OR
      push_bit 8 (ucast (bs ! 1)) OR ucast (bs ! 0)) (mem_read h p 4)"
    by (rule rd8_quad)
  also have "\<dots> = map_option (\<lambda>bs. of_be32 (rev bs)) (mem_read h p 4)"
    by (auto simp: of_be32_def list_of_length4 dest!: mem_read_length intro!: option.map_cong0)
  finally show ?thesis .
qed

lemma ucast_and_ff: "(ucast (w AND 0xFF) :: u8) = ucast w" for w :: "'a::len word"
proof -
  have "w AND 0xFF = take_bit 8 w"
    by (simp add: take_bit_eq_mask mask_eq_exp_minus_1)
  then show ?thesis
    by (simp only:) (auto intro: bit_word_eqI simp: bit_simps dest: bit_imp_le_length)
qed

lemma mem_write_2:
  "mem_write p [a, b] h = Option.bind (mem_write p [a] h) (mem_write (padd p 1) [b])"
  using mem_write_append [of p "[a]" "[b]" h] by simp

lemma mem_write_2_rev:
  "mem_write p [a, b] h = Option.bind (mem_write (padd p 1) [b] h) (mem_write p [a])"
  using mem_write_append_rev [of p "[a]" "[b]" h] by simp

lemma mem_write_4:
  "mem_write p [a, b, c, d] h =
   Option.bind (mem_write p [a, b] h) (mem_write (padd p 2) [c, d])"
  using mem_write_append [of p "[a, b]" "[c, d]" h] by (simp add: numeral_2_eq_2)

lemma mem_write_4_rev:
  "mem_write p [a, b, c, d] h =
   Option.bind (mem_write (padd p 2) [c, d] h) (mem_write p [a, b])"
  using mem_write_append_rev [of p "[a, b]" "[c, d]" h] by (simp add: numeral_2_eq_2)

lemmas write_unfold = wr8_mem_write ucast_and_ff map_conv_bind_option comp_def

lemma bw16_write: "bw16 v p h = map_option (Pair (padd p 2)) (mem_write p (be16 v) h)"
  by (simp add: bw16_def be16_def write_unfold mem_write_2_rev)

lemma lw16_write: "lw16 v p h = map_option (Pair (padd p 2)) (mem_write p (rev (be16 v)) h)"
  by (simp add: lw16_def be16_def write_unfold mem_write_2)

lemma bw32_write: "bw32 v p h = map_option (Pair (padd p 4)) (mem_write p (be32 v) h)"
  by (simp add: bw32_def be32_def write_unfold mem_write_4_rev mem_write_2_rev)

lemma lw32_write: "lw32 v p h = map_option (Pair (padd p 4)) (mem_write p (rev (be32 v)) h)"
  by (simp add: lw32_def be32_def write_unfold mem_write_4 mem_write_2)

section \<open>Runs of stores\<close>

text \<open>
  Packing code stores field after field; these rules collapse such a run into the store of
  one byte list, in the do-notation the packers are written in.
\<close>

lemma write_run:
  "k = length xs \<Longrightarrow> Option.bind (mem_write p xs h) (\<lambda>h. Option.bind (mem_write (padd p k) ys h) f) =
   Option.bind (mem_write p (xs @ ys) h) f"
  by (simp add: mem_write_append)

lemma write_over:
  "length xs = length zs \<Longrightarrow>
   Option.bind (mem_write p zs h) (\<lambda>h. Option.bind (mem_write p xs h) f) =
   Option.bind (mem_write p xs h) f"
  by (cases p) (auto simp: mem_write_def splice_at_over split: option.splits)

lemma bind_pair_write:
  "Option.bind (map_option (Pair q) m) f = Option.bind m (\<lambda>h. f (q, h))"
  by (cases m) simp_all

lemmas store_simps = wr8_mem_write bw16_write bw32_write bind_pair_write write_run

section \<open>The interface the packet modules use\<close>

text \<open>
  A codec for a field of fixed width: \<open>put\<close> stores the encoding and returns the
  pointer behind it, \<open>got\<close> decodes what is there.  Packing and unpacking rely on
  these laws only.
\<close>

locale field_codec =
  fixes put :: "'v \<Rightarrow> ptr \<Rightarrow> 'w heap_scheme \<Rightarrow> (ptr \<times> 'w heap_scheme) option"
    and got :: "'w heap_scheme \<Rightarrow> ptr \<Rightarrow> 'v option"
    and enc :: "'v \<Rightarrow> u8 list"
    and dec :: "u8 list \<Rightarrow> 'v"
    and width :: nat
  assumes width_pos: "0 < width"
    and enc_width: "length (enc v) = width"
    and dec_enc: "dec (enc v) = v"
    and enc_dec: "length bs = width \<Longrightarrow> enc (dec bs) = bs"
    and put_enc: "put v p h = map_option (Pair (padd p width)) (mem_write p (enc v) h)"
    and got_dec: "got h p = map_option dec (mem_read h p width)"
begin

lemma got_put: "put v p h = Some (q, h') \<Longrightarrow> got h' p = Some v \<and> q = padd p width"
  using mem_read_write_same [of p "enc v" h h'] by (auto simp: put_enc got_dec enc_width dec_enc)

lemma put_got: "got h p = Some v \<Longrightarrow> put v p h = Some (padd p width, h)"
  by (cases p) (auto simp: put_enc got_dec enc_dec mem_read_def mem_write_def splice_at_idem
      enc_width width_pos split: if_splits option.splits intro!: heap.equality)

lemma put_defined_iff:
  "put v (Ptr b i) h \<noteq> None \<longleftrightarrow> (\<exists>bs. bufs h b = Some bs \<and> i + width \<le> length bs)"
  using width_pos enc_width [of v]
  by (auto simp: put_enc mem_write_def split: option.splits)

end

interpretation be16: field_codec bw16 br16 be16 of_be16 2
  by unfold_locales (simp_all add: be16_of_be16 bw16_write br16_read)

interpretation be32: field_codec bw32 br32 be32 of_be32 4
  by unfold_locales (simp_all add: be32_of_be32 bw32_write br32_read)

interpretation le16: field_codec lw16 lr16 "\<lambda>v. rev (be16 v)" "\<lambda>bs. of_be16 (rev bs)" 2
  by unfold_locales (simp_all add: be16_of_be16 lw16_write lr16_read)

interpretation le32: field_codec lw32 lr32 "\<lambda>v. rev (be32 v)" "\<lambda>bs. of_be32 (rev bs)" 4
  by unfold_locales (simp_all add: be32_of_be32 lw32_write lr32_read)

end
