(* ===== verification/Checksum.thy ===== *)
theory Checksum
  imports Endian
begin

text \<open>
  \<^verbatim>\<open>include/dts/net/checksum.h\<close>: the Internet checksum.  \<open>csum_loop\<close> is the
  summing loop, which \<^verbatim>\<open>checksum\<close> runs on a 32-bit and \<^verbatim>\<open>checksum_accmulate\<close> on a
  64-bit accumulator, \<open>csum_fold\<close> the folding loop.  The specification side is
  \<open>wsum\<close>, the sum of the big-endian 16-bit words of a byte list as a natural
  number, and \<open>oc_norm\<close>, its one's complement representative below 65536.
\<close>

section \<open>The code\<close>

function csum_loop :: "'a::len word \<Rightarrow> nat \<Rightarrow> nat \<Rightarrow> ptr \<Rightarrow> 'w heap_scheme \<Rightarrow> 'a word option" where
  "csum_loop acc i len data h =
     (if i < len then do {
        w \<leftarrow> br16 h data;
        csum_loop (acc + ucast w) (i + 2) len (padd data 2) h }
      else Some acc)"
  by pat_completeness auto
termination
  by (relation "measure (\<lambda>(acc, i, len, data, h). len - i)") auto

declare csum_loop.simps [simp del]

lemma csum_fold_decreases:
  fixes s :: "'a::len word"
  assumes "drop_bit 16 s \<noteq> 0"
  shows "unat ((s AND mask 16) + drop_bit 16 s) < unat s"
proof -
  have pos: "0 < unat s div 65536"
    using assms by (metis unat_drop16 unat_eq_zero gr0I)
  have sum: "unat (s AND mask 16) + unat (drop_bit 16 s) < unat s"
    unfolding unat_and_mask16 unat_drop16
    using pos div_mult_mod_eq [of "unat s" 65536] by linarith
  have "unat ((s AND mask 16) + drop_bit 16 s) \<le> unat (s AND mask 16) + unat (drop_bit 16 s)"
    by (simp only: unat_word_ariths) (rule mod_less_eq_dividend)
  with sum show ?thesis by linarith
qed

function csum_fold :: "'a::len word \<Rightarrow> 'a word" where
  "csum_fold s = (if drop_bit 16 s \<noteq> 0 then csum_fold ((s AND mask 16) + drop_bit 16 s) else s)"
  by pat_completeness auto
termination
  by (relation "measure unat") (use csum_fold_decreases in auto)

declare csum_fold.simps [simp del]

definition checksum :: "ptr \<Rightarrow> nat \<Rightarrow> 'w heap_scheme \<Rightarrow> u16 option" where
  "checksum data len h = do {
     acc \<leftarrow> csum_loop (0 :: u32) 0 len data h;
     Some (ucast (NOT (csum_fold acc))) }"

definition checksum_accmulate :: "u64 \<Rightarrow> ptr \<Rightarrow> nat \<Rightarrow> 'w heap_scheme \<Rightarrow> u64 option" where
  "checksum_accmulate acc data len h = csum_loop acc 0 len data h"

definition checksum_complete :: "u64 \<Rightarrow> u16" where
  "checksum_complete acc = ucast (NOT (csum_fold acc))"

section \<open>What the loops compute\<close>

fun wsum :: "u8 list \<Rightarrow> nat" where
  "wsum [] = 0"
| "wsum [a] = 256 * unat a"
| "wsum (a # b # bs) = 256 * unat a + unat b + wsum bs"

definition even_up :: "nat \<Rightarrow> nat" where
  "even_up n = n + n mod 2"

definition oc_norm :: "nat \<Rightarrow> nat" where
  "oc_norm s = (if s = 0 then 0 else (s - 1) mod 65535 + 1)"

lemma even_up_even [simp]: "even n \<Longrightarrow> even_up n = n"
  by (simp add: even_up_def even_iff_mod_2_eq_zero)

lemma even_up_Suc_Suc [simp]: "even_up (Suc (Suc n)) = Suc (Suc (even_up n))"
  by (simp add: even_up_def)

lemma even_up_1 [simp]: "even_up (Suc 0) = 2"
  by (simp add: even_up_def)

lemma even_even_up [simp]: "even (even_up n)"
  by (simp add: even_up_def)

lemma wsum_append: "even (length xs) \<Longrightarrow> wsum (xs @ ys) = wsum xs + wsum ys"
  by (induction xs rule: wsum.induct) auto

lemma unat_of_be16: "unat (of_be16 [a, b]) = 256 * unat a + unat b"
proof -
  have "push_bit 8 (ucast a) AND ucast b = (0 :: u16)"
    by (rule bit_word_eqI) (auto simp: bit_simps not_bit_u8)
  then have "of_be16 [a, b] = push_bit 8 (ucast a) + (ucast b :: u16)"
    by (simp add: of_be16_def disjunctive_add_eq_or)
  moreover have "push_bit 8 (ucast a) = (of_nat (256 * unat a) :: u16)"
    by (simp add: push_bit_eq_mult)
  moreover have "ucast b = (of_nat (unat b) :: u16)"
    by simp
  ultimately have "of_be16 [a, b] = (of_nat (256 * unat a + unat b) :: u16)"
    by (simp only: of_nat_add)
  moreover have "256 * unat a + unat b < 65536"
    using unat_u8_less [of a] unat_u8_less [of b] by linarith
  ultimately show ?thesis
    by (simp only: unat_of_nat) simp
qed

lemma csum_loop_eq:
  "csum_loop acc i n p h =
   map_option (\<lambda>bs. acc + of_nat (wsum bs)) (mem_read h p (even_up (n - i)))"
proof (induction acc i n p h rule: csum_loop.induct)
  case (1 acc i n p h)
  show ?case
  proof (cases "i < n")
    case False
    then show ?thesis by (simp add: csum_loop.simps [of acc i])
  next
    case True
    define m where "m = even_up (n - (i + 2))"
    have m: "even_up (n - i) = 2 + m"
    proof (cases "n - i = 1")
      case True
      then have "n - (i + 2) = 0" by simp
      with True show ?thesis by (simp add: m_def)
    next
      case False
      with \<open>i < n\<close> have "n - i = Suc (Suc (n - (i + 2)))" by simp
      then show ?thesis by (simp add: m_def)
    qed
    have loop: "csum_loop acc i n p h =
        do { w \<leftarrow> br16 h p; csum_loop (acc + ucast w) (i + 2) n (padd p 2) h }"
      using True by (simp add: csum_loop.simps [of acc i])
    show ?thesis
    proof (cases "mem_read h p 2")
      case None
      then show ?thesis unfolding loop m mem_read_add by (simp add: br16_read)
    next
      case (Some xs)
      then obtain a b where xs: "xs = [a, b]"
        using mem_read_length [OF Some] by (auto simp: list_of_length2)
      have br: "br16 h p = Some (of_be16 [a, b])" by (simp add: br16_read Some xs)
      have val: "ucast (of_be16 [a, b]) = (of_nat (256 * unat a + unat b) :: 'a word)"
        unfolding unat_of_be16 [symmetric] by simp
      have "acc + ucast (of_be16 [a, b]) + of_nat (wsum r) = acc + of_nat (wsum (a # b # r))" for r
        unfolding val wsum.simps of_nat_add by (simp only: add.assoc)
      moreover have "csum_loop (acc + ucast (of_be16 [a, b])) (i + 2) n (padd p 2) h =
          map_option (\<lambda>r. acc + ucast (of_be16 [a, b]) + of_nat (wsum r)) (mem_read h (padd p 2) m)"
        using 1 [OF True br] by (simp add: m_def)
      ultimately show ?thesis
        unfolding loop m mem_read_add br Some xs
        by (simp add: map_conv_bind_option comp_def add.assoc)
    qed
  qed
qed

lemma oc_norm_less: "oc_norm s < 65536"
  by (simp add: oc_norm_def)

lemma oc_norm_small: "s < 65536 \<Longrightarrow> oc_norm s = s"
  by (simp add: oc_norm_def)

lemma oc_norm_mod: "oc_norm s mod 65535 = s mod 65535"
  by (cases s) (simp_all add: oc_norm_def mod_Suc_eq)

lemma oc_norm_eqI: "s mod 65535 = t mod 65535 \<Longrightarrow> s = 0 \<longleftrightarrow> t = 0 \<Longrightarrow> oc_norm s = oc_norm t"
  by (cases s; cases t) (auto simp: oc_norm_def mod_Suc split: if_splits)

lemma unat_csum_fold: "unat (csum_fold s) = oc_norm (unat s)"
proof (induction s rule: csum_fold.induct)
  case (1 s)
  show ?case
  proof (cases "drop_bit 16 s = 0")
    case True
    then have "unat s div 65536 = 0" by (metis unat_0 unat_drop16)
    then have "unat s < 65536" by (simp add: div_eq_0_iff)
    with True show ?thesis by (simp add: csum_fold.simps [of s] oc_norm_small)
  next
    case False
    define t where "t = (s AND mask 16) + drop_bit 16 s"
    have less: "unat s mod 65536 + unat s div 65536 \<le> unat s"
      using div_mult_mod_eq [of "unat s" 65536] by linarith
    have t: "unat t = unat s mod 65536 + unat s div 65536"
      unfolding t_def unat_word_ariths unat_and_mask16 unat_drop16
      by (rule mod_less) (rule le_less_trans [OF less unsigned_less])
    have "oc_norm (unat t) = oc_norm (unat s)"
    proof (rule oc_norm_eqI)
      have "unat s = unat t + 65535 * (unat s div 65536)"
        using div_mult_mod_eq [of "unat s" 65536] t by linarith
      then show "unat t mod 65535 = unat s mod 65535" by (metis mod_mult_self2)
      show "unat t = 0 \<longleftrightarrow> unat s = 0"
        using t div_mult_mod_eq [of "unat s" 65536] by auto
    qed
    with 1 [OF False] False show ?thesis
      by (simp add: csum_fold.simps [of s] t_def)
  qed
qed

lemma unat_not_u16: "unat (NOT w) = 65535 - unat w" for w :: u16
proof -
  have "NOT w = - 1 - w" by (simp add: not_eq_complement)
  then show ?thesis
    by (simp add: unat_sub word_order.extremum unsigned_minus_1_eq_mask mask_eq_exp_minus_1)
qed

lemma unat_csum_complement:
  fixes s :: "'a::len word"
  assumes "16 \<le> LENGTH('a)"
  shows "unat (ucast (NOT (csum_fold s)) :: u16) = 65535 - oc_norm (unat s)"
proof -
  have "(ucast (NOT (csum_fold s)) :: u16) = NOT (ucast (csum_fold s))"
    using assms by (intro bit_word_eqI) (auto simp: bit_simps)
  moreover have "unat (ucast (csum_fold s) :: u16) = oc_norm (unat s)"
    by (simp add: unsigned_ucast_eq unsigned_take_bit_eq take_bit_eq_mod oc_norm_less unat_csum_fold)
  ultimately show ?thesis by (simp add: unat_not_u16)
qed

section \<open>The Internet checksum\<close>

text \<open>
  \<open>inet_csum\<close> is the checksum of RFC 1071 over a byte list.  The code computes it
  for even lengths; an odd length makes it read the byte behind the buffer.
\<close>

definition inet_csum :: "u8 list \<Rightarrow> u16" where
  "inet_csum bs = of_nat (65535 - oc_norm (wsum bs))"

lemma wsum_bound: "wsum bs \<le> 65535 * length bs"
proof (induction bs rule: wsum.induct)
  case (2 a)
  have "unat a \<le> 255" using unat_u8_less [of a] by linarith
  then show ?case by simp
next
  case (3 a b bs)
  have "unat a \<le> 255" "unat b \<le> 255"
    using unat_u8_less [of a] unat_u8_less [of b] by linarith+
  with 3 show ?case by simp
qed simp

lemma u16_eqI: "unat a = unat b \<Longrightarrow> a = b" for a b :: u16
  by (simp add: word_unat_eq_iff)

lemma unat_inet_csum: "unat (inet_csum bs) = 65535 - oc_norm (wsum bs)"
  by (simp add: inet_csum_def unat_of_nat)

lemma csum_value:
  fixes s :: "'a::len word"
  assumes "16 \<le> LENGTH('a)" "unat s = wsum bs"
  shows "ucast (NOT (csum_fold s)) = inet_csum bs"
  using unat_csum_complement [OF assms(1), of s] assms(2)
  by (intro u16_eqI) (simp add: unat_inet_csum)

lemma unat_of_nat_small: "n < 2 ^ LENGTH('a) \<Longrightarrow> unat (of_nat n :: 'a::len word) = n"
  by (simp add: unat_of_nat)

lemma checksum_even:
  assumes "mem_read h p n = Some bs" "even n" "n \<le> 65536"
  shows "checksum p n h = Some (inet_csum bs)"
proof -
  have "wsum bs \<le> 65535 * n"
    using wsum_bound [of bs] mem_read_length [OF assms(1)] by simp
  then have "unat (of_nat (wsum bs) :: u32) = wsum bs"
    using assms(3) by (intro unat_of_nat_small) simp
  with assms show ?thesis by (simp add: checksum_def csum_loop_eq csum_value)
qed

lemma checksum_accmulate_even:
  assumes "mem_read h p n = Some bs" "even n"
  shows "checksum_accmulate acc p n h = Some (acc + of_nat (wsum bs))"
  using assms by (simp add: checksum_accmulate_def csum_loop_eq)

lemma checksum_complete_wsum:
  assumes "length bs < 2 ^ 32"
  shows "checksum_complete (of_nat (wsum bs)) = inet_csum bs"
proof -
  have "wsum bs < 2 ^ 64" using wsum_bound [of bs] assms by simp
  then have "unat (of_nat (wsum bs) :: u64) = wsum bs"
    by (intro unat_of_nat_small) simp
  then show ?thesis by (simp add: checksum_complete_def csum_value)
qed

lemma checksum_odd_overread:
  assumes "odd n" "bufs h b = Some bs" "length bs = i + n"
  shows "checksum (Ptr b i) n h = None"
  using assms by (simp add: checksum_def csum_loop_eq even_up_def mem_read_outside odd_iff_mod_2_eq_one)

lemma wsum_splice:
  assumes "even k" "k + 2 \<le> length bs" and len2: "length ys = 2"
  shows "wsum (splice_at bs k ys) + wsum (take 2 (drop k bs)) = wsum bs + wsum ys"
proof -
  obtain a b where ys: "ys = [a, b]" using len2 by (auto simp: list_of_length2)
  have bs: "bs = take k bs @ take 2 (drop k bs) @ drop (k + 2) bs"
    by (metis append_take_drop_id drop_drop add.commute)
  have "wsum bs = wsum (take k bs) + (wsum (take 2 (drop k bs)) + wsum (drop (k + 2) bs))"
    using assms by (subst bs) (simp add: wsum_append del: append_take_drop_id)
  moreover have "wsum (splice_at bs k ys) = wsum (take k bs) + (wsum ys + wsum (drop (k + 2) bs))"
    using assms by (simp add: splice_at_def wsum_append)
  ultimately show ?thesis by simp
qed

lemma wsum_be16: "wsum (be16 v) = unat v"
proof -
  have "wsum (be16 v) = unat (of_be16 (be16 v))"
    unfolding be16_def unat_of_be16 by simp
  then show ?thesis by simp
qed

text \<open>
  A receiver that sums the data with the checksum in place gets zero: the defining
  property of the Internet checksum.
\<close>

lemma inet_csum_verifies:
  assumes "even k" "k + 2 \<le> length bs" "take 2 (drop k bs) = [0, 0]"
  shows "inet_csum (splice_at bs k (be16 (inet_csum bs))) = 0"
proof -
  define c where "c = unat (inet_csum bs)"
  have c: "c = 65535 - oc_norm (wsum bs)" by (simp add: c_def unat_inet_csum)
  have sum: "wsum (splice_at bs k (be16 (inet_csum bs))) = wsum bs + c"
    using wsum_splice [OF assms(1,2), of "be16 (inet_csum bs)"] assms(3)
    by (simp add: wsum_be16 c_def)
  have "oc_norm (wsum bs + c) = oc_norm 65535"
  proof (rule oc_norm_eqI)
    have "(wsum bs + c) mod 65535 = (oc_norm (wsum bs) + c) mod 65535"
      by (metis mod_add_left_eq oc_norm_mod)
    also have "oc_norm (wsum bs) + c = 65535"
      using oc_norm_less [of "wsum bs"] by (simp add: c)
    finally show "(wsum bs + c) mod 65535 = 65535 mod 65535" .
    show "wsum bs + c = 0 \<longleftrightarrow> (65535 :: nat) = 0"
      by (auto simp: c oc_norm_def)
  qed
  also have "oc_norm 65535 = 65535" by (simp add: oc_norm_def)
  finally show ?thesis
    unfolding inet_csum_def [of "splice_at bs k (be16 (inet_csum bs))"] sum by simp
qed

end
