(* ===== verification/Dblk.thy ===== *)
theory Dblk
  imports Cmem
begin

text \<open>
  \<^verbatim>\<open>dts_net_dblk.c\<close>: the data-block list that carries packets between the layers.
  A node holds a stretch of bytes; nodes whose \<^verbatim>\<open>more\<close> bit is set continue into the
  next one, and such a run of nodes is a logical block.  A node with a non-zero
  \<^verbatim>\<open>vsize\<close> is a virtual node: its bytes go on in the nodes behind \<^verbatim>\<open>vmem\<close>.  Every
  function of the file is translated over the heap of \<open>Cmem\<close>; loops over \<^verbatim>\<open>next\<close>
  pointers are \<open>partial_function\<close>s, since a cyclic list makes them run forever.
\<close>

section \<open>Nodes\<close>

definition init_dblk :: "ptr \<Rightarrow> nat \<Rightarrow> dblk" where
  "init_dblk data len = \<lparr>d_next = None, d_data = data, d_size = u16_of len,
     d_data_malloc = False, d_node_malloc = False, d_more = False,
     d_vsize = 0, d_vmem = None, d_offset = 0\<rparr>"

definition dblk_node_init ::
  "addr option \<Rightarrow> ptr \<Rightarrow> nat \<Rightarrow> 'w heap_scheme \<Rightarrow> (addr option \<times> 'w heap_scheme) option" where
  "dblk_node_init dblk data len h =
     (if dblk \<noteq> None then do { h \<leftarrow> upd_node dblk (\<lambda>_. init_dblk data len) h; Some (dblk, h) }
      else Some (None, h))"

definition dblk_node_new_from_stack ::
  "ptr \<Rightarrow> nat \<Rightarrow> 'w heap_scheme \<Rightarrow> addr option \<times> 'w heap_scheme" where
  "dblk_node_new_from_stack data len h = new_node (init_dblk data len) h"

definition dblk_node_new_from_stack_with_buff ::
  "nat \<Rightarrow> 'w heap_scheme \<Rightarrow> addr option \<times> 'w heap_scheme" where
  "dblk_node_new_from_stack_with_buff len h =
     (case new_buf (fresh_bytes h len) h of (buf, h) \<Rightarrow> new_node (init_dblk buf len) h)"

definition dblk_node_new ::
  "ptr \<Rightarrow> nat \<Rightarrow> 'w heap_scheme \<Rightarrow> (addr option \<times> 'w heap_scheme) option" where
  "dblk_node_new data len h = (case malloc_node (init_dblk Null 0) h of (p, h) \<Rightarrow> do {
     (dblk, h) \<leftarrow> dblk_node_init p data len h;
     if dblk \<noteq> None then do {
       h \<leftarrow> upd_node dblk (\<lambda>d. d\<lparr>d_node_malloc := True\<rparr>) h;
       Some (dblk, h) }
     else Some (dblk, h) })"

definition dblk_node_new_with_buff ::
  "nat \<Rightarrow> 'w heap_scheme \<Rightarrow> (addr option \<times> 'w heap_scheme) option" where
  "dblk_node_new_with_buff len h = (case malloc_buf len h of (data, h) \<Rightarrow>
     if data \<noteq> Null then do {
       (dblk, h) \<leftarrow> dblk_node_new data len h;
       if dblk \<noteq> None then do {
         h \<leftarrow> upd_node dblk (\<lambda>d. d\<lparr>d_data_malloc := True\<rparr>) h;
         Some (dblk, h) }
       else do {
         h \<leftarrow> free_buf data h;
         Some (None, h) } }
     else Some (None, h))"

definition node_size :: "dblk \<Rightarrow> nat" where
  "node_size d = (if d_vsize d \<noteq> 0 then d_vsize d else d_size d)"

definition dblk_node_size :: "'w heap_scheme \<Rightarrow> addr option \<Rightarrow> nat option" where
  "dblk_node_size h dblk =
     (if dblk \<noteq> None then do { d \<leftarrow> get_node h dblk; Some (node_size d) } else Some 0)"

definition dblk_node_concat ::
  "addr option \<Rightarrow> addr option \<Rightarrow> 'w heap_scheme \<Rightarrow> 'w heap_scheme option" where
  "dblk_node_concat b1 b2 h = do {
     h \<leftarrow> upd_node b1 (\<lambda>d. d\<lparr>d_next := b2\<rparr>) h;
     if b2 \<noteq> None then upd_node b1 (\<lambda>d. d\<lparr>d_more := True\<rparr>) h else Some h }"

definition is_vmem_node :: "dblk \<Rightarrow> bool" where
  "is_vmem_node d \<longleftrightarrow> d_vsize d > 0"

text \<open>The loop of \<^verbatim>\<open>dblk_node_copy_to\<close> that goes on behind \<^verbatim>\<open>vmem\<close>.\<close>

partial_function (option) copy_vmem ::
  "addr option \<Rightarrow> ptr \<Rightarrow> nat \<Rightarrow> 'w heap_scheme \<Rightarrow> 'w heap_scheme option" where
  "copy_vmem vmem mem remain h =
     (if remain = 0 then Some h
      else case vmem of None \<Rightarrow> Some h
        | Some a \<Rightarrow> do {
            v \<leftarrow> nodes h a;
            if remain > d_size v then do {
              h \<leftarrow> memcpy mem (d_data v) (d_size v) h;
              copy_vmem (d_next v) (padd mem (d_size v)) (remain - d_size v) h }
            else memcpy mem (d_data v) remain h })"

definition dblk_node_copy_to ::
  "addr option \<Rightarrow> ptr \<Rightarrow> nat \<Rightarrow> 'w heap_scheme \<Rightarrow> (nat \<times> 'w heap_scheme) option" where
  "dblk_node_copy_to dblk mem len h = do {
     d \<leftarrow> get_node h dblk;
     if d_vsize d = 0 then do {
       let do_size = (if len > d_size d then d_size d else len);
       h \<leftarrow> memcpy mem (d_data d) do_size h;
       Some (do_size, h) }
     else do {
       let do_size = (if len > d_vsize d then d_vsize d else len);
       h \<leftarrow> (if d_vsize d > d_size d then do {
               let remain_size = d_vsize d - d_size d;
               h \<leftarrow> memcpy mem (d_data d) (d_size d) h;
               copy_vmem (d_vmem d) (padd mem (d_size d)) remain_size h }
             else memcpy mem (d_data d) (d_vsize d) h);
       Some (do_size, h) } }"

definition dblk_node_to_rmem_node ::
  "addr option \<Rightarrow> ptr \<Rightarrow> nat \<Rightarrow> 'w heap_scheme \<Rightarrow> (addr option \<times> 'w heap_scheme) option" where
  "dblk_node_to_rmem_node dblk data len h = do {
     d \<leftarrow> get_node h dblk;
     if is_vmem_node d then do {
       (n, h) \<leftarrow> dblk_node_copy_to dblk data len h;
       h \<leftarrow> upd_node dblk (\<lambda>d. d\<lparr>d_size := u16_of n, d_data := data, d_vsize := 0, d_vmem := None\<rparr>) h;
       Some (dblk, h) }
     else Some (dblk, h) }"

section \<open>Blocks\<close>

partial_function (option) dblk_delete ::
  "addr option \<Rightarrow> 'w heap_scheme \<Rightarrow> (addr option \<times> 'w heap_scheme) option" where
  "dblk_delete dblk h = (case dblk of None \<Rightarrow> Some (None, h)
     | Some p \<Rightarrow> do {
         d \<leftarrow> nodes h p;
         h \<leftarrow> (if d_data_malloc d then free_buf (d_data d) h else Some h);
         h \<leftarrow> (if d_node_malloc d then free_node (Some p) h else Some h);
         if \<not> d_more d then Some (d_next d, h) else dblk_delete (d_next d) h })"

partial_function (option) dblk_size_loop ::
  "'w heap_scheme \<Rightarrow> addr option \<Rightarrow> nat \<Rightarrow> nat option" where
  "dblk_size_loop h dblk len = (case dblk of None \<Rightarrow> Some len
     | Some a \<Rightarrow> do {
         d \<leftarrow> nodes h a;
         if \<not> d_more d then Some (len + node_size d)
         else dblk_size_loop h (d_next d) (len + node_size d) })"

definition dblk_size :: "'w heap_scheme \<Rightarrow> addr option \<Rightarrow> nat option" where
  "dblk_size h dblk = dblk_size_loop h dblk 0"

partial_function (option) dblk_next ::
  "'w heap_scheme \<Rightarrow> addr option \<Rightarrow> addr option option" where
  "dblk_next h dblk = (case dblk of None \<Rightarrow> Some None
     | Some a \<Rightarrow> do {
         d \<leftarrow> nodes h a;
         if \<not> d_more d then Some (d_next d) else dblk_next h (d_next d) })"

partial_function (option) copy_to_loop ::
  "addr option \<Rightarrow> ptr \<Rightarrow> nat \<Rightarrow> 'w heap_scheme \<Rightarrow> (nat \<times> 'w heap_scheme) option" where
  "copy_to_loop dblk mem len h = (case dblk of None \<Rightarrow> Some (len, h)
     | Some a \<Rightarrow> do {
         (do_size, h) \<leftarrow> dblk_node_copy_to dblk mem len h;
         d \<leftarrow> nodes h a;
         if len - do_size = 0 \<or> \<not> d_more d then Some (len - do_size, h)
         else copy_to_loop (d_next d) (padd mem do_size) (len - do_size) h })"

definition dblk_copy_to ::
  "addr option \<Rightarrow> ptr \<Rightarrow> nat \<Rightarrow> 'w heap_scheme \<Rightarrow> (nat \<times> 'w heap_scheme) option" where
  "dblk_copy_to dblk mem len h = do {
     (rest, h) \<leftarrow> copy_to_loop dblk mem len h;
     Some (len - rest, h) }"

partial_function (option) copy_from_loop ::
  "addr option \<Rightarrow> ptr \<Rightarrow> nat \<Rightarrow> 'w heap_scheme \<Rightarrow> (nat \<times> 'w heap_scheme) option" where
  "copy_from_loop dblk mem len h = (case dblk of None \<Rightarrow> Some (len, h)
     | Some a \<Rightarrow> do {
         d \<leftarrow> nodes h a;
         let do_size = (if len > d_size d then d_size d else len);
         h \<leftarrow> memcpy (d_data d) mem do_size h;
         if len - do_size = 0 \<or> \<not> d_more d then Some (len - do_size, h)
         else copy_from_loop (d_next d) (padd mem do_size) (len - do_size) h })"

definition dblk_copy_from ::
  "addr option \<Rightarrow> ptr \<Rightarrow> nat \<Rightarrow> 'w heap_scheme \<Rightarrow> (nat \<times> 'w heap_scheme) option" where
  "dblk_copy_from dblk mem len h = do {
     (rest, h) \<leftarrow> copy_from_loop dblk mem len h;
     Some (len - rest, h) }"

partial_function (option) merge_loop ::
  "addr option \<Rightarrow> addr option \<Rightarrow> 'w heap_scheme \<Rightarrow> 'w heap_scheme option" where
  "merge_loop b n h = do {
     d \<leftarrow> get_node h b;
     if \<not> d_more d then do {
       h \<leftarrow> upd_node n (\<lambda>e. e\<lparr>d_next := d_next d\<rparr>) h;
       upd_node b (\<lambda>e. e\<lparr>d_next := n, d_more := True\<rparr>) h }
     else merge_loop (d_next d) n h }"

definition dblk_merge ::
  "addr option \<Rightarrow> addr option \<Rightarrow> 'w heap_scheme \<Rightarrow> 'w heap_scheme option" where
  "dblk_merge b n h = (if n \<noteq> None then merge_loop b n h else Some h)"

text \<open>
  \<^verbatim>\<open>dblk_copy\<close> and \<^verbatim>\<open>dblk_node_copy\<close> differ only in the size of the copy; both fill it
  with \<^verbatim>\<open>dblk_copy_to\<close>, which starts at the node and goes on through its block.
\<close>

definition copy_with_size ::
  "nat \<Rightarrow> addr option \<Rightarrow> 'w heap_scheme \<Rightarrow> (addr option \<times> 'w heap_scheme) option" where
  "copy_with_size n dblk h = do {
     (cpy, h) \<leftarrow> dblk_node_new_with_buff n h;
     if cpy \<noteq> None then do {
       c \<leftarrow> get_node h cpy;
       (_, h) \<leftarrow> dblk_copy_to dblk (d_data c) (d_size c) h;
       Some (cpy, h) }
     else Some (cpy, h) }"

definition dblk_copy :: "addr option \<Rightarrow> 'w heap_scheme \<Rightarrow> (addr option \<times> 'w heap_scheme) option" where
  "dblk_copy dblk h = do { n \<leftarrow> dblk_size h dblk; copy_with_size n dblk h }"

definition dblk_node_copy ::
  "addr option \<Rightarrow> 'w heap_scheme \<Rightarrow> (addr option \<times> 'w heap_scheme) option" where
  "dblk_node_copy dblk h = do { n \<leftarrow> dblk_node_size h dblk; copy_with_size n dblk h }"

section \<open>Lists\<close>

partial_function (option) dblk_list_delete :: "addr option \<Rightarrow> 'w heap_scheme \<Rightarrow> 'w heap_scheme option" where
  "dblk_list_delete dblk h = (case dblk of None \<Rightarrow> Some h
     | Some a \<Rightarrow> do { (dblk, h) \<leftarrow> dblk_delete dblk h; dblk_list_delete dblk h })"

partial_function (option) dblk_list_has_vmem_node ::
  "'w heap_scheme \<Rightarrow> addr option \<Rightarrow> bool option" where
  "dblk_list_has_vmem_node h dblk = (case dblk of None \<Rightarrow> Some False
     | Some a \<Rightarrow> do {
         d \<leftarrow> nodes h a;
         if is_vmem_node d then Some True else dblk_list_has_vmem_node h (d_next d) })"

partial_function (option) dblk_list_to_rmem_list ::
  "addr option \<Rightarrow> 'w heap_scheme \<Rightarrow> (bool \<times> 'w heap_scheme) option" where
  "dblk_list_to_rmem_list dblk h = (case dblk of None \<Rightarrow> Some (True, h)
     | Some a \<Rightarrow> do {
         d \<leftarrow> nodes h a;
         if is_vmem_node d then
           (case malloc_buf (node_size d) h of (data, h) \<Rightarrow>
              if data = Null then Some (False, h)
              else do {
                h \<leftarrow> upd_node dblk (\<lambda>d. d\<lparr>d_data_malloc := True\<rparr>) h;
                (_, h) \<leftarrow> dblk_node_to_rmem_node dblk data (node_size d) h;
                d \<leftarrow> nodes h a;
                dblk_list_to_rmem_list (d_next d) h })
         else dblk_list_to_rmem_list (d_next d) h })"

section \<open>Fragments\<close>

text \<open>The loop that chains the nodes for the fragments: \<open>e\<close> is the last one so far.\<close>

partial_function (option) frag_nodes ::
  "nat \<Rightarrow> nat \<Rightarrow> addr option \<Rightarrow> 'w heap_scheme \<Rightarrow> 'w heap_scheme option" where
  "frag_nodes i fg_cnt e h =
     (if i < fg_cnt then do {
        (f, h) \<leftarrow> dblk_node_new Null 0 h;
        h \<leftarrow> upd_node e (\<lambda>d. d\<lparr>d_next := f\<rparr>) h;
        frag_nodes (i + 1) fg_cnt f h }
      else Some h)"

text \<open>The loop that looks for the node in which a fragment ends.\<close>

partial_function (option) frag_skip ::
  "'w heap_scheme \<Rightarrow> addr option \<Rightarrow> nat \<Rightarrow> (addr option \<times> nat) option" where
  "frag_skip h f remain = (case f of None \<Rightarrow> Some (None, remain)
     | Some a \<Rightarrow> do {
         d \<leftarrow> nodes h a;
         if d_size d < remain then
           (if \<not> d_more d then Some (f, remain - d_size d)
            else frag_skip h (d_next d) (remain - d_size d))
         else Some (f, remain) })"

partial_function (option) frag_fill ::
  "addr option \<Rightarrow> addr option \<Rightarrow> nat \<Rightarrow> nat \<Rightarrow> 'w heap_scheme \<Rightarrow> 'w heap_scheme option" where
  "frag_fill e dblk offset fsize h =
     (if e \<noteq> None \<and> dblk \<noteq> None then do {
        d \<leftarrow> get_node h dblk;
        h \<leftarrow> upd_node e (\<lambda>x. x\<lparr>d_data := padd (d_data d) offset,
               d_size := u16_of (size_sub (d_size d) offset), d_vsize := u16_of fsize\<rparr>) h;
        x \<leftarrow> get_node h e;
        if d_size d > offset + fsize then frag_fill (d_next x) dblk (offset + fsize) fsize h
        else if d_size d < offset + fsize then do {
          h \<leftarrow> upd_node e (\<lambda>x. x\<lparr>d_vmem := d_next d\<rparr>) h;
          (f, remain) \<leftarrow> frag_skip h (d_next d) (offset + fsize - d_size d);
          h \<leftarrow> (if f = None
                then upd_node e (\<lambda>x. x\<lparr>d_vsize := u16_of (size_sub (d_vsize x) remain)\<rparr>) h
                else Some h);
          x \<leftarrow> get_node h e;
          frag_fill (d_next x) f remain fsize h }
        else frag_fill (d_next x) (d_next d) 0 fsize h }
      else Some h)"

definition dblk_fragment ::
  "addr option \<Rightarrow> nat \<Rightarrow> 'w heap_scheme \<Rightarrow> (addr option \<times> 'w heap_scheme) option" where
  "dblk_fragment dblk fsize h =
     (if dblk = None then Some (None, h)
      else do {
        d \<leftarrow> get_node h dblk;
        if d_size d = 0 then Some (None, h)
        else do {
          lgb_size \<leftarrow> dblk_size h dblk;
          if fsize = 0 then None
          else do {
            let fg_cnt = lgb_size div fsize + (if lgb_size mod fsize > 0 then 1 else 0);
            (hdr, h) \<leftarrow> dblk_node_new Null 0 h;
            h \<leftarrow> frag_nodes 1 fg_cnt hdr h;
            h \<leftarrow> frag_fill hdr dblk 0 fsize h;
            Some (hdr, h) } } })"

section \<open>Sequential access\<close>

partial_function (option) seek_loop ::
  "addr option \<Rightarrow> nat \<Rightarrow> 'w heap_scheme \<Rightarrow> 'w heap_scheme option" where
  "seek_loop dblk offset h = (case dblk of None \<Rightarrow> Some h
     | Some a \<Rightarrow> do {
         d \<leftarrow> nodes h a;
         let new_off = (if d_size d > offset then offset else d_size d);
         h \<leftarrow> upd_node dblk (\<lambda>d. d\<lparr>d_offset := new_off\<rparr>) h;
         if \<not> d_more d then Some h else seek_loop (d_next d) (offset - new_off) h })"

definition dblk_seek :: "addr option \<Rightarrow> nat \<Rightarrow> 'w heap_scheme \<Rightarrow> (int \<times> 'w heap_scheme) option" where
  "dblk_seek dblk offset h = do { h \<leftarrow> seek_loop dblk offset h; Some (1, h) }"

partial_function (option) write_loop ::
  "addr option \<Rightarrow> ptr \<Rightarrow> nat \<Rightarrow> nat \<Rightarrow> 'w heap_scheme \<Rightarrow> (nat \<times> 'w heap_scheme) option" where
  "write_loop dblk mem len did h = (case dblk of None \<Rightarrow> Some (did, h)
     | Some a \<Rightarrow> if \<not> did < len then Some (did, h) else do {
         d \<leftarrow> nodes h a;
         let avail = size_sub (d_size d) (d_offset d);
         let do_size = (if avail > len then len else avail);
         h \<leftarrow> (if avail > 0 then do {
                 h \<leftarrow> memcpy (padd (d_data d) (d_offset d)) mem do_size h;
                 upd_node dblk (\<lambda>d. d\<lparr>d_offset := d_offset d + do_size\<rparr>) h }
               else Some h);
         if \<not> d_more d then Some (did + do_size, h)
         else write_loop (d_next d) mem len (did + do_size) h })"

definition dblk_write ::
  "addr option \<Rightarrow> ptr \<Rightarrow> nat \<Rightarrow> 'w heap_scheme \<Rightarrow> (nat \<times> 'w heap_scheme) option" where
  "dblk_write dblk mem len h = write_loop dblk mem len 0 h"

partial_function (option) read_loop ::
  "addr option \<Rightarrow> ptr \<Rightarrow> nat \<Rightarrow> nat \<Rightarrow> 'w heap_scheme \<Rightarrow> (nat \<times> 'w heap_scheme) option" where
  "read_loop dblk mem len did h = (case dblk of None \<Rightarrow> Some (did, h)
     | Some a \<Rightarrow> if \<not> did < len then Some (did, h) else do {
         d \<leftarrow> nodes h a;
         let avail = size_sub (d_size d) (d_offset d);
         let do_size = (if avail > len then len else avail);
         h \<leftarrow> (if avail > 0 then do {
                 h \<leftarrow> memcpy mem (padd (d_data d) (d_offset d)) do_size h;
                 upd_node dblk (\<lambda>d. d\<lparr>d_offset := d_offset d + do_size\<rparr>) h }
               else Some h);
         if \<not> d_more d then Some (did + do_size, h)
         else read_loop (d_next d) mem len (did + do_size) h })"

definition dblk_read ::
  "addr option \<Rightarrow> ptr \<Rightarrow> nat \<Rightarrow> 'w heap_scheme \<Rightarrow> (nat \<times> 'w heap_scheme) option" where
  "dblk_read dblk mem len h = read_loop dblk mem len 0 h"

end
