(* ===== verification/Dblk_Block.thy ===== *)
theory Dblk_Block
  imports Dblk
begin

text \<open>
  What the block operations of \<open>Dblk\<close> do.  \<open>block h p as q\<close> says that the node
  pointer \<open>p\<close> leads through the nodes \<open>as\<close>, whose \<^verbatim>\<open>more\<close> bits make them one block,
  to \<open>q\<close>; \<open>block_bytes h as\<close> is what such a block of plain nodes, or of virtual nodes that span one node, carries.  Each
  operation is shown to return, without undefined behaviour, the result its
  description in \<^verbatim>\<open>dts_net_dblk.h\<close> promises in terms of these two.
\<close>

section \<open>Blocks and their contents\<close>

fun block :: "'w heap_scheme \<Rightarrow> addr option \<Rightarrow> addr list \<Rightarrow> addr option \<Rightarrow> bool" where
  "block h p [] q = False"
| "block h p (a # as) q = (p = Some a \<and> (case nodes h a of None \<Rightarrow> False
     | Some d \<Rightarrow> if as = [] then \<not> d_more d \<and> d_next d = q
                 else d_more d \<and> block h (d_next d) as q))"

definition node_bytes :: "'w heap_scheme \<Rightarrow> addr \<Rightarrow> u8 list option" where
  "node_bytes h a = do { d \<leftarrow> nodes h a;
     if d_size d < d_vsize d then None else mem_read h (d_data d) (node_size d) }"

fun block_bytes :: "'w heap_scheme \<Rightarrow> addr list \<Rightarrow> u8 list option" where
  "block_bytes h [] = Some []"
| "block_bytes h (a # as) = do { xs \<leftarrow> node_bytes h a; ys \<leftarrow> block_bytes h as; Some (xs @ ys) }"

definition data_bufs :: "'w heap_scheme \<Rightarrow> addr list \<Rightarrow> addr set" where
  "data_bufs h as = {b. \<exists>a \<in> set as. \<exists>d. nodes h a = Some d \<and> ptr_buf (d_data d) = Some b}"

lemma block_Cons_D:
  "block h p (a # as) q \<Longrightarrow> p = Some a \<and> (\<exists>d. nodes h a = Some d \<and>
     d_more d = (as \<noteq> []) \<and> (if as = [] then d_next d = q else block h (d_next d) as q))"
  by (auto split: option.splits if_splits)

lemma block_cong: "nodes h = nodes h' \<Longrightarrow> block h p as q = block h' p as q"
  by (induction as arbitrary: p) (auto split: option.splits)

lemma data_bufs_Cons:
  "data_bufs h (a # as) =
   (case nodes h a of None \<Rightarrow> {} | Some d \<Rightarrow> set_option (ptr_buf (d_data d))) \<union> data_bufs h as"
  by (auto simp: data_bufs_def split: option.splits)

lemma mem_read_other [frame_simps]:
  "ptr_buf p \<noteq> Some b \<Longrightarrow> mem_read (set_buf b x h) p n = mem_read h p n"
  by (cases p) (auto simp: mem_read_def)

lemma node_bytes_other:
  "b \<notin> data_bufs h [a] \<Longrightarrow> node_bytes (set_buf b x h) a = node_bytes h a"
  by (auto simp: node_bytes_def data_bufs_def frame_simps split: option.splits intro!: Option.bind_cong)

lemma block_bytes_other [frame_simps]:
  "b \<notin> data_bufs h as \<Longrightarrow> block_bytes (set_buf b x h) as = block_bytes h as"
proof (induction as)
  case (Cons a as)
  then have "b \<notin> data_bufs h [a]" "b \<notin> data_bufs h as"
    by (auto simp: data_bufs_def)
  with Cons.IH show ?case by (simp add: node_bytes_other)
qed simp

lemma data_bufs_cong: "nodes h' = nodes h \<Longrightarrow> data_bufs h' as = data_bufs h as"
  by (simp add: data_bufs_def)

lemma node_bytes_SomeD:
  "node_bytes h a = Some xs \<Longrightarrow> \<exists>d. nodes h a = Some d \<and> d_vsize d \<le> d_size d \<and>
     mem_read h (d_data d) (node_size d) = Some xs \<and> length xs = node_size d"
  by (auto simp: node_bytes_def bind_Some_iff mem_read_length split: if_splits)

declare block.simps(2) [simp del]

section \<open>Size and next block\<close>

lemma dblk_size_loop_block:
  "block h p as q \<Longrightarrow>
   dblk_size_loop h p n = Some (n + (\<Sum>a \<leftarrow> as. node_size (the (nodes h a))))"
proof (induction as arbitrary: p n)
  case (Cons a as)
  then show ?case
    by (auto dest!: block_Cons_D simp: dblk_size_loop.simps [of h "Some a"] split: if_splits)
qed simp

lemma dblk_size_block:
  "block h p as q \<Longrightarrow> dblk_size h p = Some (\<Sum>a \<leftarrow> as. node_size (the (nodes h a)))"
  by (simp add: dblk_size_def dblk_size_loop_block)

lemma dblk_size_None [simp]: "dblk_size h None = Some 0"
  by (simp add: dblk_size_def dblk_size_loop.simps)

lemma block_bytes_length:
  "block_bytes h as = Some bs \<Longrightarrow> length bs = (\<Sum>a \<leftarrow> as. node_size (the (nodes h a)))"
  by (induction as arbitrary: bs)
     (auto simp: bind_Some_iff node_size_def dest!: node_bytes_SomeD)

lemma dblk_size_bytes:
  "block h p as q \<Longrightarrow> block_bytes h as = Some bs \<Longrightarrow> dblk_size h p = Some (length bs)"
  by (simp add: dblk_size_block block_bytes_length)

lemma dblk_next_block: "block h p as q \<Longrightarrow> dblk_next h p = Some q"
proof (induction as arbitrary: p)
  case (Cons a as)
  then show ?case
    by (auto dest!: block_Cons_D simp: dblk_next.simps [of h "Some a"] split: if_splits)
qed simp

section \<open>Copying out of a block\<close>

lemma memcpy_live:
  "mem_read h src n = Some xs \<Longrightarrow> bufs h b = Some dst \<Longrightarrow> i + n \<le> length dst \<Longrightarrow>
   memcpy (Ptr b i) src n h = Some (set_buf b (splice_at dst i xs) h)"
  using mem_read_length [of h src n xs] by (simp add: memcpy_def mem_simps)

lemma node_copy_to_node:
  assumes "nodes h a = Some d" "d_vsize d \<le> d_size d" "mem_read h (d_data d) (node_size d) = Some xs"
    and "bufs h b = Some dst" "i + min n (length xs) \<le> length dst" "length xs \<le> n \<or> d_vsize d = 0"
  shows "dblk_node_copy_to (Some a) (Ptr b i) n h =
    Some (min n (length xs), set_buf b (splice_at dst i (take n xs)) h)"
proof -
  have len: "length xs = node_size d" using assms(3) by (rule mem_read_length)
  have "mem_read h (d_data d) (min n (node_size d)) = Some (take n xs)"
    using mem_read_take [OF assms(3), of "min n (node_size d)"] len
    by (cases "n \<le> node_size d") (simp_all add: min_def)
  then have mc: "memcpy (Ptr b i) (d_data d) (min n (node_size d)) h =
      Some (set_buf b (splice_at dst i (take n xs)) h)"
    using assms(4,5) len by (intro memcpy_live) auto
  show ?thesis
  proof (cases "d_vsize d = 0")
    case True
    moreover have "(if d_size d < n then d_size d else n) = min n (d_size d)"
      by (simp add: min_def)
    ultimately show ?thesis
      using assms(1) len mc by (simp add: dblk_node_copy_to_def get_node_def node_size_def)
  next
    case False
    moreover have "(if d_vsize d < n then d_vsize d else n) = d_vsize d" "min n (d_vsize d) = d_vsize d"
      using assms(6) len False by (auto simp: node_size_def)
    ultimately show ?thesis
      using assms(1,2) len mc by (simp add: dblk_node_copy_to_def get_node_def node_size_def)
  qed
qed

lemma copy_to_loop_block:
  assumes "block h p as q" "block_bytes h as = Some bs" "b \<notin> data_bufs h as"
    and "bufs h b = Some dst" "i + min n (length bs) \<le> length dst"
    and "length bs \<le> n \<or> (\<forall>a \<in> set as. d_vsize (the (nodes h a)) = 0)"
  shows "copy_to_loop p (Ptr b i) n h =
    Some (n - length bs, set_buf b (splice_at dst i (take n bs)) h)"
  using assms
proof (induction as arbitrary: p h n i bs dst)
  case (Cons a as)
  obtain xs ys where nb: "node_bytes h a = Some xs" and bb: "block_bytes h as = Some ys"
    and bs: "bs = xs @ ys" using Cons.prems(2) by (auto simp: bind_Some_iff)
  obtain d where d: "nodes h a = Some d" "d_vsize d \<le> d_size d" and len: "length xs = node_size d"
    and read: "mem_read h (d_data d) (node_size d) = Some xs"
    using node_bytes_SomeD [OF nb] by auto
  from block_Cons_D [OF Cons.prems(1)] d have p: "p = Some a" and more: "d_more d = (as \<noteq> [])"
    and rest: "as \<noteq> [] \<Longrightarrow> block h (d_next d) as q" by auto
  define h1 where "h1 = set_buf b (splice_at dst i (take n xs)) h"
  have copy: "dblk_node_copy_to p (Ptr b i) n h = Some (min n (length xs), h1)"
    unfolding p h1_def using node_copy_to_node [OF d read Cons.prems(4)] Cons.prems(5,6) d(1) bs by auto
  have step: "copy_to_loop p (Ptr b i) n h =
      (if n - min n (length xs) = 0 \<or> as = [] then Some (n - min n (length xs), h1)
       else copy_to_loop (d_next d) (Ptr b (i + min n (length xs))) (n - min n (length xs)) h1)"
    unfolding p using copy d(1) by (simp add: copy_to_loop.simps [of "Some a"] p more h1_def)
  show ?case
  proof (cases "n \<le> length xs \<or> as = []")
    case True
    then have "take n bs = take n xs" using bb by (auto simp: bs)
    moreover have "n - min n (length xs) = n - length bs" using True bb by (auto simp: bs)
    ultimately show ?thesis using True step by (auto simp: h1_def)
  next
    case False
    then have n: "length xs < n" and as: "as \<noteq> []" by auto
    have "copy_to_loop (d_next d) (Ptr b (i + length xs)) (n - length xs) h1 =
        Some (n - length xs - length ys,
          set_buf b (splice_at (splice_at dst i xs) (i + length xs) (take (n - length xs) ys)) h1)"
    proof (rule Cons.IH)
      show "block h1 (d_next d) as q"
        using rest [OF as] block_cong [of h1 h] by (simp add: h1_def)
      show "block_bytes h1 as = Some ys" "b \<notin> data_bufs h1 as"
        using Cons.prems(3) bb by (simp_all add: h1_def frame_simps data_bufs_def)
      show "bufs h1 b = Some (splice_at dst i xs)" using n by (simp add: h1_def)
      show "i + length xs + min (n - length xs) (length ys) \<le> length (splice_at dst i xs)"
        using Cons.prems(5) n by (simp add: bs)
      show "length ys \<le> n - length xs \<or> (\<forall>a \<in> set as. d_vsize (the (nodes h1 a)) = 0)"
        using Cons.prems(6) by (auto simp: bs h1_def)
    qed
    moreover have "splice_at (splice_at dst i xs) (i + length xs) (take (n - length xs) ys) =
        splice_at dst i (take n bs)"
      using Cons.prems(5) n by (subst splice_at_splice_at_adj) (auto simp: bs)
    ultimately show ?thesis
      using step n as by (simp add: h1_def bs)
  qed
qed simp

lemma dblk_copy_to_block:
  assumes "block h p as q" "block_bytes h as = Some bs" "b \<notin> data_bufs h as"
    and "bufs h b = Some dst" "i + min n (length bs) \<le> length dst"
    and "length bs \<le> n \<or> (\<forall>a \<in> set as. d_vsize (the (nodes h a)) = 0)"
  shows "dblk_copy_to p (Ptr b i) n h =
    Some (min n (length bs), set_buf b (splice_at dst i (take n bs)) h)"
  unfolding dblk_copy_to_def copy_to_loop_block [OF assms] by (simp add: min_def)

section \<open>Fresh nodes and copies\<close>

text \<open>
  The heap after a successful \<^verbatim>\<open>dblk_node_new_with_buff\<close>: the buffer is at the first
  unused address, the node at the second.
\<close>

definition fresh_blk :: "nat \<Rightarrow> 'w heap_scheme \<Rightarrow> 'w heap_scheme" where
  "fresh_blk n h = set_node (Suc (brk h))
     (init_dblk (Ptr (brk h) 0) n\<lparr>d_node_malloc := True, d_data_malloc := True\<rparr>)
     (set_buf (brk h) (map (junk h (brk h)) [0..<n])
       (h\<lparr>brk := Suc (Suc (brk h)), mallocs := Suc (Suc (mallocs h))\<rparr>))"

lemma heap_field_commute [simp]:
  "bump (set_buf b x h) = set_buf b x (bump h)"
  "bump (set_node a d h) = set_node a d (bump h)"
  by (simp_all add: bump_def set_buf_def set_node_def)

lemma fresh_blk_sel [simp]:
  "bufs (fresh_blk n h) = (bufs h)(brk h \<mapsto> map (junk h (brk h)) [0..<n])"
  "nodes (fresh_blk n h) = (nodes h)(Suc (brk h) \<mapsto>
     init_dblk (Ptr (brk h) 0) n\<lparr>d_node_malloc := True, d_data_malloc := True\<rparr>)"
  "brk (fresh_blk n h) = Suc (Suc (brk h))"
  "mallocs (fresh_blk n h) = Suc (Suc (mallocs h))"
  "malloc_ok (fresh_blk n h) = malloc_ok h" "junk (fresh_blk n h) = junk h"
  by (simp_all add: fresh_blk_def)

lemma init_dblk_sel [simp]:
  "d_next (init_dblk p n) = None" "d_data (init_dblk p n) = p" "d_size (init_dblk p n) = u16_of n"
  "d_more (init_dblk p n) = False" "d_vsize (init_dblk p n) = 0" "d_offset (init_dblk p n) = 0"
  "d_node_malloc (init_dblk p n) = False" "d_data_malloc (init_dblk p n) = False"
  by (simp_all add: init_dblk_def)

lemma upd_node_live [simp]:
  "upd_node (Some a) f h = map_option (\<lambda>d. set_node a (f d) h) (nodes h a)"
  by (simp add: upd_node_def map_conv_bind_option comp_def)

lemma upd_node_None [simp]: "upd_node None f h = None"
  by (simp add: upd_node_def)

lemma get_node_Some [simp]: "get_node h (Some a) = nodes h a"
  by (simp add: get_node_def)

lemma get_node_None [simp]: "get_node h None = None"
  by (simp add: get_node_def)

lemma dblk_node_new_with_buff_ok:
  assumes "malloc_ok h (mallocs h)" "malloc_ok h (Suc (mallocs h))"
  shows "dblk_node_new_with_buff n h = Some (Some (Suc (brk h)), fresh_blk n h)"
  using assms
  by (simp add: dblk_node_new_with_buff_def malloc_buf_def malloc_try_def new_buf_def
      dblk_node_new_def malloc_node_def new_node_def dblk_node_init_def fresh_blk_def
      fresh_bytes_def init_dblk_def)
     (simp add: bump_def set_buf_def set_node_def)

lemma dblk_node_new_with_buff_fail:
  assumes "wf_heap h" "\<not> (malloc_ok h (mallocs h) \<and> malloc_ok h (Suc (mallocs h)))"
  shows "\<exists>h'. dblk_node_new_with_buff n h = Some (None, h') \<and> bufs h' = bufs h \<and> nodes h' = nodes h"
  using assms
  by (auto simp: dblk_node_new_with_buff_def malloc_buf_def malloc_try_def new_buf_def
      dblk_node_new_def malloc_node_def dblk_node_init_def fresh_bytes_def wf_heap_def
      fun_upd_idem)

lemma block_set_buf [simp]: "block (set_buf b x h) p as q = block h p as q"
  by (rule block_cong) simp

lemma block_fresh_node:
  "nodes h' = (nodes h)(a \<mapsto> d) \<Longrightarrow> a \<notin> set as \<Longrightarrow> block h' p as q = block h p as q"
  by (induction as arbitrary: p) (auto simp: block.simps(2) split: option.splits)

lemma block_nodes_live: "block h p as q \<Longrightarrow> a \<in> set as \<Longrightarrow> nodes h a \<noteq> None"
  by (induction as arbitrary: p) (auto dest!: block_Cons_D split: if_splits)

lemma block_bytes_cong:
  "(\<And>a. a \<in> set as \<Longrightarrow> node_bytes h' a = node_bytes h a) \<Longrightarrow> block_bytes h' as = block_bytes h as"
  by (induction as) auto

lemma node_bytes_cong:
  assumes "nodes h' a = nodes h a" "\<And>b. b \<in> data_bufs h [a] \<Longrightarrow> bufs h' b = bufs h b"
  shows "node_bytes h' a = node_bytes h a"
proof (cases "nodes h a")
  case None
  with assms(1) show ?thesis by (simp add: node_bytes_def)
next
  case (Some d)
  then have "mem_read h' (d_data d) n = mem_read h (d_data d) n" for n
    using assms(2) by (cases "d_data d") (simp_all add: mem_read_def data_bufs_Cons)
  with Some assms(1) show ?thesis by (simp add: node_bytes_def)
qed

lemma data_bufs_frame:
  "(\<And>a. a \<in> set as \<Longrightarrow> nodes h' a = nodes h a) \<Longrightarrow> data_bufs h' as = data_bufs h as"
  unfolding data_bufs_def by (intro Collect_cong bex_cong refl) simp

lemma block_bytes_frame:
  assumes "\<And>a. a \<in> set as \<Longrightarrow> nodes h' a = nodes h a"
    and "\<And>b. b \<in> data_bufs h as \<Longrightarrow> bufs h' b = bufs h b"
  shows "block_bytes h' as = block_bytes h as"
  using assms by (intro block_bytes_cong node_bytes_cong) (auto simp: data_bufs_def)

lemma wf_heap_data_bufs: "wf_heap h \<Longrightarrow> b \<in> data_bufs h as \<Longrightarrow> b < brk h"
  by (auto simp: data_bufs_def dest: wf_heap_data)

lemma wf_heap_block: "wf_heap h \<Longrightarrow> block h p as q \<Longrightarrow> a \<in> set as \<Longrightarrow> a < brk h"
  using block_nodes_live [of h p as q a] wf_heap_node [of h a] by auto

text \<open>
  \<^verbatim>\<open>dblk_copy\<close> makes one plain node that holds the bytes of the whole block, at fresh
  addresses, and leaves everything else as it was.
\<close>

lemma dblk_copy_block:
  assumes "wf_heap h" "block h p as q" "block_bytes h as = Some bs" "length bs < 65536"
    and "malloc_ok h (mallocs h)" "malloc_ok h (Suc (mallocs h))"
  shows "dblk_copy p h = Some (Some (Suc (brk h)), set_buf (brk h) bs (fresh_blk (length bs) h))"
proof -
  let ?h = "fresh_blk (length bs) h"
  have old: "a < brk h" if "a \<in> set as" for a
    using wf_heap_block [OF assms(1,2) that] .
  have same: "nodes ?h a = nodes h a" if "a \<in> set as" for a
    using old [OF that] by simp
  have bufs: "b < brk h" if "b \<in> data_bufs h as" for b
    using wf_heap_data_bufs [OF assms(1) that] .
  have "block ?h p as q"
    using assms(2) old by (subst block_fresh_node [where h = h]) (auto dest: old)
  moreover have "brk h \<notin> data_bufs ?h as"
    using bufs data_bufs_frame [of as ?h h, OF same] by auto
  moreover have "block_bytes ?h as = Some bs"
  proof -
    have "bufs ?h b = bufs h b" if "b \<in> data_bufs h as" for b using bufs [OF that] by simp
    then show ?thesis using assms(3) block_bytes_frame [of as ?h h] same by simp
  qed
  ultimately have "dblk_copy_to p (Ptr (brk h) 0) (length bs) ?h =
      Some (length bs, set_buf (brk h) bs ?h)"
    using dblk_copy_to_block [of ?h p as q bs "brk h" _ 0 "length bs"] by simp
  then show ?thesis
    using assms(4)
    by (simp add: dblk_copy_def dblk_size_bytes [OF assms(2,3)] copy_with_size_def
        dblk_node_new_with_buff_ok [OF assms(5,6)])
qed

lemma fresh_copy_bytes:
  "length bs < 65536 \<Longrightarrow>
   block_bytes (set_buf (brk h) bs (fresh_blk (length bs) h)) [Suc (brk h)] = Some bs"
  by (simp add: node_bytes_def node_size_def mem_simps)

lemma fresh_copy_block:
  "block (set_buf (brk h) bs (fresh_blk (length bs) h)) (Some (Suc (brk h))) [Suc (brk h)] None"
  by (simp add: block.simps(2))

section \<open>Merging\<close>

lemma merge_loop_block:
  assumes "block h p as q" "nodes h m = Some dm" "m \<notin> set as"
  shows "merge_loop p (Some m) h = Some (set_node (last as)
     ((the (nodes h (last as)))\<lparr>d_next := Some m, d_more := True\<rparr>)
     (set_node m (dm\<lparr>d_next := q\<rparr>) h))"
  using assms
proof (induction as arbitrary: p)
  case (Cons a as)
  obtain d where d: "nodes h a = Some d" and p: "p = Some a" and more: "d_more d = (as \<noteq> [])"
    and rest: "if as = [] then d_next d = q else block h (d_next d) as q"
    using block_Cons_D [OF Cons.prems(1)] by auto
  show ?case
  proof (cases "as = []")
    case True
    with Cons.prems(2,3) d more rest p show ?thesis
      by (simp add: merge_loop.simps [of "Some a"])
  next
    case False
    with Cons.prems(2,3) d more rest p Cons.IH [of "d_next d"] show ?thesis
      by (simp add: merge_loop.simps [of "Some a"])
  qed
qed simp

lemma dblk_merge_block:
  assumes "block h p as q" "nodes h m = Some dm" "m \<notin> set as"
  shows "dblk_merge p (Some m) h = Some (set_node (last as)
     ((the (nodes h (last as)))\<lparr>d_next := Some m, d_more := True\<rparr>)
     (set_node m (dm\<lparr>d_next := q\<rparr>) h))"
  by (simp add: dblk_merge_def merge_loop_block [OF assms])

text \<open>The node is appended to the block: its bytes follow those of the block.\<close>

lemma block_append_node:
  assumes "block h p as q" "distinct as" "m \<notin> set as" "nodes h m = Some dm" "\<not> d_more dm"
    and "nodes h' = (nodes h)(last as \<mapsto> (the (nodes h (last as)))\<lparr>d_next := Some m, d_more := True\<rparr>,
           m \<mapsto> dm\<lparr>d_next := q\<rparr>)"
  shows "block h' p (as @ [m]) q"
  using assms
proof (induction as arbitrary: p)
  case (Cons a as)
  obtain d where d: "nodes h a = Some d" and p: "p = Some a" and more: "d_more d = (as \<noteq> [])"
    and rest: "if as = [] then d_next d = q else block h (d_next d) as q"
    using block_Cons_D [OF Cons.prems(1)] by auto
  show ?case
  proof (cases "as = []")
    case True
    with Cons.prems d p rest show ?thesis by (auto simp: block.simps(2))
  next
    case False
    with Cons.prems rest have "block h' (d_next d) (as @ [m]) q" by (intro Cons.IH) auto
    moreover have "last as \<noteq> a" using False Cons.prems(2) by (metis distinct.simps(2) last_in_set)
    ultimately show ?thesis using Cons.prems d p more False by (auto simp: block.simps(2))
  qed
qed simp

lemma block_bytes_append:
  "block_bytes h (as @ cs) = do { xs \<leftarrow> block_bytes h as; ys \<leftarrow> block_bytes h cs; Some (xs @ ys) }"
  by (induction as) simp_all

lemma node_bytes_link:
  assumes "bufs h' = bufs h" "nodes h a = Some d"
    and "nodes h' a = Some (d\<lparr>d_next := n, d_more := m\<rparr>)"
  shows "node_bytes h' a = node_bytes h a"
proof -
  have "mem_read h' = mem_read h" unfolding mem_read_def [abs_def] assms(1) ..
  moreover have "node_size (d\<lparr>d_next := n, d_more := m\<rparr>) = node_size d" by (simp add: node_size_def)
  ultimately show ?thesis using assms by (simp add: node_bytes_def)
qed

lemma dblk_merge_appends:
  assumes "block h p as q" "distinct as" "m \<notin> set as" "nodes h m = Some dm" "\<not> d_more dm"
    and "block_bytes h as = Some xs" "node_bytes h m = Some ys"
  shows "\<exists>h'. dblk_merge p (Some m) h = Some h' \<and> block h' p (as @ [m]) q \<and>
    block_bytes h' (as @ [m]) = Some (xs @ ys) \<and> bufs h' = bufs h"
proof -
  let ?l = "last as"
  let ?dl = "the (nodes h ?l)\<lparr>d_next := Some m, d_more := True\<rparr>"
  let ?h = "set_node ?l ?dl (set_node m (dm\<lparr>d_next := q\<rparr>) h)"
  have as: "as \<noteq> []" using assms(1) by (cases as) auto
  have lm: "?l \<noteq> m" "?l \<in> set as" using as assms(3) by auto
  then obtain dl where dl: "nodes h ?l = Some dl" using block_nodes_live [OF assms(1)] by blast
  have nodes: "nodes ?h = (nodes h)(?l \<mapsto> ?dl, m \<mapsto> dm\<lparr>d_next := q\<rparr>)"
    using lm(1) by (simp add: fun_upd_twist)
  have blk: "block ?h p (as @ [m]) q" by (rule block_append_node [OF assms(1-5) nodes])
  have nb: "node_bytes ?h a = node_bytes h a" if "a \<in> set as \<or> a = m" for a
  proof (cases "a = ?l \<or> a = m")
    case True
    then show ?thesis
    proof
      assume "a = ?l"
      then show ?thesis using node_bytes_link [where h' = ?h and h = h and a = a and d = dl and n = "Some m" and m = True] dl nodes lm by simp
    next
      assume "a = m"
      then show ?thesis using node_bytes_link [where h' = ?h and h = h and a = a and d = dm and n = q and m = "d_more dm"] assms(4) nodes lm
        by auto
    qed
  next
    case False
    then show ?thesis by (intro node_bytes_cong) auto
  qed
  have "block_bytes ?h as = Some xs"
    using block_bytes_cong [of as ?h h] nb assms(6) by simp
  then have "block_bytes ?h (as @ [m]) = Some (xs @ ys)"
    using nb [of m] assms(7) by (simp add: block_bytes_append)
  then show ?thesis using dblk_merge_block [OF assms(1,4,3)] blk by auto
qed

end
