(* ===== verification/Dblk_Access.thy ===== *)
theory Dblk_Access
  imports Dblk_Block
begin

text \<open>
  Freeing a block, filling a block, and the sequential \<^verbatim>\<open>dblk_seek\<close>, \<^verbatim>\<open>dblk_write\<close>,
  \<^verbatim>\<open>dblk_read\<close> of \<^verbatim>\<open>dts_net_dblk.c\<close>.  On a block of one node the three behave as a
  file with one position; over several nodes the code never advances its memory
  pointer, which \<open>dblk_read_two_nodes\<close> makes explicit.
\<close>

section \<open>Deleting a block\<close>

definition owned_buf :: "'w heap_scheme \<Rightarrow> addr \<Rightarrow> addr option" where
  "owned_buf h a = (case nodes h a of None \<Rightarrow> None
     | Some d \<Rightarrow> if d_data_malloc d then ptr_buf (d_data d) else None)"

definition freed_node :: "'w heap_scheme \<Rightarrow> addr \<Rightarrow> bool" where
  "freed_node h a = (case nodes h a of None \<Rightarrow> False | Some d \<Rightarrow> d_node_malloc d)"

text \<open>A block may be deleted when no buffer of it is owned twice and each is live.\<close>

fun deletable :: "'w heap_scheme \<Rightarrow> addr list \<Rightarrow> bool" where
  "deletable h [] = True"
| "deletable h (a # as) = (a \<notin> set as \<and> deletable h as \<and>
     (case nodes h a of None \<Rightarrow> False
      | Some d \<Rightarrow> d_data_malloc d \<longrightarrow>
          (case d_data d of Null \<Rightarrow> True
           | Ptr b i \<Rightarrow> i = 0 \<and> bufs h b \<noteq> None \<and> Some b \<notin> owned_buf h ` set as)))"

lemma deletable_frame:
  assumes "deletable h as" "\<And>a. a \<in> set as \<Longrightarrow> nodes h' a = nodes h a"
    and "\<And>b. Some b \<in> owned_buf h ` set as \<Longrightarrow> bufs h' b = bufs h b"
  shows "deletable h' as"
  using assms
proof (induction as)
  case (Cons a as)
  have own: "owned_buf h' x = owned_buf h x" if "x \<in> set (a # as)" for x
    using Cons.prems(2) [OF that] by (simp add: owned_buf_def)
  then have img: "owned_buf h' ` set as = owned_buf h ` set as" by auto
  have "deletable h' as" using Cons by auto
  moreover have "nodes h' a = nodes h a" using Cons.prems(2) by simp
  moreover have "bufs h' b = bufs h b" if "owned_buf h a = Some b" for b
    using Cons.prems(3) [of b] that by (metis image_eqI list.set_intros(1))
  ultimately show ?case
    using Cons.prems(1) img by (auto simp: owned_buf_def split: option.splits ptr.splits)
qed simp

lemma dblk_delete_block:
  assumes "block h p as q" "deletable h as"
  shows "\<exists>h'. dblk_delete p h = Some (q, h') \<and>
    nodes h' = (\<lambda>x. if x \<in> set as \<and> freed_node h x then None else nodes h x) \<and>
    bufs h' = (\<lambda>b. if Some b \<in> owned_buf h ` set as then None else bufs h b)"
  using assms
proof (induction as arbitrary: p h)
  case (Cons a as)
  obtain d where d: "nodes h a = Some d" and p: "p = Some a" and more: "d_more d = (as \<noteq> [])"
    and rest: "if as = [] then d_next d = q else block h (d_next d) as q"
    using block_Cons_D [OF Cons.prems(1)] by auto
  define h1 where "h1 = (case owned_buf h a of None \<Rightarrow> h | Some b \<Rightarrow> del_buf b h)"
  define h2 where "h2 = (if d_node_malloc d then del_node a h1 else h1)"
  have free1: "(if d_data_malloc d then free_buf (d_data d) h else Some h) = Some h1"
    using Cons.prems(2) d by (auto simp: h1_def owned_buf_def split: ptr.splits)
  have free2: "(if d_node_malloc d then free_node (Some a) h1 else Some h1) = Some h2"
    using d by (auto simp: h1_def h2_def split: option.splits)
  have n2: "nodes h2 = (\<lambda>x. if x = a \<and> freed_node h x then None else nodes h x)"
    using d by (auto simp: h2_def h1_def freed_node_def split: option.splits)
  have b2: "bufs h2 = (\<lambda>b. if owned_buf h a = Some b then None else bufs h b)"
    by (auto simp: h2_def h1_def split: option.splits)
  have step: "dblk_delete p h = (if as = [] then Some (d_next d, h2) else dblk_delete (d_next d) h2)"
    using d free1 free2 by (simp add: p dblk_delete.simps [of "Some a"] more)
  show ?case
  proof (cases "as = []")
    case True
    with step rest n2 b2 show ?thesis by auto
  next
    case False
    have a: "a \<notin> set as" using Cons.prems(2) by simp
    then have same: "nodes h2 x = nodes h x" if "x \<in> set as" for x using that n2 by auto
    then have own: "owned_buf h2 x = owned_buf h x" "freed_node h2 x = freed_node h x"
      if "x \<in> set as" for x using that by (simp_all add: owned_buf_def freed_node_def)
    have disj: "owned_buf h a = Some b \<Longrightarrow> Some b \<notin> owned_buf h ` set as" for b
      using Cons.prems(2) d by (auto simp: owned_buf_def split: ptr.splits if_splits)
    have "block h2 (d_next d) as q"
    proof -
      have "block h2 r cs q = block h r cs q" if "set cs \<subseteq> set as" for r cs
        using that by (induction cs arbitrary: r) (auto simp: block.simps(2) same split: option.splits)
      then show ?thesis using rest False by simp
    qed
    moreover have "deletable h2 as"
      using Cons.prems(2) disj by (intro deletable_frame [of h as h2] same) (auto simp: b2)
    ultimately obtain h' where h': "dblk_delete (d_next d) h2 = Some (q, h')"
      "nodes h' = (\<lambda>x. if x \<in> set as \<and> freed_node h2 x then None else nodes h2 x)"
      "bufs h' = (\<lambda>b. if Some b \<in> owned_buf h2 ` set as then None else bufs h2 b)"
      using Cons.IH by blast
    have "nodes h' = (\<lambda>x. if x \<in> set (a # as) \<and> freed_node h x then None else nodes h x)"
      unfolding h'(2) using own(2) n2 a by (auto simp: fun_eq_iff)
    moreover have "owned_buf h2 ` set as = owned_buf h ` set as" using own(1) by auto
    then have "bufs h' = (\<lambda>b. if Some b \<in> owned_buf h ` set (a # as) then None else bufs h b)"
      unfolding h'(3) b2 by (auto simp: fun_eq_iff)
    ultimately show ?thesis using step False h'(1) by auto
  qed
qed simp

text \<open>Whatever the list, only buffers and nodes change.\<close>

lemma free_heap:
  "free_buf p h = Some h' \<Longrightarrow> h' = h\<lparr>bufs := bufs h', nodes := nodes h'\<rparr>"
  "free_node q h = Some h' \<Longrightarrow> h' = h\<lparr>bufs := bufs h', nodes := nodes h'\<rparr>"
  by (cases p; cases q; auto simp: del_buf_def del_node_def split: if_splits)+

lemma dblk_delete_heap:
  assumes "dblk_delete p h = Some (q, h')"
  shows "h' = h\<lparr>bufs := bufs h', nodes := nodes h'\<rparr>"
proof -
  let ?P = "\<lambda>h y. \<exists>bs ns. snd y = h\<lparr>bufs := bs, nodes := ns\<rparr>"
  have "?P h (q, h')"
  proof (rule dblk_delete.raw_induct [OF _ assms, where P = "\<lambda>p. ?P"], goal_cases)
    case (1 rec p h y)
    have free: "\<exists>bs ns. h' = h\<lparr>bufs := bs, nodes := ns\<rparr>"
      if "(if c then free_buf d h else Some h) = Some h'" for c d h' and h :: "'a heap_scheme"
      using that free_heap(1) [of d h h'] by (auto split: if_splits) (metis heap.surjective heap.update_convs(1,2))
    have free': "\<exists>bs ns. h' = h\<lparr>bufs := bs, nodes := ns\<rparr>"
      if "(if c then free_node d h else Some h) = Some h'" for c d h' and h :: "'a heap_scheme"
      using that free_heap(2) [of d h h'] by (auto split: if_splits) (metis heap.surjective heap.update_convs(1,2))
    show ?case
    proof (cases p)
      case None
      then have "snd y = h\<lparr>bufs := bufs h, nodes := nodes h\<rparr>" using 1(2) by auto
      then show ?thesis by blast
    next
      case (Some a)
      with 1(2) obtain d h1 h2 where d: "nodes h a = Some d"
        and h1: "(if d_data_malloc d then free_buf (d_data d) h else Some h) = Some h1"
        and h2: "(if d_node_malloc d then free_node (Some a) h1 else Some h1) = Some h2"
        and r: "(if \<not> d_more d then Some (d_next d, h2) else rec (d_next d) h2) = Some y"
        by (auto simp: bind_Some_iff)
      obtain bs ns where e: "h2 = h\<lparr>bufs := bs, nodes := ns\<rparr>"
        using free [OF h1] free' [OF h2] by auto
      show ?thesis
      proof (cases "d_more d")
        case True
        with r have "rec (d_next d) h2 = Some y" by simp
        from 1(1) [OF this] e show ?thesis by auto
      next
        case False
        with r e have "snd y = h\<lparr>bufs := bs, nodes := ns\<rparr>" by auto
        then show ?thesis by blast
      qed
    qed
  qed
  then show ?thesis by auto
qed

section \<open>Sequential access to a single node\<close>

lemma read_loop_one:
  assumes "nodes h a = Some d" "\<not> d_more d" "d_offset d \<le> d_size d" "d_size d < 65536"
    and "mem_read h (d_data d) (d_size d) = Some xs"
    and "bufs h b = Some dst" "i + min n (d_size d - d_offset d) \<le> length dst"
  defines "k \<equiv> min n (d_size d - d_offset d)"
  shows "dblk_read (Some a) (Ptr b i) n h =
    Some (k, set_node a (d\<lparr>d_offset := d_offset d + k\<rparr>)
               (set_buf b (splice_at dst i (take k (drop (d_offset d) xs))) h))"
proof (cases "n = 0")
  case True
  with assms(1,6) show ?thesis
    by (simp add: dblk_read_def read_loop.simps [of "Some a"] k_def set_node_def map_upd_triv)
next
  case False
  have avail: "size_sub (d_size d) (d_offset d) = d_size d - d_offset d" using assms(3,4) by simp
  have kk: "(if n < d_size d - d_offset d then n else d_size d - d_offset d) = k"
    by (simp add: k_def min_def)
  have "mem_read h (padd (d_data d) (d_offset d)) k = Some (take k (drop (d_offset d) xs))"
    using assms(3) by (intro mem_read_sub [OF assms(5)]) (simp add: k_def)
  then have cpy: "memcpy (Ptr b i) (padd (d_data d) (d_offset d)) k h =
      Some (set_buf b (splice_at dst i (take k (drop (d_offset d) xs))) h)"
    using assms(6,7) by (intro memcpy_live) (simp_all add: k_def)
  show ?thesis
  proof (cases "d_size d - d_offset d = 0")
    case True
    then have "k = 0" by (simp add: k_def)
    with True False assms(1,2,6) avail show ?thesis
      by (simp add: dblk_read_def read_loop.simps [of "Some a"] set_node_def map_upd_triv)
  next
    case nz: False
    with False assms(1,2) avail kk cpy show ?thesis
      by (simp add: dblk_read_def read_loop.simps [of "Some a"])
  qed
qed

lemma dblk_seek_one:
  assumes "nodes h a = Some d" "\<not> d_more d"
  shows "dblk_seek (Some a) off h = Some (1, set_node a (d\<lparr>d_offset := min off (d_size d)\<rparr>) h)"
  using assms by (simp add: dblk_seek_def seek_loop.simps [of "Some a"] min_def)

lemma write_loop_one:
  assumes "nodes h a = Some d" "\<not> d_more d" "d_offset d \<le> d_size d" "d_size d < 65536"
    and "d_data d = Ptr c j" "bufs h c = Some bs" "j + d_size d \<le> length bs"
    and "mem_read h mem n = Some ys"
  defines "k \<equiv> min n (d_size d - d_offset d)"
  shows "dblk_write (Some a) mem n h =
    Some (k, set_node a (d\<lparr>d_offset := d_offset d + k\<rparr>)
               (set_buf c (splice_at bs (j + d_offset d) (take k ys)) h))"
proof (cases "n = 0 \<or> d_size d - d_offset d = 0")
  case True
  then have "k = 0" by (auto simp: k_def)
  moreover have "size_sub (d_size d) (d_offset d) = d_size d - d_offset d" using assms(3,4) by simp
  ultimately show ?thesis
    using True assms(1,2,6)
    by (auto simp: dblk_write_def write_loop.simps [of "Some a"] set_node_def map_upd_triv)
next
  case False
  have avail: "size_sub (d_size d) (d_offset d) = d_size d - d_offset d" using assms(3,4) by simp
  have kk: "(if n < d_size d - d_offset d then n else d_size d - d_offset d) = k"
    by (simp add: k_def min_def)
  have "mem_read h mem k = Some (take k ys)"
    by (rule mem_read_take [OF assms(8)]) (simp add: k_def)
  then have "memcpy (padd (d_data d) (d_offset d)) mem k h =
      Some (set_buf c (splice_at bs (j + d_offset d) (take k ys)) h)"
    unfolding assms(5) padd.simps using assms(3,6,7) by (intro memcpy_live) (auto simp: k_def)
  with False assms(1,2) avail kk show ?thesis
    by (simp add: dblk_write_def write_loop.simps [of "Some a"])
qed

section \<open>Sequential access over two nodes\<close>

text \<open>
  The second chunk lands on top of the first, and the count returned is not bounded by
  the size of the caller's buffer.
\<close>

lemma read_loop_two:
  assumes "nodes h a = Some d" "d_more d" "d_next d = Some c" "d_offset d = 0"
    and "0 < d_size d" "d_size d < n" "n < 2 ^ 32" "mem_read h (d_data d) (d_size d) = Some xs"
    and "nodes h c = Some e" "\<not> d_more e" "d_offset e = 0" "0 < d_size e" "d_size e < 65536"
    and "mem_read h (d_data e) (d_size e) = Some ys" "c \<noteq> a" "d_size d < 65536"
    and "ptr_buf (d_data e) \<noteq> Some b" "bufs h b = Some dst" "i + n \<le> length dst"
  shows "dblk_read (Some a) (Ptr b i) n h =
    Some (d_size d + min n (d_size e),
      set_node c (e\<lparr>d_offset := min n (d_size e)\<rparr>)
       (set_node a (d\<lparr>d_offset := d_size d\<rparr>)
        (set_buf b (splice_at (splice_at dst i xs) i (take n ys)) h)))"
proof -
  define h1 where "h1 = set_node a (d\<lparr>d_offset := d_size d\<rparr>) (set_buf b (splice_at dst i xs) h)"
  have lx: "length xs = d_size d" using assms(8) by (rule mem_read_length)
  have cpy: "memcpy (Ptr b i) (d_data d) (d_size d) h = Some (set_buf b (splice_at dst i xs) h)"
    using assms by (intro memcpy_live) auto
  have "mem_read h1 (d_data e) (d_size e) = Some ys"
    using assms(12,14,17) by (cases "d_data e") (auto simp: h1_def mem_read_def)
  then have "mem_read h1 (d_data e) (min n (d_size e)) = Some (take (min n (d_size e)) ys)"
    by (rule mem_read_take) simp
  moreover have "take (min n (d_size e)) ys = take n ys"
    using mem_read_length [OF assms(14)] by (cases "n \<le> d_size e") (simp_all add: min_def)
  ultimately have cpy2: "memcpy (Ptr b i) (d_data e) (min n (d_size e)) h1 =
      Some (set_buf b (splice_at (splice_at dst i xs) i (take n ys)) h1)"
    using assms lx by (intro memcpy_live) (auto simp: h1_def)
  have one: "read_loop (Some a) (Ptr b i) n 0 h = read_loop (Some c) (Ptr b i) n (d_size d) h1"
    using assms cpy by (simp add: read_loop.simps [of "Some a"] h1_def Let_def)
  have two: "read_loop (Some c) (Ptr b i) n (d_size d) h1 =
      Some (d_size d + min n (d_size e), set_node c (e\<lparr>d_offset := min n (d_size e)\<rparr>)
        (set_buf b (splice_at (splice_at dst i xs) i (take n ys)) h1))"
    using assms cpy2
    by (cases "n < d_size e") (simp_all add: read_loop.simps [of "Some c"] h1_def Let_def
        min_absorb1 min_absorb2)
  have comm: "set_buf b z (set_node a x (set_buf b y h)) = set_node a x (set_buf b z h)" for x y z
    by (simp add: set_buf_def set_node_def)
  show ?thesis unfolding dblk_read_def one two by (simp add: h1_def comm)
qed

section \<open>Filling a block\<close>

lemma copy_from_loop_block:
  assumes "block h p as q" "block_bytes h as = Some bs" "mem_read h mem n = Some ys"
    and "distinct (map (\<lambda>a. ptr_buf (d_data (the (nodes h a)))) as)"
    and "\<And>a. a \<in> set as \<Longrightarrow> d_data (the (nodes h a)) \<noteq> Null"
    and "\<And>b. ptr_buf mem = Some b \<Longrightarrow> b \<notin> data_bufs h as"
    and "\<And>a. a \<in> set as \<Longrightarrow> d_vsize (the (nodes h a)) = 0"
  shows "\<exists>h'. copy_from_loop p mem n h = Some (n - length bs, h') \<and> nodes h' = nodes h \<and>
    (\<forall>b. b \<notin> data_bufs h as \<longrightarrow> bufs h' b = bufs h b) \<and>
    block_bytes h' as = Some (take (length bs) ys @ drop n bs)"
  using assms
proof (induction as arbitrary: p h mem n bs ys)
  case (Cons a as)
  obtain x y where nb: "node_bytes h a = Some x" and bb: "block_bytes h as = Some y"
    and bs: "bs = x @ y" using Cons.prems(2) by (auto simp: bind_Some_iff)
  obtain d where d: "nodes h a = Some d" "d_vsize d = 0" and lx: "length x = d_size d"
    and read: "mem_read h (d_data d) (d_size d) = Some x"
    using node_bytes_SomeD [OF nb] Cons.prems(7) [of a] by (auto simp: node_size_def)
  from block_Cons_D [OF Cons.prems(1)] d have p: "p = Some a" and more: "d_more d = (as \<noteq> [])"
    and rest: "as \<noteq> [] \<Longrightarrow> block h (d_next d) as q" by auto
  obtain c j where data: "d_data d = Ptr c j"
    using Cons.prems(5) [of a] d by (cases "d_data d") auto
  have ly: "length ys = n" using Cons.prems(3) by (rule mem_read_length)
  define k where "k = min n (d_size d)"
  have sub: "mem_read h mem k = Some (take k ys)"
    by (rule mem_read_take [OF Cons.prems(3)]) (simp add: k_def)
  have c_as: "c \<notin> data_bufs h as"
    using Cons.prems(4) d data by (force simp: data_bufs_def)
  have c_mem: "ptr_buf mem \<noteq> Some c"
    using Cons.prems(6) [of c] d data by (auto simp: data_bufs_Cons)
  obtain h1 where h1: "memcpy (d_data d) mem k h = Some h1" "nodes h1 = nodes h"
    and h1b: "\<And>b. b \<noteq> c \<Longrightarrow> bufs h1 b = bufs h b"
    and nb1: "node_bytes h1 a = Some (take k ys @ drop k x)"
  proof (cases "d_size d = 0")
    case True
    then show ?thesis using that [of h] nb lx by (simp add: k_def)
  next
    case False
    then obtain cs where cs: "bufs h c = Some cs" "j + d_size d \<le> length cs"
      and x: "x = take (d_size d) (drop j cs)"
      using read data by (auto simp: mem_read_def split: option.splits if_splits)
    have "memcpy (Ptr c j) mem k h = Some (set_buf c (splice_at cs j (take k ys)) h)"
      by (rule memcpy_live [OF sub cs(1)]) (use cs(2) in \<open>simp add: k_def\<close>)
    moreover have "take (d_size d) (drop j (splice_at cs j (take k ys))) = take k ys @ drop k x"
      using cs(2) ly unfolding x
      by (intro nth_equalityI) (auto simp: k_def nth_splice_at nth_append)
    ultimately show ?thesis
      using that [of "set_buf c (splice_at cs j (take k ys)) h"] d data cs ly
      by (simp add: node_bytes_def node_size_def mem_simps k_def)
  qed
  have step: "copy_from_loop p mem n h =
      (if n - k = 0 \<or> as = [] then Some (n - k, h1)
       else copy_from_loop (d_next d) (padd mem k) (n - k) h1)"
  proof -
    have kk: "(if d_size d < n then d_size d else n) = k" by (simp add: k_def min_def)
    show ?thesis using d h1(1) by (simp add: p copy_from_loop.simps [of "Some a"] more kk)
  qed
  have bb1: "block_bytes h1 as = Some y"
  proof -
    have "bufs h1 b = bufs h b" if "b \<in> data_bufs h as" for b
      using that c_as by (intro h1b) auto
    then show ?thesis using bb block_bytes_frame [of as h1 h] h1(2) by simp
  qed
  show ?case
  proof (cases "n - k = 0 \<or> as = []")
    case True
    have "take k ys @ drop k x @ y = take (length bs) ys @ drop n bs"
      using True bb ly lx by (auto simp: k_def bs min_def)
    moreover have "n - k = n - length bs" using True bb lx by (auto simp: k_def bs)
    moreover have "bufs h1 b = bufs h b" if "b \<notin> data_bufs h (a # as)" for b
      using that d data by (intro h1b) (auto simp: data_bufs_Cons)
    ultimately show ?thesis using step True h1(2) nb1 bb1 by auto
  next
    case False
    then have kn: "k = d_size d" "d_size d < n" by (auto simp: k_def min_def split: if_splits)
    have "\<exists>h'. copy_from_loop (d_next d) (padd mem k) (n - k) h1 = Some (n - k - length y, h') \<and>
        nodes h' = nodes h1 \<and> (\<forall>b. b \<notin> data_bufs h1 as \<longrightarrow> bufs h' b = bufs h1 b) \<and>
        block_bytes h' as = Some (take (length y) (drop k ys) @ drop (n - k) y)"
    proof (rule Cons.IH)
      show "block h1 (d_next d) as q"
        using rest False h1(2) block_cong [of h1 h] by auto
      show "block_bytes h1 as = Some y" by (rule bb1)
      have "mem_read h1 mem n = Some ys"
        using Cons.prems(3) c_mem h1b by (cases mem) (auto simp: mem_read_def split: if_splits)
      then show "mem_read h1 (padd mem k) (n - k) = Some (drop k ys)"
        using mem_read_sub [of h1 mem n ys k "n - k"] kn ly by simp
      show "distinct (map (\<lambda>a. ptr_buf (d_data (the (nodes h1 a)))) as)"
        using Cons.prems(4) h1(2) by simp
      show "d_data (the (nodes h1 a)) \<noteq> Null" if "a \<in> set as" for a
        using Cons.prems(5) [of a] that h1(2) by simp
      show "b \<notin> data_bufs h1 as" if "ptr_buf (padd mem k) = Some b" for b
        using Cons.prems(6) [of b] that h1(2) data_bufs_frame [of as h1 h]
        by (cases mem) (auto simp: data_bufs_Cons)
      show "d_vsize (the (nodes h1 a)) = 0" if "a \<in> set as" for a
        using Cons.prems(7) [of a] that h1(2) by simp
    qed
    then obtain h' where h': "copy_from_loop (d_next d) (padd mem k) (n - k) h1 =
        Some (n - k - length y, h')" "nodes h' = nodes h1"
      "\<And>b. b \<notin> data_bufs h as \<Longrightarrow> bufs h' b = bufs h1 b"
      "block_bytes h' as = Some (take (length y) (drop k ys) @ drop (n - k) y)"
      using data_bufs_frame [of as h1 h] h1(2) by auto
    have "node_bytes h' a = node_bytes h1 a"
      using c_as d data h1(2) h'(2,3)
      by (intro node_bytes_cong) (auto simp: data_bufs_Cons data_bufs_def)
    then have "block_bytes h' (a # as) = Some (take (length bs) ys @ drop n bs)"
      using nb1 h'(4) kn lx by (simp add: bs take_add)
    moreover have "bufs h' b = bufs h b" if "b \<notin> data_bufs h (a # as)" for b
      using that d data h'(3) h1b by (auto simp: data_bufs_Cons)
    ultimately show ?thesis using step False h'(1,2) h1(2) kn lx by (auto simp: bs)
  qed
qed simp

lemma dblk_copy_from_block:
  assumes "block h p as q" "block_bytes h as = Some bs" "mem_read h mem n = Some ys"
    and "distinct (map (\<lambda>a. ptr_buf (d_data (the (nodes h a)))) as)"
    and "\<And>a. a \<in> set as \<Longrightarrow> d_data (the (nodes h a)) \<noteq> Null"
    and "\<And>b. ptr_buf mem = Some b \<Longrightarrow> b \<notin> data_bufs h as"
    and "\<And>a. a \<in> set as \<Longrightarrow> d_vsize (the (nodes h a)) = 0"
  shows "\<exists>h'. dblk_copy_from p mem n h = Some (min n (length bs), h') \<and> nodes h' = nodes h \<and>
    (\<forall>b. b \<notin> data_bufs h as \<longrightarrow> bufs h' b = bufs h b) \<and>
    block_bytes h' as = Some (take (length bs) ys @ drop n bs)"
  using copy_from_loop_block [OF assms] by (auto simp: dblk_copy_from_def min_def)

end
