(* ===== verification/Dblk_Fragment.thy ===== *)
theory Dblk_Fragment
  imports Dblk_Access
begin

text \<open>
  \<^verbatim>\<open>dblk_fragment\<close> on a block of one plain node, which is how \<^verbatim>\<open>ip_hl_send\<close> uses it
  for TCP: the result is a list of virtual nodes that point into the data of the
  original, each its own block, and their contents in order are the original bytes.
\<close>

section \<open>The nodes of the fragments\<close>

definition frag_heap :: "'w heap_scheme \<Rightarrow> nat \<Rightarrow> (nat \<Rightarrow> dblk) \<Rightarrow> 'w heap_scheme" where
  "frag_heap h k g = h\<lparr>nodes := (\<lambda>x. if brk h \<le> x \<and> x < brk h + k then Some (g (x - brk h))
       else nodes h x), brk := brk h + k, mallocs := mallocs h + k\<rparr>"

definition chain_next :: "addr \<Rightarrow> nat \<Rightarrow> nat \<Rightarrow> addr option" where
  "chain_next base k j = (if Suc j < k then Some (base + Suc j) else None)"

definition blank_frag :: "addr \<Rightarrow> nat \<Rightarrow> nat \<Rightarrow> dblk" where
  "blank_frag base k j = init_dblk Null 0\<lparr>d_node_malloc := True, d_next := chain_next base k j\<rparr>"

definition frag_of :: "ptr \<Rightarrow> nat \<Rightarrow> nat \<Rightarrow> addr \<Rightarrow> nat \<Rightarrow> nat \<Rightarrow> dblk" where
  "frag_of p n f base k j = (blank_frag base k j)\<lparr>d_data := padd p (j * f), d_size := n - j * f,
     d_vsize := min f (n - j * f)\<rparr>"

lemma frag_heap_sel [simp]:
  "nodes (frag_heap h k g) x = (if brk h \<le> x \<and> x < brk h + k then Some (g (x - brk h)) else nodes h x)"
  "bufs (frag_heap h k g) = bufs h" "brk (frag_heap h k g) = brk h + k"
  "mallocs (frag_heap h k g) = mallocs h + k" "malloc_ok (frag_heap h k g) = malloc_ok h"
  by (simp_all add: frag_heap_def)

lemma frag_heap_set_node:
  "j < k \<Longrightarrow> set_node (brk h + j) d (frag_heap h k g) = frag_heap h k (g(j := d))"
  by (rule heap.equality) (auto simp: set_node_def frag_heap_def fun_eq_iff)

lemma frag_heap_upd:
  "j < k \<Longrightarrow> upd_node (Some (brk h + j)) F (frag_heap h k g) = Some (frag_heap h k (g(j := F (g j))))"
  by (simp add: frag_heap_set_node)

lemma frag_heap_cong:
  "(\<And>j. j < k \<Longrightarrow> g j = g' j) \<Longrightarrow> frag_heap h k g = frag_heap h k g'"
  by (rule heap.equality) (auto simp: frag_heap_def fun_eq_iff)

lemma dblk_node_new_ok:
  "malloc_ok h (mallocs h) \<Longrightarrow> dblk_node_new p n h =
   Some (Some (brk h), set_node (brk h) (init_dblk p n\<lparr>d_node_malloc := True\<rparr>)
     (h\<lparr>brk := Suc (brk h), mallocs := Suc (mallocs h)\<rparr>))"
  by (simp add: dblk_node_new_def malloc_node_def malloc_try_def new_node_def dblk_node_init_def
      bump_def set_node_def)

lemma frag_heap_new:
  assumes "malloc_ok h (mallocs h + i)"
  shows "dblk_node_new Null 0 (frag_heap h i g) =
    Some (Some (brk h + i), frag_heap h (Suc i) (g(i := init_dblk Null 0\<lparr>d_node_malloc := True\<rparr>)))"
  using assms
  by (subst dblk_node_new_ok)
     (auto simp: frag_heap_def set_node_def fun_eq_iff less_Suc_eq intro!: heap.equality)

lemma frag_nodes_ok:
  assumes "1 \<le> i" "i \<le> k" "\<And>m. m < k \<Longrightarrow> malloc_ok h (mallocs h + m)"
  shows "frag_nodes i k (Some (brk h + (i - 1))) (frag_heap h i (blank_frag (brk h) i)) =
    Some (frag_heap h k (blank_frag (brk h) k))"
  using assms(1,2)
proof (induction "k - i" arbitrary: i)
  case 0
  then show ?case by (simp add: frag_nodes.simps [of i])
next
  case (Suc m)
  then have ik: "i < k" by simp
  let ?g = "(blank_frag (brk h) i)(i := init_dblk Null 0\<lparr>d_node_malloc := True\<rparr>)"
  have new: "dblk_node_new Null 0 (frag_heap h i (blank_frag (brk h) i)) =
      Some (Some (brk h + i), frag_heap h (Suc i) ?g)"
    by (rule frag_heap_new) (use ik assms(3) in simp)
  have "upd_node (Some (brk h + (i - 1))) (\<lambda>d. d\<lparr>d_next := Some (brk h + i)\<rparr>) (frag_heap h (Suc i) ?g) =
      Some (frag_heap h (Suc i) (?g(i - 1 := (?g (i - 1))\<lparr>d_next := Some (brk h + i)\<rparr>)))"
    by (rule frag_heap_upd) (use Suc.prems in simp)
  also have "frag_heap h (Suc i) (?g(i - 1 := (?g (i - 1))\<lparr>d_next := Some (brk h + i)\<rparr>)) =
      frag_heap h (Suc i) (blank_frag (brk h) (Suc i))"
    using Suc.prems
    by (intro frag_heap_cong) (auto simp: blank_frag_def chain_next_def init_dblk_def)
  finally have link: "upd_node (Some (brk h + (i - 1))) (\<lambda>d. d\<lparr>d_next := Some (brk h + i)\<rparr>)
      (frag_heap h (Suc i) ?g) = Some (frag_heap h (Suc i) (blank_frag (brk h) (Suc i)))" .
  have "frag_nodes (Suc i) k (Some (brk h + (Suc i - 1)))
      (frag_heap h (Suc i) (blank_frag (brk h) (Suc i))) = Some (frag_heap h k (blank_frag (brk h) k))"
    using Suc by (intro Suc.hyps) auto
  with ik link show ?case by (simp add: frag_nodes.simps [of i] new del: upd_node_live)
qed

section \<open>Filling the fragments\<close>

definition part_frags :: "ptr \<Rightarrow> nat \<Rightarrow> nat \<Rightarrow> addr \<Rightarrow> nat \<Rightarrow> nat \<Rightarrow> nat \<Rightarrow> dblk" where
  "part_frags p n f base k m j = (if j < m then frag_of p n f base k j else blank_frag base k j)"

lemma frag_fill_ok:
  assumes d: "nodes h a = Some d" "a < brk h" "d_next d = None" "d_size d < 65536"
    and f: "0 < f" "f < 65536" and k: "(k - 1) * f < d_size d" "d_size d \<le> k * f" "j < k"
  shows "frag_fill (Some (brk h + j)) (Some a) (j * f) f
      (frag_heap h k (part_frags (d_data d) (d_size d) f (brk h) k j)) =
    Some (frag_heap h k (frag_of (d_data d) (d_size d) f (brk h) k))"
  using k(3)
proof (induction "k - j" arbitrary: j)
  case 0
  then show ?case by simp
next
  case (Suc m)
  let ?n = "d_size d" and ?p = "d_data d" and ?b = "brk h"
  let ?H = "\<lambda>j. frag_heap h k (part_frags ?p ?n f ?b k j)"
  have jn: "j * f < ?n"
  proof -
    have "j * f \<le> (k - 1) * f" by (rule mult_le_mono1) (use Suc.prems in linarith)
    with k(1) show ?thesis by linarith
  qed
  have node: "nodes (?H i) a = Some d" for i using d by simp
  have sz: "u16_of (size_sub ?n (j * f)) = ?n - j * f" using jn d(4) by simp
  have upd: "upd_node (Some (?b + j)) (\<lambda>x. x\<lparr>d_data := padd ?p (j * f), d_size := ?n - j * f,
        d_vsize := v\<rparr>) (?H j) = Some (frag_heap h k ((part_frags ?p ?n f ?b k j)
        (j := (blank_frag ?b k j)\<lparr>d_data := padd ?p (j * f), d_size := ?n - j * f, d_vsize := v\<rparr>)))" for v
    by (subst frag_heap_upd [OF Suc.prems]) (simp add: part_frags_def)
  have full: "frag_heap h k ((part_frags ?p ?n f ?b k j)(j := frag_of ?p ?n f ?b k j)) = ?H (Suc j)"
    by (intro frag_heap_cong) (auto simp: part_frags_def less_Suc_eq)
  have nxt: "d_next (blank_frag ?b k j) = chain_next ?b k j" by (simp add: blank_frag_def)
  show ?case
  proof (cases "j * f + f < ?n")
    case True
    have "Suc j < k"
    proof (rule ccontr)
      assume "\<not> Suc j < k"
      then have "k = Suc j" using Suc.prems by simp
      then show False using k(2) True by simp
    qed
    then have next_fill: "frag_fill (Some (?b + Suc j)) (Some a) (Suc j * f) f (?H (Suc j)) =
        Some (frag_heap h k (frag_of ?p ?n f ?b k))"
      using Suc by (intro Suc.hyps) auto
    have off: "Suc j * f = j * f + f" by simp
    note next_fill [unfolded off]
    moreover have "frag_of ?p ?n f ?b k j =
        (blank_frag ?b k j)\<lparr>d_data := padd ?p (j * f), d_size := ?n - j * f, d_vsize := f\<rparr>"
      using True by (simp add: frag_of_def min_def)
    then have "upd_node (Some (?b + j)) (\<lambda>x. x\<lparr>d_data := padd ?p (j * f), d_size := ?n - j * f,
        d_vsize := f\<rparr>) (?H j) = Some (?H (Suc j))"
      using upd [of f] full by simp
    moreover have "nodes (?H (Suc j)) (?b + j) = Some (frag_of ?p ?n f ?b k j)"
      using Suc.prems by (simp add: part_frags_def)
    moreover have "d_next (frag_of ?p ?n f ?b k j) = Some (?b + Suc j)"
      using \<open>Suc j < k\<close> by (simp add: frag_of_def nxt chain_next_def)
    ultimately show ?thesis
      using True f sz node
      by (simp add: frag_fill.simps [of "Some (?b + j)"] del: upd_node_live frag_heap_sel)
  next
    case False
    have last: "k = Suc j"
    proof (rule ccontr)
      assume "k \<noteq> Suc j"
      then have "Suc j \<le> k - 1" using Suc.prems by simp
      then have "Suc j * f \<le> (k - 1) * f" by (rule mult_right_mono) simp
      then show False using k(1) False by simp
    qed
    have done_k: "?H (Suc j) = frag_heap h k (frag_of ?p ?n f ?b k)"
      by (intro frag_heap_cong) (simp add: part_frags_def last)
    have stop: "frag_fill e None off f H = Some H" for e off H
      by (simp add: frag_fill.simps [of e])
    have vs: "min f (?n - j * f) = ?n - j * f" using False by simp
    show ?thesis
    proof (cases "?n = j * f + f")
      case True
      then have "frag_of ?p ?n f ?b k j =
          (blank_frag ?b k j)\<lparr>d_data := padd ?p (j * f), d_size := ?n - j * f, d_vsize := f\<rparr>"
        by (simp add: frag_of_def)
      then have "upd_node (Some (?b + j)) (\<lambda>x. x\<lparr>d_data := padd ?p (j * f), d_size := ?n - j * f,
          d_vsize := f\<rparr>) (?H j) = Some (?H (Suc j))"
        using upd [of f] full by simp
      moreover have "nodes (?H (Suc j)) (?b + j) = Some (frag_of ?p ?n f ?b k j)"
        using Suc.prems by (simp add: part_frags_def)
      ultimately show ?thesis
        using True f sz node d(3) stop done_k
        by (simp add: frag_fill.simps [of "Some (?b + j)"] del: upd_node_live frag_heap_sel)
    next
      case less: False
      define v where "v = (blank_frag ?b k j)\<lparr>d_data := padd ?p (j * f), d_size := ?n - j * f,
        d_vsize := f\<rparr>"
      define H1 where "H1 = frag_heap h k ((part_frags ?p ?n f ?b k j)(j := v))"
      define r where "r = j * f + f - ?n"
      have r: "size_sub f r = ?n - j * f" "r \<le> f" using False less f jn by (auto simp: r_def)
      have u1: "upd_node (Some (?b + j)) (\<lambda>x. x\<lparr>d_data := padd ?p (j * f), d_size := ?n - j * f,
          d_vsize := f\<rparr>) (?H j) = Some H1"
        unfolding H1_def v_def by (rule upd)
      have u2: "upd_node (Some (?b + j)) (\<lambda>x. x\<lparr>d_vmem := None\<rparr>) H1 = Some H1"
        unfolding H1_def frag_heap_upd [OF Suc.prems]
        by (intro arg_cong [where f = Some] frag_heap_cong) (simp add: v_def blank_frag_def init_dblk_def)
      have "upd_node (Some (?b + j)) (\<lambda>x. x\<lparr>d_vsize := u16_of (size_sub (d_vsize x) r)\<rparr>) H1 =
          Some (frag_heap h k ((part_frags ?p ?n f ?b k j)(j := frag_of ?p ?n f ?b k j)))"
        unfolding H1_def frag_heap_upd [OF Suc.prems]
        using r vs d(4) by (simp add: v_def frag_of_def)
      then have u3: "upd_node (Some (?b + j)) (\<lambda>x. x\<lparr>d_vsize := u16_of (size_sub (d_vsize x) r)\<rparr>) H1 =
          Some (frag_heap h k (frag_of ?p ?n f ?b k))"
        by (simp only: full done_k)
      have live: "nodes H1 (?b + j) = Some v" using Suc.prems by (simp add: H1_def)
      have live2: "\<exists>x. nodes (frag_heap h k (frag_of ?p ?n f ?b k)) (?b + j) = Some x"
        using Suc.prems by simp
      have skip: "frag_skip H1 None m = Some (None, m)" for m by (simp add: frag_skip.simps)
      show ?thesis
        using False less f sz node d(3) stop u1 u2 u3 live live2 skip
        by (auto simp: frag_fill.simps [of "Some (?b + j)"] simp flip: r_def
            simp del: upd_node_live frag_heap_sel)
    qed
  qed
qed

section \<open>The whole operation\<close>

definition frag_count :: "nat \<Rightarrow> nat \<Rightarrow> nat" where
  "frag_count n f = n div f + (if n mod f > 0 then 1 else 0)"

lemma frag_count_bounds:
  assumes "0 < n" "0 < f"
  shows "1 \<le> frag_count n f" "(frag_count n f - 1) * f < n" "n \<le> frag_count n f * f"
proof -
  have n: "n = n div f * f + n mod f" by simp
  have m: "n mod f < f" using assms by simp
  show "1 \<le> frag_count n f"
    using assms n by (auto simp: frag_count_def div_greater_zero_iff)
  show "n \<le> frag_count n f * f"
  proof (cases "n mod f = 0")
    case True
    then show ?thesis by (auto simp: frag_count_def)
  next
    case False
    then have "frag_count n f * f = n div f * f + f" by (simp add: frag_count_def)
    with n m show ?thesis by linarith
  qed
  show "(frag_count n f - 1) * f < n"
  proof (cases "n mod f = 0")
    case True
    then have "frag_count n f = n div f" by (simp add: frag_count_def)
    moreover have "0 < n div f" using True assms n by (metis gr0I add_0 mult_0)
    ultimately show ?thesis using n assms True
      by (metis add.right_neutral diff_less less_numeral_extra(1) mult_less_mono1)
  next
    case False
    then have "frag_count n f - 1 = n div f" by (simp add: frag_count_def)
    then show ?thesis using n False by (simp only:)
  qed
qed

lemma dblk_fragment_node:
  assumes wf: "wf_heap h" and d: "nodes h a = Some d" "d_next d = None" "\<not> d_more d" "d_vsize d = 0"
    and sz: "0 < d_size d" "d_size d < 65536" and f: "0 < f" "f < 65536"
    and ok: "\<And>m. m < frag_count (d_size d) f \<Longrightarrow> malloc_ok h (mallocs h + m)"
  defines "k \<equiv> frag_count (d_size d) f"
  shows "dblk_fragment (Some a) f h =
    Some (Some (brk h), frag_heap h k (frag_of (d_data d) (d_size d) f (brk h) k))"
proof -
  note kb = frag_count_bounds [OF sz(1) f(1), folded k_def]
  have blk: "dblk_size h (Some a) = Some (d_size d)"
    using d by (simp add: dblk_size_def dblk_size_loop.simps [of h "Some a"] node_size_def)
  have "dblk_node_new Null 0 (frag_heap h 0 (blank_frag (brk h) 0)) =
      Some (Some (brk h + 0), frag_heap h (Suc 0)
        ((blank_frag (brk h) 0)(0 := init_dblk Null 0\<lparr>d_node_malloc := True\<rparr>)))"
    by (rule frag_heap_new) (use ok [of 0] kb k_def in auto)
  moreover have "frag_heap h 0 (blank_frag (brk h) 0) = h"
    by (rule heap.equality) (auto simp: frag_heap_def fun_eq_iff)
  moreover have "frag_heap h (Suc 0)
      ((blank_frag (brk h) 0)(0 := init_dblk Null 0\<lparr>d_node_malloc := True\<rparr>)) =
      frag_heap h 1 (blank_frag (brk h) 1)"
    by (auto intro!: frag_heap_cong simp: blank_frag_def chain_next_def init_dblk_def)
  ultimately have new: "dblk_node_new Null 0 h =
      Some (Some (brk h), frag_heap h 1 (blank_frag (brk h) 1))" by simp
  have nodes: "frag_nodes 1 k (Some (brk h)) (frag_heap h 1 (blank_frag (brk h) 1)) =
      Some (frag_heap h k (blank_frag (brk h) k))"
    using frag_nodes_ok [of 1 k h] kb ok k_def by simp
  have "frag_heap h k (blank_frag (brk h) k) =
      frag_heap h k (part_frags (d_data d) (d_size d) f (brk h) k 0)"
    by (intro frag_heap_cong) (simp add: part_frags_def)
  moreover have "frag_fill (Some (brk h + 0)) (Some a) (0 * f) f
      (frag_heap h k (part_frags (d_data d) (d_size d) f (brk h) k 0)) =
      Some (frag_heap h k (frag_of (d_data d) (d_size d) f (brk h) k))"
    using wf_heap_node [OF wf d(1)] kb by (intro frag_fill_ok d sz f) auto
  ultimately have fill: "frag_fill (Some (brk h)) (Some a) 0 f (frag_heap h k (blank_frag (brk h) k)) =
      Some (frag_heap h k (frag_of (d_data d) (d_size d) f (brk h) k))" by simp
  show ?thesis
    using d sz f blk new nodes fill
    by (simp add: dblk_fragment_def frag_count_def k_def)
qed

text \<open>What a fragment carries, and how the list goes on behind it.\<close>

lemma frag_of_copy_to:
  assumes "j < k" and n: "0 < n - j * f" "0 < f"
    and bs: "mem_read h p n = Some bs" "ptr_buf p \<noteq> None"
    and dst: "bufs h b = Some dst" "i + min f (n - j * f) \<le> length dst"
  defines "H \<equiv> frag_heap h k (frag_of p n f (brk h) k)"
  shows "dblk_copy_to (Some (brk h + j)) (Ptr b i) (min f (n - j * f)) H =
    Some (min f (n - j * f), set_buf b (splice_at dst i (take f (drop (j * f) bs))) H)"
proof -
  let ?m = "min f (n - j * f)"
  have node: "nodes H (brk h + j) = Some (frag_of p n f (brk h) k j)" using assms(1) by (simp add: H_def)
  have mr: "mem_read H q l = mem_read h q l" for q l
    by (cases q) (simp_all add: H_def mem_read_def)
  have len: "length bs = n" using bs(1) by (rule mem_read_length)
  have "mem_read H (padd p (j * f)) ?m = Some (take ?m (drop (j * f) bs))"
    unfolding mr by (rule mem_read_sub [OF bs(1)]) (use n in simp)
  moreover have "take ?m (drop (j * f) bs) = take f (drop (j * f) bs)"
    using len by (simp add: min_def)
  ultimately have "memcpy (Ptr b i) (padd p (j * f)) ?m H =
      Some (set_buf b (splice_at dst i (take f (drop (j * f) bs))) H)"
    using dst by (intro memcpy_live) (simp_all add: H_def)
  then have "dblk_node_copy_to (Some (brk h + j)) (Ptr b i) ?m H =
      Some (?m, set_buf b (splice_at dst i (take f (drop (j * f) bs))) H)"
    using n node by (auto simp: dblk_node_copy_to_def frag_of_def Let_def)
  then show ?thesis
    using node
    by (simp add: dblk_copy_to_def copy_to_loop.simps [of "Some (brk h + j)"] frag_of_def blank_frag_def)
qed

lemma concat_fragments:
  assumes "0 < f" "length bs \<le> k * f"
  shows "concat (map (\<lambda>j. take f (drop (j * f) bs)) [0..<k]) = bs"
  using assms(2)
proof (induction k arbitrary: bs)
  case (Suc k)
  have "map (\<lambda>j. take f (drop (j * f) bs)) [0..<Suc k] =
      take f bs # map (\<lambda>j. take f (drop (j * f) (drop f bs))) [0..<k]"
    by (rule nth_equalityI) (auto simp: nth_Cons add.commute simp del: upt_Suc split: nat.split)
  moreover have "concat (map (\<lambda>j. take f (drop (j * f) (drop f bs))) [0..<k]) = drop f bs"
    using Suc.prems by (intro Suc.IH) simp
  ultimately show ?case by (simp del: upt_Suc)
qed simp

end
