(* ===== verification/Sys.thy ===== *)
theory Sys
  imports Cmem
begin

text \<open>
  \<^verbatim>\<open>dts_net_sys.c\<close>: the clock.  The platform calls \<^verbatim>\<open>dts_net_sys_heartbeat\<close> with the
  frequency \<^verbatim>\<open>DTS_NET_SYS_HEARTBEAT_FREQ\<close> of \<^verbatim>\<open>conf/dts_net_conf.h\<close>; \<^verbatim>\<open>sys_tick_s\<close>
  returns the seconds.  Both counters are \<^verbatim>\<open>size_t\<close> and wrap.
\<close>

record sysw = heap +
  tick :: u32
  second :: u32

definition DTS_NET_SYS_HEARTBEAT_FREQ :: u32 where
  "DTS_NET_SYS_HEARTBEAT_FREQ = 1"

definition dts_net_sys_heartbeat :: "'w sysw_scheme \<Rightarrow> 'w sysw_scheme" where
  "dts_net_sys_heartbeat w = (
     let w = w\<lparr>tick := tick w + 1\<rparr>;
         s = tick w div DTS_NET_SYS_HEARTBEAT_FREQ
     in if s \<noteq> second w then w\<lparr>second := s\<rparr> else w)"

definition sys_tick_s :: "'w sysw_scheme \<Rightarrow> u32" where
  "sys_tick_s w = second w"

definition clock_ok :: "'w sysw_scheme \<Rightarrow> bool" where
  "clock_ok w \<longleftrightarrow> second w = tick w div DTS_NET_SYS_HEARTBEAT_FREQ"

lemma heartbeat_clock:
  "sys_tick_s (dts_net_sys_heartbeat w) = (tick w + 1) div DTS_NET_SYS_HEARTBEAT_FREQ"
  "tick (dts_net_sys_heartbeat w) = tick w + 1"
  by (simp_all add: dts_net_sys_heartbeat_def sys_tick_s_def Let_def)

lemma heartbeats_tick: "tick ((dts_net_sys_heartbeat ^^ n) w) = tick w + of_nat n"
  by (induction n) (simp_all add: heartbeat_clock ac_simps)

lemma heartbeats_clock:
  "clock_ok w \<Longrightarrow> sys_tick_s ((dts_net_sys_heartbeat ^^ n) w) =
     (tick w + of_nat n) div DTS_NET_SYS_HEARTBEAT_FREQ"
  by (cases n) (simp_all add: sys_tick_s_def clock_ok_def heartbeat_clock(1) [unfolded sys_tick_s_def]
      heartbeats_tick ac_simps)

end
