(* ===== verification/Ip.thy ===== *)
theory Ip
  imports Checksum Dblk_Fragment Sys
begin

text \<open>
  \<^verbatim>\<open>dts_net_ip.c\<close> and \<^verbatim>\<open>include/dts/net/pseudo_header.h\<close>: addresses, the IPv4 header
  and its byte format, the pseudo header the transports checksum, and sending with
  fragmentation.  The function pointer \<^verbatim>\<open>ll_send\<close> of an interface is the parameter
  \<open>ll_send\<close> of the sending functions; \<open>Ether_Arp\<close> supplies the one the program
  installs.  Receiving is in \<open>Ip_Recv\<close>, behind the protocols it dispatches to.
\<close>

section \<open>Addresses\<close>

record ip_addr =
  ip_version :: u8
  ip_v4 :: "u8 list"
  ip_mask :: "u8 list"

definition wf_addr :: "ip_addr \<Rightarrow> bool" where
  "wf_addr a \<longleftrightarrow> length (ip_v4 a) = 4 \<and> length (ip_mask a) = 4"

text \<open>The little-endian load of \<^verbatim>\<open>*(uint32_t *)\<close>.\<close>

definition au32 :: "u8 list \<Rightarrow> u32" where
  "au32 bs = of_be32 (rev bs)"

definition ip_addr_equals :: "ip_addr \<Rightarrow> ip_addr \<Rightarrow> bool" where
  "ip_addr_equals a1 a2 =
     (if ip_version a1 = ip_version a2 then au32 (ip_v4 a1) = au32 (ip_v4 a2) else False)"

definition ip_addr_broadcast :: "ip_addr \<Rightarrow> bool" where
  "ip_addr_broadcast a = (if ip_version a = 4 then au32 (ip_v4 a) = 0xFFFFFFFF else False)"

definition ip_addr_same_lan :: "ip_addr \<Rightarrow> ip_addr \<Rightarrow> bool" where
  "ip_addr_same_lan a1 a2 =
     (if ip_version a1 = ip_version a2 then
        (au32 (ip_v4 a1) AND au32 (ip_mask a1)) = (au32 (ip_v4 a2) AND au32 (ip_mask a2)) \<or>
        ip_addr_broadcast a1 \<or> ip_addr_broadcast a2
      else False)"

section \<open>Headers and datagrams\<close>

text \<open>
  \<open>h_version\<close> and \<open>h_ihl\<close> are bit fields of four bits, \<open>h_flags\<close> of three and
  \<open>h_fragoff\<close> of thirteen: a store keeps the low bits.
\<close>

record ip_header =
  h_version :: u8
  h_ihl :: u8
  h_tos :: u8
  h_total_length :: u16
  h_ident :: u16
  h_flags :: u16
  h_fragoff :: u16
  h_ttl :: u8
  h_protocol :: u8
  h_checksum :: u16
  h_src :: ip_addr
  h_dest :: ip_addr
  h_options :: ptr
  h_option_size :: u8

record ip_datagram =
  dg_header :: ip_header
  dg_payload :: "addr option"
  dg_raw :: "addr option"

text \<open>
  An \<^verbatim>\<open>ip_t\<close>: \<open>ip_ll\<close> is the interface behind it; it is \<open>None\<close> until
  \<^verbatim>\<open>ether_arp_resgiter_pair\<close> has stored \<^verbatim>\<open>ll\<close> and \<^verbatim>\<open>ll_send\<close>.
\<close>

record ip =
  ip_ll :: "addr option"
  ip_self :: ip_addr

text \<open>
  The state this module adds: the static counter \<^verbatim>\<open>ident\<close>, the \<^verbatim>\<open>ip_t\<close> objects, and
  what an automatic header holds before it is assigned.
\<close>

record netw = sysw +
  ident :: int
  ips :: "addr \<rightharpoonup> ip"
  auto_header :: ip_header

type_synonym 'w ll_send = "addr \<Rightarrow> ip_datagram \<Rightarrow> 'w \<Rightarrow> (int \<times> 'w) option"

abbreviation IP_PROTOCOL_ICMP :: u8 where "IP_PROTOCOL_ICMP \<equiv> 1"
abbreviation IP_PROTOCOL_TCP :: u8 where "IP_PROTOCOL_TCP \<equiv> 6"
abbreviation IP_PROTOCOL_UDP :: u8 where "IP_PROTOCOL_UDP \<equiv> 17"

definition mkflags :: "u16 \<Rightarrow> u16 \<Rightarrow> u16" where
  "mkflags DF MF = push_bit 1 DF OR MF"

section \<open>The pseudo header\<close>

record pseudo_header =
  ph_src :: ip_addr
  ph_dest :: ip_addr
  ph_protocol :: u8
  ph_length :: u16
  ph_data :: ptr
  ph_data_size :: nat

definition pseudo_header_pack ::
  "pseudo_header \<Rightarrow> 'w heap_scheme \<Rightarrow> (nat \<times> 'w heap_scheme) option" where
  "pseudo_header_pack ph h =
     (if ph_data_size ph < 12 then Some (0, h)
      else do {
        h \<leftarrow> mem_write (ph_data ph) (take 4 (ip_v4 (ph_src ph))) h;
        h \<leftarrow> mem_write (padd (ph_data ph) 4) (take 4 (ip_v4 (ph_dest ph))) h;
        h \<leftarrow> wr8 (padd (ph_data ph) 8) 0 h;
        h \<leftarrow> wr8 (padd (ph_data ph) 9) (ph_protocol ph) h;
        (_, h) \<leftarrow> bw16 (ph_length ph) (padd (ph_data ph) 10) h;
        Some (12, h) })"

definition pseudo_header_new_from_stack ::
  "ip_addr \<Rightarrow> ip_addr \<Rightarrow> u8 \<Rightarrow> u16 \<Rightarrow> 'w heap_scheme \<Rightarrow> pseudo_header \<times> 'w heap_scheme" where
  "pseudo_header_new_from_stack s d proto len h = (case new_buf (fresh_bytes h 12) h of (buf, h) \<Rightarrow>
     (\<lparr>ph_src = s, ph_dest = d, ph_protocol = proto, ph_length = len,
       ph_data = buf, ph_data_size = 12\<rparr>, h))"

section \<open>Packing a header\<close>

definition ip_header_pack ::
  "ip_header \<Rightarrow> ptr \<Rightarrow> nat \<Rightarrow> 'w heap_scheme \<Rightarrow> (nat \<times> ip_header \<times> 'w heap_scheme) option" where
  "ip_header_pack hdr data len h =
     (if len < unat (h_option_size hdr) + 20 then Some (0, hdr, h)
      else do {
        let len = unat (h_option_size hdr) + 20;
        let len = (if len mod 4 \<noteq> 0 then len - len mod 4 + 4 else len);
        h \<leftarrow> memset data 0 len h;
        let hdr = hdr\<lparr>h_total_length := h_total_length hdr + of_nat len, h_checksum := 0\<rparr>;
        h \<leftarrow> wr8 data (of_nat (len div 4) OR push_bit 4 (h_version hdr)) h;
        h \<leftarrow> wr8 (padd data 1) (h_tos hdr) h;
        (_, h) \<leftarrow> bw16 (h_total_length hdr) (padd data 2) h;
        (_, h) \<leftarrow> bw16 (h_ident hdr) (padd data 4) h;
        (_, h) \<leftarrow> bw16 (push_bit 13 (h_flags hdr) OR h_fragoff hdr) (padd data 6) h;
        h \<leftarrow> wr8 (padd data 8) (h_ttl hdr) h;
        h \<leftarrow> wr8 (padd data 9) (h_protocol hdr) h;
        (_, h) \<leftarrow> bw16 (h_checksum hdr) (padd data 10) h;
        (pos, h) \<leftarrow> (if h_version hdr = 4 then do {
            h \<leftarrow> mem_write (padd data 12) (take 4 (ip_v4 (h_src hdr))) h;
            h \<leftarrow> mem_write (padd data 16) (take 4 (ip_v4 (h_dest hdr))) h;
            Some (padd data 20, h) }
          else Some (padd data 12, h));
        h \<leftarrow> memcpy pos (h_options hdr) (unat (h_option_size hdr)) h;
        c \<leftarrow> checksum data len h;
        let hdr = hdr\<lparr>h_checksum := c\<rparr>;
        (_, h) \<leftarrow> bw16 c (padd data 10) h;
        Some (len, hdr, h) })"

section \<open>Unpacking a header\<close>

definition ip_header_unpack ::
  "ip_datagram \<Rightarrow> 'w heap_scheme \<Rightarrow> (bool \<times> ip_datagram) option" where
  "ip_header_unpack dg h = do {
     raw \<leftarrow> get_node h (dg_raw dg);
     let hdr = dg_header dg;
     let data = d_data raw;
     let len = d_size raw;
     if len < 20 then Some (False, dg)
     else do {
       b0 \<leftarrow> rd8 h data;
       let hdr = hdr\<lparr>h_version := drop_bit 4 (b0 AND 0xF0), h_ihl := b0 AND 0x0F\<rparr>;
       if unat (h_ihl hdr) * 4 > len then Some (False, dg\<lparr>dg_header := hdr\<rparr>)
       else do {
         tos \<leftarrow> rd8 h (padd data 1);
         total \<leftarrow> br16 h (padd data 2);
         id1 \<leftarrow> br16 h (padd data 4);
         let hdr = hdr\<lparr>h_tos := tos, h_total_length := total, h_ident := id1\<rparr>;
         id2 \<leftarrow> br16 h (padd data 6);
         let hdr = hdr\<lparr>h_ident := id2\<rparr>;
         ttl \<leftarrow> rd8 h (padd data 8);
         proto \<leftarrow> rd8 h (padd data 9);
         csum \<leftarrow> br16 h (padd data 10);
         let hdr = hdr\<lparr>h_ttl := ttl, h_protocol := proto, h_checksum := csum,
           h_src := (h_src hdr)\<lparr>ip_version := h_version hdr\<rparr>,
           h_dest := (h_dest hdr)\<lparr>ip_version := h_version hdr\<rparr>\<rparr>;
         hdr \<leftarrow> (if h_version hdr = 4 then do {
             s \<leftarrow> mem_read h (padd data 12) 4;
             d \<leftarrow> mem_read h (padd data 16) 4;
             Some (hdr\<lparr>h_src := (h_src hdr)\<lparr>ip_v4 := s\<rparr>, h_dest := (h_dest hdr)\<lparr>ip_v4 := d\<rparr>\<rparr>) }
           else Some hdr);
         let hdr = (if len = 20 then hdr\<lparr>h_options := Null, h_option_size := 0\<rparr> else hdr);
         Some (True, dg\<lparr>dg_header := hdr\<rparr>) } } }"

section \<open>Sending\<close>

text \<open>\<^verbatim>\<open>ip->ll_send(ip->ll, datagram)\<close>.\<close>

definition call_ll_send :: "'w ll_send \<Rightarrow> ip \<Rightarrow> ip_datagram \<Rightarrow> 'w \<Rightarrow> (int \<times> 'w) option" where
  "call_ll_send ll_send ip dg w = do { e \<leftarrow> ip_ll ip; ll_send e dg w }"

text \<open>The loop over the fragments: \<open>cur\<close> is sent, \<open>next\<close> is the fragment behind it.\<close>

definition frag_hdr :: "ip_header \<Rightarrow> nat \<Rightarrow> bool \<Rightarrow> ip_header" where
  "frag_hdr hdr n mf = hdr\<lparr>h_total_length := of_nat n, h_flags := mkflags 0 (if mf then 1 else 0)\<rparr>"

definition frag_advance :: "ip_header \<Rightarrow> ip_header" where
  "frag_advance hdr = hdr\<lparr>h_fragoff := (h_fragoff hdr + h_total_length hdr div 8) AND 0x1FFF\<rparr>"

partial_function (option) send_fragments ::
  "('w netw_scheme) ll_send \<Rightarrow> ip \<Rightarrow> ip_datagram \<Rightarrow> addr option \<Rightarrow> addr option \<Rightarrow>
   'w netw_scheme \<Rightarrow> (int \<times> 'w netw_scheme) option" where
  "send_fragments ll_send ip dg cur nxt h =
     (if cur \<noteq> None then do {
        n \<leftarrow> dblk_size h cur;
        raw \<leftarrow> get_node h (dg_raw dg);
        (m, hdr, h) \<leftarrow> ip_header_pack (frag_hdr (dg_header dg) n (nxt \<noteq> None)) (d_data raw) (d_size raw) h;
        h \<leftarrow> upd_node (dg_raw dg) (\<lambda>d. d\<lparr>d_size := u16_of m\<rparr>) h;
        h \<leftarrow> upd_node cur (\<lambda>d. d\<lparr>d_next := None\<rparr>) h;
        h \<leftarrow> dblk_node_concat (dg_raw dg) cur h;
        let dg = dg\<lparr>dg_header := hdr\<rparr>;
        (ok, h) \<leftarrow> call_ll_send ll_send ip dg h;
        if ok = 0 then do {
          h \<leftarrow> dblk_list_delete cur h;
          h \<leftarrow> dblk_list_delete nxt h;
          h \<leftarrow> dblk_list_delete (dg_payload dg) h;
          Some (0, h) }
        else do {
          nxt' \<leftarrow> dblk_next h nxt;
          send_fragments ll_send ip (dg\<lparr>dg_header := frag_advance hdr\<rparr>) nxt nxt' h } }
      else do {
        h \<leftarrow> dblk_list_delete (dg_payload dg) h;
        Some (1, h) })"

definition ip_hl_send_body ::
  "('w netw_scheme) ll_send \<Rightarrow> ip \<Rightarrow> ip_datagram \<Rightarrow> nat \<Rightarrow> 'w netw_scheme \<Rightarrow>
   (int \<times> 'w netw_scheme) option" where
  "ip_hl_send_body ll_send ip dg payload_size h =
     (if payload_size < 1400 then do {
        raw \<leftarrow> get_node h (dg_raw dg);
        (m, hdr, h) \<leftarrow> ip_header_pack
          ((dg_header dg)\<lparr>h_total_length := of_nat payload_size, h_fragoff := 0\<rparr>)
          (d_data raw) (d_size raw) h;
        h \<leftarrow> upd_node (dg_raw dg) (\<lambda>d. d\<lparr>d_size := u16_of m\<rparr>) h;
        h \<leftarrow> dblk_node_concat (dg_raw dg) (dg_payload dg) h;
        call_ll_send ll_send ip (dg\<lparr>dg_header := hdr\<rparr>) h }
      else do {
        (cur, h) \<leftarrow> dblk_fragment (dg_payload dg) 1400 h;
        nxt \<leftarrow> dblk_next h cur;
        send_fragments ll_send ip (dg\<lparr>dg_header := (dg_header dg)\<lparr>h_fragoff := 0\<rparr>\<rparr>) cur nxt h })"

definition ip_hl_send ::
  "('w netw_scheme) ll_send \<Rightarrow> ip \<Rightarrow> ip_datagram \<Rightarrow> 'w netw_scheme \<Rightarrow>
   (int \<times> 'w netw_scheme) option" where
  "ip_hl_send ll_send ip dg h = do {
     payload_size \<leftarrow> dblk_size h (dg_payload dg);
     (raw, h) \<leftarrow> Some (dblk_node_new_from_stack_with_buff 64 h);
     buf \<leftarrow> map_option d_data (get_node h raw);
     if ident h = 2147483647 then None
     else do {
       let h = h\<lparr>ident := ident h + 1\<rparr>;
       let hdr = (dg_header dg)\<lparr>h_version := ip_version (ip_self ip) AND 0x0F,
         h_src := ip_self ip, h_ident := of_int (ident h)\<rparr>;
       (r, h) \<leftarrow> ip_hl_send_body ll_send ip (dg\<lparr>dg_raw := raw, dg_header := hdr\<rparr>) payload_size h;
       h \<leftarrow> pop_node raw h;
       h \<leftarrow> pop_buf buf h;
       Some (r, h) } }"

end
