(* ===== verification/Ip_Header.thy ===== *)
theory Ip_Header
  imports Ip
begin

text \<open>
  The IPv4 header as bytes: what \<^verbatim>\<open>ip_header_pack\<close> stores for a header without
  options, that the result has a correct checksum, and what \<^verbatim>\<open>ip_header_unpack\<close>
  reads back.  Then the address predicates.
\<close>

section \<open>The pseudo header\<close>

lemma wf_addr_take [simp]:
  "wf_addr a \<Longrightarrow> take 4 (ip_v4 a) = ip_v4 a" "wf_addr a \<Longrightarrow> length (ip_v4 a) = 4"
  by (simp_all add: wf_addr_def)

lemma pseudo_header_new_eq:
  "pseudo_header_new_from_stack s d proto len h =
   (\<lparr>ph_src = s, ph_dest = d, ph_protocol = proto, ph_length = len, ph_data = Ptr (brk h) 0,
      ph_data_size = 12\<rparr>, bump (set_buf (brk h) (fresh_bytes h 12) h))"
  by (simp add: pseudo_header_new_from_stack_def new_buf_def)

definition ph_bytes :: "ip_addr \<Rightarrow> ip_addr \<Rightarrow> u8 \<Rightarrow> u16 \<Rightarrow> u8 list" where
  "ph_bytes s d proto len = ip_v4 s @ ip_v4 d @ [0, proto] @ be16 len"

lemma length_ph_bytes [simp]: "wf_addr s \<Longrightarrow> wf_addr d \<Longrightarrow> length (ph_bytes s d p l) = 12"
  by (simp add: ph_bytes_def)

lemma pseudo_header_pack_write:
  assumes "wf_addr (ph_src ph)" "wf_addr (ph_dest ph)" "12 \<le> ph_data_size ph"
  shows "pseudo_header_pack ph h = do {
    h \<leftarrow> mem_write (ph_data ph) (ph_bytes (ph_src ph) (ph_dest ph) (ph_protocol ph) (ph_length ph)) h;
    Some (12, h) }"
  using assms by (simp add: pseudo_header_pack_def store_simps ph_bytes_def)

section \<open>The header\<close>

definition hdr_bytes :: "ip_header \<Rightarrow> u8 list" where
  "hdr_bytes hdr = [5 OR push_bit 4 (h_version hdr), h_tos hdr] @ be16 (h_total_length hdr) @
     be16 (h_ident hdr) @ be16 (push_bit 13 (h_flags hdr) OR h_fragoff hdr) @
     [h_ttl hdr, h_protocol hdr] @ be16 (h_checksum hdr) @ ip_v4 (h_src hdr) @ ip_v4 (h_dest hdr)"

definition sealed_hdr :: "ip_header \<Rightarrow> ip_header" where
  "sealed_hdr hdr = (let hdr = hdr\<lparr>h_total_length := h_total_length hdr + 20, h_checksum := 0\<rparr>
     in hdr\<lparr>h_checksum := inet_csum (hdr_bytes hdr)\<rparr>)"

definition plain_hdr :: "ip_header \<Rightarrow> bool" where
  "plain_hdr hdr \<longleftrightarrow> h_version hdr = 4 \<and> h_option_size hdr = 0 \<and>
     wf_addr (h_src hdr) \<and> wf_addr (h_dest hdr)"

lemma length_hdr_bytes [simp]: "plain_hdr hdr \<Longrightarrow> length (hdr_bytes hdr) = 20"
  by (simp add: hdr_bytes_def plain_hdr_def)

lemma hdr_bytes_checksum:
  assumes "plain_hdr hdr"
  shows "hdr_bytes (hdr\<lparr>h_checksum := c\<rparr>) = splice_at (hdr_bytes (hdr\<lparr>h_checksum := 0\<rparr>)) 10 (be16 c)"
  using assms by (simp add: hdr_bytes_def splice_at_def be16_def plain_hdr_def)

lemma sealed_hdr_sel [simp]:
  "h_version (sealed_hdr hdr) = h_version hdr" "h_tos (sealed_hdr hdr) = h_tos hdr"
  "h_total_length (sealed_hdr hdr) = h_total_length hdr + 20" "h_ident (sealed_hdr hdr) = h_ident hdr"
  "h_flags (sealed_hdr hdr) = h_flags hdr" "h_fragoff (sealed_hdr hdr) = h_fragoff hdr"
  "h_ttl (sealed_hdr hdr) = h_ttl hdr" "h_protocol (sealed_hdr hdr) = h_protocol hdr"
  "h_src (sealed_hdr hdr) = h_src hdr" "h_dest (sealed_hdr hdr) = h_dest hdr"
  "h_option_size (sealed_hdr hdr) = h_option_size hdr" "plain_hdr (sealed_hdr hdr) = plain_hdr hdr"
  by (simp_all add: sealed_hdr_def Let_def plain_hdr_def)

lemma sealed_hdr_verifies:
  assumes "plain_hdr hdr"
  shows "inet_csum (hdr_bytes (sealed_hdr hdr)) = 0"
proof -
  let ?z = "hdr\<lparr>h_total_length := h_total_length hdr + 20, h_checksum := 0\<rparr>"
  have plain: "plain_hdr ?z" using assms by (simp add: plain_hdr_def)
  have "take 2 (drop 10 (hdr_bytes ?z)) = [0, 0]"
    by (simp add: hdr_bytes_def be16_def)
  moreover have "hdr_bytes (sealed_hdr hdr) = splice_at (hdr_bytes ?z) 10 (be16 (inet_csum (hdr_bytes ?z)))"
    using hdr_bytes_checksum [OF plain, of "inet_csum (hdr_bytes ?z)"] by (simp add: sealed_hdr_def)
  ultimately show ?thesis
    using inet_csum_verifies [of 10 "hdr_bytes ?z"] length_hdr_bytes [OF plain] by simp
qed

lemma ip_header_pack_write:
  assumes "plain_hdr hdr" "20 \<le> len"
  shows "ip_header_pack hdr p len h = do {
      h \<leftarrow> mem_write p (hdr_bytes (hdr\<lparr>h_total_length := h_total_length hdr + 20, h_checksum := 0\<rparr>)) h;
      c \<leftarrow> checksum p 20 h;
      h \<leftarrow> mem_write (padd p 10) (be16 c) h;
      Some (20, hdr\<lparr>h_total_length := h_total_length hdr + 20, h_checksum := c\<rparr>, h) }"
  using assms
  by (simp add: ip_header_pack_def plain_hdr_def memset_def store_simps write_over hdr_bytes_def)

lemma ip_header_pack_ok:
  assumes plain: "plain_hdr hdr" and len: "20 \<le> len"
    and b: "bufs h b = Some bs" "i + 20 \<le> length bs"
  shows "ip_header_pack hdr (Ptr b i) len h =
    Some (20, sealed_hdr hdr, set_buf b (splice_at bs i (hdr_bytes (sealed_hdr hdr))) h)"
proof -
  let ?z = "hdr\<lparr>h_total_length := h_total_length hdr + 20, h_checksum := 0\<rparr>"
  let ?h = "set_buf b (splice_at bs i (hdr_bytes ?z)) h"
  have pz: "plain_hdr ?z" using plain by (simp add: plain_hdr_def)
  have len20: "length (hdr_bytes ?z) = 20" using pz by simp
  have "mem_read ?h (Ptr b i) 20 = Some (hdr_bytes ?z)"
    using b len20 take_drop_splice_at [of i "hdr_bytes ?z" bs] by (simp add: mem_simps)
  then have csum: "checksum (Ptr b i) 20 ?h = Some (inet_csum (hdr_bytes ?z))"
    by (rule checksum_even) auto
  have final: "mem_write (Ptr b (i + 10)) (be16 c) ?h = Some (set_buf b (splice_at bs i
      (splice_at (hdr_bytes ?z) 10 (be16 c))) h)" for c
    using b len20 by (simp add: mem_simps splice_at_inside)
  have "mem_write (Ptr b i) (hdr_bytes ?z) h = Some ?h"
    using b len20 by (simp add: mem_simps)
  then show ?thesis
    using final csum hdr_bytes_checksum [OF pz, of "inet_csum (hdr_bytes ?z)"]
    by (simp add: ip_header_pack_write [OF plain len] sealed_hdr_def Let_def)
qed

lemma ip_header_pack_too_small:
  "len < unat (h_option_size hdr) + 20 \<Longrightarrow> ip_header_pack hdr p len h = Some (0, hdr, h)"
  by (simp add: ip_header_pack_def)

lemma nibbles_4: "drop_bit 4 (5 OR push_bit 4 4 AND 0xF0) = (4 :: u8)" "(5 OR push_bit 4 4) AND 0xF = (5 :: u8)"
  by simp_all

text \<open>
  Reading a packed header back.  The identification is lost: its place is taken by the
  word that holds the flags and the fragment offset, which are not unpacked at all.
\<close>

definition read_back :: "ip_datagram \<Rightarrow> ip_header \<Rightarrow> nat \<Rightarrow> ip_datagram" where
  "read_back dg hdr len = dg\<lparr>dg_header := (dg_header dg)\<lparr>h_version := 4, h_ihl := 5, h_tos := h_tos hdr,
     h_total_length := h_total_length hdr, h_ident := push_bit 13 (h_flags hdr) OR h_fragoff hdr,
     h_ttl := h_ttl hdr, h_protocol := h_protocol hdr, h_checksum := h_checksum hdr,
     h_src := (h_src (dg_header dg))\<lparr>ip_version := 4, ip_v4 := ip_v4 (h_src hdr)\<rparr>,
     h_dest := (h_dest (dg_header dg))\<lparr>ip_version := 4, ip_v4 := ip_v4 (h_dest hdr)\<rparr>,
     h_options := (if len = 20 then Null else h_options (dg_header dg)),
     h_option_size := (if len = 20 then 0 else h_option_size (dg_header dg))\<rparr>\<rparr>"

lemma ip_header_unpack_packed:
  assumes "plain_hdr hdr" "get_node h (dg_raw dg) = Some d" "20 \<le> d_size d"
    and "mem_read h (d_data d) 20 = Some (hdr_bytes hdr)"
  shows "ip_header_unpack dg h = Some (True, read_back dg hdr (d_size d))"
proof -
  have len: "length (ip_v4 (h_src hdr)) = 4" "length (ip_v4 (h_dest hdr)) = 4" "h_version hdr = 4"
    using assms(1) by (simp_all add: plain_hdr_def)
  have rd: "rd8 h (padd (d_data d) k) = Some (hdr_bytes hdr ! k)" if "k < 20" for k
    using rd8_read [OF assms(4) that] .
  have sub: "mem_read h (padd (d_data d) k) m = Some (take m (drop k (hdr_bytes hdr)))" if "k + m \<le> 20" for k m
    using mem_read_sub [OF assms(4) that] .
  have bytes: "rd8 h (d_data d) = Some (5 OR push_bit 4 4)" "rd8 h (padd (d_data d) (Suc 0)) = Some (h_tos hdr)"
    "rd8 h (padd (d_data d) 8) = Some (h_ttl hdr)" "rd8 h (padd (d_data d) 9) = Some (h_protocol hdr)"
    using rd [of 0] rd [of 1] rd [of 8] rd [of 9] len by (simp_all add: hdr_bytes_def be16_def)
  have halves: "br16 h (padd (d_data d) 2) = Some (h_total_length hdr)"
    "br16 h (padd (d_data d) 4) = Some (h_ident hdr)"
    "br16 h (padd (d_data d) 6) = Some (push_bit 13 (h_flags hdr) OR h_fragoff hdr)"
    "br16 h (padd (d_data d) 10) = Some (h_checksum hdr)"
    using sub [of 2 2] sub [of 4 2] sub [of 6 2] sub [of 10 2]
    by (simp_all add: br16_read hdr_bytes_def)
  have addrs: "mem_read h (padd (d_data d) 12) 4 = Some (ip_v4 (h_src hdr))"
    "mem_read h (padd (d_data d) 16) 4 = Some (ip_v4 (h_dest hdr))"
    using sub [of 12 4] sub [of 16 4] len by (simp_all add: hdr_bytes_def)
  show ?thesis
    using assms(2,3) by (simp add: ip_header_unpack_def Let_def bytes halves addrs read_back_def)
qed

end
