(* ===== verification/Arp.thy ===== *)
theory Arp
  imports Ip_Header
begin

text \<open>
  \<^verbatim>\<open>dts_net_arp.c\<close>: ARP packets and their byte format.  The address pointers of a
  packet point into a packet buffer or at an array inside another structure (the MAC
  of a device, the address of an interface); the latter is given by its bytes.
\<close>

section \<open>Byte sources\<close>

datatype src = At ptr | Lit "u8 list"

fun src_add :: "src \<Rightarrow> nat \<Rightarrow> src" where
  "src_add (At p) n = At (padd p n)"
| "src_add (Lit bs) n = Lit (drop n bs)"

fun src_read :: "'w heap_scheme \<Rightarrow> src \<Rightarrow> nat \<Rightarrow> u8 list option" where
  "src_read h (At p) n = mem_read h p n"
| "src_read h (Lit bs) n = (if n \<le> length bs then Some (take n bs) else None)"

definition copy_src :: "ptr \<Rightarrow> src \<Rightarrow> nat \<Rightarrow> 'w heap_scheme \<Rightarrow> 'w heap_scheme option" where
  "copy_src dst s n h = do { bs \<leftarrow> src_read h s n; mem_write dst bs h }"

section \<open>Packets\<close>

record arp_packet =
  ap_hrd :: u16
  ap_pro :: u16
  ap_hln :: u8
  ap_pln :: u8
  ap_op :: u16
  ap_sha :: src
  ap_spa :: src
  ap_tha :: src
  ap_tpa :: src
  ap_data :: ptr
  ap_data_size :: u8

definition arp_size :: "arp_packet \<Rightarrow> nat" where
  "arp_size pkt = 8 + unat (ap_hln pkt) * 2 + unat (ap_pln pkt) * 2"

definition arp_pack :: "arp_packet \<Rightarrow> 'w heap_scheme \<Rightarrow> (nat \<times> arp_packet \<times> 'w heap_scheme) option" where
  "arp_pack pkt h =
     (if unat (ap_data_size pkt) < arp_size pkt then Some (0, pkt, h)
      else do {
        let pkt = pkt\<lparr>ap_data_size := of_nat (arp_size pkt)\<rparr>;
        let hln = unat (ap_hln pkt);
        let pln = unat (ap_pln pkt);
        let p = ap_data pkt;
        (p, h) \<leftarrow> bw16 (ap_hrd pkt) p h;
        (p, h) \<leftarrow> bw16 (ap_pro pkt) p h;
        h \<leftarrow> wr8 p (ap_hln pkt) h;
        h \<leftarrow> wr8 (padd p 1) (ap_pln pkt) h;
        (p, h) \<leftarrow> bw16 (ap_op pkt) (padd p 2) h;
        h \<leftarrow> copy_src p (ap_sha pkt) hln h;
        h \<leftarrow> copy_src (padd p hln) (ap_spa pkt) pln h;
        h \<leftarrow> copy_src (padd p (hln + pln)) (ap_tha pkt) hln h;
        h \<leftarrow> copy_src (padd p (hln + pln + hln)) (ap_tpa pkt) pln h;
        Some (unat (ap_data_size pkt), pkt, h) })"

definition arp_unpack :: "arp_packet \<Rightarrow> 'w heap_scheme \<Rightarrow> (bool \<times> arp_packet) option" where
  "arp_unpack pkt h =
     (if ap_data_size pkt < 8 then Some (False, pkt)
      else do {
        let p = ap_data pkt;
        hrd \<leftarrow> br16 h p;
        pro \<leftarrow> br16 h (padd p 2);
        hln \<leftarrow> rd8 h (padd p 4);
        pln \<leftarrow> rd8 h (padd p 5);
        op \<leftarrow> br16 h (padd p 6);
        let pkt = pkt\<lparr>ap_hrd := hrd, ap_pro := pro, ap_hln := hln, ap_pln := pln, ap_op := op\<rparr>;
        if unat (ap_data_size pkt) < arp_size pkt then Some (False, pkt)
        else do {
          let sha = padd p 8;
          let spa = padd sha (unat hln);
          let tha = padd spa (unat pln);
          let tpa = padd tha (unat hln);
          Some (True, pkt\<lparr>ap_sha := At sha, ap_spa := At spa, ap_tha := At tha, ap_tpa := At tpa\<rparr>) } })"

section \<open>Packing and reading back\<close>

definition arp_bytes :: "arp_packet \<Rightarrow> u8 list \<Rightarrow> u8 list \<Rightarrow> u8 list \<Rightarrow> u8 list \<Rightarrow> u8 list" where
  "arp_bytes pkt sha spa tha tpa = be16 (ap_hrd pkt) @ be16 (ap_pro pkt) @ [ap_hln pkt, ap_pln pkt] @
     be16 (ap_op pkt) @ sha @ spa @ tha @ tpa"

definition eth_ip :: "arp_packet \<Rightarrow> bool" where
  "eth_ip pkt \<longleftrightarrow> ap_hln pkt = 6 \<and> ap_pln pkt = 4"

lemma arp_size_eth_ip: "eth_ip pkt \<Longrightarrow> arp_size pkt = 28"
  by (simp add: arp_size_def eth_ip_def)

text \<open>A source that the stores into buffer \<open>b\<close> do not reach.\<close>

fun src_apart :: "addr \<Rightarrow> src \<Rightarrow> bool" where
  "src_apart b (At p) = (ptr_buf p \<noteq> Some b)"
| "src_apart b (Lit bs) = True"

lemma src_read_apart: "src_apart b s \<Longrightarrow> src_read (set_buf b x h) s n = src_read h s n"
  by (cases s; cases "(\<lambda>s. case s of At p \<Rightarrow> p | _ \<Rightarrow> Null) s") (auto simp: mem_read_def)

lemma src_read_length: "src_read h s n = Some bs \<Longrightarrow> length bs = n"
  by (cases s) (auto dest: mem_read_length split: if_splits)

lemma arp_pack_ok:
  assumes pkt: "eth_ip pkt" "28 \<le> unat (ap_data_size pkt)" "ap_data pkt = Ptr b i"
    and b: "bufs h b = Some bs" "i + 28 \<le> length bs"
    and s: "src_apart b (ap_sha pkt)" "src_apart b (ap_spa pkt)" "src_apart b (ap_tpa pkt)"
      "src_apart b (ap_tha pkt) \<or> ap_tha pkt = At (Ptr b (i + 18))"
    and r: "src_read h (ap_sha pkt) 6 = Some sha" "src_read h (ap_spa pkt) 4 = Some spa"
      "src_read h (ap_tha pkt) 6 = Some tha" "src_read h (ap_tpa pkt) 4 = Some tpa"
  shows "arp_pack pkt h = Some (28, pkt\<lparr>ap_data_size := 28\<rparr>,
    set_buf b (splice_at bs i (arp_bytes pkt sha spa tha tpa)) h)"
proof -
  let ?hd = "be16 (ap_hrd pkt) @ be16 (ap_pro pkt) @ [ap_hln pkt, ap_pln pkt] @ be16 (ap_op pkt)"
  have len: "length sha = 6" "length spa = 4" "length tha = 6" "length tpa = 4"
    using r by (auto dest: src_read_length)
  have hd: "length ?hd = 8" by simp
  have head: "arp_pack pkt h = do {
      h \<leftarrow> mem_write (Ptr b i) ?hd h;
      h \<leftarrow> copy_src (Ptr b (i + 8)) (ap_sha pkt) 6 h;
      h \<leftarrow> copy_src (Ptr b (i + 14)) (ap_spa pkt) 4 h;
      h \<leftarrow> copy_src (Ptr b (i + 18)) (ap_tha pkt) 6 h;
      h \<leftarrow> copy_src (Ptr b (i + 24)) (ap_tpa pkt) 4 h;
      Some (28, pkt\<lparr>ap_data_size := 28\<rparr>, h) }"
  proof -
    have "mem_write (Ptr b i) ?hd h = do {
        h \<leftarrow> mem_write (Ptr b i) (be16 (ap_hrd pkt)) h;
        h \<leftarrow> mem_write (Ptr b (i + 2)) (be16 (ap_pro pkt)) h;
        h \<leftarrow> mem_write (Ptr b (i + 4)) [ap_hln pkt] h;
        h \<leftarrow> mem_write (Ptr b (i + 5)) [ap_pln pkt] h;
        mem_write (Ptr b (i + 6)) (be16 (ap_op pkt)) h }"
      using b by (simp add: mem_simps splice_at_next)
    then show ?thesis
      using pkt arp_size_eth_ip [OF pkt(1)]
      by (simp add: arp_pack_def eth_ip_def bw16_write wr8_mem_write bind_pair_write bind_assoc)
  qed
  have w0: "mem_write (Ptr b i) ?hd h = Some (set_buf b (splice_at bs i ?hd) h)"
    using b by (simp add: mem_simps)
  have step: "copy_src (Ptr b (i + k)) src n (set_buf b (splice_at bs i xs) h) =
      Some (set_buf b (splice_at bs i (xs @ ys)) h)"
    if "src_apart b src \<or> src = At (Ptr b (i + k))" "src_read h src n = Some ys" "length xs = k" "k + n \<le> 28"
    for src k n xs ys
  proof -
    have "src_read (set_buf b (splice_at bs i xs) h) src n = Some ys"
      using that b by (auto simp: src_read_apart mem_simps take_drop_splice_at_after)
    then show ?thesis
      using that b src_read_length [OF that(2)] by (simp add: copy_src_def mem_simps splice_at_next)
  qed
  show ?thesis
    unfolding head w0
    using step [of "ap_sha pkt" 8 6 sha ?hd] step [of "ap_spa pkt" 14 4 spa "?hd @ sha"]
      step [of "ap_tha pkt" 18 6 tha "?hd @ sha @ spa"] step [of "ap_tpa pkt" 24 4 tpa "?hd @ sha @ spa @ tha"]
      s r hd len
    by (simp add: arp_bytes_def)
qed

lemma arp_unpack_ok:
  assumes "mem_read h p 28 = Some (arp_bytes q sha spa tha tpa)" "eth_ip q"
    and "length sha = 6" "length spa = 4" "length tha = 6" "length tpa = 4"
    and "ap_data pkt = p" "28 \<le> unat (ap_data_size pkt)"
  shows "arp_unpack pkt h = Some (True, pkt\<lparr>ap_hrd := ap_hrd q, ap_pro := ap_pro q, ap_hln := 6,
      ap_pln := 4, ap_op := ap_op q, ap_sha := At (padd p 8), ap_spa := At (padd p 14),
      ap_tha := At (padd p 18), ap_tpa := At (padd p 24)\<rparr>) \<and>
    mem_read h (padd p 8) 6 = Some sha \<and> mem_read h (padd p 14) 4 = Some spa \<and>
    mem_read h (padd p 18) 6 = Some tha \<and> mem_read h (padd p 24) 4 = Some tpa"
proof -
  have sub: "mem_read h (padd p k) m = Some (take m (drop k (arp_bytes q sha spa tha tpa)))" if "k + m \<le> 28" for k m
    using mem_read_sub [OF assms(1) that] .
  have s0: "mem_read h p 2 = Some (take 2 (arp_bytes q sha spa tha tpa))" using sub [of 0 2] by simp
  have b45: "rd8 h (padd p 4) = Some 6" "rd8 h (padd p 5) = Some 4"
    using rd8_read [OF assms(1), of 4] rd8_read [OF assms(1), of 5] assms(2)
    by (simp_all add: arp_bytes_def eth_ip_def be16_def)
  have half: "br16 h p = Some (ap_hrd q)" "br16 h (padd p 2) = Some (ap_pro q)" "br16 h (padd p 6) = Some (ap_op q)"
    using s0 sub [of 2 2] sub [of 6 2] by (simp_all add: br16_read arp_bytes_def)
  have parts: "mem_read h (padd p 8) 6 = Some sha" "mem_read h (padd p 14) 4 = Some spa"
    "mem_read h (padd p 18) 6 = Some tha" "mem_read h (padd p 24) 4 = Some tpa"
    using sub [of 8 6] sub [of 14 4] sub [of 18 6] sub [of 24 4] assms(3-6) by (simp_all add: arp_bytes_def)
  have "\<not> ap_data_size pkt < 8" using assms(8) by (simp add: word_less_nat_alt)
  then show ?thesis
    using assms(7,8) half b45 parts by (simp add: arp_unpack_def Let_def arp_size_def)
qed

end
