(* ===== verification/Ether.thy ===== *)
theory Ether
  imports Arp
begin

text \<open>
  The sending half of \<^verbatim>\<open>dts_net_ether.c\<close> and the unpacking of frames.  The driver's
  \<^verbatim>\<open>send\<close> is the parameter \<open>drv_send\<close>: it gets the interface, the frame and its size.
\<close>

record ether =
  e_interface :: addr
  mac_address :: "u8 list"

record ether_frame =
  ef_dest :: src
  ef_src :: src
  ef_payload :: "addr option"
  ef_type :: u16
  ef_crc :: u32
  ef_data :: ptr
  ef_data_size :: nat

abbreviation ETHER_TYPE_ARP :: u16 where "ETHER_TYPE_ARP \<equiv> 0x0806"
abbreviation ETHER_TYPE_IP :: u16 where "ETHER_TYPE_IP \<equiv> 0x0800"

type_synonym 'w drv_send = "addr \<Rightarrow> ptr \<Rightarrow> nat \<Rightarrow> 'w \<Rightarrow> (nat \<times> 'w) option"

definition ether_pack :: "ether_frame \<Rightarrow> 'w heap_scheme \<Rightarrow> (ether_frame \<times> 'w heap_scheme) option" where
  "ether_pack frame h = do {
     let p = ef_data frame;
     h \<leftarrow> copy_src p (ef_dest frame) 6 h;
     h \<leftarrow> copy_src (padd p 6) (ef_src frame) 6 h;
     h \<leftarrow> (if ef_type frame < 0x05DC then do {
             n \<leftarrow> dblk_size h (ef_payload frame);
             if n < 46 then map_option snd (bw16 46 (padd p 12) h) else Some h }
           else map_option snd (bw16 (ef_type frame) (padd p 12) h));
     (n, h) \<leftarrow> dblk_copy_to (ef_payload frame) (padd p 14) (size_sub (ef_data_size frame) 14) h;
     Some (frame\<lparr>ef_data_size := n + 14\<rparr>, h) }"

definition ether_unpack :: "ether_frame \<Rightarrow> 'w heap_scheme \<Rightarrow> (bool \<times> ether_frame \<times> 'w heap_scheme) option" where
  "ether_unpack frame h =
     (if ef_data_size frame < 64 then Some (False, frame, h)
      else do {
        let p = ef_data frame;
        let frame = frame\<lparr>ef_dest := At p, ef_src := At (padd p 6)\<rparr>;
        ty \<leftarrow> br16 h (padd p 12);
        let n = u16_of (ef_data_size frame - 12 - 2 - 4);
        h \<leftarrow> upd_node (ef_payload frame) (\<lambda>d. d\<lparr>d_size := n, d_data := padd p 14\<rparr>) h;
        crc \<leftarrow> br32 h (padd p (14 + n));
        Some (True, frame\<lparr>ef_type := ty, ef_crc := crc\<rparr>, h) })"

definition ether_hl_send ::
  "('w heap_scheme) drv_send \<Rightarrow> ether \<Rightarrow> ether_frame \<Rightarrow> 'w heap_scheme \<Rightarrow>
   (nat \<times> ether_frame \<times> 'w heap_scheme) option" where
  "ether_hl_send drv_send eth frame h = do {
     (frame, h) \<leftarrow> ether_pack (frame\<lparr>ef_src := Lit (mac_address eth)\<rparr>) h;
     (r, h) \<leftarrow> drv_send (e_interface eth) (ef_data frame) (ef_data_size frame) h;
     Some (r, frame, h) }"

section \<open>What a packed frame holds\<close>

definition frame_hdr :: "u8 list \<Rightarrow> u8 list \<Rightarrow> u16 \<Rightarrow> u8 list" where
  "frame_hdr dst mac ty = dst @ mac @ be16 ty"

lemma ether_pack_from:
  assumes b: "bufs h b = Some bs" "i + 14 + length ps \<le> length bs"
    and a: "length dst = 6" "length mac = 6" "src_read h (ef_dest frame) 6 = Some dst" "ef_src frame = Lit mac"
    and f: "ef_data frame = Ptr b i" "0x05DC \<le> ef_type frame" "14 + length ps \<le> ef_data_size frame"
      "ef_data_size frame < 2 ^ 32"
    and pl: "block h (ef_payload frame) as q" "block_bytes h as = Some ps" "b \<notin> data_bufs h as"
  shows "ether_pack frame h = Some (frame\<lparr>ef_data_size := length ps + 14\<rparr>,
    set_buf b (splice_at bs i (frame_hdr dst mac (ef_type frame) @ ps)) h)"
proof -
  let ?hd = "frame_hdr dst mac (ef_type frame)"
  let ?h1 = "set_buf b (splice_at bs i ?hd) h"
  have hd: "length ?hd = 14" using a by (simp add: frame_hdr_def)
  have n: "min (ef_data_size frame - 14) (length ps) = length ps"
    "take (ef_data_size frame - 14) ps = ps" using f(3) by auto
  have le: "length ps \<le> ef_data_size frame - 14" using f(3) by simp
  have sz: "size_sub (ef_data_size frame) 14 = ef_data_size frame - 14" using f by simp
  have "dblk_copy_to (ef_payload frame) (Ptr b (i + 14)) (ef_data_size frame - 14) ?h1 =
      Some (length ps, set_buf b (splice_at (splice_at bs i ?hd) (i + 14) ps) ?h1)"
    using dblk_copy_to_block [of ?h1 "ef_payload frame" as q ps b "splice_at bs i ?hd" "i + 14"
      "ef_data_size frame - 14"] pl b hd n le
    by (simp add: frame_simps data_bufs_def)
  moreover have "splice_at (splice_at bs i ?hd) (i + 14) ps = splice_at bs i (?hd @ ps)"
    using b hd by (simp add: splice_at_next)
  ultimately have copy: "dblk_copy_to (ef_payload frame) (Ptr b (i + 14)) (ef_data_size frame - 14) ?h1 =
      Some (length ps, set_buf b (splice_at bs i (?hd @ ps)) h)" by simp
  have "\<not> ef_type frame < 0x05DC" using f(2) by simp
  moreover have w: "mem_write (Ptr b i) ?hd h = Some ?h1"
    using b hd by (simp add: mem_simps)
  have "do { h \<leftarrow> copy_src (Ptr b i) (ef_dest frame) 6 h;
      h \<leftarrow> copy_src (Ptr b (i + 6)) (ef_src frame) 6 h;
      mem_write (Ptr b (i + 12)) (be16 (ef_type frame)) h } = Some ?h1"
    using a b by (simp add: copy_src_def mem_simps splice_at_next frame_hdr_def)
  ultimately show ?thesis
    using f(1) copy sz
    by (auto simp: ether_pack_def bw16_write option.map_comp comp_def bind_Some_iff
        simp flip: bind_assoc intro!: exI)
qed

lemma ether_pack_ok:
  assumes b: "bufs h b = Some bs" "i + 14 + length ps \<le> length bs"
    and a: "length dst = 6" "length mac = 6" "ef_dest frame = Lit dst" "ef_src frame = Lit mac"
    and f: "ef_data frame = Ptr b i" "0x05DC \<le> ef_type frame" "14 + length ps \<le> ef_data_size frame"
      "ef_data_size frame < 2 ^ 32"
    and pl: "block h (ef_payload frame) as q" "block_bytes h as = Some ps" "b \<notin> data_bufs h as"
  shows "ether_pack frame h = Some (frame\<lparr>ef_data_size := length ps + 14\<rparr>,
    set_buf b (splice_at bs i (frame_hdr dst mac (ef_type frame) @ ps)) h)"
  using ether_pack_from [of h b bs i ps dst mac frame as q] assms by simp

text \<open>
  A frame with a short payload is sent as it is, below the minimum that \<^verbatim>\<open>ether_unpack\<close>
  of the receiver asks for.
\<close>

lemma ether_unpack_short: "ef_data_size frame < 64 \<Longrightarrow> ether_unpack frame h = Some (False, frame, h)"
  by (simp add: ether_unpack_def)

end
