(* ===== verification/Ip_Send.thy ===== *)
theory Ip_Send
  imports Ip_Header
begin

text \<open>
  What \<^verbatim>\<open>ip_hl_send\<close> hands to the link layer: for a payload below 1400 bytes one
  block, a checked header followed by the payload; for a larger one the fragments,
  whose headers \<open>frag_hdr\<close> and \<open>frag_advance\<close> compute.
\<close>

section \<open>Frame facts for the extended state\<close>

lemma netw_sel [simp]:
  fixes h :: "'w netw_scheme"
  shows "ident (set_buf b x h) = ident h" "ident (set_node a d h) = ident h" "ident (bump h) = ident h"
    "ips (set_buf b x h) = ips h" "ips (set_node a d h) = ips h" "ips (bump h) = ips h"
    "auto_header (set_buf b x h) = auto_header h" "auto_header (set_node a d h) = auto_header h"
    "auto_header (bump h) = auto_header h"
    "ips (del_buf b h) = ips h" "ips (del_node a h) = ips h"
    "auto_header (del_buf b h) = auto_header h" "auto_header (del_node a h) = auto_header h"
    "ident (del_buf b h) = ident h" "ident (del_node a h) = ident h"
  by (simp_all add: set_buf_def set_node_def bump_def del_buf_def del_node_def)

lemma dblk_node_new_from_stack_with_buff_eq:
  "dblk_node_new_from_stack_with_buff n h =
   (Some (Suc (brk h)), bump (set_node (Suc (brk h)) (init_dblk (Ptr (brk h) 0) n)
      (bump (set_buf (brk h) (fresh_bytes h n) h))))"
  by (simp add: dblk_node_new_from_stack_with_buff_def new_buf_def new_node_def)

lemma length_fresh_bytes [simp]: "length (fresh_bytes h n) = n"
  by (simp add: fresh_bytes_def)

section \<open>A header in front of a payload\<close>

lemma block_push_node:
  assumes "block h p as q" "m \<notin> set as" "nodes h m = Some dm"
    and "nodes h' = (nodes h)(m \<mapsto> dm\<lparr>d_next := p, d_more := True\<rparr>)"
  shows "block h' (Some m) (m # as) q"
proof -
  have "block h' p as q"
    using assms(1,2,4) by (subst block_fresh_node [where h = h]) auto
  moreover have "as \<noteq> []" using assms(1) by auto
  ultimately show ?thesis using assms(3,4) by (simp add: block.simps(2))
qed

text \<open>The header \<^verbatim>\<open>ip_hl_send\<close> completes, before it is sealed by \<^verbatim>\<open>ip_header_pack\<close>.\<close>

definition out_hdr :: "ip \<Rightarrow> int \<Rightarrow> nat \<Rightarrow> ip_header \<Rightarrow> ip_header" where
  "out_hdr ip n len hdr = hdr\<lparr>h_version := ip_version (ip_self ip) AND 0x0F, h_src := ip_self ip,
     h_ident := of_int n, h_total_length := of_nat len, h_fragoff := 0\<rparr>"

definition link_ready :: "ip \<Rightarrow> ip_header \<Rightarrow> bool" where
  "link_ready ip hdr \<longleftrightarrow> ip_version (ip_self ip) = 4 \<and> wf_addr (ip_self ip) \<and> wf_addr (h_dest hdr) \<and>
     h_option_size hdr = 0"

lemma plain_out_hdr: "link_ready ip hdr \<Longrightarrow> plain_hdr (out_hdr ip n len hdr)"
  by (simp add: link_ready_def out_hdr_def plain_hdr_def)

definition packet_heap :: "addr option \<Rightarrow> ip_header \<Rightarrow> 'w netw_scheme \<Rightarrow> 'w netw_scheme" where
  "packet_heap p hdr h = set_node (Suc (brk h)) (init_dblk (Ptr (brk h) 0) 64\<lparr>d_size := 20, d_next := p,
       d_more := p \<noteq> None\<rparr>)
     (set_buf (brk h) (splice_at (fresh_bytes h 64) 0 (hdr_bytes hdr))
       (h\<lparr>brk := Suc (Suc (brk h)), ident := ident h + 1\<rparr>))"

lemma packet_heap_sel [simp]:
  "nodes (packet_heap p hdr h) = (nodes h)(Suc (brk h) \<mapsto>
     init_dblk (Ptr (brk h) 0) 64\<lparr>d_size := 20, d_next := p, d_more := p \<noteq> None\<rparr>)"
  "bufs (packet_heap p hdr h) = (bufs h)(brk h \<mapsto> splice_at (fresh_bytes h 64) 0 (hdr_bytes hdr))"
  "brk (packet_heap p hdr h) = Suc (Suc (brk h))" "mallocs (packet_heap p hdr h) = mallocs h"
  "malloc_ok (packet_heap p hdr h) = malloc_ok h" "ips (packet_heap p hdr h) = ips h"
  by (simp_all add: packet_heap_def)

lemma ip_hl_send_small_eq:
  assumes "dblk_size h (dg_payload dg) = Some n" "n < 1400" "link_ready ip (dg_header dg)"
    and "ip_ll ip = Some e" "ident h \<noteq> 2147483647"
  defines "hdr \<equiv> sealed_hdr (out_hdr ip (ident h + 1) n (dg_header dg))"
  shows "ip_hl_send ll_send ip dg h = do {
     (r, g) \<leftarrow> ll_send e (dg\<lparr>dg_raw := Some (Suc (brk h)), dg_header := hdr\<rparr>)
                (packet_heap (dg_payload dg) hdr h);
     g \<leftarrow> pop_node (Some (Suc (brk h))) g;
     g \<leftarrow> pop_buf (Ptr (brk h) 0) g;
     Some (r, g) }"
proof -
  let ?o = "out_hdr ip (ident h + 1) n (dg_header dg)"
  have plain: "plain_hdr ?o" using assms(3) by (rule plain_out_hdr)
  let ?raw = "Suc (brk h)"
  let ?h2 = "(bump (set_node ?raw (init_dblk (Ptr (brk h) 0) 64)
      (bump (set_buf (brk h) (fresh_bytes h 64) h))))\<lparr>ident := ident h + 1\<rparr>"
  have b2: "bufs ?h2 (brk h) = Some (fresh_bytes h 64)" by simp
  have pack: "ip_header_pack ?o (Ptr (brk h) 0) 64 ?h2 = Some (20, hdr,
      set_buf (brk h) (splice_at (fresh_bytes h 64) 0 (hdr_bytes hdr)) ?h2)"
    unfolding hdr_def using ip_header_pack_ok [OF plain _ b2] by simp
  have final: "do { h \<leftarrow> upd_node (Some ?raw) (\<lambda>d. d\<lparr>d_size := u16_of 20\<rparr>)
        (set_buf (brk h) (splice_at (fresh_bytes h 64) 0 (hdr_bytes hdr)) ?h2);
      dblk_node_concat (Some ?raw) (dg_payload dg) h } = Some (packet_heap (dg_payload dg) hdr h)"
    by (auto simp: dblk_node_concat_def packet_heap_def set_node_def set_buf_def bump_def
        init_dblk_def intro!: netw.equality)
  have out: "?o = (dg_header dg)\<lparr>h_version := ip_version (ip_self ip) AND 0x0F, h_src := ip_self ip,
     h_ident := of_int (ident h + 1), h_total_length := of_nat n, h_fragoff := 0\<rparr>"
    by (simp add: out_hdr_def)
  have node: "get_node ?h2 (Some ?raw) = Some (init_dblk (Ptr (brk h) 0) 64)" by simp
  have body: "ip_hl_send_body ll_send ip (dg\<lparr>dg_raw := Some ?raw, dg_header :=
      (dg_header dg)\<lparr>h_version := ip_version (ip_self ip) AND 0x0F, h_src := ip_self ip,
        h_ident := of_int (ident h + 1)\<rparr>\<rparr>) n ?h2 =
      ll_send e (dg\<lparr>dg_raw := Some ?raw, dg_header := hdr\<rparr>) (packet_heap (dg_payload dg) hdr h)"
    using assms(2,4) pack final
    by (simp add: ip_hl_send_body_def out node call_ll_send_def flip: bind_assoc)
  show ?thesis
    using assms(1,5) body
    by (simp add: ip_hl_send_def dblk_node_new_from_stack_with_buff_eq)
qed

text \<open>The packet is one block: the header node and then the nodes of the payload.\<close>

lemma block_bytes_old:
  assumes "wf_heap h" "block h p as q" "block_bytes h as = Some bs"
    and "\<And>a. a < brk h \<Longrightarrow> nodes h' a = nodes h a" "\<And>b. b < brk h \<Longrightarrow> bufs h' b = bufs h b"
  shows "block_bytes h' as = Some bs"
proof -
  have "nodes h' a = nodes h a" if "a \<in> set as" for a
    by (rule assms(4)) (rule wf_heap_block [OF assms(1,2) that])
  moreover have "bufs h' b = bufs h b" if "b \<in> data_bufs h as" for b
    by (rule assms(5)) (rule wf_heap_data_bufs [OF assms(1) that])
  ultimately show ?thesis
    using assms(3) block_bytes_frame [of as h' h] by simp
qed

lemma packet_heap_block:
  assumes "wf_heap h" "block h p as q"
  shows "block (packet_heap p hdr h) (Some (Suc (brk h))) (Suc (brk h) # as) q"
proof -
  have fresh: "Suc (brk h) \<notin> set as"
    using wf_heap_block [OF assms, of "Suc (brk h)"] by auto
  have "p \<noteq> None" using assms(2) by (cases as) (auto dest: block_Cons_D)
  moreover have "block (h\<lparr>nodes := (nodes h)(Suc (brk h) \<mapsto>
      init_dblk (Ptr (brk h) 0) 64\<lparr>d_size := 20\<rparr>)\<rparr>) p as q"
    using assms(2) fresh by (subst block_fresh_node [where h = h]) auto
  ultimately show ?thesis
    using fresh by (intro block_push_node [where h = "h\<lparr>nodes := (nodes h)(Suc (brk h) \<mapsto>
      init_dblk (Ptr (brk h) 0) 64\<lparr>d_size := 20\<rparr>)\<rparr>"]) auto
qed

lemma packet_heap_bytes:
  assumes "wf_heap h" "block h p as q" "block_bytes h as = Some bs" "plain_hdr hdr"
  shows "block_bytes (packet_heap p hdr h) (Suc (brk h) # as) = Some (hdr_bytes hdr @ bs)"
proof -
  have "block_bytes (packet_heap p hdr h) as = Some bs"
    by (rule block_bytes_old [OF assms(1-3)]) auto
  moreover have "node_bytes (packet_heap p hdr h) (Suc (brk h)) = Some (hdr_bytes hdr)"
    using assms(4) take_drop_splice_at [of 0 "hdr_bytes hdr" "fresh_bytes h 64"]
    by (simp add: node_bytes_def node_size_def mem_simps)
  ultimately show ?thesis by simp
qed

lemma wf_packet_heap:
  assumes "wf_heap w"
  shows "wf_heap (packet_heap p hdr w)"
  using assms unfolding wf_heap_def by (auto simp: less_Suc_eq)

section \<open>The headers of the fragments\<close>

lemma frag_advance_offset:
  "h_fragoff (frag_advance (sealed_hdr (frag_hdr hdr 1400 mf))) = (h_fragoff hdr + 177) AND 0x1FFF"
  by (simp add: frag_advance_def frag_hdr_def)

end
