(* ===== verification/Ext.thy ===== *)
theory Ext
  imports Ip_Send "HOL-Library.Multiset"
begin

text \<open>
  What the stack links against and this repository does not contain: the intrusive
  lists of \<^verbatim>\<open>dts.datastruct\<close> and the timers of \<^verbatim>\<open>dts.elib\<close>.  A \<^verbatim>\<open>list_t\<close> is seen as
  the list of the addresses it holds, in the order \<^verbatim>\<open>list_foreach\<close> visits them; its
  operations are parameters.  A timer has an opaque type \<open>'tm\<close>; its operations get
  the value of the clock \<^verbatim>\<open>sys_tick_s\<close> they were initialised with.

  \<open>list_laws\<close> and \<open>timer_laws\<close> state the documented behaviour that properties below
  rely on, as hypotheses; \<open>plain_ext\<close> shows that they can hold.
\<close>

record 'tm ext =
  list_enqueue :: "addr \<Rightarrow> addr list \<Rightarrow> addr list"
  list_dequeue :: "addr list \<Rightarrow> addr option \<times> addr list"
  list_queue_head :: "addr list \<Rightarrow> addr option"
  list_length :: "addr list \<Rightarrow> nat"
  list_add :: "addr \<Rightarrow> addr list \<Rightarrow> addr list"
  list_remove :: "addr \<Rightarrow> addr list \<Rightarrow> addr list"
  list_find :: "(addr \<Rightarrow> ip_addr \<Rightarrow> (bool \<times> ip_addr) option) \<Rightarrow> addr list \<Rightarrow> ip_addr \<Rightarrow>
     (addr option \<times> ip_addr) option"
  list_items :: "addr list \<Rightarrow> addr list"
  list_foreach_remove :: "addr \<Rightarrow> addr list \<Rightarrow> addr list"
  timer_init :: "'tm"
  timer_start :: "u32 \<Rightarrow> nat \<Rightarrow> 'tm \<Rightarrow> 'tm"
  timer_stop :: "'tm \<Rightarrow> 'tm"
  timer_expired :: "u32 \<Rightarrow> 'tm \<Rightarrow> bool"
  timer_remain :: "u32 \<Rightarrow> 'tm \<Rightarrow> nat"

text \<open>A search calls its match function on one element after the other, up to the first match.\<close>

fun find_from :: "(addr \<Rightarrow> 's \<Rightarrow> (bool \<times> 's) option) \<Rightarrow> addr list \<Rightarrow> 's \<Rightarrow> (addr option \<times> 's) option" where
  "find_from m [] s = Some (None, s)"
| "find_from m (x # xs) s = do {
     (ok, s) \<leftarrow> m x s;
     if ok then Some (Some x, s) else find_from m xs s }"

definition list_laws :: "'tm ext \<Rightarrow> bool" where
  "list_laws E \<longleftrightarrow>
     (\<forall>x xs. list_enqueue E x xs = xs @ [x]) \<and>
     (\<forall>xs. list_dequeue E xs = (case xs of [] \<Rightarrow> (None, []) | y # ys \<Rightarrow> (Some y, ys))) \<and>
     (\<forall>xs. list_queue_head E xs = (case xs of [] \<Rightarrow> None | y # ys \<Rightarrow> Some y)) \<and>
     (\<forall>xs. list_length E xs = length xs) \<and>
     (\<forall>x xs. mset (list_add E x xs) = add_mset x (mset xs)) \<and>
     (\<forall>x xs. list_remove E x xs = remove1 x xs) \<and>
     (\<forall>m xs s. list_find E m xs s = find_from m xs s) \<and>
     (\<forall>xs. list_items E xs = xs) \<and>
     (\<forall>x xs. list_foreach_remove E x xs = remove1 x xs)"

definition timer_laws :: "'tm ext \<Rightarrow> bool" where
  "timer_laws E \<longleftrightarrow>
     (\<forall>now. \<not> timer_expired E now (timer_init E)) \<and>
     (\<forall>now t. \<not> timer_expired E now (timer_stop E t)) \<and>
     (\<forall>now n t later. n < 2 ^ 32 \<longrightarrow>
        timer_expired E later (timer_start E now n t) = (n \<le> unat (later - now)))"

text \<open>An instance, with a timer that remembers its start and its period.\<close>

definition plain_ext :: "(u32 \<times> nat) option ext" where
  "plain_ext = \<lparr>list_enqueue = \<lambda>x xs. xs @ [x],
     list_dequeue = \<lambda>xs. (case xs of [] \<Rightarrow> (None, []) | y # ys \<Rightarrow> (Some y, ys)),
     list_queue_head = \<lambda>xs. (case xs of [] \<Rightarrow> None | y # ys \<Rightarrow> Some y),
     list_length = length, list_add = \<lambda>x xs. x # xs, list_remove = remove1,
     list_find = find_from, list_items = \<lambda>xs. xs, list_foreach_remove = remove1,
     timer_init = None, timer_start = \<lambda>now n t. Some (now, n), timer_stop = \<lambda>t. None,
     timer_expired = \<lambda>now t. (case t of None \<Rightarrow> False | Some (s, n) \<Rightarrow> n \<le> unat (now - s)),
     timer_remain = \<lambda>now t. (case t of None \<Rightarrow> 0 | Some (s, n) \<Rightarrow> n - unat (now - s))\<rparr>"

lemma plain_ext_laws: "list_laws plain_ext" "timer_laws plain_ext"
  by (simp_all add: list_laws_def timer_laws_def plain_ext_def)

end
