(* ===== verification/Netif.thy ===== *)
theory Netif
  imports Ext
begin

text \<open>
  The network interfaces, from \<^verbatim>\<open>dts_net_ether_arp.c\<close> and \<^verbatim>\<open>ip_find_netif\<close> of
  \<^verbatim>\<open>dts_net_ip.c\<close>: pairs of an \<^verbatim>\<open>ip_t\<close> and an \<^verbatim>\<open>ether_t\<close>, searched by address, by
  network or by device.  The match functions store the netmask of every interface
  they look at into the address they search for; the searches return that address.
\<close>

record nif =
  nif_ip :: addr
  nif_eth :: addr

record netifw = netw +
  nifs :: "addr \<rightharpoonup> nif"
  nif_list :: "addr list"

definition list_match_ip_addr :: "'w netifw_scheme \<Rightarrow> addr \<Rightarrow> ip_addr \<Rightarrow> (bool \<times> ip_addr) option" where
  "list_match_ip_addr w n ipaddr = do {
     nif \<leftarrow> nifs w n;
     ip \<leftarrow> ips w (nif_ip nif);
     let ipaddr = ipaddr\<lparr>ip_mask := ip_mask (ip_self ip)\<rparr>;
     Some (ip_addr_equals ipaddr (ip_self ip), ipaddr) }"

text \<open>
  The address searched for may be the one of an interface itself (\<open>own\<close>): then the store
  into it is seen when that interface is compared.
\<close>

definition list_match_lan_addr ::
  "'w netifw_scheme \<Rightarrow> addr option \<Rightarrow> addr \<Rightarrow> ip_addr \<Rightarrow> (bool \<times> ip_addr) option" where
  "list_match_lan_addr w own n ipaddr = do {
     nif \<leftarrow> nifs w n;
     ip \<leftarrow> ips w (nif_ip nif);
     let self = (if own = Some (nif_ip nif) then ipaddr else ip_self ip);
     let ipaddr = ipaddr\<lparr>ip_mask := ip_mask self\<rparr>;
     Some (ip_addr_same_lan ipaddr self, ipaddr) }"

definition list_match_eth :: "'w netifw_scheme \<Rightarrow> addr \<Rightarrow> addr \<Rightarrow> ip_addr \<Rightarrow> (bool \<times> ip_addr) option" where
  "list_match_eth w eth n a = do { nif \<leftarrow> nifs w n; Some (nif_eth nif = eth, a) }"

definition ether_arp_get_ip_by_addr ::
  "'tm ext \<Rightarrow> addr option \<Rightarrow> ip_addr \<Rightarrow> 'w netifw_scheme \<Rightarrow> (addr option \<times> ip_addr) option" where
  "ether_arp_get_ip_by_addr E own addr w = do {
     (p, addr) \<leftarrow> list_find E (list_match_lan_addr w own) (nif_list w) addr;
     case p of None \<Rightarrow> Some (None, addr)
     | Some n \<Rightarrow> do { nif \<leftarrow> nifs w n; Some (Some (nif_ip nif), addr) } }"

text \<open>A search that does not look at an address is given this one.\<close>

definition no_addr :: ip_addr where
  "no_addr = \<lparr>ip_version = 0, ip_v4 = [], ip_mask = []\<rparr>"

definition ether_arp_get_ip :: "'tm ext \<Rightarrow> addr \<Rightarrow> 'w netifw_scheme \<Rightarrow> addr option option" where
  "ether_arp_get_ip E eth w = do {
     (p, _) \<leftarrow> list_find E (list_match_eth w eth) (nif_list w) no_addr;
     case p of None \<Rightarrow> Some None
     | Some n \<Rightarrow> do { nif \<leftarrow> nifs w n; Some (Some (nif_ip nif)) } }"

definition ip_find_netif ::
  "'tm ext \<Rightarrow> addr option \<Rightarrow> ip_addr \<Rightarrow> 'w netifw_scheme \<Rightarrow> (addr option \<times> ip_addr) option" where
  "ip_find_netif E own addr w =
     (if ip_version addr = 4 then ether_arp_get_ip_by_addr E own addr w else Some (None, addr))"

section \<open>What the search by network finds\<close>

text \<open>The address \<open>a\<close> is on the network of interface \<open>n\<close>, or is the broadcast address.\<close>

definition on_lan :: "'w netifw_scheme \<Rightarrow> ip_addr \<Rightarrow> addr \<Rightarrow> bool" where
  "on_lan w a n \<longleftrightarrow> (\<exists>nif ip. nifs w n = Some nif \<and> ips w (nif_ip nif) = Some ip \<and>
     ip_version a = ip_version (ip_self ip) \<and>
     (au32 (ip_v4 a) AND au32 (ip_mask (ip_self ip)) = au32 (ip_v4 (ip_self ip)) AND au32 (ip_mask (ip_self ip)) \<or>
      ip_addr_broadcast a \<or> ip_addr_broadcast (ip_self ip)))"

definition nifs_ok :: "'w netifw_scheme \<Rightarrow> bool" where
  "nifs_ok w \<longleftrightarrow> (\<forall>n \<in> set (nif_list w). \<exists>nif. nifs w n = Some nif \<and> ips w (nif_ip nif) \<noteq> None)"

lemma match_lan:
  assumes "nifs w n = Some nif" "ips w (nif_ip nif) = Some ip"
  shows "list_match_lan_addr w None n a = Some (on_lan w a n, a\<lparr>ip_mask := ip_mask (ip_self ip)\<rparr>)"
  using assms by (auto simp: list_match_lan_addr_def on_lan_def ip_addr_same_lan_def ip_addr_broadcast_def Let_def)

lemma on_lan_mask [simp]: "on_lan w (a\<lparr>ip_mask := m\<rparr>) = on_lan w a"
  by (simp add: on_lan_def ip_addr_broadcast_def fun_eq_iff)

lemma find_lan:
  assumes "\<And>n. n \<in> set ns \<Longrightarrow> \<exists>nif. nifs w n = Some nif \<and> ips w (nif_ip nif) \<noteq> None"
  shows "\<exists>a'. find_from (list_match_lan_addr w None) ns a = Some (find (on_lan w a) ns, a')"
  using assms
proof (induction ns arbitrary: a)
  case Nil
  then show ?case by simp
next
  case (Cons n ns)
  obtain nif ip where n: "nifs w n = Some nif" "ips w (nif_ip nif) = Some ip"
    using Cons.prems [of n] by auto
  let ?a = "a\<lparr>ip_mask := ip_mask (ip_self ip)\<rparr>"
  have "\<exists>a'. find_from (list_match_lan_addr w None) ns ?a = Some (find (on_lan w ?a) ns, a')"
    by (rule Cons.IH) (use Cons.prems in auto)
  then show ?case using match_lan [OF n, of a] by auto
qed

lemma ip_find_netif_first:
  assumes "list_laws E" "nifs_ok w" "ip_version a = 4"
  shows "\<exists>a'. ip_find_netif E None a w =
    Some (map_option (\<lambda>n. nif_ip (the (nifs w n))) (find (on_lan w a) (nif_list w)), a')"
proof -
  obtain a' where f: "find_from (list_match_lan_addr w None) (nif_list w) a =
      Some (find (on_lan w a) (nif_list w), a')"
    using find_lan [of "nif_list w" w a] assms(2) by (auto simp: nifs_ok_def)
  show ?thesis
  proof (cases "find (on_lan w a) (nif_list w)")
    case None
    with f assms show ?thesis
      by (simp add: ip_find_netif_def ether_arp_get_ip_by_addr_def list_laws_def)
  next
    case (Some n)
    then have "on_lan w a n" by (auto simp: find_Some_iff)
    then obtain nif where "nifs w n = Some nif" by (auto simp: on_lan_def)
    with f Some assms show ?thesis
      by (simp add: ip_find_netif_def ether_arp_get_ip_by_addr_def list_laws_def)
  qed
qed

text \<open>The mask of the interface found is left in the address.\<close>

lemma find_lan_found:
  assumes "\<And>n. n \<in> set ns \<Longrightarrow> \<exists>nif. nifs w n = Some nif \<and> ips w (nif_ip nif) \<noteq> None"
    and "find (on_lan w a) ns = Some m" "nifs w m = Some nif" "ips w (nif_ip nif) = Some ip"
  shows "find_from (list_match_lan_addr w None) ns a = Some (Some m, a\<lparr>ip_mask := ip_mask (ip_self ip)\<rparr>)"
  using assms
proof (induction ns arbitrary: a)
  case (Cons n ns)
  obtain nif' ip' where n: "nifs w n = Some nif'" "ips w (nif_ip nif') = Some ip'"
    using Cons.prems(1) [of n] by auto
  show ?case
  proof (cases "on_lan w a n")
    case True
    then show ?thesis using Cons.prems match_lan [OF n, of a] n by auto
  next
    case False
    then show ?thesis
      using Cons.IH [of "a\<lparr>ip_mask := ip_mask (ip_self ip')\<rparr>"] Cons.prems match_lan [OF n, of a] by auto
  qed
qed simp

lemma ip_find_netif_found:
  assumes "list_laws E" "nifs_ok w" "ip_version a = 4"
    and "find (on_lan w a) (nif_list w) = Some m" "nifs w m = Some nif" "ips w (nif_ip nif) = Some ip"
  shows "ip_find_netif E None a w = Some (Some (nif_ip nif), a\<lparr>ip_mask := ip_mask (ip_self ip)\<rparr>)"
  using assms find_lan_found [of "nif_list w" w a m nif ip]
  by (simp add: ip_find_netif_def ether_arp_get_ip_by_addr_def list_laws_def nifs_ok_def)

end
