(* ===== verification/Tcp_Segment.thy ===== *)
theory Tcp_Segment
  imports Ip_Send
begin

text \<open>
  The first part of \<^verbatim>\<open>dts_net_tcp.c\<close>: TCP segments, their byte format with the
  checksum over the pseudo header, the length of a segment in sequence space, and
  the comparison of sequence numbers \<^verbatim>\<open>sncmp\<close>.  The pseudo header a segment points
  to is always a local variable of the caller; it is passed as an argument here.
\<close>

section \<open>Segments\<close>

record tcp_segment =
  sg_src_port :: u16
  sg_dest_port :: u16
  sg_seq :: u32
  sg_ack :: u32
  sg_data_offset :: u16
  sg_flags :: u16
  sg_win :: u16
  sg_checksum :: u16
  sg_urgent_ptr :: u16
  sg_options :: "addr option"
  sg_payload :: "addr option"
  sg_raw :: "addr option"
  sg_datagram :: "ip_datagram option"

definition SEG_FLAG_URG :: u16 where "SEG_FLAG_URG = push_bit 5 1"
definition SEG_FLAG_ACK :: u16 where "SEG_FLAG_ACK = push_bit 4 1"
definition SEG_FLAG_PSH :: u16 where "SEG_FLAG_PSH = push_bit 3 1"
definition SEG_FLAG_RST :: u16 where "SEG_FLAG_RST = push_bit 2 1"
definition SEG_FLAG_SYN :: u16 where "SEG_FLAG_SYN = push_bit 1 1"
definition SEG_FLAG_FIN :: u16 where "SEG_FLAG_FIN = push_bit 0 1"

definition SEG_CTRL_A :: "tcp_segment \<Rightarrow> bool" where "SEG_CTRL_A s \<longleftrightarrow> sg_flags s AND SEG_FLAG_ACK \<noteq> 0"
definition SEG_CTRL_S :: "tcp_segment \<Rightarrow> bool" where "SEG_CTRL_S s \<longleftrightarrow> sg_flags s AND SEG_FLAG_SYN \<noteq> 0"
definition SEG_CTRL_R :: "tcp_segment \<Rightarrow> bool" where "SEG_CTRL_R s \<longleftrightarrow> sg_flags s AND SEG_FLAG_RST \<noteq> 0"
definition SEG_CTRL_U :: "tcp_segment \<Rightarrow> bool" where "SEG_CTRL_U s \<longleftrightarrow> sg_flags s AND SEG_FLAG_URG \<noteq> 0"
definition SEG_CTRL_P :: "tcp_segment \<Rightarrow> bool" where "SEG_CTRL_P s \<longleftrightarrow> sg_flags s AND SEG_FLAG_PSH \<noteq> 0"
definition SEG_CTRL_F :: "tcp_segment \<Rightarrow> bool" where "SEG_CTRL_F s \<longleftrightarrow> sg_flags s AND SEG_FLAG_FIN \<noteq> 0"
definition SEG_CTRL_AF :: "tcp_segment \<Rightarrow> bool" where "SEG_CTRL_AF s \<longleftrightarrow> SEG_CTRL_F s \<and> SEG_CTRL_A s"

lemmas seg_flag_defs = SEG_FLAG_URG_def SEG_FLAG_ACK_def SEG_FLAG_PSH_def SEG_FLAG_RST_def
  SEG_FLAG_SYN_def SEG_FLAG_FIN_def

lemmas seg_ctrl_defs = SEG_CTRL_A_def SEG_CTRL_S_def SEG_CTRL_R_def SEG_CTRL_U_def SEG_CTRL_P_def
  SEG_CTRL_F_def SEG_CTRL_AF_def

definition tcp_segment_init :: tcp_segment where
  "tcp_segment_init = \<lparr>sg_src_port = 0, sg_dest_port = 0, sg_seq = 0, sg_ack = 0,
     sg_data_offset = 0, sg_flags = 0, sg_win = 0, sg_checksum = 0, sg_urgent_ptr = 0,
     sg_options = None, sg_payload = None, sg_raw = None, sg_datagram = None\<rparr>"

text \<open>
  \<^verbatim>\<open>mem_alloc_tcp_segment\<close>: the segment object itself is a value of the model, so only
  the outcome of its allocation touches the heap.
\<close>

definition mem_alloc_tcp_segment :: "'w heap_scheme \<Rightarrow> tcp_segment option \<times> 'w heap_scheme" where
  "mem_alloc_tcp_segment h = (case malloc_try h of (ok, h) \<Rightarrow>
     (if ok then Some tcp_segment_init else None, h))"

definition tcp_segment_length :: "'w heap_scheme \<Rightarrow> tcp_segment \<Rightarrow> nat option" where
  "tcp_segment_length h seg = do {
     n \<leftarrow> dblk_size h (sg_payload seg);
     Some ((if SEG_CTRL_S seg then 1 else 0) + n + (if SEG_CTRL_F seg then 1 else 0)) }"

section \<open>Packing and unpacking\<close>

definition accmulate_node ::
  "u64 \<Rightarrow> addr option \<Rightarrow> 'w heap_scheme \<Rightarrow> u64 option" where
  "accmulate_node acc p h =
     (if p \<noteq> None then do { d \<leftarrow> get_node h p; checksum_accmulate acc (d_data d) (d_size d) h }
      else Some acc)"

definition tcp_pack ::
  "tcp_segment \<Rightarrow> pseudo_header \<Rightarrow> 'w heap_scheme \<Rightarrow> (bool \<times> tcp_segment \<times> 'w heap_scheme) option" where
  "tcp_pack seg psdhdr h = do {
     raw_size \<leftarrow> dblk_size h (sg_raw seg);
     opt_size \<leftarrow> dblk_size h (sg_options seg);
     if raw_size > 20 + opt_size then do {
       hd \<leftarrow> get_node h (sg_raw seg);
       let data = d_data hd;
       (_, h) \<leftarrow> bw16 (sg_src_port seg) data h;
       (_, h) \<leftarrow> bw16 (sg_dest_port seg) (padd data 2) h;
       (_, h) \<leftarrow> bw32 (sg_seq seg) (padd data 4) h;
       (_, h) \<leftarrow> bw32 (sg_ack seg) (padd data 8) h;
       (_, h) \<leftarrow> bw16 (push_bit 12 (sg_data_offset seg) OR sg_flags seg) (padd data 12) h;
       (_, h) \<leftarrow> bw16 (sg_win seg) (padd data 14) h;
       (_, h) \<leftarrow> bw16 0 (padd data 16) h;
       (_, h) \<leftarrow> bw16 (sg_urgent_ptr seg) (padd data 18) h;
       h \<leftarrow> upd_node (sg_raw seg) (\<lambda>d. d\<lparr>d_size := 20\<rparr>) h;
       opt_size \<leftarrow> dblk_size h (sg_options seg);
       pl_size \<leftarrow> dblk_size h (sg_payload seg);
       let psdhdr = psdhdr\<lparr>ph_length := of_nat (20 + opt_size + pl_size)\<rparr>;
       (_, h) \<leftarrow> pseudo_header_pack psdhdr h;
       acc \<leftarrow> checksum_accmulate 0 (ph_data psdhdr) (ph_data_size psdhdr) h;
       acc \<leftarrow> checksum_accmulate acc data 20 h;
       acc \<leftarrow> accmulate_node acc (sg_options seg) h;
       acc \<leftarrow> accmulate_node acc (sg_payload seg) h;
       let seg = seg\<lparr>sg_checksum := checksum_complete acc\<rparr>;
       (_, h) \<leftarrow> bw16 (sg_checksum seg) (padd data 16) h;
       h \<leftarrow> dblk_merge (sg_raw seg) (sg_options seg) h;
       h \<leftarrow> dblk_merge (sg_raw seg) (sg_payload seg) h;
       Some (True, seg, h) }
     else Some (False, seg, h) }"

definition tcp_unpack ::
  "tcp_segment \<Rightarrow> pseudo_header \<Rightarrow> 'w heap_scheme \<Rightarrow> (bool \<times> tcp_segment \<times> 'w heap_scheme) option" where
  "tcp_unpack seg psdhdr h = do {
     raw_size \<leftarrow> dblk_size h (sg_raw seg);
     if raw_size \<ge> 20 then do {
       hd \<leftarrow> get_node h (sg_raw seg);
       let data = d_data hd;
       sport \<leftarrow> br16 h data;
       dport \<leftarrow> br16 h (padd data 2);
       seq \<leftarrow> br32 h (padd data 4);
       ack \<leftarrow> br32 h (padd data 8);
       off \<leftarrow> br16 h (padd data 12);
       win \<leftarrow> br16 h (padd data 14);
       csum \<leftarrow> br16 h (padd data 16);
       urg \<leftarrow> br16 h (padd data 18);
       let seg = seg\<lparr>sg_src_port := sport, sg_dest_port := dport, sg_seq := seq, sg_ack := ack,
         sg_data_offset := drop_bit 12 (off AND 0xF000), sg_flags := off AND 0x0FFF,
         sg_win := win, sg_checksum := csum, sg_urgent_ptr := urg\<rparr>;
       let doff = unat (sg_data_offset seg) * 4;
       (_, h) \<leftarrow> dblk_node_init (sg_options seg) (padd data 20) (size_sub doff 20) h;
       (_, h) \<leftarrow> dblk_node_init (sg_payload seg) (padd data doff) (size_sub (d_size hd) doff) h;
       len \<leftarrow> dblk_size h (sg_raw seg);
       let psdhdr = psdhdr\<lparr>ph_length := of_nat len\<rparr>;
       (_, h) \<leftarrow> bw16 0 (padd data 16) h;
       (_, h) \<leftarrow> pseudo_header_pack psdhdr h;
       acc \<leftarrow> checksum_accmulate 0 (ph_data psdhdr) (ph_data_size psdhdr) h;
       acc \<leftarrow> checksum_accmulate acc data (d_size hd) h;
       Some (sg_checksum seg = checksum_complete acc, seg, h) }
     else Some (False, seg, h) }"

section \<open>Sequence numbers\<close>

datatype snop = SN_LS | SN_LE

definition sncmp :: "u32 \<Rightarrow> snop \<Rightarrow> u32 \<Rightarrow> snop \<Rightarrow> u32 \<Rightarrow> bool" where
  "sncmp mi op1 x op2 ma =
     (if mi = ma then x = ma \<and> op1 = op2 \<and> op1 = SN_LE
      else if mi < ma then
        (case (op1, op2) of
           (SN_LS, SN_LS) \<Rightarrow> mi < x \<and> x < ma
         | (SN_LE, SN_LS) \<Rightarrow> mi \<le> x \<and> x < ma
         | (SN_LS, SN_LE) \<Rightarrow> mi < x \<and> x \<le> ma
         | (SN_LE, SN_LE) \<Rightarrow> mi \<le> x \<and> x \<le> ma)
      else
        (case (op1, op2) of
           (SN_LS, SN_LS) \<Rightarrow> \<not> (ma \<le> x \<and> x \<le> mi)
         | (SN_LE, SN_LS) \<Rightarrow> ma \<le> x \<and> x < mi
         | (SN_LS, SN_LE) \<Rightarrow> ma < x \<and> x \<le> mi
         | (SN_LE, SN_LE) \<Rightarrow> ma < x \<and> x < mi))"

text \<open>
  The interval test in sequence space, for comparison: \<open>x\<close> lies between \<open>mi\<close> and \<open>ma\<close>
  going up from \<open>mi\<close>, modulo \<open>2 ^ 32\<close>.
\<close>

fun sn_rel :: "snop \<Rightarrow> nat \<Rightarrow> nat \<Rightarrow> bool" where
  "sn_rel SN_LS a b = (a < b)"
| "sn_rel SN_LE a b = (a \<le> b)"

definition sn_between :: "u32 \<Rightarrow> snop \<Rightarrow> u32 \<Rightarrow> snop \<Rightarrow> u32 \<Rightarrow> bool" where
  "sn_between mi op1 x op2 ma \<longleftrightarrow>
     sn_rel op1 0 (unat (x - mi)) \<and> sn_rel op2 (unat (x - mi)) (unat (ma - mi))"

lemma unat_diff_u32: "unat (x - mi) =
    (if unat mi \<le> unat x then unat x - unat mi else unat x + 2 ^ 32 - unat mi)" for x mi :: u32
  by (simp add: unat_sub_if')

lemma unat_u32_less: "unat (x :: u32) < 2 ^ 32"
  using unsigned_less [of x] by simp

lemmas sn_cases = unat_diff_u32 word_less_nat_alt word_le_nat_alt word_unat_eq_iff

lemma sncmp_no_wrap:
  assumes "mi \<le> ma"
  shows "sncmp mi op1 x op2 ma = sn_between mi op1 x op2 ma"
  using assms unat_u32_less [of x] unat_u32_less [of mi] unat_u32_less [of ma]
  by (cases op1; cases op2) (auto simp: sncmp_def sn_between_def sn_cases)

lemma sncmp_wrap:
  assumes "ma < mi"
  shows "sncmp mi op1 x op2 ma =
    (if op1 = SN_LS \<and> op2 = SN_LS then sn_between mi op1 x op2 ma
     else \<not> sn_between mi op1 x op2 ma)"
  using assms unat_u32_less [of x] unat_u32_less [of mi] unat_u32_less [of ma]
  by (cases op1; cases op2) (auto simp: sncmp_def sn_between_def sn_cases)

end
