(* ===== verification/Tcp_Codec.thy ===== *)
theory Tcp_Codec
  imports Tcp_Segment
begin

text \<open>
  \<^verbatim>\<open>tcp_pack\<close> and \<^verbatim>\<open>tcp_unpack\<close> over byte lists: what a packed segment looks like, that
  the checksum it carries is the Internet checksum of pseudo header, header and
  payload, and that unpacking the bytes of a packed segment accepts them and gives
  back every field.
\<close>

section \<open>The bytes of a segment header\<close>

definition seg_bytes :: "tcp_segment \<Rightarrow> u8 list" where
  "seg_bytes seg = be16 (sg_src_port seg) @ be16 (sg_dest_port seg) @ be32 (sg_seq seg) @
     be32 (sg_ack seg) @ be16 (push_bit 12 (sg_data_offset seg) OR sg_flags seg) @
     be16 (sg_win seg) @ be16 (sg_checksum seg) @ be16 (sg_urgent_ptr seg)"

lemma length_seg_bytes [simp]: "length (seg_bytes seg) = 20"
  by (simp add: seg_bytes_def)

lemma seg_bytes_checksum:
  "seg_bytes (seg\<lparr>sg_checksum := c\<rparr>) = splice_at (seg_bytes (seg\<lparr>sg_checksum := z\<rparr>)) 16 (be16 c)"
  by (simp add: seg_bytes_def splice_at_def be16_def be32_def)

lemma seg_bytes_field:
  "take 2 (seg_bytes seg) = be16 (sg_src_port seg)"
  "take 2 (drop 2 (seg_bytes seg)) = be16 (sg_dest_port seg)"
  "take 4 (drop 4 (seg_bytes seg)) = be32 (sg_seq seg)"
  "take 4 (drop 8 (seg_bytes seg)) = be32 (sg_ack seg)"
  "take 2 (drop 12 (seg_bytes seg)) = be16 (push_bit 12 (sg_data_offset seg) OR sg_flags seg)"
  "take 2 (drop 14 (seg_bytes seg)) = be16 (sg_win seg)"
  "take 2 (drop 16 (seg_bytes seg)) = be16 (sg_checksum seg)"
  "take 2 (drop 18 (seg_bytes seg)) = be16 (sg_urgent_ptr seg)"
  by (simp_all add: seg_bytes_def)

text \<open>The checksum \<^verbatim>\<open>tcp_pack\<close> puts into a segment with pseudo header \<open>ph\<close> and payload \<open>ps\<close>.\<close>

definition seg_csum :: "pseudo_header \<Rightarrow> tcp_segment \<Rightarrow> u8 list \<Rightarrow> u16" where
  "seg_csum ph seg ps = inet_csum (ph_bytes (ph_src ph) (ph_dest ph) (ph_protocol ph)
       (of_nat (20 + length ps)) @ seg_bytes (seg\<lparr>sg_checksum := 0\<rparr>) @ ps)"

definition sealed_seg :: "pseudo_header \<Rightarrow> tcp_segment \<Rightarrow> u8 list \<Rightarrow> tcp_segment" where
  "sealed_seg ph seg ps = seg\<lparr>sg_checksum := seg_csum ph seg ps\<rparr>"

lemma sealed_seg_sel [simp]:
  "sg_src_port (sealed_seg ph seg ps) = sg_src_port seg" "sg_dest_port (sealed_seg ph seg ps) = sg_dest_port seg"
  "sg_seq (sealed_seg ph seg ps) = sg_seq seg" "sg_ack (sealed_seg ph seg ps) = sg_ack seg"
  "sg_data_offset (sealed_seg ph seg ps) = sg_data_offset seg" "sg_flags (sealed_seg ph seg ps) = sg_flags seg"
  "sg_win (sealed_seg ph seg ps) = sg_win seg" "sg_urgent_ptr (sealed_seg ph seg ps) = sg_urgent_ptr seg"
  "sg_payload (sealed_seg ph seg ps) = sg_payload seg" "sg_raw (sealed_seg ph seg ps) = sg_raw seg"
  "sg_options (sealed_seg ph seg ps) = sg_options seg" "sg_datagram (sealed_seg ph seg ps) = sg_datagram seg"
  "sg_checksum (sealed_seg ph seg ps) = seg_csum ph seg ps"
  by (simp_all add: sealed_seg_def)

section \<open>Packing\<close>

definition ph_ready :: "pseudo_header \<Rightarrow> addr \<Rightarrow> 'w heap_scheme \<Rightarrow> bool" where
  "ph_ready ph c h \<longleftrightarrow> wf_addr (ph_src ph) \<and> wf_addr (ph_dest ph) \<and> ph_data_size ph = 12 \<and>
     ph_data ph = Ptr c 0 \<and> (\<exists>cs. bufs h c = Some cs \<and> length cs = 12)"

lemma pseudo_header_pack_ready:
  assumes "ph_ready ph c h"
  shows "pseudo_header_pack ph h =
    Some (12, set_buf c (ph_bytes (ph_src ph) (ph_dest ph) (ph_protocol ph) (ph_length ph)) h)"
  using assms
  by (auto simp: ph_ready_def pseudo_header_pack_write mem_simps)

text \<open>The node for the header: a plain node of its own, with room for twenty bytes and more.\<close>

definition hdr_node :: "'w heap_scheme \<Rightarrow> addr \<Rightarrow> dblk \<Rightarrow> addr \<Rightarrow> nat \<Rightarrow> u8 list \<Rightarrow> bool" where
  "hdr_node h a d b i bs \<longleftrightarrow> nodes h a = Some d \<and> \<not> d_more d \<and> d_vsize d = 0 \<and> 20 < d_size d \<and>
     d_data d = Ptr b i \<and> bufs h b = Some bs \<and> i + 20 \<le> length bs"

definition packed_heap ::
  "addr \<Rightarrow> dblk \<Rightarrow> addr \<Rightarrow> nat \<Rightarrow> u8 list \<Rightarrow> addr \<Rightarrow> u8 list \<Rightarrow> u8 list \<Rightarrow> 'w heap_scheme \<Rightarrow> 'w heap_scheme" where
  "packed_heap a d b i bs c phb sb h =
     set_buf b (splice_at bs i sb) (set_buf c phb (set_node a (d\<lparr>d_size := 20\<rparr>) h))"

lemma packed_heap_sel [simp]:
  "nodes (packed_heap a d b i bs c phb sb h) = (nodes h)(a \<mapsto> d\<lparr>d_size := 20\<rparr>)"
  "bufs (packed_heap a d b i bs c phb sb h) = (bufs h)(c \<mapsto> phb, b \<mapsto> splice_at bs i sb)"
  "brk (packed_heap a d b i bs c phb sb h) = brk h"
  by (simp_all add: packed_heap_def)

lemma dblk_size_node:
  "nodes h a = Some d \<Longrightarrow> \<not> d_more d \<Longrightarrow> dblk_size h (Some a) = Some (node_size d)"
  by (simp add: dblk_size_def dblk_size_loop.simps [of h "Some a"])

lemma wsum_three:
  assumes "even (length xs)" "even (length ys)"
  shows "wsum xs + wsum ys + wsum zs = wsum (xs @ ys @ zs)"
  using assms by (simp add: wsum_append)

text \<open>The bytes of a payload: none, or those of one plain node.\<close>

definition payload_is :: "'w heap_scheme \<Rightarrow> addr option \<Rightarrow> u8 list \<Rightarrow> bool" where
  "payload_is h p ps \<longleftrightarrow> (case p of None \<Rightarrow> ps = []
     | Some m \<Rightarrow> block h p [m] None \<and> node_bytes h m = Some ps \<and> \<not> is_vmem_node (the (nodes h m)) \<and> even (length ps))"

lemma payload_is_Some:
  "payload_is h (Some m) ps \<longleftrightarrow> (\<exists>dm. nodes h m = Some dm \<and> \<not> d_more dm \<and> d_next dm = None \<and>
     d_vsize dm = 0 \<and> mem_read h (d_data dm) (d_size dm) = Some ps \<and> length ps = d_size dm \<and>
     even (d_size dm))"
  by (auto simp: payload_is_def block.simps(2) dest!: node_bytes_SomeD
      intro!: exI split: option.splits)
     (auto simp: node_bytes_def node_size_def is_vmem_node_def dest: mem_read_length)

lemma payload_is_None [simp]: "payload_is h None ps \<longleftrightarrow> ps = []"
  by (simp add: payload_is_def)

lemma payload_is_frame:
  assumes "payload_is h p ps" "set_option p \<inter> {a} = {}"
    and "\<And>m. p = Some m \<Longrightarrow> b \<notin> data_bufs h [m] \<and> c \<notin> data_bufs h [m]"
  shows "payload_is (set_buf b x (set_buf c y (set_node a e h))) p ps"
proof (cases p)
  case (Some m)
  then have ne: "m \<noteq> a" "b \<notin> data_bufs h [m]" "c \<notin> data_bufs h [m]" using assms(2,3) by auto
  have "node_bytes (set_buf b x (set_buf c y (set_node a e h))) m = node_bytes h m"
    using ne by (intro node_bytes_cong) auto
  with assms(1) ne Some show ?thesis
    by (auto simp: payload_is_def block.simps(2) split: option.splits)
qed (use assms(1) in \<open>simp add: payload_is_def\<close>)

lemma payload_size: "payload_is h p ps \<Longrightarrow> dblk_size h p = Some (length ps)"
  by (cases p) (auto simp: payload_is_Some dblk_size_node node_size_def)

lemma payload_accmulate:
  "payload_is h p ps \<Longrightarrow> accmulate_node acc p h = Some (acc + of_nat (wsum ps))"
  by (cases p) (auto simp: payload_is_Some accmulate_node_def checksum_accmulate_even)


lemma tcp_pack_sum:
  assumes "wf_addr (ph_src ph)" "wf_addr (ph_dest ph)" "length ps < 65536"
  shows "checksum_complete (of_nat (wsum (ph_bytes (ph_src ph) (ph_dest ph) (ph_protocol ph)
      (of_nat (20 + length ps)))) + of_nat (wsum (seg_bytes (seg\<lparr>sg_checksum := 0\<rparr>))) + of_nat (wsum ps)) =
    seg_csum ph seg ps"
proof -
  let ?p = "ph_bytes (ph_src ph) (ph_dest ph) (ph_protocol ph) (of_nat (20 + length ps))"
  let ?s = "seg_bytes (seg\<lparr>sg_checksum := 0\<rparr>)"
  have "(of_nat (wsum ?p) + of_nat (wsum ?s) + of_nat (wsum ps) :: u64) = of_nat (wsum (?p @ ?s @ ps))"
    using assms by (subst wsum_three [symmetric]) simp_all
  then show ?thesis
    using assms unfolding seg_csum_def by (simp only:) (rule checksum_complete_wsum, simp)
qed

lemma tcp_pack_write:
  assumes "nodes h a = Some d" "sg_raw seg = Some a" "sg_options seg = None"
    and "dblk_size h (Some a) = Some n" "20 < n"
  shows "tcp_pack seg ph h = do {
      h \<leftarrow> mem_write (d_data d) (seg_bytes (seg\<lparr>sg_checksum := 0\<rparr>)) h;
      h \<leftarrow> upd_node (Some a) (\<lambda>d. d\<lparr>d_size := 20\<rparr>) h;
      m \<leftarrow> dblk_size h (sg_payload seg);
      let ph = ph\<lparr>ph_length := of_nat (20 + m)\<rparr>;
      (_, h) \<leftarrow> pseudo_header_pack ph h;
      acc \<leftarrow> checksum_accmulate 0 (ph_data ph) (ph_data_size ph) h;
      acc \<leftarrow> checksum_accmulate acc (d_data d) 20 h;
      acc \<leftarrow> accmulate_node acc (sg_payload seg) h;
      let c = checksum_complete acc;
      h \<leftarrow> mem_write (padd (d_data d) 16) (be16 c) h;
      h \<leftarrow> dblk_merge (Some a) (sg_payload seg) h;
      Some (True, seg\<lparr>sg_checksum := c\<rparr>, h) }"
  using assms
  by (simp add: tcp_pack_def store_simps seg_bytes_def accmulate_node_def [of _ None] dblk_merge_def [of _ None]
      Let_def del: upd_node_live)

lemma tcp_pack_ready:
  assumes hd: "hdr_node h a d b i bs" and ph: "ph_ready ph c h" and bc: "b \<noteq> c"
    and seg: "sg_raw seg = Some a" "sg_options seg = None" and pl: "payload_is h (sg_payload seg) ps"
    and sep: "sg_payload seg \<noteq> Some a"
      "\<And>m. sg_payload seg = Some m \<Longrightarrow> b \<notin> data_bufs h [m] \<and> c \<notin> data_bufs h [m]"
    and len: "length ps < 65536"
  shows "tcp_pack seg ph h = do {
    g \<leftarrow> dblk_merge (Some a) (sg_payload seg)
       (packed_heap a d b i bs c (ph_bytes (ph_src ph) (ph_dest ph) (ph_protocol ph) (of_nat (20 + length ps)))
         (seg_bytes (sealed_seg ph seg ps)) h);
    Some (True, sealed_seg ph seg ps, g) }"
proof -
  let ?s0 = "seg_bytes (seg\<lparr>sg_checksum := 0\<rparr>)"
  let ?pb = "ph_bytes (ph_src ph) (ph_dest ph) (ph_protocol ph) (of_nat (20 + length ps))"
  let ?ph = "ph\<lparr>ph_length := of_nat (20 + length ps)\<rparr>"
  let ?h1 = "set_buf b (splice_at bs i ?s0) h"
  let ?h2 = "set_node a (d\<lparr>d_size := 20\<rparr>) ?h1"
  let ?h3 = "set_buf c ?pb ?h2"
  note H = hd [unfolded hdr_node_def]
  note P = ph [unfolded ph_ready_def]
  have h3: "?h3 = set_buf b (splice_at bs i ?s0) (set_buf c ?pb (set_node a (d\<lparr>d_size := 20\<rparr>) h))"
    using bc by (simp add: set_node_set_buf set_buf_set_buf_other [of c b])
  have pl2: "payload_is ?h2 (sg_payload seg) ps"
    using payload_is_frame [OF pl, of a b b "splice_at bs i ?s0" "splice_at bs i ?s0" "d\<lparr>d_size := 20\<rparr>"] sep
    by (auto simp: set_node_set_buf disjoint_iff)
  have sb: "seg_bytes (sealed_seg ph seg ps) = splice_at ?s0 16 (be16 (seg_csum ph seg ps))"
    unfolding sealed_seg_def by (rule seg_bytes_checksum)
  have pl3: "payload_is ?h3 (sg_payload seg) ps"
    unfolding h3 using sep by (intro payload_is_frame [OF pl]) auto
  have size: "dblk_size h (Some a) = Some (d_size d)"
    using H by (simp add: dblk_size_node node_size_def)
  have run: "nodes h a = Some d" "sg_raw seg = Some a" "sg_options seg = None" "20 < d_size d"
    using H seg by simp_all
  note run = tcp_pack_write [OF run(1-3) size run(4)]
  have "mem_write (Ptr b i) ?s0 h = Some ?h1" using H by (simp add: mem_simps)
  moreover have "pseudo_header_pack ?ph ?h2 = Some (12, ?h3)"
    using pseudo_header_pack_ready [of ?ph c ?h2] P bc by (auto simp: ph_ready_def)
  moreover have "checksum_accmulate 0 (Ptr c 0) 12 ?h3 = Some (of_nat (wsum ?pb))"
    using P by (subst checksum_accmulate_even) (auto simp: mem_simps)
  moreover have "checksum_accmulate acc (Ptr b i) 20 ?h3 = Some (acc + of_nat (wsum ?s0))" for acc
    using H bc take_drop_splice_at [of i ?s0 bs]
    by (subst checksum_accmulate_even) (auto simp: mem_simps)
  moreover note payload_accmulate [OF pl3] payload_size [OF pl2]
  moreover have "accmulate_node acc None ?h3 = Some acc" for acc by (simp add: accmulate_node_def)
  moreover have "mem_write (Ptr b (i + 16)) (be16 (seg_csum ph seg ps)) ?h3 =
      Some (packed_heap a d b i bs c ?pb (seg_bytes (sealed_seg ph seg ps)) h)"
    unfolding h3 packed_heap_def sb using H by (simp add: mem_simps splice_at_inside)
  ultimately show ?thesis
    using H P seg tcp_pack_sum [of ph ps seg] len
    by (simp add: run Let_def sealed_seg_def)
qed

section \<open>Unpacking\<close>

lemma off_flags_split:
  fixes x f :: u16
  assumes "x < 16" "f < 4096"
  shows "drop_bit 12 ((push_bit 12 x OR f) AND 0xF000) = x" "(push_bit 12 x OR f) AND 0x0FFF = f"
proof -
  have f: "f AND mask 12 = f" and x: "x AND mask 4 = x"
    using assms by (simp_all add: less_mask_eq)
  have hi: "\<not> bit f n" if "12 \<le> n" for n
    using that f by (metis bit_and_iff bit_mask_iff not_le)
  have lo: "\<not> bit x n" if "4 \<le> n" for n
    using that x by (metis bit_and_iff bit_mask_iff not_le)
  have m: "(0xF000 :: u16) = push_bit 12 (mask 4)" "(0x0FFF :: u16) = mask 12"
    by (simp_all add: mask_eq_exp_minus_1)
  show "drop_bit 12 ((push_bit 12 x OR f) AND 0xF000) = x"
    unfolding m by (rule bit_word_eqI) (use hi lo in \<open>force simp: bit_simps not_le\<close>)
  show "(push_bit 12 x OR f) AND 0x0FFF = f"
    unfolding m by (rule bit_word_eqI) (use hi in \<open>force simp: bit_simps not_le\<close>)
qed

text \<open>The receiver's view of a segment: the fields of \<open>s\<close> in the receiver's segment object.\<close>

definition unpacked :: "tcp_segment \<Rightarrow> tcp_segment \<Rightarrow> tcp_segment" where
  "unpacked seg s = seg\<lparr>sg_src_port := sg_src_port s, sg_dest_port := sg_dest_port s,
     sg_seq := sg_seq s, sg_ack := sg_ack s, sg_data_offset := sg_data_offset s,
     sg_flags := sg_flags s, sg_win := sg_win s, sg_checksum := sg_checksum s,
     sg_urgent_ptr := sg_urgent_ptr s\<rparr>"

lemma read_fields:
  assumes "mem_read h p (20 + m) = Some (seg_bytes s @ ps)" "sg_data_offset s < 16" "sg_flags s < 4096"
  shows "br16 h p = Some (sg_src_port s)" "br16 h (padd p 2) = Some (sg_dest_port s)"
    "br32 h (padd p 4) = Some (sg_seq s)" "br32 h (padd p 8) = Some (sg_ack s)"
    "br16 h (padd p 12) = Some (push_bit 12 (sg_data_offset s) OR sg_flags s)"
    "br16 h (padd p 14) = Some (sg_win s)" "br16 h (padd p 16) = Some (sg_checksum s)"
    "br16 h (padd p 18) = Some (sg_urgent_ptr s)"
proof -
  have sub: "mem_read h (padd p k) l = Some (take l (drop k (seg_bytes s)))" if "k + l \<le> 20" for k l
    using mem_read_sub [OF assms(1), of k l] that by simp
  have "mem_read h p 2 = Some (take 2 (seg_bytes s))" using sub [of 0 2] by simp
  with sub [of 2 2] sub [of 4 4] sub [of 8 4] sub [of 12 2] sub [of 14 2] sub [of 16 2] sub [of 18 2]
  show "br16 h p = Some (sg_src_port s)" "br16 h (padd p 2) = Some (sg_dest_port s)"
    "br32 h (padd p 4) = Some (sg_seq s)" "br32 h (padd p 8) = Some (sg_ack s)"
    "br16 h (padd p 12) = Some (push_bit 12 (sg_data_offset s) OR sg_flags s)"
    "br16 h (padd p 14) = Some (sg_win s)" "br16 h (padd p 16) = Some (sg_checksum s)"
    "br16 h (padd p 18) = Some (sg_urgent_ptr s)"
    by (simp_all add: br16_read br32_read seg_bytes_field)
qed

lemma tcp_unpack_node_heap:
  assumes a: "nodes h a = Some d" "\<not> d_more d" "d_vsize d = 0" "d_data d = Ptr b i"
      "d_size d = 20 + length ps" "even (length ps)" "length ps < 65516"
    and b: "bufs h b = Some bs" "i + (20 + length ps) \<le> length bs"
      "take (20 + length ps) (drop i bs) = seg_bytes s @ ps"
    and ph: "ph_ready ph c h" and bc: "b \<noteq> c"
    and seg: "sg_raw seg = Some a" "sg_options seg = Some op" "sg_payload seg = Some pl"
      "nodes h op \<noteq> None" "nodes h pl \<noteq> None" "distinct [a, op, pl]"
    and s: "sg_data_offset s < 16" "sg_flags s < 4096"
  defines "doff \<equiv> unat (sg_data_offset s) * 4"
  shows "\<exists>h'. tcp_unpack seg ph h = Some (sg_checksum s = seg_csum ph s ps, unpacked seg s, h') \<and>
    nodes h' = (nodes h)(op \<mapsto> init_dblk (Ptr b (i + 20)) (size_sub doff 20),
      pl \<mapsto> init_dblk (Ptr b (i + doff)) (size_sub (d_size d) doff)) \<and>
    bufs h' = (bufs h)(b \<mapsto> splice_at bs (i + 16) [0, 0],
      c \<mapsto> ph_bytes (ph_src ph) (ph_dest ph) (ph_protocol ph) (of_nat (d_size d))) \<and>
    h' = h\<lparr>bufs := bufs h', nodes := nodes h'\<rparr>"
proof -
  let ?n = "20 + length ps"
  let ?h1 = "set_node pl (init_dblk (Ptr b (i + doff)) (size_sub (d_size d) doff))
     (set_node op (init_dblk (Ptr b (i + 20)) (size_sub doff 20)) h)"
  let ?h2 = "set_buf b (splice_at bs (i + 16) [0, 0]) ?h1"
  let ?pb = "ph_bytes (ph_src ph) (ph_dest ph) (ph_protocol ph) (of_nat ?n)"
  let ?h3 = "set_buf c ?pb ?h2"
  let ?s0 = "seg_bytes (s\<lparr>sg_checksum := 0\<rparr>)"
  note P = ph [unfolded ph_ready_def]
  have rd: "mem_read h (Ptr b i) ?n = Some (seg_bytes s @ ps)" using b by (simp add: mem_simps)
  note F = read_fields [OF rd s] off_flags_split [OF s]
  have raw: "dblk_size h (Some a) = Some ?n" "dblk_size ?h1 (Some a) = Some ?n"
    using a seg(6) by (simp_all add: dblk_size_node node_size_def)
  have z: "be16 0 = [0, 0]" by (simp add: be16_def)
  have clr: "mem_write (Ptr b (i + 16)) (be16 0) ?h1 = Some ?h2" using b by (simp add: mem_simps z)
  have php: "pseudo_header_pack (ph\<lparr>ph_length := of_nat ?n\<rparr>) ?h2 = Some (12, ?h3)"
    using pseudo_header_pack_ready [of "ph\<lparr>ph_length := of_nat ?n\<rparr>" c ?h2] P bc
    by (auto simp: ph_ready_def)
  have s1: "checksum_accmulate 0 (Ptr c 0) 12 ?h3 = Some (of_nat (wsum ?pb))"
    using P by (subst checksum_accmulate_even) (auto simp: mem_simps)
  have inside: "splice_at bs (i + 16) [0, 0] = splice_at bs i (splice_at (seg_bytes s @ ps) 16 [0, 0])"
  proof -
    have "splice_at (splice_at bs i (seg_bytes s @ ps)) (i + 16) [0, 0] =
        splice_at bs i (splice_at (seg_bytes s @ ps) 16 [0, 0])"
      using b by (intro splice_at_inside) auto
    moreover have "splice_at bs i (seg_bytes s @ ps) = bs"
      using b by (intro splice_at_idem) auto
    ultimately show ?thesis by simp
  qed
  have cleared: "splice_at (seg_bytes s @ ps) 16 [0, 0] = ?s0 @ ps"
  proof -
    have "?s0 = splice_at (seg_bytes s) 16 [0, 0]"
      using seg_bytes_checksum [where seg = s and c = 0 and z = "sg_checksum s"] by (simp add: z)
    then show ?thesis by (simp add: splice_at_def)
  qed
  have s2: "checksum_accmulate acc (Ptr b i) ?n ?h3 = Some (acc + of_nat (wsum (?s0 @ ps)))" for acc
    using b bc a(6) take_drop_splice_at [of i "?s0 @ ps" bs]
    by (subst checksum_accmulate_even) (auto simp: mem_simps inside cleared)
  have total: "checksum_complete (of_nat (wsum ?pb) + of_nat (wsum (?s0 @ ps))) = seg_csum ph s ps"
    using tcp_pack_sum [of ph ps s] P a(7) by (simp add: wsum_append add.assoc)
  have n1: "dblk_node_init (Some op) (Ptr b (i + 20)) (size_sub doff 20) h = Some (Some op,
      set_node op (init_dblk (Ptr b (i + 20)) (size_sub doff 20)) h)"
    using seg by (auto simp: dblk_node_init_def)
  have n2: "dblk_node_init (Some pl) (Ptr b (i + doff)) (size_sub (d_size d) doff)
      (set_node op (init_dblk (Ptr b (i + 20)) (size_sub doff 20)) h) = Some (Some pl, ?h1)"
    using seg by (auto simp: dblk_node_init_def)
  have "tcp_unpack seg ph h = Some (sg_checksum s = seg_csum ph s ps, unpacked seg s, ?h3)"
    using seg a raw F n1 n2 clr php s1 s2 total P
    by (simp add: tcp_unpack_def Let_def bw16_write unpacked_def doff_def)
  moreover have "?h3 = h\<lparr>bufs := bufs ?h3, nodes := nodes ?h3\<rparr>" by (simp add: set_buf_def set_node_def)
  ultimately show ?thesis using a by (intro exI [where x = ?h3]) simp
qed

lemma tcp_unpack_node:
  assumes a: "nodes h a = Some d" "\<not> d_more d" "d_vsize d = 0" "d_data d = Ptr b i"
      "d_size d = 20 + length ps" "even (length ps)" "length ps < 65516"
    and b: "bufs h b = Some bs" "i + (20 + length ps) \<le> length bs"
      "take (20 + length ps) (drop i bs) = seg_bytes s @ ps"
    and ph: "ph_ready ph c h" and bc: "b \<noteq> c"
    and seg: "sg_raw seg = Some a" "sg_options seg = Some op" "sg_payload seg = Some pl"
      "nodes h op \<noteq> None" "nodes h pl \<noteq> None" "distinct [a, op, pl]"
    and s: "sg_data_offset s < 16" "sg_flags s < 4096"
  defines "doff \<equiv> unat (sg_data_offset s) * 4"
  shows "\<exists>h'. tcp_unpack seg ph h = Some (sg_checksum s = seg_csum ph s ps, unpacked seg s, h') \<and>
    nodes h' = (nodes h)(op \<mapsto> init_dblk (Ptr b (i + 20)) (size_sub doff 20),
      pl \<mapsto> init_dblk (Ptr b (i + doff)) (size_sub (d_size d) doff)) \<and>
    bufs h' = (bufs h)(b \<mapsto> splice_at bs (i + 16) [0, 0],
      c \<mapsto> ph_bytes (ph_src ph) (ph_dest ph) (ph_protocol ph) (of_nat (d_size d)))"
  using tcp_unpack_node_heap [OF assms(1-20)] by (auto simp: doff_def)

end
