(* ===== verification/Udp.thy ===== *)
theory Udp
  imports Netif Tcp_Codec
begin

text \<open>
  \<^verbatim>\<open>dts_net_udp.c\<close>: datagrams with their checksum, the table of bound ports, delivery
  to the callback of a port and sending.  The callback is code of the application: it
  is the parameter \<open>call\<close>, given the identity of the function and its data.  The pool
  that \<^verbatim>\<open>mem_alloc_udp\<close> takes entries from is the parameter \<open>alloc\<close>.
\<close>

record udp_datagram =
  ud_src_port :: u16
  ud_dest_port :: u16
  ud_length :: u16
  ud_checksum :: u16
  ud_payload :: "addr option"
  ud_raw :: "addr option"

record udp =
  u_low_level :: addr
  u_port :: int
  u_cb_data :: int
  u_callback :: "nat option"

record udpw = netifw +
  udps :: "addr \<rightharpoonup> udp"
  udp_list :: "addr list"

type_synonym 'w udp_call = "nat \<Rightarrow> int \<Rightarrow> ptr \<Rightarrow> nat \<Rightarrow> 'w \<Rightarrow> 'w option"

section \<open>Packing and unpacking\<close>

definition udp_unpack ::
  "udp_datagram \<Rightarrow> pseudo_header \<Rightarrow> 'w heap_scheme \<Rightarrow> (bool \<times> udp_datagram \<times> 'w heap_scheme) option" where
  "udp_unpack dg psdhdr h = do {
     raw \<leftarrow> get_node h (ud_raw dg);
     if d_size raw < 8 then Some (False, dg, h)
     else do {
       let data = d_data raw;
       sport \<leftarrow> br16 h data;
       dport \<leftarrow> br16 h (padd data 2);
       len \<leftarrow> br16 h (padd data 4);
       csum \<leftarrow> br16 h (padd data 6);
       let dg = dg\<lparr>ud_src_port := sport, ud_dest_port := dport, ud_length := len, ud_checksum := csum\<rparr>;
       let psdhdr = psdhdr\<lparr>ph_length := len\<rparr>;
       h \<leftarrow> upd_node (ud_payload dg)
         (\<lambda>d. d\<lparr>d_data := padd data 8, d_size := u16_of (size_sub (unat len) 8)\<rparr>) h;
       (_, h) \<leftarrow> bw16 0 (padd data 6) h;
       (_, h) \<leftarrow> pseudo_header_pack psdhdr h;
       acc \<leftarrow> checksum_accmulate 0 (ph_data psdhdr) (ph_data_size psdhdr) h;
       acc \<leftarrow> checksum_accmulate acc data (d_size raw) h;
       Some (csum = checksum_complete acc, dg, h) } }"

definition udp_pack ::
  "udp_datagram \<Rightarrow> pseudo_header \<Rightarrow> 'w heap_scheme \<Rightarrow> (nat \<times> udp_datagram \<times> 'w heap_scheme) option" where
  "udp_pack dg psdhdr h = do {
     hd \<leftarrow> get_node h (ud_raw dg);
     pl \<leftarrow> get_node h (ud_payload dg);
     let data = d_data hd;
     let dg = dg\<lparr>ud_length := of_nat (d_size hd + d_size pl)\<rparr>;
     let psdhdr = psdhdr\<lparr>ph_length := ud_length dg\<rparr>;
     (_, h) \<leftarrow> bw16 (ud_src_port dg) data h;
     (_, h) \<leftarrow> bw16 (ud_dest_port dg) (padd data 2) h;
     (_, h) \<leftarrow> bw16 (ud_length dg) (padd data 4) h;
     (_, h) \<leftarrow> bw16 0 (padd data 6) h;
     (_, h) \<leftarrow> pseudo_header_pack psdhdr h;
     acc \<leftarrow> checksum_accmulate 0 (ph_data psdhdr) (ph_data_size psdhdr) h;
     acc \<leftarrow> checksum_accmulate acc data (d_size hd) h;
     acc \<leftarrow> checksum_accmulate acc (d_data pl) (d_size pl) h;
     let dg = dg\<lparr>ud_checksum := checksum_complete acc\<rparr>;
     (_, h) \<leftarrow> bw16 (ud_checksum dg) (padd data 6) h;
     h \<leftarrow> dblk_node_concat (ud_raw dg) (ud_payload dg) h;
     Some (unat (ud_length dg), dg, h) }"

section \<open>Bound ports\<close>

fun find_udp_loop :: "(addr \<rightharpoonup> udp) \<Rightarrow> addr \<Rightarrow> int \<Rightarrow> addr list \<Rightarrow> addr option option" where
  "find_udp_loop us ip port [] = Some None"
| "find_udp_loop us ip port (p # ps) = do {
     u \<leftarrow> us p;
     if u_low_level u = ip \<and> u_port u = port then Some (Some p) else find_udp_loop us ip port ps }"

definition find_udp_by_addr :: "'tm ext \<Rightarrow> addr \<Rightarrow> int \<Rightarrow> 'w udpw_scheme \<Rightarrow> addr option option" where
  "find_udp_by_addr E ip port w = find_udp_loop (udps w) ip port (list_items E (udp_list w))"

definition udp_bind ::
  "'tm ext \<Rightarrow> ('w udpw_scheme \<Rightarrow> addr option \<times> 'w udpw_scheme) \<Rightarrow> addr \<Rightarrow> int \<Rightarrow> nat option \<Rightarrow> int \<Rightarrow>
   'w udpw_scheme \<Rightarrow> (addr option \<times> 'w udpw_scheme) option" where
  "udp_bind E alloc ip port cbk cbkd w = do {
     used \<leftarrow> find_udp_by_addr E ip port w;
     if used = None then
       (case alloc w of
          (Some p, w) \<Rightarrow> Some (Some p, w\<lparr>udps := (udps w)(p \<mapsto> \<lparr>u_low_level = ip, u_port = port,
              u_cb_data = cbkd, u_callback = cbk\<rparr>), udp_list := list_add E p (udp_list w)\<rparr>)
        | (None, w) \<Rightarrow> Some (None, w))
     else Some (None, w) }"

section \<open>Receiving and sending\<close>

definition udp_deliver ::
  "'tm ext \<Rightarrow> ('w udpw_scheme) udp_call \<Rightarrow> addr \<Rightarrow> udp_datagram \<Rightarrow> 'w udpw_scheme \<Rightarrow> 'w udpw_scheme option" where
  "udp_deliver E call ip dg w = do {
     p \<leftarrow> find_udp_by_addr E ip (uint (ud_dest_port dg)) w;
     case p of None \<Rightarrow> Some w
     | Some a \<Rightarrow> do {
         u \<leftarrow> udps w a;
         case u_callback u of None \<Rightarrow> Some w
         | Some f \<Rightarrow> do {
             d \<leftarrow> get_node w (ud_payload dg);
             call f (u_cb_data u) (d_data d) (d_size d) w } } }"

definition udp_ip_recv ::
  "'tm ext \<Rightarrow> ('w udpw_scheme) udp_call \<Rightarrow> addr \<Rightarrow> ip_datagram \<Rightarrow> 'w udpw_scheme \<Rightarrow>
   (bool \<times> 'w udpw_scheme) option" where
  "udp_ip_recv E call ip dg w = do {
     (pl, w) \<leftarrow> Some (dblk_node_new_from_stack Null 0 w);
     (ph, w) \<leftarrow> Some (pseudo_header_new_from_stack (h_src (dg_header dg)) (h_dest (dg_header dg))
        (h_protocol (dg_header dg)) 0 w);
     (ok, ud, w) \<leftarrow> udp_unpack \<lparr>ud_src_port = 0, ud_dest_port = 0, ud_length = 0, ud_checksum = 0,
        ud_payload = pl, ud_raw = dg_payload dg\<rparr> ph w;
     w \<leftarrow> pop_buf (ph_data ph) w;
     w \<leftarrow> (if ok then udp_deliver E call ip ud w else Some w);
     w \<leftarrow> pop_node pl w;
     Some (ok, w) }"

definition udp_random_port :: u16 where
  "udp_random_port = 12435"

definition sendto_udp ::
  "('w netw_scheme) ll_send \<Rightarrow> ip \<Rightarrow> ip_addr \<Rightarrow> u16 \<Rightarrow> ptr \<Rightarrow> nat \<Rightarrow> 'w netw_scheme \<Rightarrow>
   (int \<times> 'w netw_scheme) option" where
  "sendto_udp ll_send ip dest port data len w = do {
     let hdr = (auto_header w)\<lparr>h_options := Null, h_option_size := 0, h_tos := 0,
       h_protocol := IP_PROTOCOL_UDP, h_ttl := 128, h_src := ip_self ip, h_dest := dest\<rparr>;
     (raw, w) \<leftarrow> Some (dblk_node_new_from_stack_with_buff 8 w);
     buf \<leftarrow> map_option d_data (get_node w raw);
     (pl, w) \<leftarrow> Some (dblk_node_new_from_stack data len w);
     (ph, w) \<leftarrow> Some (pseudo_header_new_from_stack (ip_self ip) dest IP_PROTOCOL_UDP 0 w);
     (_, ud, w) \<leftarrow> udp_pack \<lparr>ud_src_port = udp_random_port, ud_dest_port = port, ud_length = 0,
        ud_checksum = 0, ud_payload = pl, ud_raw = raw\<rparr> ph w;
     w \<leftarrow> pop_buf (ph_data ph) w;
     (r, w) \<leftarrow> ip_hl_send ll_send ip \<lparr>dg_header = hdr, dg_payload = ud_raw ud, dg_raw = None\<rparr> w;
     w \<leftarrow> pop_node pl w;
     w \<leftarrow> pop_node raw w;
     w \<leftarrow> pop_buf buf w;
     Some (r, w) }"

definition udp_sendto ::
  "'tm ext \<Rightarrow> ('w netifw_scheme) ll_send \<Rightarrow> ip_addr \<Rightarrow> u16 \<Rightarrow> ptr \<Rightarrow> nat \<Rightarrow> 'w netifw_scheme \<Rightarrow>
   (int \<times> ip_addr \<times> 'w netifw_scheme) option" where
  "udp_sendto E ll_send dest port data len w =
     (if ip_version dest \<noteq> 4 then Some (0, dest, w)
      else do {
        (i, dest) \<leftarrow> ip_find_netif E None dest w;
        case i of None \<Rightarrow> Some (0, dest, w)
        | Some a \<Rightarrow> do {
            ip \<leftarrow> ips w a;
            (r, w) \<leftarrow> sendto_udp ll_send ip dest port data len w;
            Some (r, dest, w) } })"

section \<open>Unpacking over bytes\<close>

definition udp_hdr :: "u16 \<Rightarrow> u16 \<Rightarrow> u16 \<Rightarrow> u16 \<Rightarrow> u8 list" where
  "udp_hdr s d len c = be16 s @ be16 d @ be16 len @ be16 c"

lemma length_udp_hdr [simp]: "length (udp_hdr s d len c) = 8"
  by (simp add: udp_hdr_def)

definition udp_csum :: "pseudo_header \<Rightarrow> u16 \<Rightarrow> u16 \<Rightarrow> u16 \<Rightarrow> u8 list \<Rightarrow> u16" where
  "udp_csum ph s d len ps = inet_csum (ph_bytes (ph_src ph) (ph_dest ph) (ph_protocol ph) len @
     udp_hdr s d len 0 @ ps)"

lemma udp_sum:
  assumes "wf_addr (ph_src ph)" "wf_addr (ph_dest ph)" "length ps < 65536"
  shows "checksum_complete (of_nat (wsum (ph_bytes (ph_src ph) (ph_dest ph) (ph_protocol ph) len)) +
      of_nat (wsum (udp_hdr s d len 0)) + of_nat (wsum ps)) = udp_csum ph s d len ps"
proof -
  let ?p = "ph_bytes (ph_src ph) (ph_dest ph) (ph_protocol ph) len"
  have "(of_nat (wsum ?p) + of_nat (wsum (udp_hdr s d len 0)) + of_nat (wsum ps) :: u64) =
      of_nat (wsum (?p @ udp_hdr s d len 0 @ ps))"
    using assms by (subst wsum_three [symmetric]) simp_all
  then show ?thesis
    using assms unfolding udp_csum_def by (simp only:) (rule checksum_complete_wsum, simp)
qed

text \<open>
  The payload gets the length the header claims: whether the datagram has that many bytes
  is not checked.
\<close>

definition udp_unpacked_heap ::
  "addr \<Rightarrow> dblk \<Rightarrow> addr \<Rightarrow> nat \<Rightarrow> u8 list \<Rightarrow> addr \<Rightarrow> u8 list \<Rightarrow> u16 \<Rightarrow> 'w heap_scheme \<Rightarrow> 'w heap_scheme" where
  "udp_unpacked_heap m e b i bs x phb len h = set_buf x phb (set_buf b (splice_at bs (i + 6) [0, 0])
     (set_node m (e\<lparr>d_data := Ptr b (i + 8), d_size := u16_of (size_sub (unat len) 8)\<rparr>) h))"

lemma udp_unpack_eq:
  assumes a: "nodes h a = Some d" "d_data d = Ptr b i" "d_size d = 8 + length ps" "even (length ps)"
      "length ps < 65528"
    and b: "bufs h b = Some bs" "i + (8 + length ps) \<le> length bs"
      "take (8 + length ps) (drop i bs) = udp_hdr s t len c @ ps"
    and ph: "ph_ready ph x h" and bx: "b \<noteq> x"
    and dg: "ud_raw dg = Some a" "ud_payload dg = Some m" "nodes h m = Some e" "m \<noteq> a"
  shows "udp_unpack dg ph h = Some (c = udp_csum ph s t len ps,
      dg\<lparr>ud_src_port := s, ud_dest_port := t, ud_length := len, ud_checksum := c\<rparr>,
      udp_unpacked_heap m e b i bs x (ph_bytes (ph_src ph) (ph_dest ph) (ph_protocol ph) len) len h)"
proof -
  let ?n = "8 + length ps"
  let ?h1 = "set_node m (e\<lparr>d_data := Ptr b (i + 8), d_size := u16_of (size_sub (unat len) 8)\<rparr>) h"
  let ?h2 = "set_buf b (splice_at bs (i + 6) [0, 0]) ?h1"
  let ?pb = "ph_bytes (ph_src ph) (ph_dest ph) (ph_protocol ph) len"
  let ?h3 = "set_buf x ?pb ?h2"
  let ?u0 = "udp_hdr s t len 0"
  note P = ph [unfolded ph_ready_def]
  have rd: "mem_read h (Ptr b i) ?n = Some (udp_hdr s t len c @ ps)" using b by (simp add: mem_simps)
  have sub: "mem_read h (padd (Ptr b i) k) 2 = Some (take 2 (drop k (udp_hdr s t len c)))" if "k + 2 \<le> 8" for k
    using mem_read_sub [OF rd, of k 2] that by simp
  have F: "br16 h (Ptr b i) = Some s" "br16 h (Ptr b (i + 2)) = Some t" "br16 h (Ptr b (i + 4)) = Some len"
    "br16 h (Ptr b (i + 6)) = Some c"
    using sub [of 0] sub [of 2] sub [of 4] sub [of 6] by (simp_all add: br16_read udp_hdr_def)
  have z: "be16 0 = [0, 0]" by (simp add: be16_def)
  have clr: "mem_write (Ptr b (i + 6)) (be16 0) ?h1 = Some ?h2" using b by (simp add: mem_simps z)
  have php: "pseudo_header_pack (ph\<lparr>ph_length := len\<rparr>) ?h2 = Some (12, ?h3)"
    using pseudo_header_pack_ready [of "ph\<lparr>ph_length := len\<rparr>" x ?h2] P bx
    by (auto simp: ph_ready_def)
  have s1: "checksum_accmulate 0 (Ptr x 0) 12 ?h3 = Some (of_nat (wsum ?pb))"
    using P by (subst checksum_accmulate_even) (auto simp: mem_simps)
  have inside: "splice_at bs (i + 6) [0, 0] = splice_at bs i (?u0 @ ps)"
  proof -
    have "splice_at (splice_at bs i (udp_hdr s t len c @ ps)) (i + 6) [0, 0] =
        splice_at bs i (splice_at (udp_hdr s t len c @ ps) 6 [0, 0])"
      using b by (intro splice_at_inside) auto
    moreover have "splice_at bs i (udp_hdr s t len c @ ps) = bs"
      using b by (intro splice_at_idem) auto
    moreover have "splice_at (udp_hdr s t len c @ ps) 6 [0, 0] = ?u0 @ ps"
      by (simp add: splice_at_def udp_hdr_def z be16_def [of c])
    ultimately show ?thesis by simp
  qed
  have s2: "checksum_accmulate acc (Ptr b i) ?n ?h3 = Some (acc + of_nat (wsum (?u0 @ ps)))" for acc
    using b bx a(4) take_drop_splice_at [of i "?u0 @ ps" bs]
    by (subst checksum_accmulate_even) (auto simp: mem_simps inside)
  have total: "checksum_complete (of_nat (wsum ?pb) + of_nat (wsum (?u0 @ ps))) = udp_csum ph s t len ps"
    using udp_sum [of ph ps len s t] P a(5) by (simp add: wsum_append add.assoc)
  show ?thesis
    unfolding udp_unpacked_heap_def using dg a F clr php s1 s2 total P
    by (simp add: udp_unpack_def Let_def bw16_write)
qed

lemma udp_unpack_node:
  assumes a: "nodes h a = Some d" "d_data d = Ptr b i" "d_size d = 8 + length ps" "even (length ps)"
      "length ps < 65528"
    and b: "bufs h b = Some bs" "i + (8 + length ps) \<le> length bs"
      "take (8 + length ps) (drop i bs) = udp_hdr s t len c @ ps"
    and ph: "ph_ready ph x h" and bx: "b \<noteq> x"
    and dg: "ud_raw dg = Some a" "ud_payload dg = Some m" "nodes h m = Some e" "m \<noteq> a"
  shows "\<exists>h'. udp_unpack dg ph h = Some (c = udp_csum ph s t len ps,
      dg\<lparr>ud_src_port := s, ud_dest_port := t, ud_length := len, ud_checksum := c\<rparr>, h') \<and>
    nodes h' = (nodes h)(m \<mapsto> e\<lparr>d_data := Ptr b (i + 8), d_size := u16_of (size_sub (unat len) 8)\<rparr>) \<and>
    bufs h' = (bufs h)(b \<mapsto> splice_at bs (i + 6) [0, 0],
      x \<mapsto> ph_bytes (ph_src ph) (ph_dest ph) (ph_protocol ph) len)"
  using udp_unpack_eq [OF assms] by (auto simp: udp_unpacked_heap_def)

section \<open>Bound ports are unique\<close>

definition bound_to :: "(addr \<rightharpoonup> udp) \<Rightarrow> addr \<Rightarrow> int \<Rightarrow> addr \<Rightarrow> bool" where
  "bound_to us ip port p \<longleftrightarrow> (\<exists>u. us p = Some u \<and> u_low_level u = ip \<and> u_port u = port)"

lemma find_udp_loop_find:
  assumes "\<And>p. p \<in> set ps \<Longrightarrow> us p \<noteq> None"
  shows "find_udp_loop us ip port ps = Some (find (bound_to us ip port) ps)"
  using assms
proof (induction ps)
  case (Cons p ps)
  then obtain u where "us p = Some u" by fastforce
  with Cons show ?case by (auto simp: bound_to_def)
qed simp

text \<open>No two entries of the table have the same interface and port.\<close>

definition ports_unique :: "'w udpw_scheme \<Rightarrow> bool" where
  "ports_unique w \<longleftrightarrow> distinct (udp_list w) \<and> (\<forall>p \<in> set (udp_list w). udps w p \<noteq> None) \<and>
     (\<forall>p \<in> set (udp_list w). \<forall>q \<in> set (udp_list w). \<forall>u v. udps w p = Some u \<longrightarrow> udps w q = Some v \<longrightarrow>
        u_low_level u = u_low_level v \<longrightarrow> u_port u = u_port v \<longrightarrow> p = q)"

lemma udp_bind_unique:
  assumes E: "list_laws E" and u: "ports_unique w"
    and al: "\<And>p w'. alloc w = (p, w') \<Longrightarrow> udps w' = udps w \<and> udp_list w' = udp_list w \<and>
      (\<forall>q. p = Some q \<longrightarrow> q \<notin> set (udp_list w))"
    and r: "udp_bind E alloc ip port cbk cbkd w = Some (res, w')"
  shows "ports_unique w'"
proof -
  have items: "list_items E (udp_list w) = udp_list w" using E by (simp add: list_laws_def)
  have live: "udps w p \<noteq> None" if "p \<in> set (udp_list w)" for p using u that by (simp add: ports_unique_def)
  have f: "find_udp_by_addr E ip port w = Some (find (bound_to (udps w) ip port) (udp_list w))"
    unfolding find_udp_by_addr_def items using find_udp_loop_find [of "udp_list w" "udps w"] live by simp
  have al': "udps (snd (alloc w)) = udps w" "udp_list (snd (alloc w)) = udp_list w"
    "fst (alloc w) = Some q \<Longrightarrow> q \<notin> set (udp_list w)" for q
    using al [OF prod.collapse [symmetric]] by auto
  show ?thesis
  proof (cases "find (bound_to (udps w) ip port) (udp_list w) = None \<and> fst (alloc w) \<noteq> None")
    case True
    then obtain q where q: "fst (alloc w) = Some q" by auto
    have add: "mset (list_add E q (udp_list w)) = add_mset q (mset (udp_list w))"
      using E by (simp add: list_laws_def)
    have set: "set (list_add E q (udp_list w)) = insert q (set (udp_list w))"
      using arg_cong [OF add, of set_mset] by simp
    have dist: "distinct (list_add E q (udp_list w))"
    proof -
      have "distinct (q # udp_list w)" using u al'(3) [OF q] by (simp add: ports_unique_def)
      moreover have "mset (q # udp_list w) = mset (list_add E q (udp_list w))" using add by simp
      ultimately show ?thesis using mset_eq_imp_distinct_iff by blast
    qed
    let ?u = "\<lparr>u_low_level = ip, u_port = port, u_cb_data = cbkd, u_callback = cbk\<rparr>"
    have w': "w' = (snd (alloc w))\<lparr>udps := (udps (snd (alloc w)))(q \<mapsto> ?u),
        udp_list := list_add E q (udp_list (snd (alloc w)))\<rparr>"
      using r f True q by (cases "alloc w") (auto simp: udp_bind_def)
    have none: "\<not> bound_to (udps w) ip port p" if "p \<in> set (udp_list w)" for p
      using True that by (auto simp: find_None_iff)
    show ?thesis
      using u al'(3) [OF q] none dist set live
      unfolding ports_unique_def w' by (auto simp: al' bound_to_def)
  next
    case False
    then have "w' = w \<or> w' = snd (alloc w)"
      using r f by (cases "alloc w") (auto simp: udp_bind_def split: if_splits option.splits)
    then show ?thesis using u al' by (auto simp: ports_unique_def)
  qed
qed

end
