(* ===== verification/Tcp.thy ===== *)
theory Tcp
  imports Udp
begin

text \<open>
  The connection state of \<^verbatim>\<open>dts_net_tcp.c\<close> and what a connection sends: control
  segments, data, the FIN, retransmissions.  A \<^verbatim>\<open>tcp_t\<close> is the record \<open>tcb\<close>; the
  functions take it, and the state of the machine, and return both.  \<open>ll_send\<close> is
  the link layer of the interface, \<open>E\<close> the external lists and timers.
\<close>

section \<open>State\<close>

datatype tcp_state =
  LISTEN | SYN_SENT | SYN_RECEIVED | ESTABLISHED | FIN_WAIT_1 | FIN_WAIT_2 |
  TIME_WAIT | CLOSE_WAIT | LAST_ACK | CLOSING | CLOSED

text \<open>
  The queues hold addresses: of segments (\<open>rx_segs\<close>), and of data blocks.  The segment
  object of \<^verbatim>\<open>tx_seg\<close> is never shared, so it is a value here.
\<close>

record 'tm tcb =
  t_passive :: bool
  t_dest :: ip_addr
  t_dest_port :: u16
  localhost :: addr
  t_port :: u32
  t_state :: tcp_state
  rx_segs :: "addr list"
  tx_data :: "addr list"
  rx_data :: "addr list"
  tx_seg :: "tcp_segment option"
  snd_una :: u32
  snd_nxt :: u32
  snd_iss :: u32
  rcv_nxt :: u32
  rcv_irs :: u32
  rcv_wnd :: u16
  tmr :: 'tm
  time_wait_seconds :: nat

record 'tm tcpw = udpw +
  tcbs :: "addr \<rightharpoonup> 'tm tcb"
  tcp_list :: "addr list"
  segs :: "addr \<rightharpoonup> tcp_segment"

definition tcp_generate_isn :: "'w sysw_scheme \<Rightarrow> u32" where
  "tcp_generate_isn w = sys_tick_s w"

section \<open>Sending a segment\<close>

definition tcp_header :: "ip_header \<Rightarrow> ip_addr \<Rightarrow> ip_header" where
  "tcp_header hdr dest = hdr\<lparr>h_options := Null, h_option_size := 0, h_tos := 0,
     h_protocol := IP_PROTOCOL_TCP, h_ttl := 0x3C, h_dest := dest\<rparr>"

definition tcp_ip_send ::
  "(('tm, 'w) tcpw_scheme) ll_send \<Rightarrow> 'tm tcb \<Rightarrow> tcp_segment \<Rightarrow> ('tm, 'w) tcpw_scheme \<Rightarrow>
   (bool \<times> ('tm, 'w) tcpw_scheme) option" where
  "tcp_ip_send ll_send t seg w = do {
     (pl, w) \<leftarrow> dblk_copy (sg_raw seg) w;
     ip \<leftarrow> ips w (localhost t);
     let dg = \<lparr>dg_header = tcp_header (auto_header w) (t_dest t), dg_payload = pl, dg_raw = None\<rparr>;
     (r, w) \<leftarrow> ip_hl_send ll_send ip dg w;
     if r = 0 then do { (_, w) \<leftarrow> dblk_delete pl w; Some (False, w) }
     else Some (True, w) }"

definition ctrl_seg :: "'tm tcb \<Rightarrow> u32 \<Rightarrow> u32 \<Rightarrow> u16 \<Rightarrow> addr option \<Rightarrow> tcp_segment" where
  "ctrl_seg t seq ack flags raw = tcp_segment_init\<lparr>sg_src_port := ucast (t_port t),
     sg_dest_port := t_dest_port t, sg_seq := seq, sg_ack := ack, sg_data_offset := 5,
     sg_flags := flags, sg_win := rcv_wnd t, sg_raw := raw\<rparr>"

definition tcp_send_ctrl_seg ::
  "(('tm, 'w) tcpw_scheme) ll_send \<Rightarrow> 'tm tcb \<Rightarrow> u32 \<Rightarrow> u32 \<Rightarrow> u16 \<Rightarrow> ('tm, 'w) tcpw_scheme \<Rightarrow>
   (bool \<times> 'tm tcb \<times> ('tm, 'w) tcpw_scheme) option" where
  "tcp_send_ctrl_seg ll_send t seq ack flags w = do {
     (raw, w) \<leftarrow> Some (dblk_node_new_from_stack_with_buff 32 w);
     buf \<leftarrow> map_option d_data (get_node w raw);
     ip \<leftarrow> ips w (localhost t);
     (ph, w) \<leftarrow> Some (pseudo_header_new_from_stack (ip_self ip) (t_dest t) IP_PROTOCOL_TCP 0 w);
     (_, seg, w) \<leftarrow> tcp_pack (ctrl_seg t seq ack flags raw) ph w;
     (ok, w) \<leftarrow> tcp_ip_send ll_send t seg w;
     n \<leftarrow> tcp_segment_length w seg;
     let t = (if ok then t\<lparr>snd_nxt := snd_nxt t + of_nat n\<rparr> else t);
     w \<leftarrow> pop_buf (ph_data ph) w;
     w \<leftarrow> pop_node raw w;
     w \<leftarrow> pop_buf buf w;
     Some (ok, t, w) }"

definition tcp_retransmit ::
  "'tm ext \<Rightarrow> (('tm, 'w) tcpw_scheme) ll_send \<Rightarrow> 'tm tcb \<Rightarrow> ('tm, 'w) tcpw_scheme \<Rightarrow>
   ('tm tcb \<times> ('tm, 'w) tcpw_scheme) option" where
  "tcp_retransmit E ll_send t w = do {
     w \<leftarrow> (case tx_seg t of None \<Rightarrow> Some w
           | Some seg \<Rightarrow> do { (_, w) \<leftarrow> tcp_ip_send ll_send t seg w; Some w });
     Some (t\<lparr>tmr := timer_start E (sys_tick_s w) 5 (tmr t)\<rparr>, w) }"

definition tcp_tx_seg_complete ::
  "'tm ext \<Rightarrow> 'tm tcb \<Rightarrow> ('tm, 'w) tcpw_scheme \<Rightarrow> ('tm tcb \<times> ('tm, 'w) tcpw_scheme) option" where
  "tcp_tx_seg_complete E t w = (case tx_seg t of None \<Rightarrow> Some (t, w)
     | Some seg \<Rightarrow> do {
         w \<leftarrow> dblk_list_delete (sg_raw seg) w;
         Some (t\<lparr>tx_seg := None, tmr := timer_stop E (tmr t)\<rparr>, w) })"

section \<open>Constructing segments\<close>

text \<open>
  The part the code repeats for data, FIN and SYN: a header node of 32 bytes, a pseudo
  header on the stack, and \<^verbatim>\<open>tcp_pack\<close>.  The pseudo header dies with the function that
  packs; \<open>k\<close> is what that function does in between.
\<close>

definition tcp_pack_new ::
  "'tm tcb \<Rightarrow> tcp_segment \<Rightarrow> ('tm, 'w) tcpw_scheme \<Rightarrow>
   (tcp_segment \<Rightarrow> ('tm, 'w) tcpw_scheme \<Rightarrow> ('tm tcb \<times> ('tm, 'w) tcpw_scheme) option) \<Rightarrow>
   ('tm tcb \<times> ('tm, 'w) tcpw_scheme) option" where
  "tcp_pack_new t seg w k = do {
     (raw, w) \<leftarrow> dblk_node_new_with_buff 32 w;
     ip \<leftarrow> ips w (localhost t);
     (ph, w) \<leftarrow> Some (pseudo_header_new_from_stack (ip_self ip) (t_dest t) IP_PROTOCOL_TCP 0 w);
     (_, seg, w) \<leftarrow> tcp_pack (seg\<lparr>sg_raw := raw\<rparr>) ph w;
     (t, w) \<leftarrow> k seg w;
     w \<leftarrow> pop_buf (ph_data ph) w;
     Some (t, w) }"

definition tcp_construct_data ::
  "'tm ext \<Rightarrow> (('tm, 'w) tcpw_scheme) ll_send \<Rightarrow> 'tm tcb \<Rightarrow> ('tm, 'w) tcpw_scheme \<Rightarrow>
   ('tm tcb \<times> ('tm, 'w) tcpw_scheme) option" where
  "tcp_construct_data E ll_send t w =
     (if tx_seg t = None \<and> list_length E (tx_data t) > 0 then
        (case list_dequeue E (tx_data t) of (tx, q) \<Rightarrow>
         let t = t\<lparr>tx_data := q\<rparr> in
         (case mem_alloc_tcp_segment w of
            (None, w) \<Rightarrow> Some (t, w)
          | (Some seg, w) \<Rightarrow>
              tcp_pack_new t (seg\<lparr>sg_src_port := ucast (t_port t), sg_dest_port := t_dest_port t,
                sg_seq := snd_una t, sg_ack := rcv_nxt t, sg_data_offset := 5,
                sg_flags := sg_flags seg OR SEG_FLAG_ACK, sg_win := rcv_wnd t, sg_payload := tx\<rparr>) w
                (\<lambda>seg w. do {
                  (_, w) \<leftarrow> tcp_ip_send ll_send t seg w;
                  n \<leftarrow> tcp_segment_length w seg;
                  Some (t\<lparr>tx_seg := Some seg, tmr := timer_start E (sys_tick_s w) 3 (tmr t),
                    snd_nxt := snd_nxt t + of_nat n\<rparr>, w) })))
      else Some (t, w))"

definition tcp_contruct_fin_ack ::
  "'tm ext \<Rightarrow> 'tm tcb \<Rightarrow> ('tm, 'w) tcpw_scheme \<Rightarrow> ('tm tcb \<times> ('tm, 'w) tcpw_scheme) option" where
  "tcp_contruct_fin_ack E t w =
     (if list_length E (tx_data t) = 0 \<and> tx_seg t = None then
        (case mem_alloc_tcp_segment w of
           (None, w) \<Rightarrow> Some (t, w)
         | (Some seg, w) \<Rightarrow>
             tcp_pack_new t (seg\<lparr>sg_src_port := ucast (t_port t), sg_dest_port := t_dest_port t,
               sg_seq := snd_una t, sg_ack := rcv_nxt t, sg_data_offset := 5,
               sg_flags := sg_flags seg OR (SEG_FLAG_FIN OR SEG_FLAG_ACK), sg_win := rcv_wnd t\<rparr>) w
               (\<lambda>seg w. do {
                 n \<leftarrow> tcp_segment_length w seg;
                 Some (t\<lparr>tx_seg := Some seg, tmr := timer_start E (sys_tick_s w) 1 (tmr t),
                   snd_nxt := snd_nxt t + of_nat n\<rparr>, w) }))
      else Some (t, w))"

section \<open>What the handlers of received segments share\<close>

definition tcp_handle_ack_of_data ::
  "'tm ext \<Rightarrow> (('tm, 'w) tcpw_scheme) ll_send \<Rightarrow> 'tm tcb \<Rightarrow> tcp_segment \<Rightarrow> ('tm, 'w) tcpw_scheme \<Rightarrow>
   (bool \<times> 'tm tcb \<times> ('tm, 'w) tcpw_scheme) option" where
  "tcp_handle_ack_of_data E ll_send t ack w =
     (if tx_seg t \<noteq> None \<and> sncmp (snd_una t) SN_LS (sg_ack ack) SN_LE (snd_nxt t) \<and>
         sg_ack ack = snd_nxt t then do {
        let t = t\<lparr>snd_una := sg_ack ack\<rparr>;
        (t, w) \<leftarrow> tcp_tx_seg_complete E t w;
        (t, w) \<leftarrow> tcp_construct_data E ll_send t w;
        Some (True, t, w) }
      else Some (False, t, w))"

definition tcp_handle_data ::
  "'tm ext \<Rightarrow> (('tm, 'w) tcpw_scheme) ll_send \<Rightarrow> 'tm tcb \<Rightarrow> tcp_segment \<Rightarrow> ('tm, 'w) tcpw_scheme \<Rightarrow>
   (bool \<times> 'tm tcb \<times> ('tm, 'w) tcpw_scheme) option" where
  "tcp_handle_data E ll_send t dat w =
     (if sg_seq dat = rcv_nxt t then do {
        seg_len \<leftarrow> tcp_segment_length w dat;
        if seg_len > 0 then do {
          let seg_len = (if seg_len > unat (rcv_wnd t) then unat (rcv_wnd t) else seg_len);
          (rx, w) \<leftarrow> dblk_node_new_with_buff seg_len w;
          case rx of None \<Rightarrow> Some (False, t, w)
          | Some r \<Rightarrow> do {
              d \<leftarrow> get_node w (sg_payload dat);
              (_, w) \<leftarrow> dblk_copy_from rx (d_data d) seg_len w;
              let t = t\<lparr>rx_data := list_enqueue E r (rx_data t), rcv_nxt := rcv_nxt t + of_nat seg_len\<rparr>;
              (case tx_seg t of
                 Some seg \<Rightarrow> Some (True, t\<lparr>tx_seg := Some (seg\<lparr>sg_ack := rcv_nxt t\<rparr>)\<rparr>, w)
               | None \<Rightarrow> do {
                   (_, t, w) \<leftarrow> tcp_send_ctrl_seg ll_send t (snd_una t) (rcv_nxt t) SEG_FLAG_ACK w;
                   Some (True, t, w) }) } }
        else Some (False, t, w) }
      else Some (False, t, w))"

definition tcp_handle_ack_of_fin_ack ::
  "'tm ext \<Rightarrow> 'tm tcb \<Rightarrow> tcp_segment \<Rightarrow> ('tm, 'w) tcpw_scheme \<Rightarrow>
   (bool \<times> 'tm tcb \<times> ('tm, 'w) tcpw_scheme) option" where
  "tcp_handle_ack_of_fin_ack E t ack w = (case tx_seg t of None \<Rightarrow> Some (False, t, w)
     | Some seg \<Rightarrow>
         if sg_seq seg + 1 = sg_ack ack then do {
           (t, w) \<leftarrow> tcp_tx_seg_complete E t w;
           Some (True, t, w) }
         else Some (False, t, w))"

definition tcp_handle_fin_ack ::
  "(('tm, 'w) tcpw_scheme) ll_send \<Rightarrow> 'tm tcb \<Rightarrow> tcp_segment \<Rightarrow> ('tm, 'w) tcpw_scheme \<Rightarrow>
   (bool \<times> 'tm tcb \<times> ('tm, 'w) tcpw_scheme) option" where
  "tcp_handle_fin_ack ll_send t seg w =
     (if sncmp (snd_una t) SN_LS (sg_ack seg) SN_LE (snd_nxt t) then do {
        let t = t\<lparr>snd_una := sg_ack seg, rcv_nxt := sg_seq seg + 1\<rparr>;
        tcp_send_ctrl_seg ll_send t (snd_una t) (rcv_nxt t) SEG_FLAG_ACK w }
      else Some (False, t, w))"

definition process_received_seq ::
  "(('tm, 'w) tcpw_scheme) ll_send \<Rightarrow> 'tm tcb \<Rightarrow> tcp_segment \<Rightarrow> ('tm, 'w) tcpw_scheme \<Rightarrow>
   (bool \<times> 'tm tcb \<times> ('tm, 'w) tcpw_scheme) option" where
  "process_received_seq ll_send t seg w = do {
     seg_len \<leftarrow> tcp_segment_length w seg;
     let in_window = (\<lambda>n. sncmp (rcv_nxt t) SN_LE n SN_LS (rcv_nxt t + ucast (rcv_wnd t)));
     let unacceptable = (if \<not> SEG_CTRL_R seg then do {
           (_, t, w) \<leftarrow> tcp_send_ctrl_seg ll_send t (snd_nxt t) (rcv_nxt t) SEG_FLAG_ACK w;
           Some (False, t, w) }
         else Some (False, t, w));
     if rcv_wnd t = 0 then (if seg_len = 0 then Some (False, t, w) else unacceptable)
     else if seg_len = 0 then
       (if \<not> in_window (sg_seq seg) then unacceptable else Some (True, t, w))
     else
       (if \<not> in_window (sg_seq seg) \<and> \<not> in_window (sg_seq seg + of_nat seg_len - 1)
        then unacceptable else Some (True, t, w)) }"

end
