(* ===== verification/Tcp_Events.thy ===== *)
theory Tcp_Events
  imports Tcp
begin

text \<open>
  The event tables of \<^verbatim>\<open>dts_net_tcp.c\<close>: open, timeout, segment arrival, close, receive
  and send, each a table from the state of the connection to a handler, and the entry
  points over the list of connections.
\<close>

type_synonym ('tm, 'w) tcp_step = "('tm tcb \<times> ('tm, 'w) tcpw_scheme) option"

section \<open>Open\<close>

definition open_when_closed ::
  "'tm ext \<Rightarrow> (('tm, 'w) tcpw_scheme) ll_send \<Rightarrow> 'tm tcb \<Rightarrow> ('tm, 'w) tcpw_scheme \<Rightarrow> ('tm, 'w) tcp_step" where
  "open_when_closed E ll_send t w = (
     let isn = tcp_generate_isn w;
         t = t\<lparr>snd_una := isn, snd_iss := isn, snd_nxt := isn, time_wait_seconds := 120\<rparr>
     in if t_passive t then Some (t\<lparr>t_state := LISTEN\<rparr>, w)
     else (case mem_alloc_tcp_segment w of
         (None, w) \<Rightarrow> None
       | (Some seg, w) \<Rightarrow>
           tcp_pack_new t (seg\<lparr>sg_src_port := ucast (t_port t), sg_dest_port := t_dest_port t,
             sg_seq := snd_una t, sg_data_offset := 5, sg_flags := sg_flags seg OR SEG_FLAG_SYN,
             sg_win := rcv_wnd t\<rparr>) w
             (\<lambda>seg w. do {
               n \<leftarrow> tcp_segment_length w seg;
               let t = t\<lparr>tx_seg := Some seg, snd_nxt := snd_nxt t + of_nat n\<rparr>;
               (t, w) \<leftarrow> tcp_retransmit E ll_send t w;
               Some (t\<lparr>t_state := SYN_SENT\<rparr>, w) })))"

text \<open>Entries of the table that are missing in the code are null; \<^verbatim>\<open>tcp_open\<close> does not test for that.\<close>

definition open_event ::
  "'tm ext \<Rightarrow> (('tm, 'w) tcpw_scheme) ll_send \<Rightarrow> 'tm tcb \<Rightarrow> ('tm, 'w) tcpw_scheme \<Rightarrow> ('tm, 'w) tcp_step" where
  "open_event E ll_send t w = (case t_state t of CLOSED \<Rightarrow> open_when_closed E ll_send t w | _ \<Rightarrow> None)"

fun port_taken :: "(addr \<rightharpoonup> 'tm tcb) \<Rightarrow> addr option \<Rightarrow> u32 \<Rightarrow> addr list \<Rightarrow> bool option" where
  "port_taken cbs ip port [] = Some False"
| "port_taken cbs ip port (p # ps) = do {
     t \<leftarrow> cbs p;
     if Some (localhost t) = ip \<and> t_port t = port \<and> \<not> t_passive t then Some True
     else port_taken cbs ip port ps }"

definition new_tcb :: "'tm ext \<Rightarrow> addr \<Rightarrow> u32 \<Rightarrow> ip_addr option \<Rightarrow> u16 \<Rightarrow> 'tm tcb" where
  "new_tcb E ip port dest dest_port =
     \<lparr>t_passive = (dest = None), t_dest = (case dest of None \<Rightarrow> \<lparr>ip_version = 0, ip_v4 = [0, 0, 0, 0],
        ip_mask = [0, 0, 0, 0]\<rparr> | Some a \<Rightarrow> a), t_dest_port = dest_port, localhost = ip, t_port = port,
      t_state = CLOSED, rx_segs = [], tx_data = [], rx_data = [], tx_seg = None, snd_una = 0,
      snd_nxt = 0, snd_iss = 0, rcv_nxt = 0, rcv_irs = 0, rcv_wnd = 1500, tmr = timer_init E,
      time_wait_seconds = 0\<rparr>"

text \<open>
  \<^verbatim>\<open>tcp_open\<close> also returns the local address, into which the search for the interface
  writes; when the caller passed the address of an interface (\<open>own\<close>), the interface has it.
\<close>

definition store_self :: "addr option \<Rightarrow> ip_addr \<Rightarrow> 'w netw_scheme \<Rightarrow> 'w netw_scheme" where
  "store_self own a w = (case own of None \<Rightarrow> w
     | Some i \<Rightarrow> w\<lparr>ips := (ips w)(i := map_option (\<lambda>ip. ip\<lparr>ip_self := a\<rparr>) (ips w i))\<rparr>)"

definition tcp_open ::
  "'tm ext \<Rightarrow> (('tm, 'w) tcpw_scheme) ll_send \<Rightarrow> addr option \<Rightarrow> ip_addr \<Rightarrow> u32 \<Rightarrow> ip_addr option \<Rightarrow> u16 \<Rightarrow>
   ('tm, 'w) tcpw_scheme \<Rightarrow> (addr option \<times> ip_addr \<times> ('tm, 'w) tcpw_scheme) option" where
  "tcp_open E ll_send own local port dest dest_port w = do {
     (ip, local) \<leftarrow> ip_find_netif E own local w;
     let w = store_self own local w;
     taken \<leftarrow> port_taken (tcbs w) ip port (list_items E (tcp_list w));
     if taken then Some (None, local, w)
     else case ip of None \<Rightarrow> Some (None, local, w)
     | Some i \<Rightarrow> (case malloc_try w of (ok, w) \<Rightarrow>
         if \<not> ok then Some (None, local, w)
         else do {
           let p = brk w;
           let t = new_tcb E i port dest dest_port;
           let w = bump (w\<lparr>tcbs := (tcbs w)(p \<mapsto> t), tcp_list := list_enqueue E p (tcp_list w)\<rparr>);
           (t, w) \<leftarrow> open_event E ll_send t w;
           Some (Some p, local, w\<lparr>tcbs := (tcbs w)(p \<mapsto> t)\<rparr>) }) }"

section \<open>Timeout\<close>

definition tcp_timeout ::
  "'tm ext \<Rightarrow> (('tm, 'w) tcpw_scheme) ll_send \<Rightarrow> 'tm tcb \<Rightarrow> ('tm, 'w) tcpw_scheme \<Rightarrow> ('tm, 'w) tcp_step" where
  "tcp_timeout E ll_send t w = (case t_state t of
       SYN_SENT \<Rightarrow> tcp_retransmit E ll_send t w
     | FIN_WAIT_1 \<Rightarrow> tcp_retransmit E ll_send t w
     | TIME_WAIT \<Rightarrow> Some (t\<lparr>t_state := CLOSED\<rparr>, w)
     | LAST_ACK \<Rightarrow> tcp_retransmit E ll_send t w
     | ESTABLISHED \<Rightarrow> tcp_retransmit E ll_send t w
     | _ \<Rightarrow> Some (t, w))"

section \<open>A segment arrives\<close>

text \<open>\<^verbatim>\<open>list_dequeue\<close> on the queue of segments, and the segment object it points to.\<close>

definition next_seg ::
  "'tm ext \<Rightarrow> 'tm tcb \<Rightarrow> ('tm, 'w) tcpw_scheme \<Rightarrow> (tcp_segment option \<times> 'tm tcb) option" where
  "next_seg E t w = (case list_dequeue E (rx_segs t) of (p, q) \<Rightarrow>
     let t = t\<lparr>rx_segs := q\<rparr> in
     case p of None \<Rightarrow> Some (None, t)
     | Some a \<Rightarrow> do { seg \<leftarrow> segs w a; Some (Some seg, t) })"

definition listen_syn ::
  "(('tm, 'w) tcpw_scheme) ll_send \<Rightarrow> 'tm tcb \<Rightarrow> tcp_segment \<Rightarrow> ('tm, 'w) tcpw_scheme \<Rightarrow> ('tm, 'w) tcp_step" where
  "listen_syn ll_send t seg w =
     (if SEG_CTRL_S seg then do {
        dg \<leftarrow> sg_datagram seg;
        let t = t\<lparr>rcv_nxt := sg_seq seg + 1, rcv_irs := sg_seq seg,
          t_dest_port := sg_src_port seg, t_dest := h_src (dg_header dg)\<rparr>;
        (ok, t, w) \<leftarrow> tcp_send_ctrl_seg ll_send t (snd_iss t) (rcv_nxt t)
          (SEG_FLAG_SYN OR SEG_FLAG_ACK) w;
        Some (if ok then t\<lparr>t_state := SYN_RECEIVED\<rparr> else t, w) }
      else Some (t, w))"

definition listen_seg ::
  "(('tm, 'w) tcpw_scheme) ll_send \<Rightarrow> 'tm tcb \<Rightarrow> tcp_segment \<Rightarrow> ('tm, 'w) tcpw_scheme \<Rightarrow> ('tm, 'w) tcp_step" where
  "listen_seg ll_send t seg w =
     (if SEG_CTRL_R seg then Some (t, w)
      else if SEG_CTRL_A seg then do {
        (_, t, w) \<leftarrow> tcp_send_ctrl_seg ll_send t (sg_ack seg) 0 SEG_FLAG_RST w;
        listen_syn ll_send t seg w }
      else listen_syn ll_send t seg w)"

definition received_when_listen ::
  "'tm ext \<Rightarrow> (('tm, 'w) tcpw_scheme) ll_send \<Rightarrow> 'tm tcb \<Rightarrow> ('tm, 'w) tcpw_scheme \<Rightarrow> ('tm, 'w) tcp_step" where
  "received_when_listen E ll_send t w = do {
     (p, t) \<leftarrow> next_seg E t w;
     case p of None \<Rightarrow> Some (t, w) | Some seg \<Rightarrow> listen_seg ll_send t seg w }"

text \<open>The part of \<^verbatim>\<open>received_when_syn_sent\<close> behind the check of an unacceptable ACK.\<close>

definition syn_sent_ack ::
  "'tm ext \<Rightarrow> (('tm, 'w) tcpw_scheme) ll_send \<Rightarrow> 'tm tcb \<Rightarrow> tcp_segment \<Rightarrow> ('tm, 'w) tcpw_scheme \<Rightarrow>
   ('tm, 'w) tcp_step" where
  "syn_sent_ack E ll_send t seg w =
     (if sncmp (snd_una t) SN_LE (sg_ack seg) SN_LE (snd_nxt t) then
        (if SEG_CTRL_R seg then Some (t\<lparr>t_state := CLOSED\<rparr>, w)
         else if SEG_CTRL_S seg then do {
           let t = t\<lparr>rcv_nxt := sg_seq seg + 1, rcv_irs := sg_seq seg, snd_una := sg_ack seg\<rparr>;
           if snd_una t > snd_iss t then do {
             (ok, t, w) \<leftarrow> tcp_send_ctrl_seg ll_send t (snd_una t) (rcv_nxt t) SEG_FLAG_ACK w;
             if ok then tcp_tx_seg_complete E (t\<lparr>t_state := ESTABLISHED\<rparr>) w
             else Some (t, w) }
           else Some (t, w) }
         else Some (t, w))
      else Some (t, w))"

definition received_when_syn_sent ::
  "'tm ext \<Rightarrow> (('tm, 'w) tcpw_scheme) ll_send \<Rightarrow> 'tm tcb \<Rightarrow> ('tm, 'w) tcpw_scheme \<Rightarrow> ('tm, 'w) tcp_step" where
  "received_when_syn_sent E ll_send t w = do {
     (p, t) \<leftarrow> next_seg E t w;
     case p of None \<Rightarrow> Some (t, w)
     | Some seg \<Rightarrow>
         if SEG_CTRL_A seg then
           (if \<not> sncmp (snd_iss t) SN_LS (sg_ack seg) SN_LE (snd_nxt t) \<and> \<not> SEG_CTRL_R seg then do {
              (_, t, w) \<leftarrow> tcp_send_ctrl_seg ll_send t (sg_ack seg) (sg_seq seg) SEG_FLAG_RST w;
              Some (t, w) }
            else syn_sent_ack E ll_send t seg w)
         else Some (t, w) }"

text \<open>The check of the ACK field in \<^verbatim>\<open>received_when_syn_received\<close>.\<close>

definition syn_received_ack ::
  "(('tm, 'w) tcpw_scheme) ll_send \<Rightarrow> 'tm tcb \<Rightarrow> tcp_segment \<Rightarrow> ('tm, 'w) tcpw_scheme \<Rightarrow> ('tm, 'w) tcp_step" where
  "syn_received_ack ll_send t seg w =
     (if sncmp (snd_una t) SN_LE (sg_ack seg) SN_LE (snd_nxt t)
      then Some (t\<lparr>snd_una := sg_ack seg, t_state := ESTABLISHED\<rparr>, w)
      else do {
        (_, t, w) \<leftarrow> tcp_send_ctrl_seg ll_send t (sg_ack seg) 0 SEG_FLAG_RST w;
        Some (t, w) })"

definition received_when_syn_received ::
  "'tm ext \<Rightarrow> (('tm, 'w) tcpw_scheme) ll_send \<Rightarrow> 'tm tcb \<Rightarrow> ('tm, 'w) tcpw_scheme \<Rightarrow> ('tm, 'w) tcp_step" where
  "received_when_syn_received E ll_send t w = do {
     (p, t) \<leftarrow> next_seg E t w;
     case p of None \<Rightarrow> Some (t, w)
     | Some seg \<Rightarrow> do {
         (ok, t, w) \<leftarrow> process_received_seq ll_send t seg w;
         if \<not> ok then Some (t, w)
         else if SEG_CTRL_R seg then
           Some (t\<lparr>t_state := (if t_passive t then LISTEN else CLOSED)\<rparr>, w)
         else if SEG_CTRL_A seg then do {
           (t, w) \<leftarrow> syn_received_ack ll_send t seg w;
           Some (if SEG_CTRL_F seg then t\<lparr>t_state := CLOSE_WAIT\<rparr> else t, w) }
         else Some (t, w) } }"

text \<open>\<^verbatim>\<open>SEG_CTRL_F(tcp->tx_seg)\<close>, which reads through a pointer that may be null.\<close>

definition tx_seg_is_fin :: "'tm tcb \<Rightarrow> bool option" where
  "tx_seg_is_fin t = map_option SEG_CTRL_F (tx_seg t)"

text \<open>The ACK, the text and the FIN of an acceptable segment in \<^verbatim>\<open>received_when_established\<close>.\<close>

definition established_ack ::
  "'tm ext \<Rightarrow> (('tm, 'w) tcpw_scheme) ll_send \<Rightarrow> 'tm tcb \<Rightarrow> tcp_segment \<Rightarrow> ('tm, 'w) tcpw_scheme \<Rightarrow>
   ('tm, 'w) tcp_step" where
  "established_ack E ll_send t seg w = do {
     fin \<leftarrow> tx_seg_is_fin t;
     if \<not> fin then do {
       (_, t, w) \<leftarrow> tcp_handle_ack_of_data E ll_send t seg w;
       Some (t, w) }
     else Some (t, w) }"

definition established_text ::
  "'tm ext \<Rightarrow> (('tm, 'w) tcpw_scheme) ll_send \<Rightarrow> 'tm tcb \<Rightarrow> tcp_segment \<Rightarrow> ('tm, 'w) tcpw_scheme \<Rightarrow>
   ('tm, 'w) tcp_step" where
  "established_text E ll_send t seg w = do {
     (_, t, w) \<leftarrow> tcp_handle_data E ll_send t seg w;
     if SEG_CTRL_F seg then do {
       (_, t, w) \<leftarrow> tcp_handle_fin_ack ll_send t seg w;
       Some (t\<lparr>t_state := CLOSE_WAIT\<rparr>, w) }
     else Some (t, w) }"

definition received_when_established ::
  "'tm ext \<Rightarrow> (('tm, 'w) tcpw_scheme) ll_send \<Rightarrow> 'tm tcb \<Rightarrow> ('tm, 'w) tcpw_scheme \<Rightarrow> ('tm, 'w) tcp_step" where
  "received_when_established E ll_send t w = do {
     (p, t) \<leftarrow> next_seg E t w;
     case p of None \<Rightarrow> Some (t, w)
     | Some seg \<Rightarrow> do {
         (ok, t, w) \<leftarrow> process_received_seq ll_send t seg w;
         if \<not> ok \<or> SEG_CTRL_R seg \<or> \<not> SEG_CTRL_A seg then Some (t, w)
         else do {
           (t, w) \<leftarrow> established_ack E ll_send t seg w;
           established_text E ll_send t seg w } } }"

text \<open>
  \<^verbatim>\<open>FIN_WAIT_1\<close> and \<^verbatim>\<open>LAST_ACK\<close> share their code up to the state that the acknowledged FIN
  leads to.
\<close>

definition closing_ack ::
  "'tm ext \<Rightarrow> (('tm, 'w) tcpw_scheme) ll_send \<Rightarrow> tcp_state \<Rightarrow> 'tm tcb \<Rightarrow> tcp_segment \<Rightarrow>
   ('tm, 'w) tcpw_scheme \<Rightarrow> ('tm, 'w) tcp_step" where
  "closing_ack E ll_send next t seg w =
     (if SEG_CTRL_A seg then do {
        fin \<leftarrow> tx_seg_is_fin t;
        if \<not> fin then do {
          (_, t, w) \<leftarrow> tcp_handle_ack_of_data E ll_send t seg w;
          Some (t, w) }
        else do {
          (ok, t, w) \<leftarrow> tcp_handle_ack_of_fin_ack E t seg w;
          Some (if ok then t\<lparr>t_state := next\<rparr> else t, w) } }
      else Some (t, w))"

definition received_when_fin_wait_1 ::
  "'tm ext \<Rightarrow> (('tm, 'w) tcpw_scheme) ll_send \<Rightarrow> 'tm tcb \<Rightarrow> ('tm, 'w) tcpw_scheme \<Rightarrow> ('tm, 'w) tcp_step" where
  "received_when_fin_wait_1 E ll_send t w = do {
     (p, t) \<leftarrow> next_seg E t w;
     (t, w) \<leftarrow> (case p of None \<Rightarrow> Some (t, w)
       | Some seg \<Rightarrow> closing_ack E ll_send FIN_WAIT_2 t seg w);
     if t_state t = FIN_WAIT_1 then tcp_contruct_fin_ack E t w else Some (t, w) }"

definition received_when_fin_wait_2 ::
  "'tm ext \<Rightarrow> (('tm, 'w) tcpw_scheme) ll_send \<Rightarrow> 'tm tcb \<Rightarrow> ('tm, 'w) tcpw_scheme \<Rightarrow> ('tm, 'w) tcp_step" where
  "received_when_fin_wait_2 E ll_send t w = do {
     (p, t) \<leftarrow> next_seg E t w;
     case p of None \<Rightarrow> Some (t, w)
     | Some seg \<Rightarrow>
         if SEG_CTRL_AF seg then do {
           let t = t\<lparr>t_state := TIME_WAIT,
             tmr := timer_start E (sys_tick_s w) (time_wait_seconds t) (tmr t)\<rparr>;
           (_, t, w) \<leftarrow> tcp_handle_fin_ack ll_send t seg w;
           Some (t, w) }
         else Some (t, w) }"

text \<open>\<^verbatim>\<open>TIME_WAIT\<close> and \<^verbatim>\<open>CLOSE_WAIT\<close> have the same handler under two names.\<close>

definition received_when_time_wait ::
  "'tm ext \<Rightarrow> (('tm, 'w) tcpw_scheme) ll_send \<Rightarrow> 'tm tcb \<Rightarrow> ('tm, 'w) tcpw_scheme \<Rightarrow> ('tm, 'w) tcp_step" where
  "received_when_time_wait E ll_send t w = do {
     (p, t) \<leftarrow> next_seg E t w;
     case p of None \<Rightarrow> Some (t, w)
     | Some seg \<Rightarrow>
         if SEG_CTRL_AF seg then do {
           (_, t, w) \<leftarrow> tcp_handle_fin_ack ll_send t seg w;
           Some (t, w) }
         else Some (t, w) }"

definition received_when_close_wait ::
  "'tm ext \<Rightarrow> (('tm, 'w) tcpw_scheme) ll_send \<Rightarrow> 'tm tcb \<Rightarrow> ('tm, 'w) tcpw_scheme \<Rightarrow> ('tm, 'w) tcp_step" where
  "received_when_close_wait E ll_send t w = do {
     (p, t) \<leftarrow> next_seg E t w;
     case p of None \<Rightarrow> Some (t, w)
     | Some seg \<Rightarrow>
         if SEG_CTRL_AF seg then do {
           (_, t, w) \<leftarrow> tcp_handle_fin_ack ll_send t seg w;
           Some (t, w) }
         else Some (t, w) }"

definition received_when_last_ack ::
  "'tm ext \<Rightarrow> (('tm, 'w) tcpw_scheme) ll_send \<Rightarrow> 'tm tcb \<Rightarrow> ('tm, 'w) tcpw_scheme \<Rightarrow> ('tm, 'w) tcp_step" where
  "received_when_last_ack E ll_send t w = do {
     (p, t) \<leftarrow> next_seg E t w;
     (t, w) \<leftarrow> (case p of None \<Rightarrow> Some (t, w)
       | Some seg \<Rightarrow> closing_ack E ll_send CLOSED t seg w);
     if t_state t = LAST_ACK then tcp_contruct_fin_ack E t w else Some (t, w) }"

definition tcp_received ::
  "'tm ext \<Rightarrow> (('tm, 'w) tcpw_scheme) ll_send \<Rightarrow> 'tm tcb \<Rightarrow> ('tm, 'w) tcpw_scheme \<Rightarrow> ('tm, 'w) tcp_step" where
  "tcp_received E ll_send t w = (case t_state t of
       LISTEN \<Rightarrow> received_when_listen E ll_send t w
     | SYN_SENT \<Rightarrow> received_when_syn_sent E ll_send t w
     | SYN_RECEIVED \<Rightarrow> received_when_syn_received E ll_send t w
     | ESTABLISHED \<Rightarrow> received_when_established E ll_send t w
     | FIN_WAIT_1 \<Rightarrow> received_when_fin_wait_1 E ll_send t w
     | FIN_WAIT_2 \<Rightarrow> received_when_fin_wait_2 E ll_send t w
     | TIME_WAIT \<Rightarrow> received_when_time_wait E ll_send t w
     | CLOSE_WAIT \<Rightarrow> received_when_close_wait E ll_send t w
     | LAST_ACK \<Rightarrow> received_when_last_ack E ll_send t w
     | _ \<Rightarrow> Some (t, w))"

text \<open>Which connection a segment belongs to: the loop of \<^verbatim>\<open>tcp_ip_recv\<close> over the connections.\<close>

fun best_match ::
  "(addr \<rightharpoonup> 'tm tcb) \<Rightarrow> addr \<Rightarrow> ip_addr \<Rightarrow> tcp_segment \<Rightarrow> addr option \<Rightarrow> addr list \<Rightarrow> addr option option" where
  "best_match cbs ip src seg best [] = Some best"
| "best_match cbs ip src seg best (p # ps) = do {
     t \<leftarrow> cbs p;
     if localhost t = ip \<and> t_port t = ucast (sg_dest_port seg) then
       (if t_passive t then
          (if ip_addr_equals (t_dest t) src \<and> t_dest_port t = sg_src_port seg then Some (Some p)
           else best_match cbs ip src seg (Some p) ps)
        else Some (Some p))
     else best_match cbs ip src seg best ps }"

definition deliver ::
  "'tm ext \<Rightarrow> (('tm, 'w) tcpw_scheme) ll_send \<Rightarrow> addr \<Rightarrow> tcp_segment \<Rightarrow> ('tm, 'w) tcpw_scheme \<Rightarrow>
   ('tm, 'w) tcpw_scheme option" where
  "deliver E ll_send p seg w = do {
     t \<leftarrow> tcbs w p;
     let a = brk w;
     let w = bump (w\<lparr>segs := (segs w)(a \<mapsto> seg)\<rparr>);
     (t, w) \<leftarrow> tcp_received E ll_send (t\<lparr>rx_segs := list_enqueue E a (rx_segs t)\<rparr>) w;
     Some (w\<lparr>tcbs := (tcbs w)(p \<mapsto> t), segs := (segs w)(a := None)\<rparr>) }"

text \<open>
  \<^verbatim>\<open>tcp_ip_recv\<close>.  The segment, its two nodes and the pseudo header are automatic: they
  disappear at the end, also when the segment is still in the queue of a connection.
\<close>

definition tcp_ip_recv ::
  "'tm ext \<Rightarrow> (('tm, 'w) tcpw_scheme) ll_send \<Rightarrow> addr \<Rightarrow> ip_datagram \<Rightarrow> ('tm, 'w) tcpw_scheme \<Rightarrow>
   ('tm, 'w) tcpw_scheme option" where
  "tcp_ip_recv E ll_send ip dg w = do {
     (ph, w) \<leftarrow> Some (pseudo_header_new_from_stack (h_src (dg_header dg)) (h_dest (dg_header dg))
        (h_protocol (dg_header dg)) 0 w);
     (pl, w) \<leftarrow> Some (dblk_node_new_from_stack Null 0 w);
     (op, w) \<leftarrow> Some (dblk_node_new_from_stack Null 0 w);
     let seg = tcp_segment_init\<lparr>sg_raw := dg_payload dg, sg_payload := pl, sg_options := op\<rparr>;
     (ok, seg, w) \<leftarrow> tcp_unpack seg ph w;
     w \<leftarrow> (if ok then do {
         best \<leftarrow> best_match (tcbs w) ip (h_src (dg_header dg)) seg None (list_items E (tcp_list w));
         (case best of None \<Rightarrow> Some w
          | Some p \<Rightarrow> deliver E ll_send p (seg\<lparr>sg_datagram := Some dg\<rparr>) w) }
       else Some w);
     w \<leftarrow> pop_node op w;
     w \<leftarrow> pop_node pl w;
     pop_buf (ph_data ph) w }"

section \<open>Close\<close>

definition close_when_syn_sent ::
  "'tm ext \<Rightarrow> 'tm tcb \<Rightarrow> ('tm, 'w) tcpw_scheme \<Rightarrow> ('tm, 'w) tcp_step" where
  "close_when_syn_sent E t w = tcp_tx_seg_complete E (t\<lparr>t_state := CLOSED\<rparr>) w"

definition close_when_established ::
  "'tm ext \<Rightarrow> 'tm tcb \<Rightarrow> ('tm, 'w) tcpw_scheme \<Rightarrow> ('tm, 'w) tcp_step" where
  "close_when_established E t w = do {
     (t, w) \<leftarrow> tcp_contruct_fin_ack E t w;
     Some (t\<lparr>t_state := FIN_WAIT_1\<rparr>, w) }"

definition close_when_close_wait ::
  "'tm ext \<Rightarrow> 'tm tcb \<Rightarrow> ('tm, 'w) tcpw_scheme \<Rightarrow> ('tm, 'w) tcp_step" where
  "close_when_close_wait E t w = do {
     (t, w) \<leftarrow> tcp_contruct_fin_ack E t w;
     Some (t\<lparr>t_state := LAST_ACK\<rparr>, w) }"

definition close_event ::
  "'tm ext \<Rightarrow> 'tm tcb \<Rightarrow> ('tm, 'w) tcpw_scheme \<Rightarrow> ('tm, 'w) tcp_step" where
  "close_event E t w = (case t_state t of
       ESTABLISHED \<Rightarrow> close_when_established E t w
     | CLOSE_WAIT \<Rightarrow> close_when_close_wait E t w
     | _ \<Rightarrow> Some (t, w))"

fun close_loop ::
  "'tm ext \<Rightarrow> addr \<Rightarrow> addr list \<Rightarrow> ('tm, 'w) tcpw_scheme \<Rightarrow> ('tm, 'w) tcpw_scheme option" where
  "close_loop E tcp [] w = Some w"
| "close_loop E tcp (p # ps) w =
     (if p = tcp then do {
        t \<leftarrow> tcbs w tcp;
        (t, w) \<leftarrow> close_event E t w;
        close_loop E tcp ps (w\<lparr>tcbs := (tcbs w)(tcp \<mapsto> t)\<rparr>) }
      else close_loop E tcp ps w)"

definition tcp_close :: "'tm ext \<Rightarrow> addr \<Rightarrow> ('tm, 'w) tcpw_scheme \<Rightarrow> ('tm, 'w) tcpw_scheme option" where
  "tcp_close E tcp w = close_loop E tcp (list_items E (tcp_list w)) w"

section \<open>Receive and send\<close>

partial_function (option) recv_loop ::
  "'tm ext \<Rightarrow> 'tm tcb \<Rightarrow> ptr \<Rightarrow> nat \<Rightarrow> nat \<Rightarrow> ('tm, 'w) tcpw_scheme \<Rightarrow>
   (nat \<times> 'tm tcb \<times> ('tm, 'w) tcpw_scheme) option" where
  "recv_loop E t data len did w =
     (if list_length E (rx_data t) \<noteq> 0 \<and> did < len then do {
        let rx = list_queue_head E (rx_data t);
        (do_size, w) \<leftarrow> dblk_read rx data (len - did) w;
        (t, w) \<leftarrow> (if do_size < len - did then do {
            let t = t\<lparr>rx_data := snd (list_dequeue E (rx_data t))\<rparr>;
            (_, w) \<leftarrow> dblk_delete rx w;
            Some (t, w) }
          else Some (t, w));
        recv_loop E t data len (did + do_size) w }
      else Some (did, t, w))"

definition recv_when_established ::
  "'tm ext \<Rightarrow> 'tm tcb \<Rightarrow> ptr \<Rightarrow> nat \<Rightarrow> ('tm, 'w) tcpw_scheme \<Rightarrow>
   (nat \<times> 'tm tcb \<times> ('tm, 'w) tcpw_scheme) option" where
  "recv_when_established E t data len w = recv_loop E t data len 0 w"

definition tcp_recv ::
  "'tm ext \<Rightarrow> addr \<Rightarrow> ptr \<Rightarrow> nat \<Rightarrow> ('tm, 'w) tcpw_scheme \<Rightarrow> (nat \<times> ('tm, 'w) tcpw_scheme) option" where
  "tcp_recv E tcp data len w = do {
     t \<leftarrow> tcbs w tcp;
     if t_state t = ESTABLISHED then do {
       (n, t, w) \<leftarrow> recv_when_established E t data len w;
       Some (n, w\<lparr>tcbs := (tcbs w)(tcp \<mapsto> t)\<rparr>) }
     else Some (0, w) }"

definition send_when_established ::
  "'tm ext \<Rightarrow> (('tm, 'w) tcpw_scheme) ll_send \<Rightarrow> 'tm tcb \<Rightarrow> ptr \<Rightarrow> nat \<Rightarrow> ('tm, 'w) tcpw_scheme \<Rightarrow>
   (nat \<times> 'tm tcb \<times> ('tm, 'w) tcpw_scheme) option" where
  "send_when_established E ll_send t data len w = do {
     (tx, w) \<leftarrow> dblk_node_new_with_buff len w;
     (len, t, w) \<leftarrow> (case tx of
         Some x \<Rightarrow> do {
           (_, w) \<leftarrow> dblk_copy_from tx data len w;
           Some (len, t\<lparr>tx_data := list_enqueue E x (tx_data t)\<rparr>, w) }
       | None \<Rightarrow> Some (0, t, w));
     (t, w) \<leftarrow> tcp_construct_data E ll_send t w;
     Some (len, t, w) }"

definition tcp_send ::
  "'tm ext \<Rightarrow> (('tm, 'w) tcpw_scheme) ll_send \<Rightarrow> addr \<Rightarrow> ptr \<Rightarrow> nat \<Rightarrow> ('tm, 'w) tcpw_scheme \<Rightarrow>
   (nat \<times> ('tm, 'w) tcpw_scheme) option" where
  "tcp_send E ll_send tcp data len w = do {
     t \<leftarrow> tcbs w tcp;
     if t_state t = ESTABLISHED then do {
       (n, t, w) \<leftarrow> send_when_established E ll_send t data len w;
       Some (n, w\<lparr>tcbs := (tcbs w)(tcp \<mapsto> t)\<rparr>) }
     else Some (0, w) }"

section \<open>Status and the main loop\<close>

definition tcp_status :: "addr option \<Rightarrow> ('tm, 'w) tcpw_scheme \<Rightarrow> tcp_state option" where
  "tcp_status tcp w = (case tcp of None \<Rightarrow> Some CLOSED | Some p \<Rightarrow> map_option t_state (tcbs w p))"

definition loop_one ::
  "'tm ext \<Rightarrow> (('tm, 'w) tcpw_scheme) ll_send \<Rightarrow> addr \<Rightarrow> ('tm, 'w) tcpw_scheme \<Rightarrow>
   ('tm, 'w) tcpw_scheme option" where
  "loop_one E ll_send p w = do {
     t \<leftarrow> tcbs w p;
     (t, w) \<leftarrow> (if timer_expired E (sys_tick_s w) (tmr t)
        then tcp_timeout E ll_send (t\<lparr>tmr := timer_stop E (tmr t)\<rparr>) w else Some (t, w));
     if t_state t = CLOSED
     then Some (w\<lparr>tcp_list := list_foreach_remove E p (tcp_list w), tcbs := (tcbs w)(p := None)\<rparr>)
     else Some (w\<lparr>tcbs := (tcbs w)(p \<mapsto> t)\<rparr>) }"

fun tcp_loop_over ::
  "'tm ext \<Rightarrow> (('tm, 'w) tcpw_scheme) ll_send \<Rightarrow> addr list \<Rightarrow> ('tm, 'w) tcpw_scheme \<Rightarrow>
   ('tm, 'w) tcpw_scheme option" where
  "tcp_loop_over E ll_send [] w = Some w"
| "tcp_loop_over E ll_send (p # ps) w = do { w \<leftarrow> loop_one E ll_send p w; tcp_loop_over E ll_send ps w }"

definition tcp_loop ::
  "'tm ext \<Rightarrow> (('tm, 'w) tcpw_scheme) ll_send \<Rightarrow> ('tm, 'w) tcpw_scheme \<Rightarrow> ('tm, 'w) tcpw_scheme option" where
  "tcp_loop E ll_send w = tcp_loop_over E ll_send (list_items E (tcp_list w)) w"

end
