(* ===== verification/Ether_Arp.thy ===== *)
theory Ether_Arp
  imports Ether Tcp_Events
begin

text \<open>
  \<^verbatim>\<open>dts_net_ether_arp.c\<close>: the ARP table and IP over Ethernet.  \<open>ip_ether_send\<close> is the
  link layer that \<^verbatim>\<open>ether_arp_resgiter_pair\<close> installs in an interface.  The pool of
  table items is the parameter \<open>pool\<close>, with the operations of \<^verbatim>\<open>dts_net_mem.h\<close>.
\<close>

record 'tm arpti =
  ai_ip :: "u8 list"
  ai_mac :: "u8 list"
  ai_tmr :: 'tm

record 'tm linkw = "'tm tcpw" +
  eths :: "addr \<rightharpoonup> ether"
  artis :: "addr \<rightharpoonup> 'tm arpti"
  arp_table :: "addr list"

record 'w item_pool =
  mem_alloc :: "'w \<Rightarrow> addr option \<times> 'w"
  mem_free :: "addr \<Rightarrow> 'w \<Rightarrow> 'w"

definition broadcast_mac :: "u8 list" where
  "broadcast_mac = [0xFF, 0xFF, 0xFF, 0xFF, 0xFF, 0xFF]"

section \<open>Finding the MAC address of a host\<close>

definition list_match_arpti ::
  "('tm, 'w) linkw_scheme \<Rightarrow> u8 list \<Rightarrow> addr \<Rightarrow> ip_addr \<Rightarrow> (bool \<times> ip_addr) option" where
  "list_match_arpti w target n a = do {
     item \<leftarrow> artis w n;
     Some (au32 (ai_ip item) = au32 target, a) }"

definition ether_arp_ask_ip ::
  "arp_packet \<Rightarrow> u8 list \<Rightarrow> u8 list \<Rightarrow> u8 list \<Rightarrow> 'w heap_scheme \<Rightarrow> (nat \<times> 'w heap_scheme) option" where
  "ether_arp_ask_ip pkt mac source_ip target_ip h = do {
     let pkt = pkt\<lparr>ap_hrd := 1, ap_pro := ETHER_TYPE_IP, ap_hln := 6, ap_pln := 4, ap_op := 1,
       ap_sha := Lit mac, ap_spa := Lit source_ip, ap_tha := At (padd (ap_data pkt) 18),
       ap_tpa := Lit target_ip\<rparr>;
     h \<leftarrow> memset (ap_data pkt) 0 28 h;
     (n, _, h) \<leftarrow> arp_pack pkt h;
     Some (n, h) }"

text \<open>The ARP request that is broadcast for an address that is not in the table.\<close>

definition arp_request ::
  "'tm ext \<Rightarrow> ((('tm, 'w) linkw_scheme) drv_send) \<Rightarrow> addr \<Rightarrow> u8 list \<Rightarrow> ('tm, 'w) linkw_scheme \<Rightarrow>
   ('tm, 'w) linkw_scheme option" where
  "arp_request E drv_send eth target w = do {
     host \<leftarrow> ether_arp_get_ip E eth w;
     i \<leftarrow> host;
     ip \<leftarrow> ips w i;
     e \<leftarrow> eths w eth;
     (pkt_data, w) \<leftarrow> Some (new_buf (fresh_bytes w 32) w);
     (frm_data, w) \<leftarrow> Some (new_buf (fresh_bytes w 64) w);
     (blk, w) \<leftarrow> Some (dblk_node_new_from_stack pkt_data 0 w);
     (n, w) \<leftarrow> ether_arp_ask_ip \<lparr>ap_hrd = 0, ap_pro = 0, ap_hln = 0, ap_pln = 0, ap_op = 0,
        ap_sha = At Null, ap_spa = At Null, ap_tha = At Null, ap_tpa = At Null,
        ap_data = pkt_data, ap_data_size = 32\<rparr> (mac_address e) (ip_v4 (ip_self ip)) target w;
     w \<leftarrow> upd_node blk (\<lambda>d. d\<lparr>d_size := u16_of n\<rparr>) w;
     (_, _, w) \<leftarrow> ether_hl_send drv_send e \<lparr>ef_dest = Lit broadcast_mac, ef_src = At Null,
        ef_payload = blk, ef_type = ETHER_TYPE_ARP, ef_crc = 0, ef_data = frm_data,
        ef_data_size = 64\<rparr> w;
     w \<leftarrow> pop_node blk w;
     w \<leftarrow> pop_buf frm_data w;
     pop_buf pkt_data w }"

definition ether_arp_get_mac_address ::
  "'tm ext \<Rightarrow> ((('tm, 'w) linkw_scheme) drv_send) \<Rightarrow> addr \<Rightarrow> u8 list \<Rightarrow> ('tm, 'w) linkw_scheme \<Rightarrow>
   (u8 list option \<times> ('tm, 'w) linkw_scheme) option" where
  "ether_arp_get_mac_address E drv_send eth target w = do {
     (p, _) \<leftarrow> list_find E (list_match_arpti w target) (arp_table w) no_addr;
     case p of Some a \<Rightarrow> do { item \<leftarrow> artis w a; Some (Some (ai_mac item), w) }
     | None \<Rightarrow> do { w \<leftarrow> arp_request E drv_send eth target w; Some (None, w) } }"

section \<open>Sending a datagram\<close>

text \<open>The loop over the blocks of the datagram: each is tried three times.\<close>

partial_function (option) ether_send_loop ::
  "((('tm, 'w) linkw_scheme) drv_send) \<Rightarrow> ether \<Rightarrow> ether_frame \<Rightarrow> nat \<Rightarrow> ('tm, 'w) linkw_scheme \<Rightarrow>
   ('tm, 'w) linkw_scheme option" where
  "ether_send_loop drv_send e frame retry w =
     (if ef_payload frame \<noteq> None \<and> retry \<noteq> 0 then do {
        (ok, frame, w) \<leftarrow> ether_hl_send drv_send e frame w;
        if ok \<noteq> 0 then do {
          (next, w) \<leftarrow> dblk_delete (ef_payload frame) w;
          ether_send_loop drv_send e (frame\<lparr>ef_payload := next\<rparr>) 3 w }
        else ether_send_loop drv_send e frame (retry - 1) w }
      else Some w)"

definition ip_ether_send ::
  "'tm ext \<Rightarrow> ((('tm, 'w) linkw_scheme) drv_send) \<Rightarrow> (('tm, 'w) linkw_scheme) ll_send" where
  "ip_ether_send E drv_send eth dg w = do {
     (mac, w) \<leftarrow> (if ip_addr_broadcast (h_dest (dg_header dg)) then Some (Some broadcast_mac, w)
        else ether_arp_get_mac_address E drv_send eth (ip_v4 (h_dest (dg_header dg))) w);
     case mac of None \<Rightarrow> Some (0, w)
     | Some dest \<Rightarrow>
         (case malloc_buf 2048 w of (buf, w) \<Rightarrow>
            if buf = Null then Some (0, w)
            else do {
              e \<leftarrow> eths w eth;
              w \<leftarrow> ether_send_loop drv_send e \<lparr>ef_dest = Lit dest, ef_src = At Null,
                 ef_payload = dg_raw dg, ef_type = ETHER_TYPE_IP, ef_crc = 0, ef_data = buf,
                 ef_data_size = 2048\<rparr> 3 w;
              w \<leftarrow> free_buf buf w;
              Some (1, w) }) }"

section \<open>Receiving ARP packets\<close>

text \<open>
  The scan for items whose time is over, when the pool is empty: it frees them and
  remembers the item with the shortest remaining time.
\<close>

fun arp_scan ::
  "'tm ext \<Rightarrow> (('tm, 'w) linkw_scheme) item_pool \<Rightarrow> addr list \<Rightarrow> nat \<Rightarrow> addr option \<Rightarrow>
   ('tm, 'w) linkw_scheme \<Rightarrow> (nat \<times> addr option \<times> ('tm, 'w) linkw_scheme) option" where
  "arp_scan E pool [] rm_cnt shortest w = Some (rm_cnt, shortest, w)"
| "arp_scan E pool (a # as) rm_cnt shortest w = do {
     item \<leftarrow> artis w a;
     let now = sys_tick_s w;
     if timer_expired E now (ai_tmr item) then do {
       let w = w\<lparr>arp_table := list_foreach_remove E a (arp_table w), artis := (artis w)(a := None)\<rparr>;
       arp_scan E pool as (rm_cnt + 1) shortest (mem_free pool a w) }
     else do {
       shorter \<leftarrow> (case shortest of None \<Rightarrow> Some True
          | Some b \<Rightarrow> do { old \<leftarrow> artis w b;
              Some (timer_remain E now (ai_tmr item) < timer_remain E now (ai_tmr old)) });
       arp_scan E pool as rm_cnt (if shorter then Some a else shortest) w } }"

partial_function (option) arp_learn ::
  "'tm ext \<Rightarrow> (('tm, 'w) linkw_scheme) item_pool \<Rightarrow> u8 list \<Rightarrow> u8 list \<Rightarrow>
   ('tm, 'w) linkw_scheme \<Rightarrow> ('tm, 'w) linkw_scheme option" where
  "arp_learn E pool spa sha w = (case mem_alloc pool w of
       (Some a, w) \<Rightarrow>
         Some (w\<lparr>artis := (artis w)(a \<mapsto> \<lparr>ai_ip = spa, ai_mac = sha,
             ai_tmr = timer_start E (sys_tick_s w) 7200 (timer_init E)\<rparr>),
           arp_table := list_add E a (arp_table w)\<rparr>)
     | (None, w) \<Rightarrow> do {
         (rm_cnt, shortest, w) \<leftarrow> arp_scan E pool (list_items E (arp_table w)) 0 None w;
         w \<leftarrow> (if rm_cnt = 0 then do {
             s \<leftarrow> shortest;
             Some (mem_free pool s (w\<lparr>arp_table := list_remove E s (arp_table w),
               artis := (artis w)(s := None)\<rparr>)) }
           else Some w);
         arp_learn E pool spa sha w })"

definition arp_reply ::
  "(('tm, 'w) linkw_scheme) drv_send \<Rightarrow> ether \<Rightarrow> nif \<Rightarrow> arp_packet \<Rightarrow> ('tm, 'w) linkw_scheme \<Rightarrow>
   ('tm, 'w) linkw_scheme option" where
  "arp_reply drv_send e nif pkt w = do {
     ne \<leftarrow> eths w (nif_eth nif);
     ip \<leftarrow> ips w (nif_ip nif);
     (pkt_data, w) \<leftarrow> Some (new_buf (fresh_bytes w 32) w);
     (frm_data, w) \<leftarrow> Some (new_buf (fresh_bytes w 64) w);
     let pkt = pkt\<lparr>ap_op := 2, ap_tha := ap_sha pkt, ap_tpa := ap_spa pkt,
       ap_sha := Lit (mac_address ne), ap_spa := Lit (ip_v4 (ip_self ip)),
       ap_data := pkt_data, ap_data_size := 32\<rparr>;
     (n, pkt, w) \<leftarrow> arp_pack pkt w;
     (blk, w) \<leftarrow> Some (dblk_node_new_from_stack pkt_data n w);
     (_, _, w) \<leftarrow> ether_hl_send drv_send e \<lparr>ef_dest = ap_tha pkt, ef_src = At Null,
        ef_payload = blk, ef_type = ETHER_TYPE_ARP, ef_crc = 0, ef_data = frm_data,
        ef_data_size = 64\<rparr> w;
     w \<leftarrow> pop_node blk w;
     w \<leftarrow> pop_buf frm_data w;
     pop_buf pkt_data w }"

definition ether_arp_ether_recv ::
  "'tm ext \<Rightarrow> (('tm, 'w) linkw_scheme) drv_send \<Rightarrow> (('tm, 'w) linkw_scheme) item_pool \<Rightarrow> ether \<Rightarrow>
   arp_packet \<Rightarrow> ('tm, 'w) linkw_scheme \<Rightarrow> ('tm, 'w) linkw_scheme option" where
  "ether_arp_ether_recv E drv_send pool e pkt w = do {
     (ok, pkt) \<leftarrow> arp_unpack pkt w;
     if \<not> ok then Some w
     else if ap_op pkt = 2 then do {
       spa \<leftarrow> src_read w (ap_spa pkt) 4;
       sha \<leftarrow> src_read w (ap_sha pkt) 6;
       arp_learn E pool spa sha w }
     else if ap_op pkt = 1 then do {
       tpa \<leftarrow> src_read w (ap_tpa pkt) 4;
       (n, _) \<leftarrow> list_find E (list_match_ip_addr w) (nif_list w)
          \<lparr>ip_version = 4, ip_v4 = tpa, ip_mask = [0, 0, 0, 0]\<rparr>;
       case n of None \<Rightarrow> Some w
       | Some a \<Rightarrow> do { nif \<leftarrow> nifs w a; arp_reply drv_send e nif pkt w } }
     else Some w }"

section \<open>Registering an interface\<close>

definition ether_arp_resgiter_pair ::
  "'tm ext \<Rightarrow> (('tm, 'w) linkw_scheme) item_pool \<Rightarrow> addr \<Rightarrow> addr \<Rightarrow> ('tm, 'w) linkw_scheme \<Rightarrow>
   ('tm, 'w) linkw_scheme option" where
  "ether_arp_resgiter_pair E pool i e w = (case mem_alloc pool w of
       (None, w) \<Rightarrow> Some w
     | (Some n, w) \<Rightarrow> do {
         ip \<leftarrow> ips w i;
         Some (w\<lparr>ips := (ips w)(i \<mapsto> ip\<lparr>ip_ll := Some e\<rparr>),
           nifs := (nifs w)(n \<mapsto> \<lparr>nif_ip = i, nif_eth = e\<rparr>),
           nif_list := list_add E n (nif_list w)\<rparr>) })"

end
