(* ===== verification/Icmp.thy ===== *)
theory Icmp
  imports Ip_Send
begin

text \<open>
  \<^verbatim>\<open>dts_net_icmp.c\<close>: echo and destination-unreachable messages, and the answer to an
  echo request.  The message union is the datatype \<open>icmp_message\<close>; which arm is in
  use follows \<^verbatim>\<open>type\<close>, as in the code.
\<close>

datatype icmp_message =
  Echo (echo_id: u16) (echo_seq: u16) (msg_data: ptr) (msg_size: nat)
| Unreachable (msg_data: ptr) (msg_size: nat)
| No_Message

record icmp =
  ic_type :: u8
  ic_code :: u8
  ic_checksum :: u16
  ic_message :: icmp_message
  ic_data :: ptr
  ic_data_size :: nat

abbreviation ICMP_TYPE_ECHO_REPLY :: u8 where "ICMP_TYPE_ECHO_REPLY \<equiv> 0"
abbreviation ICMP_TYPE_UNREACHABLE :: u8 where "ICMP_TYPE_UNREACHABLE \<equiv> 3"
abbreviation ICMP_TYPE_ECHO :: u8 where "ICMP_TYPE_ECHO \<equiv> 8"

definition icmp_seal :: "icmp \<Rightarrow> 'w heap_scheme \<Rightarrow> (bool \<times> icmp \<times> 'w heap_scheme) option" where
  "icmp_seal ic h = do {
     c \<leftarrow> checksum (ic_data ic) (ic_data_size ic) h;
     (_, h) \<leftarrow> bw16 c (padd (ic_data ic) 2) h;
     Some (True, ic\<lparr>ic_checksum := c\<rparr>, h) }"

text \<open>
  \<^verbatim>\<open>icmp_pack\<close>.  Reading an arm of the union that was not written last has no meaning
  in the model.
\<close>

definition icmp_pack :: "icmp \<Rightarrow> 'w heap_scheme \<Rightarrow> (bool \<times> icmp \<times> 'w heap_scheme) option" where
  "icmp_pack ic h = do {
     let p = ic_data ic;
     h \<leftarrow> wr8 p (ic_type ic) h;
     let ic = ic\<lparr>ic_code := 0\<rparr>;
     h \<leftarrow> wr8 (padd p 1) 0 h;
     (_, h) \<leftarrow> bw16 0 (padd p 2) h;
     if ic_type ic = ICMP_TYPE_ECHO_REPLY \<or> ic_type ic = ICMP_TYPE_ECHO then
       (if ic_data_size ic < 8 then Some (False, ic, h)
        else (case ic_message ic of Echo i s d n \<Rightarrow> do {
            (_, h) \<leftarrow> bw16 i (padd p 4) h;
            (_, h) \<leftarrow> bw16 s (padd p 6) h;
            h \<leftarrow> memcpy (padd p 8) d n h;
            icmp_seal (ic\<lparr>ic_data_size := 8 + n\<rparr>) h }
          | _ \<Rightarrow> None))
     else if ic_type ic = ICMP_TYPE_UNREACHABLE then
       (case ic_message ic of Unreachable d n \<Rightarrow> do {
            (_, h) \<leftarrow> bw32 0 (padd p 4) h;
            h \<leftarrow> memcpy (padd p 8) d n h;
            icmp_seal (ic\<lparr>ic_data_size := 8 + n\<rparr>) h }
          | _ \<Rightarrow> None)
     else icmp_seal ic h }"

definition icmp_unpack :: "icmp \<Rightarrow> 'w heap_scheme \<Rightarrow> (bool \<times> icmp) option" where
  "icmp_unpack ic h =
     (if ic_data_size ic < 4 then Some (False, ic)
      else do {
        let p = ic_data ic;
        ty \<leftarrow> rd8 h p;
        co \<leftarrow> rd8 h (padd p 1);
        ck \<leftarrow> br16 h (padd p 2);
        let ic = ic\<lparr>ic_type := ty, ic_code := co, ic_checksum := ck\<rparr>;
        if ty = ICMP_TYPE_ECHO_REPLY \<or> ty = ICMP_TYPE_ECHO then
          (if ic_data_size ic < 8 then Some (False, ic)
           else do {
             i \<leftarrow> br16 h (padd p 4);
             s \<leftarrow> br16 h (padd p 6);
             Some (True, ic\<lparr>ic_message := Echo i s (padd p 8) (ic_data_size ic - 8)\<rparr>) })
        else if ty = ICMP_TYPE_UNREACHABLE then
          (if ic_data_size ic < 8 then Some (False, ic)
           else Some (True, ic\<lparr>ic_message := Unreachable (padd p 8) (ic_data_size ic - 8)\<rparr>))
        else Some (False, ic) })"

definition icmp_ip_recv ::
  "('w netw_scheme) ll_send \<Rightarrow> addr \<Rightarrow> ip_datagram \<Rightarrow> 'w netw_scheme \<Rightarrow> 'w netw_scheme option" where
  "icmp_ip_recv ll_send i dg h = do {
     d \<leftarrow> get_node h (dg_payload dg);
     let ic = \<lparr>ic_type = 0, ic_code = 0, ic_checksum = 0, ic_message = No_Message,
       ic_data = d_data d, ic_data_size = d_size d\<rparr>;
     (ok, ic) \<leftarrow> icmp_unpack ic h;
     if ok then do {
       ip \<leftarrow> ips h i;
       let hdr = (dg_header dg)\<lparr>h_dest := h_src (dg_header dg), h_src := ip_self ip\<rparr>;
       if ic_type ic = ICMP_TYPE_ECHO then do {
         let ic = ic\<lparr>ic_type := ICMP_TYPE_ECHO_REPLY, ic_data := d_data d, ic_data_size := d_size d\<rparr>;
         (_, ic, h) \<leftarrow> icmp_pack ic h;
         (_, h) \<leftarrow> ip_hl_send ll_send ip (dg\<lparr>dg_header := hdr\<rparr>) h;
         Some h }
       else Some h }
     else Some h }"

section \<open>Messages as bytes\<close>

definition echo_bytes :: "u8 \<Rightarrow> u16 \<Rightarrow> u16 \<Rightarrow> u16 \<Rightarrow> u8 list \<Rightarrow> u8 list" where
  "echo_bytes ty c i s ps = [ty, 0] @ be16 c @ be16 i @ be16 s @ ps"

lemma length_echo_bytes [simp]: "length (echo_bytes ty c i s ps) = 8 + length ps"
  by (simp add: echo_bytes_def)

definition echo_csum :: "u8 \<Rightarrow> u16 \<Rightarrow> u16 \<Rightarrow> u8 list \<Rightarrow> u16" where
  "echo_csum ty i s ps = inet_csum (echo_bytes ty 0 i s ps)"

lemma echo_csum_verifies: "inet_csum (echo_bytes ty (echo_csum ty i s ps) i s ps) = 0"
proof -
  let ?z = "echo_bytes ty 0 i s ps"
  have "take 2 (drop 2 ?z) = [0, 0]" by (simp add: echo_bytes_def be16_def)
  then have "inet_csum (splice_at ?z 2 (be16 (inet_csum ?z))) = 0"
    by (intro inet_csum_verifies) simp_all
  moreover have "splice_at ?z 2 (be16 c) = echo_bytes ty c i s ps" for c
    by (simp add: splice_at_def echo_bytes_def be16_def)
  ultimately show ?thesis by (simp add: echo_csum_def)
qed

text \<open>
  The reply is packed in place: its data pointer is the data of the request, so the copy
  writes the bytes it has just read.
\<close>

lemma icmp_pack_reply:
  assumes b: "bufs h b = Some bs" "i + (8 + length ps) \<le> length bs"
    and old: "take (8 + length ps) (drop i bs) = old" "drop 8 old = ps"
    and ev: "even (length ps)" "length ps < 65000"
    and ic: "ic_type ic = ICMP_TYPE_ECHO_REPLY" "ic_data ic = Ptr b i" "ic_data_size ic = 8 + length ps"
      "ic_message ic = Echo x s (Ptr b (i + 8)) (length ps)"
  defines "c \<equiv> echo_csum ICMP_TYPE_ECHO_REPLY x s ps"
  shows "icmp_pack ic h = Some (True, ic\<lparr>ic_code := 0, ic_checksum := c\<rparr>,
    set_buf b (splice_at bs i (echo_bytes ICMP_TYPE_ECHO_REPLY c x s ps)) h)"
proof -
  let ?hd = "[0, 0] @ be16 0 @ be16 x @ be16 s :: u8 list"
  let ?h1 = "set_buf b (splice_at bs i ?hd) h"
  let ?z = "echo_bytes 0 0 x s ps"
  have w1: "mem_write (Ptr b i) ?hd h = Some ?h1" using b by (simp add: mem_simps)
  have tail: "take (length ps) (drop (i + 8) (splice_at bs i ?hd)) = ps"
  proof -
    have "take (length ps) (drop (i + 8) (splice_at bs i ?hd)) = take (length ps) (drop (i + 8) bs)"
      using b by (intro take_drop_splice_at_after) simp_all
    also have "\<dots> = drop 8 (take (8 + length ps) (drop i bs))" by (simp add: drop_take add.commute)
    finally show ?thesis using old by simp
  qed
  have cpy: "memcpy (Ptr b (i + 8)) (Ptr b (i + 8)) (length ps) ?h1 = Some ?h1"
  proof -
    have rd: "mem_read ?h1 (Ptr b (i + 8)) (length ps) = Some ps"
      using b tail by (simp add: mem_simps)
    have "splice_at (splice_at bs i ?hd) (i + 8) ps = splice_at bs i ?hd"
      using b tail by (intro splice_at_idem) simp_all
    then show ?thesis using memcpy_live [OF rd, of b "splice_at bs i ?hd" "i + 8"] b by simp
  qed
  have z: "splice_at bs i ?hd = splice_at bs i ?z"
  proof -
    have "splice_at bs i ?z = splice_at (splice_at bs i ?hd) (i + 8) ps"
      using b by (subst splice_at_next) (auto simp: echo_bytes_def)
    also have "\<dots> = splice_at bs i ?hd" using b tail by (intro splice_at_idem) simp_all
    finally show ?thesis by simp
  qed
  have "mem_read ?h1 (Ptr b i) (8 + length ps) = Some ?z"
    unfolding z using b take_drop_splice_at [of i ?z bs] by (simp add: mem_simps)
  then have ck: "checksum (Ptr b i) (8 + length ps) ?h1 = Some c"
    unfolding c_def echo_csum_def using ev by (intro checksum_even) auto
  have fin: "mem_write (Ptr b (i + 2)) (be16 c) ?h1 =
      Some (set_buf b (splice_at bs i (echo_bytes 0 c x s ps)) h)"
  proof -
    have "splice_at ?z 2 (be16 c) = echo_bytes 0 c x s ps"
      by (simp add: splice_at_def echo_bytes_def be16_def)
    then show ?thesis unfolding z using b by (simp add: mem_simps splice_at_inside [where k = 2])
  qed
  have run: "icmp_pack ic h = do {
      h \<leftarrow> mem_write (Ptr b i) ?hd h;
      h \<leftarrow> memcpy (Ptr b (i + 8)) (Ptr b (i + 8)) (length ps) h;
      icmp_seal (ic\<lparr>ic_code := 0, ic_data_size := 8 + length ps\<rparr>) h }"
    using ic by (simp add: icmp_pack_def store_simps flip: One_nat_def)
  have "ic\<lparr>ic_code := 0, ic_data_size := 8 + length ps\<rparr> = ic\<lparr>ic_code := 0\<rparr>"
    using ic by simp
  then show ?thesis
    unfolding run using w1 cpy ck fin ic
    by (simp add: icmp_seal_def bw16_write)
qed

lemma icmp_unpack_echo:
  assumes "mem_read h p (8 + n) = Some (echo_bytes ty c i s ps)" "ty = 0 \<or> ty = 8"
    and "ic_data ic = p" "ic_data_size ic = 8 + n"
  shows "icmp_unpack ic h = Some (True, ic\<lparr>ic_type := ty, ic_code := 0, ic_checksum := c,
    ic_message := Echo i s (padd p 8) n\<rparr>)"
proof -
  have rd: "rd8 h (padd p k) = Some (echo_bytes ty c i s ps ! k)" if "k < 8" for k
    using rd8_read [OF assms(1)] that by simp
  have sub: "mem_read h (padd p k) m = Some (take m (drop k (echo_bytes ty c i s ps)))" if "k + m \<le> 8" for k m
    using mem_read_sub [OF assms(1), of k m] that by simp
  have "rd8 h p = Some ty" "rd8 h (padd p (Suc 0)) = Some 0"
    using rd [of 0] rd [of 1] by (simp_all add: echo_bytes_def)
  moreover have "br16 h (padd p 2) = Some c" "br16 h (padd p 4) = Some i" "br16 h (padd p 6) = Some s"
    using sub [of 2 2] sub [of 4 2] sub [of 6 2] by (simp_all add: br16_read echo_bytes_def)
  ultimately show ?thesis
    using assms(2-4) by (auto simp: icmp_unpack_def Let_def)
qed

end
