(* ===== verification/Ip_Recv.thy ===== *)
theory Ip_Recv
  imports Ether_Arp Icmp
begin

text \<open>
  The receiving path: \<^verbatim>\<open>ether_ll_recv\<close> of \<^verbatim>\<open>dts_net_ether.c\<close> dispatches on the type of the
  frame, \<^verbatim>\<open>ip_ll_recv\<close> of \<^verbatim>\<open>dts_net_ip.c\<close> on the protocol.  Here the link layer
  parameter of the upper protocols meets the one the program installs.
\<close>

definition ip_dispatch ::
  "'tm ext \<Rightarrow> (('tm, 'w) tcpw_scheme) ll_send \<Rightarrow> (('tm, 'w) tcpw_scheme) udp_call \<Rightarrow> addr \<Rightarrow> ip_datagram \<Rightarrow>
   ('tm, 'w) tcpw_scheme \<Rightarrow> ('tm, 'w) tcpw_scheme option" where
  "ip_dispatch E ll_send call i dg w =
     (if h_protocol (dg_header dg) = IP_PROTOCOL_ICMP then icmp_ip_recv ll_send i dg w
      else if h_protocol (dg_header dg) = IP_PROTOCOL_TCP then tcp_ip_recv E ll_send i dg w
      else if h_protocol (dg_header dg) = IP_PROTOCOL_UDP then map_option snd (udp_ip_recv E call i dg w)
      else Some w)"

definition ip_ll_recv ::
  "'tm ext \<Rightarrow> (('tm, 'w) tcpw_scheme) ll_send \<Rightarrow> (('tm, 'w) tcpw_scheme) udp_call \<Rightarrow> addr \<Rightarrow> ip_datagram \<Rightarrow>
   ('tm, 'w) tcpw_scheme \<Rightarrow> ('tm, 'w) tcpw_scheme option" where
  "ip_ll_recv E ll_send call i dg w = do {
     (pl, w) \<leftarrow> Some (dblk_node_new_from_stack Null 0 w);
     (ok, dg) \<leftarrow> ip_header_unpack (dg\<lparr>dg_payload := pl\<rparr>) w;
     w \<leftarrow> (if ok then do {
         raw \<leftarrow> get_node w (dg_raw dg);
         let hdr_sz = unat (h_ihl (dg_header dg)) * 4;
         w \<leftarrow> upd_node pl (\<lambda>d. d\<lparr>d_data := padd (d_data raw) hdr_sz,
            d_size := u16_of (size_sub (unat (h_total_length (dg_header dg))) hdr_sz)\<rparr>) w;
         ip_dispatch E ll_send call i dg w }
       else Some w);
     pop_node pl w }"

text \<open>The datagram and the packet start out zeroed, by their initialisers.\<close>

definition zero_addr :: ip_addr where
  "zero_addr = \<lparr>ip_version = 0, ip_v4 = [0, 0, 0, 0], ip_mask = [0, 0, 0, 0]\<rparr>"

definition zero_header :: ip_header where
  "zero_header = \<lparr>h_version = 0, h_ihl = 0, h_tos = 0, h_total_length = 0, h_ident = 0, h_flags = 0,
     h_fragoff = 0, h_ttl = 0, h_protocol = 0, h_checksum = 0, h_src = zero_addr, h_dest = zero_addr,
     h_options = Null, h_option_size = 0\<rparr>"

text \<open>
  \<^verbatim>\<open>ether_arp_get_ip\<close> returns a null pointer for a device without an interface, and
  \<^verbatim>\<open>ip_ll_recv\<close> passes it on: the address 0, at which no interface is.
\<close>

type_synonym 'w drv_recv = "addr \<Rightarrow> ptr \<Rightarrow> nat \<Rightarrow> 'w \<Rightarrow> (nat \<times> 'w) option"

definition ether_dispatch ::
  "'tm ext \<Rightarrow> (('tm, 'w) linkw_scheme) drv_send \<Rightarrow> (('tm, 'w) linkw_scheme) item_pool \<Rightarrow>
   (('tm, 'w) linkw_scheme) udp_call \<Rightarrow> addr \<Rightarrow> ether_frame \<Rightarrow> ('tm, 'w) linkw_scheme \<Rightarrow>
   ('tm, 'w) linkw_scheme option" where
  "ether_dispatch E drv_send pool call eth frame w = do {
     pl \<leftarrow> get_node w (ef_payload frame);
     w \<leftarrow> (if ef_type frame = ETHER_TYPE_ARP then do {
         e \<leftarrow> eths w eth;
         ether_arp_ether_recv E drv_send pool e \<lparr>ap_hrd = 0, ap_pro = 0, ap_hln = 0, ap_pln = 0,
           ap_op = 0, ap_sha = At Null, ap_spa = At Null, ap_tha = At Null, ap_tpa = At Null,
           ap_data = d_data pl, ap_data_size = of_nat (d_size pl)\<rparr> w }
       else Some w);
     if ef_type frame = ETHER_TYPE_IP then do {
       host \<leftarrow> ether_arp_get_ip E eth w;
       let dg = \<lparr>dg_header = zero_header, dg_payload = None, dg_raw = ef_payload frame\<rparr>;
       let i = (case host of None \<Rightarrow> 0 | Some i \<Rightarrow> i);
       ip_ll_recv E (ip_ether_send E drv_send) call i dg w }
     else Some w }"

definition ether_ll_recv ::
  "'tm ext \<Rightarrow> (('tm, 'w) linkw_scheme) drv_send \<Rightarrow> (('tm, 'w) linkw_scheme) drv_recv \<Rightarrow>
   (('tm, 'w) linkw_scheme) item_pool \<Rightarrow> (('tm, 'w) linkw_scheme) udp_call \<Rightarrow> addr \<Rightarrow> ether_frame \<Rightarrow>
   ('tm, 'w) linkw_scheme \<Rightarrow> (bool \<times> ether_frame \<times> ('tm, 'w) linkw_scheme) option" where
  "ether_ll_recv E drv_send drv_recv pool call eth frame w = do {
     (pl, w) \<leftarrow> Some (dblk_node_new_from_stack Null 0 w);
     e \<leftarrow> eths w eth;
     (n, w) \<leftarrow> drv_recv (e_interface e) (ef_data frame) (ef_data_size frame) w;
     let frame = frame\<lparr>ef_payload := pl, ef_data_size := n\<rparr>;
     (r, frame, w) \<leftarrow> (if n > 0 then do {
         (ok, frame, w) \<leftarrow> ether_unpack frame w;
         if \<not> ok then Some (False, frame, w)
         else do {
           w \<leftarrow> ether_dispatch E drv_send pool call eth frame w;
           Some (True, frame, w) } }
       else Some (False, frame, w));
     w \<leftarrow> pop_node pl w;
     Some (r, frame, w) }"

section \<open>Dispatch\<close>

lemma ip_ll_recv_other:
  assumes "ip_header_unpack (dg\<lparr>dg_payload := Some (brk w)\<rparr>) (bump (set_node (brk w) (init_dblk Null 0) w)) =
      Some (True, dg')" "dg_raw dg' = Some r" "nodes w r = Some d" "r \<noteq> brk w"
    and "h_protocol (dg_header dg') \<notin> {IP_PROTOCOL_ICMP, IP_PROTOCOL_TCP, IP_PROTOCOL_UDP}"
  shows "ip_ll_recv E ll_send call i dg w = Some (del_node (brk w) (bump w))"
  using assms
  by (auto simp: ip_ll_recv_def dblk_node_new_from_stack_def new_node_def ip_dispatch_def pop_node_def Let_def)

end
