(* ===== verification/Mem_Pool.thy ===== *)
theory Mem_Pool
  imports Ext
begin

text \<open>
  The three implementations of the item pools in \<^verbatim>\<open>dts.net.mem.impl\<close>: an array with a flag
  per item, a free list, and \<^verbatim>\<open>malloc\<close>.  The macros are generic in the type and the number
  of the items; an item is its address here.  The locale \<open>item_store\<close> is what the users of
  a pool rely on, \<open>bounded_store\<close> adds that allocation fails only when every item is
  in use.
\<close>

section \<open>The array: \<^verbatim>\<open>dts_net_mem_arr.c\<close>\<close>

record arr_pool =
  ap_items :: "addr list"
  ap_used :: "int list"

fun arr_scan :: "addr list \<Rightarrow> int list \<Rightarrow> addr option \<times> int list" where
  "arr_scan (a # as) (u # us) =
     (if u = 0 then (Some a, 1 # us) else (case arr_scan as us of (r, us) \<Rightarrow> (r, u # us)))"
| "arr_scan as us = (None, us)"

definition arr_alloc :: "arr_pool \<Rightarrow> addr option \<times> arr_pool" where
  "arr_alloc p = (case arr_scan (ap_items p) (ap_used p) of (r, us) \<Rightarrow> (r, p\<lparr>ap_used := us\<rparr>))"

definition arr_free :: "addr \<Rightarrow> arr_pool \<Rightarrow> arr_pool" where
  "arr_free a p = p\<lparr>ap_used := map2 (\<lambda>b u. if b = a then 0 else u) (ap_items p) (ap_used p)\<rparr>"

text \<open>Static storage starts out zero.\<close>

definition arr_init :: "addr list \<Rightarrow> arr_pool" where
  "arr_init items = \<lparr>ap_items = items, ap_used = replicate (length items) 0\<rparr>"

section \<open>The free list: \<^verbatim>\<open>dts_net_mem_list.c\<close>\<close>

record list_pool =
  lp_items :: "addr list"
  lp_free :: "addr list"

definition list_alloc :: "'tm ext \<Rightarrow> list_pool \<Rightarrow> addr option \<times> list_pool" where
  "list_alloc E p = (case list_dequeue E (lp_free p) of (r, q) \<Rightarrow> (r, p\<lparr>lp_free := q\<rparr>))"

definition list_free :: "'tm ext \<Rightarrow> addr \<Rightarrow> list_pool \<Rightarrow> list_pool" where
  "list_free E a p = p\<lparr>lp_free := list_enqueue E a (lp_free p)\<rparr>"

text \<open>\<^verbatim>\<open>MEM_ITEM_LIST_API_INIT\<close>: every item is put into the list, which starts out empty.\<close>

definition list_init :: "'tm ext \<Rightarrow> addr list \<Rightarrow> list_pool" where
  "list_init E items = \<lparr>lp_items = items, lp_free = fold (list_enqueue E) items []\<rparr>"

section \<open>The heap: \<^verbatim>\<open>dts_net_mem_malloc.c\<close>\<close>

text \<open>\<open>n\<close> is the size of the item type.\<close>

definition heap_alloc :: "nat \<Rightarrow> 'w heap_scheme \<Rightarrow> addr option \<times> 'w heap_scheme" where
  "heap_alloc n h = (case malloc_buf n h of (p, h) \<Rightarrow> (ptr_buf p, h))"

definition heap_free :: "addr \<Rightarrow> 'w heap_scheme \<Rightarrow> 'w heap_scheme option" where
  "heap_free a h = free_buf (Ptr a 0) h"

section \<open>What a pool promises\<close>

locale item_store =
  fixes alloc :: "'s \<Rightarrow> addr option \<times> 's"
    and free :: "addr \<Rightarrow> 's \<Rightarrow> 's option"
    and items :: "'s \<Rightarrow> addr set"
    and live :: "'s \<Rightarrow> addr set"
    and ok :: "'s \<Rightarrow> bool"
  assumes live_items: "ok s \<Longrightarrow> live s \<subseteq> items s"
    and alloc_some: "ok s \<Longrightarrow> alloc s = (Some p, s') \<Longrightarrow>
      p \<in> items s \<and> p \<notin> live s \<and> live s' = insert p (live s) \<and> items s' = items s \<and> ok s'"
    and alloc_none: "ok s \<Longrightarrow> alloc s = (None, s') \<Longrightarrow>
      live s' = live s \<and> items s' = items s \<and> ok s'"
    and free_live: "ok s \<Longrightarrow> p \<in> live s \<Longrightarrow>
      \<exists>s'. free p s = Some s' \<and> live s' = live s - {p} \<and> items s' = items s \<and> ok s'"

locale bounded_store = item_store +
  assumes finite_items: "ok s \<Longrightarrow> finite (items s)"
    and alloc_none_full: "ok s \<Longrightarrow> alloc s = (None, s') \<Longrightarrow> live s = items s"

text \<open>
  The abstract pool is the set of the items that are in use.  A call either hands out an
  item that is not in it, or fails because every item is in it, or takes one back.
\<close>

datatype pool_op = Alloc | Free addr

fun pool_exec ::
  "('s \<Rightarrow> addr option \<times> 's) \<Rightarrow> (addr \<Rightarrow> 's \<Rightarrow> 's option) \<Rightarrow> pool_op list \<Rightarrow> 's \<Rightarrow>
   (addr option list \<times> 's) option" where
  "pool_exec alloc free [] s = Some ([], s)"
| "pool_exec alloc free (Alloc # ops) s = (case alloc s of (r, s) \<Rightarrow> do {
     (rs, s) \<leftarrow> pool_exec alloc free ops s;
     Some (r # rs, s) })"
| "pool_exec alloc free (Free a # ops) s = do {
     s \<leftarrow> free a s;
     (rs, s) \<leftarrow> pool_exec alloc free ops s;
     Some (None # rs, s) }"

lemma pool_exec_total:
  assumes "\<And>a s. \<exists>s'. free a s = Some s'"
  shows "\<exists>rs s'. pool_exec alloc free ops s = Some (rs, s')"
proof (induction ops arbitrary: s)
  case (Cons op ops)
  then show ?case
  proof (cases op)
    case Alloc
    obtain r s1 where "alloc s = (r, s1)" by force
    with Alloc Cons [of s1] show ?thesis by auto
  next
    case (Free a)
    obtain s1 where "free a s = Some s1" using assms by blast
    with Free Cons [of s1] show ?thesis by auto
  qed
qed simp

inductive pool_spec :: "addr set \<Rightarrow> addr set \<Rightarrow> pool_op list \<Rightarrow> addr option list \<Rightarrow> addr set \<Rightarrow> bool"
  for items where
  spec_done: "pool_spec items L [] [] L"
| spec_alloc: "p \<in> items \<Longrightarrow> p \<notin> L \<Longrightarrow> pool_spec items (insert p L) ops rs L' \<Longrightarrow>
    pool_spec items L (Alloc # ops) (Some p # rs) L'"
| spec_full: "L = items \<Longrightarrow> pool_spec items L ops rs L' \<Longrightarrow> pool_spec items L (Alloc # ops) (None # rs) L'"
| spec_free: "a \<in> L \<Longrightarrow> pool_spec items (L - {a}) ops rs L' \<Longrightarrow>
    pool_spec items L (Free a # ops) (None # rs) L'"

inductive_simps pool_spec_simps:
  "pool_spec items L [] rs L'"
  "pool_spec items L (Alloc # ops) rs L'"
  "pool_spec items L (Free a # ops) rs L'"

text \<open>A client that returns only what it has, whatever it was given.\<close>

fun returns_own :: "addr set \<Rightarrow> pool_op list \<Rightarrow> addr option list \<Rightarrow> bool" where
  "returns_own L [] rs = True"
| "returns_own L (Alloc # ops) (Some p # rs) = returns_own (insert p L) ops rs"
| "returns_own L (Alloc # ops) (None # rs) = returns_own L ops rs"
| "returns_own L (Free a # ops) (_ # rs) = (a \<in> L \<and> returns_own (L - {a}) ops rs)"
| "returns_own L _ [] = False"

context item_store
begin

lemma alloc_fresh: "ok s \<Longrightarrow> alloc s = (Some p, s') \<Longrightarrow> p \<notin> live s"
  using alloc_some by blast

end

context bounded_store
begin

lemma exec_refines:
  assumes "ok s" "pool_exec alloc free ops s = Some (rs, s')" "returns_own (live s) ops rs"
  shows "pool_spec (items s) (live s) ops rs (live s') \<and> ok s' \<and> items s' = items s"
  using assms
proof (induction ops arbitrary: s rs)
  case Nil
  then show ?case by (simp add: pool_spec_simps)
next
  case (Cons opn ops)
  show ?case
  proof (cases opn)
    case Alloc
    obtain r t where a: "alloc s = (r, t)" by fastforce
    obtain qs where q: "pool_exec alloc free ops t = Some (qs, s')" "rs = r # qs"
      using Cons.prems(2) Alloc a by (auto simp: bind_Some_iff)
    show ?thesis
    proof (cases r)
      case None
      with alloc_none [OF Cons.prems(1)] alloc_none_full [OF Cons.prems(1)] a
      have t: "live t = live s" "items t = items s" "ok t" "live s = items s" by auto
      with Cons.IH [of t qs] Cons.prems(3) q Alloc None show ?thesis
        by (auto simp: pool_spec_simps)
    next
      case (Some p)
      with alloc_some [OF Cons.prems(1)] a
      have t: "p \<in> items s" "p \<notin> live s" "live t = insert p (live s)" "items t = items s" "ok t" by auto
      with Cons.IH [of t qs] Cons.prems(3) q Alloc Some show ?thesis
        by (auto simp: pool_spec_simps)
    qed
  next
    case (Free a)
    obtain t qs where f: "free a s = Some t" "pool_exec alloc free ops t = Some (qs, s')" "rs = None # qs"
      using Cons.prems(2) Free by (auto simp: bind_Some_iff)
    have "a \<in> live s" using Cons.prems(3) Free f(3) by simp
    with free_live [OF Cons.prems(1), of a] f(1)
    have t: "live t = live s - {a}" "items t = items s" "ok t" by auto
    with Cons.IH [of t qs] Cons.prems(3) Free f \<open>a \<in> live s\<close> show ?thesis
      by (auto simp: pool_spec_simps)
  qed
qed

lemma alloc_succeeds_iff:
  assumes "ok s"
  shows "fst (alloc s) \<noteq> None \<longleftrightarrow> card (live s) < card (items s)"
proof (cases "alloc s")
  case (Pair r t)
  have sub: "live s \<subseteq> items s" "finite (items s)"
    using live_items [OF assms] finite_items [OF assms] by auto
  show ?thesis
  proof (cases r)
    case None
    with Pair alloc_none_full [OF assms] show ?thesis by auto
  next
    case (Some p)
    with alloc_some [OF assms] Pair have "p \<in> items s" "p \<notin> live s" by auto
    with sub have "card (live s) < card (items s)" by (intro psubset_card_mono) auto
    with Some Pair show ?thesis by simp
  qed
qed

end

section \<open>The implementations keep the promise\<close>

definition live_of :: "addr list \<Rightarrow> int list \<Rightarrow> addr set" where
  "live_of as us = {a. \<exists>u. (a, u) \<in> set (zip as us) \<and> u \<noteq> 0}"

definition arr_live :: "arr_pool \<Rightarrow> addr set" where
  "arr_live p = live_of (ap_items p) (ap_used p)"

definition arr_ok :: "arr_pool \<Rightarrow> bool" where
  "arr_ok p \<longleftrightarrow> distinct (ap_items p) \<and> length (ap_used p) = length (ap_items p)"

lemma live_of_simps [simp]:
  "live_of [] us = {}" "live_of as [] = {}"
  "live_of (a # as) (u # us) = (if u = 0 then live_of as us else insert a (live_of as us))"
  by (auto simp: live_of_def)

lemma live_of_subset: "live_of as us \<subseteq> set as"
  by (auto simp: live_of_def dest: set_zip_leftD)

lemma arr_scan_live:
  assumes "distinct as" "length us = length as"
  shows "case arr_scan as us of (r, us') \<Rightarrow> length us' = length us \<and>
    (case r of None \<Rightarrow> live_of as us = set as \<and> us' = us
     | Some p \<Rightarrow> p \<in> set as \<and> p \<notin> live_of as us \<and> live_of as us' = insert p (live_of as us))"
  using assms
proof (induction as us rule: arr_scan.induct)
  case (1 a as u us)
  have "a \<notin> live_of as us" using 1(2) live_of_subset [of as us] by auto
  then show ?case
    using 1 by (auto split: prod.splits option.splits)
qed simp_all

lemma live_of_free:
  assumes "distinct as" "length us = length as"
  shows "live_of as (map2 (\<lambda>b u. if b = a then 0 else u) as us) = live_of as us - {a}"
  using assms(2,1) by (induction us as rule: list_induct2) (auto dest: live_of_subset [THEN subsetD])

lemma arr_alloc_live:
  assumes "arr_ok p" "arr_alloc p = (r, q)"
  shows "set (ap_items q) = set (ap_items p) \<and> arr_ok q \<and>
    (case r of None \<Rightarrow> arr_live q = arr_live p \<and> arr_live p = set (ap_items p)
     | Some a \<Rightarrow> a \<in> set (ap_items p) \<and> a \<notin> arr_live p \<and> arr_live q = insert a (arr_live p))"
proof -
  have d: "distinct (ap_items p)" "length (ap_used p) = length (ap_items p)"
    using assms(1) by (simp_all add: arr_ok_def)
  obtain us where s: "arr_scan (ap_items p) (ap_used p) = (r, us)" and q: "q = p\<lparr>ap_used := us\<rparr>"
    using assms(2) by (cases "arr_scan (ap_items p) (ap_used p)") (simp add: arr_alloc_def)
  show ?thesis
    using arr_scan_live [OF d] d by (simp add: s q arr_ok_def arr_live_def split: option.splits)
qed

interpretation arr: bounded_store arr_alloc "\<lambda>a p. Some (arr_free a p)" "\<lambda>p. set (ap_items p)" arr_live arr_ok
proof unfold_locales
  fix p q :: arr_pool and a :: addr
  assume ok: "arr_ok p"
  then have d: "distinct (ap_items p)" "length (ap_used p) = length (ap_items p)"
    by (simp_all add: arr_ok_def)
  show "arr_live p \<subseteq> set (ap_items p)" by (simp add: arr_live_def live_of_subset)
  show "finite (set (ap_items p))" by simp
  show "a \<in> set (ap_items p) \<and> a \<notin> arr_live p \<and> arr_live q = insert a (arr_live p) \<and>
      set (ap_items q) = set (ap_items p) \<and> arr_ok q" if "arr_alloc p = (Some a, q)"
    using arr_alloc_live [OF ok that] by simp
  show "arr_live q = arr_live p \<and> set (ap_items q) = set (ap_items p) \<and> arr_ok q" "arr_live p = set (ap_items p)"
    if "arr_alloc p = (None, q)"
    using arr_alloc_live [OF ok that] by simp_all
  show "\<exists>s'. Some (arr_free a p) = Some s' \<and> arr_live s' = arr_live p - {a} \<and>
      set (ap_items s') = set (ap_items p) \<and> arr_ok s'" if "a \<in> arr_live p"
    using ok d by (simp add: arr_free_def arr_live_def arr_ok_def live_of_free)
qed

lemma arr_init_ok: "distinct items \<Longrightarrow> arr_ok (arr_init items) \<and> arr_live (arr_init items) = {}"
  by (auto simp: arr_ok_def arr_init_def arr_live_def live_of_def in_set_zip)

text \<open>For the free list, the items in use are those that are not in the list.\<close>

definition list_live :: "list_pool \<Rightarrow> addr set" where
  "list_live p = set (lp_items p) - set (lp_free p)"

definition list_ok :: "'tm ext \<Rightarrow> list_pool \<Rightarrow> bool" where
  "list_ok E p \<longleftrightarrow> list_laws E \<and> distinct (lp_free p) \<and> set (lp_free p) \<subseteq> set (lp_items p)"

interpretation free_list: bounded_store "list_alloc E" "\<lambda>a p. Some (list_free E a p)" "\<lambda>p. set (lp_items p)"
    list_live "list_ok E" for E
proof unfold_locales
  fix p q :: list_pool and a :: addr
  assume ok: "list_ok E p"
  show "list_live p \<subseteq> set (lp_items p)" by (auto simp: list_live_def)
  show "finite (set (lp_items p))" by simp
  show "a \<in> set (lp_items p) \<and> a \<notin> list_live p \<and> list_live q = insert a (list_live p) \<and>
      set (lp_items q) = set (lp_items p) \<and> list_ok E q" if "list_alloc E p = (Some a, q)"
    using that ok
    by (cases "lp_free p") (auto simp: list_alloc_def list_live_def list_ok_def list_laws_def)
  show "list_live q = list_live p \<and> set (lp_items q) = set (lp_items p) \<and> list_ok E q"
      "list_live p = set (lp_items p)" if "list_alloc E p = (None, q)"
    using that ok
    by (cases "lp_free p"; auto simp: list_alloc_def list_live_def list_ok_def list_laws_def)+
  show "\<exists>s'. Some (list_free E a p) = Some s' \<and> list_live s' = list_live p - {a} \<and>
      set (lp_items s') = set (lp_items p) \<and> list_ok E s'" if "a \<in> list_live p"
    using that ok by (auto simp: list_free_def list_live_def list_ok_def list_laws_def)
qed

lemma list_init_free: "list_laws E \<Longrightarrow> fold (list_enqueue E) items q = q @ items"
  by (induction items arbitrary: q) (simp_all add: list_laws_def)

lemma list_init_ok:
  "list_laws E \<Longrightarrow> distinct items \<Longrightarrow>
   list_ok E (list_init E items) \<and> list_live (list_init E items) = {} \<and> set (lp_items (list_init E items)) = set items"
  by (simp add: list_ok_def list_init_def list_live_def list_init_free)

text \<open>An item from the heap is a block of its own.\<close>

interpretation heap_store: item_store "heap_alloc n" heap_free "\<lambda>h. UNIV" "\<lambda>h. dom (bufs h)" wf_heap for n
proof unfold_locales
  fix h h' :: "'a heap_scheme" and a :: addr
  assume wf: "wf_heap h"
  show "dom (bufs h) \<subseteq> UNIV" by simp
  show "a \<in> UNIV \<and> a \<notin> dom (bufs h) \<and> dom (bufs h') = insert a (dom (bufs h)) \<and> UNIV = UNIV \<and> wf_heap h'"
    if "heap_alloc n h = (Some a, h')"
    using that wf
    by (auto simp: heap_alloc_def malloc_buf_def malloc_try_def new_buf_def wf_heap_def less_Suc_eq
        split: if_splits)
  show "dom (bufs h') = dom (bufs h) \<and> UNIV = UNIV \<and> wf_heap h'" if "heap_alloc n h = (None, h')"
    using that wf
    by (auto simp: heap_alloc_def malloc_buf_def malloc_try_def new_buf_def wf_heap_def split: if_splits)
  show "\<exists>s'. heap_free a h = Some s' \<and> dom (bufs s') = dom (bufs h) - {a} \<and> UNIV = UNIV \<and> wf_heap s'"
    if "a \<in> dom (bufs h)"
    using that wf by (auto simp: heap_free_def wf_heap_def)
qed

end
