(* ===== verification/Inet.thy ===== *)
theory Inet
  imports Endian
begin

text \<open>
  \<^verbatim>\<open>include/arpa/inet.h\<close>: conversion between host and network byte order, and
  \<^verbatim>\<open>inet_addr\<close>.  Integers of the machine are stored in little-endian order, so
  \<^verbatim>\<open>*(uint32_t *)p = v\<close> is \<^verbatim>\<open>lw32\<close>; what \<^verbatim>\<open>htonl\<close> returns is then stored as the
  big-endian bytes of its argument.
\<close>

section \<open>Byte order\<close>

text \<open>The union \<^verbatim>\<open>endian\<close>: the bytes \<^verbatim>\<open>'L', '?', '?', 'B'\<close> read as an integer of the machine.\<close>

definition INET_ENDIAN :: u8 where
  "INET_ENDIAN = ucast (of_be32 (rev [0x4C, 0x3F, 0x3F, 0x42]))"

definition htonl :: "u32 \<Rightarrow> u32" where
  "htonl hl =
     (if INET_ENDIAN = 0x4C
      then (push_bit 24 hl OR drop_bit 24 hl) OR drop_bit 8 (hl AND 0x00FF0000) OR push_bit 8 (hl AND 0x0000FF00)
      else hl)"

definition htons :: "u16 \<Rightarrow> u16" where
  "htons hs = (if INET_ENDIAN = 0x4C then push_bit 8 hs OR drop_bit 8 hs else hs)"

definition ntohl :: "u32 \<Rightarrow> u32" where "ntohl nl = htonl nl"

definition ntohs :: "u16 \<Rightarrow> u16" where "ntohs ns = htons ns"

lemma little_endian [simp]: "INET_ENDIAN = 0x4C"
  by (simp add: INET_ENDIAN_def of_be32_def)

lemma and_middle:
  "bit (w AND 0x00FF0000 :: u32) n \<longleftrightarrow> bit w n \<and> 16 \<le> n \<and> n < 24"
  "bit (w AND 0x0000FF00 :: u32) n \<longleftrightarrow> bit w n \<and> 8 \<le> n \<and> n < 16"
proof -
  have "(0x00FF0000 :: u32) = push_bit 16 (mask 8)" "(0x0000FF00 :: u32) = push_bit 8 (mask 8)"
    by (simp_all add: mask_eq_exp_minus_1 push_bit_eq_mult)
  then show "bit (w AND 0x00FF0000 :: u32) n \<longleftrightarrow> bit w n \<and> 16 \<le> n \<and> n < 24"
    "bit (w AND 0x0000FF00 :: u32) n \<longleftrightarrow> bit w n \<and> 8 \<le> n \<and> n < 16"
    by (simp_all only: bit_and_iff bit_push_bit_iff bit_mask_iff) auto
qed

lemma bit_u32_beyond: "\<not> n < 8 \<Longrightarrow> \<not> bit (w :: u32) (24 + n)"
  using bit_imp_le_length [of w "24 + n"] by auto

lemma bit_u16_beyond: "\<not> n < 8 \<Longrightarrow> \<not> bit (w :: u16) (8 + n)"
  using bit_imp_le_length [of w "8 + n"] by auto

lemma htonl_bytes: "htonl v = of_be32 (rev (be32 v))"
proof (rule bit_word_eqI)
  fix n assume "n < LENGTH(32)"
  then show "bit (htonl v) n = bit (of_be32 (rev (be32 v))) n"
    using bit_u32_beyond [of n v]
    by (cases "n < 8"; cases "n < 16"; cases "n < 24")
       (simp_all add: htonl_def of_be32_def be32_def bit_simps and_middle not_less del: bit_and_iff, auto)
qed

lemma htons_bytes: "htons v = of_be16 (rev (be16 v))"
proof (rule bit_word_eqI)
  fix n assume "n < LENGTH(16)"
  then show "bit (htons v) n = bit (of_be16 (rev (be16 v))) n"
    using bit_u16_beyond [of n v]
    by (auto simp: htons_def of_be16_def be16_def bit_simps)
qed

lemma be32_htonl: "rev (be32 (htonl v)) = be32 v"
  by (simp add: htonl_bytes be32_of_be32)

lemma be16_htons: "rev (be16 (htons v)) = be16 v"
  by (simp add: htons_bytes be16_of_be16)

lemma ntohl_htonl [simp]: "ntohl (htonl v) = v"
  by (simp add: ntohl_def htonl_bytes be32_of_be32)

lemma ntohs_htons [simp]: "ntohs (htons v) = v"
  by (simp add: ntohs_def htons_bytes be16_of_be16)

lemma lw32_htonl: "lw32 (htonl v) p h = bw32 v p h"
  by (simp add: lw32_write bw32_write be32_htonl)

lemma lw16_htons: "lw16 (htons v) p h = bw16 v p h"
  by (simp add: lw16_write bw16_write be16_htons)

lemma lr32_ntohl: "map_option ntohl (lr32 h p) = br32 h p"
  by (auto simp: lr32_read br32_read ntohl_def htonl_bytes be32_of_be32 option.map_comp comp_def
      intro!: option.map_cong0 dest!: mem_read_length)

section \<open>Dotted addresses\<close>

text \<open>
  A C string is the list of its bytes without the terminating zero.  \<^verbatim>\<open>atoi\<close> skips white
  space and a sign and reads digits; a number beyond \<^verbatim>\<open>int\<close> has no meaning.
\<close>

definition is_space :: "u8 \<Rightarrow> bool" where
  "is_space c \<longleftrightarrow> c = 32 \<or> 9 \<le> c \<and> c \<le> 13"

definition is_digit :: "u8 \<Rightarrow> bool" where
  "is_digit c \<longleftrightarrow> 48 \<le> c \<and> c \<le> 57"

definition digits_value :: "u8 list \<Rightarrow> int" where
  "digits_value ds = foldl (\<lambda>n d. 10 * n + (uint d - 48)) 0 ds"

definition atoi :: "u8 list \<Rightarrow> int option" where
  "atoi s = (
     let s = dropWhile is_space s;
         neg = (s \<noteq> [] \<and> hd s = 45);
         s = (if s \<noteq> [] \<and> (hd s = 45 \<or> hd s = 43) then tl s else s);
         v = digits_value (takeWhile is_digit s);
         v = (if neg then - v else v)
     in if - (2 ^ 31) \<le> v \<and> v < 2 ^ 31 then Some v else None)"

datatype cstr = NullStr | Str "u8 list" | Stray

text \<open>
  \<^verbatim>\<open>str = strchr(str, '.')\<close> and the \<^verbatim>\<open>++str\<close> of the loop: without a further dot the
  pointer becomes null plus one, which the loop takes for a string.
\<close>

definition behind_dot :: "u8 list \<Rightarrow> cstr" where
  "behind_dot s = (case dropWhile (\<lambda>c. c \<noteq> 46) s of [] \<Rightarrow> Stray | c # cs \<Rightarrow> Str cs)"

definition put_byte :: "nat \<Rightarrow> u8 \<Rightarrow> u32 \<Rightarrow> u32" where
  "put_byte i b hl = (hl AND NOT (push_bit (8 * i) (mask 8))) OR push_bit (8 * i) (ucast b)"

function inet_loop :: "nat \<Rightarrow> cstr \<Rightarrow> u32 \<Rightarrow> u32 option" where
  "inet_loop i str hl =
     (if i < 4 \<and> str \<noteq> NullStr then
        (case str of Str s \<Rightarrow> do {
             v \<leftarrow> atoi s;
             inet_loop (i + 1) (behind_dot s) (put_byte i (of_int v) hl) }
         | _ \<Rightarrow> None)
      else Some hl)"
  by pat_completeness auto

termination
  by (relation "measure (\<lambda>(i, _, _). 4 - i)") auto

declare inet_loop.simps [simp del]

definition inet_addr :: "cstr \<Rightarrow> u32 option" where
  "inet_addr str = map_option htonl (inet_loop 0 str 0)"

section \<open>Addresses in dotted notation\<close>

fun decimal :: "nat \<Rightarrow> u8 list" where
  "decimal n = (if n < 10 then [of_nat (48 + n)] else decimal (n div 10) @ [of_nat (48 + n mod 10)])"

declare decimal.simps [simp del]

definition dotted :: "u8 \<Rightarrow> u8 \<Rightarrow> u8 \<Rightarrow> u8 \<Rightarrow> u8 list" where
  "dotted a b c d = decimal (unat a) @ [46] @ decimal (unat b) @ [46] @ decimal (unat c) @ [46] @ decimal (unat d)"

lemma digit_byte:
  assumes "k < 10"
  shows "is_digit (of_nat (48 + k))" "uint (of_nat (48 + k) :: u8) = 48 + int k"
proof -
  have "unat (of_nat (48 + k) :: u8) = 48 + k"
    using assms by (subst unat_of_nat) simp
  then show "is_digit (of_nat (48 + k))" "uint (of_nat (48 + k) :: u8) = 48 + int k"
    using assms by (simp_all add: is_digit_def word_le_nat_alt uint_nat del: unat_of_nat of_nat_add)
qed

lemma decimal_digits: "list_all is_digit (decimal n)"
proof (induction n rule: decimal.induct)
  case (1 n)
  then show ?case
    using digit_byte(1) [of n] digit_byte(1) [of "n mod 10"]
    by (subst decimal.simps) (simp del: of_nat_add)
qed

lemma decimal_ne: "decimal n \<noteq> []"
  by (subst decimal.simps) simp

lemma digits_value_decimal: "digits_value (decimal n) = int n"
proof (induction n rule: decimal.induct)
  case (1 n)
  show ?case
  proof (cases "n < 10")
    case True
    then show ?thesis
      using digit_byte(2) [OF True] by (subst decimal.simps) (simp add: digits_value_def del: of_nat_add)
  next
    case False
    then show ?thesis
      using digit_byte(2) [of "n mod 10"] 1 [OF False]
      by (subst decimal.simps) (simp add: digits_value_def zdiv_int zmod_int del: of_nat_add)
  qed
qed

lemma not_digit_dot [simp]: "\<not> is_digit 46" "\<not> is_digit 45" "\<not> is_digit 43"
  by (simp_all add: is_digit_def)

lemma digit_no_space: "is_digit c \<Longrightarrow> \<not> is_space c"
  by (auto simp: is_digit_def is_space_def word_le_nat_alt word_unat_eq_iff)

lemma takeWhile_decimal:
  assumes "rest = [] \<or> hd rest = 46"
  shows "takeWhile is_digit (decimal n @ rest) = decimal n"
proof -
  have "takeWhile is_digit rest = []" using assms by (cases rest) auto
  moreover have "\<forall>c \<in> set (decimal n). is_digit c"
    using decimal_digits [of n] by (simp add: list_all_iff)
  ultimately show ?thesis by (simp add: takeWhile_append)
qed

lemma atoi_decimal:
  assumes "n < 2 ^ 31" "rest = [] \<or> hd rest = 46"
  shows "atoi (decimal n @ rest) = Some (int n)"
proof -
  obtain c cs where d: "decimal n = c # cs" using decimal_ne [of n] by (cases "decimal n") auto
  have c: "is_digit c" using decimal_digits [of n] d by simp
  have "dropWhile is_space (decimal n @ rest) = decimal n @ rest"
    using d c by (simp add: digit_no_space)
  moreover have "hd (decimal n @ rest) \<noteq> 45" "hd (decimal n @ rest) \<noteq> 43" using d c by auto
  ultimately show ?thesis
    using takeWhile_decimal [OF assms(2)] assms(1)
    by (simp add: atoi_def Let_def digits_value_decimal)
qed

lemma behind_dot_decimal: "behind_dot (decimal n @ 46 # rest) = Str rest"
proof -
  have "dropWhile (\<lambda>c. c \<noteq> 46) (decimal n @ 46 # rest) = 46 # rest"
    using decimal_digits [of n] by (subst dropWhile_append2) (auto simp: list_all_iff)
  then show ?thesis by (simp add: behind_dot_def)
qed

lemma unat_small: "unat (a :: u8) < 2147483648"
  by (rule less_trans [OF unat_u8_less]) simp

lemma inet_loop_dotted:
  "inet_loop 0 (Str (dotted a b c d)) 0 = Some (put_byte 3 d (put_byte 2 c (put_byte 1 b (put_byte 0 a 0))))"
proof -
  have last: "atoi (decimal (unat d)) = Some (int (unat d))"
    using atoi_decimal [of "unat d" "[]"] unat_small [of d] by simp
  have step: "inet_loop i (Str (decimal (unat x) @ 46 # rest)) hl = inet_loop (i + 1) (Str rest) (put_byte i x hl)"
    if "i < 4" for i x rest hl
    using that by (simp add: inet_loop.simps [of i] atoi_decimal unat_small behind_dot_decimal)
  have stop: "inet_loop 3 (Str (decimal (unat d))) hl = Some (put_byte 3 d hl)" for hl
    by (simp add: inet_loop.simps [of 3] inet_loop.simps [of 4] last)
  show ?thesis
    using step [of 0] step [of 1] step [of 2] by (simp add: dotted_def stop [unfolded numeral_3_eq_3] numeral_2_eq_2 numeral_3_eq_3)
qed

lemma put_bytes: "put_byte 3 d (put_byte 2 c (put_byte 1 b (put_byte 0 a 0))) = of_be32 [d, c, b, a]"
  by (rule bit_word_eqI) (auto simp: put_byte_def of_be32_def bit_simps not_bit_u8)

lemma inet_addr_dotted: "inet_addr (Str (dotted a b c d)) = Some (of_be32 [a, b, c, d])"
proof -
  have "htonl (of_be32 [d, c, b, a]) = of_be32 [a, b, c, d]"
    by (simp add: htonl_bytes be32_of_be32)
  then show ?thesis
    by (simp add: inet_addr_def inet_loop_dotted put_bytes del: One_nat_def)
qed

text \<open>A string with fewer than three dots is read through the stray pointer.\<close>

lemma inet_addr_short: "46 \<notin> set s \<Longrightarrow> inet_addr (Str s) = None"
proof -
  assume "46 \<notin> set s"
  then have "behind_dot s = Stray"
    by (metis (mono_tags, lifting) behind_dot_def dropWhile_eq_Nil_conv list.simps(4))
  then show ?thesis
    by (cases "atoi s") (simp_all add: inet_addr_def inet_loop.simps [of 0] inet_loop.simps [of "Suc 0"])
qed

end
