(* ===== verification/Socket.thy ===== *)
theory Socket
  imports Ip_Recv Mem_Pool Inet
begin

text \<open>
  The BSD socket layer, \<^verbatim>\<open>socket/socket.c\<close>: ten static socket objects in a pool, with UDP
  and TCP under them.  A descriptor is the address of the object, cast to \<^verbatim>\<open>int\<close>.  The
  union \<^verbatim>\<open>module\<close> is only ever used as the pointer to a connection.  \<^verbatim>\<open>rand\<close> is a sequence
  of numbers of the state.
\<close>

section \<open>State\<close>

record socket =
  sk_domain :: int
  sk_type :: int
  sk_protocol :: int
  sk_tcp :: "addr option"
  sk_ip :: "addr option"
  sk_port :: int
  rx_queue :: "addr list"

record 'tm sockw = "'tm linkw" +
  socks :: "addr \<rightharpoonup> socket"
  sock_pool :: list_pool
  socket_api_inited :: bool
  rand_seq :: "nat \<Rightarrow> int"
  rands :: nat

record sockaddr_in =
  sin_family :: u16
  sin_port :: u16
  sin_addr :: u32

definition AF_INET :: int where "AF_INET = 2"
definition PF_INET :: int where "PF_INET = AF_INET"
definition SOCK_STREAM :: int where "SOCK_STREAM = 1"
definition SOCK_DGRAM :: int where "SOCK_DGRAM = 2"
definition ENOMEM :: int where "ENOMEM = 12"
definition EINVAL :: int where "EINVAL = 22"
definition MSG_DONTWAIT :: int where "MSG_DONTWAIT = 0x40"
definition INADDR_ANY :: u32 where "INADDR_ANY = 0xFFFFFFFF"
definition DTS_NET_SOCKET_MAX_COUNT :: nat where "DTS_NET_SOCKET_MAX_COUNT = 10"

lemmas socket_consts = AF_INET_def PF_INET_def SOCK_STREAM_def SOCK_DGRAM_def ENOMEM_def EINVAL_def

text \<open>Casts between pointers, \<^verbatim>\<open>size_t\<close> and \<^verbatim>\<open>int\<close>, all of 32 bits.\<close>

definition to_int :: "nat \<Rightarrow> int" where
  "to_int n = sint (of_nat n :: u32)"

definition to_socket :: "int \<Rightarrow> addr" where
  "to_socket fd = unat (of_int fd :: u32)"

definition get_sock :: "int \<Rightarrow> ('tm, 'w) sockw_scheme \<Rightarrow> socket option" where
  "get_sock fd w = socks w (to_socket fd)"

definition upd_sock ::
  "int \<Rightarrow> (socket \<Rightarrow> socket) \<Rightarrow> ('tm, 'w) sockw_scheme \<Rightarrow> ('tm, 'w) sockw_scheme option" where
  "upd_sock fd f w = do {
     sk \<leftarrow> get_sock fd w;
     Some (w\<lparr>socks := (socks w)(to_socket fd \<mapsto> f sk)\<rparr>) }"

definition IS_UDP_SOCK :: "socket \<Rightarrow> bool" where
  "IS_UDP_SOCK sk \<longleftrightarrow> sk_domain sk = AF_INET \<and> sk_domain sk = PF_INET \<and> sk_type sk = SOCK_DGRAM \<and>
     sk_protocol sk = 0"

definition IS_TCP_SOCK :: "socket \<Rightarrow> bool" where
  "IS_TCP_SOCK sk \<longleftrightarrow> sk_domain sk = AF_INET \<and> sk_domain sk = PF_INET \<and> sk_type sk = SOCK_STREAM \<and>
     sk_protocol sk = 0"

definition C_rand :: "('tm, 'w) sockw_scheme \<Rightarrow> int \<times> ('tm, 'w) sockw_scheme" where
  "C_rand w = (rand_seq w (rands w), w\<lparr>rands := Suc (rands w)\<rparr>)"

section \<open>The order of the connection states\<close>

text \<open>The code compares states with \<^verbatim>\<open>>\<close>: the enumeration is in the order of its constants.\<close>

instantiation tcp_state :: linorder
begin

fun state_no :: "tcp_state \<Rightarrow> nat" where
  "state_no LISTEN = 0" | "state_no SYN_SENT = 1" | "state_no SYN_RECEIVED = 2"
| "state_no ESTABLISHED = 3" | "state_no FIN_WAIT_1 = 4" | "state_no FIN_WAIT_2 = 5"
| "state_no TIME_WAIT = 6" | "state_no CLOSE_WAIT = 7" | "state_no LAST_ACK = 8"
| "state_no CLOSING = 9" | "state_no CLOSED = 10"

definition less_eq_tcp_state :: "tcp_state \<Rightarrow> tcp_state \<Rightarrow> bool" where
  "less_eq_tcp_state s t \<longleftrightarrow> state_no s \<le> state_no t"

definition less_tcp_state :: "tcp_state \<Rightarrow> tcp_state \<Rightarrow> bool" where
  "less_tcp_state s t \<longleftrightarrow> state_no s < state_no t"

lemma state_no_inj: "state_no s = state_no t \<Longrightarrow> s = t"
  by (cases s; cases t) simp_all

instance
  by standard (auto simp: less_eq_tcp_state_def less_tcp_state_def intro: state_no_inj)

end

section \<open>Sockets\<close>

definition udp_recv ::
  "'tm ext \<Rightarrow> int \<Rightarrow> ptr \<Rightarrow> nat \<Rightarrow> ('tm, 'w) sockw_scheme \<Rightarrow> ('tm, 'w) sockw_scheme option" where
  "udp_recv E cb_data data len w = do {
     (rx, w) \<leftarrow> dblk_node_new_with_buff len w;
     case rx of None \<Rightarrow> Some w
     | Some r \<Rightarrow> do {
         (_, w) \<leftarrow> dblk_copy_from rx data len w;
         upd_sock cb_data (\<lambda>sk. sk\<lparr>rx_queue := list_enqueue E r (rx_queue sk)\<rparr>) w } }"

text \<open>The callbacks UDP can call: the function above, and those of the application.\<close>

definition UDP_RECV :: nat where "UDP_RECV = 0"

definition sock_call ::
  "'tm ext \<Rightarrow> (('tm, 'w) sockw_scheme) udp_call \<Rightarrow> (('tm, 'w) sockw_scheme) udp_call" where
  "sock_call E app f cb_data data len w =
     (if f = UDP_RECV then udp_recv E cb_data data len w else app f cb_data data len w)"

definition socket_create ::
  "'tm ext \<Rightarrow> int \<Rightarrow> int \<Rightarrow> int \<Rightarrow> ('tm, 'w) sockw_scheme \<Rightarrow> (int \<times> ('tm, 'w) sockw_scheme) option" where
  "socket_create E domain type protocol w = (
     let w = (if socket_api_inited w then w
        else w\<lparr>socket_api_inited := True, sock_pool := (sock_pool w)\<lparr>lp_free :=
           fold (list_enqueue E) (lp_items (sock_pool w)) (lp_free (sock_pool w))\<rparr>\<rparr>)
     in if (domain = AF_INET \<or> domain = PF_INET) \<and> protocol = 0 \<and> (type = SOCK_DGRAM \<or> type = SOCK_STREAM)
     then (case list_alloc E (sock_pool w) of
         (Some p, pool) \<Rightarrow> do {
           sk \<leftarrow> socks w p;
           Some (to_int p, w\<lparr>sock_pool := pool, socks := (socks w)(p \<mapsto>
             sk\<lparr>sk_domain := domain, sk_type := type, sk_protocol := protocol\<rparr>)\<rparr>) }
       | (None, pool) \<Rightarrow> Some (- ENOMEM, w\<lparr>sock_pool := pool\<rparr>))
     else Some (- EINVAL, w))"

text \<open>
  \<^verbatim>\<open>nacv\<close> takes the bytes of the address from the top.  The netmask of the local variable
  it fills stays uninitialised.
\<close>

definition nacv :: "sockaddr_in \<Rightarrow> ('tm, 'w) sockw_scheme \<Rightarrow> ip_addr" where
  "nacv sin w = \<lparr>ip_version = 4, ip_v4 = be32 (sin_addr sin), ip_mask = fresh_bytes w 4\<rparr>"

definition sock_bind ::
  "'tm ext \<Rightarrow> (('tm, 'w) sockw_scheme \<Rightarrow> addr option \<times> ('tm, 'w) sockw_scheme) \<Rightarrow> int \<Rightarrow> sockaddr_in option \<Rightarrow>
   ('tm, 'w) sockw_scheme \<Rightarrow> (int \<times> ('tm, 'w) sockw_scheme) option" where
  "sock_bind E alloc fd host_addr w = do {
     sin \<leftarrow> host_addr;
     (ip, _) \<leftarrow> ip_find_netif E None (nacv sin w) w;
     sk \<leftarrow> get_sock fd w;
     if IS_UDP_SOCK sk then
       (case ip of None \<Rightarrow> Some (- EINVAL, w)
        | Some i \<Rightarrow> do {
            w \<leftarrow> upd_sock fd (\<lambda>sk. sk\<lparr>rx_queue := []\<rparr>) w;
            (u, w) \<leftarrow> udp_bind E alloc i (uint (ntohs (sin_port sin))) (Some UDP_RECV) fd w;
            Some (if u \<noteq> None then 0 else - EINVAL, w) })
     else if IS_TCP_SOCK sk then
       (case ip of None \<Rightarrow> Some (- EINVAL, w)
        | Some i \<Rightarrow> do {
            w \<leftarrow> upd_sock fd (\<lambda>sk. sk\<lparr>sk_ip := Some i, sk_port := uint (ntohs (sin_port sin))\<rparr>) w;
            Some (0, w) })
     else Some (- EINVAL, w) }"

text \<open>\<^verbatim>\<open>tcp_open(&sk->ip->addr, sk->port, NULL, 0)\<close>, stored in the socket.\<close>

definition open_passive ::
  "'tm ext \<Rightarrow> (('tm, 'w) sockw_scheme) ll_send \<Rightarrow> int \<Rightarrow> ('tm, 'w) sockw_scheme \<Rightarrow>
   (addr option \<times> ('tm, 'w) sockw_scheme) option" where
  "open_passive E ll_send fd w = do {
     sk \<leftarrow> get_sock fd w;
     i \<leftarrow> sk_ip sk;
     ip \<leftarrow> ips w i;
     (t, _, w) \<leftarrow> tcp_open E ll_send (Some i) (ip_self ip) (of_int (sk_port sk)) None 0 w;
     w \<leftarrow> upd_sock fd (\<lambda>sk. sk\<lparr>sk_tcp := t\<rparr>) w;
     Some (t, w) }"

definition sock_listen ::
  "'tm ext \<Rightarrow> (('tm, 'w) sockw_scheme) ll_send \<Rightarrow> int \<Rightarrow> ('tm, 'w) sockw_scheme \<Rightarrow>
   (int \<times> ('tm, 'w) sockw_scheme) option" where
  "sock_listen E ll_send fd w = do {
     sk \<leftarrow> get_sock fd w;
     if IS_TCP_SOCK sk then do {
       (t, w) \<leftarrow> open_passive E ll_send fd w;
       Some (if t \<noteq> None then 0 else - 1, w) }
     else Some (- 1, w) }"

definition sock_accept ::
  "'tm ext \<Rightarrow> (('tm, 'w) sockw_scheme) ll_send \<Rightarrow> int \<Rightarrow> ('tm, 'w) sockw_scheme \<Rightarrow>
   (int \<times> ('tm, 'w) sockw_scheme) option" where
  "sock_accept E ll_send fd w = do {
     sk \<leftarrow> get_sock fd w;
     if IS_TCP_SOCK sk then do {
       st \<leftarrow> tcp_status (sk_tcp sk) w;
       if st = ESTABLISHED then do {
         (c, w) \<leftarrow> socket_create E (sk_domain sk) (sk_type sk) (sk_protocol sk) w;
         w \<leftarrow> (if c > 0 then do {
             sk \<leftarrow> get_sock fd w;
             w \<leftarrow> upd_sock c (\<lambda>s. s\<lparr>sk_tcp := sk_tcp sk\<rparr>) w;
             (_, w) \<leftarrow> open_passive E ll_send fd w;
             Some w }
           else Some w);
         Some (c, w) }
       else Some (- 1, w) }
     else Some (- 1, w) }"

definition sock_close ::
  "'tm ext \<Rightarrow> int \<Rightarrow> ('tm, 'w) sockw_scheme \<Rightarrow> (int \<times> ('tm, 'w) sockw_scheme) option" where
  "sock_close E fd w = do {
     sk \<leftarrow> get_sock fd w;
     w \<leftarrow> (if IS_TCP_SOCK sk then
         (case sk_tcp sk of None \<Rightarrow> Some w
          | Some p \<Rightarrow> do {
              t \<leftarrow> tcbs w p;
              tcp_close E p (w\<lparr>tcbs := (tcbs w)(p \<mapsto> t\<lparr>time_wait_seconds := 1\<rparr>)\<rparr>) })
       else Some w);
     Some (0, w\<lparr>sock_pool := list_free E (to_socket fd) (sock_pool w)\<rparr>) }"

section \<open>Sending and receiving\<close>

definition sock_sendto ::
  "'tm ext \<Rightarrow> (('tm, 'w) sockw_scheme) ll_send \<Rightarrow> int \<Rightarrow> ptr \<Rightarrow> nat \<Rightarrow> int \<Rightarrow> sockaddr_in option \<Rightarrow>
   ('tm, 'w) sockw_scheme \<Rightarrow> (int \<times> ('tm, 'w) sockw_scheme) option" where
  "sock_sendto E ll_send fd buf len flags dest_addr w = do {
     sk \<leftarrow> get_sock fd w;
     if IS_UDP_SOCK sk then do {
       sin \<leftarrow> dest_addr;
       (r, _, w) \<leftarrow> udp_sendto E ll_send (nacv sin w) (ntohs (sin_port sin)) buf len w;
       Some (if r \<noteq> 0 then to_int len else 0, w) }
     else if IS_TCP_SOCK sk \<and> sk_tcp sk \<noteq> None then do {
       st \<leftarrow> tcp_status (sk_tcp sk) w;
       if st = ESTABLISHED then do {
         p \<leftarrow> sk_tcp sk;
         (n, w) \<leftarrow> tcp_send E ll_send p buf len w;
         Some (to_int n, w) }
       else Some (0, w) }
     else Some (- EINVAL, w) }"

text \<open>
  The loop over the queue of datagrams.  \<^verbatim>\<open>buf\<close> does not move, and the lengths are
  \<^verbatim>\<open>size_t\<close>.
\<close>

partial_function (option) recvfrom_loop ::
  "'tm ext \<Rightarrow> int \<Rightarrow> ptr \<Rightarrow> nat \<Rightarrow> nat \<Rightarrow> ('tm, 'w) sockw_scheme \<Rightarrow> (nat \<times> ('tm, 'w) sockw_scheme) option" where
  "recvfrom_loop E fd buf len done_size w = do {
     sk \<leftarrow> get_sock fd w;
     if list_length E (rx_queue sk) \<noteq> 0 \<and> done_size < len then do {
       let rx = list_queue_head E (rx_queue sk);
       (do_size, w) \<leftarrow> dblk_read rx buf (len - done_size) w;
       w \<leftarrow> (if do_size < len - done_size then do {
           w \<leftarrow> upd_sock fd (\<lambda>sk. sk\<lparr>rx_queue := snd (list_dequeue E (rx_queue sk))\<rparr>) w;
           (_, w) \<leftarrow> dblk_delete rx w;
           Some w }
         else Some w);
       recvfrom_loop E fd buf len (done_size + do_size) w }
     else Some (done_size, w) }"

definition sock_recvfrom ::
  "'tm ext \<Rightarrow> int \<Rightarrow> ptr \<Rightarrow> nat \<Rightarrow> int \<Rightarrow> ('tm, 'w) sockw_scheme \<Rightarrow> (int \<times> ('tm, 'w) sockw_scheme) option" where
  "sock_recvfrom E fd buf len flags w = do {
     sk \<leftarrow> get_sock fd w;
     if IS_UDP_SOCK sk then
       (if flags AND MSG_DONTWAIT = 0 then Some (- EINVAL, w)
        else do {
          (n, w) \<leftarrow> recvfrom_loop E fd buf len 0 w;
          Some (to_int n, w) })
     else if IS_TCP_SOCK sk then do {
       st \<leftarrow> tcp_status (sk_tcp sk) w;
       if st = ESTABLISHED then do {
         p \<leftarrow> sk_tcp sk;
         (n, w) \<leftarrow> tcp_recv E p buf len w;
         Some (to_int n, w) }
       else if st > ESTABLISHED then Some (- 1, w)
       else Some (0, w) }
     else Some (0, w) }"

section \<open>Connecting\<close>

definition random_port :: "int \<Rightarrow> int" where
  "random_port r = (r AND 0xFBFF) + 1024"

fun connect_loop ::
  "'tm ext \<Rightarrow> (('tm, 'w) sockw_scheme) ll_send \<Rightarrow> int \<Rightarrow> addr \<Rightarrow> ip_addr \<Rightarrow> u16 \<Rightarrow> nat \<Rightarrow>
   ('tm, 'w) sockw_scheme \<Rightarrow> (int \<times> ('tm, 'w) sockw_scheme) option" where
  "connect_loop E ll_send fd i dest port 0 w = Some (- 1, w)"
| "connect_loop E ll_send fd i dest port (Suc n) w = do {
     (r, w) \<leftarrow> Some (C_rand w);
     ip \<leftarrow> ips w i;
     (t, _, w) \<leftarrow> tcp_open E ll_send (Some i) (ip_self ip) (of_int (random_port r)) (Some dest) port w;
     w \<leftarrow> upd_sock fd (\<lambda>sk. sk\<lparr>sk_tcp := t\<rparr>) w;
     if t \<noteq> None then Some (0, w) else connect_loop E ll_send fd i dest port n w }"

definition sock_connect ::
  "'tm ext \<Rightarrow> (('tm, 'w) sockw_scheme) ll_send \<Rightarrow> int \<Rightarrow> sockaddr_in option \<Rightarrow> ('tm, 'w) sockw_scheme \<Rightarrow>
   (int \<times> ('tm, 'w) sockw_scheme) option" where
  "sock_connect E ll_send fd dest_addr w = do {
     sk \<leftarrow> get_sock fd w;
     if IS_TCP_SOCK sk then do {
       sin \<leftarrow> dest_addr;
       (ip, dest) \<leftarrow> ip_find_netif E None (nacv sin w) w;
       case ip of None \<Rightarrow> Some (- 1, w)
       | Some i \<Rightarrow> connect_loop E ll_send fd i dest (ntohs (sin_port sin)) 3 w }
     else Some (- 1, w) }"

definition sock_send ::
  "'tm ext \<Rightarrow> (('tm, 'w) sockw_scheme) ll_send \<Rightarrow> int \<Rightarrow> ptr \<Rightarrow> nat \<Rightarrow> int \<Rightarrow>
   ('tm, 'w) sockw_scheme \<Rightarrow> (int \<times> ('tm, 'w) sockw_scheme) option" where
  "sock_send E ll_send fd buf len flags w = sock_sendto E ll_send fd buf len flags None w"

definition sock_recv ::
  "'tm ext \<Rightarrow> int \<Rightarrow> ptr \<Rightarrow> nat \<Rightarrow> int \<Rightarrow> ('tm, 'w) sockw_scheme \<Rightarrow> (int \<times> ('tm, 'w) sockw_scheme) option" where
  "sock_recv E fd buf len flags w = sock_recvfrom E fd buf len flags w"

end
