(* ===== verification/Dhcp_Msg.thy ===== *)
theory Dhcp_Msg
  imports Inet
begin

text \<open>
  The messages of \<^verbatim>\<open>dts_net_dhcp.c\<close>: packing, unpacking, and the search for an option.
  The arrays of a message are byte lists of 16, 64 and 128 bytes (\<open>wf_msg\<close>); the
  option field and the raw data are pointers.  The searches work on offsets from the
  start of the option field.
\<close>

record dhcp_message =
  m_op :: u8
  m_htype :: u8
  m_hlen :: u8
  m_hops :: u8
  m_xid :: u32
  m_secs :: u16
  m_flags :: u16
  m_ciaddr :: u32
  m_yiaddr :: u32
  m_siaddr :: u32
  m_giaddr :: u32
  m_chaddr :: "u8 list"
  m_sname :: "u8 list"
  m_file :: "u8 list"
  m_option :: ptr
  m_option_size :: nat
  m_raw_data :: ptr
  m_raw_data_size :: nat

definition BOOTREQUEST :: u8 where "BOOTREQUEST = 1"
definition BOOTREPLY :: u8 where "BOOTREPLY = 2"
definition DHCP_OPT_MAGIC :: "u8 list" where "DHCP_OPT_MAGIC = [99, 130, 83, 99]"
definition DHCP_OPT_PAD :: u8 where "DHCP_OPT_PAD = 0"
definition DHCP_OPT_END :: u8 where "DHCP_OPT_END = 255"
definition DHCP_OPT_IP_LEASE_TIME_TAG :: u8 where "DHCP_OPT_IP_LEASE_TIME_TAG = 51"
definition DHCP_OPT_DHCP_MSG_TYPE_TAG :: u8 where "DHCP_OPT_DHCP_MSG_TYPE_TAG = 53"
definition DHCP_OPT_SERVER_IDENTIFIER_TAG :: u8 where "DHCP_OPT_SERVER_IDENTIFIER_TAG = 54"
definition DHCP_OPT_REQUEST_IP_ADDR_TAG :: u8 where "DHCP_OPT_REQUEST_IP_ADDR_TAG = 50"

lemmas dhcp_opt_defs = DHCP_OPT_MAGIC_def DHCP_OPT_PAD_def DHCP_OPT_END_def DHCP_OPT_IP_LEASE_TIME_TAG_def
  DHCP_OPT_DHCP_MSG_TYPE_TAG_def DHCP_OPT_SERVER_IDENTIFIER_TAG_def DHCP_OPT_REQUEST_IP_ADDR_TAG_def

definition wf_msg :: "dhcp_message \<Rightarrow> bool" where
  "wf_msg m \<longleftrightarrow> length (m_chaddr m) = 16 \<and> length (m_sname m) = 64 \<and> length (m_file m) = 128"

section \<open>Packing and unpacking\<close>

definition dhcp_message_pack ::
  "dhcp_message \<Rightarrow> 'w heap_scheme \<Rightarrow> (bool \<times> dhcp_message \<times> 'w heap_scheme) option" where
  "dhcp_message_pack m h = (
     let size = (236 + m_option_size m) mod 2 ^ 32; p = m_raw_data m in
     if size > m_raw_data_size m then Some (False, m, h)
     else do {
       h \<leftarrow> wr8 p (m_op m) h;
       h \<leftarrow> wr8 (padd p 1) (m_htype m) h;
       h \<leftarrow> wr8 (padd p 2) (m_hlen m) h;
       h \<leftarrow> wr8 (padd p 3) (m_hops m) h;
       (_, h) \<leftarrow> lw32 (htonl (m_xid m)) (padd p 4) h;
       (_, h) \<leftarrow> lw16 (htons (m_secs m)) (padd p 8) h;
       (_, h) \<leftarrow> lw16 (htons (m_flags m)) (padd p 10) h;
       (_, h) \<leftarrow> lw32 (htonl (m_ciaddr m)) (padd p 12) h;
       (_, h) \<leftarrow> lw32 (htonl (m_yiaddr m)) (padd p 16) h;
       (_, h) \<leftarrow> lw32 (htonl (m_siaddr m)) (padd p 20) h;
       (_, h) \<leftarrow> lw32 (htonl (m_giaddr m)) (padd p 24) h;
       h \<leftarrow> mem_write (padd p 28) (m_chaddr m) h;
       h \<leftarrow> mem_write (padd p 44) (m_sname m) h;
       h \<leftarrow> mem_write (padd p 108) (m_file m) h;
       h \<leftarrow> memcpy (padd p 236) (m_option m) (m_option_size m) h;
       Some (True, m\<lparr>m_raw_data_size := size\<rparr>, h) })"

definition dhcp_message_unpack ::
  "dhcp_message \<Rightarrow> 'w heap_scheme \<Rightarrow> (bool \<times> dhcp_message) option" where
  "dhcp_message_unpack m h = (
     let p = m_raw_data m in
     if m_raw_data_size m < 241 then Some (False, m)
     else do {
       op \<leftarrow> rd8 h p;
       htype \<leftarrow> rd8 h (padd p 1);
       hlen \<leftarrow> rd8 h (padd p 2);
       hops \<leftarrow> rd8 h (padd p 3);
       xid \<leftarrow> lr32 h (padd p 4);
       secs \<leftarrow> lr16 h (padd p 8);
       flags \<leftarrow> lr16 h (padd p 10);
       ciaddr \<leftarrow> lr32 h (padd p 12);
       yiaddr \<leftarrow> lr32 h (padd p 16);
       siaddr \<leftarrow> lr32 h (padd p 20);
       giaddr \<leftarrow> lr32 h (padd p 24);
       chaddr \<leftarrow> mem_read h (padd p 28) 16;
       sname \<leftarrow> mem_read h (padd p 44) 64;
       file \<leftarrow> mem_read h (padd p 108) 128;
       Some (True, m\<lparr>m_op := op, m_htype := htype, m_hlen := hlen, m_hops := hops,
         m_xid := ntohl xid, m_secs := ucast (ntohl (ucast secs)), m_flags := ucast (ntohl (ucast flags)),
         m_ciaddr := ntohl ciaddr, m_yiaddr := ntohl yiaddr, m_siaddr := ntohl siaddr,
         m_giaddr := ntohl giaddr, m_chaddr := chaddr, m_sname := sname, m_file := file,
         m_option := padd p 236, m_option_size := m_raw_data_size m - 236\<rparr>) })"

definition dhcp_message_init :: dhcp_message where
  "dhcp_message_init = \<lparr>m_op = 0, m_htype = 0, m_hlen = 0, m_hops = 0, m_xid = 0, m_secs = 0,
     m_flags = 0, m_ciaddr = 0, m_yiaddr = 0, m_siaddr = 0, m_giaddr = 0, m_chaddr = replicate 16 0,
     m_sname = replicate 64 0, m_file = replicate 128 0, m_option = Null, m_option_size = 0,
     m_raw_data = Null, m_raw_data_size = 0\<rparr>"

section \<open>Options\<close>

text \<open>
  The loop both searches share: the offset of the option with the given tag.  After a pad
  the loop goes on with the byte behind it, without comparing that one with the tag.
\<close>

function option_scan :: "'w heap_scheme \<Rightarrow> ptr \<Rightarrow> nat \<Rightarrow> u8 \<Rightarrow> nat \<Rightarrow> nat option option" where
  "option_scan h opt sz code off =
     (if off < sz then do {
        tag \<leftarrow> rd8 h (padd opt off);
        if tag = code then Some (Some off)
        else do {
          let off = (if tag = DHCP_OPT_PAD then off + 1 else off);
          tag \<leftarrow> rd8 h (padd opt off);
          if tag = DHCP_OPT_END then Some None
          else do {
            len \<leftarrow> rd8 h (padd opt (off + 1));
            option_scan h opt sz code (off + (2 + unat len)) } } }
      else Some None)"
  by pat_completeness auto

termination
  by (relation "measure (\<lambda>(_, _, sz, _, off). sz - off)") (auto split: if_splits)

declare option_scan.simps [simp del]

definition option_find :: "dhcp_message \<Rightarrow> u8 \<Rightarrow> 'w heap_scheme \<Rightarrow> nat option option" where
  "option_find m code h = do {
     magic \<leftarrow> lr32 h (m_option m);
     if magic = of_be32 (rev DHCP_OPT_MAGIC) then option_scan h (m_option m) (m_option_size m) code 4
     else Some None }"

definition dhcp_option_message_type :: "dhcp_message \<Rightarrow> 'w heap_scheme \<Rightarrow> int option" where
  "dhcp_option_message_type m h = do {
     r \<leftarrow> option_find m DHCP_OPT_DHCP_MSG_TYPE_TAG h;
     case r of None \<Rightarrow> Some (- 1)
     | Some off \<Rightarrow> map_option uint (rd8 h (padd (m_option m) (off + 2))) }"

text \<open>The value, when there is one, and else what the caller's variable held.\<close>

definition dhcp_option_long :: "dhcp_message \<Rightarrow> u32 \<Rightarrow> u8 \<Rightarrow> 'w heap_scheme \<Rightarrow> (bool \<times> u32) option" where
  "dhcp_option_long m l code h = do {
     r \<leftarrow> option_find m code h;
     case r of None \<Rightarrow> Some (False, l)
     | Some off \<Rightarrow> do {
         v \<leftarrow> lr32 h (padd (m_option m) (off + 2));
         Some (True, ntohl v) } }"

definition dhcp_option_ip_lease_time :: "dhcp_message \<Rightarrow> u32 \<Rightarrow> 'w heap_scheme \<Rightarrow> (bool \<times> u32) option" where
  "dhcp_option_ip_lease_time m lease h = dhcp_option_long m lease DHCP_OPT_IP_LEASE_TIME_TAG h"

definition dhcp_option_server_identifier :: "dhcp_message \<Rightarrow> u32 \<Rightarrow> 'w heap_scheme \<Rightarrow> (bool \<times> u32) option" where
  "dhcp_option_server_identifier m sid h = dhcp_option_long m sid DHCP_OPT_SERVER_IDENTIFIER_TAG h"

section \<open>The bytes of a message\<close>

definition dhcp_bytes :: "dhcp_message \<Rightarrow> u8 list" where
  "dhcp_bytes m = [m_op m, m_htype m, m_hlen m, m_hops m] @ be32 (m_xid m) @ be16 (m_secs m) @
     be16 (m_flags m) @ be32 (m_ciaddr m) @ be32 (m_yiaddr m) @ be32 (m_siaddr m) @ be32 (m_giaddr m) @
     m_chaddr m @ m_sname m @ m_file m"

lemma length_dhcp_bytes [simp]: "wf_msg m \<Longrightarrow> length (dhcp_bytes m) = 236"
  by (simp add: dhcp_bytes_def wf_msg_def)

lemma dhcp_pack_writes:
  assumes "wf_msg m" "m_raw_data m = Ptr b i" "bufs h b = Some bs"
    and "236 + m_option_size m \<le> m_raw_data_size m" "m_raw_data_size m < 2 ^ 32"
    and "i + (236 + m_option_size m) \<le> length bs"
    and "mem_read h (m_option m) (m_option_size m) = Some opts" "ptr_buf (m_option m) \<noteq> Some b"
  shows "dhcp_message_pack m h = Some (True, m\<lparr>m_raw_data_size := 236 + m_option_size m\<rparr>,
    set_buf b (splice_at bs i (dhcp_bytes m @ opts)) h)"
proof -
  let ?n = "m_option_size m"
  have len: "length opts = ?n" using assms(7) by (rule mem_read_length)
  have wf: "length (m_chaddr m) = 16" "length (m_sname m) = 64" "length (m_file m) = 128"
    using assms(1) by (simp_all add: wf_msg_def)
  have size: "(236 + ?n) mod 2 ^ 32 = 236 + ?n" using assms(4,5) by simp
  have read: "mem_read (set_buf b ys h) (m_option m) ?n = Some opts" for ys
    using assms(7,8) by (cases "m_option m") (auto simp: mem_read_def split: if_splits)
  have hdr: "mem_write (Ptr b i) (dhcp_bytes m) h = Some (set_buf b (splice_at bs i (dhcp_bytes m)) h)"
    using assms by (intro mem_write_live) simp_all
  have opt: "mem_write (Ptr b (i + 236)) opts (set_buf b (splice_at bs i (dhcp_bytes m)) h) =
      Some (set_buf b (splice_at bs i (dhcp_bytes m @ opts)) h)"
    using assms len by (subst mem_write_live) (auto simp: splice_at_next)
  have "dhcp_message_pack m h = do {
      h \<leftarrow> mem_write (m_raw_data m) (dhcp_bytes m) h;
      h \<leftarrow> memcpy (padd (m_raw_data m) 236) (m_option m) ?n h;
      Some (True, m\<lparr>m_raw_data_size := 236 + ?n\<rparr>, h) }"
    unfolding dhcp_message_pack_def dhcp_bytes_def Let_def size
    using assms(4) wf by (simp add: lw32_htonl lw16_htons store_simps write_run)
  then show ?thesis
    by (simp add: assms(2) hdr memcpy_def read opt)
qed

text \<open>
  Reading back: all fields but the seconds and the flags, which \<^verbatim>\<open>ntohl\<close> turns into zero.
\<close>

definition dhcp_read_back :: "dhcp_message \<Rightarrow> dhcp_message \<Rightarrow> dhcp_message" where
  "dhcp_read_back s m = m\<lparr>m_op := m_op s, m_htype := m_htype s, m_hlen := m_hlen s, m_hops := m_hops s,
     m_xid := m_xid s, m_secs := 0, m_flags := 0, m_ciaddr := m_ciaddr s, m_yiaddr := m_yiaddr s,
     m_siaddr := m_siaddr s, m_giaddr := m_giaddr s, m_chaddr := m_chaddr s, m_sname := m_sname s,
     m_file := m_file s, m_option := padd (m_raw_data m) 236,
     m_option_size := m_raw_data_size m - 236\<rparr>"

lemma ntohl_of_16: "(ucast (ntohl (ucast (v :: u16))) :: u16) = 0"
proof (rule bit_word_eqI)
  fix n assume "n < LENGTH(16)"
  then show "bit (ucast (ntohl (ucast v)) :: u16) n = bit (0 :: u16) n"
    using bit_imp_le_length [of v "24 + n"] bit_imp_le_length [of v "8 + n"]
    by (auto simp: ntohl_def htonl_def bit_simps and_middle simp del: bit_and_iff)
qed

lemma lr32_read_ntohl: "lr32 h p = map_option ntohl (br32 h p)"
  by (simp add: lr32_ntohl [symmetric] option.map_comp comp_def ntohl_def htonl_bytes be32_of_be32
      option.map_ident)

lemma dhcp_unpack_reads:
  assumes "wf_msg s" "mem_read h (m_raw_data m) (m_raw_data_size m) = Some (dhcp_bytes s @ opts)"
    and "241 \<le> m_raw_data_size m"
  shows "dhcp_message_unpack m h = Some (True, dhcp_read_back s m)"
proof -
  let ?bs = "dhcp_bytes s @ opts" and ?p = "m_raw_data m"
  have wf: "length (m_chaddr s) = 16" "length (m_sname s) = 64" "length (m_file s) = 128"
    using assms(1) by (simp_all add: wf_msg_def)
  have sub: "mem_read h (padd ?p k) n = Some (take n (drop k ?bs))" if "k + n \<le> 241" for k n
    by (rule mem_read_sub [OF assms(2)]) (use that assms(3) in simp)
  have b8: "rd8 h (padd ?p k) = Some (?bs ! k)" if "k < 241" for k
    by (rule rd8_read [OF assms(2)]) (use that assms(3) in simp)
  have byte: "rd8 h ?p = Some (m_op s)" "rd8 h (padd ?p 1) = Some (m_htype s)"
      "rd8 h (padd ?p 2) = Some (m_hlen s)" "rd8 h (padd ?p 3) = Some (m_hops s)"
    using b8 [of 0] b8 [of 1] b8 [of 2] b8 [of 3] by (simp_all add: dhcp_bytes_def)
  have long: "lr32 h (padd ?p 4) = Some (ntohl (m_xid s))" "lr32 h (padd ?p 12) = Some (ntohl (m_ciaddr s))"
      "lr32 h (padd ?p 16) = Some (ntohl (m_yiaddr s))" "lr32 h (padd ?p 20) = Some (ntohl (m_siaddr s))"
      "lr32 h (padd ?p 24) = Some (ntohl (m_giaddr s))"
    by (simp_all add: lr32_read_ntohl br32_read sub) (simp_all add: dhcp_bytes_def)
  have arr: "mem_read h (padd ?p 28) 16 = Some (m_chaddr s)" "mem_read h (padd ?p 44) 64 = Some (m_sname s)"
      "mem_read h (padd ?p 108) 128 = Some (m_file s)"
    by (simp_all add: sub) (simp_all add: dhcp_bytes_def wf)
  obtain a where a: "lr16 h (padd ?p 8) = Some a" by (simp add: lr16_read sub)
  obtain b where b: "lr16 h (padd ?p 10) = Some b" by (simp add: lr16_read sub)
  show ?thesis
    using assms(3)
    by (simp add: dhcp_message_unpack_def Let_def byte byte [unfolded One_nat_def] long arr a b ntohl_of_16 dhcp_read_back_def
        ntohl_htonl [unfolded ntohl_def [symmetric]])
qed

section \<open>Option fields\<close>

text \<open>An option field without padding, as tags with their values.\<close>

type_synonym tlv = "u8 \<times> u8 list"

definition tlv_bytes :: "tlv \<Rightarrow> u8 list" where
  "tlv_bytes o' = fst o' # of_nat (length (snd o')) # snd o'"

definition options_bytes :: "tlv list \<Rightarrow> u8 list" where
  "options_bytes opts = DHCP_OPT_MAGIC @ concat (map tlv_bytes opts) @ [DHCP_OPT_END]"

definition wf_tlv :: "tlv \<Rightarrow> bool" where
  "wf_tlv o' \<longleftrightarrow> fst o' \<noteq> DHCP_OPT_PAD \<and> fst o' \<noteq> DHCP_OPT_END \<and> length (snd o') < 256"

lemma length_magic [simp]: "length DHCP_OPT_MAGIC = 4"
  by (simp add: DHCP_OPT_MAGIC_def)

lemma length_tlv_bytes [simp]: "length (tlv_bytes o') = 2 + length (snd o')"
  by (simp add: tlv_bytes_def)

fun tlv_offset :: "u8 \<Rightarrow> nat \<Rightarrow> tlv list \<Rightarrow> nat option" where
  "tlv_offset code off [] = None"
| "tlv_offset code off (o' # os) =
     (if fst o' = code then Some off else tlv_offset code (off + (2 + length (snd o'))) os)"

lemma option_scan_tlv:
  assumes "mem_read h opt sz = Some (pre @ concat (map tlv_bytes opts) @ DHCP_OPT_END # rest)"
    and "list_all wf_tlv opts" "code \<noteq> DHCP_OPT_END"
  shows "option_scan h opt sz code (length pre) = Some (tlv_offset code (length pre) opts)"
  using assms
proof (induction opts arbitrary: pre)
  case Nil
  have n: "sz = length pre + Suc (length rest)" using mem_read_length [OF Nil(1)] by simp
  have "rd8 h (padd opt (length pre)) = Some DHCP_OPT_END"
    using rd8_read [OF Nil(1), of "length pre"] n by simp
  then show ?case
    using Nil(3) n by (simp add: option_scan.simps [of _ _ _ _ "length pre"] DHCP_OPT_PAD_def DHCP_OPT_END_def)
next
  case (Cons o' os)
  obtain t v where o': "o' = (t, v)" by (cases o')
  have t: "t \<noteq> DHCP_OPT_PAD" "t \<noteq> DHCP_OPT_END" "length v < 256"
    using Cons.prems(2) by (simp_all add: o' wf_tlv_def)
  let ?all = "pre @ concat (map tlv_bytes (o' # os)) @ DHCP_OPT_END # rest"
  have n: "sz = length ?all" using mem_read_length [OF Cons.prems(1)] by simp
  have tag: "rd8 h (padd opt (length pre)) = Some t"
    using rd8_read [OF Cons.prems(1), of "length pre"] n by (simp add: o' tlv_bytes_def)
  have len: "rd8 h (padd opt (Suc (length pre))) = Some (of_nat (length v))"
    using rd8_read [OF Cons.prems(1), of "Suc (length pre)"] n by (simp add: o' tlv_bytes_def nth_append)
  have u: "unat (of_nat (length v) :: u8) = length v"
    using t(3) by (simp add: unat_of_nat)
  have "option_scan h opt sz code (length (pre @ tlv_bytes o')) =
      Some (tlv_offset code (length (pre @ tlv_bytes o')) os)"
    by (rule Cons.IH) (use Cons.prems in simp_all)
  then show ?case
    using t n tag len u
    by (simp add: option_scan.simps [of _ _ _ _ "length pre"] o')
qed

lemma option_find_tlv:
  assumes "mem_read h (m_option m) (m_option_size m) = Some (options_bytes opts @ rest)"
    and "list_all wf_tlv opts" "code \<noteq> DHCP_OPT_END"
  shows "option_find m code h = Some (tlv_offset code 4 opts)"
proof -
  have "4 \<le> m_option_size m"
    using mem_read_length [OF assms(1)] by (simp add: options_bytes_def DHCP_OPT_MAGIC_def)
  then have "mem_read h (m_option m) 4 = Some DHCP_OPT_MAGIC"
    using mem_read_take [OF assms(1), of 4] by (simp add: options_bytes_def DHCP_OPT_MAGIC_def)
  moreover have "option_scan h (m_option m) (m_option_size m) code 4 = Some (tlv_offset code 4 opts)"
    using option_scan_tlv [of h "m_option m" "m_option_size m" DHCP_OPT_MAGIC opts rest code] assms
    by (simp add: options_bytes_def)
  ultimately show ?thesis
    by (simp add: option_find_def lr32_read)
qed

text \<open>Where the first option with a tag is, and what is there.\<close>

definition tlv_find :: "u8 \<Rightarrow> tlv list \<Rightarrow> u8 list option" where
  "tlv_find code opts = map_option snd (find (\<lambda>o'. fst o' = code) opts)"

lemma tlv_find_simps [simp]:
  "tlv_find code [] = None"
  "tlv_find code (o' # os) = (if fst o' = code then Some (snd o') else tlv_find code os)"
  by (simp_all add: tlv_find_def)

lemma tlv_offset_bytes:
  assumes "mem_read h opt sz = Some (pre @ concat (map tlv_bytes opts) @ rest)"
  shows "case tlv_find code opts of None \<Rightarrow> tlv_offset code (length pre) opts = None
    | Some v \<Rightarrow> \<exists>off. tlv_offset code (length pre) opts = Some off \<and>
        mem_read h (padd opt (off + 2)) (length v) = Some v"
  using assms
proof (induction opts arbitrary: pre)
  case Nil
  then show ?case by simp
next
  case (Cons o' os)
  obtain t v where o': "o' = (t, v)" by (cases o')
  show ?case
  proof (cases "t = code")
    case True
    have "length pre + 2 + length v \<le> sz"
      using mem_read_length [OF Cons.prems] by (simp add: o')
    then have "mem_read h (padd opt (length pre + 2)) (length v) = Some v"
      using mem_read_sub [OF Cons.prems, of "length pre + 2" "length v"] by (simp add: o' tlv_bytes_def)
    then show ?thesis using True by (simp add: o')
  next
    case False
    then show ?thesis
      using Cons.IH [of "pre @ tlv_bytes o'"] Cons.prems
      by (simp add: o' add.commute add.left_commute split: option.splits)
  qed
qed

lemma option_find_value:
  assumes "mem_read h (m_option m) (m_option_size m) = Some (options_bytes opts @ rest)"
    and "list_all wf_tlv opts" "code \<noteq> DHCP_OPT_END"
  shows "\<exists>r. option_find m code h = Some r \<and> (case tlv_find code opts of None \<Rightarrow> r = None
    | Some v \<Rightarrow> \<exists>off. r = Some off \<and> mem_read h (padd (m_option m) (off + 2)) (length v) = Some v)"
proof -
  have "mem_read h (m_option m) (m_option_size m) =
      Some (DHCP_OPT_MAGIC @ concat (map tlv_bytes opts) @ DHCP_OPT_END # rest)"
    using assms(1) by (simp add: options_bytes_def)
  from tlv_offset_bytes [OF this, of code] option_find_tlv [OF assms] show ?thesis
    by (simp only: length_magic) simp
qed

lemma dhcp_option_long_value:
  assumes "mem_read h (m_option m) (m_option_size m) = Some (options_bytes opts @ rest)"
    and "list_all wf_tlv opts" "code \<noteq> DHCP_OPT_END"
    and "\<And>v. tlv_find code opts = Some v \<Longrightarrow> length v = 4"
  shows "dhcp_option_long m l code h =
    Some (case tlv_find code opts of None \<Rightarrow> (False, l) | Some v \<Rightarrow> (True, of_be32 v))"
proof (cases "tlv_find code opts")
  case None
  with option_find_value [OF assms(1-3)] show ?thesis by (simp add: dhcp_option_long_def)
next
  case (Some v)
  with option_find_value [OF assms(1-3)] obtain off where "option_find m code h = Some (Some off)"
    "mem_read h (padd (m_option m) (off + 2)) (length v) = Some v" by auto
  then show ?thesis
    using Some assms(4) [OF Some]
    by (simp add: dhcp_option_long_def lr32_read ntohl_def htonl_bytes be32_of_be32)
qed

lemma dhcp_option_message_type_value:
  assumes "mem_read h (m_option m) (m_option_size m) = Some (options_bytes opts @ rest)"
    and "list_all wf_tlv opts"
    and "\<And>v. tlv_find DHCP_OPT_DHCP_MSG_TYPE_TAG opts = Some v \<Longrightarrow> v \<noteq> []"
  shows "dhcp_option_message_type m h =
    Some (case tlv_find DHCP_OPT_DHCP_MSG_TYPE_TAG opts of None \<Rightarrow> - 1 | Some v \<Rightarrow> uint (hd v))"
proof (cases "tlv_find DHCP_OPT_DHCP_MSG_TYPE_TAG opts")
  case None
  with option_find_value [OF assms(1,2), of DHCP_OPT_DHCP_MSG_TYPE_TAG] show ?thesis
    by (simp add: dhcp_option_message_type_def dhcp_opt_defs)
next
  case (Some v)
  with option_find_value [OF assms(1,2), of DHCP_OPT_DHCP_MSG_TYPE_TAG] obtain off where
    off: "option_find m DHCP_OPT_DHCP_MSG_TYPE_TAG h = Some (Some off)"
    "mem_read h (padd (m_option m) (off + 2)) (length v) = Some v" by (auto simp: dhcp_opt_defs)
  have "v \<noteq> []" using assms(3) Some by simp
  then show ?thesis
    using off rd8_read [OF off(2), of 0] Some by (simp add: dhcp_option_message_type_def hd_conv_nth)
qed

end
