(* ===== verification/Dhcp.thy ===== *)
theory Dhcp
  imports Socket Dhcp_Msg
begin

text \<open>
  The DHCP client of \<^verbatim>\<open>dts_net_dhcp.c\<close>: the state of the client, \<^verbatim>\<open>only\<close>, its actions, the
  events that drive it and the loop.  It uses UDP through the socket layer.  The callback
  \<^verbatim>\<open>set_ip\<close> is code of the application: the parameter \<open>call_ip\<close>, given the identity of the
  function and the bytes its pointer leads to.
\<close>

section \<open>State\<close>

datatype dhcp_state = INIT_REBOOT | REBOOTING | INIT | SELECTING | REQUESTING | BOUND | RENEWING | REBINDING

record 'tm dhcp =
  c_state :: dhcp_state
  rx_sk :: int
  tx_sk :: int
  udp_setup :: bool
  c_msg :: dhcp_message
  ethaddr :: "u8 list"
  T1 :: 'tm
  T2 :: 'tm
  c_set_ip :: nat
  start_time :: u32
  c_lease :: u32

record 'tm dhcpw = "'tm sockw" +
  only :: "'tm dhcp"

type_synonym 'w set_ip_call = "nat \<Rightarrow> u8 list \<Rightarrow> 'w \<Rightarrow> 'w option"

definition upd_only :: "('tm dhcp \<Rightarrow> 'tm dhcp) \<Rightarrow> ('tm, 'w) dhcpw_scheme \<Rightarrow> ('tm, 'w) dhcpw_scheme" where
  "upd_only f w = w\<lparr>only := f (only w)\<rparr>"

definition upd_msg :: "(dhcp_message \<Rightarrow> dhcp_message) \<Rightarrow> ('tm, 'w) dhcpw_scheme \<Rightarrow> ('tm, 'w) dhcpw_scheme" where
  "upd_msg f w = upd_only (\<lambda>c. c\<lparr>c_msg := f (c_msg c)\<rparr>) w"

definition DHCP_MSG_TYPE_DISCOVER :: u8 where "DHCP_MSG_TYPE_DISCOVER = 1"
definition DHCP_MSG_TYPE_OFFER :: u8 where "DHCP_MSG_TYPE_OFFER = 2"
definition DHCP_MSG_TYPE_REQUEST :: u8 where "DHCP_MSG_TYPE_REQUEST = 3"
definition DHCP_MSG_TYPE_ACK :: u8 where "DHCP_MSG_TYPE_ACK = 5"
definition DHCP_MESSAGE_FLAG_BROADCAST :: u16 where "DHCP_MESSAGE_FLAG_BROADCAST = push_bit 0 1"
definition DHCP_HTYPE_ETHERNET :: u8 where "DHCP_HTYPE_ETHERNET = 1"
definition DHCP_HLEN_ETHERNET :: u8 where "DHCP_HLEN_ETHERNET = 6"

section \<open>Setting up\<close>

definition dhcp_client_setup ::
  "'tm ext \<Rightarrow> (('tm, 'w) dhcpw_scheme \<Rightarrow> addr option \<times> ('tm, 'w) dhcpw_scheme) \<Rightarrow> cstr \<Rightarrow> ptr \<Rightarrow> nat \<Rightarrow>
   ('tm, 'w) dhcpw_scheme \<Rightarrow> (bool \<times> ('tm, 'w) dhcpw_scheme) option" where
  "dhcp_client_setup E alloc ip eth cb w = do {
     (sk, w) \<leftarrow> socket_create E AF_INET SOCK_DGRAM 0 w;
     a \<leftarrow> inet_addr ip;
     (r, w) \<leftarrow> sock_bind E alloc sk (Some \<lparr>sin_family = of_int AF_INET, sin_port = htons 68, sin_addr = a\<rparr>) w;
     if r \<noteq> 0 then do {
       (_, w) \<leftarrow> sock_close E sk w;
       Some (False, w) }
     else do {
       let w = upd_only (\<lambda>c. c\<lparr>rx_sk := sk\<rparr>) w;
       (tx, w) \<leftarrow> socket_create E AF_INET SOCK_DGRAM 0 w;
       mac \<leftarrow> mem_read w eth 6;
       Some (True, upd_only (\<lambda>c. c\<lparr>tx_sk := tx, ethaddr := mac, T1 := timer_init E, T2 := timer_init E,
         start_time := sys_tick_s w, c_set_ip := cb, udp_setup := True, c_state := INIT\<rparr>) w) } }"

section \<open>Actions\<close>

definition server_addr :: sockaddr_in where
  "server_addr = \<lparr>sin_family = of_int AF_INET, sin_port = htons 67, sin_addr = INADDR_ANY\<rparr>"

text \<open>
  The end of both actions: a buffer of the given size for the message, packing, sending,
  freeing.  The buffer's address stays in the message.
\<close>

definition send_message ::
  "'tm ext \<Rightarrow> (('tm, 'w) dhcpw_scheme) ll_send \<Rightarrow> nat \<Rightarrow> ('tm, 'w) dhcpw_scheme \<Rightarrow>
   (bool \<times> ('tm, 'w) dhcpw_scheme) option" where
  "send_message E ll_send len w = (case malloc_buf len w of (raw, w) \<Rightarrow>
     let w = upd_msg (\<lambda>m. m\<lparr>m_raw_data := raw\<rparr>) w in
     if raw = Null then Some (False, w)
     else do {
       let w = upd_msg (\<lambda>m. m\<lparr>m_raw_data_size := len\<rparr>) w;
       (_, m, w) \<leftarrow> dhcp_message_pack (c_msg (only w)) w;
       let w = upd_msg (\<lambda>_. m) w;
       (tx, w) \<leftarrow> sock_sendto E ll_send (tx_sk (only w)) (m_raw_data m) (m_raw_data_size m) 0 (Some server_addr) w;
       w \<leftarrow> free_buf (m_raw_data (c_msg (only w))) w;
       Some (tx \<noteq> 0, w) })"

definition discover_options :: "u8 list" where
  "discover_options = DHCP_OPT_MAGIC @ [DHCP_OPT_DHCP_MSG_TYPE_TAG, 1, DHCP_MSG_TYPE_DISCOVER, DHCP_OPT_END]"

definition dhcp_client_send_discover ::
  "'tm ext \<Rightarrow> (('tm, 'w) dhcpw_scheme) ll_send \<Rightarrow> ('tm, 'w) dhcpw_scheme \<Rightarrow>
   (bool \<times> ('tm, 'w) dhcpw_scheme) option" where
  "dhcp_client_send_discover E ll_send w = do {
     (options, w) \<leftarrow> Some (new_buf discover_options w);
     (xid, w) \<leftarrow> Some (C_rand w);
     let w = upd_msg (\<lambda>_. dhcp_message_init\<lparr>m_op := BOOTREQUEST, m_htype := DHCP_HTYPE_ETHERNET,
       m_hlen := DHCP_HLEN_ETHERNET, m_xid := of_int xid, m_secs := ucast (sys_tick_s w - start_time (only w)),
       m_flags := DHCP_MESSAGE_FLAG_BROADCAST,
       m_chaddr := splice_at (m_chaddr dhcp_message_init) 0 (ethaddr (only w)),
       m_option := options, m_option_size := 8\<rparr>) w;
     (r, w) \<leftarrow> send_message E ll_send 576 w;
     w \<leftarrow> pop_buf options w;
     Some (r, w) }"

definition request_options :: "u32 \<Rightarrow> u32 \<Rightarrow> u8 list" where
  "request_options sid yip = DHCP_OPT_MAGIC @ [DHCP_OPT_DHCP_MSG_TYPE_TAG, 1, DHCP_MSG_TYPE_REQUEST] @
     [DHCP_OPT_SERVER_IDENTIFIER_TAG, 4] @ rev (be32 sid) @
     [DHCP_OPT_REQUEST_IP_ADDR_TAG, 4] @ rev (be32 yip) @ [DHCP_OPT_END]"

definition dhcp_client_send_request ::
  "'tm ext \<Rightarrow> (('tm, 'w) dhcpw_scheme) ll_send \<Rightarrow> ('tm, 'w) dhcpw_scheme \<Rightarrow>
   (bool \<times> ('tm, 'w) dhcpw_scheme) option" where
  "dhcp_client_send_request E ll_send w = do {
     (found, sid) \<leftarrow> dhcp_option_server_identifier (c_msg (only w)) 0 w;
     if \<not> found then Some (False, w)
     else do {
       let opts = request_options (htonl sid) (htonl (m_yiaddr (c_msg (only w))));
       (options, w) \<leftarrow> Some (new_buf opts w);
       let w = upd_msg (\<lambda>m. m\<lparr>m_op := BOOTREQUEST, m_secs := ucast (sys_tick_s w - start_time (only w)),
         m_flags := DHCP_MESSAGE_FLAG_BROADCAST,
         m_chaddr := splice_at (m_chaddr m) 0 (ethaddr (only w)),
         m_option := options, m_option_size := length opts\<rparr>) w;
       (r, w) \<leftarrow> send_message E ll_send 1024 w;
       w \<leftarrow> pop_buf options w;
       Some (r, w) } }"

section \<open>Events\<close>

definition start_T1 :: "'tm ext \<Rightarrow> nat \<Rightarrow> ('tm, 'w) dhcpw_scheme \<Rightarrow> ('tm, 'w) dhcpw_scheme" where
  "start_T1 E n w = upd_only (\<lambda>c. c\<lparr>T1 := timer_start E (sys_tick_s w) n (T1 c)\<rparr>) w"

definition start_T2 :: "'tm ext \<Rightarrow> nat \<Rightarrow> ('tm, 'w) dhcpw_scheme \<Rightarrow> ('tm, 'w) dhcpw_scheme" where
  "start_T2 E n w = upd_only (\<lambda>c. c\<lparr>T2 := timer_start E (sys_tick_s w) n (T2 c)\<rparr>) w"

definition set_state :: "dhcp_state \<Rightarrow> ('tm, 'w) dhcpw_scheme \<Rightarrow> ('tm, 'w) dhcpw_scheme" where
  "set_state s w = upd_only (\<lambda>c. c\<lparr>c_state := s\<rparr>) w"

definition dhcp_client_start ::
  "'tm ext \<Rightarrow> (('tm, 'w) dhcpw_scheme) ll_send \<Rightarrow> ('tm, 'w) dhcpw_scheme \<Rightarrow> ('tm, 'w) dhcpw_scheme option" where
  "dhcp_client_start E ll_send w =
     (if udp_setup (only w) then
        (case c_state (only w) of
           INIT \<Rightarrow> do {
             (_, w) \<leftarrow> dhcp_client_send_discover E ll_send w;
             Some (set_state SELECTING (start_T1 E 3 w)) }
         | _ \<Rightarrow> Some w)
      else Some w)"

definition dhcp_client_timeout ::
  "'tm ext \<Rightarrow> (('tm, 'w) dhcpw_scheme) ll_send \<Rightarrow> ('tm, 'w) dhcpw_scheme \<Rightarrow> ('tm, 'w) dhcpw_scheme option" where
  "dhcp_client_timeout E ll_send w = (
     let resend = (\<lambda>w. do {
           (_, w) \<leftarrow> dhcp_client_send_request E ll_send w;
           Some (start_T1 E 5 w) });
         T2_over = timer_expired E (sys_tick_s w) (T2 (only w))
     in if udp_setup (only w) then
        (case c_state (only w) of
           INIT \<Rightarrow> do {
             (_, w) \<leftarrow> dhcp_client_send_discover E ll_send w;
             Some (start_T1 E 5 w) }
         | REQUESTING \<Rightarrow> resend w
         | BOUND \<Rightarrow> Some (set_state RENEWING (start_T1 E 1 w))
         | RENEWING \<Rightarrow>
             if \<not> T2_over then resend w
             else Some (set_state REBINDING (start_T2 E (unat (c_lease (only w)) div 8) (start_T1 E 1 w)))
         | REBINDING \<Rightarrow>
             if \<not> T2_over then resend w
             else Some (set_state INIT (upd_only (\<lambda>c. c\<lparr>T1 := timer_stop E (T1 c), T2 := timer_stop E (T2 c)\<rparr>) w))
         | _ \<Rightarrow> Some w)
      else Some w)"

text \<open>\<^verbatim>\<open>op != BOOTREPLY || dhcp_option_message_type(...) != type\<close>, negated.\<close>

definition is_reply :: "u8 \<Rightarrow> ('tm, 'w) dhcpw_scheme \<Rightarrow> bool option" where
  "is_reply ty w = (let m = c_msg (only w) in
     if m_op m \<noteq> BOOTREPLY then Some False
     else map_option (\<lambda>t. t = uint ty) (dhcp_option_message_type m w))"

definition dhcp_client_received ::
  "'tm ext \<Rightarrow> (('tm, 'w) dhcpw_scheme) ll_send \<Rightarrow> (('tm, 'w) dhcpw_scheme) set_ip_call \<Rightarrow>
   ('tm, 'w) dhcpw_scheme \<Rightarrow> ('tm, 'w) dhcpw_scheme option" where
  "dhcp_client_received E ll_send call_ip w = (
     let ack = do {
           (ok, m) \<leftarrow> dhcp_message_unpack (c_msg (only w)) w;
           let w = upd_msg (\<lambda>_. m) w;
           if \<not> ok then Some w
           else do {
             reply \<leftarrow> is_reply DHCP_MSG_TYPE_ACK w;
             if \<not> reply then Some (start_T1 E 5 w)
             else do {
               (found, lease) \<leftarrow> dhcp_option_ip_lease_time m (c_lease (only w)) w;
               let w = upd_only (\<lambda>c. c\<lparr>c_lease := lease\<rparr>) w;
               let w = (if found then start_T2 E (7 * unat lease div 8) (start_T1 E (unat lease div 2) w) else w);
               Some (set_state BOUND w) } } }
     in case c_state (only w) of
       SELECTING \<Rightarrow> do {
         (ok, m) \<leftarrow> dhcp_message_unpack (c_msg (only w)) w;
         let w = upd_msg (\<lambda>_. m) w;
         if \<not> ok then Some w
         else do {
           reply \<leftarrow> is_reply DHCP_MSG_TYPE_OFFER w;
           if \<not> reply then Some (start_T1 E 5 w)
           else do {
             w \<leftarrow> call_ip (c_set_ip (only w)) (rev (be32 (htonl (m_yiaddr m)))) w;
             (_, w) \<leftarrow> dhcp_client_send_request E ll_send w;
             Some (set_state REQUESTING (start_T1 E 5 w)) } } }
     | REQUESTING \<Rightarrow> ack | RENEWING \<Rightarrow> ack | REBINDING \<Rightarrow> ack
     | _ \<Rightarrow> Some w)"

section \<open>The loop\<close>

definition dhcp_receive ::
  "'tm ext \<Rightarrow> (('tm, 'w) dhcpw_scheme) ll_send \<Rightarrow> (('tm, 'w) dhcpw_scheme) set_ip_call \<Rightarrow>
   ('tm, 'w) dhcpw_scheme \<Rightarrow> ('tm, 'w) dhcpw_scheme option" where
  "dhcp_receive E ll_send call_ip w = (case malloc_buf 1024 w of (raw, w) \<Rightarrow>
     let w = upd_msg (\<lambda>m. m\<lparr>m_raw_data := raw\<rparr>) w in
     if raw = Null then Some w
     else do {
       (n, w) \<leftarrow> sock_recvfrom E (rx_sk (only w)) raw 1024 MSG_DONTWAIT w;
       let w = upd_msg (\<lambda>m. m\<lparr>m_raw_data_size := unat (of_int n :: u32)\<rparr>) w;
       w \<leftarrow> (if m_raw_data_size (c_msg (only w)) > 0 then dhcp_client_received E ll_send call_ip w else Some w);
       free_buf (m_raw_data (c_msg (only w))) w })"

definition dhcp_loop ::
  "'tm ext \<Rightarrow> (('tm, 'w) dhcpw_scheme) ll_send \<Rightarrow> (('tm, 'w) dhcpw_scheme) set_ip_call \<Rightarrow>
   ('tm, 'w) dhcpw_scheme \<Rightarrow> ('tm, 'w) dhcpw_scheme option" where
  "dhcp_loop E ll_send call_ip w = do {
     w \<leftarrow> (if timer_expired E (sys_tick_s w) (T1 (only w))
       then dhcp_client_timeout E ll_send (upd_only (\<lambda>c. c\<lparr>T1 := timer_stop E (T1 c)\<rparr>) w) else Some w);
     w \<leftarrow> (if timer_expired E (sys_tick_s w) (T2 (only w))
       then dhcp_client_timeout E ll_send (upd_only (\<lambda>c. c\<lparr>T2 := timer_stop E (T2 c)\<rparr>) w) else Some w);
     if udp_setup (only w) then dhcp_receive E ll_send call_ip w else Some w }"

definition dhcp_client_completed :: "('tm, 'w) dhcpw_scheme \<Rightarrow> bool" where
  "dhcp_client_completed w \<longleftrightarrow>
     c_state (only w) = BOUND \<or> c_state (only w) = RENEWING \<or> c_state (only w) = REBINDING"

end
