(* ===== verification/Tcp_Inv.thy ===== *)
theory Tcp_Inv
  imports Tcp_Events
begin

text \<open>
  What an event may change in a connection.  \<open>core\<close> collects the fields that sending
  never touches; the handlers change the state only along the edges of \<open>tcp_edge\<close>.
\<close>

section \<open>Sending leaves the connection alone\<close>

definition core :: "'tm tcb \<Rightarrow> tcp_state \<times> bool \<times> addr \<times> u32 \<times> u16 \<times> u32 \<times> nat \<times> addr list" where
  "core t = (t_state t, t_passive t, localhost t, t_port t, rcv_wnd t, snd_iss t,
     time_wait_seconds t, rx_segs t)"

lemma core_upd [simp]:
  "core (t\<lparr>snd_nxt := a\<rparr>) = core t" "core (t\<lparr>snd_una := a\<rparr>) = core t" "core (t\<lparr>rcv_nxt := a\<rparr>) = core t"
  "core (t\<lparr>rcv_irs := a\<rparr>) = core t" "core (t\<lparr>tx_seg := x\<rparr>) = core t" "core (t\<lparr>tx_data := q\<rparr>) = core t"
  "core (t\<lparr>rx_data := q\<rparr>) = core t" "core (t\<lparr>tmr := m\<rparr>) = core t" "core (t\<lparr>t_dest := d\<rparr>) = core t"
  "core (t\<lparr>t_dest_port := p\<rparr>) = core t"
  by (simp_all add: core_def)

lemma core_state: "core t = core t' \<Longrightarrow> t_state t = t_state t'"
  by (simp add: core_def)

lemma tcp_pack_fields:
  "tcp_pack seg ph h = Some (ok, seg', h') \<Longrightarrow> \<exists>c. seg' = seg\<lparr>sg_checksum := c\<rparr>"
proof -
  assume "tcp_pack seg ph h = Some (ok, seg', h')"
  then have "seg' = seg \<or> (\<exists>c. seg' = seg\<lparr>sg_checksum := c\<rparr>)"
    unfolding tcp_pack_def by (force simp: bind_Some_iff Let_def split: if_splits)
  moreover have "seg = seg\<lparr>sg_checksum := sg_checksum seg\<rparr>" by simp
  ultimately show ?thesis by blast
qed

definition flag_count :: "u16 \<Rightarrow> nat" where
  "flag_count f = (if f AND SEG_FLAG_SYN \<noteq> 0 then 1 else 0) + (if f AND SEG_FLAG_FIN \<noteq> 0 then 1 else 0)"

lemma tcp_send_ctrl_seg_tcb:
  assumes "tcp_send_ctrl_seg ll_send t seq ack flags w = Some (ok, t', w')"
  shows "t' = (if ok then t\<lparr>snd_nxt := snd_nxt t + of_nat (flag_count flags)\<rparr> else t)"
  using assms
  by (auto simp: tcp_send_ctrl_seg_def bind_Some_iff tcp_segment_length_def ctrl_seg_def
      tcp_segment_init_def flag_count_def seg_ctrl_defs pseudo_header_new_eq
      dblk_node_new_from_stack_with_buff_eq dest!: tcp_pack_fields)

lemma ctrl_core: "tcp_send_ctrl_seg ll_send t seq ack flags w = Some (ok, t', w') \<Longrightarrow> core t' = core t"
  by (auto dest!: tcp_send_ctrl_seg_tcb)

lemma complete_core: "tcp_tx_seg_complete E t w = Some (t', w') \<Longrightarrow> core t' = core t \<and> tx_seg t' = None"
  by (auto simp: tcp_tx_seg_complete_def bind_Some_iff split: option.splits)

lemma retransmit_tcb:
  "tcp_retransmit E ll_send t w = Some (t', w') \<Longrightarrow> \<exists>m. t' = t\<lparr>tmr := m\<rparr>"
  by (auto simp: tcp_retransmit_def bind_Some_iff)

lemma tcp_pack_newE:
  assumes "tcp_pack_new t seg w k = Some (t', w')"
  obtains seg' w1 w2 where "k seg' w1 = Some (t', w2)" "sg_flags seg' = sg_flags seg"
    "sg_seq seg' = sg_seq seg" "sg_payload seg' = sg_payload seg"
  using assms
  by (auto simp: tcp_pack_new_def bind_Some_iff pseudo_header_new_eq dest!: tcp_pack_fields)

lemma construct_data_core:
  assumes "tcp_construct_data E ll_send t w = Some (t', w')"
  shows "core t' = core t"
  using assms unfolding tcp_construct_data_def
  by (auto simp: bind_Some_iff Let_def split: if_splits prod.splits option.splits elim!: tcp_pack_newE)

lemma fin_ack_core:
  assumes "tcp_contruct_fin_ack E t w = Some (t', w')"
  shows "core t' = core t"
  using assms unfolding tcp_contruct_fin_ack_def
  by (auto simp: bind_Some_iff Let_def split: if_splits prod.splits option.splits elim!: tcp_pack_newE)

lemma handle_ack_core:
  assumes "tcp_handle_ack_of_data E ll_send t a w = Some (ok, t', w')"
  shows "core t' = core t"
  using assms unfolding tcp_handle_ack_of_data_def
  by (auto simp: bind_Some_iff split: if_splits dest!: complete_core construct_data_core)

lemma handle_data_core:
  assumes "tcp_handle_data E ll_send t a w = Some (ok, t', w')"
  shows "core t' = core t"
  using assms unfolding tcp_handle_data_def
  by (auto simp: bind_Some_iff Let_def split: if_splits option.splits dest!: ctrl_core)

lemma handle_fin_core:
  assumes "tcp_handle_fin_ack ll_send t a w = Some (ok, t', w')"
  shows "core t' = core t"
  using assms unfolding tcp_handle_fin_ack_def
  by (auto simp: Let_def split: if_splits dest!: ctrl_core)

lemma handle_ack_fin_core:
  assumes "tcp_handle_ack_of_fin_ack E t a w = Some (ok, t', w')"
  shows "core t' = core t \<and> (ok \<longrightarrow> tx_seg t' = None)"
  using assms unfolding tcp_handle_ack_of_fin_ack_def
  by (auto simp: bind_Some_iff split: if_splits option.splits dest!: complete_core)

lemma process_seq_core:
  assumes "process_received_seq ll_send t a w = Some (ok, t', w')"
  shows "core t' = core t"
  using assms unfolding process_received_seq_def
  by (auto simp: bind_Some_iff Let_def split: if_splits dest!: ctrl_core)

lemma next_seg_tcb:
  "next_seg E t w = Some (p, t') \<Longrightarrow> t' = t\<lparr>rx_segs := snd (list_dequeue E (rx_segs t))\<rparr>"
  by (auto simp: next_seg_def bind_Some_iff Let_def split: prod.splits option.splits)

section \<open>The segment in flight\<close>

definition txf :: "'tm tcb \<Rightarrow> u16 option" where
  "txf t = map_option sg_flags (tx_seg t)"

lemma txf_upd [simp]:
  "txf (t\<lparr>snd_nxt := a\<rparr>) = txf t" "txf (t\<lparr>snd_una := a\<rparr>) = txf t" "txf (t\<lparr>rcv_nxt := a\<rparr>) = txf t"
  "txf (t\<lparr>rcv_irs := a\<rparr>) = txf t" "txf (t\<lparr>tx_seg := x\<rparr>) = map_option sg_flags x"
  "txf (t\<lparr>tx_data := q\<rparr>) = txf t" "txf (t\<lparr>rx_data := q\<rparr>) = txf t" "txf (t\<lparr>rx_segs := q\<rparr>) = txf t"
  "txf (t\<lparr>tmr := m\<rparr>) = txf t" "txf (t\<lparr>t_dest := d\<rparr>) = txf t" "txf (t\<lparr>t_dest_port := p\<rparr>) = txf t"
  "txf (t\<lparr>t_state := s\<rparr>) = txf t" "txf (t\<lparr>time_wait_seconds := n\<rparr>) = txf t"
  by (simp_all add: txf_def)

lemma txf_tx: "tx_seg t = Some s \<Longrightarrow> txf t = Some (sg_flags s)" "tx_seg t = None \<Longrightarrow> txf t = None"
  by (simp_all add: txf_def)

lemma ctrl_txf: "tcp_send_ctrl_seg ll_send t seq ack flags w = Some (ok, t', w') \<Longrightarrow> txf t' = txf t"
  by (auto dest!: tcp_send_ctrl_seg_tcb)

lemma complete_txf: "tcp_tx_seg_complete E t w = Some (t', w') \<Longrightarrow> txf t' = None"
  by (auto simp: tcp_tx_seg_complete_def bind_Some_iff txf_def split: option.splits)

lemma construct_data_txf:
  assumes "tcp_construct_data E ll_send t w = Some (t', w')"
  shows "txf t' = txf t \<or> txf t' = Some SEG_FLAG_ACK"
  using assms unfolding tcp_construct_data_def mem_alloc_tcp_segment_def
  by (auto simp: bind_Some_iff Let_def tcp_segment_init_def
      split: if_splits prod.splits option.splits elim!: tcp_pack_newE)

lemma fin_ack_txf:
  assumes "tcp_contruct_fin_ack E t w = Some (t', w')"
  shows "txf t' = txf t \<or> txf t' = Some (SEG_FLAG_FIN OR SEG_FLAG_ACK)"
  using assms unfolding tcp_contruct_fin_ack_def mem_alloc_tcp_segment_def
  by (auto simp: bind_Some_iff Let_def tcp_segment_init_def
      split: if_splits prod.splits option.splits elim!: tcp_pack_newE)

lemma handle_ack_txf:
  assumes "tcp_handle_ack_of_data E ll_send t a w = Some (ok, t', w')"
  shows "txf t' \<in> {txf t, None, Some SEG_FLAG_ACK}"
  using assms unfolding tcp_handle_ack_of_data_def
  by (auto simp: bind_Some_iff split: if_splits dest!: complete_txf construct_data_txf)

lemma handle_data_txf:
  assumes "tcp_handle_data E ll_send t a w = Some (ok, t', w')"
  shows "txf t' = txf t"
  using assms unfolding tcp_handle_data_def
  by (auto simp: bind_Some_iff Let_def txf_tx split: if_splits option.splits dest!: ctrl_txf)

lemma handle_fin_txf:
  assumes "tcp_handle_fin_ack ll_send t a w = Some (ok, t', w')"
  shows "txf t' = txf t"
  using assms unfolding tcp_handle_fin_ack_def
  by (auto simp: Let_def split: if_splits dest!: ctrl_txf)

lemma handle_ack_fin_txf:
  assumes "tcp_handle_ack_of_fin_ack E t a w = Some (ok, t', w')"
  shows "if ok then txf t' = None else t' = t"
  using assms unfolding tcp_handle_ack_of_fin_ack_def
  by (auto simp: bind_Some_iff split: if_splits option.splits dest!: complete_txf)

lemma process_seq_txf:
  assumes "process_received_seq ll_send t a w = Some (ok, t', w')"
  shows "txf t' = txf t"
  using assms unfolding process_received_seq_def
  by (auto simp: bind_Some_iff Let_def split: if_splits dest!: ctrl_txf)

lemma retransmit_txf: "tcp_retransmit E ll_send t w = Some (t', w') \<Longrightarrow> txf t' = txf t \<and> core t' = core t"
  by (auto dest!: retransmit_tcb)

section \<open>The invariant of a connection\<close>

definition is_fin :: "u16 \<Rightarrow> bool" where "is_fin f \<longleftrightarrow> f AND SEG_FLAG_FIN \<noteq> 0"
definition is_syn :: "u16 \<Rightarrow> bool" where "is_syn f \<longleftrightarrow> f AND SEG_FLAG_SYN \<noteq> 0"

lemma flag_tests [simp]:
  "\<not> is_fin SEG_FLAG_ACK" "\<not> is_syn SEG_FLAG_ACK" "\<not> is_syn (SEG_FLAG_FIN OR SEG_FLAG_ACK)"
  "is_syn SEG_FLAG_SYN" "\<not> is_fin SEG_FLAG_SYN" "is_fin (SEG_FLAG_FIN OR SEG_FLAG_ACK)"
  by (simp_all add: is_fin_def is_syn_def seg_flag_defs)

fun st_ok :: "tcp_state \<Rightarrow> bool \<Rightarrow> u16 option \<Rightarrow> bool" where
  "st_ok LISTEN p f = (p \<and> f = None)"
| "st_ok SYN_SENT p f = (\<not> p \<and> (\<exists>x. f = Some x \<and> is_syn x \<and> \<not> is_fin x))"
| "st_ok SYN_RECEIVED p f = (p \<and> f = None)"
| "st_ok ESTABLISHED p f = (\<forall>x. f = Some x \<longrightarrow> \<not> is_syn x \<and> \<not> is_fin x)"
| "st_ok FIN_WAIT_1 p f = (\<forall>x. f = Some x \<longrightarrow> \<not> is_syn x)"
| "st_ok FIN_WAIT_2 p f = (f = None)"
| "st_ok TIME_WAIT p f = (f = None)"
| "st_ok CLOSE_WAIT p f = (\<forall>x. f = Some x \<longrightarrow> \<not> is_syn x \<and> \<not> is_fin x)"
| "st_ok LAST_ACK p f = (\<forall>x. f = Some x \<longrightarrow> \<not> is_syn x)"
| "st_ok CLOSING p f = False"
| "st_ok CLOSED p f = True"

definition conn_ok :: "'tm tcb \<Rightarrow> bool" where
  "conn_ok t \<longleftrightarrow> st_ok (t_state t) (t_passive t) (txf t) \<and> rcv_wnd t = 1500"

lemma conn_ok_same: "conn_ok t \<Longrightarrow> core t' = core t \<Longrightarrow> txf t' = txf t \<Longrightarrow> conn_ok t'"
  by (simp add: conn_ok_def core_def)

fun recv_edges :: "tcp_state \<Rightarrow> tcp_state set" where
  "recv_edges LISTEN = {SYN_RECEIVED}"
| "recv_edges SYN_SENT = {ESTABLISHED, CLOSED}"
| "recv_edges SYN_RECEIVED = {LISTEN, CLOSED, ESTABLISHED, CLOSE_WAIT}"
| "recv_edges ESTABLISHED = {CLOSE_WAIT}"
| "recv_edges FIN_WAIT_1 = {FIN_WAIT_2}"
| "recv_edges FIN_WAIT_2 = {TIME_WAIT}"
| "recv_edges LAST_ACK = {CLOSED}"
| "recv_edges _ = {}"

text \<open>The shape of a handler's effect: along an edge, or staying, and keeping the invariant.\<close>

definition good_move :: "'tm tcb \<Rightarrow> 'tm tcb \<Rightarrow> bool" where
  "good_move t t' \<longleftrightarrow> (t_state t' = t_state t \<or> t_state t' \<in> recv_edges (t_state t)) \<and>
     t_passive t' = t_passive t \<and> localhost t' = localhost t \<and> t_port t' = t_port t \<and>
     (conn_ok t \<longrightarrow> conn_ok t')"

lemma good_moveI:
  assumes "core t' = core t" "txf t' = txf t"
  shows "good_move t t'"
  using assms conn_ok_same [of t t'] by (simp add: good_move_def core_def)

text \<open>Both halves of what a helper does, for use as destruction rules.\<close>

lemma ctrl_eff: "tcp_send_ctrl_seg ll_send t seq ack flags w = Some (ok, t', w') \<Longrightarrow>
    core t' = core t \<and> txf t' = txf t"
  using ctrl_core ctrl_txf by blast

lemma process_seq_eff: "process_received_seq ll_send t a w = Some (ok, t', w') \<Longrightarrow>
    core t' = core t \<and> txf t' = txf t"
  using process_seq_core process_seq_txf by blast

lemma handle_fin_eff: "tcp_handle_fin_ack ll_send t a w = Some (ok, t', w') \<Longrightarrow>
    core t' = core t \<and> txf t' = txf t"
  using handle_fin_core handle_fin_txf by blast

lemma handle_data_eff: "tcp_handle_data E ll_send t a w = Some (ok, t', w') \<Longrightarrow>
    core t' = core t \<and> txf t' = txf t"
  using handle_data_core handle_data_txf by blast

lemma handle_ack_eff: "tcp_handle_ack_of_data E ll_send t a w = Some (ok, t', w') \<Longrightarrow>
    core t' = core t \<and> txf t' \<in> {txf t, None, Some SEG_FLAG_ACK}"
  using handle_ack_core handle_ack_txf by blast

lemma complete_eff: "tcp_tx_seg_complete E t w = Some (t', w') \<Longrightarrow> core t' = core t \<and> txf t' = None"
  using complete_core complete_txf by blast

lemma fin_ack_eff: "tcp_contruct_fin_ack E t w = Some (t', w') \<Longrightarrow>
    core t' = core t \<and> (txf t' = txf t \<or> txf t' = Some (SEG_FLAG_FIN OR SEG_FLAG_ACK))"
  using fin_ack_core fin_ack_txf by blast

lemma next_seg_effect:
  "next_seg E t w = Some (p, t') \<Longrightarrow> t_state t' = t_state t \<and> t_passive t' = t_passive t \<and>
     localhost t' = localhost t \<and> t_port t' = t_port t \<and> rcv_wnd t' = rcv_wnd t \<and> txf t' = txf t"
  by (drule next_seg_tcb) simp

lemma good_move_next:
  assumes "next_seg E t w = Some (p, t1)" "good_move t1 t'"
  shows "good_move t t'"
  using assms(2) next_seg_effect [OF assms(1)] by (auto simp: good_move_def conn_ok_def)

lemma good_move_after:
  assumes "core t1 = core t" "txf t1 = txf t" "good_move t1 t'"
  shows "good_move t t'"
  using assms by (auto simp: good_move_def core_def conn_ok_def)

lemma good_move_state:
  assumes "core t1 = core t" "txf t1 = txf t" "s \<in> recv_edges (t_state t)"
    and "st_ok (t_state t) (t_passive t) (txf t) \<Longrightarrow> st_ok s (t_passive t) (txf t)"
  shows "good_move t (t1\<lparr>t_state := s\<rparr>)"
  using assms by (auto simp: good_move_def core_def conn_ok_def)

lemma listen_syn_move:
  assumes "listen_syn ll_send t seg w = Some (t', w')" "t_state t = LISTEN"
  shows "good_move t t'"
  using assms unfolding listen_syn_def
  by (auto simp: bind_Some_iff Let_def good_moveI split: if_splits dest!: ctrl_eff
      intro!: good_move_state)

lemma listen_move:
  assumes "listen_seg ll_send t seg w = Some (t', w')" "t_state t = LISTEN"
  shows "good_move t t'"
proof -
  have "good_move t t'" if r: "listen_syn ll_send t1 seg w1 = Some (t', w')"
    and e: "core t1 = core t" "txf t1 = txf t" for t1 w1
    using listen_syn_move [OF r] core_state [OF e(1)] assms(2) good_move_after [OF e] by simp
  then show ?thesis
    using assms(1) unfolding listen_seg_def
    by (auto simp: bind_Some_iff good_moveI split: if_splits dest!: ctrl_eff)
qed

lemma good_move_dequeue:
  assumes "do { (p, t1) \<leftarrow> next_seg E t w; f p t1 } = Some (t', w')"
    and "\<And>p t1. f p t1 = Some (t', w') \<Longrightarrow> t_state t1 = t_state t \<Longrightarrow> good_move t1 t'"
  shows "good_move t t'"
proof -
  from assms(1) obtain p t1 where p: "next_seg E t w = Some (p, t1)" and f: "f p t1 = Some (t', w')"
    by (auto simp: bind_Some_iff)
  have "good_move t1 t'" using f next_seg_effect [OF p] by (intro assms(2)) auto
  then show ?thesis by (rule good_move_next [OF p])
qed

lemma listen_received:
  assumes "received_when_listen E ll_send t w = Some (t', w')" "t_state t = LISTEN"
  shows "good_move t t'"
  using assms unfolding received_when_listen_def
  by (elim good_move_dequeue) (auto simp: good_moveI split: option.splits intro: listen_move)

lemma syn_sent_received:
  assumes "received_when_syn_sent E ll_send t w = Some (t', w')" "t_state t = SYN_SENT"
  shows "good_move t t'"
proof -
  have est: "good_move t0 t2" if "tcp_tx_seg_complete E (t1\<lparr>t_state := ESTABLISHED\<rparr>) w1 = Some (t2, w2)"
    "core t1 = core t0" "t_state t0 = SYN_SENT" for t0 t1 t2 w1 w2
    using complete_eff [OF that(1)] that(2,3) by (auto simp: good_move_def core_def conn_ok_def)
  have ack: "good_move t0 t2" if "syn_sent_ack E ll_send t0 seg w1 = Some (t2, w2)" "t_state t0 = SYN_SENT"
    for t0 t2 seg w1 w2
    using that unfolding syn_sent_ack_def
    by (auto simp: bind_Some_iff Let_def good_moveI split: if_splits dest!: ctrl_eff
        intro!: good_move_state intro: est)
  show ?thesis
    using assms unfolding received_when_syn_sent_def
    by (elim good_move_dequeue)
       (auto simp: good_moveI bind_Some_iff split: option.splits if_splits dest!: ctrl_eff intro: ack)
qed

lemma syn_received_received:
  assumes "received_when_syn_received E ll_send t w = Some (t', w')" "t_state t = SYN_RECEIVED"
  shows "good_move t t'"
proof -
  have st: "good_move t0 (t1\<lparr>t_state := s\<rparr>)"
    if "core t1 = core t0" "txf t1 = txf t0" "t_state t0 = SYN_RECEIVED"
      "s = ESTABLISHED \<or> s = CLOSE_WAIT \<or> s = CLOSED \<or> (s = LISTEN \<and> t_passive t1)" for t0 t1 s
    using that by (auto simp: good_move_def core_def conn_ok_def)
  have ack: "good_move t1 t2 \<and> good_move t1 (t2\<lparr>t_state := CLOSE_WAIT\<rparr>)"
    if "syn_received_ack ll_send t1 seg w1 = Some (t2, w2)" "t_state t1 = SYN_RECEIVED" for t1 t2 seg w1 w2
    using that unfolding syn_received_ack_def
    by (auto simp: good_moveI bind_Some_iff good_move_def core_def conn_ok_def
        split: if_splits dest!: ctrl_eff)
  have rest: "good_move t0 t2"
    if "process_received_seq ll_send t0 seg w0 = Some (ok, t1, w1)" "t_state t0 = SYN_RECEIVED"
      "(if \<not> ok then Some (t1, w1)
         else if SEG_CTRL_R seg then
           Some (t1\<lparr>t_state := (if t_passive t1 then LISTEN else CLOSED)\<rparr>, w1)
         else if SEG_CTRL_A seg then do {
           (t, w) \<leftarrow> syn_received_ack ll_send t1 seg w1;
           Some (if SEG_CTRL_F seg then t\<lparr>t_state := CLOSE_WAIT\<rparr> else t, w) }
         else Some (t1, w1)) = Some (t2, w2)" for t0 t1 t2 seg w0 w1 w2 ok
  proof -
    have e: "core t1 = core t0" "txf t1 = txf t0" using process_seq_eff [OF that(1)] by simp_all
    then have s1: "t_state t1 = SYN_RECEIVED" using that(2) by (simp add: core_def)
    have "good_move t1 t2"
      using that(3) s1
      by (auto simp: good_moveI bind_Some_iff split: if_splits dest: ack intro: st)
    then show ?thesis by (rule good_move_after [OF e])
  qed
  show ?thesis
    using assms unfolding received_when_syn_received_def
    by (elim good_move_dequeue)
       (auto simp: good_moveI bind_Some_iff simp del: if_split split: option.splits intro: rest)
qed

lemma good_move_same_state:
  assumes "good_move t t1" "t_state t1 = t_state t" "good_move t1 t'"
  shows "good_move t t'"
  using assms by (auto simp: good_move_def)

lemma ack_of_data_move:
  assumes "tcp_handle_ack_of_data E ll_send t seg w = Some (ok, t', w')"
    and "t_state t \<in> {ESTABLISHED, FIN_WAIT_1, LAST_ACK}"
  shows "good_move t t' \<and> t_state t' = t_state t"
  using handle_ack_eff [OF assms(1)] assms(2)
  by (auto simp: good_move_def core_def conn_ok_def)

lemma established_received:
  assumes "received_when_established E ll_send t w = Some (t', w')" "t_state t = ESTABLISHED"
  shows "good_move t t'"
proof -
  have ack: "good_move t1 t2 \<and> t_state t2 = ESTABLISHED"
    if "established_ack E ll_send t1 seg w1 = Some (t2, w2)" "t_state t1 = ESTABLISHED" for t1 t2 seg w1 w2
  proof -
    note prem = that
    have "t_state t1 \<in> {ESTABLISHED, FIN_WAIT_1, LAST_ACK}" using prem(2) by simp
    note data = ack_of_data_move [OF _ this]
    obtain fin where fin: "(if \<not> fin then do {
          (_, t, w) \<leftarrow> tcp_handle_ack_of_data E ll_send t1 seg w1; Some (t, w) }
        else Some (t1, w1)) = Some (t2, w2)"
      using prem(1) by (auto simp: established_ack_def bind_Some_iff)
    show ?thesis
    proof (cases fin)
      case True
      with fin prem(2) show ?thesis by (simp add: good_moveI)
    next
      case False
      with fin obtain ok where "tcp_handle_ack_of_data E ll_send t1 seg w1 = Some (ok, t2, w2)"
        by (auto simp: bind_Some_iff)
      from data [OF this] prem(2) show ?thesis by simp
    qed
  qed
  have body: "good_move t2 t3"
    if "established_text E ll_send t2 seg w2 = Some (t3, w3)" "t_state t2 = ESTABLISHED" for t2 t3 seg w2 w3
  proof -
    note prem = that
    obtain ok t4 w4 where d: "tcp_handle_data E ll_send t2 seg w2 = Some (ok, t4, w4)"
      and r: "(if SEG_CTRL_F seg then do {
           (_, t, w) \<leftarrow> tcp_handle_fin_ack ll_send t4 seg w4;
           Some (t\<lparr>t_state := CLOSE_WAIT\<rparr>, w) }
         else Some (t4, w4)) = Some (t3, w3)"
      using prem(1) by (auto simp: established_text_def bind_Some_iff)
    note e = handle_data_eff [OF d]
    show ?thesis
    proof (cases "SEG_CTRL_F seg")
      case True
      with r obtain ok5 t5 where "tcp_handle_fin_ack ll_send t4 seg w4 = Some (ok5, t5, w3)"
        and t3: "t3 = t5\<lparr>t_state := CLOSE_WAIT\<rparr>"
        by (auto simp: bind_Some_iff)
      from handle_fin_eff [OF this(1)] e prem(2) show ?thesis
        unfolding t3 by (intro good_move_state) auto
    next
      case False
      with r e show ?thesis by (auto intro: good_moveI)
    qed
  qed
  have rest: "good_move t0 t3"
    if "process_received_seq ll_send t0 seg w0 = Some (ok, t1, w1)" "t_state t0 = ESTABLISHED"
      "(if \<not> ok \<or> SEG_CTRL_R seg \<or> \<not> SEG_CTRL_A seg then Some (t1, w1)
        else do {
          (t, w) \<leftarrow> established_ack E ll_send t1 seg w1;
          established_text E ll_send t seg w }) = Some (t3, w3)" for t0 t1 t3 seg w0 w1 w3 ok
  proof -
    have e: "core t1 = core t0" "txf t1 = txf t0" using process_seq_eff [OF that(1)] by simp_all
    then have s1: "t_state t1 = ESTABLISHED" using that(2) by (simp add: core_def)
    have "good_move t1 t3"
    proof (cases "\<not> ok \<or> SEG_CTRL_R seg \<or> \<not> SEG_CTRL_A seg")
      case True
      with that(3) show ?thesis by (auto intro: good_moveI)
    next
      case False
      with that(3) obtain t2 w2 where a: "established_ack E ll_send t1 seg w1 = Some (t2, w2)"
        and x: "established_text E ll_send t2 seg w2 = Some (t3, w3)"
        by (auto simp: bind_Some_iff)
      from ack [OF a s1] body [OF x] s1 show ?thesis by (auto intro: good_move_same_state)
    qed
    then show ?thesis by (rule good_move_after [OF e])
  qed
  show ?thesis
    using assms unfolding received_when_established_def
    by (elim good_move_dequeue)
       (auto simp: good_moveI bind_Some_iff simp del: if_split split: option.splits intro: rest)
qed

lemma closing_ack_move:
  assumes "closing_ack E ll_send s t seg w = Some (t', w')"
    and "t_state t = FIN_WAIT_1 \<and> s = FIN_WAIT_2 \<or> t_state t = LAST_ACK \<and> s = CLOSED"
  shows "good_move t t' \<and> (t_state t' = t_state t \<or> t_state t' = s)"
proof -
  have fin: "good_move t t'" "t_state t' = t_state t \<or> t_state t' = s"
    if "tcp_handle_ack_of_fin_ack E t seg w = Some (ok, t1, w1)"
      "t' = (if ok then t1\<lparr>t_state := s\<rparr> else t1)" for ok t1 w1
    using handle_ack_fin_core [OF that(1)] handle_ack_fin_txf [OF that(1)] assms(2) that(2)
    by (auto simp: good_move_def core_def conn_ok_def split: if_splits)
  have "t_state t \<in> {ESTABLISHED, FIN_WAIT_1, LAST_ACK}" using assms(2) by auto
  note data = ack_of_data_move [OF _ this]
  show ?thesis
    using assms(1) unfolding closing_ack_def
    by (auto simp: bind_Some_iff good_moveI simp del: if_split split: if_splits dest: data fin)
qed

lemma fin_ack_move:
  assumes "tcp_contruct_fin_ack E t w = Some (t', w')" "t_state t = FIN_WAIT_1 \<or> t_state t = LAST_ACK"
  shows "good_move t t'"
  using fin_ack_eff [OF assms(1)] assms(2)
  by (auto simp: good_move_def core_def conn_ok_def)

lemma closing_received:
  assumes "(case p of None \<Rightarrow> Some (t, w) | Some seg \<Rightarrow> closing_ack E ll_send s t seg w) = Some (t1, w1)"
    and "(if t_state t1 = t_state t then tcp_contruct_fin_ack E t1 w1 else Some (t1, w1)) = Some (t', w')"
    and "t_state t = FIN_WAIT_1 \<and> s = FIN_WAIT_2 \<or> t_state t = LAST_ACK \<and> s = CLOSED"
  shows "good_move t t'"
proof -
  have m: "good_move t t1"
    using assms(1,3) closing_ack_move [of E ll_send s t _ w t1 w1]
    by (auto simp: good_moveI split: option.splits)
  show ?thesis
  proof (cases "t_state t1 = t_state t")
    case True
    then have "good_move t1 t'" using assms(2,3) fin_ack_move [of E t1 w1 t' w'] by auto
    then show ?thesis using m True by (auto intro: good_move_same_state)
  next
    case False
    then show ?thesis using assms(2) m by simp
  qed
qed

lemma fin_wait_1_received:
  assumes "received_when_fin_wait_1 E ll_send t w = Some (t', w')" "t_state t = FIN_WAIT_1"
  shows "good_move t t'"
  using assms unfolding received_when_fin_wait_1_def
  by (elim good_move_dequeue)
     (auto simp: bind_Some_iff simp del: if_split intro: closing_received [where s = FIN_WAIT_2])

lemma last_ack_received:
  assumes "received_when_last_ack E ll_send t w = Some (t', w')" "t_state t = LAST_ACK"
  shows "good_move t t'"
  using assms unfolding received_when_last_ack_def
  by (elim good_move_dequeue)
     (auto simp: bind_Some_iff simp del: if_split intro: closing_received [where s = CLOSED])

lemma fin_wait_2_received:
  assumes "received_when_fin_wait_2 E ll_send t w = Some (t', w')" "t_state t = FIN_WAIT_2"
  shows "good_move t t'"
proof -
  have st: "good_move t0 t2" if "core t2 = core (t0\<lparr>t_state := TIME_WAIT\<rparr>)" "txf t2 = txf t0"
    "t_state t0 = FIN_WAIT_2" for t0 t2
    using that by (auto simp: good_move_def core_def conn_ok_def)
  show ?thesis
    using assms unfolding received_when_fin_wait_2_def
    by (elim good_move_dequeue)
       (auto simp: good_moveI bind_Some_iff Let_def core_def split: option.splits if_splits
         dest!: handle_fin_eff intro!: st)
qed

lemma waiting_received:
  assumes "received_when_time_wait E ll_send t w = Some (t', w') \<or>
    received_when_close_wait E ll_send t w = Some (t', w')"
  shows "good_move t t'"
  using assms unfolding received_when_time_wait_def received_when_close_wait_def
  by (elim disjE good_move_dequeue)
     (auto simp: good_moveI bind_Some_iff split: option.splits if_splits dest!: handle_fin_eff)

lemma tcp_received_move:
  assumes "tcp_received E ll_send t w = Some (t', w')"
  shows "good_move t t'"
  using assms unfolding tcp_received_def
  by (auto split: tcp_state.splits intro: listen_received syn_sent_received syn_received_received
      established_received fin_wait_1_received fin_wait_2_received waiting_received last_ack_received
      good_moveI)

end
