(* ===== verification/Frame.thy ===== *)
theory Frame
  imports Ether_Arp Tcp_Inv
begin

text \<open>
  What the operations leave alone.  The block operations only touch the heap (\<open>heap.more\<close>
  is the rest of the state), sending over IP also the identification counter
  (\<open>netw.more\<close> is the rest), provided the link layer behind the interface does no more
  (\<open>link_frame\<close>, which \<open>ip_ether_send\<close> keeps).  So the handlers of one connection never
  touch the table of connections, the ports or the interfaces.
\<close>

named_theorems frames \<open>an operation leaves the rest of the state as it was\<close>

section \<open>Heap operations\<close>

lemma elementary_frames [simp]:
  "heap.more (set_buf b bs h) = heap.more h" "heap.more (del_buf b h) = heap.more h"
  "heap.more (set_node a d h) = heap.more h" "heap.more (del_node a h) = heap.more h"
  "heap.more (bump h) = heap.more h"
  by (simp_all add: set_buf_def del_buf_def set_node_def del_node_def bump_def)

lemma wr8_frame [frames]: "wr8 p v h = Some h' \<Longrightarrow> heap.more h' = heap.more h"
  by (cases p) (auto split: option.splits if_splits)

lemma mem_write_frame [frames]: "mem_write p ys h = Some h' \<Longrightarrow> heap.more h' = heap.more h"
  by (auto simp: mem_write_def split: ptr.splits option.splits if_splits)

lemma memcpy_frame [frames]: "memcpy d s n h = Some h' \<Longrightarrow> heap.more h' = heap.more h"
  by (auto simp: memcpy_def bind_Some_iff dest!: frames)

lemma memset_frame [frames]: "memset p v n h = Some h' \<Longrightarrow> heap.more h' = heap.more h"
  by (auto simp: memset_def dest!: frames)

lemma field_frames [frames]:
  "bw16 v p h = Some (q, h') \<Longrightarrow> heap.more h' = heap.more h"
  "bw32 w p h = Some (q, h') \<Longrightarrow> heap.more h' = heap.more h"
  by (auto simp: bw16_write bw32_write dest!: frames)

lemma free_frames [frames]:
  "free_buf p h = Some h' \<Longrightarrow> heap.more h' = heap.more h"
  "free_node a h = Some h' \<Longrightarrow> heap.more h' = heap.more h"
  "pop_buf p h = Some h' \<Longrightarrow> heap.more h' = heap.more h"
  "pop_node a h = Some h' \<Longrightarrow> heap.more h' = heap.more h"
  by (cases p; cases a; auto simp: pop_buf_def pop_node_def split: if_splits)+

lemma upd_node_frame [frames]: "upd_node p f h = Some h' \<Longrightarrow> heap.more h' = heap.more h"
  by (auto simp: upd_node_def bind_Some_iff)

lemma new_frames [simp]:
  "heap.more (snd (new_buf bs h)) = heap.more h" "heap.more (snd (new_node d h)) = heap.more h"
  "heap.more (snd (dblk_node_new_from_stack p n h)) = heap.more h"
  "heap.more (snd (dblk_node_new_from_stack_with_buff n h)) = heap.more h"
  "heap.more (snd (malloc_try h)) = heap.more h" "heap.more (snd (malloc_buf n h)) = heap.more h"
  "heap.more (snd (malloc_node d h)) = heap.more h"
  "heap.more (snd (pseudo_header_new_from_stack s d' pr len h)) = heap.more h"
  "heap.more (snd (mem_alloc_tcp_segment h)) = heap.more h"
  by (simp_all add: new_buf_def new_node_def dblk_node_new_from_stack_def
      dblk_node_new_from_stack_with_buff_def malloc_try_def malloc_buf_def malloc_node_def
      pseudo_header_new_from_stack_def mem_alloc_tcp_segment_def)

lemma pair_frame: "f = (r, h') \<Longrightarrow> heap.more (snd f) = heap.more h \<Longrightarrow> heap.more h' = heap.more h"
  by simp

lemmas new_pair_frames [frames] = new_frames [THEN [2] pair_frame]

lemma node_frames [frames]:
  "dblk_node_init a p n h = Some (r, h') \<Longrightarrow> heap.more h' = heap.more h"
  "dblk_node_new p n h = Some (r, h') \<Longrightarrow> heap.more h' = heap.more h"
  "dblk_node_new_with_buff n h = Some (r, h') \<Longrightarrow> heap.more h' = heap.more h"
  "dblk_node_concat a b h = Some h' \<Longrightarrow> heap.more h' = heap.more h"
proof -
  have init: "dblk_node_init a p n h = Some (r, h') \<Longrightarrow> heap.more h' = heap.more h" for a p n h h' r
    by (auto simp: dblk_node_init_def bind_Some_iff split: if_splits dest!: frames)
  have new: "dblk_node_new p n h = Some (r, h') \<Longrightarrow> heap.more h' = heap.more h" for p n h h' r
    by (auto simp: dblk_node_new_def bind_Some_iff split: if_splits prod.splits dest!: frames init)
  show "dblk_node_init a p n h = Some (r, h') \<Longrightarrow> heap.more h' = heap.more h"
    "dblk_node_new p n h = Some (r, h') \<Longrightarrow> heap.more h' = heap.more h"
    by (fact init, fact new)
  show "dblk_node_new_with_buff n h = Some (r, h') \<Longrightarrow> heap.more h' = heap.more h"
    by (auto simp: dblk_node_new_with_buff_def bind_Some_iff split: if_splits prod.splits dest!: frames new)
  show "dblk_node_concat a b h = Some h' \<Longrightarrow> heap.more h' = heap.more h"
    by (auto simp: dblk_node_concat_def bind_Some_iff split: if_splits dest!: frames)
qed

lemma copy_vmem_frame [frames]: "copy_vmem v p n h = Some h' \<Longrightarrow> heap.more h' = heap.more h"
  by (rule copy_vmem.raw_induct [where P = "\<lambda>v p n h h'. heap.more h' = heap.more h"])
     (auto simp: bind_Some_iff split: if_splits option.splits dest!: frames)

lemma dblk_node_copy_to_frame [frames]:
  "dblk_node_copy_to a p n h = Some (r, h') \<Longrightarrow> heap.more h' = heap.more h"
  by (auto simp: dblk_node_copy_to_def bind_Some_iff Let_def split: if_splits dest!: frames)

text \<open>The loops over the nodes of a block, by induction over their runs.\<close>

lemma copy_to_loop_run:
  assumes "copy_to_loop a p n h = Some y"
  shows "heap.more (snd y) = heap.more h"
proof (rule copy_to_loop.raw_induct [OF _ assms, where P = "\<lambda>a p n h y. heap.more (snd y) = heap.more h"], goal_cases)
  case (1 rec a p n h y)
  from 1(2) show ?case
    by (auto simp: bind_Some_iff Let_def split: if_splits option.splits dest!: frames 1(1))
qed

lemma copy_from_loop_run:
  assumes "copy_from_loop a p n h = Some y"
  shows "heap.more (snd y) = heap.more h"
proof (rule copy_from_loop.raw_induct [OF _ assms, where P = "\<lambda>a p n h y. heap.more (snd y) = heap.more h"], goal_cases)
  case (1 rec a p n h y)
  from 1(2) show ?case
    by (auto simp: bind_Some_iff Let_def split: if_splits option.splits dest!: frames 1(1))
qed

lemma dblk_delete_run: "dblk_delete a h = Some y \<Longrightarrow> heap.more (snd y) = heap.more h"
  by (rule dblk_delete.raw_induct [where P = "\<lambda>a h y. heap.more (snd y) = heap.more h"])
     (auto simp: bind_Some_iff split: if_splits option.splits dest!: frames)

lemma merge_loop_frame [frames]: "merge_loop b n h = Some h' \<Longrightarrow> heap.more h' = heap.more h"
  by (rule merge_loop.raw_induct [where P = "\<lambda>b n h h'. heap.more h' = heap.more h"])
     (auto simp: bind_Some_iff split: if_splits dest!: frames)

lemma frag_nodes_frame [frames]: "frag_nodes i n e h = Some h' \<Longrightarrow> heap.more h' = heap.more h"
  by (rule frag_nodes.raw_induct [where P = "\<lambda>i n e h h'. heap.more h' = heap.more h"])
     (auto simp: bind_Some_iff split: if_splits dest!: frames)

lemma frag_fill_frame [frames]: "frag_fill e d off n h = Some h' \<Longrightarrow> heap.more h' = heap.more h"
  by (rule frag_fill.raw_induct [where P = "\<lambda>e d off n h h'. heap.more h' = heap.more h"])
     (auto simp: bind_Some_iff split: if_splits dest!: frames)

lemma read_loop_run: "read_loop a p n k h = Some y \<Longrightarrow> heap.more (snd y) = heap.more h"
  by (rule read_loop.raw_induct [where P = "\<lambda>a p n k h y. heap.more (snd y) = heap.more h"])
     (auto simp: bind_Some_iff Let_def split: if_splits option.splits dest!: frames)

lemmas loop_frames [frames] = copy_to_loop_run [of _ _ _ _ "(r, h')" for r h', unfolded snd_conv]
  copy_from_loop_run [of _ _ _ _ "(r, h')" for r h', unfolded snd_conv]
  dblk_delete_run [of _ _ "(r, h')" for r h', unfolded snd_conv]
  read_loop_run [of _ _ _ _ _ "(r, h')" for r h', unfolded snd_conv]

lemma dblk_list_delete_frame [frames]: "dblk_list_delete a h = Some h' \<Longrightarrow> heap.more h' = heap.more h"
  by (rule dblk_list_delete.raw_induct [where P = "\<lambda>a h h'. heap.more h' = heap.more h"])
     (auto simp: bind_Some_iff split: option.splits dest!: frames)

lemma block_frames [frames]:
  "dblk_copy_to a p n h = Some (r, h') \<Longrightarrow> heap.more h' = heap.more h"
  "dblk_copy_from a p n h = Some (r, h') \<Longrightarrow> heap.more h' = heap.more h"
  "dblk_read a p n h = Some (r, h') \<Longrightarrow> heap.more h' = heap.more h"
  "dblk_merge a b h = Some h' \<Longrightarrow> heap.more h' = heap.more h"
  "dblk_fragment a n h = Some (q, h') \<Longrightarrow> heap.more h' = heap.more h"
  by (auto simp: dblk_copy_to_def dblk_copy_from_def dblk_read_def dblk_merge_def dblk_fragment_def
      bind_Some_iff Let_def split: if_splits dest!: frames)

lemma dblk_copy_frame [frames]: "dblk_copy a h = Some (q, h') \<Longrightarrow> heap.more h' = heap.more h"
  by (auto simp: dblk_copy_def copy_with_size_def bind_Some_iff split: if_splits dest!: frames)

section \<open>Packets\<close>

lemma pseudo_header_pack_frame [frames]: "pseudo_header_pack ph h = Some (n, h') \<Longrightarrow> heap.more h' = heap.more h"
  by (auto simp: pseudo_header_pack_def bind_Some_iff split: if_splits dest!: frames)

lemma tcp_pack_frame [frames]: "tcp_pack seg ph h = Some (ok, seg', h') \<Longrightarrow> heap.more h' = heap.more h"
  by (auto simp: tcp_pack_def bind_Some_iff Let_def split: if_splits dest!: frames)

lemma tcp_unpack_frame [frames]: "tcp_unpack seg ph h = Some (ok, seg', h') \<Longrightarrow> heap.more h' = heap.more h"
  by (auto simp: tcp_unpack_def bind_Some_iff Let_def split: if_splits dest!: frames)

lemma udp_pack_frame [frames]: "udp_pack dg ph h = Some (n, dg', h') \<Longrightarrow> heap.more h' = heap.more h"
  by (auto simp: udp_pack_def bind_Some_iff Let_def split: if_splits dest!: frames)

lemma ip_header_pack_frame [frames]: "ip_header_pack hdr p n h = Some (k, hdr', h') \<Longrightarrow> heap.more h' = heap.more h"
  by (cases "h_version hdr = 4"; cases "n < unat (h_option_size hdr) + 20")
     (auto simp: ip_header_pack_def bind_Some_iff Let_def dest!: frames)

section \<open>Sending\<close>

text \<open>The state without the heap and the identification counter.\<close>

definition rest :: "'w netw_scheme \<Rightarrow> u32 \<times> u32 \<times> (addr \<rightharpoonup> ip) \<times> ip_header \<times> 'w" where
  "rest w = (tick w, second w, ips w, auto_header w, netw.more w)"

lemma heap_rest: "heap.more w' = heap.more w \<Longrightarrow> rest w' = rest w"
  by (cases w; cases w') (simp add: rest_def)

lemma rest_ident [simp]: "rest (w\<lparr>ident := i\<rparr>) = rest w"
  by (simp add: rest_def)

lemmas rest_frames = frames [THEN heap_rest]

lemma rest_new [simp]:
  "rest (snd (dblk_node_new_from_stack_with_buff n w)) = rest w"
  "rest (snd (pseudo_header_new_from_stack s d pr len w)) = rest w"
  "rest (set_node a d' w) = rest w" "rest (set_buf a bs w) = rest w"
  "rest (del_node a w) = rest w" "rest (del_buf a w) = rest w" "rest (bump w) = rest w"
  by (rule heap_rest, simp)+

definition link_frame :: "('w netw_scheme) ll_send \<Rightarrow> bool" where
  "link_frame ll_send \<longleftrightarrow> (\<forall>e dg w r w'. ll_send e dg w = Some (r, w') \<longrightarrow> rest w' = rest w)"

lemma call_ll_send_rest:
  "call_ll_send ll_send ip dg w = Some (r, w') \<Longrightarrow> link_frame ll_send \<Longrightarrow> rest w' = rest w"
  by (auto simp: call_ll_send_def bind_Some_iff link_frame_def)

lemma send_fragments_rest:
  assumes "send_fragments ll_send ip dg cur nxt w = Some y" "link_frame ll_send"
  shows "rest (snd y) = rest w"
proof -
  have "link_frame ll_send \<longrightarrow> rest (snd y) = rest w"
  proof (rule send_fragments.raw_induct [OF _ assms(1),
        where P = "\<lambda>ll ip dg cur nxt w y. link_frame ll \<longrightarrow> rest (snd y) = rest w"], goal_cases)
    case (1 rec ll ip dg cur nxt w y)
    from 1(2) show ?case
      by (auto simp: bind_Some_iff Let_def split: if_splits dest!: rest_frames call_ll_send_rest 1(1))
  qed
  then show ?thesis using assms(2) by simp
qed

lemma ip_hl_send_body_rest:
  assumes "ip_hl_send_body ll_send ip dg n w = Some (r, w')" "link_frame ll_send"
  shows "rest w' = rest w"
  using assms unfolding ip_hl_send_body_def
  by (auto simp: bind_Some_iff Let_def split: if_splits dest!: rest_frames call_ll_send_rest send_fragments_rest)

lemmas new_eqs = dblk_node_new_from_stack_with_buff_eq pseudo_header_new_eq dblk_node_new_from_stack_def
  new_node_def

lemma ip_hl_send_rest:
  assumes "ip_hl_send ll_send ip dg w = Some (r, w')" "link_frame ll_send"
  shows "rest w' = rest w"
  using assms unfolding ip_hl_send_def
  by (auto simp: bind_Some_iff Let_def new_eqs split: if_splits dest!: rest_frames ip_hl_send_body_rest)

lemma sendto_udp_rest:
  assumes "sendto_udp ll_send ip dest port p n w = Some (r, w')" "link_frame ll_send"
  shows "rest w' = rest w"
  using assms unfolding sendto_udp_def
  by (auto simp: bind_Some_iff Let_def new_eqs dest!: rest_frames ip_hl_send_rest)

lemma tcp_ip_send_rest:
  assumes "tcp_ip_send ll_send t seg w = Some (ok, w')" "link_frame ll_send"
  shows "rest w' = rest w"
  using assms unfolding tcp_ip_send_def
  by (auto simp: bind_Some_iff Let_def new_eqs split: if_splits dest!: rest_frames ip_hl_send_rest)

lemma tcp_send_ctrl_seg_rest:
  assumes "tcp_send_ctrl_seg ll_send t seq ack fl w = Some (ok, t', w')" "link_frame ll_send"
  shows "rest w' = rest w"
  using assms unfolding tcp_send_ctrl_seg_def
  by (auto simp: bind_Some_iff Let_def new_eqs dest!: rest_frames tcp_ip_send_rest)

section \<open>The handlers of a connection\<close>

lemma rest_upd_tcpw [simp]:
  "rest ((w :: ('tm, 'w) tcpw_scheme)\<lparr>bufs := bs, nodes := ns\<rparr>) = rest w"
  by (simp add: rest_def)

lemma mem_alloc_tcp_segment_rest: "mem_alloc_tcp_segment w = (s, w') \<Longrightarrow> rest w' = rest w"
  by (rule heap_rest) (auto simp: mem_alloc_tcp_segment_def malloc_try_def)

lemma tcp_pack_new_rest:
  assumes "tcp_pack_new t seg w k = Some (t', w')"
    and k: "\<And>seg w t' w'. k seg w = Some (t', w') \<Longrightarrow> rest w' = rest w"
  shows "rest w' = rest w"
  using assms(1) unfolding tcp_pack_new_def
  by (auto simp: bind_Some_iff Let_def new_eqs dest!: rest_frames k)

lemma tcp_retransmit_rest:
  assumes "tcp_retransmit E ll_send t w = Some (t', w')" "link_frame ll_send"
  shows "rest w' = rest w"
  using assms unfolding tcp_retransmit_def
  by (auto simp: bind_Some_iff split: option.splits dest!: tcp_ip_send_rest)

lemma tcp_tx_seg_complete_rest:
  "tcp_tx_seg_complete E t w = Some (t', w') \<Longrightarrow> rest w' = rest w"
  by (auto simp: tcp_tx_seg_complete_def bind_Some_iff split: option.splits dest!: rest_frames)

lemma tcp_pack_new_cases:
  assumes "(case s of None \<Rightarrow> Some (t, w) | Some seg \<Rightarrow> tcp_pack_new t (f seg) w k) = Some (t', w')"
    and "\<And>seg w t' w'. k seg w = Some (t', w') \<Longrightarrow> rest w' = rest w"
  shows "rest w' = rest w"
  using assms(1) tcp_pack_new_rest [OF _ assms(2)] by (auto split: option.splits)

lemma tcp_construct_data_rest:
  assumes "tcp_construct_data E ll_send t w = Some (t', w')" "link_frame ll_send"
  shows "rest w' = rest w"
proof (cases "tx_seg t = None \<and> list_length E (tx_data t) > 0")
  case False
  with assms show ?thesis by (auto simp: tcp_construct_data_def)
next
  case True
  obtain tx q where q: "list_dequeue E (tx_data t) = (tx, q)" by fastforce
  obtain s w1 where m: "mem_alloc_tcp_segment w = (s, w1)" by fastforce
  have "rest w' = rest w1"
    using assms True unfolding tcp_construct_data_def q m Let_def prod.case if_P [OF True]
    by - (erule tcp_pack_new_cases, auto simp: bind_Some_iff dest!: tcp_ip_send_rest)
  then show ?thesis using mem_alloc_tcp_segment_rest [OF m] by simp
qed

lemma tcp_contruct_fin_ack_rest:
  assumes "tcp_contruct_fin_ack E t w = Some (t', w')"
  shows "rest w' = rest w"
proof (cases "list_length E (tx_data t) = 0 \<and> tx_seg t = None")
  case False
  with assms show ?thesis by (auto simp: tcp_contruct_fin_ack_def)
next
  case True
  obtain s w1 where m: "mem_alloc_tcp_segment w = (s, w1)" by fastforce
  have "rest w' = rest w1"
    using assms unfolding tcp_contruct_fin_ack_def m prod.case if_P [OF True]
    by - (erule tcp_pack_new_cases, auto simp: bind_Some_iff)
  then show ?thesis using mem_alloc_tcp_segment_rest [OF m] by simp
qed

lemma tcp_handle_ack_of_data_rest:
  assumes "tcp_handle_ack_of_data E ll_send t a w = Some (ok, t', w')" "link_frame ll_send"
  shows "rest w' = rest w"
  using assms unfolding tcp_handle_ack_of_data_def
  by (auto simp: bind_Some_iff split: if_splits dest!: tcp_tx_seg_complete_rest tcp_construct_data_rest)

lemma tcp_handle_data_rest:
  assumes "tcp_handle_data E ll_send t d w = Some (ok, t', w')" "link_frame ll_send"
  shows "rest w' = rest w"
  using assms unfolding tcp_handle_data_def
  by (auto simp: bind_Some_iff Let_def split: if_splits option.splits dest!: rest_frames tcp_send_ctrl_seg_rest)

lemma tcp_handle_fin_rest:
  "tcp_handle_ack_of_fin_ack E t a w = Some (ok, t', w') \<Longrightarrow> rest w' = rest w"
  "tcp_handle_fin_ack ll_send t a w = Some (ok, t', w') \<Longrightarrow> link_frame ll_send \<Longrightarrow> rest w' = rest w"
  by (auto simp: tcp_handle_ack_of_fin_ack_def tcp_handle_fin_ack_def bind_Some_iff
      split: if_splits option.splits dest!: tcp_tx_seg_complete_rest tcp_send_ctrl_seg_rest)

lemma process_received_seq_rest:
  assumes "process_received_seq ll_send t seg w = Some (ok, t', w')" "link_frame ll_send"
  shows "rest w' = rest w"
  using assms unfolding process_received_seq_def
  by (auto simp: bind_Some_iff Let_def split: if_splits dest!: tcp_send_ctrl_seg_rest)

lemmas handler_rests = tcp_send_ctrl_seg_rest tcp_tx_seg_complete_rest tcp_handle_ack_of_data_rest
  tcp_handle_data_rest tcp_handle_fin_rest process_received_seq_rest tcp_contruct_fin_ack_rest

lemma listen_syn_rest:
  "listen_syn ll_send t seg w = Some (t', w') \<Longrightarrow> link_frame ll_send \<Longrightarrow> rest w' = rest w"
  by (auto simp: listen_syn_def bind_Some_iff Let_def split: if_splits dest!: handler_rests)

lemma listen_seg_rest:
  "listen_seg ll_send t seg w = Some (t', w') \<Longrightarrow> link_frame ll_send \<Longrightarrow> rest w' = rest w"
  by (auto simp: listen_seg_def bind_Some_iff split: if_splits dest!: handler_rests listen_syn_rest)

lemma syn_sent_ack_rest:
  "syn_sent_ack E ll_send t seg w = Some (t', w') \<Longrightarrow> link_frame ll_send \<Longrightarrow> rest w' = rest w"
  by (auto simp: syn_sent_ack_def bind_Some_iff Let_def split: if_splits dest!: handler_rests)

lemma syn_received_ack_rest:
  "syn_received_ack ll_send t seg w = Some (t', w') \<Longrightarrow> link_frame ll_send \<Longrightarrow> rest w' = rest w"
  by (auto simp: syn_received_ack_def bind_Some_iff split: if_splits dest!: handler_rests)

lemma received_when_listen_rest:
  "received_when_listen E ll_send t w = Some (t', w') \<Longrightarrow> link_frame ll_send \<Longrightarrow> rest w' = rest w"
  by (auto simp: received_when_listen_def bind_Some_iff Let_def split: if_splits option.splits
      dest!: handler_rests listen_seg_rest)

lemma received_when_syn_sent_rest:
  "received_when_syn_sent E ll_send t w = Some (t', w') \<Longrightarrow> link_frame ll_send \<Longrightarrow> rest w' = rest w"
  by (auto simp: received_when_syn_sent_def bind_Some_iff Let_def split: if_splits option.splits
      dest!: handler_rests syn_sent_ack_rest)

lemma received_when_syn_received_rest:
  assumes "received_when_syn_received E ll_send t w = Some (t', w')" "link_frame ll_send"
  shows "rest w' = rest w"
proof -
  obtain p t0 where n: "next_seg E t w = Some (p, t0)"
    using assms(1) by (auto simp: received_when_syn_received_def bind_Some_iff)
  show ?thesis
  proof (cases p)
    case None
    with n assms show ?thesis by (simp add: received_when_syn_received_def)
  next
    case (Some seg)
    obtain ok t1 w1 where q: "process_received_seq ll_send t0 seg w = Some (ok, t1, w1)"
      using assms(1) n Some by (auto simp: received_when_syn_received_def bind_Some_iff)
    have "rest w1 = rest w" by (rule process_received_seq_rest [OF q assms(2)])
    moreover have "rest w' = rest w1"
      using assms n Some q
      by (cases "ok \<and> \<not> SEG_CTRL_R seg \<and> SEG_CTRL_A seg"; cases ok; cases "SEG_CTRL_R seg")
         (auto simp: received_when_syn_received_def bind_Some_iff dest!: syn_received_ack_rest)
    ultimately show ?thesis by simp
  qed
qed

lemma received_when_fin_wait_2_rest:
  "received_when_fin_wait_2 E ll_send t w = Some (t', w') \<Longrightarrow> link_frame ll_send \<Longrightarrow> rest w' = rest w"
  by (auto simp: received_when_fin_wait_2_def bind_Some_iff Let_def split: if_splits option.splits
      dest!: handler_rests )

lemma received_when_time_wait_rest:
  "received_when_time_wait E ll_send t w = Some (t', w') \<Longrightarrow> link_frame ll_send \<Longrightarrow> rest w' = rest w"
  by (auto simp: received_when_time_wait_def bind_Some_iff Let_def split: if_splits option.splits
      dest!: handler_rests )

lemma received_when_close_wait_rest:
  "received_when_close_wait E ll_send t w = Some (t', w') \<Longrightarrow> link_frame ll_send \<Longrightarrow> rest w' = rest w"
  by (auto simp: received_when_close_wait_def bind_Some_iff Let_def split: if_splits option.splits
      dest!: handler_rests )

lemma closing_ack_rest:
  assumes "closing_ack E ll_send s t seg w = Some (t', w')" "link_frame ll_send"
  shows "rest w' = rest w"
  using assms unfolding closing_ack_def
  by (auto simp: bind_Some_iff split: if_splits dest!: handler_rests)

lemma tcp_received_rest:
  assumes "tcp_received E ll_send t w = Some (t', w')" "link_frame ll_send"
  shows "rest w' = rest w"
proof -
  have est: "received_when_established E ll_send t w = Some (t', w') \<Longrightarrow> rest w' = rest w"
    using assms(2)
    by (auto simp: received_when_established_def established_ack_def established_text_def bind_Some_iff
        split: if_splits option.splits dest!: handler_rests)
  have fin: "received_when_fin_wait_1 E ll_send t w = Some (t', w') \<Longrightarrow> rest w' = rest w"
    "received_when_last_ack E ll_send t w = Some (t', w') \<Longrightarrow> rest w' = rest w"
    using assms(2)
    by (auto simp: received_when_fin_wait_1_def received_when_last_ack_def bind_Some_iff
        split: if_splits option.splits dest!: closing_ack_rest handler_rests)
  show ?thesis
    using assms est fin
    by (auto simp: tcp_received_def split: tcp_state.splits
      dest: received_when_listen_rest received_when_syn_sent_rest received_when_syn_received_rest
        received_when_fin_wait_2_rest received_when_time_wait_rest received_when_close_wait_rest)
qed

section \<open>Ethernet keeps the contract\<close>

text \<open>The driver sends bytes; it may use memory of its own, and nothing else of the state.\<close>

definition driver_frame :: "('w heap_scheme) drv_send \<Rightarrow> bool" where
  "driver_frame drv \<longleftrightarrow> (\<forall>i p n h r h'. drv i p n h = Some (r, h') \<longrightarrow> heap.more h' = heap.more h)"

lemma copy_src_frame [frames]: "copy_src p s n h = Some h' \<Longrightarrow> heap.more h' = heap.more h"
  by (auto simp: copy_src_def bind_Some_iff dest!: frames)

lemma ether_pack_frame [frames]: "ether_pack fr h = Some (fr', h') \<Longrightarrow> heap.more h' = heap.more h"
proof -
  assume p: "ether_pack fr h = Some (fr', h')"
  have ty: "heap.more w = heap.more v"
    if "(if ef_type fr < 0x05DC then do {
             n \<leftarrow> dblk_size v (ef_payload fr);
             if n < 46 then map_option snd (bw16 46 q v) else Some v }
           else map_option snd (bw16 (ef_type fr) q v)) = Some w" for q and v w :: "'a heap_scheme"
    using that by (auto simp: bind_Some_iff split: if_splits dest!: frames)
  show ?thesis using p by (auto simp: ether_pack_def Let_def bind_Some_iff dest!: frames ty)
qed

lemma ether_hl_send_frame':
  assumes "ether_hl_send drv e fr h = Some (r, fr', h')" "driver_frame drv"
  shows "heap.more h' = heap.more h"
  using assms by (auto simp: ether_hl_send_def driver_frame_def bind_Some_iff dest!: frames)

lemma arp_pack_frame [frames]: "arp_pack q h = Some (n, q', h') \<Longrightarrow> heap.more h' = heap.more h"
  by (auto simp: arp_pack_def bind_Some_iff Let_def split: if_splits dest!: frames)

lemma ether_arp_ask_ip_frame [frames]: "ether_arp_ask_ip q m s t h = Some (n, h') \<Longrightarrow> heap.more h' = heap.more h"
  by (auto simp: ether_arp_ask_ip_def bind_Some_iff Let_def dest!: frames)

lemma ether_send_loop_run:
  assumes "ether_send_loop drv e fr k w = Some w'" "driver_frame drv"
  shows "heap.more w' = heap.more w"
proof -
  have "driver_frame drv \<longrightarrow> heap.more w' = heap.more w"
  proof (rule ether_send_loop.raw_induct [OF _ assms(1),
        where P = "\<lambda>drv e fr k w w'. driver_frame drv \<longrightarrow> heap.more w' = heap.more w"], goal_cases)
    case (1 rec drv e fr k w w')
    from 1(2) show ?case
      by (auto simp: bind_Some_iff split: if_splits dest!: frames ether_hl_send_frame' 1(1))
  qed
  then show ?thesis using assms(2) by simp
qed

lemma arp_request_run:
  assumes "arp_request E drv eth a w = Some w'" "driver_frame drv"
  shows "heap.more w' = heap.more w"
  using assms
  by (auto simp: arp_request_def bind_Some_iff Let_def new_eqs new_buf_def dest!: frames ether_hl_send_frame')

lemma ip_ether_send_frame:
  assumes "ip_ether_send E drv e dg w = Some (r, w')" "driver_frame drv"
  shows "heap.more w' = heap.more w"
proof -
  have mac: "heap.more v' = heap.more v" if "ether_arp_get_mac_address E drv e a v = Some (m, v')" for a m v v'
    using that assms(2)
    by (auto simp: ether_arp_get_mac_address_def bind_Some_iff split: option.splits dest!: arp_request_run)
  obtain m w1 where m: "(if ip_addr_broadcast (h_dest (dg_header dg)) then Some (Some broadcast_mac, w)
        else ether_arp_get_mac_address E drv e (ip_v4 (h_dest (dg_header dg))) w) = Some (m, w1)"
    using assms(1) by (auto simp: ip_ether_send_def bind_Some_iff)
  then have w1: "heap.more w1 = heap.more w" by (auto split: if_splits dest!: mac)
  obtain b w2 where b: "malloc_buf 2048 w1 = (b, w2)" by fastforce
  have w2: "heap.more w2 = heap.more w" using new_frames(6) [of 2048 w1] b w1 by simp
  show ?thesis
    using assms m w1 w2
    by (cases m; cases "b = Null")
       (auto simp: ip_ether_send_def b bind_Some_iff dest!: frames ether_send_loop_run)
qed

lemma ip_ether_send_link_frame: "driver_frame drv \<Longrightarrow> link_frame (ip_ether_send E drv)"
  by (auto simp: link_frame_def intro: heap_rest dest: ip_ether_send_frame)

end
