(* ===== verification/Tcp_Reach.thy ===== *)
theory Tcp_Reach
  imports Tcp_Inv
begin

text \<open>
  The life of one connection as a step relation: it is opened by \<^verbatim>\<open>tcp_open\<close>, and then
  segments arrive, the timer expires, and the application closes, reads and writes,
  in any order and with anything happening elsewhere in between (each step starts in
  an arbitrary state of the machine).  Every connection that can be reached satisfies
  \<open>conn_ok\<close>.
\<close>

inductive conn_step ::
  "'tm ext \<Rightarrow> (('tm, 'w) tcpw_scheme) ll_send \<Rightarrow> 'tm tcb \<Rightarrow> 'tm tcb \<Rightarrow> bool"
  for E :: "'tm ext" and ll_send :: "(('tm, 'w) tcpw_scheme) ll_send" where
  arrive: "tcp_received E ll_send (t\<lparr>rx_segs := q\<rparr>) w = Some (t', w') \<Longrightarrow> conn_step E ll_send t t'"
| expire: "tcp_timeout E ll_send (t\<lparr>tmr := m\<rparr>) w = Some (t', w') \<Longrightarrow> conn_step E ll_send t t'"
| shut: "close_event E (t\<lparr>time_wait_seconds := n\<rparr>) (w :: ('tm, 'w) tcpw_scheme) = Some (t', w') \<Longrightarrow>
    conn_step E ll_send t t'"
| app_read: "t_state t = ESTABLISHED \<Longrightarrow>
    recv_when_established E t p n (w :: ('tm, 'w) tcpw_scheme) = Some (k, t', w') \<Longrightarrow> conn_step E ll_send t t'"
| app_write: "t_state t = ESTABLISHED \<Longrightarrow>
    send_when_established E ll_send t p n w = Some (k, t', w') \<Longrightarrow> conn_step E ll_send t t'"

inductive conn_reach ::
  "'tm ext \<Rightarrow> (('tm, 'w) tcpw_scheme) ll_send \<Rightarrow> 'tm tcb \<Rightarrow> bool"
  for E :: "'tm ext" and ll_send :: "(('tm, 'w) tcpw_scheme) ll_send" where
  opened: "open_event E ll_send (new_tcb E ip port dest dport) w = Some (t, w') \<Longrightarrow> conn_reach E ll_send t"
| stepped: "conn_reach E ll_send t \<Longrightarrow> conn_step E ll_send t t' \<Longrightarrow> conn_reach E ll_send t'"

section \<open>Opening\<close>

lemma open_conn_ok:
  assumes "open_event E ll_send (new_tcb E ip port dest dport) w = Some (t, w')"
  shows "conn_ok t \<and> t_state t = (if dest = None then LISTEN else SYN_SENT)"
proof (cases dest)
  case None
  with assms show ?thesis
    by (auto simp: open_event_def open_when_closed_def new_tcb_def Let_def conn_ok_def txf_def)
next
  case (Some a)
  let ?isn = "tcp_generate_isn w"
  let ?t0 = "(new_tcb E ip port dest dport)\<lparr>snd_una := ?isn, snd_iss := ?isn, snd_nxt := ?isn,
    time_wait_seconds := 120\<rparr>"
  have p: "\<not> t_passive ?t0" "rcv_wnd ?t0 = 1500" "t_state (new_tcb E ip port dest dport) = CLOSED"
    using Some by (simp_all add: new_tcb_def)
  obtain seg w1 where "tcp_pack_new ?t0 seg w1 (\<lambda>seg w. do {
        n \<leftarrow> tcp_segment_length w seg;
        let t = ?t0\<lparr>tx_seg := Some seg, snd_nxt := snd_nxt ?t0 + of_nat n\<rparr>;
        (t, w) \<leftarrow> tcp_retransmit E ll_send t w;
        Some (t\<lparr>t_state := SYN_SENT\<rparr>, w) }) = Some (t, w')"
    and flags: "sg_flags seg = SEG_FLAG_SYN"
    using assms p(1,3) by (auto simp: open_event_def open_when_closed_def Let_def mem_alloc_tcp_segment_def
        tcp_segment_init_def split: prod.splits option.splits if_splits)
  then obtain seg' n t2 w2 w3 where r: "tcp_retransmit E ll_send
      (?t0\<lparr>tx_seg := Some seg', snd_nxt := snd_nxt ?t0 + of_nat n\<rparr>) w2 = Some (t2, w3)"
    and t: "t = t2\<lparr>t_state := SYN_SENT\<rparr>" and f: "sg_flags seg' = SEG_FLAG_SYN"
    by (elim tcp_pack_newE) (auto simp: bind_Some_iff Let_def)
  show ?thesis
    using retransmit_tcb [OF r] p Some unfolding t by (auto simp: conn_ok_def f txf_def)
qed

section \<open>Steps\<close>

lemma recv_loop_tcb:
  assumes "recv_loop E t data len did w = Some (k, t', w')"
  shows "\<exists>q. t' = t\<lparr>rx_data := q\<rparr>"
proof -
  have "\<exists>q. fst (snd (k, t', w')) = t\<lparr>rx_data := q\<rparr>"
  proof (rule recv_loop.raw_induct [OF _ assms,
      where P = "\<lambda>E t data len did w y. \<exists>q. fst (snd y) = t\<lparr>rx_data := q\<rparr>"], goal_cases)
    case (1 rec E t data len did w y)
    show ?case
    proof (cases "list_length E (rx_data t) \<noteq> 0 \<and> did < len")
      case True
      with 1(2) obtain n w1 t2 w2 where t2:
        "t2 = t \<or> t2 = t\<lparr>rx_data := snd (list_dequeue E (rx_data t))\<rparr>"
        and r: "rec E t2 data len (did + n) w2 = Some y"
        by (auto simp: bind_Some_iff Let_def split: if_splits)
      from 1(1) [OF r] t2 show ?thesis by auto
    next
      case False
      then have "fst (snd y) = t\<lparr>rx_data := rx_data t\<rparr>" using 1(2) by auto
      then show ?thesis by blast
    qed
  qed
  then show ?thesis by simp
qed

lemma conn_ok_tmr [simp]: "conn_ok (t\<lparr>tmr := m\<rparr>) = conn_ok t" "conn_ok (t\<lparr>rx_segs := q\<rparr>) = conn_ok t"
  "conn_ok (t\<lparr>time_wait_seconds := n\<rparr>) = conn_ok t" "conn_ok (t\<lparr>rx_data := q\<rparr>) = conn_ok t"
  "conn_ok (t\<lparr>tx_data := q\<rparr>) = conn_ok t"
  by (simp_all add: conn_ok_def)

lemma timeout_conn_ok:
  assumes "tcp_timeout E ll_send t w = Some (t', w')" "conn_ok t"
  shows "conn_ok t'"
  using assms unfolding tcp_timeout_def
  by (auto split: tcp_state.splits dest!: retransmit_tcb simp: conn_ok_def)

lemma close_conn_ok:
  assumes "close_event E t w = Some (t', w')" "conn_ok t"
  shows "conn_ok t'"
  using assms unfolding close_event_def close_when_established_def close_when_close_wait_def
  by (auto split: tcp_state.splits dest!: fin_ack_eff simp: conn_ok_def core_def bind_Some_iff)

lemma construct_data_conn_ok:
  assumes "tcp_construct_data E ll_send t w = Some (t', w')" "conn_ok t" "t_state t = ESTABLISHED"
  shows "conn_ok t'"
  using construct_data_core [OF assms(1)] construct_data_txf [OF assms(1)] assms(2,3)
  by (auto simp: conn_ok_def core_def)

lemma send_conn_ok:
  assumes "send_when_established E ll_send t p n w = Some (k, t', w')" "conn_ok t" "t_state t = ESTABLISHED"
  shows "conn_ok t'"
  using assms construct_data_conn_ok unfolding send_when_established_def
  by (fastforce simp: bind_Some_iff split: option.splits)

lemma conn_step_ok:
  assumes "conn_step E ll_send t t'" "conn_ok t"
  shows "conn_ok t'"
  using assms
proof (induction rule: conn_step.induct)
  case (arrive t q w t' w')
  then show ?case using tcp_received_move [OF arrive(1)] by (simp add: good_move_def)
next
  case (expire t m w t' w')
  then show ?case using timeout_conn_ok [OF expire(1)] by simp
next
  case (shut t n w t' w')
  then show ?case using close_conn_ok [OF shut(1)] by simp
next
  case (app_read t p n w k t' w')
  then show ?case
    using recv_loop_tcb [of E t p n 0 w k t' w'] by (auto simp: recv_when_established_def)
next
  case (app_write t p n w k t' w')
  then show ?case using send_conn_ok by blast
qed

lemma conn_reach_conn_ok: "conn_reach E ll_send t \<Longrightarrow> conn_ok t"
  by (induction rule: conn_reach.induct) (auto simp: open_conn_ok conn_step_ok)

end
