(* ===== verification/Tcp_Wire.thy ===== *)
theory Tcp_Wire
  imports Tcp_Reach
begin

text \<open>
  What the link layer gets from a connection.  \<open>on_wire w dg bs\<close> says that the block
  handed over as \<^verbatim>\<open>datagram->raw_data\<close> carries the bytes \<open>bs\<close>.
\<close>

definition on_wire :: "'w heap_scheme \<Rightarrow> ip_datagram \<Rightarrow> u8 list \<Rightarrow> bool" where
  "on_wire w dg bs \<longleftrightarrow> (\<exists>as q. block w (dg_raw dg) as q \<and> block_bytes w as = Some bs)"

section \<open>Frames of copies and stack objects\<close>

lemma fresh_blk_netw [simp]:
  fixes w :: "'w netw_scheme"
  shows "ips (fresh_blk n w) = ips w" "ident (fresh_blk n w) = ident w" "auto_header (fresh_blk n w) = auto_header w"
  by (simp_all add: fresh_blk_def)

lemma wf_heap_copy: "wf_heap w \<Longrightarrow> wf_heap (set_buf (brk w) bs (fresh_blk n w))"
  unfolding wf_heap_def by (auto simp: less_Suc_eq)

lemma wf_heap_push_buf: "wf_heap w \<Longrightarrow> wf_heap (bump (set_buf (brk w) bs w))"
  unfolding wf_heap_def by (auto simp: less_Suc_eq)

lemma wf_heap_push_node:
  "wf_heap w \<Longrightarrow> (\<And>b. ptr_buf (d_data d) = Some b \<Longrightarrow> b < brk w) \<Longrightarrow> wf_heap (bump (set_node (brk w) d w))"
  unfolding wf_heap_def by (auto simp: less_Suc_eq)

lemma wf_heap_set_buf: "wf_heap w \<Longrightarrow> b < brk w \<Longrightarrow> wf_heap (set_buf b bs w)"
  unfolding wf_heap_def by auto

lemma wf_heap_set_node:
  "wf_heap w \<Longrightarrow> a < brk w \<Longrightarrow> (\<And>b. ptr_buf (d_data d) = Some b \<Longrightarrow> b < brk w) \<Longrightarrow> wf_heap (set_node a d w)"
  unfolding wf_heap_def by auto

section \<open>From a packed segment to the link layer\<close>

text \<open>The connection \<open>t\<close> can send through interface \<open>e\<close>.\<close>

definition can_send :: "('tm, 'w) tcpw_scheme \<Rightarrow> 'tm tcb \<Rightarrow> ip \<Rightarrow> addr \<Rightarrow> bool" where
  "can_send w t ip e \<longleftrightarrow> ips w (localhost t) = Some ip \<and> ip_ll ip = Some e \<and>
     ip_version (ip_self ip) = 4 \<and> wf_addr (ip_self ip) \<and> wf_addr (t_dest t) \<and>
     ident w \<noteq> 2147483647 \<and> wf_heap w"

definition tcp_out_hdr :: "('tm, 'w) tcpw_scheme \<Rightarrow> 'tm tcb \<Rightarrow> ip \<Rightarrow> nat \<Rightarrow> ip_header" where
  "tcp_out_hdr w t ip n = sealed_hdr (out_hdr ip (ident w + 1) n (tcp_header (auto_header w) (t_dest t)))"

lemma tcp_out_hdr_plain:
  "can_send w t ip e \<Longrightarrow> plain_hdr (tcp_out_hdr w t ip n)"
  by (simp add: tcp_out_hdr_def can_send_def out_hdr_def tcp_header_def plain_hdr_def)

text \<open>
  The state and the datagram the link layer is called with for a segment of bytes \<open>bs\<close>,
  and what \<^verbatim>\<open>tcp_ip_send\<close> does when it returns: the copy of the segment is at the first
  two unused addresses, the header at the next two.
\<close>

definition sent_world :: "('tm, 'w) tcpw_scheme \<Rightarrow> u8 list \<Rightarrow> ip_header \<Rightarrow> ('tm, 'w) tcpw_scheme" where
  "sent_world w bs hdr = packet_heap (Some (Suc (brk w))) hdr (set_buf (brk w) bs (fresh_blk (length bs) w))"

definition sent_dg :: "('tm, 'w) tcpw_scheme \<Rightarrow> ip_header \<Rightarrow> ip_datagram" where
  "sent_dg w hdr = \<lparr>dg_header = hdr, dg_payload = Some (Suc (brk w)), dg_raw = Some (Suc (Suc (Suc (brk w))))\<rparr>"

definition after_send ::
  "('tm, 'w) tcpw_scheme \<Rightarrow> int \<Rightarrow> ('tm, 'w) tcpw_scheme \<Rightarrow> (bool \<times> ('tm, 'w) tcpw_scheme) option" where
  "after_send w r g = do {
     g \<leftarrow> pop_node (Some (Suc (Suc (Suc (brk w))))) g;
     g \<leftarrow> pop_buf (Ptr (Suc (Suc (brk w))) 0) g;
     if r = 0 then do { (_, g) \<leftarrow> dblk_delete (Some (Suc (brk w))) g; Some (False, g) }
     else Some (True, g) }"

lemma tcp_ip_send_eq:
  assumes cs: "can_send w t ip e"
    and raw: "block w (sg_raw seg) as q" "block_bytes w as = Some bs" "length bs < 1400"
    and ok: "malloc_ok w (mallocs w)" "malloc_ok w (Suc (mallocs w))"
  defines "hdr \<equiv> tcp_out_hdr w t ip (length bs)"
  shows "tcp_ip_send ll_send t seg w = do {
    (r, g) \<leftarrow> ll_send e (sent_dg w hdr) (sent_world w bs hdr);
    after_send w r g }"
proof -
  note C = cs [unfolded can_send_def]
  let ?W = "set_buf (brk w) bs (fresh_blk (length bs) w)"
  let ?dg = "\<lparr>dg_header = tcp_header (auto_header w) (t_dest t), dg_payload = Some (Suc (brk w)), dg_raw = None\<rparr>"
  have wf: "wf_heap w" using C by simp
  have copy: "dblk_copy (sg_raw seg) w = Some (Some (Suc (brk w)), ?W)"
    by (rule dblk_copy_block [OF wf raw(1,2) _ ok]) (use raw(3) in simp)
  have bytes: "block_bytes ?W [Suc (brk w)] = Some bs"
    by (rule fresh_copy_bytes) (use raw(3) in simp)
  have size: "dblk_size ?W (dg_payload ?dg) = Some (length bs)"
    using dblk_size_bytes [OF fresh_copy_block bytes] by simp
  have ready: "link_ready ip (dg_header ?dg)"
    using C by (simp add: link_ready_def tcp_header_def)
  have seal: "sealed_hdr (out_hdr ip (ident ?W + 1) (length bs) (dg_header ?dg)) = hdr"
    by (simp add: tcp_out_hdr_def hdr_def)
  have "ip_hl_send ll_send ip ?dg ?W = do {
      (r, g) \<leftarrow> ll_send e (sent_dg w hdr) (sent_world w bs hdr);
      g \<leftarrow> pop_node (Some (Suc (Suc (Suc (brk w))))) g;
      g \<leftarrow> pop_buf (Ptr (Suc (Suc (brk w))) 0) g;
      Some (r, g) }"
    using ip_hl_send_small_eq [OF size raw(3) ready] C seal by (simp add: sent_dg_def sent_world_def)
  then show ?thesis
    using C copy unfolding tcp_ip_send_def after_send_def by (simp add: bind_assoc case_prod_beta' cong: if_cong)
qed

text \<open>The packet is one block: the header and then the segment.\<close>

lemma sent_world_wire:
  assumes cs: "can_send w t ip e" and len: "length bs < 1400"
  defines "hdr \<equiv> tcp_out_hdr w t ip (length bs)"
  shows "block (sent_world w bs hdr) (dg_raw (sent_dg w hdr)) [Suc (Suc (Suc (brk w))), Suc (brk w)] None"
    and "block_bytes (sent_world w bs hdr) [Suc (Suc (Suc (brk w))), Suc (brk w)] = Some (hdr_bytes hdr @ bs)"
proof -
  let ?W = "set_buf (brk w) bs (fresh_blk (length bs) w)"
  have wf: "wf_heap w" using cs by (simp add: can_send_def)
  have bytes: "block_bytes ?W [Suc (brk w)] = Some bs"
    by (rule fresh_copy_bytes) (use len in simp)
  show "block (sent_world w bs hdr) (dg_raw (sent_dg w hdr)) [Suc (Suc (Suc (brk w))), Suc (brk w)] None"
    using packet_heap_block [OF wf_heap_copy [OF wf] fresh_copy_block]
    by (simp add: sent_world_def sent_dg_def)
  show "block_bytes (sent_world w bs hdr) [Suc (Suc (Suc (brk w))), Suc (brk w)] = Some (hdr_bytes hdr @ bs)"
    using packet_heap_bytes [OF wf_heap_copy [OF wf] fresh_copy_block bytes tcp_out_hdr_plain [OF cs]]
    by (simp add: sent_world_def hdr_def)
qed

lemma sent_on_wire:
  assumes "can_send w t ip e" "length bs < 1400"
  defines "hdr \<equiv> tcp_out_hdr w t ip (length bs)"
  shows "on_wire (sent_world w bs hdr) (sent_dg w hdr) (hdr_bytes hdr @ bs)"
  unfolding on_wire_def hdr_def using sent_world_wire [OF assms(1,2)] by blast

section \<open>A control segment\<close>

definition tcp_ph :: "ip \<Rightarrow> 'tm tcb \<Rightarrow> addr \<Rightarrow> pseudo_header" where
  "tcp_ph ip t c = \<lparr>ph_src = ip_self ip, ph_dest = t_dest t, ph_protocol = IP_PROTOCOL_TCP,
     ph_length = 0, ph_data = Ptr c 0, ph_data_size = 12\<rparr>"

lemma seg_csum_ph_data: "seg_csum (tcp_ph ip t c) seg ps = seg_csum (tcp_ph ip t c') seg ps"
  by (simp add: seg_csum_def tcp_ph_def)

lemma packed_heap_netw [simp]:
  fixes h :: "'w netw_scheme"
  shows "ips (packed_heap a d b i bs c phb sb h) = ips h" "ident (packed_heap a d b i bs c phb sb h) = ident h"
    "auto_header (packed_heap a d b i bs c phb sb h) = auto_header h"
    "mallocs (packed_heap a d b i bs c phb sb h) = mallocs h"
    "malloc_ok (packed_heap a d b i bs c phb sb h) = malloc_ok h"
  by (simp_all add: packed_heap_def)

text \<open>The machine while \<^verbatim>\<open>tcp_send_ctrl_seg\<close> runs: its node, its buffer, its pseudo header.\<close>

definition ctrl_frame :: "'w heap_scheme \<Rightarrow> 'w heap_scheme" where
  "ctrl_frame w = (let w1 = snd (dblk_node_new_from_stack_with_buff 32 w) in
     bump (set_buf (brk w1) (fresh_bytes w1 12) w1))"

lemma ctrl_frame_sel [simp]:
  "nodes (ctrl_frame w) = (nodes w)(Suc (brk w) \<mapsto> init_dblk (Ptr (brk w) 0) 32)"
  "brk (ctrl_frame w) = Suc (Suc (Suc (brk w)))" "mallocs (ctrl_frame w) = mallocs w"
  "malloc_ok (ctrl_frame w) = malloc_ok w"
  "bufs (ctrl_frame w) (brk w) = Some (fresh_bytes w 32)"
  "\<exists>cs. bufs (ctrl_frame w) (Suc (Suc (brk w))) = Some cs \<and> length cs = 12"
  by (simp_all add: ctrl_frame_def dblk_node_new_from_stack_with_buff_eq)

lemma ctrl_frame_netw [simp]:
  fixes w :: "'w netw_scheme"
  shows "ips (ctrl_frame w) = ips w" "ident (ctrl_frame w) = ident w" "auto_header (ctrl_frame w) = auto_header w"
  by (simp_all add: ctrl_frame_def dblk_node_new_from_stack_with_buff_eq)

lemma wf_ctrl_frame: "wf_heap w \<Longrightarrow> wf_heap (ctrl_frame w)"
  unfolding ctrl_frame_def wf_heap_def
  by (auto simp: dblk_node_new_from_stack_with_buff_eq less_Suc_eq)

lemma wf_packed_heap:
  assumes "wf_heap h" "a < brk h" "b < brk h" "c < brk h" "\<And>x. ptr_buf (d_data d) = Some x \<Longrightarrow> x < brk h"
  shows "wf_heap (packed_heap a d b i bs c phb sb h)"
  using assms unfolding wf_heap_def packed_heap_def by auto

text \<open>The control segment, and the state in which it is packed and not yet sent.\<close>

definition ctrl_out :: "('tm, 'w) tcpw_scheme \<Rightarrow> 'tm tcb \<Rightarrow> ip \<Rightarrow> u32 \<Rightarrow> u32 \<Rightarrow> u16 \<Rightarrow> tcp_segment" where
  "ctrl_out w t ip seq ack flags = sealed_seg (tcp_ph ip t 0) (ctrl_seg t seq ack flags (Some (Suc (brk w)))) []"

definition ctrl_world ::
  "('tm, 'w) tcpw_scheme \<Rightarrow> 'tm tcb \<Rightarrow> ip \<Rightarrow> tcp_segment \<Rightarrow> ('tm, 'w) tcpw_scheme" where
  "ctrl_world w t ip seg = packed_heap (Suc (brk w)) (init_dblk (Ptr (brk w) 0) 32) (brk w) 0 (fresh_bytes w 32)
     (Suc (Suc (brk w))) (ph_bytes (ip_self ip) (t_dest t) IP_PROTOCOL_TCP 20) (seg_bytes seg) (ctrl_frame w)"

lemma ctrl_world_sel [simp]:
  "brk (ctrl_world w t ip seg) = Suc (Suc (Suc (brk w)))" "ident (ctrl_world w t ip seg) = ident w"
  "auto_header (ctrl_world w t ip seg) = auto_header w" "ips (ctrl_world w t ip seg) = ips w"
  "mallocs (ctrl_world w t ip seg) = mallocs w" "malloc_ok (ctrl_world w t ip seg) = malloc_ok w"
  by (simp_all add: ctrl_world_def)

lemma ctrl_world_can_send:
  assumes "can_send w t ip e"
  shows "can_send (ctrl_world w t ip seg) t ip e"
proof -
  have "wf_heap (ctrl_world w t ip seg)"
    using assms unfolding ctrl_world_def can_send_def by (intro wf_packed_heap wf_ctrl_frame) auto
  then show ?thesis using assms by (simp add: can_send_def)
qed

lemma ctrl_world_raw:
  "block (ctrl_world w t ip seg) (Some (Suc (brk w))) [Suc (brk w)] None"
  "block_bytes (ctrl_world w t ip seg) [Suc (brk w)] = Some (seg_bytes seg)"
  using take_drop_splice_at [of 0 "seg_bytes seg" "fresh_bytes w 32"]
  by (simp_all add: ctrl_world_def block.simps(2) node_bytes_def node_size_def mem_simps)

lemma tcp_send_ctrl_seg_eq:
  fixes seq ack :: u32 and flags :: u16
  assumes cs: "can_send w t ip e" and ok: "malloc_ok w (mallocs w)" "malloc_ok w (Suc (mallocs w))"
  defines "seg \<equiv> ctrl_out w t ip seq ack flags" and "hdr \<equiv> tcp_out_hdr w t ip 20"
  defines "G \<equiv> ctrl_world w t ip seg"
  shows "tcp_send_ctrl_seg ll_send t seq ack flags w = do {
    (r, g) \<leftarrow> ll_send e (sent_dg G hdr) (sent_world G (seg_bytes seg) hdr);
    (ok, g) \<leftarrow> after_send G r g;
    g \<leftarrow> pop_buf (Ptr (Suc (Suc (brk w))) 0) g;
    g \<leftarrow> pop_node (Some (Suc (brk w))) g;
    g \<leftarrow> pop_buf (Ptr (brk w) 0) g;
    Some (ok, if ok then t\<lparr>snd_nxt := snd_nxt t + of_nat (flag_count flags)\<rparr> else t, g) }"
proof -
  note C = cs [unfolded can_send_def]
  let ?a = "Suc (brk w)" and ?b = "brk w" and ?c = "Suc (Suc (brk w))"
  let ?d = "init_dblk (Ptr ?b 0) 32" and ?F = "ctrl_frame w"
  let ?s = "ctrl_seg t seq ack flags (Some ?a)" and ?ph = "tcp_ph ip t ?c"
  have hd: "hdr_node ?F ?a ?d ?b 0 (fresh_bytes w 32)" by (simp add: hdr_node_def)
  have ph: "ph_ready ?ph ?c ?F" using C by (simp add: ph_ready_def tcp_ph_def)
  have s: "sg_raw ?s = Some ?a" "sg_options ?s = None" "sg_payload ?s = None"
    by (simp_all add: ctrl_seg_def tcp_segment_init_def)
  have seal: "sealed_seg ?ph ?s [] = seg"
    by (simp add: seg_def ctrl_out_def sealed_seg_def seg_csum_ph_data [of ip t ?c ?s "[]" 0])
  have pack: "tcp_pack ?s ?ph ?F = Some (True, seg, G)"
    using tcp_pack_ready [OF hd ph _ s(1,2), of "[]"] s seal
    by (simp add: dblk_merge_def G_def ctrl_world_def tcp_ph_def)
  have raw: "sg_raw seg = Some ?a" "sg_payload seg = None" "sg_flags seg = flags"
    by (simp_all add: seg_def ctrl_out_def ctrl_seg_def tcp_segment_init_def)
  have len: "tcp_segment_length g seg = Some (flag_count flags)" for g :: "('a, 'b) tcpw_scheme"
    by (simp add: tcp_segment_length_def raw flag_count_def seg_ctrl_defs)
  have hdr: "tcp_out_hdr G t ip (length (seg_bytes seg)) = hdr" by (simp add: tcp_out_hdr_def hdr_def G_def)
  have send: "tcp_ip_send ll_send t seg G = do {
      (r, g) \<leftarrow> ll_send e (sent_dg G hdr) (sent_world G (seg_bytes seg) hdr);
      after_send G r g }"
    using tcp_ip_send_eq [of G t ip e seg "[?a]" None "seg_bytes seg" ll_send]
      ctrl_world_can_send [OF cs, of seg] ctrl_world_raw [of w t ip seg] ok raw hdr
    by (simp add: G_def)
  have frame: "bump (set_buf ?c (fresh_bytes (bump (set_node ?a ?d (bump (set_buf ?b (fresh_bytes w 32) w)))) 12)
      (bump (set_node ?a ?d (bump (set_buf ?b (fresh_bytes w 32) w))))) = ?F"
    by (simp add: ctrl_frame_def dblk_node_new_from_stack_with_buff_eq)
  show ?thesis
    using C pack send frame
    unfolding tcp_send_ctrl_seg_def dblk_node_new_from_stack_with_buff_eq pseudo_header_new_eq
    by (simp add: tcp_ph_def len bind_assoc case_prod_beta' del: heap_field_commute cong: if_cong)
qed

lemma ctrl_on_wire:
  fixes seq ack :: u32 and flags :: u16
  assumes "can_send w t ip e"
  defines "seg \<equiv> ctrl_out w t ip seq ack flags" and "hdr \<equiv> tcp_out_hdr w t ip 20"
  defines "G \<equiv> ctrl_world w t ip seg"
  shows "on_wire (sent_world G (seg_bytes seg) hdr) (sent_dg G hdr) (hdr_bytes hdr @ seg_bytes seg)"
proof -
  have "tcp_out_hdr G t ip (length (seg_bytes seg)) = hdr" by (simp add: tcp_out_hdr_def hdr_def G_def)
  then show ?thesis
    using sent_on_wire [of G t ip e "seg_bytes seg"] ctrl_world_can_send [OF assms(1)] by (simp add: G_def)
qed

end
