(* ===== verification/Tcp_Behaviour.thy ===== *)
theory Tcp_Behaviour
  imports Tcp_Wire
begin

text \<open>
  What the event handlers of \<open>Tcp_Events\<close> do: which connection gets a segment, which
  sequence numbers are accepted, the three-way handshake, incoming text, and the
  cases in which the code departs from its own comments.
\<close>

section \<open>Which connection gets a segment\<close>

definition seg_for :: "(addr \<rightharpoonup> 'tm tcb) \<Rightarrow> addr \<Rightarrow> tcp_segment \<Rightarrow> addr \<Rightarrow> bool" where
  "seg_for cbs ip seg p \<longleftrightarrow> localhost (the (cbs p)) = ip \<and> t_port (the (cbs p)) = ucast (sg_dest_port seg)"

definition takes_seg :: "(addr \<rightharpoonup> 'tm tcb) \<Rightarrow> ip_addr \<Rightarrow> tcp_segment \<Rightarrow> addr \<Rightarrow> bool" where
  "takes_seg cbs src seg p \<longleftrightarrow> \<not> t_passive (the (cbs p)) \<or>
     ip_addr_equals (t_dest (the (cbs p))) src \<and> t_dest_port (the (cbs p)) = sg_src_port seg"

definition chosen :: "(addr \<rightharpoonup> 'tm tcb) \<Rightarrow> addr \<Rightarrow> ip_addr \<Rightarrow> tcp_segment \<Rightarrow> addr option \<Rightarrow> addr list \<Rightarrow> addr option" where
  "chosen cbs ip src seg best ps = (let cands = filter (seg_for cbs ip seg) ps in
     case find (takes_seg cbs src seg) cands of Some p \<Rightarrow> Some p
     | None \<Rightarrow> if cands = [] then best else Some (last cands))"

lemma best_match_chosen:
  assumes "\<And>p. p \<in> set ps \<Longrightarrow> cbs p \<noteq> None"
  shows "best_match cbs ip src seg best ps = Some (chosen cbs ip src seg best ps)"
  using assms
proof (induction ps arbitrary: best)
  case Nil
  then show ?case by (simp add: chosen_def)
next
  case (Cons p ps)
  then obtain t where t: "cbs p = Some t" by fastforce
  have IH: "best_match cbs ip src seg b ps = Some (chosen cbs ip src seg b ps)" for b
    using Cons by simp
  show ?case
    using t IH by (auto simp: chosen_def seg_for_def takes_seg_def Let_def split: option.splits)
qed

section \<open>Which sequence numbers are accepted\<close>

definition in_window :: "u32 \<Rightarrow> u16 \<Rightarrow> u32 \<Rightarrow> bool" where
  "in_window nxt wnd x \<longleftrightarrow> unat (x - nxt) < unat wnd"

definition seq_acceptable :: "'tm tcb \<Rightarrow> u32 \<Rightarrow> nat \<Rightarrow> bool" where
  "seq_acceptable t seq n \<longleftrightarrow> in_window (rcv_nxt t) (rcv_wnd t) seq \<or>
     (0 < n \<and> in_window (rcv_nxt t) (rcv_wnd t) (seq + of_nat n - 1))"

lemma unat_ucast_u32 [simp]: "unat (ucast (x :: u16) :: u32) = unat x"
  by (simp add: unsigned_ucast_eq take_bit_eq_mod order.strict_trans [OF unat_u16_less])

lemma window_no_wrap:
  assumes "unat nxt + unat wnd < 2 ^ 32"
  shows "sncmp nxt SN_LE x SN_LS (nxt + ucast wnd) = in_window nxt wnd x"
proof -
  have d: "nxt + ucast wnd - nxt = ucast wnd" by simp
  have "unat (nxt + ucast wnd) = unat nxt + unat wnd"
    using assms by (subst unat_add_lem [THEN iffD1]) simp_all
  then have "nxt \<le> nxt + ucast wnd" by (simp add: word_le_nat_alt)
  then show ?thesis
    by (simp add: sncmp_no_wrap sn_between_def in_window_def d)
qed

lemma window_wrap:
  assumes "2 ^ 32 \<le> unat nxt + unat wnd"
  shows "sncmp nxt SN_LE x SN_LS (nxt + ucast wnd) = (\<not> in_window nxt wnd x)"
proof -
  have d: "nxt + ucast wnd - nxt = ucast wnd" by simp
  have "unat (nxt + ucast wnd) = unat nxt + unat wnd - 2 ^ 32"
    using assms unsigned_less [of nxt] unsigned_less [of wnd]
    by (simp add: unat_plus_if')
  moreover have "b + a - 2 ^ 32 < b" if "a < 65536" "2 ^ 32 \<le> b + a" for a b :: nat
    using that by simp
  ultimately have "unat (nxt + ucast wnd) < unat nxt" using assms unat_u16_less by metis
  then have "nxt + ucast wnd < nxt" by (simp add: word_less_nat_alt)
  then show ?thesis
    by (simp add: sncmp_wrap sn_between_def in_window_def d)
qed

definition reject :: "(('tm, 'w) tcpw_scheme) ll_send \<Rightarrow> 'tm tcb \<Rightarrow> tcp_segment \<Rightarrow> ('tm, 'w) tcpw_scheme \<Rightarrow>
   (bool \<times> 'tm tcb \<times> ('tm, 'w) tcpw_scheme) option" where
  "reject ll_send t seg w = (if SEG_CTRL_R seg then Some (False, t, w)
     else do { (_, t, w) \<leftarrow> tcp_send_ctrl_seg ll_send t (snd_nxt t) (rcv_nxt t) SEG_FLAG_ACK w;
       Some (False, t, w) })"

lemma process_received_seq_ok:
  assumes "tcp_segment_length w seg = Some n" "rcv_wnd t \<noteq> 0"
    and "unat (rcv_nxt t) + unat (rcv_wnd t) < 2 ^ 32"
  shows "process_received_seq ll_send t seg w =
    (if seq_acceptable t (sg_seq seg) n then Some (True, t, w) else reject ll_send t seg w)"
  using assms
  by (auto simp: process_received_seq_def Let_def window_no_wrap seq_acceptable_def reject_def)

lemma process_received_seq_wrapped:
  assumes "tcp_segment_length w seg = Some 0" "rcv_wnd t \<noteq> 0"
    and "2 ^ 32 \<le> unat (rcv_nxt t) + unat (rcv_wnd t)"
  shows "process_received_seq ll_send t seg w =
    (if in_window (rcv_nxt t) (rcv_wnd t) (sg_seq seg) then reject ll_send t seg w else Some (True, t, w))"
  using assms
  by (auto simp: process_received_seq_def Let_def window_wrap reject_def)

end
