(* ===== verification/Tcp_Text.thy ===== *)
theory Tcp_Text
  imports Tcp_Behaviour
begin

text \<open>
  The handshake of a passive connection, incoming text, and the places where the
  handlers run into undefined behaviour or deliver bytes that were never sent.
\<close>

section \<open>The queue of segments\<close>

lemma next_seg_one:
  assumes "list_laws E" "rx_segs t = a # q" "segs w a = Some seg"
  shows "next_seg E t w = Some (Some seg, t\<lparr>rx_segs := q\<rparr>)"
  using assms by (simp add: next_seg_def list_laws_def)

lemma tcp_segment_length_plain:
  "\<not> SEG_CTRL_S seg \<Longrightarrow> \<not> SEG_CTRL_F seg \<Longrightarrow> dblk_size w (sg_payload seg) = Some n \<Longrightarrow>
   tcp_segment_length w seg = Some n"
  by (simp add: tcp_segment_length_def)

section \<open>The handshake\<close>

lemma flag_count_syn_ack [simp]: "flag_count (SEG_FLAG_SYN OR SEG_FLAG_ACK) = 1"
  by (simp add: flag_count_def seg_flag_defs)

lemma flag_count_ack [simp]: "flag_count SEG_FLAG_ACK = 0" "flag_count SEG_FLAG_RST = 0"
  by (simp_all add: flag_count_def seg_flag_defs)

lemma listen_syn_result:
  assumes "list_laws E" "rx_segs t = [a]" "segs w a = Some seg" "t_state t = LISTEN"
    and "SEG_CTRL_S seg" "\<not> SEG_CTRL_R seg" "\<not> SEG_CTRL_A seg" "sg_datagram seg = Some dg"
    and "tcp_received E ll_send t w = Some (t', w')"
  shows "t' = t\<lparr>rx_segs := [], rcv_nxt := sg_seq seg + 1, rcv_irs := sg_seq seg,
      t_dest_port := sg_src_port seg, t_dest := h_src (dg_header dg)\<rparr> \<or>
    t' = t\<lparr>rx_segs := [], rcv_nxt := sg_seq seg + 1, rcv_irs := sg_seq seg,
      t_dest_port := sg_src_port seg, t_dest := h_src (dg_header dg), snd_nxt := snd_nxt t + 1,
      t_state := SYN_RECEIVED\<rparr>"
  using assms(4-9) next_seg_one [OF assms(1-3)]
  by (auto simp: tcp_received_def received_when_listen_def listen_seg_def listen_syn_def
      bind_Some_iff Let_def split: if_splits dest!: tcp_send_ctrl_seg_tcb)

lemma in_window_self: "wnd \<noteq> 0 \<Longrightarrow> in_window nxt wnd nxt"
  by (simp add: in_window_def unat_gt_0)

lemma process_next_expected:
  assumes "tcp_segment_length w seg = Some n" "rcv_wnd t \<noteq> 0"
    and "unat (rcv_nxt t) + unat (rcv_wnd t) < 2 ^ 32" "sg_seq seg = rcv_nxt t"
  shows "process_received_seq ll_send t seg w = Some (True, t, w)"
  using assms in_window_self [of "rcv_wnd t" "rcv_nxt t"]
  by (simp add: process_received_seq_ok seq_acceptable_def)

lemma syn_received_ack_result:
  assumes "list_laws E" "rx_segs t = [a]" "segs w a = Some seg" "t_state t = SYN_RECEIVED"
    and "SEG_CTRL_A seg" "\<not> SEG_CTRL_R seg" "\<not> SEG_CTRL_S seg" "\<not> SEG_CTRL_F seg"
    and "dblk_size w (sg_payload seg) = Some n"
    and "rcv_wnd t \<noteq> 0" "unat (rcv_nxt t) + unat (rcv_wnd t) < 2 ^ 32" "sg_seq seg = rcv_nxt t"
    and "snd_una t \<le> sg_ack seg" "sg_ack seg \<le> snd_nxt t"
  shows "tcp_received E ll_send t w =
    Some (t\<lparr>rx_segs := [], snd_una := sg_ack seg, t_state := ESTABLISHED\<rparr>, w)"
proof -
  let ?t = "t\<lparr>rx_segs := []\<rparr>"
  have p: "process_received_seq ll_send ?t seg w = Some (True, ?t, w)"
    using assms(7-12) by (intro process_next_expected [where n = n] tcp_segment_length_plain) auto
  have s: "sncmp (snd_una t) SN_LE (sg_ack seg) SN_LE (snd_nxt t)"
    using assms(13,14) by (auto simp: sncmp_def)
  show ?thesis
    using assms(4-6,8) next_seg_one [OF assms(1-3)] p s
    by (simp add: tcp_received_def received_when_syn_received_def syn_received_ack_def)
qed

text \<open>An acknowledgment that is not acceptable is answered with a reset, and yet the FIN
  of the same segment moves the connection to \<^verbatim>\<open>CLOSE_WAIT\<close>.\<close>

lemma syn_received_bad_ack_fin:
  assumes "list_laws E" "rx_segs t = [a]" "segs w a = Some seg" "t_state t = SYN_RECEIVED"
    and "SEG_CTRL_A seg" "\<not> SEG_CTRL_R seg" "SEG_CTRL_F seg" "tcp_segment_length w seg = Some n"
    and "rcv_wnd t \<noteq> 0" "unat (rcv_nxt t) + unat (rcv_wnd t) < 2 ^ 32" "sg_seq seg = rcv_nxt t"
    and "tcp_received E ll_send t w = Some (t', w')"
  shows "t_state t' = CLOSE_WAIT"
proof -
  let ?t = "t\<lparr>rx_segs := []\<rparr>"
  have p: "process_received_seq ll_send ?t seg w = Some (True, ?t, w)"
    using assms(8-11) by (intro process_next_expected) auto
  show ?thesis
    using assms(4-7,12) next_seg_one [OF assms(1-3)] p
    by (auto simp: tcp_received_def received_when_syn_received_def bind_Some_iff)
qed

section \<open>A null pointer in \<open>ESTABLISHED\<close>\<close>

lemma established_null_tx_seg:
  assumes "list_laws E" "rx_segs t = [a]" "segs w a = Some seg" "t_state t = ESTABLISHED"
    and "SEG_CTRL_A seg" "\<not> SEG_CTRL_R seg" "tcp_segment_length w seg = Some n"
    and "rcv_wnd t \<noteq> 0" "unat (rcv_nxt t) + unat (rcv_wnd t) < 2 ^ 32" "sg_seq seg = rcv_nxt t"
    and "tx_seg t = None"
  shows "tcp_received E ll_send t w = None"
proof -
  let ?t = "t\<lparr>rx_segs := []\<rparr>"
  have p: "process_received_seq ll_send ?t seg w = Some (True, ?t, w)"
    using assms(7-10) by (intro process_next_expected) auto
  show ?thesis
    using assms(4-6,11) next_seg_one [OF assms(1-3)] p
    by (simp add: tcp_received_def received_when_established_def established_ack_def tx_seg_is_fin_def)
qed

section \<open>Text\<close>

lemma copy_from_fresh:
  assumes "mem_read w p n = Some ps" "ptr_buf p \<noteq> Some (brk w)" "n < 65536"
  shows "dblk_copy_from (Some (Suc (brk w))) p n (fresh_blk n w) =
    Some (n, set_buf (brk w) ps (fresh_blk n w))"
proof -
  let ?W = "fresh_blk n w"
  have rd: "mem_read ?W p n = Some ps"
    using assms(1,2) by (cases p) (auto simp: mem_read_def split: if_splits option.splits)
  have len: "length ps = n" by (rule mem_read_length [OF assms(1)])
  have "memcpy (Ptr (brk w) 0) p n ?W = Some (set_buf (brk w) ps ?W)"
    using memcpy_live [OF rd, of "brk w" "map (junk w (brk w)) [0..<n]" 0] len by simp
  then show ?thesis
    using assms(3)
    by (simp add: dblk_copy_from_def copy_from_loop.simps [of "Some (Suc (brk w))"])
qed

text \<open>
  Text that continues the stream: as much of it as the window takes is queued as a block of
  its own; then the segment in flight, or if there is none a segment that is sent at once,
  acknowledges it.
\<close>

lemma handle_data_queues:
  fixes E :: "'tm ext"
  assumes wf: "wf_heap w" and ok: "malloc_ok w (mallocs w)" "malloc_ok w (Suc (mallocs w))"
    and seg: "sg_seq dat = rcv_nxt t" "tcp_segment_length w dat = Some n" "0 < n" "k = min n (unat (rcv_wnd t))"
    and pl: "sg_payload dat = Some m" "nodes w m = Some d" "mem_read w (d_data d) k = Some ps"
  defines "t1 \<equiv> t\<lparr>rx_data := list_enqueue E (Suc (brk w)) (rx_data t), rcv_nxt := rcv_nxt t + of_nat k\<rparr>"
  shows "tcp_handle_data E ll_send t dat w = (case tx_seg t of
      Some s \<Rightarrow> Some (True, t1\<lparr>tx_seg := Some (s\<lparr>sg_ack := rcv_nxt t1\<rparr>)\<rparr>, set_buf (brk w) ps (fresh_blk k w))
    | None \<Rightarrow> do { (_, t', w') \<leftarrow> tcp_send_ctrl_seg ll_send t1 (snd_una t) (rcv_nxt t1) SEG_FLAG_ACK
                      (set_buf (brk w) ps (fresh_blk k w));
                    Some (True, t', w') })"
proof -
  have k: "k < 65536" using seg(4) unat_u16_less [of "rcv_wnd t"] by linarith
  have "ptr_buf (d_data d) \<noteq> Some (brk w)" using wf_heap_data [OF wf pl(2)] by auto
  then have cpy: "dblk_copy_from (Some (Suc (brk w))) (d_data d) k (fresh_blk k w) =
      Some (k, set_buf (brk w) ps (fresh_blk k w))"
    by (intro copy_from_fresh pl(3) k)
  have m: "m < brk w" by (rule wf_heap_node [OF wf pl(2)])
  have min: "(if unat (rcv_wnd t) < n then unat (rcv_wnd t) else n) = k" using seg(4) by simp
  show ?thesis
    using seg(1-3) pl(1,2) m cpy dblk_node_new_with_buff_ok [OF ok, of k]
    by (cases "tx_seg t") (simp_all add: tcp_handle_data_def t1_def min)
qed

lemma handle_data_text:
  assumes "wf_heap w" "malloc_ok w (mallocs w)" "malloc_ok w (Suc (mallocs w))"
    and "sg_seq dat = rcv_nxt t" "tcp_segment_length w dat = Some n" "0 < n" "n \<le> unat (rcv_wnd t)"
    and "sg_payload dat = Some m" "nodes w m = Some d" "mem_read w (d_data d) n = Some ps"
    and "tx_seg t = Some s"
  shows "tcp_handle_data E ll_send t dat w = Some (True,
    t\<lparr>rx_data := list_enqueue E (Suc (brk w)) (rx_data t), rcv_nxt := rcv_nxt t + of_nat n,
      tx_seg := Some (s\<lparr>sg_ack := rcv_nxt t + of_nat n\<rparr>)\<rparr>, set_buf (brk w) ps (fresh_blk n w))"
proof -
  have "n = min n (unat (rcv_wnd t))" using assms(7) by simp
  from handle_data_queues [OF assms(1-6) this assms(8-10)] show ?thesis using assms(11) by simp
qed

lemma fresh_text_block:
  assumes "n < 65536" "length ps = n"
  shows "block (set_buf (brk w) ps (fresh_blk n w)) (Some (Suc (brk w))) [Suc (brk w)] None"
    "block_bytes (set_buf (brk w) ps (fresh_blk n w)) [Suc (brk w)] = Some ps"
  using assms fresh_copy_block [of w ps] fresh_copy_bytes [of ps w] by simp_all

end
