(* ===== verification/Socket_Behaviour.thy ===== *)
theory Socket_Behaviour
  imports Socket Tcp_Text
begin

text \<open>
  What the socket layer does: descriptors, and the life of a datagram from the UDP callback to
  \<^verbatim>\<open>recvfrom\<close>.
\<close>

section \<open>Descriptors\<close>

lemma to_socket_to_int [simp]: "p < 2 ^ 32 \<Longrightarrow> to_socket (to_int p) = p"
  by (simp add: to_socket_def to_int_def unat_of_nat_small)

lemma to_int_small: "n < 2 ^ 31 \<Longrightarrow> to_int n = int n"
  unfolding to_int_def by (simp add: signed_of_nat take_bit_nat_eq_self signed_take_bit_int_eq_self)

lemma sock_fields [simp]:
  "socks (set_buf b bs w) = socks w" "socks (del_buf b w) = socks w"
  "socks (set_node a d w) = socks w" "socks (del_node a w) = socks w" "socks (fresh_blk n w) = socks w"
  by (simp_all add: set_buf_def del_buf_def set_node_def del_node_def fresh_blk_def)

lemma heap_of_socks [simp]:
  "set_buf b bs (w\<lparr>socks := s\<rparr>) = (set_buf b bs w)\<lparr>socks := s\<rparr>"
  "set_node a d (w\<lparr>socks := s\<rparr>) = (set_node a d w)\<lparr>socks := s\<rparr>"
  "del_buf b (w\<lparr>socks := s\<rparr>) = (del_buf b w)\<lparr>socks := s\<rparr>"
  "del_node a (w\<lparr>socks := s\<rparr>) = (del_node a w)\<lparr>socks := s\<rparr>"
  by (simp_all add: set_buf_def set_node_def del_buf_def del_node_def)

section \<open>Datagrams\<close>

lemma udp_recv_queues:
  assumes E: "list_laws E" and sk: "get_sock fd w = Some sk" and wf: "wf_heap w"
    and ok: "malloc_ok w (mallocs w)" "malloc_ok w (Suc (mallocs w))"
    and data: "mem_read w p n = Some ps" "0 < n" "n < 65536"
  shows "udp_recv E fd p n w = Some ((set_buf (brk w) ps (fresh_blk n w))
    \<lparr>socks := (socks w)(to_socket fd \<mapsto> sk\<lparr>rx_queue := rx_queue sk @ [Suc (brk w)]\<rparr>)\<rparr>)"
proof -
  have "ptr_buf p \<noteq> Some (brk w)"
    using data(1,2) wf_heap_buf [OF wf, of "brk w"] by (cases p) (auto simp: mem_read_def split: option.splits)
  then have "dblk_copy_from (Some (Suc (brk w))) p n (fresh_blk n w) =
      Some (n, set_buf (brk w) ps (fresh_blk n w))"
    by (intro copy_from_fresh data(1,3))
  then show ?thesis
    using sk E dblk_node_new_with_buff_ok [OF ok, of n]
    by (simp add: udp_recv_def upd_sock_def get_sock_def list_laws_def)
qed

text \<open>One pass of the loop of \<^verbatim>\<open>recvfrom\<close> over a queue that holds one fresh block.\<close>

lemma recvfrom_fresh:
  assumes E: "list_laws E" and sk: "get_sock fd w = Some sk" "rx_queue sk = [Suc c]"
    and blk: "nodes w (Suc c) = Some (init_dblk (Ptr c 0) n\<lparr>d_node_malloc := True, d_data_malloc := True\<rparr>)"
      "bufs w c = Some ps" "length ps = n" "n < 65536"
    and dst: "bufs w b = Some bs" "i + n \<le> length bs" "b \<noteq> c" "n < len"
  shows "recvfrom_loop E fd (Ptr b i) len 0 w = Some (n,
    del_node (Suc c) (del_buf c (set_buf b (splice_at bs i ps) w))
      \<lparr>socks := (socks w)(to_socket fd \<mapsto> sk\<lparr>rx_queue := []\<rparr>)\<rparr>)"
proof -
  let ?d = "init_dblk (Ptr c 0) n\<lparr>d_node_malloc := True, d_data_malloc := True\<rparr>"
  let ?w1 = "set_node (Suc c) (?d\<lparr>d_offset := n\<rparr>) (set_buf b (splice_at bs i ps) w)"
  have mr: "mem_read w (d_data ?d) (d_size ?d) = Some ps"
    using blk by (simp add: mem_simps)
  have rd: "dblk_read (Some (Suc c)) (Ptr b i) len w = Some (n, ?w1)"
    using read_loop_one [OF blk(1) _ _ _ mr dst(1), of i len] blk dst by simp
  let ?w2 = "?w1\<lparr>socks := (socks w)(to_socket fd \<mapsto> sk\<lparr>rx_queue := []\<rparr>)\<rparr>"
  have up: "upd_sock fd (\<lambda>sk. sk\<lparr>rx_queue := snd (list_dequeue E (rx_queue sk))\<rparr>) ?w1 = Some ?w2"
    using sk E by (simp add: upd_sock_def get_sock_def list_laws_def)
  have del: "dblk_delete (Some (Suc c)) ?w2 = Some (None, del_node (Suc c) (del_buf c ?w2))"
    using blk dst by (simp add: dblk_delete.simps)
  let ?w3 = "del_node (Suc c) (del_buf c ?w2)"
  have sk3: "get_sock fd ?w3 = Some (sk\<lparr>rx_queue := []\<rparr>)" by (simp add: get_sock_def)
  have last: "recvfrom_loop E fd (Ptr b i) len n ?w3 = Some (n, ?w3)"
    using E sk3 by (simp add: recvfrom_loop.simps list_laws_def)
  have "?w3 = del_node (Suc c) (del_buf c (set_buf b (splice_at bs i ps) w))
      \<lparr>socks := (socks w)(to_socket fd \<mapsto> sk\<lparr>rx_queue := []\<rparr>)\<rparr>"
    by (simp add: del_node_def del_buf_def set_node_def set_buf_def)
  with sk E rd up del last dst(4) show ?thesis
    by (subst recvfrom_loop.simps) (simp add: list_laws_def)
qed

lemma udp_socket_datagram:
  assumes E: "list_laws E" and sk: "get_sock fd w = Some sk" "IS_UDP_SOCK sk" "rx_queue sk = []" and wf: "wf_heap w"
    and ok: "malloc_ok w (mallocs w)" "malloc_ok w (Suc (mallocs w))"
    and data: "mem_read w p n = Some ps" "0 < n" "n < 65536"
    and dst: "bufs w b = Some bs" "i + n \<le> length bs" "n < len"
  shows "\<exists>w1 w2. udp_recv E fd p n w = Some w1 \<and>
    sock_recvfrom E fd (Ptr b i) len MSG_DONTWAIT w1 = Some (int n, w2) \<and>
    bufs w2 = (bufs w)(b \<mapsto> splice_at bs i ps) \<and> nodes w2 = nodes w \<and> socks w2 = socks w"
proof -
  let ?w1 = "(set_buf (brk w) ps (fresh_blk n w))
    \<lparr>socks := (socks w)(to_socket fd \<mapsto> sk\<lparr>rx_queue := rx_queue sk @ [Suc (brk w)]\<rparr>)\<rparr>"
  let ?sk = "sk\<lparr>rx_queue := [Suc (brk w)]\<rparr>"
  have b: "b < brk w" by (rule wf_heap_buf [OF wf dst(1)])
  have len: "length ps = n" using mem_read_length [OF data(1)] .
  let ?w2 = "del_node (Suc (brk w)) (del_buf (brk w) (set_buf b (splice_at bs i ps) ?w1))
      \<lparr>socks := (socks ?w1)(to_socket fd \<mapsto> ?sk\<lparr>rx_queue := []\<rparr>)\<rparr>"
  have r: "recvfrom_loop E fd (Ptr b i) len 0 ?w1 = Some (n, ?w2)"
    by (rule recvfrom_fresh [OF E]) (use sk len data dst b in \<open>simp_all add: get_sock_def\<close>)
  have fl: "MSG_DONTWAIT AND MSG_DONTWAIT \<noteq> 0" by (simp add: MSG_DONTWAIT_def)
  have k: "IS_UDP_SOCK ?sk" using sk(2) by (simp add: IS_UDP_SOCK_def)
  have "sock_recvfrom E fd (Ptr b i) len MSG_DONTWAIT ?w1 = Some (int n, ?w2)"
    using r fl k data(3) sk(3) by (simp add: sock_recvfrom_def get_sock_def to_int_small)
  moreover have "bufs ?w2 = (bufs w)(b \<mapsto> splice_at bs i ps)" "nodes ?w2 = nodes w"
    using wf b by (auto simp: wf_heap_def fun_eq_iff)
  moreover have "socks ?w2 = socks w"
    using sk(1,3) by (auto simp: get_sock_def fun_eq_iff)
  ultimately show ?thesis
    using udp_recv_queues [OF E sk(1) wf ok data] by blast
qed

end
