(* ===== verification/Dhcp_Behaviour.thy ===== *)
theory Dhcp_Behaviour
  imports Dhcp Frame Socket_Behaviour
begin

text \<open>
  What the DHCP client does: what its actions leave alone, how it takes an acknowledgement,
  what an offer leads to, and which states its timers reach.
\<close>

section \<open>What the actions leave alone\<close>

lemma rest_dhcpw:
  assumes "rest w' = rest w"
  shows "only w' = only w" "socks w' = socks w" "second w' = second w" "sys_tick_s w' = sys_tick_s w"
  using assms by (cases w; cases w'; simp add: rest_def sys_tick_s_def)+

lemma rest_upd_only: "rest w' = rest w \<Longrightarrow> rest (upd_only f w') = rest (upd_only f w)"
  by (cases w; cases w'; simp add: rest_def upd_only_def)

lemma upd_only_simps [simp]:
  "only (upd_only f w) = f (only w)" "socks (upd_only f w) = socks w" "second (upd_only f w) = second w"
  "bufs (upd_only f w) = bufs w" "nodes (upd_only f w) = nodes w" "brk (upd_only f w) = brk w"
  "mallocs (upd_only f w) = mallocs w" "malloc_ok (upd_only f w) = malloc_ok w" "sys_tick_s (upd_only f w) = sys_tick_s w"
  "upd_only g (upd_only f w) = upd_only (\<lambda>c. g (f c)) w"
  by (simp_all add: upd_only_def sys_tick_s_def)

lemma upd_only_id [simp]: "upd_only (\<lambda>_. only w) w = w" "upd_only (\<lambda>c. c) w = w"
  by (simp_all add: upd_only_def)

text \<open>Only the message of the client, the heap and the identification counter are different.\<close>

definition msg_only :: "('tm, 'w) dhcpw_scheme \<Rightarrow> ('tm, 'w) dhcpw_scheme \<Rightarrow> bool" where
  "msg_only w w' \<longleftrightarrow> rest w' = rest (upd_msg (\<lambda>_. c_msg (only w')) w)"

lemma msg_onlyD:
  assumes "msg_only w w'"
  shows "only w' = (only w)\<lparr>c_msg := c_msg (only w')\<rparr>" "socks w' = socks w" "second w' = second w"
    "sys_tick_s w' = sys_tick_s w"
  using rest_dhcpw [OF assms [unfolded msg_only_def]] by (simp_all add: upd_msg_def)

lemma msg_only_refl [simp]: "msg_only w w"
  by (simp add: msg_only_def upd_msg_def upd_only_def)

lemma msg_only_rest: "rest w' = rest w \<Longrightarrow> msg_only w w'"
  using rest_dhcpw(1) [of w' w] by (simp add: msg_only_def upd_msg_def upd_only_def)

lemma msg_only_upd [simp]: "msg_only w (upd_msg f w)"
  by (simp add: msg_only_def upd_msg_def upd_only_def)

lemma msg_only_trans:
  assumes "msg_only w w'" "msg_only w' w''"
  shows "msg_only w w''"
proof -
  have "rest (upd_msg (\<lambda>_. c_msg (only w'')) w') = rest (upd_msg (\<lambda>_. c_msg (only w'')) (upd_msg (\<lambda>_. c_msg (only w')) w))"
    using assms(1) unfolding msg_only_def upd_msg_def [of "\<lambda>_. c_msg (only w'')"] by (rule rest_upd_only)
  then show ?thesis
    using assms(2) by (simp add: msg_only_def upd_msg_def upd_only_def)
qed

section \<open>The actions\<close>

text \<open>The socket the client sends on is a UDP socket.\<close>

definition tx_ready :: "('tm, 'w) dhcpw_scheme \<Rightarrow> bool" where
  "tx_ready w \<longleftrightarrow> (\<exists>sk. get_sock (tx_sk (only w)) w = Some sk \<and> IS_UDP_SOCK sk)"

lemma tx_ready_msg_only: "msg_only w w' \<Longrightarrow> tx_ready w' = tx_ready w"
  by (frule msg_onlyD(1), frule msg_onlyD(2)) (metis tx_ready_def get_sock_def dhcp.simps(3) dhcp.surjective dhcp.update_convs(5))

lemma sock_sendto_rest:
  assumes "sock_sendto E ll_send fd buf len fl dst w = Some (n, w')"
    and "get_sock fd w = Some sk" "IS_UDP_SOCK sk" "link_frame ll_send"
  shows "rest w' = rest w"
  using assms unfolding sock_sendto_def udp_sendto_def
  by (auto simp: bind_Some_iff split: if_splits option.splits dest!: sendto_udp_rest)

lemma dhcp_message_pack_frame [frames]:
  "dhcp_message_pack m h = Some (ok, m', h') \<Longrightarrow> heap.more h' = heap.more h"
  by (auto simp: dhcp_message_pack_def lw32_def lw16_def bind_Some_iff Let_def split: if_splits dest!: frames)

lemmas dhcp_frames = frames [THEN heap_rest, THEN msg_only_rest]

lemma dhcp_message_pack_fields:
  "dhcp_message_pack m h = Some (ok, m', h') \<Longrightarrow> m_option m' = m_option m \<and> m_raw_data m' = m_raw_data m"
  by (auto simp: dhcp_message_pack_def bind_Some_iff Let_def split: if_splits)

lemma free_buf_dead: "free_buf p h = Some h' \<Longrightarrow> p = Null \<or> (\<exists>b. p = Ptr b 0 \<and> bufs h' b = None)"
  by (cases p) (auto split: if_splits)

text \<open>
  Sending leaves the message with the address of the buffer it has freed, or null when the
  allocation failed.
\<close>

lemma send_message_frame:
  assumes s: "send_message E ll_send n w = Some (r, w')" and L: "link_frame ll_send" and tx: "tx_ready w"
  shows "msg_only w w'" and "m_option (c_msg (only w')) = m_option (c_msg (only w))"
    and "if malloc_ok w (mallocs w) then m_raw_data (c_msg (only w')) = Ptr (brk w) 0 \<and> bufs w' (brk w) = None
      else m_raw_data (c_msg (only w')) = Null"
proof -
  obtain raw w1 where m: "malloc_buf n w = (raw, w1)" by force
  have raw: "raw = (if malloc_ok w (mallocs w) then Ptr (brk w) 0 else Null)"
    using m by (auto simp: malloc_buf_def malloc_try_def new_buf_def split: if_splits)
  have r1: "rest w1 = rest w" by (rule heap_rest [OF new_pair_frames(6) [OF m]])
  note o1 = rest_dhcpw(1) [OF r1]
  let ?w2 = "upd_msg (\<lambda>m. m\<lparr>m_raw_data := raw\<rparr>) w1"
  have f2: "msg_only w ?w2" by (rule msg_only_trans [OF msg_only_rest [OF r1] msg_only_upd])
  have all: "msg_only w w' \<and> m_option (c_msg (only w')) = m_option (c_msg (only w)) \<and>
    m_raw_data (c_msg (only w')) = raw \<and> (raw = Null \<or> bufs w' (brk w) = None)"
  proof (cases "raw = Null")
    case True
    with s m f2 o1 show ?thesis by (auto simp: send_message_def upd_msg_def)
  next
    case False
    let ?w3 = "upd_msg (\<lambda>m. m\<lparr>m_raw_data_size := n\<rparr>) ?w2"
    obtain ok m' w4 k w5 where p: "dhcp_message_pack (c_msg (only ?w3)) ?w3 = Some (ok, m', w4)"
      and t: "sock_sendto E ll_send (tx_sk (only (upd_msg (\<lambda>_. m') w4))) (m_raw_data m') (m_raw_data_size m') 0
        (Some server_addr) (upd_msg (\<lambda>_. m') w4) = Some (k, w5)"
      and d: "free_buf (m_raw_data (c_msg (only w5))) w5 = Some w'"
      using s m False by (simp add: send_message_def bind_Some_iff Let_def upd_msg_def) blast
    have f3: "msg_only w ?w3" by (rule msg_only_trans [OF f2 msg_only_upd])
    have f4: "msg_only w (upd_msg (\<lambda>_. m') w4)"
      by (rule msg_only_trans [OF msg_only_trans [OF f3] msg_only_upd], rule dhcp_frames, rule p)
    obtain sk where sk: "get_sock (tx_sk (only (upd_msg (\<lambda>_. m') w4))) (upd_msg (\<lambda>_. m') w4) = Some sk" "IS_UDP_SOCK sk"
      using tx tx_ready_msg_only [OF f4] by (auto simp: tx_ready_def)
    have r5: "rest w5 = rest (upd_msg (\<lambda>_. m') w4)" by (rule sock_sendto_rest [OF t sk L])
    have r6: "rest w' = rest w5" by (rule heap_rest, rule frames, rule d)
    have f6: "msg_only w w'" using msg_only_trans [OF f4] msg_only_rest r5 r6 by metis
    have c5: "c_msg (only w5) = m'" "c_msg (only w') = m'"
      using rest_dhcpw(1) [OF r5] rest_dhcpw(1) [OF r6] by (simp_all add: upd_msg_def)
    have "m_option m' = m_option (c_msg (only w)) \<and> m_raw_data m' = raw"
      using dhcp_message_pack_fields [OF p] o1 by (simp add: upd_msg_def)
    moreover have "bufs w' (brk w) = None"
      using free_buf_dead [OF d] calculation c5(1) raw False by (auto split: if_splits)
    ultimately show ?thesis using f6 c5(2) by simp
  qed
  show "msg_only w w'" "m_option (c_msg (only w')) = m_option (c_msg (only w))" using all by simp_all
  show "if malloc_ok w (mallocs w) then m_raw_data (c_msg (only w')) = Ptr (brk w) 0 \<and> bufs w' (brk w) = None
      else m_raw_data (c_msg (only w')) = Null" using all raw by (auto split: if_splits)
qed

lemma pop_buf_dead: "pop_buf p h = Some h' \<Longrightarrow> bufs h b = None \<Longrightarrow> bufs h' b = None"
  by (cases p) (auto simp: pop_buf_def split: if_splits)

lemma dhcp_client_send_request_frame:
  assumes s: "dhcp_client_send_request E ll_send w = Some (r, w')" and L: "link_frame ll_send" and tx: "tx_ready w"
  shows "msg_only w w'"
    and "dhcp_option_server_identifier (c_msg (only w)) 0 w = Some (True, sid) \<Longrightarrow>
      malloc_ok w (mallocs w) \<Longrightarrow> \<exists>b. m_raw_data (c_msg (only w')) = Ptr b 0 \<and> bufs w' b = None"
proof -
  obtain found sid' where f: "dhcp_option_server_identifier (c_msg (only w)) 0 w = Some (found, sid')"
    using s by (auto simp: dhcp_client_send_request_def bind_Some_iff)
  have "msg_only w w' \<and> (found \<longrightarrow> malloc_ok w (mallocs w) \<longrightarrow>
    (\<exists>b. m_raw_data (c_msg (only w')) = Ptr b 0 \<and> bufs w' b = None))"
  proof (cases found)
    case False
    with s f show ?thesis by (simp add: dhcp_client_send_request_def)
  next
    case True
    let ?opts = "request_options (htonl sid') (htonl (m_yiaddr (c_msg (only w))))"
    obtain options w1 where n: "new_buf ?opts w = (options, w1)" by force
    let ?w2 = "upd_msg (\<lambda>m. m\<lparr>m_op := BOOTREQUEST, m_secs := ucast (sys_tick_s w1 - start_time (only w1)),
       m_flags := DHCP_MESSAGE_FLAG_BROADCAST, m_chaddr := splice_at (m_chaddr m) 0 (ethaddr (only w1)),
       m_option := options, m_option_size := length ?opts\<rparr>) w1"
    obtain r3 w3 where m: "send_message E ll_send 1024 ?w2 = Some (r3, w3)" and p: "pop_buf options w3 = Some w'"
      using s f True n by (simp add: dhcp_client_send_request_def bind_Some_iff Let_def) blast
    have f2: "msg_only w ?w2"
      by (rule msg_only_trans [OF _ msg_only_upd], rule dhcp_frames, rule n)
    have tx2: "tx_ready ?w2" using tx tx_ready_msg_only [OF f2] by simp
    note sm = send_message_frame [OF m L tx2]
    have r': "rest w' = rest w3" by (rule heap_rest, rule frames, rule p)
    have "msg_only w w'"
      using msg_only_trans [OF f2 sm(1)] msg_only_rest [OF r'] by (rule msg_only_trans)
    moreover have "malloc_ok w1 (mallocs w1) = malloc_ok w (mallocs w)"
      using n by (auto simp: new_buf_def)
    then have "\<exists>b. m_raw_data (c_msg (only w')) = Ptr b 0 \<and> bufs w' b = None" if "malloc_ok w (mallocs w)"
      using sm(3) that rest_dhcpw(1) [OF r'] pop_buf_dead [OF p] by (simp add: upd_msg_def)
    ultimately show ?thesis by simp
  qed
  then show "msg_only w w'"
    "dhcp_option_server_identifier (c_msg (only w)) 0 w = Some (True, sid) \<Longrightarrow>
      malloc_ok w (mallocs w) \<Longrightarrow> \<exists>b. m_raw_data (c_msg (only w')) = Ptr b 0 \<and> bufs w' b = None"
    using f by auto
qed

section \<open>Reading depends on the buffers alone\<close>

lemma reads_bufs:
  assumes "bufs h' = bufs h"
  shows "rd8 h' = rd8 h" "lr32 h' = lr32 h"
proof -
  have "rd8 h' p = rd8 h p" for p using assms by (cases p) simp_all
  then show "rd8 h' = rd8 h" by (rule ext)
  then show "lr32 h' = lr32 h" by (simp add: fun_eq_iff lr32_def)
qed

lemma option_scan_bufs:
  assumes "bufs h' = bufs h"
  shows "option_scan h' opt sz code off = option_scan h opt sz code off"
  using assms
proof (induction h opt sz code off rule: option_scan.induct)
  case (1 h opt sz code off)
  note r = reads_bufs(1) [OF 1(2)]
  have step: "option_scan h' opt sz code (o' + (2 + unat len)) = option_scan h opt sz code (o' + (2 + unat len))"
    if "off < sz" "rd8 h (padd opt off) = Some tag" "tag \<noteq> code" "o' = (if tag = DHCP_OPT_PAD then off + 1 else off)"
      "rd8 h (padd opt o') = Some t2" "t2 \<noteq> DHCP_OPT_END" "rd8 h (padd opt (o' + 1)) = Some len" for tag o' t2 len
    using 1(1) [OF that] 1(2) by blast
  have pad: "option_scan h' opt sz code (off + 1 + (2 + unat len)) = option_scan h opt sz code (off + 1 + (2 + unat len))"
    if "off < sz" "rd8 h (padd opt off) = Some DHCP_OPT_PAD" "DHCP_OPT_PAD \<noteq> code"
      "rd8 h (padd opt (off + 1)) = Some t2" "t2 \<noteq> DHCP_OPT_END" "rd8 h (padd opt (off + 1 + 1)) = Some len" for t2 len
    using step [OF that(1-3) _ that(4-6)] by simp
  have tag: "option_scan h' opt sz code (off + (2 + unat len)) = option_scan h opt sz code (off + (2 + unat len))"
    if "off < sz" "rd8 h (padd opt off) = Some tag" "tag \<noteq> DHCP_OPT_PAD" "tag \<noteq> code" "tag \<noteq> DHCP_OPT_END"
      "rd8 h (padd opt (off + 1)) = Some len" for tag len
    using step [OF that(1,2,4) _ that(2,5,6)] that(3) by simp
  show ?case
    by (subst (1 2) option_scan.simps)
       (auto simp only: r Let_def simp_thms if_True if_False split: if_splits intro!: Option.bind_cong,
        blast intro: pad, blast intro: tag)
qed

lemma dhcp_option_bufs:
  assumes "bufs h' = bufs h"
  shows "dhcp_option_message_type m h' = dhcp_option_message_type m h"
    "dhcp_option_long m l code h' = dhcp_option_long m l code h"
proof -
  have "option_find m c h' = option_find m c h" for c
    by (simp add: option_find_def reads_bufs [OF assms] option_scan_bufs [OF assms] cong: if_cong)
  then show "dhcp_option_message_type m h' = dhcp_option_message_type m h"
    "dhcp_option_long m l code h' = dhcp_option_long m l code h"
    by (simp_all add: dhcp_option_message_type_def dhcp_option_long_def reads_bufs [OF assms] cong: option.case_cong)
qed

section \<open>A message that has arrived\<close>

text \<open>The client's receive buffer holds this message, with these options.\<close>

definition arrived :: "dhcp_message \<Rightarrow> tlv list \<Rightarrow> ('tm, 'w) dhcpw_scheme \<Rightarrow> bool" where
  "arrived s opts w \<longleftrightarrow> wf_msg s \<and> list_all wf_tlv opts \<and>
     (let m = c_msg (only w) in 241 \<le> m_raw_data_size m \<and>
        (\<exists>pad. mem_read w (m_raw_data m) (m_raw_data_size m) = Some (dhcp_bytes s @ options_bytes opts @ pad)))"

lemma arrived_unpack:
  assumes "arrived s opts w"
  shows "dhcp_message_unpack (c_msg (only w)) w = Some (True, dhcp_read_back s (c_msg (only w)))"
  using assms unfolding arrived_def Let_def by (elim conjE exE) (rule dhcp_unpack_reads)

lemma arrived_options:
  assumes "arrived s opts w"
  shows "\<exists>pad. mem_read w (m_option (dhcp_read_back s (c_msg (only w)))) (m_option_size (dhcp_read_back s (c_msg (only w)))) =
    Some (options_bytes opts @ pad)"
proof -
  let ?m = "c_msg (only w)"
  obtain pad where m: "mem_read w (m_raw_data ?m) (236 + (m_raw_data_size ?m - 236)) = Some (dhcp_bytes s @ options_bytes opts @ pad)"
    and n: "wf_msg s"
    using assms by (auto simp: arrived_def Let_def)
  show ?thesis
    using mem_read_split [OF m, THEN conjunct2] n by (auto simp: dhcp_read_back_def)
qed

text \<open>What the client's searches find in it.\<close>

lemma arrived_lookups:
  assumes a: "arrived s opts w"
  defines "m \<equiv> dhcp_read_back s (c_msg (only w))"
  shows "(\<And>v. tlv_find DHCP_OPT_DHCP_MSG_TYPE_TAG opts = Some v \<Longrightarrow> v \<noteq> []) \<Longrightarrow>
      dhcp_option_message_type m w =
        Some (case tlv_find DHCP_OPT_DHCP_MSG_TYPE_TAG opts of None \<Rightarrow> - 1 | Some v \<Rightarrow> uint (hd v))"
    and "code \<noteq> DHCP_OPT_END \<Longrightarrow> (\<And>v. tlv_find code opts = Some v \<Longrightarrow> length v = 4) \<Longrightarrow>
      dhcp_option_long m l code w =
        Some (case tlv_find code opts of None \<Rightarrow> (False, l) | Some v \<Rightarrow> (True, of_be32 v))"
proof -
  obtain pad where o': "mem_read w (m_option m) (m_option_size m) = Some (options_bytes opts @ pad)"
    using arrived_options [OF a] unfolding m_def by blast
  have wf: "list_all wf_tlv opts" using a by (simp add: arrived_def)
  show "(\<And>v. tlv_find DHCP_OPT_DHCP_MSG_TYPE_TAG opts = Some v \<Longrightarrow> v \<noteq> []) \<Longrightarrow>
      dhcp_option_message_type m w =
        Some (case tlv_find DHCP_OPT_DHCP_MSG_TYPE_TAG opts of None \<Rightarrow> - 1 | Some v \<Rightarrow> uint (hd v))"
    by (rule dhcp_option_message_type_value [OF o' wf])
  show "code \<noteq> DHCP_OPT_END \<Longrightarrow> (\<And>v. tlv_find code opts = Some v \<Longrightarrow> length v = 4) \<Longrightarrow>
      dhcp_option_long m l code w =
        Some (case tlv_find code opts of None \<Rightarrow> (False, l) | Some v \<Rightarrow> (True, of_be32 v))"
    by (rule dhcp_option_long_value [OF o' wf])
qed

text \<open>The options of the answer of a server: its type, and values of four bytes.\<close>

definition reply_of :: "u8 \<Rightarrow> tlv list \<Rightarrow> bool" where
  "reply_of ty opts \<longleftrightarrow> (case tlv_find DHCP_OPT_DHCP_MSG_TYPE_TAG opts of Some (t # _) \<Rightarrow> t = ty | _ \<Rightarrow> False)"

definition answer_options :: "tlv list \<Rightarrow> bool" where
  "answer_options opts \<longleftrightarrow> tlv_find DHCP_OPT_DHCP_MSG_TYPE_TAG opts \<noteq> Some [] \<and>
     (\<forall>code \<in> {DHCP_OPT_IP_LEASE_TIME_TAG, DHCP_OPT_SERVER_IDENTIFIER_TAG}.
        \<forall>v. tlv_find code opts = Some v \<longrightarrow> length v = 4)"

lemma arrived_is_reply:
  assumes a: "arrived s opts w" and o': "answer_options opts"
  shows "is_reply ty (upd_msg (\<lambda>_. dhcp_read_back s (c_msg (only w))) w) = Some (m_op s = BOOTREPLY \<and> reply_of ty opts)"
proof -
  let ?m = "dhcp_read_back s (c_msg (only w))"
  have "dhcp_option_message_type ?m (upd_msg (\<lambda>_. ?m) w) = dhcp_option_message_type ?m w"
    by (rule dhcp_option_bufs) (simp add: upd_msg_def)
  moreover have "dhcp_option_message_type ?m w =
        Some (case tlv_find DHCP_OPT_DHCP_MSG_TYPE_TAG opts of None \<Rightarrow> - 1 | Some v \<Rightarrow> uint (hd v))"
    using o' by (intro arrived_lookups(1) [OF a]) (auto simp: answer_options_def)
  moreover have "- 1 \<noteq> uint (x :: u8)" for x using uint_ge_0 [of x] by linarith
  moreover have "m_op ?m = m_op s" by (simp add: dhcp_read_back_def)
  ultimately show ?thesis
    using o' by (auto simp: is_reply_def reply_of_def answer_options_def upd_msg_def Let_def
        word_uint_eq_iff [symmetric] split: option.splits list.splits)
qed

section \<open>Acknowledgement\<close>

text \<open>The client after an acknowledgement with this lease.\<close>

definition bound_with :: "'tm ext \<Rightarrow> u32 option \<Rightarrow> u32 \<Rightarrow> 'tm dhcp \<Rightarrow> 'tm dhcp" where
  "bound_with E lease now c = (case lease of None \<Rightarrow> c\<lparr>c_state := BOUND\<rparr>
     | Some n \<Rightarrow> c\<lparr>c_lease := n, T1 := timer_start E now (unat n div 2) (T1 c),
         T2 := timer_start E now (7 * unat n div 8) (T2 c), c_state := BOUND\<rparr>)"

lemma received_ack:
  assumes a: "arrived s opts w" and o': "answer_options opts"
    and st: "c_state (only w) \<in> {REQUESTING, RENEWING, REBINDING}"
  defines "w1 \<equiv> upd_msg (\<lambda>_. dhcp_read_back s (c_msg (only w))) w"
  shows "dhcp_client_received E ll_send call_ip w = Some
    (if m_op s = BOOTREPLY \<and> reply_of DHCP_MSG_TYPE_ACK opts
     then upd_only (bound_with E (map_option of_be32 (tlv_find DHCP_OPT_IP_LEASE_TIME_TAG opts)) (sys_tick_s w)) w1
     else start_T1 E 5 w1)"
proof -
  let ?m = "dhcp_read_back s (c_msg (only w))"
  note u = arrived_unpack [OF a] and r = arrived_is_reply [OF a o', of DHCP_MSG_TYPE_ACK]
  have l: "dhcp_option_ip_lease_time ?m x w1 = Some (case tlv_find DHCP_OPT_IP_LEASE_TIME_TAG opts of
      None \<Rightarrow> (False, x) | Some v \<Rightarrow> (True, of_be32 v))" for x
  proof -
    have "dhcp_option_ip_lease_time ?m x w1 = dhcp_option_ip_lease_time ?m x w"
      unfolding dhcp_option_ip_lease_time_def by (rule dhcp_option_bufs) (simp add: w1_def upd_msg_def)
    also have "\<dots> = Some (case tlv_find DHCP_OPT_IP_LEASE_TIME_TAG opts of
      None \<Rightarrow> (False, x) | Some v \<Rightarrow> (True, of_be32 v))"
      unfolding dhcp_option_ip_lease_time_def using o'
      by (intro arrived_lookups(2) [OF a]) (auto simp: answer_options_def dhcp_opt_defs)
    finally show ?thesis .
  qed
  consider "c_state (only w) = REQUESTING" | "c_state (only w) = RENEWING" | "c_state (only w) = REBINDING"
    using st by auto
  then have "dhcp_client_received E ll_send call_ip w = (
    if \<not> (m_op s = BOOTREPLY \<and> reply_of DHCP_MSG_TYPE_ACK opts) then Some (start_T1 E 5 w1)
    else case tlv_find DHCP_OPT_IP_LEASE_TIME_TAG opts of
      None \<Rightarrow> Some (set_state BOUND (upd_only (\<lambda>c. c\<lparr>c_lease := c_lease (only w1)\<rparr>) w1))
    | Some v \<Rightarrow> Some (set_state BOUND (start_T2 E (7 * unat (of_be32 v) div 8) (start_T1 E (unat (of_be32 v) div 2)
        (upd_only (\<lambda>c. c\<lparr>c_lease := of_be32 v\<rparr>) w1)))))"
    unfolding w1_def
    by cases (simp_all add: dhcp_client_received_def u r l [unfolded w1_def] Let_def split: option.splits)
  then show ?thesis
    by (simp add: bound_with_def start_T1_def start_T2_def set_state_def w1_def upd_msg_def split: option.splits)
       (simp add: upd_only_def)
qed

section \<open>Offer\<close>

text \<open>The application's callback sets an address; it leaves the client and its memory alone.\<close>

definition set_ip_frame :: "(('tm, 'w) dhcpw_scheme) set_ip_call \<Rightarrow> bool" where
  "set_ip_frame call_ip \<longleftrightarrow> (\<forall>f bs w w'. call_ip f bs w = Some w' \<longrightarrow> only w' = only w \<and> socks w' = socks w \<and>
     bufs w' = bufs w \<and> malloc_ok w' (mallocs w') = malloc_ok w (mallocs w))"

text \<open>
  An offer makes the client send its request from a buffer of its own, whose address
  replaces that of the receive buffer; the loop then frees the buffer a second time.
\<close>

lemma received_offer_freed:
  assumes a: "arrived s opts w" and o': "answer_options opts"
    and st: "c_state (only w) = SELECTING"
    and offer: "m_op s = BOOTREPLY" "reply_of DHCP_MSG_TYPE_OFFER opts"
    and sid: "tlv_find DHCP_OPT_SERVER_IDENTIFIER_TAG opts \<noteq> None"
    and ok: "malloc_ok w (mallocs w)" and L: "link_frame ll_send" and tx: "tx_ready w" and ip: "set_ip_frame call_ip"
    and r: "dhcp_client_received E ll_send call_ip w = Some w'"
  shows "\<exists>b. m_raw_data (c_msg (only w')) = Ptr b 0 \<and> bufs w' b = None"
proof -
  let ?m = "dhcp_read_back s (c_msg (only w))"
  let ?w1 = "upd_msg (\<lambda>_. ?m) w"
  obtain v where v: "tlv_find DHCP_OPT_SERVER_IDENTIFIER_TAG opts = Some v" "length v = 4"
    using sid o' by (auto simp: answer_options_def)
  obtain w2 q w3 where c: "call_ip (c_set_ip (only ?w1)) (rev (be32 (htonl (m_yiaddr ?m)))) ?w1 = Some w2"
    and q: "dhcp_client_send_request E ll_send w2 = Some (q, w3)"
    and w': "w' = set_state REQUESTING (start_T1 E 5 w3)"
    using r st arrived_unpack [OF a] arrived_is_reply [OF a o', of DHCP_MSG_TYPE_OFFER] offer
    by (auto simp: dhcp_client_received_def bind_Some_iff Let_def)
  have w2: "only w2 = only ?w1" "socks w2 = socks ?w1" "bufs w2 = bufs ?w1"
    "malloc_ok w2 (mallocs w2) = malloc_ok ?w1 (mallocs ?w1)"
    using ip c unfolding set_ip_frame_def by blast+
  have "dhcp_option_long ?m 0 DHCP_OPT_SERVER_IDENTIFIER_TAG w = Some (True, of_be32 v)"
    using arrived_lookups(2) [OF a, of DHCP_OPT_SERVER_IDENTIFIER_TAG 0] v by (simp add: dhcp_opt_defs)
  moreover have "dhcp_option_long ?m 0 DHCP_OPT_SERVER_IDENTIFIER_TAG w2 =
    dhcp_option_long ?m 0 DHCP_OPT_SERVER_IDENTIFIER_TAG w"
    by (rule dhcp_option_bufs) (simp add: w2 upd_msg_def)
  ultimately have "dhcp_option_server_identifier (c_msg (only w2)) 0 w2 = Some (True, of_be32 v)"
    by (simp add: dhcp_option_server_identifier_def w2 upd_msg_def)
  moreover have "malloc_ok w2 (mallocs w2)" "tx_ready w2"
    using ok tx w2 by (simp_all add: upd_msg_def tx_ready_def get_sock_def)
  ultimately obtain b where "m_raw_data (c_msg (only w3)) = Ptr b 0" "bufs w3 b = None"
    using dhcp_client_send_request_frame(2) [OF q L] by blast
  then show ?thesis by (simp add: w' set_state_def start_T1_def)
qed

section \<open>One datagram through the loop\<close>

text \<open>
  The queue of the receiving socket holds one block, made by the socket's callback, with a
  message of at most 1023 bytes.
\<close>

definition queued :: "u8 list \<Rightarrow> addr \<Rightarrow> socket \<Rightarrow> ('tm, 'w) dhcpw_scheme \<Rightarrow> bool" where
  "queued ps c sk w \<longleftrightarrow> get_sock (rx_sk (only w)) w = Some sk \<and> IS_UDP_SOCK sk \<and> rx_queue sk = [Suc c] \<and>
     nodes w (Suc c) = Some (init_dblk (Ptr c 0) (length ps)\<lparr>d_node_malloc := True, d_data_malloc := True\<rparr>) \<and>
     bufs w c = Some ps \<and> length ps < 1024"

definition received_state :: "u8 list \<Rightarrow> addr \<Rightarrow> socket \<Rightarrow> ('tm, 'w) dhcpw_scheme \<Rightarrow> ('tm, 'w) dhcpw_scheme" where
  "received_state ps c sk w =
     upd_msg (\<lambda>m. m\<lparr>m_raw_data := Ptr (brk w) 0, m_raw_data_size := length ps\<rparr>)
       (w\<lparr>mallocs := Suc (mallocs w), brk := Suc (brk w),
          bufs := (bufs w)(brk w \<mapsto> splice_at (fresh_bytes w 1024) 0 ps, c := None), nodes := (nodes w)(Suc c := None),
          socks := (socks w)(to_socket (rx_sk (only w)) \<mapsto> sk\<lparr>rx_queue := []\<rparr>)\<rparr>)"

lemma dhcp_receive_queued:
  assumes E: "list_laws E" and q: "queued ps c sk w" and wf: "wf_heap w" and ok: "malloc_ok w (mallocs w)"
    and ne: "ps \<noteq> []"
  shows "dhcp_receive E ll_send call_ip w = do {
    w \<leftarrow> dhcp_client_received E ll_send call_ip (received_state ps c sk w);
    free_buf (m_raw_data (c_msg (only w))) w }"
proof -
  let ?raw = "Ptr (brk w) 0" and ?fresh = "fresh_bytes w 1024"
  define w1 where "w1 = upd_msg (\<lambda>m. m\<lparr>m_raw_data := ?raw\<rparr>)
    (set_buf (brk w) ?fresh (bump (w\<lparr>mallocs := Suc (mallocs w)\<rparr>)))"
  have m: "malloc_buf 1024 w = (?raw, set_buf (brk w) ?fresh (bump (w\<lparr>mallocs := Suc (mallocs w)\<rparr>)))"
    using ok by (simp add: malloc_buf_def malloc_try_def new_buf_def fresh_bytes_def)
  have w1: "bufs w1 = (bufs w)(brk w \<mapsto> ?fresh)" "nodes w1 = nodes w" "socks w1 = socks w"
    "rx_sk (only w1) = rx_sk (only w)"
    by (simp_all add: w1_def upd_msg_def upd_only_def bump_def set_buf_def)
  have c: "c \<noteq> brk w" using wf_heap_buf [OF wf] q by (auto simp: queued_def)
  define w2 where "w2 = del_node (Suc c) (del_buf c (set_buf (brk w) (splice_at ?fresh 0 ps) w1))
      \<lparr>socks := (socks w1)(to_socket (rx_sk (only w)) \<mapsto> sk\<lparr>rx_queue := []\<rparr>)\<rparr>"
  have lp: "recvfrom_loop E (rx_sk (only w)) ?raw 1024 0 w1 = Some (length ps, w2)"
    unfolding w2_def using q c w1
    by (intro recvfrom_fresh [OF E]) (simp_all add: queued_def get_sock_def fresh_bytes_def)
  have rc: "sock_recvfrom E (rx_sk (only w)) ?raw 1024 MSG_DONTWAIT w1 = Some (int (length ps), w2)"
    using lp q w1 by (simp add: sock_recvfrom_def queued_def get_sock_def MSG_DONTWAIT_def to_int_small)
  have n: "unat (of_int (int (length ps)) :: u32) = length ps"
    using q by (simp add: queued_def unat_of_nat take_bit_nat_eq_self)
  have st: "upd_msg (\<lambda>m. m\<lparr>m_raw_data_size := length ps\<rparr>) w2 = received_state ps c sk w"
    by (simp add: w2_def w1_def received_state_def upd_msg_def upd_only_def del_node_def del_buf_def set_buf_def bump_def)
  have "m_raw_data_size (c_msg (only (received_state ps c sk w))) = length ps"
    by (simp add: received_state_def upd_msg_def)
  then show ?thesis
    using rc n st ne w1(4) by (simp add: dhcp_receive_def m w1_def [symmetric] Let_def)
qed

lemma received_state_arrived:
  assumes "ps = dhcp_bytes s @ options_bytes opts @ pad" "wf_msg s" "list_all wf_tlv opts" "length ps < 1024" "c \<noteq> brk w"
  shows "arrived s opts (received_state ps c sk w)"
proof -
  have "241 \<le> length ps" using assms(1,2) by (simp add: options_bytes_def)
  moreover have "mem_read (received_state ps c sk w) (Ptr (brk w) 0) (length ps) = Some ps"
    using assms(4,5) by (simp add: received_state_def upd_msg_def mem_read_def fresh_bytes_def splice_at_def)
  ultimately show ?thesis
    using assms by (auto simp: arrived_def Let_def received_state_def upd_msg_def)
qed

lemma received_state_sel [simp]:
  "only (received_state ps c sk w) =
     (only w)\<lparr>c_msg := c_msg (only w)\<lparr>m_raw_data := Ptr (brk w) 0, m_raw_data_size := length ps\<rparr>\<rparr>"
  "malloc_ok (received_state ps c sk w) = malloc_ok w" "mallocs (received_state ps c sk w) = Suc (mallocs w)"
  "sys_tick_s (received_state ps c sk w) = sys_tick_s w"
  "bufs (received_state ps c sk w) = (bufs w)(brk w \<mapsto> splice_at (fresh_bytes w 1024) 0 ps, c := None)"
  "nodes (received_state ps c sk w) = (nodes w)(Suc c := None)"
  "socks (received_state ps c sk w) = (socks w)(to_socket (rx_sk (only w)) \<mapsto> sk\<lparr>rx_queue := []\<rparr>)"
  by (simp_all add: received_state_def upd_msg_def sys_tick_s_def)

lemma offer_freed_twice:
  assumes E: "list_laws E" and q: "queued (dhcp_bytes s @ options_bytes opts @ pad) c sk w" and wf: "wf_heap w"
    and m: "wf_msg s" "list_all wf_tlv opts" "answer_options opts"
    and st: "c_state (only w) = SELECTING"
    and offer: "m_op s = BOOTREPLY" "reply_of DHCP_MSG_TYPE_OFFER opts"
    and sid: "tlv_find DHCP_OPT_SERVER_IDENTIFIER_TAG opts \<noteq> None"
    and ok: "malloc_ok w (mallocs w)" "malloc_ok w (Suc (mallocs w))"
    and L: "link_frame ll_send" and tx: "tx_ready w" and ip: "set_ip_frame call_ip"
  shows "dhcp_receive E ll_send call_ip w = None"
proof -
  let ?ps = "dhcp_bytes s @ options_bytes opts @ pad"
  let ?w = "received_state ?ps c sk w"
  have c: "c \<noteq> brk w" "length ?ps < 1024" using wf_heap_buf [OF wf] q by (auto simp: queued_def)
  have a: "arrived s opts ?w" by (rule received_state_arrived [OF refl m(1,2) c(2,1)])
  have txr: "tx_ready ?w"
    using tx by (auto simp: tx_ready_def get_sock_def IS_UDP_SOCK_def q [unfolded queued_def get_sock_def])
  have "dhcp_receive E ll_send call_ip w = do {
    w \<leftarrow> dhcp_client_received E ll_send call_ip ?w;
    free_buf (m_raw_data (c_msg (only w))) w }"
    by (rule dhcp_receive_queued [OF E q wf ok(1)]) (simp add: options_bytes_def)
  moreover have "free_buf (m_raw_data (c_msg (only w'))) w' = None"
    if "dhcp_client_received E ll_send call_ip ?w = Some w'" for w'
    using received_offer_freed [OF a m(3) _ offer sid _ L txr ip that] st ok(2) by auto
  ultimately show ?thesis by (cases "dhcp_client_received E ll_send call_ip ?w") auto
qed

lemma ack_binds:
  assumes E: "list_laws E" and q: "queued (dhcp_bytes s @ options_bytes opts @ pad) c sk w" and wf: "wf_heap w"
    and m: "wf_msg s" "list_all wf_tlv opts" "answer_options opts"
    and st: "c_state (only w) \<in> {REQUESTING, RENEWING, REBINDING}"
    and ack: "m_op s = BOOTREPLY" "reply_of DHCP_MSG_TYPE_ACK opts"
    and ok: "malloc_ok w (mallocs w)"
  shows "\<exists>w' msg. dhcp_receive E ll_send call_ip w = Some w' \<and> 
    only w' = bound_with E (map_option of_be32 (tlv_find DHCP_OPT_IP_LEASE_TIME_TAG opts)) (sys_tick_s w)
      ((only w)\<lparr>c_msg := msg\<rparr>) \<and> dhcp_client_completed w' \<and>
    m_option msg = Ptr (brk w) 236 \<and> bufs w' = (bufs w)(c := None) \<and> nodes w' = (nodes w)(Suc c := None)"
proof -
  let ?ps = "dhcp_bytes s @ options_bytes opts @ pad"
  let ?w = "received_state ?ps c sk w"
  let ?lease = "map_option of_be32 (tlv_find DHCP_OPT_IP_LEASE_TIME_TAG opts)"
  let ?msg = "dhcp_read_back s (c_msg (only ?w))"
  let ?w1 = "upd_only (bound_with E ?lease (sys_tick_s ?w)) (upd_msg (\<lambda>_. ?msg) ?w)"
  have c: "c \<noteq> brk w" "length ?ps < 1024" using wf_heap_buf [OF wf] q by (auto simp: queued_def)
  have a: "arrived s opts ?w" by (rule received_state_arrived [OF refl m(1,2) c(2,1)])
  have r: "dhcp_client_received E ll_send call_ip ?w = Some ?w1"
    using received_ack [OF a m(3), of E ll_send call_ip] st ack by simp
  have msg: "m_raw_data ?msg = Ptr (brk w) 0" "m_option ?msg = Ptr (brk w) 236"
    by (simp_all add: dhcp_read_back_def)
  have o1: "only ?w1 = bound_with E ?lease (sys_tick_s w) ((only w)\<lparr>c_msg := ?msg\<rparr>)"
    by (simp add: upd_msg_def)
  have sel: "c_msg (bound_with E l t x) = c_msg x" "c_state (bound_with E l t x) = BOUND" for l t and x :: "'a dhcp"
    by (simp_all add: bound_with_def split: option.splits)
  let ?w2 = "del_buf (brk w) ?w1"
  have f: "free_buf (Ptr (brk w) 0) ?w1 = Some ?w2"
    using c by (simp add: upd_msg_def)
  have "dhcp_receive E ll_send call_ip w = Some ?w2"
    using dhcp_receive_queued [OF E q wf ok, of ll_send call_ip] r f msg o1 sel by (simp add: options_bytes_def)
  moreover have "only ?w2 = only ?w1" by (rule rest_dhcpw) (rule heap_rest, simp)
  moreover have "bufs ?w2 = (bufs w)(c := None)"
    using c wf by (auto simp: upd_msg_def wf_heap_def fun_eq_iff)
  moreover have "nodes ?w2 = (nodes w)(Suc c := None)" by (simp add: upd_msg_def)
  ultimately show ?thesis
    using o1 msg(2) sel(2) by (intro exI [of _ ?w2] exI [of _ ?msg]) (simp add: dhcp_client_completed_def)
qed

text \<open>The option field of the message is now in memory that was freed, and a request looks into it.\<close>

lemma request_reads_freed:
  assumes "m_option (c_msg (only w)) = Ptr b i" "bufs w b = None"
  shows "dhcp_client_send_request E ll_send w = None"
proof -
  have "lr32 w (Ptr b i) = None" using assms by (simp add: lr32_def)
  with assms show ?thesis
    by (simp add: dhcp_client_send_request_def dhcp_option_server_identifier_def dhcp_option_long_def option_find_def)
qed

section \<open>Renewal\<close>

lemma upd_sock_only: "upd_sock fd f w = Some w' \<Longrightarrow> only w' = only w \<and> sys_tick_s w' = sys_tick_s w"
  by (auto simp: upd_sock_def bind_Some_iff sys_tick_s_def)

lemma heap_only: "heap.more w' = heap.more w \<Longrightarrow> only w' = only w \<and> sys_tick_s w' = sys_tick_s w"
  using rest_dhcpw(1,4) [OF heap_rest] by blast

lemma recvfrom_loop_run:
  fixes w :: "('tm, 'w) dhcpw_scheme"
  assumes "recvfrom_loop E fd p len k w = Some y"
  shows "only (snd y) = only w \<and> sys_tick_s (snd y) = sys_tick_s w"
proof (rule recvfrom_loop.raw_induct [OF _ assms, where
    P = "\<lambda>E fd p len k w y. only (snd y) = only w \<and> sys_tick_s (snd y) = sys_tick_s w"], goal_cases)
  case (1 rec E fd p len k w y)
  note f = heap_only [OF loop_frames(3)] heap_only [OF block_frames(3)]
  from 1(2) show ?case
    by (auto simp: bind_Some_iff Let_def split: if_splits dest!: f upd_sock_only 1(1))
qed

definition rx_ready :: "('tm, 'w) dhcpw_scheme \<Rightarrow> bool" where
  "rx_ready w \<longleftrightarrow> (\<exists>sk. get_sock (rx_sk (only w)) w = Some sk \<and> IS_UDP_SOCK sk)"

lemma received_renewing:
  assumes st: "c_state (only w) = RENEWING" and r: "dhcp_client_received E ll_send call_ip w = Some w'"
  shows "c_state (only w') \<in> {RENEWING, BOUND}"
proof -
  obtain ok m where u: "dhcp_message_unpack (c_msg (only w)) w = Some (ok, m)"
    using r st by (auto simp: dhcp_client_received_def bind_Some_iff)
  let ?w1 = "upd_msg (\<lambda>_. m) w"
  have st1: "c_state (only ?w1) = RENEWING" using st by (simp add: upd_msg_def)
  show ?thesis
  proof (cases ok)
    case False
    with r st u st1 show ?thesis by (auto simp: dhcp_client_received_def)
  next
    case True
    obtain reply where i: "is_reply DHCP_MSG_TYPE_ACK ?w1 = Some reply"
      using r st u True by (auto simp: dhcp_client_received_def bind_Some_iff Let_def)
    show ?thesis
    proof (cases reply)
      case False
      with r st u i True st1 show ?thesis by (auto simp: dhcp_client_received_def start_T1_def Let_def)
    next
      case reply: True
      then obtain w2 where "w' = set_state BOUND w2"
        using r st u i True by (auto simp: dhcp_client_received_def bind_Some_iff Let_def)
      then show ?thesis by (simp add: set_state_def)
    qed
  qed
qed

lemma dhcp_receive_renewing:
  assumes r: "dhcp_receive E ll_send call_ip w = Some w'" and rx: "rx_ready w" and st: "c_state (only w) = RENEWING"
  shows "c_state (only w') \<in> {RENEWING, BOUND}"
proof -
  obtain raw w1 where m: "malloc_buf 1024 w = (raw, w1)" by force
  note o1 = heap_only [OF new_pair_frames(6) [OF m]]
  have s1: "socks w1 = socks w" by (rule rest_dhcpw(2) [OF heap_rest [OF new_pair_frames(6) [OF m]]])
  let ?w1 = "upd_msg (\<lambda>m. m\<lparr>m_raw_data := raw\<rparr>) w1"
  show ?thesis
  proof (cases "raw = Null")
    case True
    with r m o1 st show ?thesis by (auto simp: dhcp_receive_def upd_msg_def)
  next
    case False
    obtain n w2 w3 where rc: "sock_recvfrom E (rx_sk (only ?w1)) raw 1024 MSG_DONTWAIT ?w1 = Some (n, w2)"
      and c: "(if m_raw_data_size (c_msg (only (upd_msg (\<lambda>m. m\<lparr>m_raw_data_size := unat (of_int n :: u32)\<rparr>) w2))) > 0
        then dhcp_client_received E ll_send call_ip (upd_msg (\<lambda>m. m\<lparr>m_raw_data_size := unat (of_int n :: u32)\<rparr>) w2)
        else Some (upd_msg (\<lambda>m. m\<lparr>m_raw_data_size := unat (of_int n :: u32)\<rparr>) w2)) = Some w3"
      and f: "free_buf (m_raw_data (c_msg (only w3))) w3 = Some w'"
      using r m False by (simp add: dhcp_receive_def bind_Some_iff Let_def) blast
    obtain sk where sk: "get_sock (rx_sk (only ?w1)) ?w1 = Some sk" "IS_UDP_SOCK sk"
      using rx o1 s1 by (auto simp: rx_ready_def get_sock_def upd_msg_def)
    have "c_state (only w2) = c_state (only ?w1)"
      using rc sk recvfrom_loop_run [of E _ raw 1024 0 ?w1]
      by (auto simp: sock_recvfrom_def bind_Some_iff split: if_splits)
    then have "c_state (only w2) = RENEWING" using o1 st by (simp add: upd_msg_def)
    then have "c_state (only w3) \<in> {RENEWING, BOUND}"
      using c by (cases "m_raw_data_size (c_msg (only (upd_msg (\<lambda>m. m\<lparr>m_raw_data_size := unat (of_int n :: u32)\<rparr>) w2))) > 0")
        (auto simp: upd_msg_def dest: received_renewing [rotated])
    then show ?thesis using heap_only [OF free_frames(1) [OF f]] by simp
  qed
qed

text \<open>The timeout branch of the loop, for a timer that is stopped before the handler looks.\<close>

lemma timeout_renewing:
  assumes t: "dhcp_client_timeout E ll_send w = Some w'" and L: "link_frame ll_send" and tx: "tx_ready w"
    and st: "c_state (only w) = RENEWING" and T2: "\<not> timer_expired E (sys_tick_s w) (T2 (only w))"
  shows "c_state (only w') = RENEWING \<and> T2 (only w') = T2 (only w) \<and> rx_sk (only w') = rx_sk (only w) \<and>
    tx_sk (only w') = tx_sk (only w) \<and> socks w' = socks w \<and> sys_tick_s w' = sys_tick_s w"
proof (cases "udp_setup (only w)")
  case True
  obtain q w1 where q: "dhcp_client_send_request E ll_send w = Some (q, w1)" and w': "w' = start_T1 E 5 w1"
    using t True st T2 by (auto simp: dhcp_client_timeout_def bind_Some_iff Let_def)
  note f = msg_onlyD [OF dhcp_client_send_request_frame(1) [OF q L tx]]
  from f(1) obtain msg where "only w1 = (only w)\<lparr>c_msg := msg\<rparr>" by blast
  with f(2-) st show ?thesis by (simp add: w' start_T1_def)
next
  case False
  with t st show ?thesis by (simp add: dhcp_client_timeout_def)
qed

lemma renewing_stays:
  assumes T: "timer_laws E" and L: "link_frame ll_send" and tx: "tx_ready w" and rx: "rx_ready w"
    and st: "c_state (only w) = RENEWING"
    and one: "\<not> (timer_expired E (sys_tick_s w) (T1 (only w)) \<and> timer_expired E (sys_tick_s w) (T2 (only w)))"
    and r: "dhcp_loop E ll_send call_ip w = Some w'"
  shows "c_state (only w') \<in> {RENEWING, BOUND}"
proof -
  have stop: "\<not> timer_expired E now (timer_stop E t)" for now t using T by (simp add: timer_laws_def)
  let ?w1 = "upd_only (\<lambda>c. c\<lparr>T1 := timer_stop E (T1 c)\<rparr>) w"
  obtain w2 w4 where w2: "(if timer_expired E (sys_tick_s w) (T1 (only w))
       then dhcp_client_timeout E ll_send ?w1 else Some w) = Some w2"
    and w4: "(if timer_expired E (sys_tick_s w2) (T2 (only w2))
       then dhcp_client_timeout E ll_send (upd_only (\<lambda>c. c\<lparr>T2 := timer_stop E (T2 c)\<rparr>) w2) else Some w2) = Some w4"
    and e: "(if udp_setup (only w4) then dhcp_receive E ll_send call_ip w4 else Some w4) = Some w'"
    using r unfolding dhcp_loop_def by (auto simp: bind_Some_iff)
  have s2: "c_state (only w2) = RENEWING \<and> rx_sk (only w2) = rx_sk (only w) \<and>
    tx_sk (only w2) = tx_sk (only w) \<and> socks w2 = socks w \<and> sys_tick_s w2 = sys_tick_s w"
  proof (cases "timer_expired E (sys_tick_s w) (T1 (only w))")
    case True
    then have "dhcp_client_timeout E ll_send ?w1 = Some w2" using w2 by simp
    from timeout_renewing [OF this L] True one tx st show ?thesis by (simp add: tx_ready_def get_sock_def)
  next
    case False
    with w2 st show ?thesis by simp
  qed
  let ?w3 = "upd_only (\<lambda>c. c\<lparr>T2 := timer_stop E (T2 c)\<rparr>) w2"
  have s4: "c_state (only w4) = RENEWING \<and> rx_sk (only w4) = rx_sk (only w2) \<and> socks w4 = socks w2"
  proof (cases "timer_expired E (sys_tick_s w2) (T2 (only w2))")
    case True
    then have "dhcp_client_timeout E ll_send ?w3 = Some w4" using w4 by simp
    from timeout_renewing [OF this L] tx s2 stop show ?thesis by (simp add: tx_ready_def get_sock_def)
  next
    case False
    with w4 s2 show ?thesis by simp
  qed
  have "rx_ready w4" using rx s2 s4 by (simp add: rx_ready_def get_sock_def)
  then show ?thesis
    using e s4 dhcp_receive_renewing [of E ll_send call_ip w4 w'] by (cases "udp_setup (only w4)") simp_all
qed

end
