(* ===== verification/Udp_Pool.thy ===== *)
theory Udp_Pool
  imports Udp Mem_Pool
begin

text \<open>
  The table of bound UDP ports over the pool its entries come from: with the array of
  \<^verbatim>\<open>dts_net_mem_arr.c\<close> the table is a set of pairs of interface and port that has room for
  \<^verbatim>\<open>DTS_NET_SERVER_UDP_MAX_COUNT\<close> of them, and \<^verbatim>\<open>udp_bind\<close> inserts into that set.
\<close>

record poolw = udpw +
  udp_pool :: arr_pool

definition DTS_NET_SERVER_UDP_MAX_COUNT :: nat where
  "DTS_NET_SERVER_UDP_MAX_COUNT = 1"

definition mem_alloc_udp :: "'w poolw_scheme \<Rightarrow> addr option \<times> 'w poolw_scheme" where
  "mem_alloc_udp w = (case arr_alloc (udp_pool w) of (r, p) \<Rightarrow> (r, w\<lparr>udp_pool := p\<rparr>))"

definition udp_key :: "(addr \<rightharpoonup> udp) \<Rightarrow> addr \<Rightarrow> addr \<times> int" where
  "udp_key us p = (u_low_level (the (us p)), u_port (the (us p)))"

definition bound_ports :: "'w udpw_scheme \<Rightarrow> (addr \<times> int) set" where
  "bound_ports w = udp_key (udps w) ` set (udp_list w)"

definition port_table_ok :: "'w poolw_scheme \<Rightarrow> bool" where
  "port_table_ok w \<longleftrightarrow> ports_unique w \<and> arr_ok (udp_pool w) \<and> arr_live (udp_pool w) = set (udp_list w)"

lemma card_bound_ports:
  assumes "ports_unique w"
  shows "card (bound_ports w) = length (udp_list w)"
proof -
  have "inj_on (udp_key (udps w)) (set (udp_list w))"
  proof (rule inj_onI)
    fix p q
    assume p: "p \<in> set (udp_list w)" and q: "q \<in> set (udp_list w)"
      and eq: "udp_key (udps w) p = udp_key (udps w) q"
    obtain u v where uv: "udps w p = Some u" "udps w q = Some v"
      using assms p q by (fastforce simp: ports_unique_def)
    with eq have "u_low_level u = u_low_level v" "u_port u = u_port v" by (simp_all add: udp_key_def)
    then show "p = q" using assms p q uv unfolding ports_unique_def by blast
  qed
  then show ?thesis
    using assms by (simp add: bound_ports_def card_image ports_unique_def distinct_card)
qed

lemma find_udp_bound:
  assumes "list_laws E" "ports_unique w"
  shows "\<exists>r. find_udp_by_addr E ip port w = Some r \<and> (r = None \<longleftrightarrow> (ip, port) \<notin> bound_ports w)"
proof -
  have items: "list_items E (udp_list w) = udp_list w" using assms(1) by (simp add: list_laws_def)
  have live: "udps w p \<noteq> None" if "p \<in> set (udp_list w)" for p using assms(2) that by (simp add: ports_unique_def)
  have "find_udp_by_addr E ip port w = Some (find (bound_to (udps w) ip port) (udp_list w))"
    unfolding find_udp_by_addr_def items using find_udp_loop_find [of "udp_list w" "udps w"] live by simp
  moreover have "find (bound_to (udps w) ip port) (udp_list w) = None \<longleftrightarrow> (ip, port) \<notin> bound_ports w"
  proof -
    have "bound_to (udps w) ip port p \<longleftrightarrow> (ip, port) = udp_key (udps w) p" if "p \<in> set (udp_list w)" for p
      using live [OF that] by (auto simp: bound_to_def udp_key_def)
    then show ?thesis by (auto simp: find_None_iff bound_ports_def image_iff)
  qed
  ultimately show ?thesis by auto
qed

lemma mem_alloc_udp_frame:
  assumes "mem_alloc_udp w = (r, w')"
  shows "udps w' = udps w" "udp_list w' = udp_list w" "arr_alloc (udp_pool w) = (r, udp_pool w')"
  using assms by (auto simp: mem_alloc_udp_def split: prod.splits)

lemma udp_bind_set:
  assumes E: "list_laws E" and ok: "port_table_ok w"
  shows "\<exists>res w'. udp_bind E mem_alloc_udp ip port cbk cbkd w = Some (res, w') \<and> port_table_ok w' \<and>
    (res \<noteq> None \<longleftrightarrow> (ip, port) \<notin> bound_ports w \<and> card (bound_ports w) < card (set (ap_items (udp_pool w)))) \<and>
    bound_ports w' = (if res = None then bound_ports w else insert (ip, port) (bound_ports w)) \<and>
    set (ap_items (udp_pool w')) = set (ap_items (udp_pool w))"
proof -
  have u: "ports_unique w" and p: "arr_ok (udp_pool w)" "arr_live (udp_pool w) = set (udp_list w)"
    using ok by (simp_all add: port_table_ok_def)
  obtain r where r: "find_udp_by_addr E ip port w = Some r" "r = None \<longleftrightarrow> (ip, port) \<notin> bound_ports w"
    using find_udp_bound [OF E u] by blast
  obtain q w1 where a: "mem_alloc_udp w = (q, w1)" by fastforce
  note fr = mem_alloc_udp_frame [OF a] and al = arr_alloc_live [OF p(1) fr(3)]
  have room: "q \<noteq> None \<longleftrightarrow> card (bound_ports w) < card (set (ap_items (udp_pool w)))"
    using arr.alloc_succeeds_iff [OF p(1)] fr(3) u p(2)
    by (simp add: card_bound_ports ports_unique_def distinct_card)
  have fresh: "\<And>p w'. mem_alloc_udp w = (p, w') \<Longrightarrow> udps w' = udps w \<and> udp_list w' = udp_list w \<and>
      (\<forall>q. p = Some q \<longrightarrow> q \<notin> set (udp_list w))"
    using a fr al p(2) by (auto split: option.splits)
  show ?thesis
  proof (cases "r = None \<and> q \<noteq> None")
    case False
    let ?w = "if r = None then w1 else w"
    have b: "udp_bind E mem_alloc_udp ip port cbk cbkd w = Some (None, ?w)"
      using r False a by (auto simp: udp_bind_def)
    have "port_table_ok ?w"
      using udp_bind_unique [OF E u fresh b] ok al p(2) False fr by (auto simp: port_table_ok_def)
    moreover have "bound_ports ?w = bound_ports w" using fr by (simp add: bound_ports_def)
    ultimately show ?thesis using b r False room al by auto
  next
    case True
    then obtain i where i: "q = Some i" by blast
    let ?u = "\<lparr>u_low_level = ip, u_port = port, u_cb_data = cbkd, u_callback = cbk\<rparr>"
    let ?w = "w1\<lparr>udps := (udps w1)(i \<mapsto> ?u), udp_list := list_add E i (udp_list w1)\<rparr>"
    have b: "udp_bind E mem_alloc_udp ip port cbk cbkd w = Some (Some i, ?w)"
      using r True a i by (simp add: udp_bind_def)
    have "mset (list_add E i (udp_list w)) = add_mset i (mset (udp_list w))"
      using E by (simp add: list_laws_def)
    from arg_cong [OF this, of set_mset] have set: "set (list_add E i (udp_list w)) = insert i (set (udp_list w))"
      by simp
    have "i \<notin> set (udp_list w)" using al i p(2) by simp
    then have "bound_ports ?w = insert (ip, port) (bound_ports w)"
      using set fr by (auto simp: bound_ports_def udp_key_def image_iff)
    moreover have "port_table_ok ?w"
      using udp_bind_unique [OF E u fresh b] al p(2) i set fr by (simp add: port_table_ok_def)
    ultimately show ?thesis using b r True room al by auto
  qed
qed

end
