(* ===== verification/Tcp_World.thy ===== *)
theory Tcp_World
  imports Frame
begin

text \<open>
  The connections side by side: a segment changes the connection it belongs to and no
  other, \<^verbatim>\<open>tcp_open\<close> adds a listening connection, and \<^verbatim>\<open>tcp_loop\<close> takes a connection out
  when its time in \<^verbatim>\<open>TIME_WAIT\<close> is over.
\<close>

section \<open>Isolation\<close>

lemma rest_tcpw:
  assumes "rest w' = rest w"
  shows "tcbs w' = tcbs w" "tcp_list w' = tcp_list w" "segs w' = segs w" "udps w' = udps w"
    "udp_list w' = udp_list w" "nifs w' = nifs w" "nif_list w' = nif_list w" "ips w' = ips w"
    "second w' = second w" "tick w' = tick w"
  using assms by (cases w; cases w'; simp add: rest_def)+

lemma best_match_member:
  assumes "best_match cbs ip src seg best ps = Some (Some p)"
  shows "best = Some p \<or> p \<in> set ps \<and> (\<exists>t. cbs p = Some t \<and> localhost t = ip \<and> t_port t = ucast (sg_dest_port seg))"
  using assms
  by (induction ps arbitrary: best) (auto simp: bind_Some_iff split: if_splits)

text \<open>The part of the state that belongs to nobody's connection.\<close>

definition same_tables :: "('tm, 'w) tcpw_scheme \<Rightarrow> ('tm, 'w) tcpw_scheme \<Rightarrow> bool" where
  "same_tables w w' \<longleftrightarrow> tcp_list w' = tcp_list w \<and> udps w' = udps w \<and> udp_list w' = udp_list w \<and>
     nifs w' = nifs w \<and> nif_list w' = nif_list w \<and> ips w' = ips w \<and> second w' = second w"

lemma deliver_isolated:
  assumes "deliver E ll_send p seg w = Some w'" "link_frame ll_send"
  shows "tcbs w' = (tcbs w)(p := tcbs w' p) \<and> same_tables w w'"
proof -
  obtain t where t: "tcbs w p = Some t" using assms(1) by (auto simp: deliver_def bind_Some_iff)
  let ?w = "bump (w\<lparr>segs := (segs w)(brk w \<mapsto> seg)\<rparr>)"
  let ?t = "t\<lparr>rx_segs := list_enqueue E (brk w) (rx_segs t)\<rparr>"
  obtain t1 w1 where r: "tcp_received E ll_send ?t ?w = Some (t1, w1)"
    and w': "w' = w1\<lparr>tcbs := (tcbs w1)(p \<mapsto> t1), segs := (segs w1)(brk w := None)\<rparr>"
    using assms(1) t by (auto simp: deliver_def bind_Some_iff Let_def)
  have "rest w1 = rest ?w" by (rule tcp_received_rest [OF r assms(2)])
  then have "tcbs w1 = tcbs w" "same_tables w w1"
    using rest_tcpw [of w1 ?w] by (simp_all add: same_tables_def bump_def)
  then show ?thesis by (auto simp: w' same_tables_def)
qed

lemma tcp_ip_recv_isolated:
  assumes r: "tcp_ip_recv E ll_send ip dg w = Some w'" and L: "link_frame ll_send" and E: "list_laws E"
  shows "\<exists>p. tcbs w' = (tcbs w)(p := tcbs w' p) \<and>
    (tcbs w' p \<noteq> tcbs w p \<longrightarrow> p \<in> set (tcp_list w) \<and> (\<exists>t. tcbs w p = Some t \<and> localhost t = ip)) \<and>
    same_tables w w'"
proof -
  obtain ok seg w1 w2 w3 w4 w0 sg0 ph where u: "tcp_unpack sg0 ph w0 = Some (ok, seg, w1)" "rest w0 = rest w"
    and d: "(if ok then do {
         best \<leftarrow> best_match (tcbs w1) ip (h_src (dg_header dg)) seg None (list_items E (tcp_list w1));
         (case best of None \<Rightarrow> Some w1
          | Some p \<Rightarrow> deliver E ll_send p (seg\<lparr>sg_datagram := Some dg\<rparr>) w1) }
       else Some w1) = Some w2"
    and pops: "rest w3 = rest w2" "rest w4 = rest w3" "rest w' = rest w4"
    using r by (auto simp: tcp_ip_recv_def bind_Some_iff Let_def new_eqs dest!: free_frames [THEN heap_rest])
  have w1: "tcbs w1 = tcbs w" "tcp_list w1 = tcp_list w" "same_tables w w1"
    using tcp_unpack_frame [THEN heap_rest, OF u(1)] u(2) rest_tcpw [of w1 w] by (simp_all add: same_tables_def)
  have e: "tcbs w' = tcbs w2" "same_tables w2 w'"
    using pops rest_tcpw [of w' w2] by (simp_all add: same_tables_def)
  have tr: "same_tables w w'" if "same_tables w1 w2"
    using w1(3) that e(2) by (simp add: same_tables_def)
  show ?thesis
  proof (cases "w2 = w1")
    case True
    then have "tcbs w' = tcbs w" "same_tables w w'" using e w1 tr by (simp_all add: same_tables_def)
    then show ?thesis by (intro exI [of _ undefined]) simp
  next
    case False
    with d obtain p where b: "best_match (tcbs w1) ip (h_src (dg_header dg)) seg None (tcp_list w) = Some (Some p)"
      and dl: "deliver E ll_send p (seg\<lparr>sg_datagram := Some dg\<rparr>) w1 = Some w2"
      using E w1 by (auto simp: bind_Some_iff list_laws_def split: if_splits option.splits)
    have "p \<in> set (tcp_list w) \<and> (\<exists>t. tcbs w p = Some t \<and> localhost t = ip)"
      using best_match_member [OF b] w1 by auto
    moreover have "tcbs w' = (tcbs w)(p := tcbs w' p) \<and> same_tables w w'"
      using deliver_isolated [OF dl L] e w1 tr by simp
    ultimately show ?thesis by blast
  qed
qed

section \<open>Opening\<close>

lemma port_taken_iff:
  assumes "\<And>p. p \<in> set ps \<Longrightarrow> cbs p \<noteq> None"
  shows "port_taken cbs ip port ps = Some (\<exists>p \<in> set ps. \<exists>t. cbs p = Some t \<and> Some (localhost t) = ip \<and>
    t_port t = port \<and> \<not> t_passive t)"
  using assms
proof (induction ps)
  case (Cons p ps)
  obtain t where "cbs p = Some t" using Cons.prems [of p] by auto
  with Cons show ?case by auto
qed simp

lemma store_self_fields [simp]:
  "tcbs (store_self own a w) = tcbs w" "tcp_list (store_self own a w) = tcp_list w"
  "mallocs (store_self own a w) = mallocs w" "malloc_ok (store_self own a w) = malloc_ok w"
  "brk (store_self own a w) = brk w" "second (store_self own a w) = second w"
  by (cases own; simp add: store_self_def)+

text \<open>The connection a passive \<^verbatim>\<open>tcp_open\<close> makes.\<close>

definition listening :: "'tm ext \<Rightarrow> addr \<Rightarrow> u32 \<Rightarrow> u16 \<Rightarrow> u32 \<Rightarrow> 'tm tcb" where
  "listening E i port dest_port isn = (new_tcb E i port None dest_port)\<lparr>snd_una := isn, snd_nxt := isn,
     snd_iss := isn, time_wait_seconds := 120, t_state := LISTEN\<rparr>"

lemma tcp_open_passive_result:
  fixes w :: "('tm, 'w) tcpw_scheme" and port :: u32
  assumes E: "list_laws E" and f: "ip_find_netif E own local w = Some (ip, local')"
    and live: "\<And>p. p \<in> set (tcp_list w) \<Longrightarrow> tcbs w p \<noteq> None"
  defines "taken \<equiv> \<exists>p \<in> set (tcp_list w). \<exists>t. tcbs w p = Some t \<and> Some (localhost t) = ip \<and>
    t_port t = port \<and> \<not> t_passive t"
  shows "\<exists>w'. tcp_open E ll_send own local port None dport w =
      Some (if taken \<or> ip = None \<or> \<not> malloc_ok w (mallocs w) then None else Some (brk w), local', w') \<and>
    (if taken \<or> ip = None \<or> \<not> malloc_ok w (mallocs w) then tcbs w' = tcbs w \<and> tcp_list w' = tcp_list w
     else tcbs w' = (tcbs w)(brk w \<mapsto> listening E (the ip) port dport (sys_tick_s w)) \<and>
       tcp_list w' = tcp_list w @ [brk w])"
proof -
  have items: "list_items E (tcp_list w) = tcp_list w" "list_enqueue E x xs = xs @ [x]" for x xs
    using E by (simp_all add: list_laws_def)
  have pt: "port_taken (tcbs w) ip port (tcp_list w) = Some taken"
    unfolding taken_def using live by (rule port_taken_iff)
  have tk: "sys_tick_s (store_self own local' w) = sys_tick_s w" by (simp add: sys_tick_s_def)
  show ?thesis
  proof (cases "taken \<or> ip = None \<or> \<not> malloc_ok w (mallocs w)")
    case True
    then show ?thesis
      using f pt
      by (cases ip; cases taken)
         (simp_all add: tcp_open_def items malloc_try_def Let_def)
  next
    case False
    then obtain i where "ip = Some i" by auto
    with False f pt show ?thesis
      by (simp add: tcp_open_def items malloc_try_def Let_def open_event_def open_when_closed_def new_tcb_def
          listening_def tcp_generate_isn_def bump_def sys_tick_s_def)
  qed
qed

section \<open>The loop over the connections\<close>

text \<open>Nothing is to be retransmitted for this connection.\<close>

definition quiet :: "'tm ext \<Rightarrow> u32 \<Rightarrow> 'tm tcb \<Rightarrow> bool" where
  "quiet E now t \<longleftrightarrow> \<not> timer_expired E now (tmr t) \<or>
     t_state t \<notin> {SYN_SENT, FIN_WAIT_1, LAST_ACK, ESTABLISHED}"

definition reaped :: "'tm ext \<Rightarrow> u32 \<Rightarrow> 'tm tcb \<Rightarrow> bool" where
  "reaped E now t \<longleftrightarrow> t_state t = CLOSED \<or> t_state t = TIME_WAIT \<and> timer_expired E now (tmr t)"

lemma loop_one_quiet:
  assumes E: "list_laws E" and t: "tcbs w p = Some t" "quiet E (sys_tick_s w) t" and d: "distinct (tcp_list w)"
  shows "\<exists>t'. t_state t' = t_state t \<and> loop_one E ll_send p w =
    Some (if reaped E (sys_tick_s w) t
      then w\<lparr>tcp_list := filter (\<lambda>q. q \<noteq> p) (tcp_list w), tcbs := (tcbs w)(p := None)\<rparr>
      else w\<lparr>tcbs := (tcbs w)(p \<mapsto> t')\<rparr>)"
proof -
  have rm: "list_foreach_remove E p (tcp_list w) = filter (\<lambda>q. q \<noteq> p) (tcp_list w)"
    using E d by (simp add: list_laws_def distinct_remove1_removeAll removeAll_filter_not_eq neq_commute)
  show ?thesis
  proof (cases "timer_expired E (sys_tick_s w) (tmr t)")
    case False
    then show ?thesis
      using t rm by (intro exI [of _ t]) (simp add: loop_one_def reaped_def)
  next
    case True
    with t have s: "t_state t \<notin> {SYN_SENT, FIN_WAIT_1, LAST_ACK, ESTABLISHED}" by (simp add: quiet_def)
    show ?thesis
      using t rm True s
      by (intro exI [of _ "t\<lparr>tmr := timer_stop E (tmr t)\<rparr>"], cases "t_state t")
         (simp_all add: loop_one_def reaped_def tcp_timeout_def)
  qed
qed

lemma tcp_loop_over_quiet:
  assumes E: "list_laws E" and d: "distinct ps" "distinct (tcp_list w)"
    and q: "\<And>p. p \<in> set ps \<Longrightarrow> \<exists>t. tcbs w p = Some t \<and> quiet E (sys_tick_s w) t"
  shows "\<exists>w'. tcp_loop_over E ll_send ps w = Some w' \<and> second w' = second w \<and>
    tcp_list w' = filter (\<lambda>p. \<not> (p \<in> set ps \<and> reaped E (sys_tick_s w) (the (tcbs w p)))) (tcp_list w) \<and>
    (\<forall>p. if p \<in> set ps then map_option t_state (tcbs w' p) =
          (if reaped E (sys_tick_s w) (the (tcbs w p)) then None else map_option t_state (tcbs w p))
      else tcbs w' p = tcbs w p)"
  using d q
proof (induction ps arbitrary: w)
  case Nil
  then show ?case by simp
next
  case (Cons p ps)
  obtain t where t: "tcbs w p = Some t" "quiet E (sys_tick_s w) t" using Cons.prems(3) [of p] by auto
  obtain t' where s: "t_state t' = t_state t" and l: "loop_one E ll_send p w =
    Some (if reaped E (sys_tick_s w) t
      then w\<lparr>tcp_list := filter (\<lambda>q. q \<noteq> p) (tcp_list w), tcbs := (tcbs w)(p := None)\<rparr>
      else w\<lparr>tcbs := (tcbs w)(p \<mapsto> t')\<rparr>)" (is "_ = Some ?w")
    using loop_one_quiet [OF E t Cons.prems(2)] by blast
  have tk: "sys_tick_s ?w = sys_tick_s w" by (simp add: sys_tick_s_def)
  have other: "tcbs ?w r = tcbs w r" if "r \<noteq> p" for r using that by simp
  have "distinct ps" "distinct (tcp_list ?w)" using Cons.prems(1,2) by simp_all
  moreover have "\<exists>t. tcbs ?w r = Some t \<and> quiet E (sys_tick_s ?w) t" if "r \<in> set ps" for r
    using Cons.prems(3) [of r] that other [of r] Cons.prems(1) unfolding tk by auto
  ultimately obtain w' where w': "tcp_loop_over E ll_send ps ?w = Some w'" "second w' = second ?w"
    "tcp_list w' = filter (\<lambda>r. \<not> (r \<in> set ps \<and> reaped E (sys_tick_s ?w) (the (tcbs ?w r)))) (tcp_list ?w)"
    "\<forall>r. if r \<in> set ps then map_option t_state (tcbs w' r) =
          (if reaped E (sys_tick_s ?w) (the (tcbs ?w r)) then None else map_option t_state (tcbs ?w r))
      else tcbs w' r = tcbs ?w r"
    using Cons.IH [of ?w] by blast
  have run: "tcp_loop_over E ll_send (p # ps) w = Some w'" using l w'(1) by simp
  have p: "p \<notin> set ps" using Cons.prems(1) by simp
  have lst: "tcp_list w' = filter (\<lambda>r. \<not> (r \<in> set (p # ps) \<and> reaped E (sys_tick_s w) (the (tcbs w r)))) (tcp_list w)"
    unfolding w'(3) tk using p t(1) by (auto intro!: filter_cong)
  have cbs: "if r \<in> set (p # ps) then map_option t_state (tcbs w' r) =
          (if reaped E (sys_tick_s w) (the (tcbs w r)) then None else map_option t_state (tcbs w r))
      else tcbs w' r = tcbs w r" for r
    using w'(4) [rule_format, of r] p t(1) s unfolding tk by (cases "r = p") auto
  show ?case using run w'(2) lst cbs by (intro exI [of _ w']) simp
qed

text \<open>
  One pass of the loop: it returns, exactly the connections that are closed or whose time
  is over are gone, and the others are where they were.
\<close>

lemma tcp_loop_quiet:
  assumes E: "list_laws E" and d: "distinct (tcp_list w)"
    and q: "\<And>p. p \<in> set (tcp_list w) \<Longrightarrow> \<exists>t. tcbs w p = Some t \<and> quiet E (sys_tick_s w) t"
  shows "\<exists>w'. tcp_loop E ll_send w = Some w' \<and>
    tcp_list w' = filter (\<lambda>p. \<not> reaped E (sys_tick_s w) (the (tcbs w p))) (tcp_list w) \<and>
    (\<forall>p \<in> set (tcp_list w). map_option t_state (tcbs w' p) =
      (if reaped E (sys_tick_s w) (the (tcbs w p)) then None else map_option t_state (tcbs w p)))"
proof -
  obtain w' where "tcp_loop_over E ll_send (tcp_list w) w = Some w'"
    "tcp_list w' = filter (\<lambda>p. \<not> (p \<in> set (tcp_list w) \<and> reaped E (sys_tick_s w) (the (tcbs w p)))) (tcp_list w)"
    "\<forall>p. if p \<in> set (tcp_list w) then map_option t_state (tcbs w' p) =
          (if reaped E (sys_tick_s w) (the (tcbs w p)) then None else map_option t_state (tcbs w p))
      else tcbs w' p = tcbs w p"
    using tcp_loop_over_quiet [OF E d d q] by blast
  then show ?thesis
    using E by (intro exI [of _ w']) (auto simp: tcp_loop_def list_laws_def intro!: filter_cong)
qed

text \<open>Heartbeats only move the clock.\<close>

lemma heartbeats_conns:
  "tcbs ((dts_net_sys_heartbeat ^^ k) w) = tcbs w" "tcp_list ((dts_net_sys_heartbeat ^^ k) w) = tcp_list w"
  by (induction k) (simp_all add: dts_net_sys_heartbeat_def Let_def)

end
