(* ===== verification/Tcp_Table.thy ===== *)
theory Tcp_Table
  imports Tcp_World Tcp_Reach
begin

text \<open>
  The whole table of connections as a step relation over the state of the machine:
  connections are opened and closed, datagrams arrive, the application reads and writes,
  \<^verbatim>\<open>tcp_loop\<close> runs and the clock ticks, in any order, and the other parts of the stack do what
  they like with the rest of the state.  Each connection of the table then lives the life of
  \<open>Tcp_Reach\<close>, the table has no connection twice, and no connection exists outside the table.
\<close>

inductive stack_step ::
  "'tm ext \<Rightarrow> (('tm, 'w) tcpw_scheme) ll_send \<Rightarrow> ('tm, 'w) tcpw_scheme \<Rightarrow> ('tm, 'w) tcpw_scheme \<Rightarrow> bool"
  for E :: "'tm ext" and ll_send :: "(('tm, 'w) tcpw_scheme) ll_send" where
  does_open: "tcp_open E ll_send own ip port dest dport w = Some (res, ip', w') \<Longrightarrow> tcbs w (brk w) = None \<Longrightarrow>
    stack_step E ll_send w w'"
| does_arrive: "tcp_ip_recv E ll_send ip dg w = Some w' \<Longrightarrow> stack_step E ll_send w w'"
| does_loop: "tcp_loop E ll_send w = Some w' \<Longrightarrow> stack_step E ll_send w w'"
| does_close: "tcp_close E p w = Some w' \<Longrightarrow> stack_step E ll_send w w'"
| does_read: "tcp_recv E p buf n w = Some (k, w') \<Longrightarrow> stack_step E ll_send w w'"
| does_write: "tcp_send E ll_send p buf n w = Some (k, w') \<Longrightarrow> stack_step E ll_send w w'"
| does_tick: "stack_step E ll_send w (dts_net_sys_heartbeat w)"
| elsewhere: "tcbs w' = tcbs w \<Longrightarrow> tcp_list w' = tcp_list w \<Longrightarrow> stack_step E ll_send w w'"

inductive stack_reach ::
  "'tm ext \<Rightarrow> (('tm, 'w) tcpw_scheme) ll_send \<Rightarrow> ('tm, 'w) tcpw_scheme \<Rightarrow> bool"
  for E :: "'tm ext" and ll_send :: "(('tm, 'w) tcpw_scheme) ll_send" where
  booted: "tcbs w = Map.empty \<Longrightarrow> tcp_list w = [] \<Longrightarrow> stack_reach E ll_send w"
| moved: "stack_reach E ll_send w \<Longrightarrow> stack_step E ll_send w w' \<Longrightarrow> stack_reach E ll_send w'"

definition table_inv ::
  "'tm ext \<Rightarrow> (('tm, 'w) tcpw_scheme) ll_send \<Rightarrow> ('tm, 'w) tcpw_scheme \<Rightarrow> bool" where
  "table_inv E ll_send w \<longleftrightarrow> distinct (tcp_list w) \<and> dom (tcbs w) = set (tcp_list w) \<and>
     (\<forall>p t. tcbs w p = Some t \<longrightarrow> conn_reach E ll_send t)"

section \<open>One step at a time\<close>

lemma table_inv_same: "tcbs w' = tcbs w \<Longrightarrow> tcp_list w' = tcp_list w \<Longrightarrow> table_inv E ll_send w' = table_inv E ll_send w"
  by (simp add: table_inv_def)

lemma table_inv_step:
  assumes "table_inv E ll_send w" "tcbs w p = Some t" "conn_reach E ll_send t \<Longrightarrow> conn_reach E ll_send t'"
    and "tcbs w' = (tcbs w)(p \<mapsto> t')" "tcp_list w' = tcp_list w"
  shows "table_inv E ll_send w'"
  using assms by (auto simp: table_inv_def)

lemma table_inv_remove:
  assumes "table_inv E ll_send w" "tcbs w' = (tcbs w)(p := None)" "tcp_list w' = remove1 p (tcp_list w)"
  shows "table_inv E ll_send w'"
  using assms by (auto simp: table_inv_def distinct_remove1 set_remove1_eq)

lemma deliver_step:
  assumes "deliver E ll_send p seg w = Some w'" "link_frame ll_send"
  shows "\<exists>t t'. tcbs w p = Some t \<and> conn_step E ll_send t t' \<and> tcbs w' = (tcbs w)(p \<mapsto> t') \<and> tcp_list w' = tcp_list w"
proof -
  obtain t where t: "tcbs w p = Some t" using assms(1) by (auto simp: deliver_def bind_Some_iff)
  let ?w = "bump (w\<lparr>segs := (segs w)(brk w \<mapsto> seg)\<rparr>)"
  obtain t1 w1 where r: "tcp_received E ll_send (t\<lparr>rx_segs := list_enqueue E (brk w) (rx_segs t)\<rparr>) ?w = Some (t1, w1)"
    and w': "w' = w1\<lparr>tcbs := (tcbs w1)(p \<mapsto> t1), segs := (segs w1)(brk w := None)\<rparr>"
    using assms(1) t by (auto simp: deliver_def bind_Some_iff Let_def)
  have "tcbs w1 = tcbs w" "tcp_list w1 = tcp_list w"
    using rest_tcpw(1,2) [OF tcp_received_rest [OF r assms(2)]] by (simp_all add: bump_def)
  then show ?thesis using t conn_step.arrive [OF r] by (auto simp: w')
qed

lemma table_inv_conn:
  assumes "table_inv E ll_send w" "tcbs w p = Some t" "conn_step E ll_send t t'"
    and "tcbs w' = (tcbs w)(p \<mapsto> t')" "tcp_list w' = tcp_list w"
  shows "table_inv E ll_send w'"
  using table_inv_step [OF assms(1,2) _ assms(4,5)] conn_reach.stepped assms(3) by blast

lemma arrive_table:
  assumes r: "tcp_ip_recv E ll_send ip dg w = Some w'" and L: "link_frame ll_send" and T: "table_inv E ll_send w"
  shows "table_inv E ll_send w'"
proof -
  obtain ok seg w1 w2 w3 w4 w0 sg0 ph where u: "tcp_unpack sg0 ph w0 = Some (ok, seg, w1)" "rest w0 = rest w"
    and d: "(if ok then do {
         best \<leftarrow> best_match (tcbs w1) ip (h_src (dg_header dg)) seg None (list_items E (tcp_list w1));
         (case best of None \<Rightarrow> Some w1
          | Some p \<Rightarrow> deliver E ll_send p (seg\<lparr>sg_datagram := Some dg\<rparr>) w1) }
       else Some w1) = Some w2"
    and pops: "rest w3 = rest w2" "rest w4 = rest w3" "rest w' = rest w4"
    using r by (auto simp: tcp_ip_recv_def bind_Some_iff Let_def new_eqs dest!: free_frames [THEN heap_rest])
  have "table_inv E ll_send w1"
    using tcp_unpack_frame [THEN heap_rest, OF u(1)] u(2) rest_tcpw(1,2) [of w1 w] T by (simp add: table_inv_def)
  moreover have "w2 = w1 \<or> (\<exists>p seg. deliver E ll_send p seg w1 = Some w2)"
    using d by (auto simp: bind_Some_iff split: if_splits option.splits)
  ultimately have "table_inv E ll_send w2" using deliver_step [OF _ L] table_inv_conn by metis
  then show ?thesis using rest_tcpw(1,2) [of w' w2] pops by (simp add: table_inv_def)
qed

lemma timeout_rest:
  "tcp_timeout E ll_send t w = Some (t', w') \<Longrightarrow> link_frame ll_send \<Longrightarrow> rest w' = rest w"
  by (auto simp: tcp_timeout_def split: tcp_state.splits dest!: tcp_retransmit_rest)

lemma loop_one_table:
  assumes l: "loop_one E ll_send p w = Some w'" and L: "link_frame ll_send" and E: "list_laws E"
    and T: "table_inv E ll_send w"
  shows "table_inv E ll_send w'"
proof -
  obtain t where t: "tcbs w p = Some t" using l by (auto simp: loop_one_def bind_Some_iff)
  obtain t1 w1 where m: "(if timer_expired E (sys_tick_s w) (tmr t)
        then tcp_timeout E ll_send (t\<lparr>tmr := timer_stop E (tmr t)\<rparr>) w else Some (t, w)) = Some (t1, w1)"
    and w': "(if t_state t1 = CLOSED
       then Some (w1\<lparr>tcp_list := list_foreach_remove E p (tcp_list w1), tcbs := (tcbs w1)(p := None)\<rparr>)
       else Some (w1\<lparr>tcbs := (tcbs w1)(p \<mapsto> t1)\<rparr>)) = Some w'"
    using l t unfolding loop_one_def by (simp only: Option.bind.bind_lunit bind_Some_iff split_paired_Ex prod.case) blast
  have "rest w1 = rest w" using m L by (auto split: if_splits dest: timeout_rest)
  then have e: "tcbs w1 = tcbs w" "tcp_list w1 = tcp_list w" using rest_tcpw(1,2) by blast+
  have c: "conn_reach E ll_send t1" if "conn_reach E ll_send t"
    using m that by (auto split: if_splits dest: conn_step.expire conn_reach.stepped)
  show ?thesis
  proof (cases "t_state t1 = CLOSED")
    case True
    with w' e E show ?thesis by (intro table_inv_remove [OF T]) (auto simp: list_laws_def)
  next
    case False
    with w' e c show ?thesis by (intro table_inv_step [OF T t]) auto
  qed
qed

lemma loop_table:
  assumes "tcp_loop_over E ll_send ps w = Some w'" "link_frame ll_send" "list_laws E" "table_inv E ll_send w"
  shows "table_inv E ll_send w'"
  using assms by (induction ps arbitrary: w) (auto simp: bind_Some_iff dest: loop_one_table)

lemma close_event_rest:
  "close_event E t w = Some (t', w') \<Longrightarrow> rest w' = rest w"
  by (auto simp: close_event_def close_when_established_def close_when_close_wait_def bind_Some_iff
      split: tcp_state.splits dest!: tcp_contruct_fin_ack_rest)

lemma close_table:
  assumes "close_loop E p ps w = Some w'" "table_inv E ll_send w"
  shows "table_inv E ll_send w'"
  using assms
proof (induction ps arbitrary: w)
  case (Cons q ps)
  show ?case
  proof (cases "q = p")
    case True
    with Cons.prems(1) obtain t t1 w1 where t: "tcbs w p = Some t" and c: "close_event E t w = Some (t1, w1)"
      and l: "close_loop E p ps (w1\<lparr>tcbs := (tcbs w1)(p \<mapsto> t1)\<rparr>) = Some w'"
      by (auto simp: bind_Some_iff)
    have s: "conn_step E ll_send t t1"
      by (rule conn_step.shut [where n = "time_wait_seconds t" and w = w and w' = w1]) (simp add: c)
    have "table_inv E ll_send (w1\<lparr>tcbs := (tcbs w1)(p \<mapsto> t1)\<rparr>)"
      by (rule table_inv_conn [OF Cons.prems(2) t s]) (use rest_tcpw(1,2) [OF close_event_rest [OF c]] in simp_all)
    then show ?thesis by (rule Cons.IH [OF l])
  next
    case False
    with Cons show ?thesis by simp
  qed
qed simp

lemma recv_loop_run:
  assumes "recv_loop E t data len did w = Some y"
  shows "rest (snd (snd y)) = rest w"
proof (rule recv_loop.raw_induct [OF _ assms, where P = "\<lambda>E t data len did w y. rest (snd (snd y)) = rest w"], goal_cases)
  case (1 rec E t data len did w y)
  from 1(2) show ?case
    by (auto simp: bind_Some_iff Let_def split: if_splits dest!: rest_frames 1(1))
qed

lemma send_established_rest:
  assumes s: "send_when_established E ll_send t p n w = Some (k, t', w')" and L: "link_frame ll_send"
  shows "rest w' = rest w"
  using s unfolding send_when_established_def
  by (auto simp: bind_Some_iff split: option.splits dest!: rest_frames tcp_construct_data_rest [OF _ L])

lemma read_table:
  assumes r: "tcp_recv E p buf n w = Some (k, w')" and T: "table_inv E ll_send w"
  shows "table_inv E ll_send w'"
proof -
  obtain t where t: "tcbs w p = Some t" using r by (auto simp: tcp_recv_def bind_Some_iff)
  show ?thesis
  proof (cases "t_state t = ESTABLISHED")
    case True
    then obtain t1 w1 where c: "recv_when_established E t buf n w = Some (k, t1, w1)"
      and w': "w' = w1\<lparr>tcbs := (tcbs w1)(p \<mapsto> t1)\<rparr>"
      using r t by (auto simp: tcp_recv_def bind_Some_iff)
    have "rest w1 = rest w" using recv_loop_run [OF c [unfolded recv_when_established_def]] by simp
    note e = rest_tcpw(1,2) [OF this]
    show ?thesis
      unfolding w' by (rule table_inv_conn [OF T t conn_step.app_read [OF True c]]) (simp_all add: e)
  next
    case False
    with r t T show ?thesis by (simp add: tcp_recv_def)
  qed
qed

lemma write_table:
  assumes s: "tcp_send E ll_send p buf n w = Some (k, w')" and L: "link_frame ll_send" and T: "table_inv E ll_send w"
  shows "table_inv E ll_send w'"
proof -
  obtain t where t: "tcbs w p = Some t" using s by (auto simp: tcp_send_def bind_Some_iff)
  show ?thesis
  proof (cases "t_state t = ESTABLISHED")
    case True
    then obtain t1 w1 where c: "send_when_established E ll_send t buf n w = Some (k, t1, w1)"
      and w': "w' = w1\<lparr>tcbs := (tcbs w1)(p \<mapsto> t1)\<rparr>"
      using s t by (auto simp: tcp_send_def bind_Some_iff)
    have "rest w1 = rest w" by (rule send_established_rest [OF c L])
    note e = rest_tcpw(1,2) [OF this]
    show ?thesis
      unfolding w' by (rule table_inv_conn [OF T t conn_step.app_write [OF True c]]) (simp_all add: e)
  next
    case False
    with s t T show ?thesis by (simp add: tcp_send_def)
  qed
qed

lemma open_event_rest:
  assumes o': "open_event E ll_send t w = Some (t', w')" and L: "link_frame ll_send"
  shows "rest w' = rest w"
proof -
  have c: "open_when_closed E ll_send t w = Some (t', w')"
    using o' by (simp add: open_event_def split: tcp_state.splits)
  obtain s w1 where m: "mem_alloc_tcp_segment w = (s, w1)" by fastforce
  show ?thesis
  proof (cases "t_passive t")
    case True
    with c show ?thesis by (auto simp: open_when_closed_def Let_def)
  next
    case active: False
    show ?thesis
    proof (cases s)
      case None
      with c m active show ?thesis by (simp add: open_when_closed_def Let_def)
    next
      case (Some seg)
      have "rest w' = rest w1"
        using c m active Some unfolding open_when_closed_def Let_def
        by (simp, elim tcp_pack_new_rest) (auto simp: bind_Some_iff dest: tcp_retransmit_rest [OF _ L])
      then show ?thesis using mem_alloc_tcp_segment_rest [OF m] by simp
    qed
  qed
qed

lemma open_table:
  assumes o': "tcp_open E ll_send own ip port dest dport w = Some (res, ip', w')" and fresh: "tcbs w (brk w) = None"
    and L: "link_frame ll_send" and E: "list_laws E" and T: "table_inv E ll_send w"
  shows "table_inv E ll_send w'"
proof -
  obtain i ip1 where f: "ip_find_netif E own ip w = Some (i, ip1)" using o' by (auto simp: tcp_open_def bind_Some_iff)
  let ?w = "store_self own ip1 w"
  show ?thesis
  proof (cases res)
    case None
    then have "tcbs w' = tcbs w \<and> tcp_list w' = tcp_list w"
      using o' f by (auto simp: tcp_open_def bind_Some_iff Let_def malloc_try_def split: if_splits option.splits)
    with T show ?thesis by (simp add: table_inv_def)
  next
    case (Some p)
    let ?w1 = "\<lambda>a. store_self own ip1 w\<lparr>mallocs := Suc (mallocs w),
      tcbs := (tcbs w)(brk w \<mapsto> new_tcb E a port dest dport), tcp_list := tcp_list w @ [brk w], brk := Suc (brk w)\<rparr>"
    obtain a w2 t where o1: "open_event E ll_send (new_tcb E a port dest dport) (?w1 a) = Some (t, w2)"
      and w': "w' = w2\<lparr>tcbs := (tcbs w2)(brk w \<mapsto> t)\<rparr>"
      using o' f Some E
      by (auto simp: tcp_open_def bind_Some_iff Let_def malloc_try_def list_laws_def bump_def split: if_splits option.splits)
    note e = rest_tcpw(1,2) [OF open_event_rest [OF o1 L]]
    have "conn_reach E ll_send t" by (rule conn_reach.opened [OF o1])
    with T fresh show ?thesis
      by (auto simp: table_inv_def w' e)
  qed
qed

text \<open>So the invariant holds wherever the stack gets.\<close>

lemma stack_step_table:
  assumes "stack_step E ll_send w w'" "link_frame ll_send" "list_laws E" "table_inv E ll_send w"
  shows "table_inv E ll_send w'"
  using assms
proof (cases rule: stack_step.cases)
  case does_open
  then show ?thesis using open_table assms(2-4) by blast
next
  case does_arrive
  then show ?thesis using arrive_table assms(2,4) by blast
next
  case does_loop
  then show ?thesis using loop_table assms(2-4) unfolding tcp_loop_def by blast
next
  case does_close
  then show ?thesis using close_table assms(4) unfolding tcp_close_def by blast
next
  case does_read
  then show ?thesis using read_table assms(4) by blast
next
  case does_write
  then show ?thesis using write_table assms(2,4) by blast
next
  case does_tick
  with assms(4) show ?thesis by (simp add: table_inv_def dts_net_sys_heartbeat_def Let_def)
next
  case elsewhere
  with assms(4) show ?thesis by (simp add: table_inv_def)
qed

lemma stack_reach_table:
  assumes "stack_reach E ll_send w" "link_frame ll_send" "list_laws E"
  shows "table_inv E ll_send w"
  using assms(1)
proof (induction rule: stack_reach.induct)
  case (booted w)
  then show ?case by (simp add: table_inv_def)
next
  case (moved w w')
  then show ?case using stack_step_table assms(2,3) by blast
qed

end
