(* ===== verification/Link_Layer.thy ===== *)
theory Link_Layer
  imports Tcp_Text
begin

text \<open>
  The contract between the transports and the link layer behind the function pointer
  \<^verbatim>\<open>ll_send\<close> of an interface, and what the control segments of a connection amount to
  under it: they are sent without undefined behaviour and leave no trace in memory.
  \<open>Ether_Link\<close> shows that \<^verbatim>\<open>ip_ether_send\<close> keeps the contract.
\<close>

section \<open>What a call leaves alone\<close>

definition same_conns :: "('tm, 'w) tcpw_scheme \<Rightarrow> ('tm, 'w) tcpw_scheme \<Rightarrow> bool" where
  "same_conns w w' \<longleftrightarrow> tcbs w' = tcbs w \<and> tcp_list w' = tcp_list w \<and> segs w' = segs w \<and> second w' = second w"

text \<open>Only memory has changed, and the counters of allocations and of packets.\<close>

definition heap_only :: "'w netw_scheme \<Rightarrow> 'w netw_scheme \<Rightarrow> bool" where
  "heap_only w w' \<longleftrightarrow> malloc_ok w' = malloc_ok w \<and> junk w' = junk w \<and> tick w' = tick w \<and> second w' = second w \<and>
     ips w' = ips w \<and> auto_header w' = auto_header w \<and> netw.more w' = netw.more w"

lemma heap_onlyD:
  assumes "heap_only w w'"
  shows "w' = w\<lparr>bufs := bufs w', nodes := nodes w', brk := brk w', mallocs := mallocs w', ident := ident w', wire := wire w'\<rparr>"
  using assms by (intro netw.equality) (simp_all add: heap_only_def)

lemma heap_only_trans: "heap_only w v \<Longrightarrow> heap_only v w' \<Longrightarrow> heap_only w w'"
  by (simp add: heap_only_def)

lemma heap_only_upd [simp]:
  "heap_only w w"
  "heap_only w (v\<lparr>bufs := bs\<rparr>) = heap_only w v" "heap_only w (v\<lparr>nodes := ns\<rparr>) = heap_only w v"
  "heap_only w (v\<lparr>brk := k\<rparr>) = heap_only w v" "heap_only w (v\<lparr>mallocs := m\<rparr>) = heap_only w v"
  "heap_only w (v\<lparr>ident := i\<rparr>) = heap_only w v" "heap_only w (v\<lparr>wire := l\<rparr>) = heap_only w v"
  "heap_only w (set_buf b x v) = heap_only w v" "heap_only w (set_node a d v) = heap_only w v"
  "heap_only w (del_buf b v) = heap_only w v" "heap_only w (del_node a v) = heap_only w v" "heap_only w (bump v) = heap_only w v"
  "heap_only (set_buf b x v) w = heap_only v w"
  by (simp_all add: heap_only_def set_buf_def set_node_def del_buf_def del_node_def bump_def)

text \<open>
  A call of \<^verbatim>\<open>ll_send\<close> with the block \<open>as\<close>, that returned \<open>r\<close>: it may have freed the
  heap-allocated nodes and buffers of the block if it reports success, and nothing else.
\<close>

definition link_keeps ::
  "addr list \<Rightarrow> int \<Rightarrow> ('tm, 'w) tcpw_scheme \<Rightarrow> ('tm, 'w) tcpw_scheme \<Rightarrow> bool" where
  "link_keeps as r w w' \<longleftrightarrow>
     (\<forall>a. a < brk w \<longrightarrow> \<not> (r \<noteq> 0 \<and> a \<in> set as \<and> freed_node w a) \<longrightarrow> nodes w' a = nodes w a) \<and>
     (\<forall>b. b < brk w \<longrightarrow> \<not> (r \<noteq> 0 \<and> Some b \<in> owned_buf w ` set as) \<longrightarrow> bufs w' b = bufs w b) \<and>
     brk w \<le> brk w' \<and> wf_heap w' \<and> same_conns w w' \<and> heap_only w w' \<and> ident w' = ident w"

text \<open>A block on the stack owns nothing: the call leaves every object alone.\<close>

lemma keeps_unowned:
  assumes k: "link_keeps as r w w'" and no: "\<And>a. a \<in> set as \<Longrightarrow> \<not> freed_node w a \<and> owned_buf w a = None"
  shows "a < brk w \<Longrightarrow> nodes w' a = nodes w a" and "b < brk w \<Longrightarrow> bufs w' b = bufs w b"
proof -
  have "owned_buf w ` set as \<subseteq> {None}"
    by (rule image_subsetI) (simp only: no singleton_iff)
  then have "Some b \<notin> owned_buf w ` set as" for b by blast
  then show "a < brk w \<Longrightarrow> nodes w' a = nodes w a" and "b < brk w \<Longrightarrow> bufs w' b = bufs w b"
    using k no unfolding link_keeps_def by blast+
qed

lemma wf_heap_del [simp]: "wf_heap w \<Longrightarrow> wf_heap (del_node a w)" "wf_heap w \<Longrightarrow> wf_heap (del_buf b w)"
  unfolding wf_heap_def by (auto simp: del_node_def del_buf_def)

text \<open>An operation that leaves every object that existed before as it was.\<close>

definition clean :: "('tm, 'w) tcpw_scheme \<Rightarrow> ('tm, 'w) tcpw_scheme \<Rightarrow> bool" where
  "clean w w' \<longleftrightarrow> (\<forall>a < brk w. nodes w' a = nodes w a) \<and> (\<forall>b < brk w. bufs w' b = bufs w b) \<and>
     brk w \<le> brk w' \<and> same_conns w w' \<and> heap_only w w' \<and> (wf_heap w \<longrightarrow> wf_heap w')"

locale link_layer =
  fixes ll_send :: "(('tm, 'w) tcpw_scheme) ll_send"
    and up :: "addr \<Rightarrow> ('tm, 'w) tcpw_scheme \<Rightarrow> bool"
  assumes up_heap: "up e w \<Longrightarrow> up e (w\<lparr>bufs := bs, nodes := ns, brk := k, mallocs := m, ident := i, wire := l\<rparr>)"
    and send: "up e w \<Longrightarrow> wf_heap w \<Longrightarrow> block w (dg_raw dg) as None \<Longrightarrow> block_bytes w as = Some ps \<Longrightarrow>
      length ps \<le> 1500 \<Longrightarrow> deletable w as \<Longrightarrow> length (ip_v4 (h_dest (dg_header dg))) = 4 \<Longrightarrow>
      \<exists>r w'. ll_send e dg w = Some (r, w') \<and> link_keeps as r w w'"

section \<open>The state a packet is sent from\<close>

lemma sent_world_heap:
  "sent_world w bs hdr = w\<lparr>bufs := bufs (sent_world w bs hdr), nodes := nodes (sent_world w bs hdr),
     brk := brk (sent_world w bs hdr), mallocs := mallocs (sent_world w bs hdr), ident := ident w + 1, wire := wire w\<rparr>"
  by (simp add: sent_world_def packet_heap_def fresh_blk_def set_node_def set_buf_def)

lemma ctrl_world_heap:
  "ctrl_world w t ip seg = w\<lparr>bufs := bufs (ctrl_world w t ip seg), nodes := nodes (ctrl_world w t ip seg),
     brk := brk (ctrl_world w t ip seg), mallocs := mallocs w, ident := ident w, wire := wire w\<rparr>"
  by (simp add: ctrl_world_def packed_heap_def ctrl_frame_def dblk_node_new_from_stack_with_buff_eq
      set_node_def set_buf_def bump_def)

lemma sent_world_nodes:
  "nodes (sent_world w bs hdr) = (nodes w)
     (Suc (brk w) \<mapsto> init_dblk (Ptr (brk w) 0) (length bs)\<lparr>d_node_malloc := True, d_data_malloc := True\<rparr>,
      Suc (Suc (Suc (brk w))) \<mapsto> init_dblk (Ptr (Suc (Suc (brk w))) 0) 64\<lparr>d_size := 20,
        d_next := Some (Suc (brk w)), d_more := True\<rparr>)"
  "bufs (sent_world w bs hdr) = (bufs w)(brk w \<mapsto> bs,
     Suc (Suc (brk w)) \<mapsto> splice_at (fresh_bytes (set_buf (brk w) bs (fresh_blk (length bs) w)) 64) 0 (hdr_bytes hdr))"
  "brk (sent_world w bs hdr) = brk w + 4"
  by (simp_all add: sent_world_def)

lemma sent_world_conns: "same_conns w (sent_world w bs hdr)"
  by (subst sent_world_heap) (simp add: same_conns_def)

lemma ctrl_world_conns: "same_conns w (ctrl_world w t ip seg)"
  by (subst ctrl_world_heap) (simp add: same_conns_def)

lemma sent_world_only: "heap_only (sent_world w bs hdr) g \<Longrightarrow> heap_only w g"
  by (rule heap_only_trans [where v = "sent_world w bs hdr"]) (subst sent_world_heap, simp)

lemma ctrl_world_only: "heap_only (ctrl_world w t ip seg) g \<Longrightarrow> heap_only w g"
  by (rule heap_only_trans [where v = "ctrl_world w t ip seg"]) (subst ctrl_world_heap, simp)

lemma same_conns_trans: "same_conns w w1 \<Longrightarrow> same_conns w1 w2 \<Longrightarrow> same_conns w w2"
  by (simp add: same_conns_def)

lemma same_conns_del [simp]:
  "same_conns w (del_node a w') = same_conns w w'" "same_conns w (del_buf b w') = same_conns w w'"
  by (simp_all add: same_conns_def del_node_def del_buf_def)

lemma wf_sent_world:
  assumes "wf_heap w"
  shows "wf_heap (sent_world w bs hdr)"
  using assms unfolding wf_heap_def sent_world_nodes
  by (auto simp: less_Suc_eq_le intro: trans_less_add1)

lemma sent_world_deletable:
  "deletable (sent_world w bs hdr) [Suc (Suc (Suc (brk w))), Suc (brk w)]"
  by (simp add: sent_world_nodes)

section \<open>After the call\<close>

lemma after_send_clean:
  assumes k: "link_keeps [Suc (Suc (Suc (brk w))), Suc (brk w)] r (sent_world w bs hdr) g"
  shows "\<exists>g'. after_send w r g = Some (r \<noteq> 0, g') \<and> clean w g'"
proof -
  let ?n = "Suc (Suc (Suc (brk w)))" and ?c = "Suc (brk w)" and ?b = "Suc (Suc (brk w))"
  let ?S = "sent_world w bs hdr"
  have fr: "freed_node ?S a \<longleftrightarrow> a = ?c" if "a \<in> {?n, ?c}" for a
    using that by (auto simp: freed_node_def sent_world_nodes)
  have ow: "owned_buf ?S ` {?n, ?c} = {None, Some (brk w)}"
    by (auto simp: owned_buf_def sent_world_nodes)
  have nd: "nodes g a = nodes ?S a" if "a < brk w + 4" "r = 0 \<or> a \<noteq> ?c" for a
    using k that fr [of a] by (auto simp: link_keeps_def sent_world_nodes(3))
  have bf: "bufs g b = bufs ?S b" if "b < brk w + 4" "r = 0 \<or> b \<noteq> brk w" for b
    using k that ow by (auto simp: link_keeps_def sent_world_nodes(3))
  have only: "heap_only w g" using k sent_world_only [of w bs hdr g] by (simp add: link_keeps_def)
  have pops: "after_send w r g =
      (let g = del_buf ?b (del_node ?n g) in
       if r = 0 then do { (_, g) \<leftarrow> dblk_delete (Some ?c) g; Some (False, g) } else Some (True, g))"
    using nd [of ?n] bf [of ?b]
    by (simp add: after_send_def pop_node_def pop_buf_def sent_world_nodes Let_def)
  show ?thesis
  proof (cases "r = 0")
    case True
    have "dblk_delete (Some ?c) (del_buf ?b (del_node ?n g)) =
        Some (None, del_node ?c (del_buf (brk w) (del_buf ?b (del_node ?n g))))"
      using nd [of ?c] bf [of "brk w"] True by (subst dblk_delete.simps) (simp add: sent_world_nodes)
    moreover have "clean w (del_node ?c (del_buf (brk w) (del_buf ?b (del_node ?n g))))"
      using nd bf True k only same_conns_trans [OF sent_world_conns, of w bs hdr g]
      by (simp add: clean_def link_keeps_def sent_world_nodes)
    ultimately show ?thesis using True pops by simp
  next
    case False
    have "clean w (del_buf ?b (del_node ?n g))"
      using nd bf k only same_conns_trans [OF sent_world_conns, of w bs hdr g]
      by (simp add: clean_def link_keeps_def sent_world_nodes)
    then show ?thesis using False pops by simp
  qed
qed

text \<open>Neither the end of a call nor the taking down of a frame concerns the drivers.\<close>

lemma pop_wire: "pop_buf p g = Some g' \<Longrightarrow> wire g' = wire g" "pop_node a g = Some g' \<Longrightarrow> wire g' = wire g"
  by (cases p; cases a; auto simp: pop_buf_def pop_node_def split: if_splits)+

lemma dblk_delete_wire: "dblk_delete p g = Some (q, g') \<Longrightarrow> wire g' = wire g"
  by (drule dblk_delete_heap, erule ssubst, simp)

lemma dblk_list_delete_wire: "dblk_list_delete a g = Some g' \<Longrightarrow> wire g' = wire g"
  by (rule dblk_list_delete.raw_induct [where P = "\<lambda>a h h'. wire h' = wire h"])
     (auto simp: bind_Some_iff split: option.splits dest!: dblk_delete_wire)

lemma after_send_wire: "after_send w r g = Some (x, g') \<Longrightarrow> wire g' = wire g"
  by (auto simp: after_send_def bind_Some_iff split: if_splits dest!: pop_wire dblk_delete_wire)

section \<open>Control segments under the contract\<close>

lemma length_ip_packet: "plain_hdr hdr \<Longrightarrow> length (hdr_bytes hdr @ bs) = 20 + length bs"
  by simp

lemma clean_trans: "clean w w1 \<Longrightarrow> clean w1 w2 \<Longrightarrow> clean w w2"
  by (auto simp: clean_def same_conns_def intro: heap_only_trans)

text \<open>The frame of \<^verbatim>\<open>tcp_send_ctrl_seg\<close> is taken down again.\<close>

lemma ctrl_frame_pops:
  assumes "clean (ctrl_world w t ip seg) g" "wf_heap w"
  shows "\<exists>g'. do { g \<leftarrow> pop_buf (Ptr (Suc (Suc (brk w))) 0) g;
      g \<leftarrow> pop_node (Some (Suc (brk w))) g;
      g \<leftarrow> pop_buf (Ptr (brk w) 0) g;
      Some (x, y, g) } = Some (x, y, g') \<and> clean w g' \<and> wire g' = wire g"
proof -
  let ?G = "ctrl_world w t ip seg"
  have G: "nodes ?G = (nodes w)(Suc (brk w) \<mapsto> init_dblk (Ptr (brk w) 0) 32\<lparr>d_size := 20\<rparr>)"
    "bufs ?G (Suc (Suc (brk w))) \<noteq> None" "bufs ?G (brk w) \<noteq> None"
    "\<And>b. b < brk w \<Longrightarrow> bufs ?G b = bufs w b" "brk ?G = brk w + 3"
    by (simp_all add: ctrl_world_def ctrl_frame_def dblk_node_new_from_stack_with_buff_eq)
  have nd: "nodes g a = nodes ?G a" and bf: "bufs g a = bufs ?G a" if "a < brk w + 3" for a
    using assms that by (auto simp: clean_def G(5))
  have "wf_heap ?G"
    using assms(2) unfolding ctrl_world_def by (intro wf_packed_heap wf_ctrl_frame) auto
  then have "brk w \<le> brk g" "same_conns w g" "heap_only w g" "wf_heap g"
    using assms ctrl_world_only [of w t ip seg g] same_conns_trans [OF ctrl_world_conns] by (auto simp: clean_def)
  then show ?thesis
    using nd [of "Suc (brk w)"] bf [of "brk w"] bf [of "Suc (Suc (brk w))"] G nd bf
    by (simp add: pop_buf_def pop_node_def clean_def)
qed

context link_layer
begin

lemma up_sent: "up e w \<Longrightarrow> up e (sent_world w bs hdr)"
  by (subst sent_world_heap) (rule up_heap)

lemma up_ctrl: "up e w \<Longrightarrow> up e (ctrl_world w t ip seg)"
  by (subst ctrl_world_heap) (rule up_heap)

lemma tcp_ip_send_returns:
  assumes cs: "can_send w t ip e" and up: "up e w"
    and raw: "block w (sg_raw seg) as q" "block_bytes w as = Some bs" "length bs < 1400"
    and ok: "malloc_ok w (mallocs w)" "malloc_ok w (Suc (mallocs w))"
  shows "\<exists>ok w'. tcp_ip_send ll_send t seg w = Some (ok, w') \<and> clean w w'"
proof -
  let ?hdr = "tcp_out_hdr w t ip (length bs)"
  have wf: "wf_heap w" and dest: "wf_addr (t_dest t)" using cs by (simp_all add: can_send_def)
  have len: "length (hdr_bytes ?hdr @ bs) \<le> 1500"
    using length_ip_packet [OF tcp_out_hdr_plain [OF cs], where bs = bs] raw(3) by simp
  have d4: "length (ip_v4 (h_dest (dg_header (sent_dg w ?hdr)))) = 4"
    using dest by (simp add: sent_dg_def tcp_out_hdr_def out_hdr_def tcp_header_def)
  obtain r g where "ll_send e (sent_dg w ?hdr) (sent_world w bs ?hdr) = Some (r, g)"
    and k: "link_keeps [Suc (Suc (Suc (brk w))), Suc (brk w)] r (sent_world w bs ?hdr) g"
    using send [OF up_sent [OF up] wf_sent_world [OF wf] sent_world_wire [OF cs raw(3)] len
        sent_world_deletable d4] by blast
  then show ?thesis
    using after_send_clean [OF k] by (auto simp: tcp_ip_send_eq [OF cs raw ok])
qed

lemma tcp_send_ctrl_seg_returns:
  fixes seq ack :: u32 and flags :: u16
  assumes cs: "can_send w t ip e" and up: "up e w"
    and ok: "malloc_ok w (mallocs w)" "malloc_ok w (Suc (mallocs w))"
  shows "\<exists>ok w'. tcp_send_ctrl_seg ll_send t seq ack flags w =
      Some (ok, if ok then t\<lparr>snd_nxt := snd_nxt t + of_nat (flag_count flags)\<rparr> else t, w') \<and> clean w w'"
proof -
  let ?s = "ctrl_out w t ip seq ack flags"
  let ?G = "ctrl_world w t ip ?s" and ?hdr = "tcp_out_hdr w t ip 20"
  have csG: "can_send ?G t ip e" by (rule ctrl_world_can_send [OF cs])
  have wf: "wf_heap w" and wfG: "wf_heap ?G" and dest: "wf_addr (t_dest t)"
    using cs csG by (simp_all add: can_send_def)
  have hdr: "tcp_out_hdr ?G t ip (length (seg_bytes ?s)) = ?hdr" by (simp add: tcp_out_hdr_def)
  have len: "length (hdr_bytes ?hdr @ seg_bytes ?s) \<le> 1500"
    using length_ip_packet [OF tcp_out_hdr_plain [OF cs], of 20 "seg_bytes ?s"] by simp
  have d4: "length (ip_v4 (h_dest (dg_header (sent_dg ?G ?hdr)))) = 4"
    using dest by (simp add: sent_dg_def tcp_out_hdr_def out_hdr_def tcp_header_def)
  have wire: "block (sent_world ?G (seg_bytes ?s) ?hdr) (dg_raw (sent_dg ?G ?hdr))
      [Suc (Suc (Suc (brk ?G))), Suc (brk ?G)] None"
    "block_bytes (sent_world ?G (seg_bytes ?s) ?hdr) [Suc (Suc (Suc (brk ?G))), Suc (brk ?G)] =
      Some (hdr_bytes ?hdr @ seg_bytes ?s)"
    using sent_world_wire [OF csG, of "seg_bytes ?s"] hdr by simp_all
  obtain r g where ll: "ll_send e (sent_dg ?G ?hdr) (sent_world ?G (seg_bytes ?s) ?hdr) = Some (r, g)"
    and k: "link_keeps [Suc (Suc (Suc (brk ?G))), Suc (brk ?G)] r (sent_world ?G (seg_bytes ?s) ?hdr) g"
    using send [OF up_sent [OF up_ctrl [OF up]] wf_sent_world [OF wfG] wire len sent_world_deletable d4] by blast
  obtain g1 where g1: "after_send ?G r g = Some (r \<noteq> 0, g1)" "clean ?G g1"
    using after_send_clean [OF k] by blast
  show ?thesis
    using ctrl_frame_pops [OF g1(2) wf, of "r \<noteq> 0"
        "if r \<noteq> 0 then t\<lparr>snd_nxt := snd_nxt t + of_nat (flag_count flags)\<rparr> else t"]
    unfolding tcp_send_ctrl_seg_eq [OF cs ok] by (auto simp: ll g1(1))
qed

section \<open>The handlers that answer with a control segment\<close>

text \<open>A SYN is answered: the connection listens on or has moved to \<^verbatim>\<open>SYN_RECEIVED\<close>.\<close>

lemma listen_syn_returns:
  assumes E: "list_laws E" and q: "rx_segs t = [a]" "segs w a = Some seg" "t_state t = LISTEN"
    and f: "SEG_CTRL_S seg" "\<not> SEG_CTRL_R seg" "\<not> SEG_CTRL_A seg" "sg_datagram seg = Some dg"
    and cs: "can_send w (t\<lparr>t_dest := h_src (dg_header dg)\<rparr>) ip e" and up: "up e w"
    and ok: "malloc_ok w (mallocs w)" "malloc_ok w (Suc (mallocs w))"
  defines "t1 \<equiv> t\<lparr>rx_segs := [], rcv_nxt := sg_seq seg + 1, rcv_irs := sg_seq seg,
      t_dest_port := sg_src_port seg, t_dest := h_src (dg_header dg)\<rparr>"
  shows "\<exists>ok w'. tcp_received E ll_send t w =
    Some (if ok then t1\<lparr>snd_nxt := snd_nxt t + 1, t_state := SYN_RECEIVED\<rparr> else t1, w') \<and> clean w w'"
proof -
  have "can_send w t1 ip e" using cs by (simp add: can_send_def t1_def)
  from tcp_send_ctrl_seg_returns [OF this up ok, of "snd_iss t" "sg_seq seg + 1" "SEG_FLAG_SYN OR SEG_FLAG_ACK"]
  obtain r w' where r: "tcp_send_ctrl_seg ll_send t1 (snd_iss t) (sg_seq seg + 1) (SEG_FLAG_SYN OR SEG_FLAG_ACK) w =
      Some (r, if r then t1\<lparr>snd_nxt := snd_nxt t1 + of_nat 1\<rparr> else t1, w')" and c: "clean w w'"
    by auto
  have "tcp_received E ll_send t w =
      Some (if r then t1\<lparr>snd_nxt := snd_nxt t + 1, t_state := SYN_RECEIVED\<rparr> else t1, w')"
    using r next_seg_one [OF E q(1,2)] q(3) f
    by (auto simp: tcp_received_def received_when_listen_def listen_seg_def listen_syn_def t1_def)
  then show ?thesis using c by blast
qed

text \<open>A segment out of the window is answered and dropped.\<close>

lemma reject_returns:
  assumes "can_send w t ip e" "up e w" "malloc_ok w (mallocs w)" "malloc_ok w (Suc (mallocs w))"
  shows "\<exists>w'. reject ll_send t seg w = Some (False, t, w') \<and> clean w w'"
proof (cases "SEG_CTRL_R seg")
  case True
  then show ?thesis by (simp add: reject_def clean_def same_conns_def)
next
  case False
  have t: "(if ok then t\<lparr>snd_nxt := snd_nxt t + of_nat 0\<rparr> else t) = t" for ok by simp
  show ?thesis
    using tcp_send_ctrl_seg_returns [OF assms, of "snd_nxt t" "rcv_nxt t" SEG_FLAG_ACK] False
    by (auto simp: reject_def t)
qed

text \<open>An ACK that is not acceptable in \<^verbatim>\<open>SYN_RECEIVED\<close> is answered with a reset.\<close>

lemma syn_received_bad_ack_returns:
  assumes E: "list_laws E" and q: "rx_segs t = [a]" "segs w a = Some seg" "t_state t = SYN_RECEIVED"
    and f: "SEG_CTRL_A seg" "\<not> SEG_CTRL_R seg" "tcp_segment_length w seg = Some n"
    and win: "rcv_wnd t \<noteq> 0" "unat (rcv_nxt t) + unat (rcv_wnd t) < 2 ^ 32" "sg_seq seg = rcv_nxt t"
    and bad: "\<not> sncmp (snd_una t) SN_LE (sg_ack seg) SN_LE (snd_nxt t)"
    and cs: "can_send w t ip e" and up: "up e w"
    and ok: "malloc_ok w (mallocs w)" "malloc_ok w (Suc (mallocs w))"
  shows "\<exists>w'. tcp_received E ll_send t w =
    Some (t\<lparr>rx_segs := [], t_state := (if SEG_CTRL_F seg then CLOSE_WAIT else SYN_RECEIVED)\<rparr>, w') \<and> clean w w'"
proof -
  let ?t = "t\<lparr>rx_segs := []\<rparr>"
  have cs': "can_send w ?t ip e" using cs by (simp add: can_send_def)
  have seq: "process_received_seq ll_send ?t seg w = Some (True, ?t, w)"
    using process_next_expected [OF f(3), of ?t ll_send] win by simp
  have t: "(if ok then ?t\<lparr>snd_nxt := snd_nxt ?t + of_nat 0\<rparr> else ?t) = ?t" for ok by simp
  obtain r w' where "tcp_send_ctrl_seg ll_send ?t (sg_ack seg) 0 SEG_FLAG_RST w = Some (r, ?t, w')" "clean w w'"
    using tcp_send_ctrl_seg_returns [OF cs' up ok, of "sg_ack seg" 0 SEG_FLAG_RST] by (auto simp: t)
  then show ?thesis
    using next_seg_one [OF E q(1,2)] q(3) f seq bad
    by (auto simp: tcp_received_def received_when_syn_received_def syn_received_ack_def)
qed

end

end
