(* ===== verification/Ether_Link.thy ===== *)
theory Ether_Link
  imports Ip_Recv Link_Layer
begin

text \<open>
  \<^verbatim>\<open>ip_ether_send\<close> of \<^verbatim>\<open>dts_net_ether_arp.c\<close> keeps the contract of \<open>Link_Layer\<close>: with the
  interface registered, a driver that reads the frame it is given and a table of
  well-formed entries, it returns, sends or asks for the address, and frees only what it
  sent.
\<close>

section \<open>Frames and the driver\<close>

text \<open>
  The documented duty of a driver: it reads the frame and leaves the memory of the stack
  alone; what it returns is its own business.
\<close>

definition driver_ok :: "('w heap_scheme) drv_send \<Rightarrow> bool" where
  "driver_ok drv \<longleftrightarrow> (\<forall>i p n w bs. mem_read w p n = Some bs \<longrightarrow> (\<exists>r. drv i p n w = Some (r, w)))"

text \<open>
  What is known of a driver and one frame: given these bytes it returns one of the results
  \<open>R\<close>, whatever it does with others, and adds \<open>l\<close> to the history \<open>wire\<close>; or it has no outcome
  on them.  An operation that returns with every driver of the first kind gives it no other
  frame; how often it gives this one, the history says.
\<close>

definition answers :: "('w heap_scheme) drv_send \<Rightarrow> addr \<Rightarrow> u8 list \<Rightarrow> (addr \<times> u8 list) list \<Rightarrow> (nat \<Rightarrow> bool) \<Rightarrow> bool" where
  "answers drv i fr l R \<longleftrightarrow> (\<forall>p n w. mem_read w p n = Some fr \<longrightarrow>
     (\<exists>r. R r \<and> drv i p n w = Some (r, w\<lparr>wire := wire w @ l\<rparr>)))"

definition accepts :: "('w heap_scheme) drv_send \<Rightarrow> addr \<Rightarrow> u8 list \<Rightarrow> bool" where
  "accepts drv i fr \<longleftrightarrow> answers drv i fr [(i, fr)] (\<lambda>r. True)"

text \<open>A driver that reports that it has sent the frame, and one that reports that it has not.\<close>

definition takes :: "('w heap_scheme) drv_send \<Rightarrow> addr \<Rightarrow> u8 list \<Rightarrow> bool" where
  "takes drv i fr \<longleftrightarrow> answers drv i fr [(i, fr)] (\<lambda>r. r \<noteq> 0)"

definition refuses :: "('w heap_scheme) drv_send \<Rightarrow> addr \<Rightarrow> u8 list \<Rightarrow> bool" where
  "refuses drv i fr \<longleftrightarrow> answers drv i fr [(i, fr)] (\<lambda>r. r = 0)"

definition rejects :: "('w heap_scheme) drv_send \<Rightarrow> addr \<Rightarrow> u8 list \<Rightarrow> bool" where
  "rejects drv i fr \<longleftrightarrow> (\<forall>p n w. mem_read w p n = Some fr \<longrightarrow> drv i p n w = None)"

text \<open>
  How often a frame is given to a driver: until it reports success, but at most three
  times.
\<close>

definition tries :: "('w heap_scheme) drv_send \<Rightarrow> addr \<Rightarrow> u8 list \<Rightarrow> nat \<Rightarrow> bool" where
  "tries drv i fr k \<longleftrightarrow> 1 \<le> k \<and> k \<le> 3 \<and> (takes drv i fr \<longrightarrow> k = 1) \<and> (refuses drv i fr \<longrightarrow> k = 3)"

text \<open>From \<open>w\<close> to \<open>w'\<close> the frame \<open>fr\<close> has been given to device \<open>i\<close>, and no other.\<close>

definition frame_given :: "('w heap_scheme) drv_send \<Rightarrow> addr \<Rightarrow> u8 list \<Rightarrow> 'w heap_scheme \<Rightarrow> 'w heap_scheme \<Rightarrow> bool" where
  "frame_given drv i fr w w' \<longleftrightarrow> (\<exists>k. tries drv i fr k \<and> wire w' = wire w @ replicate k (i, fr))"

lemma takes_accepts: "takes drv i fr \<Longrightarrow> accepts drv i fr" and refuses_accepts: "refuses drv i fr \<Longrightarrow> accepts drv i fr"
  unfolding takes_def refuses_def accepts_def answers_def by blast+

lemma driver_ok_answers: "driver_ok drv \<Longrightarrow> answers drv i fr [] (\<lambda>r. True)"
  by (simp add: driver_ok_def answers_def)

lemma frame_given_cong: "wire v = wire w \<Longrightarrow> wire v' = wire w' \<Longrightarrow> frame_given drv i fr v v' = frame_given drv i fr w w'"
  by (simp add: frame_given_def)

lemma ether_hl_send_call:
  assumes b: "bufs h b = Some bs" "14 + length ps \<le> length bs"
    and a: "length dst = 6" "length (mac_address e) = 6" "src_read h (ef_dest frame) 6 = Some dst"
    and f: "ef_data frame = Ptr b 0" "0x05DC \<le> ef_type frame" "14 + length ps \<le> ef_data_size frame"
      "ef_data_size frame < 2 ^ 32"
    and pl: "block h (ef_payload frame) as q" "block_bytes h as = Some ps" "b \<notin> data_bufs h as"
  defines "xs \<equiv> frame_hdr dst (mac_address e) (ef_type frame) @ ps"
  defines "h' \<equiv> set_buf b (splice_at bs 0 xs) h"
  shows "ether_hl_send drv e frame h = map_option (\<lambda>(r, h).
      (r, frame\<lparr>ef_src := Lit (mac_address e), ef_data_size := length ps + 14\<rparr>, h))
      (drv (e_interface e) (Ptr b 0) (length ps + 14) h')"
    and "mem_read h' (Ptr b 0) (length ps + 14) = Some xs"
proof -
  let ?f = "frame\<lparr>ef_src := Lit (mac_address e)\<rparr>"
  have pack: "ether_pack ?f h = Some (?f\<lparr>ef_data_size := length ps + 14\<rparr>, h')"
    using ether_pack_from [of h b bs 0 ps dst "mac_address e" ?f as q] assms by simp
  show "mem_read h' (Ptr b 0) (length ps + 14) = Some xs"
    using b a take_drop_splice_at [of 0 xs bs] by (simp add: mem_simps frame_hdr_def add.commute h'_def xs_def)
  show "ether_hl_send drv e frame h = map_option (\<lambda>(r, h).
      (r, frame\<lparr>ef_src := Lit (mac_address e), ef_data_size := length ps + 14\<rparr>, h))
      (drv (e_interface e) (Ptr b 0) (length ps + 14) h')"
    using pack f(1) by (auto simp: ether_hl_send_def map_option_case split: option.splits)
qed

lemma ether_hl_send_frame:
  assumes drv: "answers drv (e_interface e) (frame_hdr dst (mac_address e) (ef_type frame) @ ps) l R"
    and b: "bufs h b = Some bs" "14 + length ps \<le> length bs"
    and a: "length dst = 6" "length (mac_address e) = 6" "ef_dest frame = Lit dst"
    and f: "ef_data frame = Ptr b 0" "0x05DC \<le> ef_type frame" "14 + length ps \<le> ef_data_size frame"
      "ef_data_size frame < 2 ^ 32"
    and pl: "block h (ef_payload frame) as q" "block_bytes h as = Some ps" "b \<notin> data_bufs h as"
  defines "fr \<equiv> frame_hdr dst (mac_address e) (ef_type frame) @ ps"
  shows "\<exists>r. ether_hl_send drv e frame h = Some (r,
    frame\<lparr>ef_src := Lit (mac_address e), ef_data_size := length ps + 14\<rparr>,
    (set_buf b (splice_at bs 0 fr) h)\<lparr>wire := wire h @ l\<rparr>) \<and> (\<forall>Q. answers drv (e_interface e) fr l Q \<longrightarrow> Q r)"
proof -
  have dst: "src_read h (ef_dest frame) 6 = Some dst" using a by simp
  note call = ether_hl_send_call(1) [OF b a(1,2) dst f pl, of drv] ether_hl_send_call(2) [OF b a(1,2) dst f pl]
  obtain r where r: "drv (e_interface e) (Ptr b 0) (length ps + 14) (set_buf b (splice_at bs 0 fr) h) =
      Some (r, (set_buf b (splice_at bs 0 fr) h)\<lparr>wire := wire h @ l\<rparr>)"
    using call(2) drv by (fastforce simp: answers_def fr_def)
  have "Q r" if "answers drv (e_interface e) fr l Q" for Q
    using that call(2) r unfolding answers_def fr_def by fastforce
  then show ?thesis using call(1) r unfolding fr_def by auto
qed

lemma owned_data_bufs: "Some b \<in> owned_buf h ` set as \<Longrightarrow> b \<in> data_bufs h as"
  by (force simp: owned_buf_def data_bufs_def split: option.splits if_splits)

lemma owned_set_buf [simp]: "owned_buf (set_buf b x h) = owned_buf h" "freed_node (set_buf b x h) = freed_node h"
  by (auto simp: owned_buf_def freed_node_def fun_eq_iff)

lemma set_buf_upd [simp]: "(set_buf b x h)\<lparr>bufs := p, nodes := q\<rparr> = h\<lparr>bufs := p, nodes := q\<rparr>"
  by (simp add: set_buf_def)

text \<open>What the sending of the block \<open>as\<close> through the frame buffer \<open>b\<close> makes of the memory.\<close>

definition sent_from :: "addr list \<Rightarrow> addr \<Rightarrow> 'w heap_scheme \<Rightarrow> 'w heap_scheme \<Rightarrow> bool" where
  "sent_from as b h h' \<longleftrightarrow> h' = h\<lparr>bufs := bufs h', nodes := nodes h', wire := wire h'\<rparr> \<and> bufs h' b \<noteq> None \<and>
     (\<forall>a. nodes h' a = nodes h a \<or> a \<in> set as \<and> freed_node h a \<and> nodes h' a = None) \<and>
     (\<forall>c. c \<noteq> b \<longrightarrow> bufs h' c = bufs h c \<or> Some c \<in> owned_buf h ` set as \<and> bufs h' c = None)"

lemma owned_wire [simp]: "owned_buf (h\<lparr>wire := l\<rparr>) = owned_buf h" "freed_node (h\<lparr>wire := l\<rparr>) = freed_node h"
  by (auto simp: owned_buf_def freed_node_def fun_eq_iff)

lemma wire_block [simp]:
  "block (h\<lparr>wire := l\<rparr>) = block h" "block_bytes (h\<lparr>wire := l\<rparr>) as = block_bytes h as"
  by ((rule ext)+, rule block_cong, simp) (rule block_bytes_frame, simp_all)

lemma set_buf_wire_upd [simp]:
  "(set_buf b x h)\<lparr>bufs := p, nodes := q, wire := l\<rparr> = h\<lparr>bufs := p, nodes := q, wire := l\<rparr>"
  by (simp add: set_buf_def)

lemma sent_from_set_buf:
  assumes "sent_from as b ((set_buf b x h)\<lparr>wire := l\<rparr>) h'"
  shows "sent_from as b h h'"
proof -
  have "h' = h\<lparr>bufs := bufs h', nodes := nodes h', wire := wire h'\<rparr>"
    using assms unfolding sent_from_def by (simp add: set_buf_def)
  then show ?thesis using assms unfolding sent_from_def owned_set_buf owned_wire by auto
qed

text \<open>How often the loop gives the frame to the driver.\<close>

definition loop_tries :: "('w heap_scheme) drv_send \<Rightarrow> addr \<Rightarrow> u8 list \<Rightarrow> (addr \<times> u8 list) list \<Rightarrow> nat \<Rightarrow> nat \<Rightarrow> bool" where
  "loop_tries drv i fr l n k \<longleftrightarrow> k \<le> n \<and> (0 < n \<longrightarrow> 1 \<le> k \<and> (answers drv i fr l (\<lambda>r. r \<noteq> 0) \<longrightarrow> k = 1)) \<and>
     (answers drv i fr l (\<lambda>r. r = 0) \<longrightarrow> k = n)"

lemma ether_send_loop_returns:
  fixes w :: "('tm, 'w) linkw_scheme"
  assumes drv: "answers drv (e_interface e) (frame_hdr dst (mac_address e) (ef_type frame) @ ps) l R"
    and pl: "block w (ef_payload frame) as None" "block_bytes w as = Some ps" "deletable w as" "b \<notin> data_bufs w as"
    and b: "bufs w b = Some bs" "14 + length ps \<le> length bs"
    and a: "length dst = 6" "length (mac_address e) = 6" "ef_dest frame = Lit dst"
    and f: "ef_data frame = Ptr b 0" "0x05DC \<le> ef_type frame" "14 + length ps \<le> ef_data_size frame"
      "ef_data_size frame < 2 ^ 32"
  shows "\<exists>w' k. ether_send_loop drv e frame retry w = Some w' \<and> sent_from as b w w' \<and>
    loop_tries drv (e_interface e) (frame_hdr dst (mac_address e) (ef_type frame) @ ps) l retry k \<and>
    wire w' = wire w @ concat (replicate k l)"
  using pl b a f drv
proof (induction retry arbitrary: frame w bs)
  case 0
  then have "sent_from as b w w" by (simp add: sent_from_def)
  moreover have "ether_send_loop drv e frame 0 w = Some w"
    by (subst ether_send_loop.simps) simp
  ultimately show ?case by (intro exI [of _ w] exI [of _ 0]) (simp add: loop_tries_def)
next
  case (Suc retry)
  let ?f = "frame\<lparr>ef_src := Lit (mac_address e), ef_data_size := length ps + 14\<rparr>"
  let ?xs = "frame_hdr dst (mac_address e) (ef_type frame) @ ps"
  let ?w = "(set_buf b (splice_at bs 0 ?xs) w)\<lparr>wire := wire w @ l\<rparr>"
  obtain r where r: "ether_hl_send drv e frame w = Some (r, ?f, ?w)"
    and R: "\<And>Q. answers drv (e_interface e) ?xs l Q \<Longrightarrow> Q r"
    using ether_hl_send_frame [OF Suc.prems(14) Suc.prems(5,6,7,8,9,10,11,12,13) Suc.prems(1,2,4)] by blast
  have some: "ef_payload frame \<noteq> None" using Suc.prems(1) by (cases as) (auto dest: block_Cons_D)
  have blk: "block ?w (ef_payload ?f) as None" "block_bytes ?w as = Some ps" "b \<notin> data_bufs ?w as"
    using Suc.prems(1,2,4) by (simp_all add: frame_simps data_bufs_def)
  have "Some b \<notin> owned_buf w ` set as" using Suc.prems(4) owned_data_bufs by blast
  then have del: "deletable ?w as"
    by (intro deletable_frame [OF Suc.prems(3)]) auto
  show ?case
  proof (cases "r = 0")
    case True
    have "length (splice_at bs 0 ?xs) = length bs"
      using Suc.prems(6,7,8) by (simp add: frame_hdr_def)
    then obtain w' k where w': "ether_send_loop drv e ?f retry ?w = Some w'" "sent_from as b ?w w'"
      "loop_tries drv (e_interface e) ?xs l retry k" "wire w' = wire ?w @ concat (replicate k l)"
      using Suc.IH [of ?w ?f "splice_at bs 0 ?xs"] blk del Suc.prems(6,7,8,9,10,11,12,13,14) by auto
    have "loop_tries drv (e_interface e) ?xs l (Suc retry) (Suc k)"
      using w'(3) R [of "\<lambda>r. r \<noteq> 0"] True by (auto simp: loop_tries_def)
    moreover have "sent_from as b w w'"
      by (rule sent_from_set_buf [OF w'(2)])
    moreover have "ether_send_loop drv e frame (Suc retry) w = Some w'"
      using r True some w'(1) by (subst ether_send_loop.simps) simp
    ultimately show ?thesis using w'(4) by (intro exI [of _ w'] exI [of _ "Suc k"]) simp
  next
    case False
    obtain h' where h': "dblk_delete (ef_payload frame) ?w = Some (None, h')"
      and n: "nodes h' = (\<lambda>x. if x \<in> set as \<and> freed_node ?w x then None else nodes ?w x)"
      and bf: "bufs h' = (\<lambda>b. if Some b \<in> owned_buf ?w ` set as then None else bufs ?w b)"
      using dblk_delete_block [OF blk(1) del] by auto
    have loop: "ether_send_loop drv e (?f\<lparr>ef_payload := None\<rparr>) 3 h' = Some h'"
      by (subst ether_send_loop.simps) simp
    have heap: "h' = ?w\<lparr>bufs := bufs h', nodes := nodes h'\<rparr>" by (rule dblk_delete_heap [OF h'])
    have wr: "wire h' = wire w @ l" by (subst heap) simp
    have "h' = w\<lparr>bufs := bufs h', nodes := nodes h', wire := wire h'\<rparr>"
      unfolding wr by (subst heap) (simp add: set_buf_def)
    then have "sent_from as b w h'"
      using \<open>Some b \<notin> owned_buf w ` set as\<close> Suc.prems(5) unfolding sent_from_def by (auto simp: n bf)
    moreover have "loop_tries drv (e_interface e) ?xs l (Suc retry) 1"
      using R [of "\<lambda>r. r = 0"] False by (auto simp: loop_tries_def)
    moreover have "ether_send_loop drv e frame (Suc retry) w = Some h'"
      using r False some h' loop by (subst ether_send_loop.simps) simp
    ultimately show ?thesis using wr by (intro exI [of _ h'] exI [of _ 1]) simp
  qed
qed

section \<open>Asking for an address\<close>

text \<open>The bytes of a request: who asks, and for which address.\<close>

definition ask_bytes :: "u8 list \<Rightarrow> u8 list \<Rightarrow> u8 list \<Rightarrow> u8 list" where
  "ask_bytes mac sip tip = be16 1 @ be16 ETHER_TYPE_IP @ [6, 4] @ be16 1 @ mac @ sip @ replicate 6 0 @ tip"

lemma ether_arp_ask_ip_ok:
  assumes b: "bufs h b = Some bs" "length bs = 32"
    and a: "length mac = 6" "length sip = 4" "length tip = 4"
    and p: "ap_data pkt = Ptr b 0" "28 \<le> unat (ap_data_size pkt)"
  shows "\<exists>xs. ether_arp_ask_ip pkt mac sip tip h = Some (28, set_buf b xs h) \<and> length xs = 32 \<and>
    take 28 xs = ask_bytes mac sip tip"
proof -
  let ?bs = "splice_at bs 0 (replicate 28 (0 :: u8))"
  let ?p = "pkt\<lparr>ap_hrd := 1, ap_pro := ETHER_TYPE_IP, ap_hln := 6, ap_pln := 4, ap_op := 1,
    ap_sha := Lit mac, ap_spa := Lit sip, ap_tha := At (Ptr b 18), ap_tpa := Lit tip\<rparr>"
  have z: "take 6 (drop 18 ?bs) = replicate 6 0"
    using b(2) by (intro nth_equalityI) (auto simp: nth_splice_at)
  have "arp_pack ?p (set_buf b ?bs h) = Some (28, ?p\<lparr>ap_data_size := 28\<rparr>,
      set_buf b (splice_at ?bs 0 (arp_bytes ?p mac sip (replicate 6 0) tip)) (set_buf b ?bs h))"
    using arp_pack_ok [of ?p b 0 "set_buf b ?bs h" ?bs mac sip "replicate 6 0" tip] a b p z
    by (simp add: eth_ip_def mem_simps)
  moreover have "arp_bytes ?p mac sip (replicate 6 0) tip = ask_bytes mac sip tip"
    by (simp add: arp_bytes_def ask_bytes_def)
  moreover have "length (ask_bytes mac sip tip) = 28"
    using a by (simp add: ask_bytes_def)
  ultimately show ?thesis
    using b p take_drop_splice_at [of 0 "ask_bytes mac sip tip" ?bs]
    by (auto simp: ether_arp_ask_ip_def memset_def mem_simps)
qed

text \<open>The link \<open>e\<close> as the registration of an interface leaves it.\<close>

definition ether_up :: "'tm ext \<Rightarrow> addr \<Rightarrow> ('tm, 'w) linkw_scheme \<Rightarrow> bool" where
  "ether_up E e w \<longleftrightarrow> list_laws E \<and>
     (\<exists>d. eths w e = Some d \<and> length (mac_address d) = 6) \<and>
     (\<exists>i ip. ether_arp_get_ip E e w = Some (Some i) \<and> ips w i = Some ip \<and> wf_addr (ip_self ip)) \<and>
     (\<forall>a \<in> set (arp_table w). \<exists>item. artis w a = Some item \<and> length (ai_mac item) = 6)"

lemma link_sel [simp]:
  fixes w :: "('tm, 'w) linkw_scheme"
  shows "eths (w\<lparr>bufs := bs\<rparr>) = eths w" "eths (w\<lparr>nodes := ns\<rparr>) = eths w" "eths (w\<lparr>brk := k\<rparr>) = eths w"
    "eths (w\<lparr>mallocs := k\<rparr>) = eths w" "eths (w\<lparr>ident := i\<rparr>) = eths w" "eths (w\<lparr>wire := l\<rparr>) = eths w"
    "artis (w\<lparr>bufs := bs\<rparr>) = artis w" "artis (w\<lparr>nodes := ns\<rparr>) = artis w" "artis (w\<lparr>brk := k\<rparr>) = artis w"
    "artis (w\<lparr>mallocs := k\<rparr>) = artis w" "artis (w\<lparr>ident := i\<rparr>) = artis w" "artis (w\<lparr>wire := l\<rparr>) = artis w"
  by simp_all

lemma get_ip_heap:
  "ether_arp_get_ip E e (w\<lparr>bufs := bs, nodes := ns, brk := k, mallocs := m, ident := i, wire := l\<rparr>) = ether_arp_get_ip E e w"
proof -
  have "list_match_eth (w\<lparr>bufs := bs, nodes := ns, brk := k, mallocs := m, ident := i, wire := l\<rparr>) e = list_match_eth w e"
    by (rule ext)+ (simp add: list_match_eth_def)
  then show ?thesis by (simp add: ether_arp_get_ip_def cong: option.case_cong)
qed

lemma ether_up_heap:
  "ether_up E e w \<Longrightarrow> ether_up E e (w\<lparr>bufs := bs, nodes := ns, brk := k, mallocs := m, ident := i, wire := l\<rparr>)"
  unfolding ether_up_def get_ip_heap by simp

lemma wf_heap_fresh:
  assumes "wf_heap w" "brk w \<le> a"
  shows "bufs w a = None" "nodes w a = None"
  using assms by (simp_all add: wf_heap_def)

text \<open>The request goes out as one broadcast frame, which is all the driver gets.\<close>

lemma arp_request_frame:
  assumes i: "ether_arp_get_ip E e w = Some (Some i)" "ips w i = Some ip" "length (ip_v4 (ip_self ip)) = 4"
    and d: "eths w e = Some d" "length (mac_address d) = 6" and wf: "wf_heap w" and t: "length target = 4"
  defines "fr \<equiv> frame_hdr broadcast_mac (mac_address d) ETHER_TYPE_ARP @
    ask_bytes (mac_address d) (ip_v4 (ip_self ip)) target"
  shows "answers drv (e_interface d) fr l R \<Longrightarrow>
      arp_request E drv e target w = Some (w\<lparr>brk := brk w + 3, wire := wire w @ l\<rparr>)"
    and "rejects drv (e_interface d) fr \<Longrightarrow> arp_request E drv e target w = None"
proof -
  let ?p = "brk w" and ?f = "Suc (brk w)" and ?n = "Suc (Suc (brk w))"
  let ?w1 = "bump (set_buf ?p (fresh_bytes w 32) w)"
  let ?w2 = "bump (set_buf ?f (fresh_bytes ?w1 64) ?w1)"
  let ?w3 = "bump (set_node ?n (init_dblk (Ptr ?p 0) 0) ?w2)"
  let ?pkt = "\<lparr>ap_hrd = 0, ap_pro = 0, ap_hln = 0, ap_pln = 0, ap_op = 0, ap_sha = At Null, ap_spa = At Null,
    ap_tha = At Null, ap_tpa = At Null, ap_data = Ptr ?p 0, ap_data_size = 32\<rparr>"
  let ?fr = "\<lparr>ef_dest = Lit broadcast_mac, ef_src = At Null, ef_payload = Some ?n, ef_type = ETHER_TYPE_ARP,
    ef_crc = 0, ef_data = Ptr ?f 0, ef_data_size = 64\<rparr>"
  let ?ab = "ask_bytes (mac_address d) (ip_v4 (ip_self ip)) target"
  obtain xs where ask: "ether_arp_ask_ip ?pkt (mac_address d) (ip_v4 (ip_self ip)) target ?w3 =
      Some (28, set_buf ?p xs ?w3)" and xs: "length xs = 32" "take 28 xs = ?ab"
    using ether_arp_ask_ip_ok [of ?w3 ?p "fresh_bytes w 32" "mac_address d" "ip_v4 (ip_self ip)" target ?pkt]
      d(2) i(3) t by auto
  let ?dn = "(init_dblk (Ptr ?p 0) 0)\<lparr>d_size := 28\<rparr>"
  let ?w4 = "set_node ?n ?dn (set_buf ?p xs ?w3)"
  have pay: "block ?w4 (ef_payload ?fr) [?n] None" by (simp add: block.simps(2))
  have bytes: "block_bytes ?w4 [?n] = Some ?ab"
    using xs by (simp add: node_bytes_def node_size_def mem_simps)
  have len: "length broadcast_mac = 6" "length ?ab = 28"
    using d(2) i(3) t by (simp_all add: broadcast_mac_def ask_bytes_def)
  have dst: "src_read ?w4 (ef_dest ?fr) 6 = Some broadcast_mac" using len by simp
  have buf: "bufs ?w4 ?f = Some (fresh_bytes ?w1 64)" and room: "14 + length ?ab \<le> length (fresh_bytes ?w1 64)"
    and apart: "?f \<notin> data_bufs ?w4 [?n]"
    using len by (simp_all add: data_bufs_def)
  let ?zs = "splice_at (fresh_bytes ?w1 64) 0 fr"
  have send: "ether_hl_send drv d ?fr ?w4 = map_option (\<lambda>(r, h). (r, ?fr\<lparr>ef_src := Lit (mac_address d), ef_data_size := 42\<rparr>, h))
      (drv (e_interface d) (Ptr ?f 0) 42 (set_buf ?f ?zs ?w4))"
    and frame: "mem_read (set_buf ?f ?zs ?w4) (Ptr ?f 0) 42 = Some fr"
    using ether_hl_send_call(1) [OF buf room len(1) d(2) dst _ _ _ _ pay bytes apart, of drv]
      ether_hl_send_call(2) [OF buf room len(1) d(2) dst _ _ _ _ pay bytes apart] len
    by (simp_all add: fr_def)
  have new: "dblk_node_new_from_stack (Ptr ?p 0) 0 ?w2 = (Some ?n, ?w3)"
    by (simp add: dblk_node_new_from_stack_def new_node_def)
  have pops: "do { w \<leftarrow> pop_node (Some ?n) ((set_buf ?f ?zs ?w4)\<lparr>wire := wire w @ l\<rparr>); w \<leftarrow> pop_buf (Ptr ?f 0) w;
      pop_buf (Ptr ?p 0) w } = Some (w\<lparr>brk := brk w + 3, wire := wire w @ l\<rparr>)"
    using wf_heap_fresh [OF wf, of ?p] wf_heap_fresh [OF wf, of ?f] wf_heap_fresh [OF wf, of ?n]
    by (simp add: pop_node_def pop_buf_def set_buf_def set_node_def bump_def del_buf_def del_node_def
        fun_upd_twist fun_upd_idem)
  have eq: "arp_request E drv e target w = do {
      (_, _, w) \<leftarrow> ether_hl_send drv d ?fr ?w4;
      w \<leftarrow> pop_node (Some ?n) w;
      w \<leftarrow> pop_buf (Ptr ?f 0) w;
      pop_buf (Ptr ?p 0) w }"
    using i d ask new by (simp add: arp_request_def new_buf_def del: heap_field_commute)
  show "arp_request E drv e target w = Some (w\<lparr>brk := brk w + 3, wire := wire w @ l\<rparr>)"
    if acc: "answers drv (e_interface d) fr l R"
  proof -
    obtain r where "drv (e_interface d) (Ptr ?f 0) 42 (set_buf ?f ?zs ?w4) =
        Some (r, (set_buf ?f ?zs ?w4)\<lparr>wire := wire w @ l\<rparr>)"
      using acc frame unfolding answers_def by fastforce
    then show ?thesis unfolding eq send using pops by simp
  qed
  show "arp_request E drv e target w = None" if "rejects drv (e_interface d) fr"
    using that frame unfolding eq send by (simp add: rejects_def)
qed

lemma wire_same: "(w :: 'w heap_scheme)\<lparr>wire := wire w\<rparr> = w" "(w :: 'w heap_scheme)\<lparr>brk := k, wire := wire w\<rparr> = w\<lparr>brk := k\<rparr>"
  by simp_all

lemma arp_request_returns:
  assumes up: "ether_up E e w" and drv: "driver_ok drv" and wf: "wf_heap w" and t: "length target = 4"
  shows "arp_request E drv e target w = Some (w\<lparr>brk := brk w + 3\<rparr>)"
proof -
  obtain d i ip where "eths w e = Some d" "length (mac_address d) = 6"
    "ether_arp_get_ip E e w = Some (Some i)" "ips w i = Some ip" "length (ip_v4 (ip_self ip)) = 4"
    using up by (auto simp: ether_up_def wf_addr_def)
  then have "arp_request E drv e target w = Some (w\<lparr>brk := brk w + 3, wire := wire w @ []\<rparr>)"
    using arp_request_frame(1) [OF _ _ _ _ _ wf t] driver_ok_answers [OF drv] by blast
  then show ?thesis by (simp add: wire_same)
qed

section \<open>Sending a packet\<close>

definition arp_hit :: "('tm, 'w) linkw_scheme \<Rightarrow> u8 list \<Rightarrow> addr \<Rightarrow> bool" where
  "arp_hit w target a \<longleftrightarrow> au32 (ai_ip (the (artis w a))) = au32 target"

lemma find_arpti:
  assumes "\<And>a. a \<in> set as \<Longrightarrow> artis w a \<noteq> None"
  shows "find_from (list_match_arpti w target) as s = Some (find (arp_hit w target) as, s)"
  using assms by (induction as) (fastforce simp: list_match_arpti_def arp_hit_def)+

lemma find_in: "find P xs = Some a \<Longrightarrow> a \<in> set xs"
  by (auto simp: find_Some_iff)

lemma get_mac_address_returns:
  assumes up: "ether_up E e w" and drv: "driver_ok drv" and wf: "wf_heap w" and t: "length target = 4"
  shows "ether_arp_get_mac_address E drv e target w =
    (case find (arp_hit w target) (arp_table w) of
       Some a \<Rightarrow> Some (Some (ai_mac (the (artis w a))), w)
     | None \<Rightarrow> Some (None, w\<lparr>brk := brk w + 3\<rparr>))"
proof -
  have it: "artis w a \<noteq> None" if "a \<in> set (arp_table w)" for a
    using up that by (fastforce simp: ether_up_def)
  have "list_find E (list_match_arpti w target) (arp_table w) no_addr =
      Some (find (arp_hit w target) (arp_table w), no_addr)"
    using up find_arpti [OF it] by (simp add: ether_up_def list_laws_def)
  then show ?thesis
    using arp_request_returns [OF up drv wf t] it find_in [of "arp_hit w target" "arp_table w"]
    by (cases "find (arp_hit w target) (arp_table w)") (fastforce simp: ether_arp_get_mac_address_def)+
qed

lemma mac_length:
  assumes "ether_up E e w" "find P (arp_table w) = Some a"
  shows "length (ai_mac (the (artis w a))) = 6"
proof -
  have "a \<in> set (arp_table w)" by (rule find_in [OF assms(2)])
  then show ?thesis using assms(1) by (fastforce simp: ether_up_def)
qed

lemma send_frames_returns:
  assumes up: "ether_up E e w" and drv: "answers drv (e_interface d) (frame_hdr dst (mac_address d) ETHER_TYPE_IP @ ps) l R"
    and wf: "wf_heap w" and dst: "length dst = 6"
    and pl: "block w (dg_raw dg) as None" "block_bytes w as = Some ps" "length ps \<le> 1500" "deletable w as"
    and d: "eths w e = Some d"
  shows "\<exists>r w'. (case malloc_buf 2048 w of (buf, w) \<Rightarrow>
       if buf = Null then Some (0, w)
       else do {
         e \<leftarrow> eths w e;
         w \<leftarrow> ether_send_loop drv e \<lparr>ef_dest = Lit dst, ef_src = At Null, ef_payload = dg_raw dg,
            ef_type = ETHER_TYPE_IP, ef_crc = 0, ef_data = buf, ef_data_size = 2048\<rparr> 3 w;
         w \<leftarrow> free_buf buf w;
         Some (1, w) }) = Some (r :: int, w') \<and> link_keeps as r w w' \<and>
     (malloc_ok w (mallocs w) \<longrightarrow> (\<exists>k. wire w' = wire w @ concat (replicate k l) \<and>
       loop_tries drv (e_interface d) (frame_hdr dst (mac_address d) ETHER_TYPE_IP @ ps) l 3 k))"
proof (cases "malloc_ok w (mallocs w)")
  case False
  then have "malloc_buf 2048 w = (Null, w\<lparr>mallocs := Suc (mallocs w)\<rparr>)"
    by (simp add: malloc_buf_def malloc_try_def)
  moreover have "link_keeps as 0 w (w\<lparr>mallocs := Suc (mallocs w)\<rparr>)"
    using wf by (simp add: link_keeps_def same_conns_def wf_heap_def)
  ultimately show ?thesis using False by auto
next
  case True
  let ?b = "brk w" and ?w0 = "w\<lparr>mallocs := Suc (mallocs w)\<rparr>"
  let ?w1 = "bump (set_buf ?b (fresh_bytes ?w0 2048) ?w0)"
  let ?fr = "\<lparr>ef_dest = Lit dst, ef_src = At Null, ef_payload = dg_raw dg, ef_type = ETHER_TYPE_IP,
    ef_crc = 0, ef_data = Ptr ?b 0, ef_data_size = 2048\<rparr>"
  have buf: "malloc_buf 2048 w = (Ptr ?b 0, ?w1)"
    using True by (simp add: malloc_buf_def malloc_try_def new_buf_def)
  have eth: "eths ?w1 e = Some d" "length (mac_address d) = 6"
    using d up by (auto simp: ether_up_def set_buf_def bump_def)
  have nodes1: "nodes ?w1 = nodes w" "\<And>c. c \<noteq> ?b \<Longrightarrow> bufs ?w1 c = bufs w c" by simp_all
  have nb: "?b \<notin> data_bufs w as" using wf_heap_data_bufs [OF wf] by blast
  then have no: "Some ?b \<notin> owned_buf w ` set as" using owned_data_bufs by blast
  have blk: "block ?w1 (dg_raw dg) as None" using pl(1) block_cong [OF nodes1(1)] by simp
  have bytes: "block_bytes ?w1 as = Some ps"
    using pl(2) block_bytes_frame [of as ?w1 w] nodes1 nb by metis
  have del: "deletable ?w1 as"
    by (rule deletable_frame [OF pl(4)]) (use nodes1 no in auto)
  have own: "owned_buf ?w1 = owned_buf w" "freed_node ?w1 = freed_node w"
    by (simp_all add: owned_buf_def freed_node_def fun_eq_iff)
  have nb1: "?b \<notin> data_bufs ?w1 as" using nb data_bufs_cong [OF nodes1(1)] by simp
  have big: "bufs ?w1 ?b = Some (fresh_bytes ?w0 2048)" "14 + length ps \<le> length (fresh_bytes ?w0 2048)"
    using pl(3) by simp_all
  obtain w' k where w': "ether_send_loop drv d ?fr 3 ?w1 = Some w'" "sent_from as ?b ?w1 w'"
    and k: "loop_tries drv (e_interface d) (frame_hdr dst (mac_address d) ETHER_TYPE_IP @ ps) l 3 k"
    "wire w' = wire w @ concat (replicate k l)"
    using ether_send_loop_returns [of drv d dst ?fr ps l R ?w1 as ?b "fresh_bytes ?w0 2048" 3]
      drv blk bytes del nb1 big eth(2) dst pl(3) by auto
  have heap: "w' = ?w1\<lparr>bufs := bufs w', nodes := nodes w', wire := wire w'\<rparr>" using w'(2) by (simp add: sent_from_def)
  have brk: "brk w' = Suc ?b" by (subst heap) simp
  have nd: "nodes w' a = nodes w a \<or> a \<in> set as \<and> freed_node w a \<and> nodes w' a = None" for a
    using w'(2) unfolding sent_from_def own nodes1(1) by blast
  have bf: "c \<noteq> ?b \<Longrightarrow> bufs w' c = bufs w c \<or> Some c \<in> owned_buf w ` set as \<and> bufs w' c = None" for c
    using w'(2) nodes1(2) [of c] unfolding sent_from_def own by metis
  have live: "bufs w' ?b \<noteq> None" using w'(2) by (simp add: sent_from_def)
  have conns: "same_conns w (del_buf ?b w')"
    by (simp, subst heap) (simp add: same_conns_def set_buf_def bump_def)
  have only: "heap_only w (del_buf ?b w')"
    by (simp, subst heap) (simp add: set_buf_def bump_def)
  have id: "ident (del_buf ?b w') = ident w"
    by (simp, subst heap) (simp add: set_buf_def bump_def)
  have wf': "wf_heap (del_buf ?b w')"
    using wf unfolding wf_heap_def
    apply (auto simp: brk)
    subgoal for a by (metis Suc_leD bf not_less_eq_eq)
    subgoal for a by (metis Suc_leD nd)
    subgoal for a dd c by (metis less_SucI nd option.distinct(1))
    done
  have "link_keeps as 1 w (del_buf ?b w')"
    unfolding link_keeps_def
  proof (intro conjI allI impI)
    fix a assume "a < brk w" "\<not> ((1::int) \<noteq> 0 \<and> a \<in> set as \<and> freed_node w a)"
    then show "nodes (del_buf ?b w') a = nodes w a" using nd [of a] by auto
  next
    fix c assume "c < brk w" "\<not> ((1::int) \<noteq> 0 \<and> Some c \<in> owned_buf w ` set as)"
    then show "bufs (del_buf ?b w') c = bufs w c" using bf [of c] by auto
  qed (use conns wf' brk only id in simp_all)
  then show ?thesis
    using buf eth(1) w'(1) live k by auto
qed

lemma ip_ether_send_returns:
  assumes up: "ether_up E e w" and drv: "driver_ok drv" and wf: "wf_heap w"
    and pl: "block w (dg_raw dg) as None" "block_bytes w as = Some ps" "length ps \<le> 1500" "deletable w as"
    and d4: "length (ip_v4 (h_dest (dg_header dg))) = 4"
  shows "\<exists>r w'. ip_ether_send E drv e dg w = Some (r, w') \<and> link_keeps as r w w'"
proof -
  obtain d where d: "eths w e = Some d" using up by (auto simp: ether_up_def)
  let ?t = "ip_v4 (h_dest (dg_header dg))"
  let ?mac = "if ip_addr_broadcast (h_dest (dg_header dg)) then Some (Some broadcast_mac, w)
    else ether_arp_get_mac_address E drv e ?t w"
  consider (hit) dst where "length dst = 6" "?mac = Some (Some dst, w)"
    | (miss) "?mac = Some (None, w\<lparr>brk := brk w + 3\<rparr>)"
  proof (cases "ip_addr_broadcast (h_dest (dg_header dg))")
    case True
    then show thesis using that(1) [of broadcast_mac] by (simp add: broadcast_mac_def)
  next
    case False
    then show thesis
      using that get_mac_address_returns [OF up drv wf d4] mac_length [OF up, of "arp_hit w ?t"]
      by (cases "find (arp_hit w ?t) (arp_table w)") simp_all
  qed
  then show ?thesis
  proof cases
    case hit
    then show ?thesis
      using send_frames_returns [OF up driver_ok_answers [OF drv] wf hit(1) pl d] by (auto simp: ip_ether_send_def)
  next
    case miss
    have "link_keeps as 0 w (w\<lparr>brk := brk w + 3\<rparr>)"
      using wf by (auto simp: link_keeps_def same_conns_def wf_heap_def intro: trans_less_add1)
    then show ?thesis using miss by (simp add: ip_ether_send_def)
  qed
qed

section \<open>Sending to a known address\<close>

text \<open>The hardware address of \<open>dest\<close>, if no request is needed to know it.\<close>

definition link_addr :: "('tm, 'w) linkw_scheme \<Rightarrow> ip_addr \<Rightarrow> u8 list \<Rightarrow> bool" where
  "link_addr w dest mac \<longleftrightarrow> (if ip_addr_broadcast dest then mac = broadcast_mac
     else \<exists>a. find (arp_hit w (ip_v4 dest)) (arp_table w) = Some a \<and> mac = ai_mac (the (artis w a)))"

lemma link_addr_heap:
  "link_addr (w\<lparr>bufs := bs, nodes := ns, brk := k, mallocs := m, ident := i, wire := l\<rparr>) dest mac = link_addr w dest mac"
proof -
  have "arp_hit (w\<lparr>bufs := bs, nodes := ns, brk := k, mallocs := m, ident := i, wire := l\<rparr>) = arp_hit w"
    by (rule ext)+ (simp add: arp_hit_def)
  then show ?thesis by (simp add: link_addr_def)
qed

lemma link_addr_cong:
  "ip_version d = ip_version d' \<Longrightarrow> ip_v4 d = ip_v4 d' \<Longrightarrow> link_addr w d mac = link_addr w d' mac"
  by (simp add: link_addr_def ip_addr_broadcast_def)

lemma known_address:
  assumes up: "ether_up E e w" and mac: "link_addr w dest mac"
  shows "(if ip_addr_broadcast dest then Some (Some broadcast_mac, w)
      else ether_arp_get_mac_address E drv e (ip_v4 dest) w) = Some (Some mac, w)" and "length mac = 6"
proof -
  have it: "artis w a \<noteq> None" if "a \<in> set (arp_table w)" for a
    using up that by (fastforce simp: ether_up_def)
  have "list_find E (list_match_arpti w (ip_v4 dest)) (arp_table w) no_addr =
      Some (find (arp_hit w (ip_v4 dest)) (arp_table w), no_addr)"
    using up find_arpti [OF it] by (simp add: ether_up_def list_laws_def)
  then show "(if ip_addr_broadcast dest then Some (Some broadcast_mac, w)
      else ether_arp_get_mac_address E drv e (ip_v4 dest) w) = Some (Some mac, w)"
    using mac it find_in [of "arp_hit w (ip_v4 dest)" "arp_table w"]
    by (cases "find (arp_hit w (ip_v4 dest)) (arp_table w)")
       (fastforce simp: ether_arp_get_mac_address_def link_addr_def split: if_splits)+
  show "length mac = 6"
    using mac mac_length [OF up, of "arp_hit w (ip_v4 dest)"]
    by (auto simp: link_addr_def broadcast_mac_def split: if_splits)
qed

text \<open>An address that is not known is asked for, and the datagram stays with the caller.\<close>

lemma ip_ether_send_asks:
  assumes up: "ether_up E e w" and wf: "wf_heap w"
    and i: "ether_arp_get_ip E e w = Some (Some i)" "ips w i = Some ip" and d: "eths w e = Some d"
    and dest: "\<not> ip_addr_broadcast (h_dest (dg_header dg))" "ip_v4 (h_dest (dg_header dg)) = target" "length target = 4"
    and no: "find (arp_hit w target) (arp_table w) = None"
  defines "fr \<equiv> frame_hdr broadcast_mac (mac_address d) ETHER_TYPE_ARP @
    ask_bytes (mac_address d) (ip_v4 (ip_self ip)) target"
  shows "accepts drv (e_interface d) fr \<Longrightarrow>
      ip_ether_send E drv e dg w = Some (0, w\<lparr>brk := brk w + 3, wire := wire w @ [(e_interface d, fr)]\<rparr>)"
    and "rejects drv (e_interface d) fr \<Longrightarrow> ip_ether_send E drv e dg w = None"
proof -
  have l: "length (mac_address d) = 6" "length (ip_v4 (ip_self ip)) = 4"
    using up i d by (auto simp: ether_up_def wf_addr_def)
  have it: "artis w a \<noteq> None" if "a \<in> set (arp_table w)" for a
    using up that by (fastforce simp: ether_up_def)
  have "list_find E (list_match_arpti w target) (arp_table w) no_addr = Some (None, no_addr)"
    using up find_arpti [OF it] no by (simp add: ether_up_def list_laws_def)
  then have eq: "ip_ether_send E drv e dg w = map_option (\<lambda>w. (0, w)) (arp_request E drv e target w)"
    using dest by (cases "arp_request E drv e target w") (auto simp: ip_ether_send_def ether_arp_get_mac_address_def)
  show "ip_ether_send E drv e dg w = Some (0, w\<lparr>brk := brk w + 3, wire := wire w @ [(e_interface d, fr)]\<rparr>)"
    if "accepts drv (e_interface d) fr"
    unfolding eq using arp_request_frame(1) [OF i l(2) d l(1) wf dest(3)] that by (simp add: fr_def accepts_def)
  show "ip_ether_send E drv e dg w = None" if "rejects drv (e_interface d) fr"
    unfolding eq using arp_request_frame(2) [OF i l(2) d l(1) wf dest(3)] that by (simp add: fr_def)
qed

text \<open>Then the packet leaves in one frame, which is all the driver ever gets.\<close>

lemma ip_ether_send_known:
  assumes up: "ether_up E e w" and wf: "wf_heap w" and d: "eths w e = Some d"
    and pl: "block w (dg_raw dg) as None" "block_bytes w as = Some ps" "length ps \<le> 1500" "deletable w as"
    and mac: "link_addr w (h_dest (dg_header dg)) mac"
    and drv: "accepts drv (e_interface d) (frame_hdr mac (mac_address d) ETHER_TYPE_IP @ ps)"
  shows "\<exists>r w'. ip_ether_send E drv e dg w = Some (r, w') \<and> link_keeps as r w w' \<and>
    (malloc_ok w (mallocs w) \<longrightarrow> frame_given drv (e_interface d) (frame_hdr mac (mac_address d) ETHER_TYPE_IP @ ps) w w')"
proof -
  let ?fr = "frame_hdr mac (mac_address d) ETHER_TYPE_IP @ ps" and ?i = "e_interface d"
  obtain r w' where r: "ip_ether_send E drv e dg w = Some (r, w')" and k: "link_keeps as r w w'"
    and l: "malloc_ok w (mallocs w) \<longrightarrow> (\<exists>k. wire w' = wire w @ concat (replicate k [(?i, ?fr)]) \<and>
       loop_tries drv ?i ?fr [(?i, ?fr)] 3 k)"
    using send_frames_returns [OF up drv [unfolded accepts_def] wf known_address(2) [OF up mac] pl d]
      known_address(1) [OF up mac, of drv]
    by (auto simp: ip_ether_send_def)
  have "concat (replicate k [x]) = replicate k x" for k and x :: "addr \<times> u8 list" by (induction k) simp_all
  then have "frame_given drv ?i ?fr w w'" if "malloc_ok w (mallocs w)"
    using l that unfolding frame_given_def tries_def takes_def refuses_def loop_tries_def by (metis zero_less_numeral)
  then show ?thesis using r k by blast
qed

lemma ether_send_loop_rejected:
  assumes "rejects drv (e_interface e) (frame_hdr dst (mac_address e) (ef_type frame) @ ps)"
    and b: "bufs h b = Some bs" "14 + length ps \<le> length bs"
    and a: "length dst = 6" "length (mac_address e) = 6" "ef_dest frame = Lit dst"
    and f: "ef_data frame = Ptr b 0" "0x05DC \<le> ef_type frame" "14 + length ps \<le> ef_data_size frame"
      "ef_data_size frame < 2 ^ 32"
    and pl: "block h (ef_payload frame) as q" "block_bytes h as = Some ps" "b \<notin> data_bufs h as"
  shows "ether_send_loop drv e frame 3 h = None"
proof -
  have "ef_payload frame \<noteq> None" using pl(1) by (cases as) (auto dest: block_Cons_D)
  moreover have dst: "src_read h (ef_dest frame) 6 = Some dst" using a by simp
  ultimately show ?thesis
    using ether_hl_send_call(1) [OF b a(1,2) dst f pl, of drv] ether_hl_send_call(2) [OF b a(1,2) dst f pl] assms(1)
    by (subst ether_send_loop.simps) (simp add: rejects_def)
qed

lemma ip_ether_send_rejected:
  assumes up: "ether_up E e w" and wf: "wf_heap w" and d: "eths w e = Some d"
    and pl: "block w (dg_raw dg) as None" "block_bytes w as = Some ps" "length ps \<le> 1500"
    and mac: "link_addr w (h_dest (dg_header dg)) mac" and ok: "malloc_ok w (mallocs w)"
    and drv: "rejects drv (e_interface d) (frame_hdr mac (mac_address d) ETHER_TYPE_IP @ ps)"
  shows "ip_ether_send E drv e dg w = None"
proof -
  let ?b = "brk w" and ?w0 = "w\<lparr>mallocs := Suc (mallocs w)\<rparr>"
  let ?w1 = "bump (set_buf ?b (fresh_bytes ?w0 2048) ?w0)"
  let ?fr = "\<lparr>ef_dest = Lit mac, ef_src = At Null, ef_payload = dg_raw dg, ef_type = ETHER_TYPE_IP,
    ef_crc = 0, ef_data = Ptr ?b 0, ef_data_size = 2048\<rparr>"
  have buf: "malloc_buf 2048 w = (Ptr ?b 0, ?w1)"
    using ok by (simp add: malloc_buf_def malloc_try_def new_buf_def)
  have eth: "eths ?w1 e = Some d" "length (mac_address d) = 6"
    using d up by (auto simp: ether_up_def set_buf_def bump_def)
  have nb: "?b \<notin> data_bufs w as" using wf_heap_data_bufs [OF wf] by blast
  have same: "nodes ?w1 = nodes w" "\<And>c. c \<noteq> ?b \<Longrightarrow> bufs ?w1 c = bufs w c" by simp_all
  have blk: "block ?w1 (ef_payload ?fr) as None" using pl(1) block_cong [OF same(1)] by simp
  have bytes: "block_bytes ?w1 as = Some ps"
    using pl(2) block_bytes_frame [of as ?w1 w] same nb by metis
  have nb1: "?b \<notin> data_bufs ?w1 as" using nb data_bufs_cong [OF same(1)] by simp
  have big: "14 + length ps \<le> length (fresh_bytes ?w0 2048)" using pl(3) by simp
  have "ether_send_loop drv d ?fr 3 ?w1 = None"
    by (rule ether_send_loop_rejected [OF _ _ big known_address(2) [OF up mac] eth(2) _ _ _ _ _ blk bytes nb1])
       (use drv pl(3) in simp_all)
  then show ?thesis
    using known_address(1) [OF up mac, of drv] buf eth(1) by (simp add: ip_ether_send_def)
qed

text \<open>What the link needs survives whatever changes only memory; success is certain with enough of it.\<close>

lemma only_link:
  assumes "heap_only w g"
  shows "ether_up E e w \<Longrightarrow> ether_up E e g" and "eths g = eths w" and "link_addr g dest mac = link_addr w dest mac"
    and "malloc_ok g = malloc_ok w"
  by (subst heap_onlyD [OF assms], simp add: ether_up_heap link_addr_heap)+

lemma ip_ether_send_one:
  assumes up: "ether_up E e w" and mac: "link_addr w (h_dest (dg_header dg)) mac" and ok: "malloc_ok w (mallocs w)"
    and r: "ip_ether_send E drv e dg w = Some (r, w')"
  shows "r = 1"
  using known_address(1) [OF up mac, of drv] ok r
  by (auto simp: ip_ether_send_def malloc_buf_def malloc_try_def new_buf_def bind_eq_Some_conv)

section \<open>The contract\<close>

interpretation ether: link_layer "ip_ether_send E drv" "\<lambda>e w. driver_ok drv \<and> ether_up E e w"
  for E :: "'tm ext" and drv :: "(('tm, 'w) linkw_scheme) drv_send"
  by unfold_locales (auto simp: ether_up_heap dest: ip_ether_send_returns)

end
