(* ===== verification/Udp_Wire.thy ===== *)
theory Udp_Wire
  imports Udp Ether_Link
begin

text \<open>
  UDP on the wire: the bytes \<^verbatim>\<open>udp_pack\<close> stores, and the one packet that
  \<^verbatim>\<open>dts_net_udp_sendto\<close> hands to the link layer of the interface it chooses.
\<close>

section \<open>Packing over bytes\<close>

text \<open>The header node, with room for eight bytes, and the node of the payload.\<close>

definition udp_nodes :: "'w heap_scheme \<Rightarrow> udp_datagram \<Rightarrow> addr \<Rightarrow> dblk \<Rightarrow> addr \<Rightarrow> nat \<Rightarrow> u8 list \<Rightarrow>
    addr \<Rightarrow> dblk \<Rightarrow> u8 list \<Rightarrow> bool" where
  "udp_nodes h dg a d b i bs m e ps \<longleftrightarrow> ud_raw dg = Some a \<and> nodes h a = Some d \<and>
     d_data d = Ptr b i \<and> d_size d = 8 \<and> bufs h b = Some bs \<and> i + 8 \<le> length bs \<and>
     ud_payload dg = Some m \<and> nodes h m = Some e \<and> m \<noteq> a \<and> mem_read h (d_data e) (d_size e) = Some ps \<and>
     ptr_buf (d_data e) \<noteq> Some b"

definition udp_packed_heap ::
  "addr \<Rightarrow> dblk \<Rightarrow> addr \<Rightarrow> nat \<Rightarrow> u8 list \<Rightarrow> addr \<Rightarrow> addr \<Rightarrow> u8 list \<Rightarrow> u8 list \<Rightarrow> 'w heap_scheme \<Rightarrow> 'w heap_scheme" where
  "udp_packed_heap a d b i bs m x phb hb h =
     set_node a (d\<lparr>d_next := Some m, d_more := True\<rparr>) (set_buf b (splice_at bs i hb) (set_buf x phb h))"

lemma udp_packed_heap_sel [simp]:
  "nodes (udp_packed_heap a d b i bs m x phb hb h) = (nodes h)(a \<mapsto> d\<lparr>d_next := Some m, d_more := True\<rparr>)"
  "bufs (udp_packed_heap a d b i bs m x phb hb h) = (bufs h)(x \<mapsto> phb, b \<mapsto> splice_at bs i hb)"
  "brk (udp_packed_heap a d b i bs m x phb hb h) = brk h"
  by (simp_all add: udp_packed_heap_def)

lemma udp_hdr_checksum: "splice_at (udp_hdr s t len 0) 6 (be16 c) = udp_hdr s t len c"
  by (simp add: splice_at_def udp_hdr_def be16_def)

lemma udp_pack_node:
  assumes n: "udp_nodes h dg a d b i bs m e ps" and ev: "even (length ps)" "length ps < 65528"
    and ph: "ph_ready ph x h" and sep: "b \<noteq> x" "ptr_buf (d_data e) \<noteq> Some x"
  defines "len \<equiv> of_nat (8 + length ps)"
  defines "c \<equiv> udp_csum ph (ud_src_port dg) (ud_dest_port dg) len ps"
  shows "udp_pack dg ph h = Some (8 + length ps, dg\<lparr>ud_length := len, ud_checksum := c\<rparr>,
    udp_packed_heap a d b i bs m x (ph_bytes (ph_src ph) (ph_dest ph) (ph_protocol ph) len)
      (udp_hdr (ud_src_port dg) (ud_dest_port dg) len c) h)"
proof -
  let ?s = "ud_src_port dg" and ?t = "ud_dest_port dg"
  let ?u0 = "udp_hdr ?s ?t len 0"
  let ?pb = "ph_bytes (ph_src ph) (ph_dest ph) (ph_protocol ph) len"
  let ?h1 = "set_buf b (splice_at bs i ?u0) h"
  let ?h2 = "set_buf x ?pb ?h1"
  note N = n [unfolded udp_nodes_def] and P = ph [unfolded ph_ready_def]
  have size: "d_size e = length ps" using N by (auto dest: mem_read_length)
  have len': "8 + of_nat (length ps) = len" by (simp add: len_def)
  have run: "udp_pack dg ph h = do {
      h \<leftarrow> mem_write (Ptr b i) ?u0 h;
      (_, h) \<leftarrow> pseudo_header_pack (ph\<lparr>ph_length := len\<rparr>) h;
      acc \<leftarrow> checksum_accmulate 0 (ph_data ph) (ph_data_size ph) h;
      acc \<leftarrow> checksum_accmulate acc (Ptr b i) 8 h;
      acc \<leftarrow> checksum_accmulate acc (d_data e) (length ps) h;
      h \<leftarrow> mem_write (Ptr b (i + 6)) (be16 (checksum_complete acc)) h;
      h \<leftarrow> dblk_node_concat (Some a) (Some m) h;
      Some (unat len, dg\<lparr>ud_length := len, ud_checksum := checksum_complete acc\<rparr>, h) }"
    using N size len' by (simp add: udp_pack_def store_simps udp_hdr_def Let_def)
  have w: "mem_write (Ptr b i) ?u0 h = Some ?h1" using N by (simp add: mem_simps)
  have php: "pseudo_header_pack (ph\<lparr>ph_length := len\<rparr>) ?h1 = Some (12, ?h2)"
    using pseudo_header_pack_ready [of "ph\<lparr>ph_length := len\<rparr>" x ?h1] P sep by (auto simp: ph_ready_def)
  have s1: "checksum_accmulate 0 (Ptr x 0) 12 ?h2 = Some (of_nat (wsum ?pb))"
    using P by (subst checksum_accmulate_even) (auto simp: mem_simps)
  have s2: "checksum_accmulate acc (Ptr b i) 8 ?h2 = Some (acc + of_nat (wsum ?u0))" for acc
    using N sep take_drop_splice_at [of i ?u0 bs] by (subst checksum_accmulate_even) (auto simp: mem_simps)
  have rd: "mem_read ?h2 (d_data e) (length ps) = Some ps"
    using N sep size by (simp add: mem_read_other)
  have s3: "checksum_accmulate acc (d_data e) (length ps) ?h2 = Some (acc + of_nat (wsum ps))" for acc
    by (rule checksum_accmulate_even [OF rd ev(1)])
  have total: "checksum_complete (of_nat (wsum ?pb) + of_nat (wsum ?u0) + of_nat (wsum ps)) = c"
    unfolding c_def using P ev by (intro udp_sum) auto
  let ?h3 = "set_buf b (splice_at bs i (udp_hdr ?s ?t len c)) (set_buf x ?pb h)"
  have fin: "mem_write (Ptr b (i + 6)) (be16 c) ?h2 = Some ?h3"
    using N sep by (simp add: mem_simps splice_at_inside udp_hdr_checksum set_buf_set_buf_other [of b x])
  have len: "unat len = 8 + length ps" using ev by (simp add: len_def unat_of_nat take_bit_nat_eq_self del: of_nat_add)
  show ?thesis
    unfolding run using N P w php s1 s2 s3 total fin len
    by (simp add: dblk_node_concat_def udp_packed_heap_def)
qed

section \<open>Sending\<close>

text \<open>The payload at \<open>data\<close>: \<open>n\<close> readable bytes of an object of the program.\<close>

definition data_at :: "'w heap_scheme \<Rightarrow> ptr \<Rightarrow> nat \<Rightarrow> u8 list \<Rightarrow> bool" where
  "data_at w data n ps \<longleftrightarrow> mem_read w data n = Some ps \<and> n < 65536 \<and>
     (\<forall>b. ptr_buf data = Some b \<longrightarrow> b < brk w)"

lemma data_at_length: "data_at w data n ps \<Longrightarrow> length ps = n"
  by (auto simp: data_at_def dest: mem_read_length)

text \<open>The datagram of a payload, and the header it is sent under.\<close>

definition udp_ph :: "ip_addr \<Rightarrow> ip_addr \<Rightarrow> pseudo_header" where
  "udp_ph s d = \<lparr>ph_src = s, ph_dest = d, ph_protocol = IP_PROTOCOL_UDP, ph_length = 0, ph_data = Null,
     ph_data_size = 12\<rparr>"

definition udp_bytes :: "ip_addr \<Rightarrow> ip_addr \<Rightarrow> u16 \<Rightarrow> u16 \<Rightarrow> u8 list \<Rightarrow> u8 list" where
  "udp_bytes s d sport dport ps = udp_hdr sport dport (of_nat (8 + length ps))
     (udp_csum (udp_ph s d) sport dport (of_nat (8 + length ps)) ps) @ ps"

lemma length_udp_bytes [simp]: "length (udp_bytes s d p q ps) = 8 + length ps"
  by (simp add: udp_bytes_def)

definition udp_out_hdr :: "'w netw_scheme \<Rightarrow> ip \<Rightarrow> ip_addr \<Rightarrow> nat \<Rightarrow> ip_header" where
  "udp_out_hdr w ip dest n = sealed_hdr (out_hdr ip (ident w + 1) (8 + n)
     ((auto_header w)\<lparr>h_options := Null, h_option_size := 0, h_tos := 0,
       h_protocol := IP_PROTOCOL_UDP, h_ttl := 128, h_src := ip_self ip, h_dest := dest\<rparr>))"

text \<open>
  The machine when the datagram is packed: header buffer and node at the first two
  unused addresses, the node of the payload at the third.
\<close>

definition udp_world :: "'w netw_scheme \<Rightarrow> ptr \<Rightarrow> nat \<Rightarrow> u8 list \<Rightarrow> 'w netw_scheme" where
  "udp_world w data n hb = w\<lparr>bufs := (bufs w)(brk w \<mapsto> hb),
     nodes := (nodes w)(Suc (brk w) \<mapsto> (init_dblk (Ptr (brk w) 0) 8)\<lparr>d_next := Some (brk w + 2), d_more := True\<rparr>,
       brk w + 2 \<mapsto> init_dblk data n),
     brk := brk w + 4\<rparr>"

text \<open>The interface can send, and the destination is an IPv4 address.\<close>

definition udp_can_send :: "'w netw_scheme \<Rightarrow> ip \<Rightarrow> addr \<Rightarrow> ip_addr \<Rightarrow> bool" where
  "udp_can_send w ip e dest \<longleftrightarrow> ip_ll ip = Some e \<and> ip_version (ip_self ip) = 4 \<and>
     wf_addr (ip_self ip) \<and> wf_addr dest \<and> ident w \<noteq> 2147483647 \<and> wf_heap w"

lemma udp_out_hdr_plain: "udp_can_send w ip e dest \<Longrightarrow> plain_hdr (udp_out_hdr w ip dest n)"
  by (simp add: udp_out_hdr_def udp_can_send_def out_hdr_def plain_hdr_def)

lemma wf_udp_world:
  assumes "wf_heap w" "data_at w data n ps"
  shows "wf_heap (udp_world w data n hb)"
  using assms unfolding wf_heap_def udp_world_def data_at_def by (auto intro: trans_less_add1)

lemma udp_world_block:
  assumes "wf_heap w" "data_at w data n ps" "length hb = 8"
  shows "block (udp_world w data n hb) (Some (Suc (brk w))) [Suc (brk w), brk w + 2] None"
    and "block_bytes (udp_world w data n hb) [Suc (brk w), brk w + 2] = Some (hb @ ps)"
proof -
  let ?U = "udp_world w data n hb"
  show "block ?U (Some (Suc (brk w))) [Suc (brk w), brk w + 2] None"
    by (simp add: udp_world_def block.simps(2))
  have "mem_read ?U data n = mem_read w data n"
    using assms(2) by (cases data) (auto simp: data_at_def mem_read_def udp_world_def split: if_splits)
  then show "block_bytes ?U [Suc (brk w), brk w + 2] = Some (hb @ ps)"
    using assms(2,3) by (simp add: udp_world_def data_at_def node_bytes_def node_size_def mem_simps)
qed


lemma new_frame:
  "dblk_node_new_from_stack_with_buff 8 w = (Some (Suc (brk w)),
     bump (set_node (Suc (brk w)) (init_dblk (Ptr (brk w) 0) 8) (bump (set_buf (brk w) (fresh_bytes w 8) w))))"
  by (rule dblk_node_new_from_stack_with_buff_eq)

text \<open>The frame of \<^verbatim>\<open>sendto_udp\<close>: header buffer and node, payload node, pseudo header.\<close>

definition udp_frame :: "'w netw_scheme \<Rightarrow> ptr \<Rightarrow> nat \<Rightarrow> 'w netw_scheme" where
  "udp_frame w data n = w\<lparr>bufs := (bufs w)(brk w \<mapsto> fresh_bytes w 8, brk w + 3 \<mapsto> map (junk w (brk w + 3)) [0..<12]),
     nodes := (nodes w)(Suc (brk w) \<mapsto> init_dblk (Ptr (brk w) 0) 8, brk w + 2 \<mapsto> init_dblk data n),
     brk := brk w + 4\<rparr>"

lemma udp_frame_run:
  "do { (raw, w) \<leftarrow> Some (dblk_node_new_from_stack_with_buff 8 w);
     buf \<leftarrow> map_option d_data (get_node w raw);
     (pl, w) \<leftarrow> Some (dblk_node_new_from_stack data n w);
     (ph, w) \<leftarrow> Some (pseudo_header_new_from_stack s d p 0 w);
     k raw buf pl ph w } =
   k (Some (Suc (brk w))) (Ptr (brk w) 0) (Some (brk w + 2))
     \<lparr>ph_src = s, ph_dest = d, ph_protocol = p, ph_length = 0, ph_data = Ptr (brk w + 3) 0, ph_data_size = 12\<rparr>
     (udp_frame w data n)"
proof -
  let ?w1 = "bump (set_node (Suc (brk w)) (init_dblk (Ptr (brk w) 0) 8) (bump (set_buf (brk w) (fresh_bytes w 8) w)))"
  let ?w2 = "bump (set_node (brk ?w1) (init_dblk data n) ?w1)"
  have "bump (set_buf (brk ?w2) (fresh_bytes ?w2 12) ?w2) = udp_frame w data n"
    by (simp add: udp_frame_def set_node_def set_buf_def bump_def fresh_bytes_def numeral_eq_Suc)
  then show ?thesis
    by (simp add: dblk_node_new_from_stack_with_buff_eq dblk_node_new_from_stack_def new_node_def
        pseudo_header_new_eq numeral_eq_Suc del: heap_field_commute)
qed

lemma sendto_udp_eq:
  fixes port :: u16
  assumes cs: "udp_can_send w ip e dest" and d: "data_at w data n ps" and n: "even n" "n < 1392"
  defines "hdr \<equiv> udp_out_hdr w ip dest n"
  defines "ub \<equiv> udp_bytes (ip_self ip) dest udp_random_port port ps"
  defines "U \<equiv> udp_world w data n (take 8 ub)"
  shows "sendto_udp ll_send ip dest port data n w = do {
    (r, g) \<leftarrow> ll_send e \<lparr>dg_header = hdr, dg_payload = Some (Suc (brk w)), dg_raw = Some (brk w + 5)\<rparr>
       (packet_heap (Some (Suc (brk w))) hdr U);
    g \<leftarrow> pop_node (Some (brk w + 5)) g;
    g \<leftarrow> pop_buf (Ptr (brk w + 4) 0) g;
    g \<leftarrow> pop_node (Some (brk w + 2)) g;
    g \<leftarrow> pop_node (Some (Suc (brk w))) g;
    g \<leftarrow> pop_buf (Ptr (brk w) 0) g;
    Some (r, g) }"
proof -
  note C = cs [unfolded udp_can_send_def]
  let ?F = "udp_frame w data n" and ?k = "brk w"
  let ?ph = "\<lparr>ph_src = ip_self ip, ph_dest = dest, ph_protocol = IP_PROTOCOL_UDP, ph_length = 0,
    ph_data = Ptr (?k + 3) 0, ph_data_size = 12\<rparr>"
  let ?dg = "\<lparr>ud_src_port = udp_random_port, ud_dest_port = port, ud_length = 0,
        ud_checksum = 0, ud_payload = Some (?k + 2), ud_raw = Some (Suc ?k)\<rparr>"
  let ?len = "of_nat (8 + length ps) :: u16"
  let ?c = "udp_csum ?ph udp_random_port port ?len ps"
  let ?hb = "udp_hdr udp_random_port port ?len ?c"
  let ?h = "(auto_header w)\<lparr>h_options := Null, h_option_size := 0, h_tos := 0,
       h_protocol := IP_PROTOCOL_UDP, h_ttl := 128, h_src := ip_self ip, h_dest := dest\<rparr>"
  have len: "length ps = n" by (rule data_at_length [OF d])
  have hb: "take 8 ub = ?hb" by (simp add: ub_def udp_bytes_def udp_csum_def udp_ph_def)
  have rd: "mem_read ?F data n = Some ps"
    using d by (cases data) (auto simp: data_at_def mem_read_def udp_frame_def split: if_splits)
  have nd: "udp_nodes ?F ?dg (Suc ?k) (init_dblk (Ptr ?k 0) 8) ?k 0 (fresh_bytes w 8) (?k + 2) (init_dblk data n) ps"
    using d rd n by (auto simp: udp_nodes_def udp_frame_def data_at_def)
  have ph: "ph_ready ?ph (?k + 3) ?F"
    using C by (simp add: ph_ready_def udp_frame_def)
  let ?P = "udp_packed_heap (Suc ?k) (init_dblk (Ptr ?k 0) 8) ?k 0 (fresh_bytes w 8) (?k + 2) (?k + 3)
     (ph_bytes (ip_self ip) dest IP_PROTOCOL_UDP ?len) ?hb ?F"
  have pack: "udp_pack ?dg ?ph ?F = Some (8 + length ps, ?dg\<lparr>ud_length := ?len, ud_checksum := ?c\<rparr>, ?P)"
    using udp_pack_node [OF nd _ _ ph] d n len by (auto simp: data_at_def)
  have pop: "pop_buf (Ptr (?k + 3) 0) ?P = Some U"
    using C unfolding U_def hb
    by (auto simp: pop_buf_def udp_packed_heap_def udp_frame_def udp_world_def set_node_def set_buf_def del_buf_def
        wf_heap_def fun_upd_twist fun_upd_idem intro!: netw.equality)
  have blk: "block U (Some (Suc ?k)) [Suc ?k, ?k + 2] None" "block_bytes U [Suc ?k, ?k + 2] = Some ub"
    unfolding U_def using udp_world_block [OF _ d, of "take 8 ub"] C
    by (simp_all add: ub_def udp_bytes_def)
  have U: "brk U = ?k + 4" "Suc (brk U) = ?k + 5" "ident U = ident w" by (simp_all add: U_def udp_world_def)
  have send: "ip_hl_send ll_send ip \<lparr>dg_header = ?h, dg_payload = Some (Suc ?k), dg_raw = None\<rparr> U = do {
     (r, g) \<leftarrow> ll_send e \<lparr>dg_header = hdr, dg_payload = Some (Suc ?k), dg_raw = Some (?k + 5)\<rparr>
         (packet_heap (Some (Suc ?k)) hdr U);
     g \<leftarrow> pop_node (Some (?k + 5)) g;
     g \<leftarrow> pop_buf (Ptr (?k + 4) 0) g;
     Some (r, g) }"
    using ip_hl_send_small_eq [of U "\<lparr>dg_header = ?h, dg_payload = Some (Suc ?k), dg_raw = None\<rparr>" "8 + n" ip e ll_send]
      dblk_size_bytes [OF blk] C U n len
    by (simp add: ub_def link_ready_def hdr_def udp_out_hdr_def add.commute [of 5])
  show ?thesis
    unfolding sendto_udp_def Let_def udp_frame_run
    using pack pop send by (simp add: bind_assoc case_prod_beta')
qed


text \<open>The packet the link layer gets.\<close>

definition udp_sent_world :: "'w netw_scheme \<Rightarrow> ip \<Rightarrow> ip_addr \<Rightarrow> u16 \<Rightarrow> ptr \<Rightarrow> nat \<Rightarrow> u8 list \<Rightarrow> 'w netw_scheme" where
  "udp_sent_world w ip dest port data n ps = packet_heap (Some (Suc (brk w))) (udp_out_hdr w ip dest n)
     (udp_world w data n (take 8 (udp_bytes (ip_self ip) dest udp_random_port port ps)))"

definition udp_sent_dg :: "'w netw_scheme \<Rightarrow> ip \<Rightarrow> ip_addr \<Rightarrow> nat \<Rightarrow> ip_datagram" where
  "udp_sent_dg w ip dest n = \<lparr>dg_header = udp_out_hdr w ip dest n, dg_payload = Some (Suc (brk w)),
     dg_raw = Some (brk w + 5)\<rparr>"

lemma udp_sent_wire:
  fixes port :: u16
  assumes cs: "udp_can_send w ip e dest" and d: "data_at w data n ps"
  defines "ub \<equiv> udp_bytes (ip_self ip) dest udp_random_port port ps"
  defines "W \<equiv> udp_sent_world w ip dest port data n ps"
  shows "block W (dg_raw (udp_sent_dg w ip dest n)) [brk w + 5, Suc (brk w), brk w + 2] None"
    and "block_bytes W [brk w + 5, Suc (brk w), brk w + 2] = Some (hdr_bytes (udp_out_hdr w ip dest n) @ ub)"
proof -
  let ?U = "udp_world w data n (take 8 ub)"
  have wf: "wf_heap w" using cs by (simp add: udp_can_send_def)
  have ub: "take 8 ub @ ps = ub" "length (take 8 ub) = 8" by (simp_all add: ub_def udp_bytes_def)
  note U = wf_udp_world [OF wf d] udp_world_block [OF wf d ub(2)]
  have k: "Suc (brk ?U) = brk w + 5" by (simp add: udp_world_def)
  show "block W (dg_raw (udp_sent_dg w ip dest n)) [brk w + 5, Suc (brk w), brk w + 2] None"
    unfolding W_def udp_sent_world_def udp_sent_dg_def ip_datagram.simps ub_def [symmetric]
    by (rule packet_heap_block [OF U(1,2), unfolded k])
  show "block_bytes W [brk w + 5, Suc (brk w), brk w + 2] = Some (hdr_bytes (udp_out_hdr w ip dest n) @ ub)"
    unfolding W_def udp_sent_world_def ub_def [symmetric]
    by (rule packet_heap_bytes [OF U udp_out_hdr_plain [OF cs], unfolded k ub(1)])
qed

lemma udp_sent_on_wire:
  assumes "udp_can_send w ip e dest" "data_at w data n ps"
  shows "on_wire (udp_sent_world w ip dest port data n ps) (udp_sent_dg w ip dest n)
    (hdr_bytes (udp_out_hdr w ip dest n) @ udp_bytes (ip_self ip) dest udp_random_port port ps)"
  unfolding on_wire_def using udp_sent_wire [OF assms] by blast

section \<open>Under the contract of the link layer\<close>

lemma udp_sent_nodes:
  "nodes (udp_sent_world w ip dest port data n ps) = (nodes w)
     (Suc (brk w) \<mapsto> (init_dblk (Ptr (brk w) 0) 8)\<lparr>d_next := Some (brk w + 2), d_more := True\<rparr>,
      brk w + 2 \<mapsto> init_dblk data n,
      brk w + 5 \<mapsto> (init_dblk (Ptr (brk w + 4) 0) 64)\<lparr>d_size := 20, d_next := Some (Suc (brk w)), d_more := True\<rparr>)"
  "brk (udp_sent_world w ip dest port data n ps) = brk w + 6"
  "bufs (udp_sent_world w ip dest port data n ps) (brk w) \<noteq> None"
  "bufs (udp_sent_world w ip dest port data n ps) (brk w + 4) \<noteq> None"
  "b < brk w \<Longrightarrow> bufs (udp_sent_world w ip dest port data n ps) b = bufs w b"
  by (simp_all add: udp_sent_world_def udp_world_def add.commute [of 5] add.commute [of 6])

lemma udp_sent_heap:
  "udp_sent_world w ip dest port data n ps = w\<lparr>bufs := bufs (udp_sent_world w ip dest port data n ps),
     nodes := nodes (udp_sent_world w ip dest port data n ps), brk := brk w + 6, mallocs := mallocs w,
     ident := ident w + 1, wire := wire w\<rparr>"
  by (simp add: udp_sent_world_def udp_world_def packet_heap_def set_node_def set_buf_def)

lemma udp_sent_conns: "same_conns w (udp_sent_world w ip dest port data n ps)"
  by (subst udp_sent_heap) (simp add: same_conns_def)

lemma udp_sent_only: "heap_only (udp_sent_world w ip dest port data n ps) g \<Longrightarrow> heap_only w g"
  by (rule heap_only_trans [where v = "udp_sent_world w ip dest port data n ps"]) (subst udp_sent_heap, simp)

lemma udp_sent_keeps:
  assumes k: "link_keeps [brk w + 5, Suc (brk w), brk w + 2] r (udp_sent_world w ip dest port data n ps) g"
  shows "\<exists>g'. do {
      g \<leftarrow> pop_node (Some (brk w + 5)) g;
      g \<leftarrow> pop_buf (Ptr (brk w + 4) 0) g;
      g \<leftarrow> pop_node (Some (brk w + 2)) g;
      g \<leftarrow> pop_node (Some (Suc (brk w))) g;
      g \<leftarrow> pop_buf (Ptr (brk w) 0) g;
      Some (r, g) } = Some (r, g') \<and> clean w g' \<and> wire g' = wire g"
proof -
  let ?W = "udp_sent_world w ip dest port data n ps" and ?as = "[brk w + 5, Suc (brk w), brk w + 2]"
  have fr: "\<not> freed_node ?W a \<and> owned_buf ?W a = None" if "a \<in> set ?as" for a
    using that by (auto simp: freed_node_def owned_buf_def udp_sent_nodes(1))
  have nd: "nodes g a = nodes ?W a" and bf: "bufs g a = bufs ?W a" if "a < brk w + 6" for a
    using keeps_unowned [OF k fr] that unfolding udp_sent_nodes(2) by blast+
  have sc: "same_conns w g" "brk w \<le> brk g" "heap_only w g" "wf_heap g"
    using k same_conns_trans [OF udp_sent_conns] udp_sent_only [of w ip dest port data n ps g] by (auto simp: link_keeps_def udp_sent_nodes(2))
  have live: "nodes g (brk w + 5) \<noteq> None" "nodes g (brk w + 2) \<noteq> None" "nodes g (Suc (brk w)) \<noteq> None"
    "bufs g (brk w + 4) \<noteq> None" "bufs g (brk w) \<noteq> None"
    using nd bf by (simp_all add: udp_sent_nodes)
  then show ?thesis
    using nd bf sc by (simp add: pop_node_def pop_buf_def clean_def udp_sent_nodes)
qed

lemma length_udp_packet:
  "udp_can_send w ip e dest \<Longrightarrow>
   length (hdr_bytes (udp_out_hdr w ip dest n) @ udp_bytes s d p q ps) = 28 + length ps"
  using length_ip_packet [OF udp_out_hdr_plain] by simp

text \<open>Whatever keeps the contract on this packet, the call returns and leaves no trace.\<close>

lemma udp_sent_ready:
  fixes port :: u16
  assumes cs: "udp_can_send w ip e dest" and d: "data_at w data n ps" and n: "n < 1392"
  defines "W \<equiv> udp_sent_world w ip dest port data n ps"
  shows "wf_heap W" "deletable W [brk w + 5, Suc (brk w), brk w + 2]"
    and "length (hdr_bytes (udp_out_hdr w ip dest n) @ udp_bytes (ip_self ip) dest udp_random_port port ps) \<le> 1500"
    and "h_dest (dg_header (udp_sent_dg w ip dest n)) = dest"
proof -
  show "wf_heap W"
    using cs d unfolding W_def udp_sent_world_def udp_can_send_def by (intro wf_packet_heap wf_udp_world) auto
  show "length (hdr_bytes (udp_out_hdr w ip dest n) @ udp_bytes (ip_self ip) dest udp_random_port port ps) \<le> 1500"
    using length_udp_packet [OF cs, of n "ip_self ip" dest udp_random_port port ps] data_at_length [OF d] n by simp
  show "deletable W [brk w + 5, Suc (brk w), brk w + 2]" by (simp add: W_def udp_sent_nodes)
  show "h_dest (dg_header (udp_sent_dg w ip dest n)) = dest"
    by (simp add: udp_sent_dg_def udp_out_hdr_def out_hdr_def)
qed

lemma sendto_udp_after:
  assumes cs: "udp_can_send w ip e dest" and d: "data_at w data n ps" and n: "even n" "n < 1392"
    and ll: "ll_send e (udp_sent_dg w ip dest n) (udp_sent_world w ip dest port data n ps) = Some (r, g)"
    and k: "link_keeps [brk w + 5, Suc (brk w), brk w + 2] r (udp_sent_world w ip dest port data n ps) g"
  shows "\<exists>w'. sendto_udp ll_send ip dest port data n w = Some (r, w') \<and> clean w w' \<and> wire w' = wire g"
proof -
  have "sendto_udp ll_send ip dest port data n w = do {
      g \<leftarrow> pop_node (Some (brk w + 5)) g;
      g \<leftarrow> pop_buf (Ptr (brk w + 4) 0) g;
      g \<leftarrow> pop_node (Some (brk w + 2)) g;
      g \<leftarrow> pop_node (Some (Suc (brk w))) g;
      g \<leftarrow> pop_buf (Ptr (brk w) 0) g;
      Some (r, g) }"
    using ll unfolding sendto_udp_eq [OF cs d n] udp_sent_world_def udp_sent_dg_def by simp
  then show ?thesis using udp_sent_keeps [OF k] by auto
qed

context link_layer
begin

lemma sendto_udp_returns:
  assumes cs: "udp_can_send w ip e dest" and up: "up e w" and d: "data_at w data n ps" and n: "even n" "n < 1392"
  shows "\<exists>r w'. sendto_udp ll_send ip dest port data n w = Some (r, w') \<and> clean w w'"
proof -
  note R = udp_sent_ready [OF cs d n(2)]
  have upW: "up e (udp_sent_world w ip dest port data n ps)" by (subst udp_sent_heap) (rule up_heap [OF up])
  have d4: "length (ip_v4 (h_dest (dg_header (udp_sent_dg w ip dest n)))) = 4"
    using R(4) cs by (simp add: udp_can_send_def)
  show ?thesis
    using send [OF upW R(1) udp_sent_wire [OF cs d] R(3,2) d4] sendto_udp_after [OF cs d n] by blast
qed

end

section \<open>The frame of a datagram\<close>

definition udp_eth_frame :: "'w netw_scheme \<Rightarrow> ip \<Rightarrow> ether \<Rightarrow> u8 list \<Rightarrow> ip_addr \<Rightarrow> u16 \<Rightarrow> nat \<Rightarrow> u8 list \<Rightarrow> u8 list" where
  "udp_eth_frame w ip d mac dest port n ps = frame_hdr mac (mac_address d) ETHER_TYPE_IP @
     hdr_bytes (udp_out_hdr w ip dest n) @ udp_bytes (ip_self ip) dest udp_random_port port ps"

lemma sendto_udp_frame:
  assumes cs: "udp_can_send w ip e dest" and d: "data_at w data n ps" and n: "even n" "n < 1392"
    and up: "ether_up E e w" "eths w e = Some dv" and mac: "link_addr w dest mac"
  shows "accepts drv (e_interface dv) (udp_eth_frame w ip dv mac dest port n ps) \<Longrightarrow>
      \<exists>r w'. sendto_udp (ip_ether_send E drv) ip dest port data n w = Some (r, w') \<and> clean w w' \<and>
        (malloc_ok w (mallocs w) \<longrightarrow> frame_given drv (e_interface dv) (udp_eth_frame w ip dv mac dest port n ps) w w')"
    and "rejects drv (e_interface dv) (udp_eth_frame w ip dv mac dest port n ps) \<Longrightarrow>
      malloc_ok w (mallocs w) \<Longrightarrow> sendto_udp (ip_ether_send E drv) ip dest port data n w = None"
proof -
  note R0 = udp_sent_ready [OF cs d n(2)]
  note R = R0(1-3) [where port = port] R0(4) and wire = udp_sent_wire [OF cs d, of port]
  let ?W = "udp_sent_world w ip dest port data n ps"
  have up': "ether_up E e ?W" by (subst udp_sent_heap) (rule ether_up_heap [OF up(1)])
  have eth: "eths ?W e = Some dv" using up(2) by (subst udp_sent_heap) simp
  have mac': "link_addr ?W (h_dest (dg_header (udp_sent_dg w ip dest n))) mac"
    unfolding R(4) using mac by (subst udp_sent_heap, subst link_addr_heap)
  have ok: "malloc_ok ?W (mallocs ?W) = malloc_ok w (mallocs w)"
    by (subst (1 2) udp_sent_heap) simp
  show "\<exists>r w'. sendto_udp (ip_ether_send E drv) ip dest port data n w = Some (r, w') \<and> clean w w' \<and>
        (malloc_ok w (mallocs w) \<longrightarrow> frame_given drv (e_interface dv) (udp_eth_frame w ip dv mac dest port n ps) w w')"
    if acc: "accepts drv (e_interface dv) (udp_eth_frame w ip dv mac dest port n ps)"
  proof -
    obtain r g where "ip_ether_send E drv e (udp_sent_dg w ip dest n) ?W = Some (r, g)"
      "link_keeps [brk w + 5, Suc (brk w), brk w + 2] r ?W g"
      and gv: "malloc_ok w (mallocs w) \<longrightarrow> frame_given drv (e_interface dv) (udp_eth_frame w ip dv mac dest port n ps) ?W g"
      using ip_ether_send_known [OF up' R(1) eth wire R(3,2) mac' acc [unfolded udp_eth_frame_def]]
      unfolding ok udp_eth_frame_def by blast
    then obtain w' where "sendto_udp (ip_ether_send E drv) ip dest port data n w = Some (r, w')" "clean w w'" "wire w' = wire g"
      using sendto_udp_after [OF cs d n] by blast
    moreover have "wire ?W = wire w" by (subst udp_sent_heap) simp
    ultimately show ?thesis using gv by (auto simp: frame_given_def)
  qed
  show "sendto_udp (ip_ether_send E drv) ip dest port data n w = None"
    if "rejects drv (e_interface dv) (udp_eth_frame w ip dv mac dest port n ps)" "malloc_ok w (mallocs w)"
    using ip_ether_send_rejected [OF up' R(1) eth wire R(3) mac' _ that(1) [unfolded udp_eth_frame_def]] that(2) ok
    unfolding sendto_udp_eq [OF cs d n] udp_sent_world_def [symmetric] udp_sent_dg_def [symmetric] by simp
qed

section \<open>The destination's interface\<close>

text \<open>\<^verbatim>\<open>dts_net_udp_sendto\<close> sends through the first interface on whose network the destination lies.\<close>

lemma udp_sendto_first:
  assumes E: "list_laws E" "nifs_ok w" "ip_version dest = 4"
    and f: "find (on_lan w dest) (nif_list w) = Some m" "nifs w m = Some nif" "ips w (nif_ip nif) = Some ip"
  shows "udp_sendto E ll_send dest port data n w =
    map_option (\<lambda>(r, w). (r, dest\<lparr>ip_mask := ip_mask (ip_self ip)\<rparr>, w))
      (sendto_udp ll_send ip (dest\<lparr>ip_mask := ip_mask (ip_self ip)\<rparr>) port data n w)"
  using assms ip_find_netif_found [OF assms]
  by (auto simp: udp_sendto_def map_option_case split: option.splits)

end
