(* ===== verification/Tcp_Data.thy ===== *)
theory Tcp_Data
  imports Udp_Wire
begin

text \<open>
  Data of the application on its way out: what \<^verbatim>\<open>dts_net_tcp_send\<close> hands to the link layer on
  an idle connection, what it keeps for the retransmission, and that the timer sends the
  same bytes again.
\<close>

section \<open>The segment\<close>

definition data_seg :: "'tm tcb \<Rightarrow> addr option \<Rightarrow> addr option \<Rightarrow> tcp_segment" where
  "data_seg t raw pl = tcp_segment_init\<lparr>sg_src_port := ucast (t_port t), sg_dest_port := t_dest_port t,
     sg_seq := snd_una t, sg_ack := rcv_nxt t, sg_data_offset := 5, sg_flags := SEG_FLAG_ACK,
     sg_win := rcv_wnd t, sg_payload := pl, sg_raw := raw\<rparr>"

text \<open>
  With five allocations the copy of the data is at the first two unused addresses, the
  header at the next two, the pseudo header at the fifth.
\<close>

definition data_out :: "('tm, 'w) tcpw_scheme \<Rightarrow> 'tm tcb \<Rightarrow> ip \<Rightarrow> u8 list \<Rightarrow> tcp_segment" where
  "data_out w t ip ps = sealed_seg (tcp_ph ip t 0) (data_seg t (Some (brk w + 3)) (Some (Suc (brk w)))) ps"

definition heap_node :: "addr \<Rightarrow> nat \<Rightarrow> dblk" where
  "heap_node b n = init_dblk (Ptr b 0) n\<lparr>d_node_malloc := True, d_data_malloc := True\<rparr>"

lemma heap_node_sel [simp]:
  "d_next (heap_node b n) = None" "d_data (heap_node b n) = Ptr b 0" "d_size (heap_node b n) = u16_of n"
  "d_more (heap_node b n) = False" "d_vsize (heap_node b n) = 0" "d_node_malloc (heap_node b n)"
  "d_data_malloc (heap_node b n)"
  by (simp_all add: heap_node_def)

definition data_world :: "('tm, 'w) tcpw_scheme \<Rightarrow> 'tm tcb \<Rightarrow> ip \<Rightarrow> u8 list \<Rightarrow> ('tm, 'w) tcpw_scheme" where
  "data_world w t ip ps = w\<lparr>bufs := (bufs w)(brk w \<mapsto> ps,
       brk w + 2 \<mapsto> splice_at (map (junk w (brk w + 2)) [0..<32]) 0 (seg_bytes (data_out w t ip ps)),
       brk w + 4 \<mapsto> ph_bytes (ip_self ip) (t_dest t) IP_PROTOCOL_TCP (of_nat (20 + length ps))),
     nodes := (nodes w)(Suc (brk w) \<mapsto> heap_node (brk w) (length ps),
       brk w + 3 \<mapsto> (heap_node (brk w + 2) 32)\<lparr>d_size := 20, d_next := Some (Suc (brk w)), d_more := True\<rparr>),
     brk := brk w + 5, mallocs := mallocs w + 5\<rparr>"

text \<open>The copy of the data, and the frame in which the segment is packed.\<close>

definition data_copied :: "('tm, 'w) tcpw_scheme \<Rightarrow> u8 list \<Rightarrow> ('tm, 'w) tcpw_scheme" where
  "data_copied w ps = set_buf (brk w) ps (fresh_blk (length ps) w)"

definition data_frame :: "('tm, 'w) tcpw_scheme \<Rightarrow> u8 list \<Rightarrow> ('tm, 'w) tcpw_scheme" where
  "data_frame w ps = w\<lparr>bufs := (bufs w)(brk w \<mapsto> ps, brk w + 2 \<mapsto> map (junk w (brk w + 2)) [0..<32],
       brk w + 4 \<mapsto> map (junk w (brk w + 4)) [0..<12]),
     nodes := (nodes w)(Suc (brk w) \<mapsto> heap_node (brk w) (length ps), brk w + 3 \<mapsto> heap_node (brk w + 2) 32),
     brk := brk w + 5, mallocs := mallocs w + 5\<rparr>"

lemma data_pack:
  assumes cs: "can_send w t ip e" and n: "even (length ps)" "length ps < 1380"
  shows "tcp_pack (data_seg t (Some (brk w + 3)) (Some (Suc (brk w)))) (tcp_ph ip t (brk w + 4)) (data_frame w ps) =
    Some (True, data_out w t ip ps, data_world w t ip ps)"
proof -
  note C = cs [unfolded can_send_def]
  let ?k = "brk w" and ?F = "data_frame w ps" and ?ph = "tcp_ph ip t (brk w + 4)"
  let ?s = "data_seg t (Some (?k + 3)) (Some (Suc ?k))" and ?d = "heap_node (?k + 2) 32"
  let ?bs = "map (junk w (?k + 2)) [0..<32]"
  let ?P = "packed_heap (?k + 3) ?d (?k + 2) 0 ?bs (?k + 4)
     (ph_bytes (ip_self ip) (t_dest t) IP_PROTOCOL_TCP (of_nat (20 + length ps))) (seg_bytes (data_out w t ip ps)) ?F"
  have hd: "hdr_node ?F (?k + 3) ?d (?k + 2) 0 ?bs" by (simp add: hdr_node_def data_frame_def)
  have ph: "ph_ready ?ph (?k + 4) ?F" using C by (simp add: ph_ready_def tcp_ph_def data_frame_def)
  have pl: "payload_is ?F (Some (Suc ?k)) ps"
    using n by (simp add: payload_is_Some data_frame_def mem_simps)
  have seal: "sealed_seg ?ph ?s ps = data_out w t ip ps"
    by (simp add: data_out_def sealed_seg_def seg_csum_ph_data [of ip t "?k + 4" ?s ps 0])
  have s: "sg_raw ?s = Some (?k + 3)" "sg_options ?s = None" "sg_payload ?s = Some (Suc ?k)"
    by (simp_all add: data_seg_def tcp_segment_init_def)
  have db: "data_bufs ?F [Suc ?k] = {?k}" by (auto simp: data_bufs_def data_frame_def)
  have blk: "block ?P (Some (?k + 3)) [?k + 3] None" by (simp add: block.simps(2))
  have nd: "nodes ?P (Suc ?k) = Some (heap_node ?k (length ps))" by (simp add: data_frame_def)
  have "dblk_merge (Some (?k + 3)) (Some (Suc ?k)) ?P = Some (set_node (?k + 3)
      (?d\<lparr>d_size := 20, d_next := Some (Suc ?k), d_more := True\<rparr>)
      (set_node (Suc ?k) ((heap_node ?k (length ps))\<lparr>d_next := None\<rparr>) ?P))"
    using dblk_merge_block [OF blk nd] by simp
  moreover have "set_node (?k + 3) (?d\<lparr>d_size := 20, d_next := Some (Suc ?k), d_more := True\<rparr>)
      (set_node (Suc ?k) ((heap_node ?k (length ps))\<lparr>d_next := None\<rparr>) ?P) = data_world w t ip ps"
    by (rule tcpw.equality)
       (auto simp: data_world_def packed_heap_def data_frame_def set_node_def set_buf_def heap_node_def
        init_dblk_def fun_eq_iff)
  ultimately show ?thesis
    using tcp_pack_ready [OF hd ph _ s(1,2), of ps] pl n seal s(3) db by (simp add: tcp_ph_def)
qed


section \<open>Sending\<close>

lemma data_world_sel:
  "brk (data_world w t ip ps) = brk w + 5" "mallocs (data_world w t ip ps) = mallocs w + 5"
  "malloc_ok (data_world w t ip ps) = malloc_ok w" "ident (data_world w t ip ps) = ident w"
  "auto_header (data_world w t ip ps) = auto_header w" "ips (data_world w t ip ps) = ips w"
  "tcbs (data_world w t ip ps) = tcbs w" "tick (data_world w t ip ps) = tick w"
  by (simp_all add: data_world_def)

lemma wf_data_world: "wf_heap w \<Longrightarrow> wf_heap (data_world w t ip ps)"
  unfolding wf_heap_def data_world_def by (auto simp: less_Suc_eq intro: trans_less_add1)

lemma data_world_can_send: "can_send w t ip e \<Longrightarrow> can_send (data_world w t ip ps) t ip e"
  by (simp add: can_send_def wf_data_world data_world_sel)

lemma data_world_block:
  assumes "length ps < 1380"
  shows "block (data_world w t ip ps) (Some (brk w + 3)) [brk w + 3, Suc (brk w)] None"
    and "block_bytes (data_world w t ip ps) [brk w + 3, Suc (brk w)] = Some (seg_bytes (data_out w t ip ps) @ ps)"
  using assms take_drop_splice_at [of 0 "seg_bytes (data_out w t ip ps)" "map (junk w (brk w + 2)) [0..<32]"]
  by (simp_all add: data_world_def block.simps(2) node_bytes_def node_size_def mem_simps)

text \<open>
  \<^verbatim>\<open>dts_net_tcp_send\<close> on an established connection with nothing queued and nothing in
  flight: one segment of all the data goes to the link layer, and it stays in \<^verbatim>\<open>tx_seg\<close>.
\<close>

definition data_sent :: "'tm ext \<Rightarrow> ('tm, 'w) tcpw_scheme \<Rightarrow> 'tm tcb \<Rightarrow> tcp_segment \<Rightarrow> nat \<Rightarrow> 'tm tcb" where
  "data_sent E w t seg n = t\<lparr>tx_seg := Some seg, tmr := timer_start E (sys_tick_s w) 3 (tmr t),
     snd_nxt := snd_nxt t + of_nat n\<rparr>"

lemma data_frame_eq:
  defines "w2 w ps \<equiv> (data_copied w ps)\<lparr>mallocs := Suc (mallocs (data_copied w ps))\<rparr>"
  shows "pseudo_header_new_from_stack s d pr 0 (fresh_blk 32 (w2 w ps)) =
    (\<lparr>ph_src = s, ph_dest = d, ph_protocol = pr, ph_length = 0, ph_data = Ptr (brk w + 4) 0, ph_data_size = 12\<rparr>,
     data_frame w ps)"
    and "brk (w2 w ps) = brk w + 2" and "ips (w2 w ps) = ips w"
proof -
  have k4: "Suc (Suc (Suc (Suc k))) = k + 4" for k by simp
  have "bump (set_buf (brk (fresh_blk 32 (w2 w ps))) (fresh_bytes (fresh_blk 32 (w2 w ps)) 12) (fresh_blk 32 (w2 w ps))) =
      data_frame w ps"
    by (rule tcpw.equality)
       (auto simp: data_frame_def data_copied_def w2_def fresh_blk_def fresh_bytes_def set_node_def set_buf_def bump_def
        heap_node_def init_dblk_def fun_eq_iff k4)
  moreover have "brk (fresh_blk 32 (w2 w ps)) = brk w + 4" by (simp add: w2_def data_copied_def)
  ultimately show "pseudo_header_new_from_stack s d pr 0 (fresh_blk 32 (w2 w ps)) =
    (\<lparr>ph_src = s, ph_dest = d, ph_protocol = pr, ph_length = 0, ph_data = Ptr (brk w + 4) 0, ph_data_size = 12\<rparr>,
     data_frame w ps)"
    by (simp add: pseudo_header_new_eq)
  show "brk (w2 w ps) = brk w + 2" "ips (w2 w ps) = ips w" by (simp_all add: w2_def data_copied_def)
qed

lemma tcp_send_eq:
  assumes E: "list_laws E" and t: "tcbs w p = Some t" "t_state t = ESTABLISHED" "tx_data t = []" "tx_seg t = None"
    and cs: "can_send w t ip e" and d: "data_at w data n ps" and n: "even n" "n < 1380"
    and ok: "\<And>j. j < 7 \<Longrightarrow> malloc_ok w (mallocs w + j)"
  defines "seg \<equiv> data_out w t ip ps" and "hdr \<equiv> tcp_out_hdr w t ip (20 + n)"
  defines "D \<equiv> data_world w t ip ps"
  shows "tcp_send E ll_send p data n w = do {
    (r, g) \<leftarrow> ll_send e (sent_dg D hdr) (sent_world D (seg_bytes seg @ ps) hdr);
    (_, g) \<leftarrow> after_send D r g;
    m \<leftarrow> tcp_segment_length g seg;
    g' \<leftarrow> pop_buf (Ptr (brk w + 4) 0) g;
    Some (n, g'\<lparr>tcbs := (tcbs g')(p \<mapsto> data_sent E g t seg m)\<rparr>) }"
proof -
  note C = cs [unfolded can_send_def] and len = data_at_length [OF d]
  let ?k = "brk w"
  let ?w2 = "(data_copied w ps)\<lparr>mallocs := Suc (mallocs (data_copied w ps))\<rparr>"
  note F = data_frame_eq [where w = w and ps = ps]
  have m: "malloc_ok w (mallocs w)" "malloc_ok w (Suc (mallocs w))" "malloc_ok w (mallocs w + 2)"
    "malloc_ok w (mallocs w + 3)" "malloc_ok w (mallocs w + 4)" "malloc_ok w (mallocs w + 5)" "malloc_ok w (mallocs w + 6)"
    using ok [of 0] ok [of 1] ok [of 2] ok [of 3] ok [of 4] ok [of 5] ok [of 6] by simp_all
  have ms: "Suc (Suc (Suc j)) = j + 3" "Suc (j + 3) = j + 4" "Suc (j + 5) = j + 6" for j by simp_all
  have copied: "dblk_copy_from (Some (Suc ?k)) data n (fresh_blk n w) = Some (n, data_copied w ps)"
    unfolding data_copied_def len using d by (intro copy_from_fresh) (auto simp: data_at_def)
  have alloc: "mem_alloc_tcp_segment (data_copied w ps) = (Some tcp_segment_init, ?w2)"
    using m(3) by (simp add: mem_alloc_tcp_segment_def malloc_try_def data_copied_def)
  have hdr_blk: "dblk_node_new_with_buff 32 ?w2 = Some (Some (?k + 3), fresh_blk 32 ?w2)"
    using dblk_node_new_with_buff_ok [of ?w2 32] m(4,5) F(2) by (simp add: data_copied_def ms)
  have t1: "t\<lparr>tx_data := []\<rparr> = t" using t(3) by simp
  have sg: "(tcp_segment_init\<lparr>sg_src_port := ucast (t_port t), sg_dest_port := t_dest_port t,
        sg_seq := snd_una t, sg_ack := rcv_nxt t, sg_data_offset := 5,
        sg_flags := sg_flags tcp_segment_init OR SEG_FLAG_ACK, sg_win := rcv_wnd t, sg_payload := Some (Suc ?k)\<rparr>)
      \<lparr>sg_raw := Some (?k + 3)\<rparr> = data_seg t (Some (?k + 3)) (Some (Suc ?k))"
    by (simp add: data_seg_def tcp_segment_init_def)
  have raw: "sg_raw seg = Some (?k + 3)" by (simp add: seg_def data_out_def data_seg_def)
  have hdr': "tcp_out_hdr D t ip (length (seg_bytes seg @ ps)) = hdr"
    by (simp add: tcp_out_hdr_def hdr_def D_def data_world_sel len)
  have send: "tcp_ip_send ll_send t seg D = do {
      (r, g) \<leftarrow> ll_send e (sent_dg D hdr) (sent_world D (seg_bytes seg @ ps) hdr);
      after_send D r g }"
    using tcp_ip_send_eq [OF data_world_can_send [OF cs], where seg = seg and as = "[?k + 3, Suc ?k]" and q = None
        and bs = "seg_bytes seg @ ps" and ll_send = ll_send]
      data_world_block [of ps w t ip] n len m(6,7) raw hdr'
    by (simp add: D_def seg_def data_world_sel ms)
  have "tcp_construct_data E ll_send (t\<lparr>tx_data := [Suc ?k]\<rparr>) (data_copied w ps) = do {
      (_, g) \<leftarrow> tcp_ip_send ll_send t seg D;
      m \<leftarrow> tcp_segment_length g seg;
      g' \<leftarrow> pop_buf (Ptr (?k + 4) 0) g;
      Some (data_sent E g t seg m, g') }"
    using E t(4) C alloc hdr_blk F(1,3) data_pack [OF cs, of ps] n len sg t1
    by (simp add: tcp_construct_data_def tcp_pack_new_def list_laws_def tcp_ph_def D_def seg_def data_sent_def
        Let_def bind_assoc case_prod_beta')
  then show ?thesis
    using E t copied dblk_node_new_with_buff_ok [OF m(1,2), of n] send
    by (simp add: tcp_send_def send_when_established_def list_laws_def bind_assoc case_prod_beta')
qed

section \<open>What stays in flight\<close>

text \<open>The segment \<open>seg\<close> of connection \<open>p\<close> waits for its acknowledgment, with the bytes \<open>bs\<close>.\<close>

definition in_flight :: "('tm, 'w) tcpw_scheme \<Rightarrow> addr \<Rightarrow> tcp_segment \<Rightarrow> u8 list \<Rightarrow> bool" where
  "in_flight w p seg bs \<longleftrightarrow> (\<exists>t. tcbs w p = Some t \<and> tx_seg t = Some seg) \<and>
     (\<exists>as. block w (sg_raw seg) as None \<and> block_bytes w as = Some bs)"

lemma in_flight_upd:
  assumes "in_flight w p seg bs" "tcbs w p = Some t" "tx_seg t' = tx_seg t"
  shows "in_flight (w\<lparr>tcbs := (tcbs w)(p \<mapsto> t')\<rparr>) p seg bs"
proof -
  have "block (w\<lparr>tcbs := c\<rparr>) q as r = block w q as r" for q as r c
    by (rule block_cong) simp
  moreover have "block_bytes (w\<lparr>tcbs := c\<rparr>) as = block_bytes w as" for as c
    by (rule block_bytes_frame) simp_all
  ultimately show ?thesis using assms by (auto simp: in_flight_def)
qed

section \<open>Under the contract of the link layer\<close>

lemma data_sg_payload: "sg_payload (data_out w t ip ps) = Some (Suc (brk w))" "sg_raw (data_out w t ip ps) = Some (brk w + 3)"
  "sg_flags (data_out w t ip ps) = SEG_FLAG_ACK"
  by (simp_all add: data_out_def data_seg_def)

lemma data_out_length:
  assumes "nodes g (Suc (brk w)) = Some (heap_node (brk w) n)" "n < 65536"
  shows "tcp_segment_length g (data_out w t ip ps) = Some n"
proof -
  have "dblk_size g (Some (Suc (brk w))) = Some n"
    using assms by (simp add: dblk_size_node node_size_def)
  then show ?thesis
    by (simp add: tcp_segment_length_def data_sg_payload seg_ctrl_defs seg_flag_defs)
qed

text \<open>If the call of the link layer keeps its contract, the segment is in flight afterwards.\<close>

lemma tcp_send_after:
  assumes E: "list_laws E" and t: "tcbs w p = Some t" "t_state t = ESTABLISHED" "tx_data t = []" "tx_seg t = None"
    and cs: "can_send w t ip e" and d: "data_at w data n ps" and n: "even n" "n < 1380"
    and ok: "\<And>j. j < 7 \<Longrightarrow> malloc_ok w (mallocs w + j)"
  defines "seg \<equiv> data_out w t ip ps" and "hdr \<equiv> tcp_out_hdr w t ip (20 + n)"
  defines "D \<equiv> data_world w t ip ps"
  assumes ll: "ll_send e (sent_dg D hdr) (sent_world D (seg_bytes seg @ ps) hdr) = Some (r, g)"
    and k: "link_keeps [Suc (Suc (Suc (brk D))), Suc (brk D)] r (sent_world D (seg_bytes seg @ ps) hdr) g"
  shows "\<exists>w'. tcp_send E ll_send p data n w = Some (n, w') \<and> tcbs w' = (tcbs w)(p \<mapsto> data_sent E w t seg n) \<and>
    in_flight w' p seg (seg_bytes seg @ ps) \<and> (\<forall>a < brk w. nodes w' a = nodes w a \<and> bufs w' a = bufs w a) \<and>
    wire w' = wire g"
proof -
  note len = data_at_length [OF d]
  obtain g1 where g1: "after_send D r g = Some (r \<noteq> 0, g1)" "clean D g1"
    using after_send_clean [OF k] by blast
  have D: "brk D = brk w + 5" by (simp add: D_def data_world_sel)
  have nd: "nodes g1 a = nodes D a" and bf: "bufs g1 a = bufs D a" if "a < brk w + 5" for a
    using g1(2) that by (auto simp: clean_def D)
  have sc: "tcbs g1 = tcbs w" "second g1 = second w"
    using g1(2) by (auto simp: clean_def same_conns_def D_def data_world_def)
  have "tcp_segment_length g1 seg = Some n"
    unfolding seg_def using nd [of "Suc (brk w)"] n len
    by (intro data_out_length) (simp_all add: D_def data_world_def)
  moreover have "pop_buf (Ptr (brk w + 4) 0) g1 = Some (del_buf (brk w + 4) g1)"
    using bf [of "brk w + 4"] by (simp add: pop_buf_def D_def data_world_def)
  moreover have "data_sent E g1 t seg n = data_sent E w t seg n"
    using sc by (simp add: data_sent_def sys_tick_s_def)
  ultimately have run: "tcp_send E ll_send p data n w =
      Some (n, (del_buf (brk w + 4) g1)\<lparr>tcbs := (tcbs w)(p \<mapsto> data_sent E w t seg n)\<rparr>)"
    using tcp_send_eq [OF E t cs d n ok, of ll_send] ll g1(1) sc
    by (simp add: D_def seg_def hdr_def del_buf_def)
  let ?g = "(del_buf (brk w + 4) g1)\<lparr>tcbs := (tcbs w)(p \<mapsto> data_sent E w t seg n)\<rparr>"
  have blk: "block ?g (sg_raw seg) [brk w + 3, Suc (brk w)] None"
    using nd [of "brk w + 3"] nd [of "Suc (brk w)"]
    by (simp add: seg_def data_sg_payload block.simps(2) D_def data_world_def)
  have bytes: "block_bytes ?g [brk w + 3, Suc (brk w)] = Some (seg_bytes seg @ ps)"
  proof -
    have "block_bytes ?g [brk w + 3, Suc (brk w)] = block_bytes D [brk w + 3, Suc (brk w)]"
      using nd bf by (intro block_bytes_frame) (auto simp: data_bufs_def D_def data_world_def)
    also have "\<dots> = Some (seg_bytes seg @ ps)"
      unfolding D_def seg_def using n len by (intro data_world_block(2)) simp
    finally show ?thesis .
  qed
  have "in_flight ?g p seg (seg_bytes seg @ ps)"
    using blk bytes by (auto simp: in_flight_def data_sent_def)
  moreover have "nodes ?g a = nodes w a \<and> bufs ?g a = bufs w a" if "a < brk w" for a
    using nd [of a] bf [of a] that by (simp add: D_def data_world_def)
  ultimately show ?thesis using run after_send_wire [OF g1(1)] by (intro exI [of _ ?g]) simp
qed

section \<open>Retransmission\<close>

lemma block_nodes_same:
  "block h p as q \<Longrightarrow> (\<And>a. a \<in> set as \<Longrightarrow> nodes h' a = nodes h a) \<Longrightarrow> block h' p as q"
  by (induction as arbitrary: p) (auto simp: block.simps(2) split: option.splits if_splits)

lemma in_flight_clean:
  assumes "in_flight w p seg bs" "clean w g" "wf_heap w"
  shows "in_flight g p seg bs"
proof -
  obtain as where as: "block w (sg_raw seg) as None" "block_bytes w as = Some bs"
    using assms(1) by (auto simp: in_flight_def)
  have nd: "nodes g a = nodes w a" if "a \<in> set as" for a
    using wf_heap_block [OF assms(3) as(1) that] assms(2) by (simp add: clean_def)
  have bf: "bufs g b = bufs w b" if "b \<in> data_bufs w as" for b
    using wf_heap_data_bufs [OF assms(3) that] assms(2) by (simp add: clean_def)
  have "block g (sg_raw seg) as None" by (rule block_nodes_same [OF as(1) nd])
  moreover have "block_bytes g as = Some bs" using block_bytes_frame [of as g w] nd bf as(2) by simp
  ultimately show ?thesis using assms(1,2) by (auto simp: in_flight_def clean_def same_conns_def)
qed

text \<open>The states in which the timer sends the segment in flight again.\<close>

definition retransmits :: "tcp_state \<Rightarrow> bool" where
  "retransmits s \<longleftrightarrow> s \<in> {SYN_SENT, FIN_WAIT_1, LAST_ACK, ESTABLISHED}"

definition timed_out :: "'tm ext \<Rightarrow> ('tm, 'w) tcpw_scheme \<Rightarrow> 'tm tcb \<Rightarrow> 'tm tcb" where
  "timed_out E w t = t\<lparr>tmr := timer_start E (sys_tick_s w) 5 (timer_stop E (tmr t))\<rparr>"

lemma loop_one_retransmits:
  assumes t: "tcbs w p = Some t" "retransmits (t_state t)" "timer_expired E (sys_tick_s w) (tmr t)"
    and fl: "in_flight w p seg bs" "length bs < 1400" and cs: "can_send w t ip e"
    and ok: "malloc_ok w (mallocs w)" "malloc_ok w (Suc (mallocs w))"
  defines "hdr \<equiv> tcp_out_hdr w t ip (length bs)"
  shows "loop_one E ll_send p w = do {
    (r, g) \<leftarrow> ll_send e (sent_dg w hdr) (sent_world w bs hdr);
    (_, g) \<leftarrow> after_send w r g;
    Some (g\<lparr>tcbs := (tcbs g)(p \<mapsto> timed_out E g t)\<rparr>) }"
proof -
  obtain as where as: "block w (sg_raw seg) as None" "block_bytes w as = Some bs"
    and tx: "tx_seg t = Some seg" using fl(1) t(1) by (auto simp: in_flight_def)
  let ?t = "t\<lparr>tmr := timer_stop E (tmr t)\<rparr>"
  have cs': "can_send w ?t ip e" using cs by (simp add: can_send_def)
  have hdr': "tcp_out_hdr w ?t ip (length bs) = hdr" by (simp add: hdr_def tcp_out_hdr_def)
  have "tcp_timeout E ll_send ?t w = tcp_retransmit E ll_send ?t w" "t_state t \<noteq> CLOSED"
    using t(2) by (auto simp: tcp_timeout_def retransmits_def)
  moreover have "tcp_retransmit E ll_send ?t w = do {
      (r, g) \<leftarrow> ll_send e (sent_dg w hdr) (sent_world w bs hdr);
      (_, g) \<leftarrow> after_send w r g;
      Some (timed_out E g t, g) }"
    using tcp_ip_send_eq [OF cs' as fl(2) ok, of ll_send] tx hdr'
    by (simp add: tcp_retransmit_def timed_out_def bind_assoc case_prod_beta')
  ultimately show ?thesis
    using t(1,3) by (simp add: loop_one_def bind_assoc case_prod_beta' timed_out_def)
qed

lemma loop_one_after:
  assumes t: "tcbs w p = Some t" "retransmits (t_state t)" "timer_expired E (sys_tick_s w) (tmr t)"
    and fl: "in_flight w p seg bs" "length bs < 1400" and cs: "can_send w t ip e"
    and ok: "malloc_ok w (mallocs w)" "malloc_ok w (Suc (mallocs w))"
  defines "hdr \<equiv> tcp_out_hdr w t ip (length bs)"
  assumes ll: "ll_send e (sent_dg w hdr) (sent_world w bs hdr) = Some (r, g)"
    and k: "link_keeps [Suc (Suc (Suc (brk w))), Suc (brk w)] r (sent_world w bs hdr) g"
  shows "\<exists>w'. loop_one E ll_send p w = Some w' \<and> tcbs w' = (tcbs w)(p \<mapsto> timed_out E w t) \<and> in_flight w' p seg bs \<and>
    wire w' = wire g"
proof -
  obtain g1 where g1: "after_send w r g = Some (r \<noteq> 0, g1)" "clean w g1"
    using after_send_clean [OF k] by blast
  have sc: "tcbs g1 = tcbs w" "second g1 = second w"
    using g1(2) by (auto simp: clean_def same_conns_def)
  then have "timed_out E g1 t = timed_out E w t" by (simp add: timed_out_def sys_tick_s_def)
  then have "loop_one E ll_send p w = Some (g1\<lparr>tcbs := (tcbs w)(p \<mapsto> timed_out E w t)\<rparr>)"
    using loop_one_retransmits [OF t fl cs ok, of ll_send] ll g1(1) sc by (simp add: hdr_def)
  moreover have "in_flight g1 p seg bs"
    using in_flight_clean [OF fl(1) g1(2)] cs by (simp add: can_send_def)
  then have "in_flight (g1\<lparr>tcbs := (tcbs g1)(p \<mapsto> timed_out E w t)\<rparr>) p seg bs"
    by (rule in_flight_upd) (use t(1) sc in \<open>simp_all add: timed_out_def\<close>)
  ultimately show ?thesis using sc(1) after_send_wire [OF g1(1)] by auto
qed

section \<open>Over Ethernet\<close>

text \<open>The frame of a segment with bytes \<open>bs\<close>.\<close>

definition tcp_frame :: "('tm, 'w) tcpw_scheme \<Rightarrow> 'tm tcb \<Rightarrow> ip \<Rightarrow> ether \<Rightarrow> u8 list \<Rightarrow> u8 list \<Rightarrow> u8 list" where
  "tcp_frame w t ip dv mac bs = frame_hdr mac (mac_address dv) ETHER_TYPE_IP @
     hdr_bytes (tcp_out_hdr w t ip (length bs)) @ bs"

lemma sent_over_ethernet:
  assumes cs: "can_send w t ip e" and n: "length bs < 1400"
    and up: "ether_up E e w" "eths w e = Some dv" and mac: "link_addr w (t_dest t) mac"
  defines "hdr \<equiv> tcp_out_hdr w t ip (length bs)"
  shows "accepts drv (e_interface dv) (tcp_frame w t ip dv mac bs) \<Longrightarrow>
      \<exists>r g. ip_ether_send E drv e (sent_dg w hdr) (sent_world w bs hdr) = Some (r, g) \<and>
        link_keeps [Suc (Suc (Suc (brk w))), Suc (brk w)] r (sent_world w bs hdr) g \<and>
        (malloc_ok w (mallocs w + 2) \<longrightarrow> frame_given drv (e_interface dv) (tcp_frame w t ip dv mac bs) w g)"
    and "rejects drv (e_interface dv) (tcp_frame w t ip dv mac bs) \<Longrightarrow> malloc_ok w (mallocs w + 2) \<Longrightarrow>
      ip_ether_send E drv e (sent_dg w hdr) (sent_world w bs hdr) = None"
proof -
  let ?W = "sent_world w bs hdr"
  have wf: "wf_heap ?W" using cs by (intro wf_sent_world) (simp add: can_send_def)
  note wire = sent_world_wire [OF cs n, folded hdr_def]
  have len: "length (hdr_bytes hdr @ bs) \<le> 1500"
    using length_ip_packet [OF tcp_out_hdr_plain [OF cs]] n by (simp add: hdr_def)
  have up': "ether_up E e ?W" by (subst sent_world_heap) (rule ether_up_heap [OF up(1)])
  have eth: "eths ?W e = Some dv" using up(2) by (subst sent_world_heap) simp
  have "h_dest (dg_header (sent_dg w hdr)) = t_dest t"
    by (simp add: sent_dg_def hdr_def tcp_out_hdr_def out_hdr_def tcp_header_def)
  then have mac': "link_addr ?W (h_dest (dg_header (sent_dg w hdr))) mac"
    using mac by (subst sent_world_heap, subst link_addr_heap) simp
  have ok: "malloc_ok ?W (mallocs ?W) = malloc_ok w (mallocs w + 2)" by (simp add: sent_world_def)
  show "\<exists>r g. ip_ether_send E drv e (sent_dg w hdr) ?W = Some (r, g) \<and>
        link_keeps [Suc (Suc (Suc (brk w))), Suc (brk w)] r ?W g \<and>
        (malloc_ok w (mallocs w + 2) \<longrightarrow> frame_given drv (e_interface dv) (tcp_frame w t ip dv mac bs) w g)"
    if acc: "accepts drv (e_interface dv) (tcp_frame w t ip dv mac bs)"
  proof -
    have "wire ?W = wire w" by (subst sent_world_heap) simp
    then show ?thesis
      using ip_ether_send_known [OF up' wf eth wire len sent_world_deletable mac' acc [unfolded tcp_frame_def, folded hdr_def]]
      unfolding ok tcp_frame_def hdr_def [symmetric] frame_given_def by simp
  qed
  show "ip_ether_send E drv e (sent_dg w hdr) ?W = None"
    if rej: "rejects drv (e_interface dv) (tcp_frame w t ip dv mac bs)" and "malloc_ok w (mallocs w + 2)"
    using ip_ether_send_rejected [OF up' wf eth wire len mac' _ rej [unfolded tcp_frame_def, folded hdr_def]] ok that(2)
    by simp
qed

lemma data_world_heap:
  "data_world w t ip ps = w\<lparr>bufs := bufs (data_world w t ip ps), nodes := nodes (data_world w t ip ps),
     brk := brk w + 5, mallocs := mallocs w + 5, ident := ident w, wire := wire w\<rparr>"
  by (simp add: data_world_def)

lemma tcp_send_over_ethernet:
  assumes E: "list_laws E" and t: "tcbs w p = Some t" "t_state t = ESTABLISHED" "tx_data t = []" "tx_seg t = None"
    and cs: "can_send w t ip e" and d: "data_at w data n ps" and n: "even n" "n < 1380"
    and ok: "\<And>j. j < 8 \<Longrightarrow> malloc_ok w (mallocs w + j)"
    and up: "ether_up E e w" "eths w e = Some dv" and mac: "link_addr w (t_dest t) mac"
  defines "seg \<equiv> data_out w t ip ps"
  shows "accepts drv (e_interface dv) (tcp_frame w t ip dv mac (seg_bytes seg @ ps)) \<Longrightarrow>
      \<exists>g. tcp_send E (ip_ether_send E drv) p data n w = Some (n, g) \<and>
        tcbs g = (tcbs w)(p \<mapsto> data_sent E w t seg n) \<and> in_flight g p seg (seg_bytes seg @ ps) \<and>
        (\<forall>a < brk w. nodes g a = nodes w a \<and> bufs g a = bufs w a) \<and>
        frame_given drv (e_interface dv) (tcp_frame w t ip dv mac (seg_bytes seg @ ps)) w g"
    and "rejects drv (e_interface dv) (tcp_frame w t ip dv mac (seg_bytes seg @ ps)) \<Longrightarrow>
      tcp_send E (ip_ether_send E drv) p data n w = None"
proof -
  let ?D = "data_world w t ip ps" and ?bs = "seg_bytes seg @ ps"
  note len = data_at_length [OF d]
  have len': "length ?bs = 20 + n" "length ?bs < 1400" using len n by simp_all
  have csD: "can_send ?D t ip e" by (rule data_world_can_send [OF cs])
  have upD: "ether_up E e ?D" by (subst data_world_heap) (rule ether_up_heap [OF up(1)])
  have eth: "eths ?D e = Some dv" using up(2) by (simp add: data_world_def)
  have macD: "link_addr ?D (t_dest t) mac" using mac by (subst data_world_heap, subst link_addr_heap)
  have hdr: "tcp_out_hdr ?D t ip (length ?bs) = tcp_out_hdr w t ip (20 + n)"
    by (simp add: tcp_out_hdr_def data_world_sel len)
  have fr: "tcp_frame ?D t ip dv mac ?bs = tcp_frame w t ip dv mac ?bs"
    by (simp add: tcp_frame_def tcp_out_hdr_def data_world_sel)
  note S = sent_over_ethernet [OF csD len'(2) upD eth macD, unfolded hdr fr]
  have ok7: "malloc_ok w (mallocs w + j)" if "j < 7" for j using ok that by simp
  have ok8: "malloc_ok ?D (mallocs ?D + 2)" using ok [of 7] by (simp add: data_world_sel add.commute)
  show "\<exists>g. tcp_send E (ip_ether_send E drv) p data n w = Some (n, g) \<and>
        tcbs g = (tcbs w)(p \<mapsto> data_sent E w t seg n) \<and> in_flight g p seg ?bs \<and>
        (\<forall>a < brk w. nodes g a = nodes w a \<and> bufs g a = bufs w a) \<and>
        frame_given drv (e_interface dv) (tcp_frame w t ip dv mac ?bs) w g"
    if acc: "accepts drv (e_interface dv) (tcp_frame w t ip dv mac ?bs)"
  proof -
    have "wire ?D = wire w" by (subst data_world_heap) simp
    then obtain r g where "ip_ether_send E drv e (sent_dg ?D (tcp_out_hdr w t ip (20 + n)))
        (sent_world ?D ?bs (tcp_out_hdr w t ip (20 + n))) = Some (r, g)"
      "link_keeps [Suc (Suc (Suc (brk ?D))), Suc (brk ?D)] r (sent_world ?D ?bs (tcp_out_hdr w t ip (20 + n))) g"
      and gv: "frame_given drv (e_interface dv) (tcp_frame w t ip dv mac ?bs) w g"
      using S(1) [OF acc] ok8 by (auto simp: frame_given_def)
    then obtain w' where "tcp_send E (ip_ether_send E drv) p data n w = Some (n, w')"
      "tcbs w' = (tcbs w)(p \<mapsto> data_sent E w t seg n)" "in_flight w' p seg ?bs"
      "\<forall>a < brk w. nodes w' a = nodes w a \<and> bufs w' a = bufs w a" "wire w' = wire g"
      using tcp_send_after [OF E t cs d n ok7] unfolding seg_def by blast
    then show ?thesis using gv by (auto simp: frame_given_def)
  qed
  show "tcp_send E (ip_ether_send E drv) p data n w = None"
    if "rejects drv (e_interface dv) (tcp_frame w t ip dv mac ?bs)"
    using S(2) [OF that ok8] tcp_send_eq [OF E t cs d n ok7, of "ip_ether_send E drv"] by (simp add: seg_def)
qed

lemma loop_one_over_ethernet:
  assumes t: "tcbs w p = Some t" "retransmits (t_state t)" "timer_expired E (sys_tick_s w) (tmr t)"
    and fl: "in_flight w p seg bs" "length bs < 1400" and cs: "can_send w t ip e"
    and ok: "\<And>j. j < 3 \<Longrightarrow> malloc_ok w (mallocs w + j)"
    and up: "ether_up E e w" "eths w e = Some dv" and mac: "link_addr w (t_dest t) mac"
  shows "accepts drv (e_interface dv) (tcp_frame w t ip dv mac bs) \<Longrightarrow>
      \<exists>g. loop_one E (ip_ether_send E drv) p w = Some g \<and> tcbs g = (tcbs w)(p \<mapsto> timed_out E w t) \<and>
        in_flight g p seg bs \<and> frame_given drv (e_interface dv) (tcp_frame w t ip dv mac bs) w g"
    and "rejects drv (e_interface dv) (tcp_frame w t ip dv mac bs) \<Longrightarrow>
      loop_one E (ip_ether_send E drv) p w = None"
proof -
  note S = sent_over_ethernet [OF cs fl(2) up mac]
  have ok2: "malloc_ok w (mallocs w)" "malloc_ok w (Suc (mallocs w))" "malloc_ok w (mallocs w + 2)"
    using ok [of 0] ok [of 1] ok [of 2] by simp_all
  show "\<exists>g. loop_one E (ip_ether_send E drv) p w = Some g \<and> tcbs g = (tcbs w)(p \<mapsto> timed_out E w t) \<and>
        in_flight g p seg bs \<and> frame_given drv (e_interface dv) (tcp_frame w t ip dv mac bs) w g"
    if acc: "accepts drv (e_interface dv) (tcp_frame w t ip dv mac bs)"
  proof -
    let ?hdr = "tcp_out_hdr w t ip (length bs)"
    obtain r g where "ip_ether_send E drv e (sent_dg w ?hdr) (sent_world w bs ?hdr) = Some (r, g)"
      "link_keeps [Suc (Suc (Suc (brk w))), Suc (brk w)] r (sent_world w bs ?hdr) g"
      and gv: "frame_given drv (e_interface dv) (tcp_frame w t ip dv mac bs) w g"
      using S(1) [OF acc] ok2(3) by blast
    then obtain w' where "loop_one E (ip_ether_send E drv) p w = Some w'" "tcbs w' = (tcbs w)(p \<mapsto> timed_out E w t)"
      "in_flight w' p seg bs" "wire w' = wire g"
      using loop_one_after [OF t fl cs ok2(1,2)] by blast
    then show ?thesis using gv by (auto simp: frame_given_def)
  qed
  show "loop_one E (ip_ether_send E drv) p w = None"
    if "rejects drv (e_interface dv) (tcp_frame w t ip dv mac bs)"
    using S(2) [OF that ok2(3)] loop_one_retransmits [OF t fl cs ok2(1,2), of "ip_ether_send E drv"] by simp
qed

end
