(* ===== verification/Ip_Path.thy ===== *)
theory Ip_Path
  imports Ip_Recv Link_Layer
begin

text \<open>
  A packet that arrives: what it is in memory, and \<^verbatim>\<open>ip_ll_recv\<close> as an equation that
  leaves the handler of its protocol, on the payload, to be evaluated.
\<close>

section \<open>A packet in memory\<close>

text \<open>The bytes \<open>xs\<close> at offset \<open>i\<close> of the buffer \<open>b\<close>.\<close>

definition held :: "'w heap_scheme \<Rightarrow> addr \<Rightarrow> nat \<Rightarrow> u8 list \<Rightarrow> bool" where
  "held h b i xs \<longleftrightarrow> (\<exists>bs. bufs h b = Some bs \<and> i + length xs \<le> length bs \<and> take (length xs) (drop i bs) = xs)"

lemma held_read: "held h b i xs \<Longrightarrow> mem_read h (Ptr b i) (length xs) = Some xs"
  by (auto simp: held_def mem_simps)

lemma held_append: "held h b i (xs @ ys) \<longleftrightarrow> held h b i xs \<and> held h b (i + length xs) ys"
proof -
  have "take (length (xs @ ys)) (drop i bs) = xs @ ys \<longleftrightarrow>
      take (length xs) (drop i bs) = xs \<and> take (length ys) (drop (i + length xs) bs) = ys"
    if "i + length xs \<le> length bs" for bs :: "u8 list"
    using that by (simp add: take_add append_eq_append_conv add.commute)
  then show ?thesis by (fastforce simp: held_def)
qed

section \<open>IP\<close>

text \<open>A packet that \<^verbatim>\<open>ip_ll_recv\<close> gets in the node \<open>a\<close>: header \<open>hdr\<close>, payload \<open>ps\<close>, maybe padding.\<close>

definition ip_arrived :: "'w heap_scheme \<Rightarrow> addr \<Rightarrow> addr \<Rightarrow> nat \<Rightarrow> ip_header \<Rightarrow> u8 list \<Rightarrow> bool" where
  "ip_arrived w a b i hdr ps \<longleftrightarrow> plain_hdr hdr \<and> unat (h_total_length hdr) = 20 + length ps \<and>
     (\<exists>d. nodes w a = Some d \<and> d_data d = Ptr b i \<and> 20 \<le> d_size d) \<and> held w b i (hdr_bytes hdr @ ps)"

definition ip_rx :: "addr \<Rightarrow> nat \<Rightarrow> u8 list \<Rightarrow> 'w heap_scheme \<Rightarrow> 'w heap_scheme" where
  "ip_rx b i ps w = bump (set_node (brk w) (init_dblk (Ptr b (i + 20)) (length ps)) w)"

lemma ip_ll_recv_eq:
  assumes p: "ip_arrived w a b i hdr ps" and a: "a < brk w" and r: "dg_raw dg = Some a"
  shows "ip_ll_recv E ll_send call n dg w = do {
      w' \<leftarrow> ip_dispatch E ll_send call n
        (read_back (dg\<lparr>dg_payload := Some (brk w)\<rparr>) hdr (d_size (the (nodes w a)))) (ip_rx b i ps w);
      pop_node (Some (brk w)) w' }"
proof -
  obtain d where d: "nodes w a = Some d" "d_data d = Ptr b i" "20 \<le> d_size d"
    and plain: "plain_hdr hdr" and len: "unat (h_total_length hdr) = 20 + length ps"
    and h: "held w b i (hdr_bytes hdr)"
    using p by (auto simp: ip_arrived_def held_append)
  let ?w = "bump (set_node (brk w) (init_dblk Null 0) w)"
  have "mem_read ?w (Ptr b i) 20 = Some (hdr_bytes hdr)"
    using held_read [OF h] plain by (simp add: mem_read_def)
  then have u: "ip_header_unpack (dg\<lparr>dg_payload := Some (brk w)\<rparr>) ?w =
      Some (True, read_back (dg\<lparr>dg_payload := Some (brk w)\<rparr>) hdr (d_size d))"
    using d a r plain by (intro ip_header_unpack_packed) simp_all
  have small: "20 + length ps < 65536"
    using len unat_u16_less [of "h_total_length hdr"] by simp
  then have sz: "u16_of (size_sub (unat (h_total_length hdr)) 20) = length ps" using len by simp
  have ih: "h_ihl (dg_header (read_back x hdr k)) = 5" "dg_raw (read_back x hdr k) = dg_raw x"
    "h_total_length (dg_header (read_back x hdr k)) = h_total_length hdr" for x k
    by (simp_all add: read_back_def)
  have st: "set_node (brk w) ((init_dblk Null 0)\<lparr>d_data := Ptr b (i + 20), d_size := length ps\<rparr>)
      (bump w) = ip_rx b i ps w"
    using small by (simp add: ip_rx_def init_dblk_def)
  show ?thesis
    using u d a r sz ih st
    by (simp add: ip_ll_recv_def dblk_node_new_from_stack_def new_node_def Let_def)
qed


lemma ip_rx_sel [simp]:
  "nodes (ip_rx b i ps w) = (nodes w)(brk w \<mapsto> init_dblk (Ptr b (i + 20)) (length ps))"
  "bufs (ip_rx b i ps w) = bufs w" "brk (ip_rx b i ps w) = Suc (brk w)"
  by (simp_all add: ip_rx_def)

lemma wf_ip_rx: "wf_heap w \<Longrightarrow> b < brk w \<Longrightarrow> wf_heap (ip_rx b i ps w)"
  unfolding wf_heap_def by (auto simp: less_Suc_eq)

text \<open>The datagram object of the link layer: it names the packet, the rest is as initialised.\<close>

definition rx_dg :: "ip_datagram \<Rightarrow> addr \<Rightarrow> bool" where
  "rx_dg dg a \<longleftrightarrow> dg_raw dg = Some a \<and> length (ip_mask (h_src (dg_header dg))) = 4 \<and>
     length (ip_mask (h_dest (dg_header dg))) = 4 \<and> h_option_size (dg_header dg) = 0"

end
