(* ===== verification/Udp_Path.thy ===== *)
theory Udp_Path
  imports Ip_Path Udp_Wire Socket_Behaviour
begin

text \<open>
  The receiving path of a UDP datagram, from the packet an interface gets to the callback
  of the port and, for a socket, to the buffer of \<^verbatim>\<open>recvfrom\<close>: what each layer does, as an
  equation, and their composition.
\<close>

section \<open>UDP\<close>

text \<open>
  While the callback runs, the node at the first unused address is the payload, and the
  checksum in the packet is zeroed.
\<close>

definition udp_rx :: "addr \<Rightarrow> nat \<Rightarrow> nat \<Rightarrow> 'w heap_scheme \<Rightarrow> 'w heap_scheme" where
  "udp_rx b i n w = w\<lparr>bufs := (bufs w)(b \<mapsto> splice_at (the (bufs w b)) (i + 6) [0, 0]),
     nodes := (nodes w)(brk w \<mapsto> init_dblk (Ptr b (i + 8)) n), brk := brk w + 2\<rparr>"

lemma udp_csum_ph:
  "udp_csum \<lparr>ph_src = s, ph_dest = d, ph_protocol = IP_PROTOCOL_UDP, ph_length = l, ph_data = p, ph_data_size = m\<rparr> =
   udp_csum (udp_ph s d)"
  by (intro ext) (simp add: udp_csum_def udp_ph_def)

lemma udp_ip_recv_eq:
  fixes w :: "'w udpw_scheme"
  assumes pl: "dg_payload dg = Some a" "nodes w a = Some d" "d_data d = Ptr b i" "d_size d = 8 + length ps"
    and h: "held w b i (udp_hdr s t len c @ ps)" and ev: "even (length ps)" "length ps < 65528"
    and wf: "wf_heap w" and adr: "wf_addr (h_src (dg_header dg))" "wf_addr (h_dest (dg_header dg))"
    and pr: "h_protocol (dg_header dg) = IP_PROTOCOL_UDP"
  defines "ok \<equiv> c = udp_csum (udp_ph (h_src (dg_header dg)) (h_dest (dg_header dg))) s t len ps"
  defines "ud \<equiv> \<lparr>ud_src_port = s, ud_dest_port = t, ud_length = len, ud_checksum = c,
     ud_payload = Some (brk w), ud_raw = Some a\<rparr>"
  shows "udp_ip_recv E call n dg w = do {
      let g = udp_rx b i (size_sub (unat len) 8) w;
      g \<leftarrow> (if ok then udp_deliver E call n ud g else Some g);
      g \<leftarrow> pop_node (Some (brk w)) g;
      Some (ok, g) }"
proof -
  obtain bs where bs: "bufs w b = Some bs" "i + (8 + length ps) \<le> length bs"
    "take (8 + length ps) (drop i bs) = udp_hdr s t len c @ ps"
    using h by (auto simp: held_def)
  let ?k = "brk w"
  have ab: "a < ?k" "b < ?k" using wf_heap_node [OF wf pl(2)] wf_heap_buf [OF wf bs(1)] .
  let ?w1 = "bump (set_node ?k (init_dblk Null 0) w)"
  let ?w2 = "bump (set_buf (Suc ?k) (fresh_bytes ?w1 12) ?w1)"
  let ?ph = "\<lparr>ph_src = h_src (dg_header dg), ph_dest = h_dest (dg_header dg), ph_protocol = IP_PROTOCOL_UDP,
     ph_length = 0, ph_data = Ptr (Suc ?k) 0, ph_data_size = 12\<rparr>"
  let ?ud = "\<lparr>ud_src_port = 0, ud_dest_port = 0, ud_length = 0, ud_checksum = 0,
        ud_payload = Some ?k, ud_raw = Some a\<rparr>"
  let ?u = "udp_unpacked_heap ?k (init_dblk Null 0) b i bs (Suc ?k)
     (ph_bytes (h_src (dg_header dg)) (h_dest (dg_header dg)) IP_PROTOCOL_UDP len) len ?w2"
  have unpack: "udp_unpack ?ud ?ph ?w2 = Some (ok, ud, ?u)"
    using udp_unpack_eq [of ?w2 a d b i ps bs s t len c ?ph "Suc ?k" ?ud ?k "init_dblk Null 0"]
      pl bs ev adr ab by (simp add: ph_ready_def udp_csum_ph ok_def ud_def)
  have pop: "pop_buf (Ptr (Suc ?k) 0) ?u = Some (udp_rx b i (size_sub (unat len) 8) w)"
    using ab bs wf_heap_fresh [OF wf, of "Suc ?k"]
    by (simp add: pop_buf_def udp_unpacked_heap_def udp_rx_def init_dblk_def set_node_def set_buf_def bump_def
        del_buf_def fun_upd_twist fun_upd_idem)
  show ?thesis
    using unpack pop pr pl(1)
    by (simp add: udp_ip_recv_def dblk_node_new_from_stack_def new_node_def pseudo_header_new_eq Let_def
        del: heap_field_commute)
qed


text \<open>What \<^verbatim>\<open>udp_ip_recv\<close> does with a correct datagram depends on the table of ports.\<close>

lemma find_udp_first:
  assumes "list_laws E" "\<And>p. p \<in> set (udp_list w) \<Longrightarrow> udps w p \<noteq> None"
  shows "find_udp_by_addr E ip port w = Some (find (bound_to (udps w) ip port) (udp_list w))"
  using assms find_udp_loop_find [of "udp_list w" "udps w"] by (simp add: find_udp_by_addr_def list_laws_def)

lemma udp_rx_tables [simp]:
  fixes w :: "'w udpw_scheme"
  shows "udps (udp_rx b i n w) = udps w" "udp_list (udp_rx b i n w) = udp_list w"
    "udps (ip_rx b i ps w) = udps w" "udp_list (ip_rx b i ps w) = udp_list w"
  by (simp_all add: udp_rx_def ip_rx_def set_node_def bump_def)

lemma find_udp_rx:
  fixes w :: "'w udpw_scheme"
  shows "find_udp_by_addr E ip port (udp_rx b i n w) = find_udp_by_addr E ip port w"
    "find_udp_by_addr E ip port (ip_rx b i ps w) = find_udp_by_addr E ip port w"
  by (simp_all add: find_udp_by_addr_def)

section \<open>From the packet to the callback\<close>

text \<open>A packet with a UDP datagram from the port \<open>s\<close> of its source to the port \<open>t\<close> of its destination.\<close>

definition udp_arrived ::
  "'w heap_scheme \<Rightarrow> addr \<Rightarrow> addr \<Rightarrow> nat \<Rightarrow> ip_header \<Rightarrow> u16 \<Rightarrow> u16 \<Rightarrow> u8 list \<Rightarrow> bool" where
  "udp_arrived w a b i hdr s t ps \<longleftrightarrow> ip_arrived w a b i hdr (udp_bytes (h_src hdr) (h_dest hdr) s t ps) \<and>
     h_protocol hdr = IP_PROTOCOL_UDP \<and> even (length ps) \<and> wf_heap w"

definition rx_world :: "addr \<Rightarrow> nat \<Rightarrow> u8 list \<Rightarrow> nat \<Rightarrow> 'w heap_scheme \<Rightarrow> 'w heap_scheme" where
  "rx_world b i pkt n w = udp_rx b (i + 20) n (ip_rx b i pkt w)"

lemma udp_csum_v4:
  "ip_v4 s = ip_v4 s' \<Longrightarrow> ip_v4 d = ip_v4 d' \<Longrightarrow> udp_csum (udp_ph s d) = udp_csum (udp_ph s' d')"
  by (intro ext) (simp add: udp_csum_def udp_ph_def ph_bytes_def)

lemma map_snd_run: "map_option snd (do { g \<leftarrow> m; g \<leftarrow> p g; Some (x, g) }) = do { g \<leftarrow> m; p g }"
  by (cases m; cases "p (the m)") simp_all

lemma ip_ll_recv_udp:
  assumes p: "udp_arrived w a b i hdr s t ps" and dg: "rx_dg dg a"
  defines "pkt \<equiv> udp_bytes (h_src hdr) (h_dest hdr) s t ps"
  defines "W \<equiv> rx_world b i pkt (length ps) w"
  shows "\<exists>ud. ud_dest_port ud = t \<and> ud_payload ud = Some (Suc (brk w)) \<and>
    ip_ll_recv E ll_send call n dg w = do {
      g \<leftarrow> udp_deliver E call n ud W;
      g \<leftarrow> pop_node (Some (Suc (brk w))) g;
      pop_node (Some (brk w)) g }"
proof -
  let ?k = "brk w" and ?len = "of_nat (8 + length ps) :: u16" and ?d = "d_size (the (nodes w a))"
  let ?c = "udp_csum (udp_ph (h_src hdr) (h_dest hdr)) s t ?len ps"
  have arr: "ip_arrived w a b i hdr pkt" and pr: "h_protocol hdr = IP_PROTOCOL_UDP"
    and ev: "even (length ps)" and wf: "wf_heap w"
    using p by (simp_all add: udp_arrived_def pkt_def)
  have pkt: "pkt = udp_hdr s t ?len ?c @ ps" by (simp add: pkt_def udp_bytes_def)
  have small: "length ps < 65508"
    using arr unat_u16_less [of "h_total_length hdr"] by (simp add: ip_arrived_def pkt_def)
  have plain: "plain_hdr hdr" using arr by (simp add: ip_arrived_def)
  have ab: "a < ?k" "b < ?k"
    using arr wf_heap_node [OF wf] wf_heap_buf [OF wf] by (auto simp: ip_arrived_def held_def)
  let ?dg = "read_back (dg\<lparr>dg_payload := Some ?k\<rparr>) hdr ?d"
  let ?w = "ip_rx b i pkt w"
  have held: "held ?w b (i + 20) (udp_hdr s t ?len ?c @ ps)"
  proof -
    have "held w b (i + 20) pkt"
      using arr length_hdr_bytes [OF plain] by (simp only: ip_arrived_def held_append)
    then show ?thesis unfolding pkt [symmetric] by (simp add: held_def)
  qed
  have adr: "wf_addr (h_src (dg_header ?dg))" "wf_addr (h_dest (dg_header ?dg))"
    "ip_v4 (h_src (dg_header ?dg)) = ip_v4 (h_src hdr)" "ip_v4 (h_dest (dg_header ?dg)) = ip_v4 (h_dest hdr)"
    "h_protocol (dg_header ?dg) = IP_PROTOCOL_UDP" "dg_payload ?dg = Some ?k"
    using plain dg pr by (simp_all add: read_back_def plain_hdr_def wf_addr_def rx_dg_def)
  have len: "size_sub (unat ?len) 8 = length ps"
  proof -
    have "unat ?len = 8 + length ps" using small by (intro unat_of_nat_small) simp
    then show ?thesis using small by simp
  qed
  have "udp_ip_recv E call n ?dg ?w = do {
      g \<leftarrow> udp_deliver E call n \<lparr>ud_src_port = s, ud_dest_port = t, ud_length = ?len, ud_checksum = ?c,
         ud_payload = Some (Suc ?k), ud_raw = Some ?k\<rparr> W;
      g \<leftarrow> pop_node (Some (Suc ?k)) g;
      Some (True, g) }"
    using udp_ip_recv_eq [of ?dg ?k ?w "init_dblk (Ptr b (i + 20)) (length pkt)" b "i + 20" ps s t ?len ?c E call n]
      held ev small wf_ip_rx [OF wf ab(2)] adr len udp_csum_v4 [OF adr(3,4)]
    by (simp add: W_def rx_world_def pkt_def)
  then have "ip_dispatch E ll_send call n ?dg ?w = do {
      g \<leftarrow> udp_deliver E call n \<lparr>ud_src_port = s, ud_dest_port = t, ud_length = ?len, ud_checksum = ?c,
         ud_payload = Some (Suc ?k), ud_raw = Some ?k\<rparr> W;
      pop_node (Some (Suc ?k)) g }"
    using adr(5) by (simp add: ip_dispatch_def map_snd_run)
  then show ?thesis
    using ip_ll_recv_eq [OF arr ab(1), of dg E ll_send call n] dg
    by (intro exI conjI) (auto simp: rx_dg_def bind_assoc)
qed

section \<open>From the packet to \<^verbatim>\<open>recvfrom\<close>\<close>

lemma rx_world_sel:
  "nodes (rx_world b i pkt n w) = (nodes w)(brk w \<mapsto> init_dblk (Ptr b (i + 20)) (length pkt),
     Suc (brk w) \<mapsto> init_dblk (Ptr b (i + 28)) n)"
  "bufs (rx_world b i pkt n w) = (bufs w)(b \<mapsto> splice_at (the (bufs w b)) (i + 26) [0, 0])"
  "brk (rx_world b i pkt n w) = brk w + 3" "mallocs (rx_world b i pkt n w) = mallocs w"
  "malloc_ok (rx_world b i pkt n w) = malloc_ok w"
  by (simp_all add: rx_world_def udp_rx_def ip_rx_def ac_simps)

lemma wf_rx_world:
  assumes "wf_heap w" "b < brk w"
  shows "wf_heap (rx_world b i pkt n w)"
  using assms unfolding wf_heap_def rx_world_sel by (auto intro: less_SucI trans_less_add1)

lemma udp_arrived_payload:
  assumes "udp_arrived w a b i hdr s t ps"
  shows "b < brk w" "length ps < 65508" "bufs w b \<noteq> None"
    "mem_read (rx_world b i pkt n w) (Ptr b (i + 28)) (length ps) = Some ps"
proof -
  have arr: "ip_arrived w a b i hdr (udp_bytes (h_src hdr) (h_dest hdr) s t ps)" and wf: "wf_heap w"
    using assms by (simp_all add: udp_arrived_def)
  have plain: "plain_hdr hdr" using arr by (simp add: ip_arrived_def)
  have "held w b (i + 20) (udp_bytes (h_src hdr) (h_dest hdr) s t ps)"
    using arr length_hdr_bytes [OF plain] by (simp only: ip_arrived_def held_append)
  then have "held w b (i + 20 + 8) ps" unfolding udp_bytes_def held_append by simp
  then obtain bs where bs: "bufs w b = Some bs" "i + 28 + length ps \<le> length bs"
    "take (length ps) (drop (i + 28) bs) = ps"
    by (auto simp: held_def add.commute)
  show "b < brk w" by (rule wf_heap_buf [OF wf bs(1)])
  show "bufs w b \<noteq> None" using bs(1) by simp
  show "length ps < 65508"
    using arr unat_u16_less [of "h_total_length hdr"] by (simp add: ip_arrived_def)
  have "take (length ps) (drop (i + 28) (splice_at bs (i + 26) [0, 0])) = ps"
    using bs by (subst take_drop_splice_at_after) simp_all
  then show "mem_read (rx_world b i pkt n w) (Ptr b (i + 28)) (length ps) = Some ps"
    using bs by (simp add: rx_world_sel mem_simps)
qed

text \<open>The queue of the socket \<open>fd\<close> holds one datagram, the bytes \<open>ps\<close> in the buffer \<open>c\<close>.\<close>

definition queued_one :: "int \<Rightarrow> socket \<Rightarrow> addr \<Rightarrow> u8 list \<Rightarrow> ('tm, 'w) sockw_scheme \<Rightarrow> bool" where
  "queued_one fd sk c ps w \<longleftrightarrow> get_sock fd w = Some (sk\<lparr>rx_queue := [Suc c]\<rparr>) \<and> bufs w c = Some ps \<and>
     nodes w (Suc c) = Some (init_dblk (Ptr c 0) (length ps)\<lparr>d_node_malloc := True, d_data_malloc := True\<rparr>)"

lemma recvfrom_queued:
  assumes E: "list_laws E" and q: "queued_one fd sk c ps w" and sk: "IS_UDP_SOCK sk" "length ps < 65536"
    and dst: "bufs w b = Some bs" "b \<noteq> c" "j + length ps \<le> length bs" "length ps < len"
  shows "\<exists>w'. sock_recvfrom E fd (Ptr b j) len MSG_DONTWAIT w = Some (int (length ps), w') \<and>
    bufs w' = (bufs w)(b \<mapsto> splice_at bs j ps, c := None) \<and> nodes w' = (nodes w)(Suc c := None) \<and>
    socks w' = (socks w)(to_socket fd \<mapsto> sk\<lparr>rx_queue := []\<rparr>)"
proof -
  let ?sk = "sk\<lparr>rx_queue := [Suc c]\<rparr>"
  let ?w = "del_node (Suc c) (del_buf c (set_buf b (splice_at bs j ps) w))
      \<lparr>socks := (socks w)(to_socket fd \<mapsto> ?sk\<lparr>rx_queue := []\<rparr>)\<rparr>"
  have "recvfrom_loop E fd (Ptr b j) len 0 w = Some (length ps, ?w)"
    by (rule recvfrom_fresh [OF E]) (use q sk dst in \<open>simp_all add: queued_one_def\<close>)
  moreover have "MSG_DONTWAIT AND MSG_DONTWAIT \<noteq> 0" "IS_UDP_SOCK ?sk"
    using sk(1) by (simp_all add: MSG_DONTWAIT_def IS_UDP_SOCK_def)
  ultimately have "sock_recvfrom E fd (Ptr b j) len MSG_DONTWAIT w = Some (int (length ps), ?w)"
    using q sk(2) by (simp add: sock_recvfrom_def queued_one_def to_int_small)
  then show ?thesis using dst(2) by (intro exI [of _ ?w]) (auto simp: fun_eq_iff)
qed

text \<open>The port \<open>t\<close> of interface \<open>n\<close> belongs to the socket \<open>fd\<close>, whose queue is empty.\<close>

definition socket_on :: "'tm ext \<Rightarrow> addr \<Rightarrow> u16 \<Rightarrow> int \<Rightarrow> socket \<Rightarrow> ('tm, 'w) sockw_scheme \<Rightarrow> bool" where
  "socket_on E n t fd sk w \<longleftrightarrow> (\<exists>q u. find_udp_by_addr E n (uint t) w = Some (Some q) \<and> udps w q = Some u \<and>
     u_callback u = Some UDP_RECV \<and> u_cb_data u = fd) \<and>
     get_sock fd w = Some sk \<and> IS_UDP_SOCK sk \<and> rx_queue sk = []"

lemma packet_queued:
  fixes w :: "('tm, 'w) sockw_scheme"
  assumes E: "list_laws E" and p: "udp_arrived w a b i hdr s t ps" "0 < length ps" and dg: "rx_dg dg a"
    and sk: "socket_on E n t fd sk w" and ok: "malloc_ok w (mallocs w)" "malloc_ok w (Suc (mallocs w))"
  shows "\<exists>c w1. ip_ll_recv E ll_send (sock_call E app) n dg w = Some w1 \<and> brk w \<le> c \<and> queued_one fd sk c ps w1 \<and>
    bufs w1 = (bufs w)(b \<mapsto> splice_at (the (bufs w b)) (i + 26) [0, 0], c \<mapsto> ps) \<and>
    (\<forall>x. x \<noteq> Suc c \<longrightarrow> nodes w1 x = nodes w x) \<and>
    socks w1 = (socks w)(to_socket fd \<mapsto> sk\<lparr>rx_queue := [Suc c]\<rparr>)"
proof -
  let ?W = "rx_world b i (udp_bytes (h_src hdr) (h_dest hdr) s t ps) (length ps) w" and ?n = "length ps"
  note P = udp_arrived_payload [OF p(1)]
  have wf: "wf_heap w" using p(1) by (simp add: udp_arrived_def)
  have wfW: "wf_heap ?W" by (rule wf_rx_world [OF wf P(1)])
  have W: "socks ?W = socks w" "udps ?W = udps w"
    "find_udp_by_addr E n (uint t) ?W = find_udp_by_addr E n (uint t) w"
    by (simp_all add: rx_world_def udp_rx_def ip_rx_def set_node_def bump_def find_udp_by_addr_def)
  obtain q u where u: "find_udp_by_addr E n (uint t) w = Some (Some q)" "udps w q = Some u"
    "u_callback u = Some UDP_RECV" "u_cb_data u = fd" and k: "get_sock fd w = Some sk" "rx_queue sk = []"
    using sk by (auto simp: socket_on_def)
  let ?g = "(set_buf (brk ?W) ps (fresh_blk ?n ?W))
    \<lparr>socks := (socks w)(to_socket fd \<mapsto> sk\<lparr>rx_queue := [Suc (brk ?W)]\<rparr>)\<rparr>"
  have queued: "udp_recv E fd (Ptr b (i + 28)) ?n ?W = Some ?g"
    using udp_recv_queues [OF E _ wfW _ _ P(4), of fd sk] k ok p(2) P(2) W(1)
    by (simp add: get_sock_def rx_world_sel)
  obtain ud where ud: "ud_dest_port ud = t" "ud_payload ud = Some (Suc (brk w))"
    and run: "ip_ll_recv E ll_send (sock_call E app) n dg w = do {
      g \<leftarrow> udp_deliver E (sock_call E app) n ud ?W;
      g \<leftarrow> pop_node (Some (Suc (brk w))) g;
      pop_node (Some (brk w)) g }"
    using ip_ll_recv_udp [OF p(1) dg] by blast
  have "udp_deliver E (sock_call E app) n ud ?W = Some ?g"
    using u W queued ud P(2) by (simp add: udp_deliver_def rx_world_sel sock_call_def)
  then have w1: "ip_ll_recv E ll_send (sock_call E app) n dg w = Some (del_node (brk w) (del_node (Suc (brk w)) ?g))"
    unfolding run by (simp add: pop_node_def rx_world_sel)
  let ?w1 = "del_node (brk w) (del_node (Suc (brk w)) ?g)"
  have "queued_one fd sk (brk w + 3) ps ?w1"
    using k by (simp add: queued_one_def get_sock_def rx_world_sel)
  moreover have "bufs ?w1 = (bufs w)(b \<mapsto> splice_at (the (bufs w b)) (i + 26) [0, 0], brk w + 3 \<mapsto> ps)"
    "\<forall>x. x \<noteq> Suc (brk w + 3) \<longrightarrow> nodes ?w1 x = nodes w x"
    using wf by (auto simp: wf_heap_def fun_eq_iff rx_world_sel)
  ultimately show ?thesis using w1 by (intro exI [of _ "brk w + 3"] exI [of _ ?w1]) (simp add: rx_world_sel)
qed

lemma packet_to_recvfrom:
  fixes w :: "('tm, 'w) sockw_scheme"
  assumes E: "list_laws E" and p: "udp_arrived w a b i hdr s t ps" "0 < length ps" and dg: "rx_dg dg a"
    and sk: "socket_on E n t fd sk w" and ok: "malloc_ok w (mallocs w)" "malloc_ok w (Suc (mallocs w))"
    and dst: "bufs w c = Some cs" "c \<noteq> b" "j + length ps \<le> length cs" "length ps < len"
  shows "\<exists>w1 w2. ip_ll_recv E ll_send (sock_call E app) n dg w = Some w1 \<and>
    sock_recvfrom E fd (Ptr c j) len MSG_DONTWAIT w1 = Some (int (length ps), w2) \<and>
    bufs w2 = (bufs w)(b \<mapsto> splice_at (the (bufs w b)) (i + 26) [0, 0], c \<mapsto> splice_at cs j ps) \<and>
    nodes w2 = nodes w \<and> socks w2 = socks w"
proof -
  have wf: "wf_heap w" using p(1) by (simp add: udp_arrived_def)
  obtain k w1 where w1: "ip_ll_recv E ll_send (sock_call E app) n dg w = Some w1" "brk w \<le> k" "queued_one fd sk k ps w1"
    "bufs w1 = (bufs w)(b \<mapsto> splice_at (the (bufs w b)) (i + 26) [0, 0], k \<mapsto> ps)"
    "\<forall>x. x \<noteq> Suc k \<longrightarrow> nodes w1 x = nodes w x" "socks w1 = (socks w)(to_socket fd \<mapsto> sk\<lparr>rx_queue := [Suc k]\<rparr>)"
    using packet_queued [OF E p dg sk ok] by blast
  have k: "c < k" "b < k" "bufs w k = None" "nodes w (Suc k) = None"
    using wf_heap_buf [OF wf dst(1)] udp_arrived_payload(1) [OF p(1)] w1(2) wf by (simp_all add: wf_heap_def)
  have sm: "length ps < 65536" using udp_arrived_payload(2) [OF p(1)] by simp
  have "IS_UDP_SOCK sk" using sk by (simp add: socket_on_def)
  moreover have c: "bufs w1 c = Some cs" "c \<noteq> k" using dst(1,2) k(1) w1(4) by simp_all
  ultimately obtain w2 where w2: "sock_recvfrom E fd (Ptr c j) len MSG_DONTWAIT w1 = Some (int (length ps), w2)"
    "bufs w2 = (bufs w1)(c \<mapsto> splice_at cs j ps, k := None)" "nodes w2 = (nodes w1)(Suc k := None)"
    "socks w2 = (socks w1)(to_socket fd \<mapsto> sk\<lparr>rx_queue := []\<rparr>)"
    using recvfrom_queued [OF E w1(3) _ sm _ _ dst(3,4)] by blast
  have "bufs w2 = (bufs w)(b \<mapsto> splice_at (the (bufs w b)) (i + 26) [0, 0], c \<mapsto> splice_at cs j ps)"
    using k w2(2) w1(4) dst(2) by (auto simp: fun_eq_iff)
  moreover have "nodes w2 = nodes w" using w2(3) w1(5) k(4) by (auto simp: fun_eq_iff)
  moreover have "socks w2 = socks w" using w2(4) w1(6) sk by (auto simp: socket_on_def get_sock_def fun_eq_iff)
  ultimately show ?thesis using w1(1) w2(1) by blast
qed

section \<open>From one host to another\<close>

text \<open>The packet \<^verbatim>\<open>sendto\<close> of one host made, when it is in the memory of another.\<close>

lemma sent_arrives:
  assumes cs: "udp_can_send w ip e dest" and n: "length ps = n" "even n" "n < 1392"
    and wf: "wf_heap w'" and d: "nodes w' a = Some d" "d_data d = Ptr b i" "20 \<le> d_size d"
    and h: "held w' b i (hdr_bytes (udp_out_hdr w ip dest n) @ udp_bytes (ip_self ip) dest udp_random_port port ps)"
  shows "udp_arrived w' a b i (udp_out_hdr w ip dest n) udp_random_port port ps"
proof -
  have "unat (of_nat (28 + n) :: u16) = 28 + n" using n by (intro unat_of_nat_small) simp
  then have "h_src (udp_out_hdr w ip dest n) = ip_self ip" "h_dest (udp_out_hdr w ip dest n) = dest"
    "h_protocol (udp_out_hdr w ip dest n) = IP_PROTOCOL_UDP"
    "unat (h_total_length (udp_out_hdr w ip dest n)) = 28 + n"
    by (simp_all add: udp_out_hdr_def out_hdr_def sealed_hdr_def)
  then show ?thesis
    using udp_out_hdr_plain [OF cs] n wf d h by (simp add: udp_arrived_def ip_arrived_def)
qed

end
