(* ===== verification/Icmp_Path.thy ===== *)
theory Icmp_Path
  imports Ip_Path Ether_Link
begin

text \<open>
  Ping: an echo request that arrives is answered with one packet to its sender, with the
  request's identifier, sequence number and data.
\<close>

section \<open>ICMP\<close>

definition echo_reply :: "u16 \<Rightarrow> u16 \<Rightarrow> u8 list \<Rightarrow> u8 list" where
  "echo_reply x s ps = echo_bytes ICMP_TYPE_ECHO_REPLY (echo_csum ICMP_TYPE_ECHO_REPLY x s ps) x s ps"

lemma length_echo_reply [simp]: "length (echo_reply x s ps) = 8 + length ps"
  by (simp add: echo_reply_def)

text \<open>The reply overwrites the request, in the buffer \<open>b\<close>.\<close>

definition icmp_world :: "addr \<Rightarrow> nat \<Rightarrow> u8 list \<Rightarrow> 'w heap_scheme \<Rightarrow> 'w heap_scheme" where
  "icmp_world b i reply w = set_buf b (splice_at (the (bufs w b)) i reply) w"

lemma icmp_ip_recv_echo:
  assumes pl: "dg_payload dg = Some a" "nodes w a = Some d" "d_data d = Ptr b i" "d_size d = 8 + length ps"
    and h: "held w b i (echo_bytes ICMP_TYPE_ECHO c x s ps)" and n: "even (length ps)" "length ps < 65000"
    and ip: "ips w m = Some ip"
  shows "icmp_ip_recv ll_send m dg w = do {
      (_, g) \<leftarrow> ip_hl_send ll_send ip (dg\<lparr>dg_header := (dg_header dg)\<lparr>h_dest := h_src (dg_header dg),
         h_src := ip_self ip\<rparr>\<rparr>) (icmp_world b i (echo_reply x s ps) w);
      Some g }"
proof -
  let ?req = "echo_bytes ICMP_TYPE_ECHO c x s ps"
  obtain bs where bs: "bufs w b = Some bs" "i + (8 + length ps) \<le> length bs" "take (8 + length ps) (drop i bs) = ?req"
    using h by (auto simp: held_def)
  let ?ic = "\<lparr>ic_type = 0, ic_code = 0, ic_checksum = 0, ic_message = No_Message, ic_data = Ptr b i,
    ic_data_size = 8 + length ps\<rparr>"
  let ?u = "?ic\<lparr>ic_type := ICMP_TYPE_ECHO, ic_code := 0, ic_checksum := c,
    ic_message := Echo x s (Ptr b (i + 8)) (length ps)\<rparr>"
  have rd: "mem_read w (Ptr b i) (8 + length ps) = Some ?req" using held_read [OF h] by simp
  have "icmp_unpack ?ic w = Some (True, ?u)"
    using icmp_unpack_echo [OF rd, of ?ic] by simp
  moreover have "drop 8 ?req = ps" by (simp add: echo_bytes_def be16_def)
  then have "\<exists>ic. icmp_pack (?u\<lparr>ic_type := ICMP_TYPE_ECHO_REPLY\<rparr>) w =
      Some (True, ic, icmp_world b i (echo_reply x s ps) w)"
    using icmp_pack_reply [OF bs(1,2,3) _ n, of "?u\<lparr>ic_type := ICMP_TYPE_ECHO_REPLY\<rparr>" x s] bs(1)
    by (auto simp: icmp_world_def echo_reply_def)
  ultimately show ?thesis
    using pl ip by (auto simp: icmp_ip_recv_def Let_def)
qed

section \<open>From the request to the reply\<close>

text \<open>The packet of an echo request; its checksum \<open>c\<close> is not looked at.\<close>

definition ping_arrived ::
  "'w heap_scheme \<Rightarrow> addr \<Rightarrow> addr \<Rightarrow> nat \<Rightarrow> ip_header \<Rightarrow> u16 \<Rightarrow> u16 \<Rightarrow> u16 \<Rightarrow> u8 list \<Rightarrow> bool" where
  "ping_arrived w a b i hdr c x s ps \<longleftrightarrow> ip_arrived w a b i hdr (echo_bytes ICMP_TYPE_ECHO c x s ps) \<and>
     h_protocol hdr = IP_PROTOCOL_ICMP \<and> even (length ps) \<and> length ps < 1392 \<and> wf_heap w"

text \<open>
  The state when the reply is complete and not yet sent, the header of the reply and the
  datagram the link layer gets.
\<close>

definition pong_world :: "addr \<Rightarrow> nat \<Rightarrow> u16 \<Rightarrow> u16 \<Rightarrow> u16 \<Rightarrow> u8 list \<Rightarrow> 'w netw_scheme \<Rightarrow> 'w netw_scheme" where
  "pong_world b i c x s ps w =
     icmp_world b (i + 20) (echo_reply x s ps) (ip_rx b i (echo_bytes ICMP_TYPE_ECHO c x s ps) w)"

definition pong_hdr :: "'w netw_scheme \<Rightarrow> ip \<Rightarrow> ip_header \<Rightarrow> nat \<Rightarrow> ip_header" where
  "pong_hdr w ip hdr n = sealed_hdr (out_hdr ip (ident w + 1) (8 + n) (hdr\<lparr>h_dest := h_src hdr, h_src := ip_self ip\<rparr>))"

definition pong_sent :: "'w netw_scheme \<Rightarrow> ip_header \<Rightarrow> addr \<Rightarrow> nat \<Rightarrow> u16 \<Rightarrow> u16 \<Rightarrow> u16 \<Rightarrow> u8 list \<Rightarrow> 'w netw_scheme" where
  "pong_sent w hdr b i c x s ps = packet_heap (Some (brk w)) hdr (pong_world b i c x s ps w)"

lemma pong_world_sel:
  "nodes (pong_world b i c x s ps w) = (nodes w)(brk w \<mapsto> init_dblk (Ptr b (i + 20)) (8 + length ps))"
  "bufs (pong_world b i c x s ps w) = (bufs w)(b \<mapsto> splice_at (the (bufs w b)) (i + 20) (echo_reply x s ps))"
  "brk (pong_world b i c x s ps w) = Suc (brk w)" "ident (pong_world b i c x s ps w) = ident w"
  "ips (pong_world b i c x s ps w) = ips w"
  by (simp_all add: pong_world_def icmp_world_def ip_rx_def)

lemma ping_arrived_block:
  assumes p: "ping_arrived w a b i hdr c x s ps"
  defines "W \<equiv> pong_world b i c x s ps w"
  shows "b < brk w" "bufs w b \<noteq> None" "wf_heap W" "block W (Some (brk w)) [brk w] None"
    "block_bytes W [brk w] = Some (echo_reply x s ps)"
proof -
  have arr: "ip_arrived w a b i hdr (echo_bytes ICMP_TYPE_ECHO c x s ps)" and wf: "wf_heap w"
    and n: "length ps < 1392" using p by (simp_all add: ping_arrived_def)
  have plain: "plain_hdr hdr" using arr by (simp add: ip_arrived_def)
  obtain bs where bs: "bufs w b = Some bs" "i + 20 + (8 + length ps) \<le> length bs"
    using arr plain by (auto simp: ip_arrived_def held_def)
  show b: "b < brk w" by (rule wf_heap_buf [OF wf bs(1)])
  show "bufs w b \<noteq> None" using bs(1) by simp
  show "wf_heap W" using wf b unfolding wf_heap_def W_def pong_world_sel by (auto simp: less_Suc_eq)
  show "block W (Some (brk w)) [brk w] None" by (simp add: W_def pong_world_sel block.simps(2))
  show "block_bytes W [brk w] = Some (echo_reply x s ps)"
    using bs n take_drop_splice_at [of "i + 20" "echo_reply x s ps" bs]
    by (simp add: W_def pong_world_sel node_bytes_def node_size_def mem_simps)
qed

definition rx_header :: "ip_datagram \<Rightarrow> ip_header \<Rightarrow> dblk option \<Rightarrow> ip_header" where
  "rx_header dg hdr d = dg_header (read_back dg hdr (d_size (the d)))"

lemma rx_header_sel:
  assumes "rx_dg dg a" "plain_hdr hdr"
  shows "h_protocol (rx_header dg hdr d) = h_protocol hdr" "h_option_size (rx_header dg hdr d) = 0"
    "ip_v4 (h_src (rx_header dg hdr d)) = ip_v4 (h_src hdr)" "wf_addr (h_src (rx_header dg hdr d))"
    "ip_v4 (h_dest (rx_header dg hdr d)) = ip_v4 (h_dest hdr)" "wf_addr (h_dest (rx_header dg hdr d))"
    "h_ttl (rx_header dg hdr d) = h_ttl hdr" "h_tos (rx_header dg hdr d) = h_tos hdr"
    "ip_version (h_src (rx_header dg hdr d)) = 4"
  using assms by (simp_all add: rx_header_def read_back_def rx_dg_def wf_addr_def plain_hdr_def)

definition pong_dg :: "'w netw_scheme \<Rightarrow> ip_header \<Rightarrow> ip_datagram" where
  "pong_dg w hdr = \<lparr>dg_header = hdr, dg_payload = Some (brk w), dg_raw = Some (brk w + 2)\<rparr>"

lemma ip_ll_recv_ping:
  assumes p: "ping_arrived w a b i hdr c x s ps" and dg: "rx_dg dg a"
    and ip: "ips w n = Some ip" "ip_ll ip = Some e" "ip_version (ip_self ip) = 4" "wf_addr (ip_self ip)"
      "ident w \<noteq> 2147483647"
  defines "h \<equiv> pong_hdr w ip (rx_header dg hdr (nodes w a)) (length ps)"
  shows "ip_ll_recv E ll_send call n dg w = do {
      (_, g) \<leftarrow> ll_send e (pong_dg w h) (pong_sent w h b i c x s ps);
      g \<leftarrow> pop_node (Some (brk w + 2)) g;
      g \<leftarrow> pop_buf (Ptr (Suc (brk w)) 0) g;
      pop_node (Some (brk w)) g }"
    and "block (pong_sent w h b i c x s ps) (dg_raw (pong_dg w h)) [brk w + 2, brk w] None"
    and "block_bytes (pong_sent w h b i c x s ps) [brk w + 2, brk w] = Some (hdr_bytes h @ echo_reply x s ps)"
proof -
  let ?k = "brk w" and ?req = "echo_bytes ICMP_TYPE_ECHO c x s ps" and ?W = "pong_world b i c x s ps w"
  note B = ping_arrived_block [OF p]
  have arr: "ip_arrived w a b i hdr ?req" and pr: "h_protocol hdr = IP_PROTOCOL_ICMP"
    and ev: "even (length ps)" "length ps < 1392" and wf: "wf_heap w" using p by (simp_all add: ping_arrived_def)
  have plain: "plain_hdr hdr" using arr by (simp add: ip_arrived_def)
  have a: "a < ?k" using arr wf_heap_node [OF wf] by (auto simp: ip_arrived_def)
  note R = rx_header_sel [OF dg plain, of "nodes w a"]
  let ?dg = "read_back (dg\<lparr>dg_payload := Some ?k\<rparr>) hdr (d_size (the (nodes w a)))"
  have hd: "dg_header ?dg = rx_header dg hdr (nodes w a)" by (simp add: rx_header_def read_back_def)
  have pl: "dg_payload ?dg = Some ?k" by (simp add: read_back_def)
  have dge: "?dg\<lparr>dg_raw := r, dg_header := y\<rparr> = \<lparr>dg_header = y, dg_payload = Some ?k, dg_raw = r\<rparr>" for r y
    by (rule ip_datagram.equality) (simp_all add: read_back_def)
  let ?h0 = "(rx_header dg hdr (nodes w a))\<lparr>h_dest := h_src (rx_header dg hdr (nodes w a)), h_src := ip_self ip\<rparr>"
  have held: "held (ip_rx b i ?req w) b (i + 20) ?req"
  proof -
    have "held w b (i + 20) ?req"
      using arr length_hdr_bytes [OF plain] by (simp only: ip_arrived_def held_append)
    then show ?thesis by (simp add: held_def)
  qed
  have ready: "link_ready ip ?h0" using R ip by (simp add: link_ready_def)
  have plain': "plain_hdr h"
    using plain_out_hdr [OF ready] by (simp add: h_def pong_hdr_def)
  have "icmp_ip_recv ll_send n ?dg (ip_rx b i ?req w) = do {
      (_, g) \<leftarrow> ip_hl_send ll_send ip (?dg\<lparr>dg_header := ?h0\<rparr>) ?W;
      Some g }"
    using icmp_ip_recv_echo [of ?dg ?k "ip_rx b i ?req w" "init_dblk (Ptr b (i + 20)) (length ?req)" b "i + 20" ps c x s
        n ip ll_send] pl held ev hd ip(1) by (simp add: pong_world_def ip_rx_def)
  moreover have "ip_hl_send ll_send ip (?dg\<lparr>dg_header := ?h0\<rparr>) ?W = do {
      (r, g) \<leftarrow> ll_send e (pong_dg w h) (pong_sent w h b i c x s ps);
      g \<leftarrow> pop_node (Some (?k + 2)) g;
      g \<leftarrow> pop_buf (Ptr (Suc ?k) 0) g;
      Some (r, g) }"
    using ip_hl_send_small_eq [of ?W "?dg\<lparr>dg_header := ?h0\<rparr>" "8 + length ps" ip e ll_send]
      dblk_size_bytes [OF B(4,5)] ev ready ip pl
    by (simp add: pong_world_sel h_def pong_hdr_def pong_dg_def pong_sent_def dge)
  ultimately have "ip_dispatch E ll_send call n ?dg (ip_rx b i ?req w) = do {
      (_, g) \<leftarrow> ll_send e (pong_dg w h) (pong_sent w h b i c x s ps);
      g \<leftarrow> pop_node (Some (?k + 2)) g;
      pop_buf (Ptr (Suc ?k) 0) g }"
    using hd R(1) pr ip(1) by (simp add: ip_dispatch_def ip_rx_def bind_assoc case_prod_beta')
  then show "ip_ll_recv E ll_send call n dg w = do {
      (_, g) \<leftarrow> ll_send e (pong_dg w h) (pong_sent w h b i c x s ps);
      g \<leftarrow> pop_node (Some (brk w + 2)) g;
      g \<leftarrow> pop_buf (Ptr (Suc (brk w)) 0) g;
      pop_node (Some (brk w)) g }"
    using ip_ll_recv_eq [OF arr a, of dg E ll_send call n] dg
    by (simp add: rx_dg_def bind_assoc case_prod_beta')
  have k: "Suc (brk ?W) = ?k + 2" by (simp add: pong_world_sel)
  show "block (pong_sent w h b i c x s ps) (dg_raw (pong_dg w h)) [brk w + 2, brk w] None"
    unfolding pong_sent_def pong_dg_def ip_datagram.simps by (rule packet_heap_block [OF B(3,4), unfolded k])
  show "block_bytes (pong_sent w h b i c x s ps) [brk w + 2, brk w] = Some (hdr_bytes h @ echo_reply x s ps)"
    unfolding pong_sent_def by (rule packet_heap_bytes [OF B(3-5) plain', unfolded k])
qed

section \<open>Over Ethernet\<close>

lemma pong_sent_sel:
  "nodes (pong_sent w h b i c x s ps) = (nodes w)(brk w \<mapsto> init_dblk (Ptr b (i + 20)) (8 + length ps),
     brk w + 2 \<mapsto> (init_dblk (Ptr (Suc (brk w)) 0) 64)\<lparr>d_size := 20, d_next := Some (brk w), d_more := True\<rparr>)"
  "brk (pong_sent w h b i c x s ps) = brk w + 3"
  "bufs (pong_sent w h b i c x s ps) (Suc (brk w)) \<noteq> None"
  "y < brk w \<Longrightarrow> bufs (pong_sent w h b i c x s ps) y =
     bufs (set_buf b (splice_at (the (bufs w b)) (i + 20) (echo_reply x s ps)) w) y"
  by (simp_all add: pong_sent_def pong_world_sel)

lemma pong_sent_heap:
  "pong_sent w h b i c x s ps = w\<lparr>bufs := bufs (pong_sent w h b i c x s ps),
     nodes := nodes (pong_sent w h b i c x s ps), brk := brk w + 3, mallocs := mallocs w, ident := ident w + 1, wire := wire w\<rparr>"
  by (simp add: pong_sent_def pong_world_def icmp_world_def ip_rx_def packet_heap_def set_node_def set_buf_def bump_def)

lemma pong_sent_conns: "same_conns w (pong_sent w h b i c x s ps)"
  by (subst pong_sent_heap) (simp add: same_conns_def)

lemma pong_sent_only: "heap_only (pong_sent w h b i c x s ps) g \<Longrightarrow> heap_only w g"
  by (rule heap_only_trans [where v = "pong_sent w h b i c x s ps"]) (subst pong_sent_heap, simp)

lemma same_conns_set_buf [simp]: "same_conns (set_buf b bs w) w' = same_conns w w'"
  by (simp add: same_conns_def set_buf_def)

text \<open>The frame is taken down; all that has changed is the packet, which holds the reply.\<close>

lemma pong_keeps:
  assumes k: "link_keeps [brk w + 2, brk w] r (pong_sent w h b i c x s ps) g"
  shows "\<exists>g'. do {
      g \<leftarrow> pop_node (Some (brk w + 2)) g;
      g \<leftarrow> pop_buf (Ptr (Suc (brk w)) 0) g;
      pop_node (Some (brk w)) g } = Some g' \<and>
    clean (set_buf b (splice_at (the (bufs w b)) (i + 20) (echo_reply x s ps)) w) g' \<and> wire g' = wire g"
proof -
  let ?W = "pong_sent w h b i c x s ps"
  have fr: "\<not> freed_node ?W a \<and> owned_buf ?W a = None" if "a \<in> set [brk w + 2, brk w]" for a
    using that by (auto simp: freed_node_def owned_buf_def pong_sent_sel(1))
  have nd: "nodes g a = nodes ?W a" and bf: "bufs g a = bufs ?W a" if "a < brk w + 3" for a
    using keeps_unowned [OF k fr] that unfolding pong_sent_sel(2) by blast+
  have sc: "same_conns w g" "brk w \<le> brk g" "heap_only w g" "wf_heap g"
    using k same_conns_trans [OF pong_sent_conns] pong_sent_only [of w h b i c x s ps g] by (auto simp: link_keeps_def pong_sent_sel(2))
  have live: "nodes g (brk w + 2) \<noteq> None" "nodes g (brk w) \<noteq> None" "bufs g (Suc (brk w)) \<noteq> None"
    using nd bf by (simp_all add: pong_sent_sel)
  have old: "nodes g a = nodes w a" "bufs g a = bufs (set_buf b (splice_at (the (bufs w b)) (i + 20) (echo_reply x s ps)) w) a"
    if "a < brk w" for a
    using nd [of a] bf [of a] that by (simp_all add: pong_sent_sel(1) pong_sent_sel(4) [OF that])
  then show ?thesis
    using live sc by (simp add: pop_node_def pop_buf_def clean_def)
qed

text \<open>The frame with the reply.\<close>

definition pong_frame :: "ip_header \<Rightarrow> ether \<Rightarrow> u8 list \<Rightarrow> u16 \<Rightarrow> u16 \<Rightarrow> u8 list \<Rightarrow> u8 list" where
  "pong_frame h d mac x s ps = frame_hdr mac (mac_address d) ETHER_TYPE_IP @ hdr_bytes h @ echo_reply x s ps"

lemma ping_over_ethernet:
  assumes p: "ping_arrived w a b i hdr c x s ps" and dg: "rx_dg dg a"
    and ip: "ips w n = Some ip" "ip_ll ip = Some e" "ip_version (ip_self ip) = 4" "wf_addr (ip_self ip)"
      "ident w \<noteq> 2147483647"
    and up: "ether_up E e w" "eths w e = Some d" and mac: "link_addr w ((h_src hdr)\<lparr>ip_version := 4\<rparr>) mac"
  defines "h \<equiv> pong_hdr w ip (rx_header dg hdr (nodes w a)) (length ps)"
  shows "accepts drv (e_interface d) (pong_frame h d mac x s ps) \<Longrightarrow>
      \<exists>w'. ip_ll_recv E (ip_ether_send E drv) call n dg w = Some w' \<and>
        clean (set_buf b (splice_at (the (bufs w b)) (i + 20) (echo_reply x s ps)) w) w' \<and>
        (malloc_ok w (mallocs w) \<longrightarrow> frame_given drv (e_interface d) (pong_frame h d mac x s ps) w w')"
    and "rejects drv (e_interface d) (pong_frame h d mac x s ps) \<Longrightarrow> malloc_ok w (mallocs w) \<Longrightarrow>
      ip_ll_recv E (ip_ether_send E drv) call n dg w = None"
proof -
  let ?W = "pong_sent w h b i c x s ps"
  note R = ip_ll_recv_ping [OF p dg ip, folded h_def] and B = ping_arrived_block [OF p]
  have arr: "ip_arrived w a b i hdr (echo_bytes ICMP_TYPE_ECHO c x s ps)" and n: "length ps < 1392"
    using p by (simp_all add: ping_arrived_def)
  have plain: "plain_hdr hdr" using arr by (simp add: ip_arrived_def)
  note hd = rx_header_sel [OF dg plain, of "nodes w a"]
  have ready: "link_ready ip ((rx_header dg hdr (nodes w a))\<lparr>h_dest := h_src (rx_header dg hdr (nodes w a)), h_src := ip_self ip\<rparr>)"
    using hd ip by (simp add: link_ready_def)
  have plain': "plain_hdr h" using plain_out_hdr [OF ready] by (simp add: h_def pong_hdr_def)
  have wf: "wf_heap ?W" unfolding pong_sent_def by (rule wf_packet_heap [OF B(3)])
  have len: "length (hdr_bytes h @ echo_reply x s ps) \<le> 1500" using length_hdr_bytes [OF plain'] n by simp
  have del: "deletable ?W [brk w + 2, brk w]" by (simp add: pong_sent_sel)
  have up': "ether_up E e ?W" by (subst pong_sent_heap) (rule ether_up_heap [OF up(1)])
  have eth: "eths ?W e = Some d" using up(2) by (subst pong_sent_heap) simp
  have dest: "h_dest (dg_header (pong_dg w h)) = h_src (rx_header dg hdr (nodes w a))"
    by (simp add: pong_dg_def h_def pong_hdr_def out_hdr_def)
  have mac': "link_addr ?W (h_dest (dg_header (pong_dg w h))) mac"
    using mac link_addr_cong [of "h_src (rx_header dg hdr (nodes w a))" "(h_src hdr)\<lparr>ip_version := 4\<rparr>" w mac] hd
    unfolding dest by (subst pong_sent_heap, subst link_addr_heap) simp
  have ok: "malloc_ok ?W (mallocs ?W) = malloc_ok w (mallocs w)" by (subst (1 2) pong_sent_heap) simp
  show "\<exists>w'. ip_ll_recv E (ip_ether_send E drv) call n dg w = Some w' \<and>
        clean (set_buf b (splice_at (the (bufs w b)) (i + 20) (echo_reply x s ps)) w) w' \<and>
        (malloc_ok w (mallocs w) \<longrightarrow> frame_given drv (e_interface d) (pong_frame h d mac x s ps) w w')"
    if acc: "accepts drv (e_interface d) (pong_frame h d mac x s ps)"
  proof -
    obtain r g where "ip_ether_send E drv e (pong_dg w h) ?W = Some (r, g)" "link_keeps [brk w + 2, brk w] r ?W g"
      "malloc_ok w (mallocs w) \<longrightarrow> frame_given drv (e_interface d) (pong_frame h d mac x s ps) ?W g"
      using ip_ether_send_known [OF up' wf eth R(2,3) len del mac' acc [unfolded pong_frame_def]]
      unfolding ok pong_frame_def by blast
    moreover have "wire ?W = wire w" by (subst pong_sent_heap) simp
    ultimately show ?thesis
      using pong_keeps [of w r h b i c x s ps g] unfolding R(1) by (auto simp: frame_given_def)
  qed
  show "ip_ll_recv E (ip_ether_send E drv) call n dg w = None"
    if "rejects drv (e_interface d) (pong_frame h d mac x s ps)" "malloc_ok w (mallocs w)"
    using ip_ether_send_rejected [OF up' wf eth R(2,3) len mac' _ that(1) [unfolded pong_frame_def]] that(2) ok
    unfolding R(1) by simp
qed

end
