(* ===== verification/Arp_Table.thy ===== *)
theory Arp_Table
  imports Ether_Link Mem_Pool
begin

text \<open>
  The ARP table as a cache: what a reply puts into it, which entries make room when the pool
  of items is empty, and the answer to a request for an address of this host.
\<close>

section \<open>The pool of items\<close>

text \<open>
  What \<^verbatim>\<open>dts_net_mem.h\<close> documents of a pool: it serves items and takes them back, leaves the
  table, the clock and the memory of the stack alone, and has an item again after one was
  returned.
\<close>

definition unmoved :: "('tm, 'w) linkw_scheme \<Rightarrow> ('tm, 'w) linkw_scheme \<Rightarrow> bool" where
  "unmoved w w' \<longleftrightarrow> second w' = second w \<and> nodes w' = nodes w \<and> bufs w' = bufs w"

definition same_table :: "('tm, 'w) linkw_scheme \<Rightarrow> ('tm, 'w) linkw_scheme \<Rightarrow> bool" where
  "same_table w w' \<longleftrightarrow> arp_table w' = arp_table w \<and> artis w' = artis w \<and> unmoved w w'"

lemma unmoved_trans: "unmoved w v \<Longrightarrow> unmoved v w' \<Longrightarrow> unmoved w w'"
  by (simp add: unmoved_def)

lemma unmoved_table [simp]:
  "unmoved w w"
  "unmoved (w\<lparr>arp_table := x, artis := y\<rparr>) w' = unmoved w w'"
  "unmoved w' (w\<lparr>artis := y, arp_table := x\<rparr>) = unmoved w' w"
  by (simp_all add: unmoved_def)

definition pool_laws :: "(('tm, 'w) linkw_scheme) item_pool \<Rightarrow> bool" where
  "pool_laws pool \<longleftrightarrow> (\<forall>a w. same_table w (mem_free pool a w)) \<and>
     (\<forall>w. same_table w (snd (mem_alloc pool w))) \<and>
     (\<forall>a w. fst (mem_alloc pool (mem_free pool a w)) \<noteq> None)"

text \<open>The pool of \<^verbatim>\<open>dts_net_mem_list.c\<close> keeps these laws.\<close>

record 'tm arpw = "'tm linkw" +
  ai_pool :: list_pool

definition arpti_pool :: "'tm ext \<Rightarrow> (('tm, 'w) arpw_scheme) item_pool" where
  "arpti_pool E = \<lparr>mem_alloc = \<lambda>w. (case list_alloc E (ai_pool w) of (r, p) \<Rightarrow> (r, w\<lparr>ai_pool := p\<rparr>)),
     mem_free = \<lambda>a w. w\<lparr>ai_pool := list_free E a (ai_pool w)\<rparr>\<rparr>"

lemma arpti_pool_laws: "list_laws E \<Longrightarrow> pool_laws (arpti_pool E)"
  by (auto simp: pool_laws_def same_table_def unmoved_def arpti_pool_def list_alloc_def list_free_def list_laws_def
      split: prod.splits list.splits)

section \<open>The scan\<close>

definition expired_in :: "'tm ext \<Rightarrow> ('tm, 'w) linkw_scheme \<Rightarrow> addr \<Rightarrow> bool" where
  "expired_in E w a \<longleftrightarrow> timer_expired E (sys_tick_s w) (ai_tmr (the (artis w a)))"

definition remain_in :: "'tm ext \<Rightarrow> ('tm, 'w) linkw_scheme \<Rightarrow> addr \<Rightarrow> nat" where
  "remain_in E w a = timer_remain E (sys_tick_s w) (ai_tmr (the (artis w a)))"

text \<open>The entry with the least time left, the first of several.\<close>

fun least_of :: "(addr \<Rightarrow> nat) \<Rightarrow> addr option \<Rightarrow> addr list \<Rightarrow> addr option" where
  "least_of f s [] = s"
| "least_of f s (a # as) = least_of f (case s of None \<Rightarrow> Some a | Some b \<Rightarrow> if f a < f b then Some a else s) as"

lemma least_of_Some:
  "\<exists>m. least_of f (Some b) as = Some m \<and> m \<in> insert b (set as) \<and> (\<forall>x \<in> insert b (set as). f m \<le> f x)"
proof (induction as arbitrary: b)
  case (Cons a as)
  show ?case
    using Cons.IH [of a] Cons.IH [of b] by (cases "f a < f b") (auto intro: order.trans)
qed simp

lemma least_of_min:
  assumes "as \<noteq> []"
  shows "\<exists>m. least_of f None as = Some m \<and> m \<in> set as \<and> (\<forall>x \<in> set as. f m \<le> f x)"
  using assms least_of_Some [of f "hd as" "tl as"] by (cases as) auto

lemma least_of_cong:
  assumes "\<And>x. x \<in> set as \<or> s = Some x \<Longrightarrow> f x = g x"
  shows "least_of f s as = least_of g s as"
  using assms
proof (induction as arbitrary: s)
  case (Cons a as)
  have "(case s of None \<Rightarrow> Some a | Some b \<Rightarrow> if f a < f b then Some a else s) =
      (case s of None \<Rightarrow> Some a | Some b \<Rightarrow> if g a < g b then Some a else s)"
    using Cons.prems by (auto split: option.splits)
  moreover have "least_of f s' as = least_of g s' as" if "s' \<in> {s, Some a}" for s'
    using that Cons.prems by (intro Cons.IH) auto
  ultimately show ?case by (auto split: option.splits)
qed simp

lemma arp_scan_eq:
  assumes E: "list_laws E" and P: "pool_laws pool"
    and live: "\<And>a. a \<in> set as \<Longrightarrow> artis w a \<noteq> None" and d: "distinct as" "distinct (arp_table w)"
    and s: "\<And>b. shortest = Some b \<Longrightarrow> artis w b \<noteq> None \<and> b \<notin> set as"
  shows "\<exists>w'. arp_scan E pool as n shortest w = Some (n + length (filter (expired_in E w) as),
      least_of (remain_in E w) shortest (filter (\<lambda>a. \<not> expired_in E w a) as), w') \<and>
    arp_table w' = filter (\<lambda>a. \<not> (a \<in> set as \<and> expired_in E w a)) (arp_table w) \<and>
    artis w' = (\<lambda>a. if a \<in> set as \<and> expired_in E w a then None else artis w a) \<and>
    unmoved w w' \<and> (filter (expired_in E w) as \<noteq> [] \<longrightarrow> fst (mem_alloc pool w') \<noteq> None) \<and>
    (filter (expired_in E w) as = [] \<longrightarrow> w' = w)"
  using live d s
proof (induction as arbitrary: n shortest w)
  case Nil
  then show ?case by simp
next
  case (Cons a as)
  obtain item where item: "artis w a = Some item" using Cons.prems(1) [of a] by auto
  have E': "list_foreach_remove E a xs = remove1 a xs" for xs using E by (simp add: list_laws_def)
  show ?case
  proof (cases "expired_in E w a")
    case True
    let ?v = "w\<lparr>arp_table := remove1 a (arp_table w), artis := (artis w)(a := None)\<rparr>"
    have expired: "timer_expired E (sys_tick_s w) (ai_tmr item)" using True item by (simp add: expired_in_def)
    obtain v where v: "v = mem_free pool a ?v" by simp
    have "unmoved ?v v" using P unfolding pool_laws_def same_table_def v by blast
    then have um: "unmoved w v" by simp
    have tab: "arp_table v = remove1 a (arp_table w)" "artis v = (artis w)(a := None)"
      using P unfolding pool_laws_def same_table_def v by simp_all
    note same = tab um
    have eq: "expired_in E v x = expired_in E w x" "remain_in E v x = remain_in E w x" if "x \<noteq> a" for x
      using that same by (simp_all add: expired_in_def remain_in_def sys_tick_s_def unmoved_def)
    have in_as: "x \<noteq> a" if "x \<in> set as" for x using that Cons.prems(2) by auto
    have f: "filter (expired_in E v) as = filter (expired_in E w) as"
      "filter (\<lambda>a. \<not> expired_in E v a) as = filter (\<lambda>a. \<not> expired_in E w a) as"
      using eq(1) [OF in_as] by (auto intro!: filter_cong)
    have l: "least_of (remain_in E v) shortest (filter (\<lambda>a. \<not> expired_in E w a) as) =
        least_of (remain_in E w) shortest (filter (\<lambda>a. \<not> expired_in E w a) as)"
    proof (rule least_of_cong)
      fix x
      assume "x \<in> set (filter (\<lambda>a. \<not> expired_in E w a) as) \<or> shortest = Some x"
      then have "x \<noteq> a" using in_as Cons.prems(4) by auto
      then show "remain_in E v x = remain_in E w x" by (rule eq(2))
    qed
    have "\<exists>w'. arp_scan E pool as (n + 1) shortest v = Some (n + 1 + length (filter (expired_in E v) as),
        least_of (remain_in E v) shortest (filter (\<lambda>a. \<not> expired_in E v a) as), w') \<and>
      arp_table w' = filter (\<lambda>a. \<not> (a \<in> set as \<and> expired_in E v a)) (arp_table v) \<and>
      artis w' = (\<lambda>a. if a \<in> set as \<and> expired_in E v a then None else artis v a) \<and>
      unmoved v w' \<and> (filter (expired_in E v) as \<noteq> [] \<longrightarrow> fst (mem_alloc pool w') \<noteq> None) \<and>
      (filter (expired_in E v) as = [] \<longrightarrow> w' = v)"
      by (rule Cons.IH) (use Cons.prems same in auto)
    then obtain w' where w': "arp_scan E pool as (n + 1) shortest v = Some (n + 1 + length (filter (expired_in E w) as),
        least_of (remain_in E w) shortest (filter (\<lambda>a. \<not> expired_in E w a) as), w')"
      "arp_table w' = filter (\<lambda>a. \<not> (a \<in> set as \<and> expired_in E v a)) (arp_table v)"
      "artis w' = (\<lambda>a. if a \<in> set as \<and> expired_in E v a then None else artis v a)"
      "unmoved v w'" "filter (expired_in E w) as \<noteq> [] \<longrightarrow> fst (mem_alloc pool w') \<noteq> None"
      "filter (expired_in E w) as = [] \<longrightarrow> w' = v"
      unfolding f l by blast
    have eqa: "expired_in E v x = expired_in E w x" if "x \<in> set as" for x
      by (rule eq(1) [OF in_as [OF that]])
    have "arp_table w' = filter (\<lambda>x. \<not> (x \<in> set (a # as) \<and> expired_in E w x)) (arp_table w)"
      using True Cons.prems(3) eqa w'(2) same(1)
      by (auto simp: distinct_remove1_removeAll removeAll_filter_not_eq filter_filter intro!: filter_cong)
    moreover have "artis w' = (\<lambda>x. if x \<in> set (a # as) \<and> expired_in E w x then None else artis w x)"
      using True eqa w'(3) same(2) by (auto simp: fun_eq_iff)
    moreover have "fst (mem_alloc pool w') \<noteq> None"
    proof (cases "filter (expired_in E w) as = []")
      case True
      then show ?thesis using w'(6) P unfolding pool_laws_def v by simp
    next
      case False
      then show ?thesis using w'(5) by blast
    qed
    ultimately show ?thesis
      using item True expired w'(1) unmoved_trans [OF same(3) w'(4)] E' by (simp add: Let_def flip: v)
  next
    case False
    let ?s = "case shortest of None \<Rightarrow> Some a | Some b \<Rightarrow> if remain_in E w a < remain_in E w b then Some a else shortest"
    have "\<exists>w'. arp_scan E pool as n ?s w = Some (n + length (filter (expired_in E w) as),
        least_of (remain_in E w) ?s (filter (\<lambda>a. \<not> expired_in E w a) as), w') \<and>
      arp_table w' = filter (\<lambda>a. \<not> (a \<in> set as \<and> expired_in E w a)) (arp_table w) \<and>
      artis w' = (\<lambda>a. if a \<in> set as \<and> expired_in E w a then None else artis w a) \<and>
      unmoved w w' \<and> (filter (expired_in E w) as \<noteq> [] \<longrightarrow> fst (mem_alloc pool w') \<noteq> None) \<and>
      (filter (expired_in E w) as = [] \<longrightarrow> w' = w)"
      by (rule Cons.IH) (use Cons.prems item in \<open>auto split: option.splits if_splits\<close>)
    moreover have "arp_scan E pool (a # as) n shortest w = arp_scan E pool as n ?s w"
      using item False Cons.prems(4) by (auto simp: expired_in_def remain_in_def Let_def split: option.splits)
    moreover have "(\<lambda>x. \<not> (x \<in> set (a # as) \<and> expired_in E w x)) = (\<lambda>x. \<not> (x \<in> set as \<and> expired_in E w x))"
      "(\<lambda>x. if x \<in> set (a # as) \<and> expired_in E w x then None else artis w x) =
       (\<lambda>x. if x \<in> set as \<and> expired_in E w x then None else artis w x)"
      using False by auto
    moreover have "filter (expired_in E w) (a # as) = filter (expired_in E w) as"
      "filter (\<lambda>a. \<not> expired_in E w a) (a # as) = a # filter (\<lambda>a. \<not> expired_in E w a) as"
      using False by simp_all
    ultimately show ?thesis by simp
  qed
qed


section \<open>Learning an address\<close>

text \<open>
  The entries that stay when an item is needed: all while the pool has one, otherwise those
  that have not expired, and if none has, all but the one with the least time left.
\<close>

definition kept :: "'tm ext \<Rightarrow> (('tm, 'w) linkw_scheme) item_pool \<Rightarrow> ('tm, 'w) linkw_scheme \<Rightarrow> addr list" where
  "kept E pool w = (if fst (mem_alloc pool w) \<noteq> None then arp_table w
     else if \<exists>a \<in> set (arp_table w). expired_in E w a
     then filter (\<lambda>a. \<not> expired_in E w a) (arp_table w)
     else remove1 (the (least_of (remain_in E w) None (arp_table w))) (arp_table w))"

definition new_entry :: "'tm ext \<Rightarrow> ('tm, 'w) linkw_scheme \<Rightarrow> u8 list \<Rightarrow> u8 list \<Rightarrow> 'tm arpti" where
  "new_entry E w spa sha = \<lparr>ai_ip = spa, ai_mac = sha, ai_tmr = timer_start E (sys_tick_s w) 7200 (timer_init E)\<rparr>"

lemma arp_learn_item:
  assumes P: "pool_laws pool" and al: "fst (mem_alloc pool w) \<noteq> None"
  shows "\<exists>a w'. arp_learn E pool spa sha w = Some w' \<and> artis w' = (artis w)(a \<mapsto> new_entry E w spa sha) \<and>
    arp_table w' = list_add E a (arp_table w) \<and> unmoved w w' \<and> mem_alloc pool w = (Some a, snd (mem_alloc pool w))"
proof -
  obtain a v where v: "mem_alloc pool w = (Some a, v)" using al by (cases "mem_alloc pool w") auto
  have "same_table w v" using P v unfolding pool_laws_def by (metis snd_conv)
  then show ?thesis
    using v by (subst arp_learn.simps) (simp add: same_table_def unmoved_def new_entry_def sys_tick_s_def)
qed

text \<open>With an empty pool and an empty table there is nothing that could be dropped.\<close>

lemma arp_learn_stuck:
  assumes E: "list_laws E" and P: "pool_laws pool" and none: "fst (mem_alloc pool w) = None" "arp_table w = []"
  shows "arp_learn E pool spa sha w = None"
proof -
  obtain v where v: "mem_alloc pool w = (None, v)" using none(1) by (cases "mem_alloc pool w") auto
  have "same_table w v" using P v unfolding pool_laws_def by (metis snd_conv)
  then have "arp_table v = []" using none(2) by (simp add: same_table_def)
  then show ?thesis using v E by (subst arp_learn.simps) (simp add: list_laws_def)
qed

lemma arp_learn_eq:
  assumes E: "list_laws E" and P: "pool_laws pool"
    and live: "\<And>a. a \<in> set (arp_table w) \<Longrightarrow> artis w a \<noteq> None" and d: "distinct (arp_table w)"
    and some: "arp_table w \<noteq> [] \<or> fst (mem_alloc pool w) \<noteq> None"
  shows "\<exists>a w'. arp_learn E pool spa sha w = Some w' \<and> artis w' a = Some (new_entry E w spa sha) \<and>
    arp_table w' = list_add E a (kept E pool w) \<and> (\<forall>b \<in> set (kept E pool w). b \<noteq> a \<longrightarrow> artis w' b = artis w b) \<and>
    unmoved w w'"
proof (cases "fst (mem_alloc pool w)")
  case (Some x)
  then show ?thesis using arp_learn_item [OF P, of w E spa sha] by (auto simp: kept_def)
next
  case None
  obtain v where v: "mem_alloc pool w = (None, v)" using None by (cases "mem_alloc pool w") auto
  have "same_table w v" using P v unfolding pool_laws_def by (metis snd_conv)
  then have sv: "arp_table v = arp_table w" "artis v = artis w" "unmoved w v"
    by (simp_all add: same_table_def)
  have eq: "expired_in E v = expired_in E w" "remain_in E v = remain_in E w"
    using sv by (auto simp: expired_in_def remain_in_def sys_tick_s_def unmoved_def fun_eq_iff)
  have items: "list_items E xs = xs" "list_remove E y xs = remove1 y xs" for xs y
    using E by (simp_all add: list_laws_def)
  let ?tab = "arp_table w"
  obtain v' where scan: "arp_scan E pool ?tab 0 None v = Some (length (filter (expired_in E w) ?tab),
      least_of (remain_in E w) None (filter (\<lambda>a. \<not> expired_in E w a) ?tab), v')"
    and tab: "arp_table v' = filter (\<lambda>a. \<not> (a \<in> set ?tab \<and> expired_in E w a)) ?tab"
    and art: "artis v' = (\<lambda>a. if a \<in> set ?tab \<and> expired_in E w a then None else artis w a)"
    and um: "unmoved v v'"
    and al: "filter (expired_in E w) ?tab \<noteq> [] \<longrightarrow> fst (mem_alloc pool v') \<noteq> None"
    and id: "filter (expired_in E w) ?tab = [] \<longrightarrow> v' = v"
    using arp_scan_eq [OF E P, of ?tab v None 0, unfolded sv eq, OF live d d] by force
  have kept_tab: "filter (\<lambda>a. \<not> (a \<in> set ?tab \<and> expired_in E w a)) ?tab = filter (\<lambda>a. \<not> expired_in E w a) ?tab"
    by (auto intro!: filter_cong)
  show ?thesis
  proof (cases "filter (expired_in E w) ?tab = []")
    case False
    then have ex: "\<exists>a \<in> set ?tab. expired_in E w a" by (auto simp: filter_empty_conv)
    obtain a w' where w': "arp_learn E pool spa sha v' = Some w'" "artis w' = (artis v')(a \<mapsto> new_entry E v' spa sha)"
      "arp_table w' = list_add E a (arp_table v')" "unmoved v' w'"
      using arp_learn_item [OF P, of v' E spa sha] al False by auto
    have "arp_learn E pool spa sha w = Some w'"
      using v scan sv(1) items False w'(1) by (subst arp_learn.simps) simp
    moreover have "kept E pool w = arp_table v'" using None ex tab kept_tab by (simp add: kept_def)
    moreover have "new_entry E v' spa sha = new_entry E w spa sha" using um sv(3) by (simp add: new_entry_def sys_tick_s_def unmoved_def)
    ultimately show ?thesis using w' art tab unmoved_trans [OF unmoved_trans [OF sv(3) um] w'(4)] by auto
  next
    case True
    then have no: "\<not> (\<exists>a \<in> set ?tab. expired_in E w a)" by (auto simp: filter_empty_conv)
    then have all: "filter (\<lambda>a. \<not> expired_in E w a) ?tab = ?tab" by (auto simp: filter_id_conv)
    have v'v: "v' = v" using id True by blast
    have "?tab \<noteq> []" using some None by simp
    then obtain m where m: "least_of (remain_in E w) None ?tab = Some m" using least_of_min by blast
    let ?v = "v\<lparr>arp_table := remove1 m ?tab, artis := (artis w)(m := None)\<rparr>"
    obtain u where u: "u = mem_free pool m ?v" by simp
    have "unmoved ?v u" using P unfolding pool_laws_def same_table_def u by blast
    then have uw: "unmoved w u" using unmoved_trans [OF sv(3), of u] by simp
    have su: "arp_table u = remove1 m ?tab" "artis u = (artis w)(m := None)" "fst (mem_alloc pool u) \<noteq> None"
      using P sv unfolding pool_laws_def same_table_def u by simp_all
    obtain a w' where w': "arp_learn E pool spa sha u = Some w'" "artis w' = (artis u)(a \<mapsto> new_entry E u spa sha)"
      "arp_table w' = list_add E a (arp_table u)" "unmoved u w'"
      using arp_learn_item [OF P su(3), of E spa sha] by auto
    have "arp_learn E pool spa sha w = Some w'"
      using v scan sv items True all m v'v w'(1) by (subst arp_learn.simps) (simp add: u)
    moreover have "kept E pool w = arp_table u" using None no m su(1) by (simp add: kept_def)
    moreover have "new_entry E u spa sha = new_entry E w spa sha" using uw by (simp add: new_entry_def sys_tick_s_def unmoved_def)
    moreover have "b \<noteq> m" if "b \<in> set (remove1 m ?tab)" for b using that d by auto
    ultimately show ?thesis using w' su unmoved_trans [OF uw w'(4)] by (intro exI [of _ a] exI [of _ w']) simp
  qed
qed

section \<open>A reply is received\<close>

text \<open>
  A reply for an address no kept entry has: from then on the address is known to the link,
  and what is kept is known as before.
\<close>

lemma find_only:
  assumes "mset xs = add_mset a (mset ys)" "P a" "\<And>y. y \<in> set ys \<Longrightarrow> P y \<Longrightarrow> y = a"
  shows "find P xs = Some a"
proof -
  have set: "set xs = insert a (set ys)" using arg_cong [OF assms(1), of set_mset] by simp
  then have "find P xs \<noteq> None" using assms(2) by (auto simp: find_None_iff)
  then obtain y where y: "find P xs = Some y" by blast
  then have "y \<in> set xs" "P y" by (auto simp: find_Some_iff)
  then show ?thesis using y set assms(3) by auto
qed

lemma arp_reply_known:
  assumes E: "list_laws E" and P: "pool_laws pool"
    and live: "\<And>a. a \<in> set (arp_table w) \<Longrightarrow> artis w a \<noteq> None" and d: "distinct (arp_table w)"
    and some: "arp_table w \<noteq> [] \<or> fst (mem_alloc pool w) \<noteq> None"
    and rd: "mem_read w p 28 = Some (arp_bytes q sha spa tha tpa)" "eth_ip q" "ap_op q = 2"
    and len: "length sha = 6" "length spa = 4" "length tha = 6" "length tpa = 4"
    and pkt: "ap_data pkt = p" "28 \<le> unat (ap_data_size pkt)"
    and new: "\<And>b. b \<in> set (kept E pool w) \<Longrightarrow> \<not> arp_hit w spa b"
  shows "\<exists>a w'. ether_arp_ether_recv E drv pool e pkt w = Some w' \<and>
    mset (arp_table w') = add_mset a (mset (kept E pool w)) \<and> artis w' a = Some (new_entry E w spa sha) \<and>
    (\<forall>b \<in> set (kept E pool w). b \<noteq> a \<longrightarrow> artis w' b = artis w b) \<and>
    (\<forall>dest. ip_v4 dest = spa \<and> \<not> ip_addr_broadcast dest \<longrightarrow> link_addr w' dest sha) \<and> unmoved w w'"
proof -
  obtain a w' where w': "arp_learn E pool spa sha w = Some w'" "artis w' a = Some (new_entry E w spa sha)"
    "arp_table w' = list_add E a (kept E pool w)"
    "\<forall>b \<in> set (kept E pool w). b \<noteq> a \<longrightarrow> artis w' b = artis w b" "unmoved w w'"
    using arp_learn_eq [OF E P live d some] by blast
  have tab: "mset (arp_table w') = add_mset a (mset (kept E pool w))"
    using E w'(3) by (simp add: list_laws_def)
  have "ether_arp_ether_recv E drv pool e pkt w = Some w'"
    using arp_unpack_ok [OF rd(1,2) len pkt] rd(3) w'(1) by (simp add: ether_arp_ether_recv_def)
  moreover have "find (arp_hit w' spa) (arp_table w') = Some a"
  proof (rule find_only [OF tab])
    show "arp_hit w' spa a" using w'(2) by (simp add: arp_hit_def new_entry_def)
  next
    fix b
    assume "b \<in> set (kept E pool w)" "arp_hit w' spa b"
    then show "b = a" using new [of b] w'(4) by (auto simp: arp_hit_def)
  qed
  then have "link_addr w' dest sha" if "ip_v4 dest = spa" "\<not> ip_addr_broadcast dest" for dest
    using that w'(2) by (simp add: link_addr_def new_entry_def)
  ultimately show ?thesis using w' tab by blast
qed

section \<open>A request is received\<close>

text \<open>Interface \<open>n\<close> has the address \<open>t\<close>.\<close>

definition has_ip :: "('tm, 'w) linkw_scheme \<Rightarrow> u8 list \<Rightarrow> addr \<Rightarrow> bool" where
  "has_ip w t n \<longleftrightarrow> (\<exists>nif ip. nifs w n = Some nif \<and> ips w (nif_ip nif) = Some ip \<and>
     ip_version (ip_self ip) = 4 \<and> au32 (ip_v4 (ip_self ip)) = au32 t)"

lemma find_ip:
  assumes "\<And>n. n \<in> set ns \<Longrightarrow> \<exists>nif. nifs w n = Some nif \<and> ips w (nif_ip nif) \<noteq> None" "ip_version a = 4"
  shows "\<exists>a'. find_from (list_match_ip_addr w) ns a = Some (find (has_ip w (ip_v4 a)) ns, a')"
  using assms
proof (induction ns arbitrary: a)
  case Nil
  then show ?case by simp
next
  case (Cons n ns)
  obtain nif ip where n: "nifs w n = Some nif" "ips w (nif_ip nif) = Some ip"
    using Cons.prems(1) [of n] by auto
  let ?a = "a\<lparr>ip_mask := ip_mask (ip_self ip)\<rparr>"
  have "\<exists>a'. find_from (list_match_ip_addr w) ns ?a = Some (find (has_ip w (ip_v4 ?a)) ns, a')"
    by (rule Cons.IH) (use Cons.prems in auto)
  moreover have "list_match_ip_addr w n a = Some (has_ip w (ip_v4 a) n, ?a)"
    using n Cons.prems(2) by (auto simp: list_match_ip_addr_def has_ip_def ip_addr_equals_def Let_def)
  ultimately show ?case by auto
qed

lemma arp_request_reply:
  assumes E: "list_laws E" and ok: "nifs_ok w" and wf: "wf_heap w"
    and own: "find (has_ip w tpa) (nif_list w) = Some n" "nifs w n = Some nif" "ips w (nif_ip nif) = Some ip"
      "length (ip_v4 (ip_self ip)) = 4" "eths w (nif_eth nif) = Some d" "length (mac_address d) = 6"
    and e: "length (mac_address e) = 6"
    and rd: "mem_read w p 28 = Some (arp_bytes q sha spa tha tpa)" "eth_ip q" "ap_op q = 1"
    and len: "length sha = 6" "length spa = 4" "length tha = 6" "length tpa = 4"
    and pkt: "ap_data pkt = p" "28 \<le> unat (ap_data_size pkt)"
  defines "fr \<equiv> frame_hdr sha (mac_address e) ETHER_TYPE_ARP @
    arp_bytes (q\<lparr>ap_op := 2\<rparr>) (mac_address d) (ip_v4 (ip_self ip)) sha spa"
  shows "accepts drv (e_interface e) fr \<Longrightarrow>
      ether_arp_ether_recv E drv pool e pkt w = Some (w\<lparr>brk := brk w + 3, wire := wire w @ [(e_interface e, fr)]\<rparr>)"
    and "rejects drv (e_interface e) fr \<Longrightarrow> ether_arp_ether_recv E drv pool e pkt w = None"
proof -
  let ?p = "brk w" and ?f = "Suc (brk w)" and ?n = "Suc (Suc (brk w))"
  let ?w1 = "bump (set_buf ?p (fresh_bytes w 32) w)"
  let ?w2 = "bump (set_buf ?f (fresh_bytes ?w1 64) ?w1)"
  let ?pk = "pkt\<lparr>ap_hrd := ap_hrd q, ap_pro := ap_pro q, ap_hln := 6, ap_pln := 4, ap_op := ap_op q,
    ap_sha := At (padd p 8), ap_spa := At (padd p 14), ap_tha := At (padd p 18), ap_tpa := At (padd p 24)\<rparr>"
  let ?r = "?pk\<lparr>ap_op := 2, ap_tha := At (padd p 8), ap_tpa := At (padd p 14), ap_sha := Lit (mac_address d),
    ap_spa := Lit (ip_v4 (ip_self ip)), ap_data := Ptr ?p 0, ap_data_size := 32\<rparr>"
  let ?ab = "arp_bytes (q\<lparr>ap_op := 2\<rparr>) (mac_address d) (ip_v4 (ip_self ip)) sha spa"
  let ?ys = "splice_at (fresh_bytes w 32) 0 ?ab"
  let ?w3 = "set_buf ?p ?ys ?w2"
  let ?w4 = "bump (set_node ?n (init_dblk (Ptr ?p 0) 28) ?w3)"
  let ?fr = "\<lparr>ef_dest = At (padd p 8), ef_src = At Null, ef_payload = Some ?n, ef_type = ETHER_TYPE_ARP,
    ef_crc = 0, ef_data = Ptr ?f 0, ef_data_size = 64\<rparr>"
  have unp: "arp_unpack pkt w = Some (True, ?pk)" and parts: "mem_read w (padd p 8) 6 = Some sha"
      "mem_read w (padd p 14) 4 = Some spa" "mem_read w (padd p 24) 4 = Some tpa"
    using arp_unpack_ok [OF rd(1,2) len pkt] by auto
  have fresh: "bufs w ?p = None" "bufs w ?f = None" "nodes w ?n = None"
    using wf_heap_fresh [OF wf, of ?p] wf_heap_fresh [OF wf, of ?f] wf_heap_fresh [OF wf, of ?n] by simp_all
  have apart: "ptr_buf (padd p k) \<noteq> Some ?p" "ptr_buf (padd p k) \<noteq> Some ?f" for k
    using parts(1) fresh by (cases p; auto simp: mem_read_def)+
  have abl: "length ?ab = 28" using own len by (simp add: arp_bytes_def)
  have mr: "mem_read ?w2 (padd p k) m = mem_read w (padd p k) m" for k m
    using apart [of k] by (cases "padd p k") (auto simp: mem_read_def)
  have src: "src_read ?w2 (ap_sha ?r) 6 = Some (mac_address d)" "src_read ?w2 (ap_spa ?r) 4 = Some (ip_v4 (ip_self ip))"
    "src_read ?w2 (ap_tha ?r) 6 = Some sha" "src_read ?w2 (ap_tpa ?r) 4 = Some spa"
    using own(4,6) parts(1,2) mr [of 8 6] mr [of 14 4] by simp_all
  have ab: "arp_bytes ?r = arp_bytes (q\<lparr>ap_op := 2\<rparr>)"
    using rd(2) by (simp add: arp_bytes_def eth_ip_def fun_eq_iff)
  have pack: "arp_pack ?r ?w2 = Some (28, ?r\<lparr>ap_data_size := 28\<rparr>, ?w3)"
    unfolding ab [symmetric]
    by (rule arp_pack_ok [OF _ _ _ _ _ _ _ _ _ src]) (use apart in \<open>simp_all add: eth_ip_def\<close>)
  have "find_from (list_match_ip_addr w) (nif_list w) \<lparr>ip_version = 4, ip_v4 = tpa, ip_mask = [0, 0, 0, 0]\<rparr> \<noteq> None \<and>
     fst (the (find_from (list_match_ip_addr w) (nif_list w) \<lparr>ip_version = 4, ip_v4 = tpa, ip_mask = [0, 0, 0, 0]\<rparr>)) = Some n"
    using find_ip [of "nif_list w" w "\<lparr>ip_version = 4, ip_v4 = tpa, ip_mask = [0, 0, 0, 0]\<rparr>"] ok own(1)
    by (auto simp: nifs_ok_def)
  then obtain a' where find: "list_find E (list_match_ip_addr w) (nif_list w)
      \<lparr>ip_version = 4, ip_v4 = tpa, ip_mask = [0, 0, 0, 0]\<rparr> = Some (Some n, a')"
    using E by (auto simp: list_laws_def)
  have recv: "ether_arp_ether_recv E drv pool e pkt w = arp_reply drv e nif ?pk w"
    using unp parts find own(2) rd(3) by (simp add: ether_arp_ether_recv_def)
  have blk: "block ?w4 (Some ?n) [?n] None" by (simp add: block.simps(2))
  have bytes: "block_bytes ?w4 [?n] = Some ?ab"
    using abl take_drop_splice_at [of 0 ?ab "fresh_bytes w 32"] by (simp add: node_bytes_def node_size_def mem_simps)
  have new: "dblk_node_new_from_stack (Ptr ?p 0) 28 ?w3 = (Some ?n, ?w4)"
    by (simp add: dblk_node_new_from_stack_def new_node_def)
  have pay: "block ?w4 (ef_payload ?fr) [?n] None" using blk by simp
  have dst: "src_read ?w4 (ef_dest ?fr) 6 = Some sha"
    using parts(1) apart [of 8] by (cases "padd p 8") (auto simp: mem_read_def)
  let ?zs = "splice_at (fresh_bytes ?w1 64) 0 fr"
  have buf: "bufs ?w4 ?f = Some (fresh_bytes ?w1 64)" and room: "14 + length ?ab \<le> length (fresh_bytes ?w1 64)"
    and apart': "?f \<notin> data_bufs ?w4 [?n]"
    using abl by (simp_all add: data_bufs_def)
  have send: "ether_hl_send drv e ?fr ?w4 = map_option (\<lambda>(r, h). (r, ?fr\<lparr>ef_src := Lit (mac_address e), ef_data_size := 42\<rparr>, h))
      (drv (e_interface e) (Ptr ?f 0) 42 (set_buf ?f ?zs ?w4))"
    and frame: "mem_read (set_buf ?f ?zs ?w4) (Ptr ?f 0) 42 = Some fr"
    using ether_hl_send_call(1) [OF buf room len(1) e dst _ _ _ _ pay bytes apart', of drv]
      ether_hl_send_call(2) [OF buf room len(1) e dst _ _ _ _ pay bytes apart'] abl
    by (simp_all add: fr_def)
  let ?l = "wire w @ [(e_interface e, fr)]"
  have pops: "do { w \<leftarrow> pop_node (Some ?n) ((set_buf ?f ?zs ?w4)\<lparr>wire := ?l\<rparr>); w \<leftarrow> pop_buf (Ptr ?f 0) w; pop_buf (Ptr ?p 0) w } =
      Some (w\<lparr>brk := brk w + 3, wire := ?l\<rparr>)"
    using fresh
    by (simp add: pop_node_def pop_buf_def set_buf_def set_node_def bump_def del_buf_def del_node_def
        fun_upd_twist fun_upd_idem)
  have eq: "ether_arp_ether_recv E drv pool e pkt w = do {
      (_, _, w) \<leftarrow> ether_hl_send drv e ?fr ?w4;
      w \<leftarrow> pop_node (Some ?n) w;
      w \<leftarrow> pop_buf (Ptr ?f 0) w;
      pop_buf (Ptr ?p 0) w }"
    unfolding recv arp_reply_def using own(3,5) pack new by (simp add: new_buf_def del: heap_field_commute)
  show "ether_arp_ether_recv E drv pool e pkt w = Some (w\<lparr>brk := brk w + 3, wire := ?l\<rparr>)"
    if acc: "accepts drv (e_interface e) fr"
  proof -
    obtain r where "drv (e_interface e) (Ptr ?f 0) 42 (set_buf ?f ?zs ?w4) = Some (r, (set_buf ?f ?zs ?w4)\<lparr>wire := ?l\<rparr>)"
      using acc frame unfolding accepts_def answers_def by fastforce
    then show ?thesis unfolding eq send using pops by simp
  qed
  show "ether_arp_ether_recv E drv pool e pkt w = None" if "rejects drv (e_interface e) fr"
    using that frame unfolding eq send by (simp add: rejects_def)
qed

text \<open>The request of \<open>Ether_Link\<close> is such a packet.\<close>

definition ask_packet :: arp_packet where
  "ask_packet = \<lparr>ap_hrd = 1, ap_pro = ETHER_TYPE_IP, ap_hln = 6, ap_pln = 4, ap_op = 1, ap_sha = At Null,
     ap_spa = At Null, ap_tha = At Null, ap_tpa = At Null, ap_data = Null, ap_data_size = 0\<rparr>"

lemma ask_bytes_packet:
  "ask_bytes mac sip tip = arp_bytes ask_packet mac sip (replicate 6 0) tip"
  by (simp add: ask_bytes_def arp_bytes_def ask_packet_def)

end
