(* ===== verification/Ether_Path.thy ===== *)
theory Ether_Path
  imports Udp_Path Icmp_Path Arp_Table
begin

text \<open>
  A frame that arrives: from \<^verbatim>\<open>ether_ll_recv\<close>, which a driver calls, to the handlers of IP
  packets and of ARP packets, and from there to what the program sees of it.
\<close>

section \<open>A frame from the driver\<close>

text \<open>The documented duty of \<^verbatim>\<open>recv\<close>: it stores the frame in the buffer it is given, and nothing else.\<close>

definition delivers :: "('w heap_scheme) drv_recv \<Rightarrow> addr \<Rightarrow> u8 list \<Rightarrow> bool" where
  "delivers rcv i fr \<longleftrightarrow> (\<forall>b bs n w. bufs w b = Some bs \<longrightarrow> length fr \<le> length bs \<longrightarrow> length fr \<le> n \<longrightarrow>
     rcv i (Ptr b 0) n w = Some (length fr, set_buf b (splice_at bs 0 fr) w))"

text \<open>The frame object of the driver has room for the bytes \<open>fr\<close>, at least the 64 of a smallest frame.\<close>

definition has_room :: "'w heap_scheme \<Rightarrow> ether_frame \<Rightarrow> addr \<Rightarrow> u8 list \<Rightarrow> u8 list \<Rightarrow> bool" where
  "has_room w frame fb bs fr \<longleftrightarrow> ef_data frame = Ptr fb 0 \<and> bufs w fb = Some bs \<and> length fr \<le> length bs \<and>
     length fr \<le> ef_data_size frame \<and> 64 \<le> length fr \<and> length fr < 65536 \<and> wf_heap w"

definition frame_world :: "addr \<Rightarrow> u8 list \<Rightarrow> u8 list \<Rightarrow> 'w heap_scheme \<Rightarrow> 'w heap_scheme" where
  "frame_world fb bs fr w = w\<lparr>bufs := (bufs w)(fb \<mapsto> splice_at bs 0 fr),
     nodes := (nodes w)(brk w \<mapsto> init_dblk (Ptr fb 14) (length fr - 18)), brk := Suc (brk w)\<rparr>"

lemma frame_world_sel [simp]:
  "bufs (frame_world fb bs fr w) = (bufs w)(fb \<mapsto> splice_at bs 0 fr)"
  "nodes (frame_world fb bs fr w) = (nodes w)(brk w \<mapsto> init_dblk (Ptr fb 14) (length fr - 18))"
  "brk (frame_world fb bs fr w) = Suc (brk w)" "mallocs (frame_world fb bs fr w) = mallocs w"
  "malloc_ok (frame_world fb bs fr w) = malloc_ok w"
  by (simp_all add: frame_world_def)

lemma frame_world_heap:
  fixes w :: "'w netw_scheme"
  shows "frame_world fb bs fr w = w\<lparr>bufs := bufs (frame_world fb bs fr w), nodes := nodes (frame_world fb bs fr w),
     brk := Suc (brk w), mallocs := mallocs w, ident := ident w, wire := wire w\<rparr>"
  by (simp add: frame_world_def)

lemma wf_frame_world: "has_room w frame fb bs fr \<Longrightarrow> wf_heap (frame_world fb bs fr w)"
  using wf_heap_buf [of w fb bs] unfolding wf_heap_def has_room_def by (auto simp: less_Suc_eq)

definition frame_read :: "ether_frame \<Rightarrow> addr \<Rightarrow> addr \<Rightarrow> u8 list \<Rightarrow> u16 \<Rightarrow> ether_frame" where
  "frame_read frame fb a fr ty = frame\<lparr>ef_payload := Some a, ef_data_size := length fr, ef_dest := At (Ptr fb 0),
     ef_src := At (Ptr fb 6), ef_type := ty, ef_crc := of_be32 (drop (length fr - 4) fr)\<rparr>"

lemma ether_ll_recv_frame:
  assumes e: "eths w eth = Some dv" and rcv: "delivers rcv (e_interface dv) fr" and room: "has_room w frame fb bs fr"
    and fr: "fr = frame_hdr dst src ty @ body" "length dst = 6" "length src = 6"
  shows "ether_ll_recv E drv rcv pool call eth frame w = do {
      w' \<leftarrow> ether_dispatch E drv pool call eth (frame_read frame fb (brk w) fr ty) (frame_world fb bs fr w);
      w' \<leftarrow> pop_node (Some (brk w)) w';
      Some (True, frame_read frame fb (brk w) fr ty, w') }"
proof -
  let ?w0 = "bump (set_node (brk w) (init_dblk Null 0) w)"
  let ?w1 = "set_buf fb (splice_at bs 0 fr) ?w0"
  let ?f = "frame\<lparr>ef_payload := Some (brk w), ef_data_size := length fr\<rparr>"
  have room': "ef_data frame = Ptr fb 0" "bufs w fb = Some bs" "length fr \<le> length bs"
      "length fr \<le> ef_data_size frame" "64 \<le> length fr" "length fr < 65536"
    using room by (simp_all add: has_room_def)
  have drv: "rcv (e_interface dv) (ef_data frame) (ef_data_size frame) ?w0 = Some (length fr, ?w1)"
    using rcv room' by (simp add: delivers_def)
  have whole: "mem_read ?w1 (Ptr fb 0) (length fr) = Some fr"
    using room' take_drop_splice_at [of 0 fr bs] by (simp add: mem_simps)
  have part: "mem_read ?w1 (Ptr fb k) m = Some (take m (drop k fr))" if "k + m \<le> length fr" for k m
    using mem_read_sub [OF whole that] by simp
  have ty: "br16 ?w1 (Ptr fb 12) = Some ty"
    using part [of 12 2] room' fr by (simp add: br16_read frame_hdr_def)
  have upd: "upd_node (Some (brk w)) (\<lambda>d. d\<lparr>d_size := length fr - 18, d_data := Ptr fb 14\<rparr>) ?w1 =
      Some (frame_world fb bs fr w)"
    using room' by (simp add: upd_node_def frame_world_def set_node_def set_buf_def bump_def init_dblk_def)
  have rd: "mem_read (frame_world fb bs fr w) (Ptr fb k) m = mem_read ?w1 (Ptr fb k) m" for k m
    by (simp add: mem_read_def)
  have crc: "br32 (frame_world fb bs fr w) (Ptr fb (length fr - 4)) = Some (of_be32 (drop (length fr - 4) fr))"
    using part [of "length fr - 4" 4] room' by (simp add: br32_read rd)
  have sz: "u16_of (length fr - 12 - 2 - 4) = length fr - 18" "14 + (length fr - 18) = length fr - 4"
    using room' by simp_all
  have "ether_unpack ?f ?w1 = Some (True, frame_read frame fb (brk w) fr ty, frame_world fb bs fr w)"
    using room' ty upd crc sz by (simp add: ether_unpack_def frame_read_def)
  moreover have "fr \<noteq> []" using room' by auto
  moreover have "eths ?w0 eth = Some dv" using e by (simp add: set_node_def bump_def)
  ultimately show ?thesis
    using drv room' by (simp add: ether_ll_recv_def dblk_node_new_from_stack_def new_node_def Let_def)
qed

section \<open>Frames with a packet\<close>

text \<open>An IP packet with what follows it in the frame: padding and checksum.\<close>

definition ip_frame :: "u8 list \<Rightarrow> u8 list \<Rightarrow> u8 list \<Rightarrow> u8 list \<Rightarrow> u8 list" where
  "ip_frame dst src pkt pad = frame_hdr dst src ETHER_TYPE_IP @ pkt @ pad"

definition rx_datagram :: "addr \<Rightarrow> ip_datagram" where
  "rx_datagram a = \<lparr>dg_header = zero_header, dg_payload = None, dg_raw = Some a\<rparr>"

lemma rx_datagram_rx [simp]: "rx_dg (rx_datagram a) a"
  by (simp add: rx_datagram_def rx_dg_def zero_header_def zero_addr_def)

lemma ether_ll_recv_ip:
  assumes e: "eths w eth = Some dv" and rcv: "delivers rcv (e_interface dv) (ip_frame dst src pkt pad)"
    and room: "has_room w frame fb bs (ip_frame dst src pkt pad)" and len: "length dst = 6" "length src = 6"
    and i: "ether_arp_get_ip E eth w = Some (Some i)"
  shows "ether_ll_recv E drv rcv pool call eth frame w = do {
      w' \<leftarrow> ip_ll_recv E (ip_ether_send E drv) call i (rx_datagram (brk w)) (frame_world fb bs (ip_frame dst src pkt pad) w);
      w' \<leftarrow> pop_node (Some (brk w)) w';
      Some (True, frame_read frame fb (brk w) (ip_frame dst src pkt pad) ETHER_TYPE_IP, w') }"
proof -
  let ?fr = "ip_frame dst src pkt pad" and ?f = "frame_read frame fb (brk w) (ip_frame dst src pkt pad) ETHER_TYPE_IP"
  let ?W = "frame_world fb bs ?fr w"
  have "ether_arp_get_ip E eth ?W = Some (Some i)"
    using i by (subst frame_world_heap) (simp only: get_ip_heap)
  then have "ether_dispatch E drv pool call eth ?f ?W = ip_ll_recv E (ip_ether_send E drv) call i (rx_datagram (brk w)) ?W"
    by (simp add: ether_dispatch_def frame_read_def rx_datagram_def)
  then show ?thesis
    using ether_ll_recv_frame [OF e rcv room ip_frame_def len, of E drv pool call] by simp
qed

lemma frame_world_held:
  assumes "has_room w frame fb bs (ip_frame dst src pkt pad)" "length dst = 6" "length src = 6"
  shows "held (frame_world fb bs (ip_frame dst src pkt pad) w) fb 14 pkt"
proof -
  let ?fr = "ip_frame dst src pkt pad"
  have "held (frame_world fb bs ?fr w) fb 0 ?fr"
    using assms take_drop_splice_at [of 0 ?fr bs] by (simp add: held_def has_room_def)
  then have "held (frame_world fb bs ?fr w) fb 0 (frame_hdr dst src ETHER_TYPE_IP @ pkt)"
    by (metis append_assoc held_append ip_frame_def)
  then show ?thesis using assms by (simp add: held_append frame_hdr_def)
qed

text \<open>The datagram that one host sent, as bytes of a frame, is what \<^verbatim>\<open>recvfrom\<close> returns on another.\<close>

lemma socket_on_heap:
  "socket_on E n t fd sk (w\<lparr>bufs := bs, nodes := ns, brk := k\<rparr>) = socket_on E n t fd sk w"
  by (simp add: socket_on_def find_udp_by_addr_def get_sock_def)

lemma frame_to_recvfrom:
  fixes w :: "('tm, 'w) sockw_scheme" and port :: u16 and dst src pad :: "u8 list"
  assumes E: "list_laws E" and cs: "udp_can_send w0 ip0 e0 dest" and ps: "length ps = n" "even n" "0 < n" "n < 1392"
  defines "fr \<equiv> ip_frame dst src (hdr_bytes (udp_out_hdr w0 ip0 dest n) @ udp_bytes (ip_self ip0) dest udp_random_port port ps) pad"
  assumes e: "eths w eth = Some dv" and rcv: "delivers rcv (e_interface dv) fr" and room: "has_room w frame fb bs fr"
    and len: "length dst = 6" "length src = 6"
    and i: "ether_arp_get_ip E eth w = Some (Some i)" and sk: "socket_on E i port fd sk w"
    and ok: "malloc_ok w (mallocs w)" "malloc_ok w (Suc (mallocs w))"
    and c: "bufs w c = Some cs" "c \<noteq> fb" "j + n \<le> length cs" "n < m"
  shows "\<exists>frame' w1 w2. ether_ll_recv E drv rcv pool (sock_call E app) eth frame w = Some (True, frame', w1) \<and>
    sock_recvfrom E fd (Ptr c j) m MSG_DONTWAIT w1 = Some (int n, w2) \<and>
    (\<forall>x. x \<noteq> fb \<longrightarrow> bufs w2 x = (if x = c then Some (splice_at cs j ps) else bufs w x)) \<and>
    nodes w2 = nodes w \<and> socks w2 = socks w"
proof -
  let ?W = "frame_world fb bs fr w" and ?hdr = "udp_out_hdr w0 ip0 dest n"
  have wf: "wf_heap w" "wf_heap ?W" using room wf_frame_world [OF room] by (simp_all add: has_room_def)
  have h: "held ?W fb 14 (hdr_bytes ?hdr @ udp_bytes (ip_self ip0) dest udp_random_port port ps)"
    unfolding fr_def by (rule frame_world_held) (use room len in \<open>simp_all add: fr_def\<close>)
  have big: "20 \<le> d_size (init_dblk (Ptr fb 14) (length fr - 18))"
  proof -
    have "64 \<le> length fr" "length fr - 18 < 65536" using room by (auto simp: has_room_def)
    then show ?thesis by simp
  qed
  have arr: "udp_arrived ?W (brk w) fb 14 ?hdr udp_random_port port ps"
    by (rule sent_arrives [OF cs ps(1,2,4) wf(2) _ _ big h]) simp_all
  have sk': "socket_on E i port fd sk ?W" using sk unfolding frame_world_def socket_on_heap .
  obtain k w1 where w1: "ip_ll_recv E (ip_ether_send E drv) (sock_call E app) i (rx_datagram (brk w)) ?W = Some w1"
    "brk ?W \<le> k" "queued_one fd sk k ps w1"
    "bufs w1 = (bufs ?W)(fb \<mapsto> splice_at (the (bufs ?W fb)) (14 + 26) [0, 0], k \<mapsto> ps)"
    "\<forall>x. x \<noteq> Suc k \<longrightarrow> nodes w1 x = nodes ?W x" "socks w1 = (socks ?W)(to_socket fd \<mapsto> sk\<lparr>rx_queue := [Suc k]\<rparr>)"
    using packet_queued [OF E arr _ rx_datagram_rx sk', of "ip_ether_send E drv" app] ok ps by auto
  let ?w1 = "del_node (brk w) w1"
  have run: "ether_ll_recv E drv rcv pool (sock_call E app) eth frame w =
      Some (True, frame_read frame fb (brk w) fr ETHER_TYPE_IP, ?w1)"
    using ether_ll_recv_ip [OF e rcv [unfolded fr_def] room [unfolded fr_def] len i, folded fr_def] w1(1,2,5)
    by (simp add: pop_node_def)
  have q: "queued_one fd sk k ps ?w1" using w1(2,3) by (simp add: queued_one_def get_sock_def)
  have k: "c < k" "fb < k" "bufs w k = None" "nodes w (Suc k) = None" "nodes w (brk w) = None"
    using wf_heap_buf [OF wf(1) c(1)] wf_heap_buf [OF wf(1), of fb] w1(2) room wf(1)
    by (auto simp: wf_heap_def has_room_def)
  have sk1: "IS_UDP_SOCK sk" "get_sock fd w = Some sk" "rx_queue sk = []" using sk by (simp_all add: socket_on_def)
  have c1: "bufs ?w1 c = Some cs" "c \<noteq> k" using c(1,2) k(1) w1(4) by simp_all
  have sm: "length ps < 65536" and fit: "j + length ps \<le> length cs" "length ps < m" using ps c by simp_all
  obtain w2 where w2: "sock_recvfrom E fd (Ptr c j) m MSG_DONTWAIT ?w1 = Some (int (length ps), w2)"
    "bufs w2 = (bufs ?w1)(c \<mapsto> splice_at cs j ps, k := None)" "nodes w2 = (nodes ?w1)(Suc k := None)"
    "socks w2 = (socks ?w1)(to_socket fd \<mapsto> sk\<lparr>rx_queue := []\<rparr>)"
    using recvfrom_queued [OF E q sk1(1) sm c1 fit] by blast
  have "bufs w2 x = (if x = c then Some (splice_at cs j ps) else bufs w x)" if "x \<noteq> fb" for x
    using that k w2(2) w1(4) c1(2) by simp
  moreover have "nodes w2 = nodes w" using w2(3) w1(2,5) k(4,5) by (auto simp: fun_eq_iff)
  moreover have "socks w2 = socks w"
    using w2(4) w1(6) sk1 by (auto simp: frame_world_def get_sock_def fun_eq_iff)
  ultimately show ?thesis using run w2(1) ps(1) by blast
qed

section \<open>Frames with an ARP packet\<close>

definition arp_frame :: "u8 list \<Rightarrow> u8 list \<Rightarrow> u8 list \<Rightarrow> u8 list \<Rightarrow> u8 list" where
  "arp_frame dst src pkt pad = frame_hdr dst src ETHER_TYPE_ARP @ pkt @ pad"

definition rx_arp :: "addr \<Rightarrow> nat \<Rightarrow> arp_packet" where
  "rx_arp fb n = \<lparr>ap_hrd = 0, ap_pro = 0, ap_hln = 0, ap_pln = 0, ap_op = 0, ap_sha = At Null, ap_spa = At Null,
     ap_tha = At Null, ap_tpa = At Null, ap_data = Ptr fb 14, ap_data_size = of_nat n\<rparr>"

lemma ether_ll_recv_arp:
  assumes e: "eths w eth = Some dv" and rcv: "delivers rcv (e_interface dv) (arp_frame dst src pkt pad)"
    and room: "has_room w frame fb bs (arp_frame dst src pkt pad)" and len: "length dst = 6" "length src = 6"
  shows "ether_ll_recv E drv rcv pool call eth frame w = do {
      w' \<leftarrow> ether_arp_ether_recv E drv pool dv (rx_arp fb (length pkt + length pad - 4))
        (frame_world fb bs (arp_frame dst src pkt pad) w);
      w' \<leftarrow> pop_node (Some (brk w)) w';
      Some (True, frame_read frame fb (brk w) (arp_frame dst src pkt pad) ETHER_TYPE_ARP, w') }"
proof -
  let ?fr = "arp_frame dst src pkt pad" and ?f = "frame_read frame fb (brk w) (arp_frame dst src pkt pad) ETHER_TYPE_ARP"
  let ?W = "frame_world fb bs ?fr w"
  have n: "length ?fr - 18 = length pkt + length pad - 4" using len by (simp add: arp_frame_def frame_hdr_def)
  have "length ?fr - 18 < 65536" using room by (auto simp: has_room_def)
  then have sz: "u16_of (length ?fr - 18) = length pkt + length pad - 4" using n by simp
  have "eths ?W eth = Some dv" using e by (simp add: frame_world_def)
  then have "ether_dispatch E drv pool call eth ?f ?W =
      ether_arp_ether_recv E drv pool dv (rx_arp fb (length pkt + length pad - 4)) ?W"
    using sz by (simp add: ether_dispatch_def frame_read_def rx_arp_def)
  then show ?thesis
    using ether_ll_recv_frame [OF e rcv room arp_frame_def len, of E drv pool call] by simp
qed

text \<open>The packet in the frame buffer, with the room a packet object sees.\<close>

lemma arp_in_frame:
  assumes room: "has_room w frame fb bs (arp_frame dst src pkt pad)" and len: "length dst = 6" "length src = 6"
    and n: "length pkt = 28" "length pad < 232"
  shows "mem_read (frame_world fb bs (arp_frame dst src pkt pad) w) (Ptr fb 14) 28 = Some pkt"
    and "28 \<le> unat (ap_data_size (rx_arp fb (length pkt + length pad - 4)))"
proof -
  let ?fr = "arp_frame dst src pkt pad"
  have "held (frame_world fb bs ?fr w) fb 0 ?fr"
    using room take_drop_splice_at [of 0 ?fr bs] by (simp add: held_def has_room_def)
  then have "held (frame_world fb bs ?fr w) fb 0 (frame_hdr dst src ETHER_TYPE_ARP @ pkt)"
    by (metis append_assoc held_append arp_frame_def)
  then have "held (frame_world fb bs ?fr w) fb 14 pkt" using len by (simp add: held_append frame_hdr_def)
  then show "mem_read (frame_world fb bs ?fr w) (Ptr fb 14) 28 = Some pkt" using held_read n(1) by force
  have "64 \<le> length ?fr" using room by (simp add: has_room_def)
  then have "22 \<le> length pad" using len n by (simp add: arp_frame_def frame_hdr_def)
  moreover have "unat (of_nat (length pkt + length pad - 4) :: u8) = length pkt + length pad - 4"
    using n by (intro unat_of_nat_small) simp
  ultimately show "28 \<le> unat (ap_data_size (rx_arp fb (length pkt + length pad - 4)))"
    using n(1) by (simp add: rx_arp_def)
qed

text \<open>A request for an address of this host is answered with one frame to who asked.\<close>

lemma has_ip_frame: "has_ip (frame_world fb bs fr w) = has_ip w"
  by (rule ext)+ (simp add: has_ip_def frame_world_def)

lemma request_frame_answered:
  fixes dst src pad :: "u8 list" and tha :: "u8 list"
  assumes E: "list_laws E" and ok: "nifs_ok w"
    and own: "find (has_ip w tpa) (nif_list w) = Some n" "nifs w n = Some nif" "ips w (nif_ip nif) = Some ip"
      "length (ip_v4 (ip_self ip)) = 4" "eths w (nif_eth nif) = Some d" "length (mac_address d) = 6"
    and e: "eths w eth = Some dv" "length (mac_address dv) = 6"
    and q: "eth_ip q" "ap_op q = 1" and ql: "length sha = 6" "length spa = 4" "length tha = 6" "length tpa = 4"
  defines "fr \<equiv> arp_frame dst src (arp_bytes q sha spa tha tpa) pad"
  assumes rcv: "delivers rcv (e_interface dv) fr" and room: "has_room w frame fb bs fr"
    and len: "length dst = 6" "length src = 6" "length pad < 232"
  defines "fr' \<equiv> frame_hdr sha (mac_address dv) ETHER_TYPE_ARP @
    arp_bytes (q\<lparr>ap_op := 2\<rparr>) (mac_address d) (ip_v4 (ip_self ip)) sha spa"
  shows "accepts drv (e_interface dv) fr' \<Longrightarrow>
      ether_ll_recv E drv rcv pool call eth frame w = Some (True, frame_read frame fb (brk w) fr ETHER_TYPE_ARP,
        w\<lparr>bufs := (bufs w)(fb \<mapsto> splice_at bs 0 fr), brk := brk w + 4, wire := wire w @ [(e_interface dv, fr')]\<rparr>)"
    and "rejects drv (e_interface dv) fr' \<Longrightarrow> ether_ll_recv E drv rcv pool call eth frame w = None"
proof -
  let ?pkt = "arp_bytes q sha spa tha tpa" and ?W = "frame_world fb bs fr w"
  have l28: "length ?pkt = 28" using ql by (simp add: arp_bytes_def)
  note A = arp_in_frame [OF room [unfolded fr_def] len(1,2) l28 len(3), folded fr_def]
  note R = ether_ll_recv_arp [OF e(1) rcv [unfolded fr_def] room [unfolded fr_def] len(1,2), of E drv pool call, folded fr_def]
  have W: "nifs_ok ?W" "find (has_ip ?W tpa) (nif_list ?W) = Some n" "nifs ?W n = Some nif" "ips ?W (nif_ip nif) = Some ip"
    "eths ?W (nif_eth nif) = Some d"
    using ok own unfolding has_ip_frame by (simp_all add: frame_world_def nifs_ok_def)
  have pd: "ap_data (rx_arp fb m) = Ptr fb 14" for m by (simp add: rx_arp_def)
  note Q = arp_request_reply [OF E W(1) wf_frame_world [OF room] W(2-4) own(4) W(5) own(6) e(2) A(1) q ql pd A(2),
      of drv pool, folded fr'_def]
  have fresh: "nodes w (brk w) = None" using room by (simp add: has_room_def wf_heap_def)
  show "ether_ll_recv E drv rcv pool call eth frame w = Some (True, frame_read frame fb (brk w) fr ETHER_TYPE_ARP,
        w\<lparr>bufs := (bufs w)(fb \<mapsto> splice_at bs 0 fr), brk := brk w + 4, wire := wire w @ [(e_interface dv, fr')]\<rparr>)" if "accepts drv (e_interface dv) fr'"
    unfolding R Q(1) [OF that] using fresh
    by (simp add: pop_node_def del_node_def frame_world_def fun_upd_idem)
  show "ether_ll_recv E drv rcv pool call eth frame w = None" if "rejects drv (e_interface dv) fr'"
    unfolding R Q(2) [OF that] by simp
qed

text \<open>A reply makes the address known.\<close>

lemma reply_frame_learned:
  fixes dst src pad :: "u8 list" and tha tpa :: "u8 list" and bs :: "u8 list" and fb :: addr
  assumes E: "list_laws E" and P: "pool_laws pool"
    and live: "\<And>a. a \<in> set (arp_table w) \<Longrightarrow> artis w a \<noteq> None" and d: "distinct (arp_table w)"
    and e: "eths w eth = Some dv"
    and q: "eth_ip q" "ap_op q = 2" and ql: "length sha = 6" "length spa = 4" "length tha = 6" "length tpa = 4"
  defines "fr \<equiv> arp_frame dst src (arp_bytes q sha spa tha tpa) pad"
  defines "W \<equiv> frame_world fb bs fr w"
  assumes rcv: "delivers rcv (e_interface dv) fr" and room: "has_room w frame fb bs fr"
    and len: "length dst = 6" "length src = 6" "length pad < 232"
    and some: "arp_table w \<noteq> [] \<or> fst (mem_alloc pool W) \<noteq> None"
    and new: "\<And>b. b \<in> set (kept E pool W) \<Longrightarrow> \<not> arp_hit w spa b"
    and t: "ip_v4 dest = spa" "\<not> ip_addr_broadcast dest"
  shows "\<exists>frame' w'. ether_ll_recv E drv rcv pool call eth frame w = Some (True, frame', w') \<and> link_addr w' dest sha \<and>
    bufs w' = (bufs w)(fb \<mapsto> splice_at bs 0 fr) \<and> nodes w' = nodes w"
proof -
  let ?pkt = "arp_bytes q sha spa tha tpa"
  have l28: "length ?pkt = 28" using ql by (simp add: arp_bytes_def)
  note A = arp_in_frame [OF room [unfolded fr_def] len(1,2) l28 len(3), folded fr_def W_def]
  note R = ether_ll_recv_arp [OF e(1) rcv [unfolded fr_def] room [unfolded fr_def] len(1,2), of E drv pool call,
      folded fr_def W_def]
  have W: "arp_table W = arp_table w" "artis W = artis w" "arp_hit W = arp_hit w"
    by (simp_all add: W_def frame_world_def arp_hit_def fun_eq_iff)
  have pd: "ap_data (rx_arp fb m) = Ptr fb 14" for m by (simp add: rx_arp_def)
  obtain a w' where w': "ether_arp_ether_recv E drv pool dv (rx_arp fb (length ?pkt + length pad - 4)) W = Some w'"
    "\<forall>dest. ip_v4 dest = spa \<and> \<not> ip_addr_broadcast dest \<longrightarrow> link_addr w' dest sha" "unmoved W w'"
    using arp_reply_known [OF E P _ _ _ A(1) q ql pd A(2), of drv dv] live d some new unfolding W by blast
  have nd: "nodes w' (brk w) \<noteq> None" using w'(3) by (simp add: unmoved_def W_def)
  have "nodes (del_node (brk w) w') = nodes w" "bufs (del_node (brk w) w') = (bufs w)(fb \<mapsto> splice_at bs 0 fr)"
    using w'(3) room by (auto simp: unmoved_def W_def has_room_def wf_heap_def fun_eq_iff)
  moreover have "link_addr (del_node (brk w) w') dest sha"
    using w'(2) [rule_format, of dest] t by (simp add: link_addr_def arp_hit_def [abs_def] del_node_def)
  ultimately show ?thesis unfolding R w'(1) using nd by (simp add: pop_node_def)
qed

section \<open>Frames with an echo request\<close>

text \<open>The answer goes to the sender in one frame, and the host keeps nothing but the overwritten buffer.\<close>

definition ping_hdr :: "ip_header \<Rightarrow> nat \<Rightarrow> bool" where
  "ping_hdr hdr n \<longleftrightarrow> plain_hdr hdr \<and> h_protocol hdr = IP_PROTOCOL_ICMP \<and> unat (h_total_length hdr) = 28 + n \<and>
     even n \<and> n < 1392"

lemma ping_frame_answered:
  fixes dst src pad :: "u8 list" and bs :: "u8 list" and fb i :: addr and c x s :: u16
  assumes hdr: "ping_hdr hdr (length ps)" and e: "eths w eth = Some dv" and up: "ether_up E eth w"
    and i: "ether_arp_get_ip E eth w = Some (Some i)" "ips w i = Some ip" "ip_ll ip = Some eth"
      "ip_version (ip_self ip) = 4" "wf_addr (ip_self ip)" "ident w \<noteq> 2147483647"
    and mac: "link_addr w ((h_src hdr)\<lparr>ip_version := 4\<rparr>) mac"
  defines "fr \<equiv> ip_frame dst src (hdr_bytes hdr @ echo_bytes ICMP_TYPE_ECHO c x s ps) pad"
  defines "h \<equiv> pong_hdr w ip (rx_header (rx_datagram (brk w)) hdr (Some (init_dblk (Ptr fb 14) (length fr - 18)))) (length ps)"
  assumes rcv: "delivers rcv (e_interface dv) fr" and room: "has_room w frame fb bs fr"
    and len: "length dst = 6" "length src = 6"
  shows "accepts drv (e_interface dv) (pong_frame h dv mac x s ps) \<Longrightarrow>
      \<exists>frame' w'. ether_ll_recv E drv rcv pool call eth frame w = Some (True, frame', w') \<and>
        (\<forall>a \<le> brk w. nodes w' a = nodes w a) \<and> (\<forall>b \<le> brk w. b \<noteq> fb \<longrightarrow> bufs w' b = bufs w b) \<and> same_conns w w' \<and>
        (malloc_ok w (mallocs w) \<longrightarrow> frame_given drv (e_interface dv) (pong_frame h dv mac x s ps) w w')"
    and "rejects drv (e_interface dv) (pong_frame h dv mac x s ps) \<Longrightarrow> malloc_ok w (mallocs w) \<Longrightarrow>
      ether_ll_recv E drv rcv pool call eth frame w = None"
proof -
  let ?W = "frame_world fb bs fr w" and ?pkt = "hdr_bytes hdr @ echo_bytes ICMP_TYPE_ECHO c x s ps"
  have plain: "plain_hdr hdr" and n: "length ps < 1392" "even (length ps)" using hdr by (simp_all add: ping_hdr_def)
  have wf: "wf_heap ?W" by (rule wf_frame_world [OF room])
  have held: "held ?W fb 14 ?pkt"
    unfolding fr_def by (rule frame_world_held) (use room len in \<open>simp_all add: fr_def\<close>)
  have big: "20 \<le> d_size (init_dblk (Ptr fb 14) (length fr - 18))"
  proof -
    have "64 \<le> length fr" "length fr - 18 < 65536" using room by (auto simp: has_room_def)
    then show ?thesis by simp
  qed
  have p: "ping_arrived ?W (brk w) fb 14 hdr c x s ps"
    using hdr held big wf by (simp add: ping_arrived_def ip_arrived_def ping_hdr_def)
  have W: "ips ?W i = Some ip" "ident ?W = ident w" "eths ?W eth = Some dv" "nodes ?W (brk w) = Some (init_dblk (Ptr fb 14) (length fr - 18))"
    "malloc_ok ?W (mallocs ?W) = malloc_ok w (mallocs w)"
    using i(2) e by (simp_all add: frame_world_def)
  have up': "ether_up E eth ?W" by (subst frame_world_heap) (rule ether_up_heap [OF up])
  have mac': "link_addr ?W ((h_src hdr)\<lparr>ip_version := 4\<rparr>) mac"
    using mac by (subst frame_world_heap, subst link_addr_heap) simp
  have hd: "pong_hdr ?W ip (rx_header (rx_datagram (brk w)) hdr (nodes ?W (brk w))) (length ps) = h"
    using W(2,4) by (simp add: h_def pong_hdr_def)
  have id: "ident ?W \<noteq> 2147483647" using i(6) W(2) by simp
  note P = ping_over_ethernet [OF p rx_datagram_rx W(1) i(3-5) id up' W(3) mac', unfolded hd W(5)]
  note R = ether_ll_recv_ip [OF e rcv [unfolded fr_def] room [unfolded fr_def] len i(1), of drv pool call, folded fr_def]
  have fresh: "nodes w (brk w) = None" using room by (simp add: has_room_def wf_heap_def)
  show "\<exists>frame' w'. ether_ll_recv E drv rcv pool call eth frame w = Some (True, frame', w') \<and>
        (\<forall>a \<le> brk w. nodes w' a = nodes w a) \<and> (\<forall>b \<le> brk w. b \<noteq> fb \<longrightarrow> bufs w' b = bufs w b) \<and> same_conns w w' \<and>
        (malloc_ok w (mallocs w) \<longrightarrow> frame_given drv (e_interface dv) (pong_frame h dv mac x s ps) w w')"
    if acc: "accepts drv (e_interface dv) (pong_frame h dv mac x s ps)"
  proof -
    obtain w' where w': "ip_ll_recv E (ip_ether_send E drv) call i (rx_datagram (brk w)) ?W = Some w'"
      "clean (set_buf fb (splice_at (the (bufs ?W fb)) (14 + 20) (echo_reply x s ps)) ?W) w'"
      "malloc_ok w (mallocs w) \<longrightarrow> frame_given drv (e_interface dv) (pong_frame h dv mac x s ps) ?W w'"
      using P(1) [OF acc] by blast
    have given: "malloc_ok w (mallocs w) \<longrightarrow> frame_given drv (e_interface dv) (pong_frame h dv mac x s ps) w (del_node (brk w) w')"
      using w'(3) by (simp add: frame_given_def frame_world_def)
    have nd: "nodes w' a = nodes ?W a" if "a \<le> brk w" for a using w'(2) that by (simp add: clean_def)
    have bf: "bufs w' b = bufs w b" if "b \<le> brk w" "b \<noteq> fb" for b using w'(2) that by (simp add: clean_def)
    have "same_conns w w'" using w'(2) by (simp add: clean_def same_conns_def frame_world_def set_buf_def)
    then have "same_conns w (del_node (brk w) w')" by (simp add: same_conns_def del_node_def)
    moreover have "\<forall>a \<le> brk w. nodes (del_node (brk w) w') a = nodes w a"
      using nd fresh by simp
    ultimately show ?thesis
      unfolding R using w'(1) nd [of "brk w"] bf given by (simp add: pop_node_def)
  qed
  show "ether_ll_recv E drv rcv pool call eth frame w = None"
    if "rejects drv (e_interface dv) (pong_frame h dv mac x s ps)" "malloc_ok w (mallocs w)"
    unfolding R P(2) [OF that] by simp
qed

end
