(* ===== verification/Ip_Fragments.thy ===== *)
theory Ip_Fragments
  imports Ether_Link Dblk_Fragment
begin

text \<open>
  What becomes of a datagram of 1400 bytes or more: \<^verbatim>\<open>ip_hl_send\<close> cuts it into pieces of
  1400 bytes and sends each in a packet of its own, in order, with the headers that its
  loop computes.
\<close>

section \<open>The packets\<close>

definition chunk :: "u8 list \<Rightarrow> nat \<Rightarrow> u8 list" where
  "chunk bs j = take 1400 (drop (j * 1400) bs)"

text \<open>
  The header of packet \<open>j\<close> of \<open>k\<close>: the offset grows by 177 from packet to packet, and all
  but the last have the flag that more follow.
\<close>

definition frag_out :: "ip \<Rightarrow> int \<Rightarrow> ip_header \<Rightarrow> u8 list \<Rightarrow> nat \<Rightarrow> nat \<Rightarrow> ip_header" where
  "frag_out ip i hdr bs k j = sealed_hdr (hdr\<lparr>h_version := ip_version (ip_self ip) AND 0x0F, h_src := ip_self ip,
     h_ident := of_int i, h_fragoff := of_nat (177 * j), h_total_length := of_nat (length (chunk bs j)),
     h_flags := mkflags 0 (if Suc j < k then 1 else 0)\<rparr>)"

fun loop_hdr :: "ip_header \<Rightarrow> u8 list \<Rightarrow> nat \<Rightarrow> nat \<Rightarrow> ip_header" where
  "loop_hdr h bs k 0 = h"
| "loop_hdr h bs k (Suc j) = frag_advance (sealed_hdr (frag_hdr (loop_hdr h bs k j) (length (chunk bs j)) (Suc j < k)))"

definition start_hdr :: "ip \<Rightarrow> int \<Rightarrow> ip_header \<Rightarrow> ip_header" where
  "start_hdr ip i hdr = hdr\<lparr>h_version := ip_version (ip_self ip) AND 0x0F, h_src := ip_self ip, h_ident := of_int i,
     h_fragoff := 0\<rparr>"

lemma sealed_twice: "sealed_hdr (hdr\<lparr>h_checksum := c\<rparr>) = sealed_hdr hdr"
  by (simp add: sealed_hdr_def Let_def)

lemma length_chunk: "length (chunk bs j) = min 1400 (length bs - j * 1400)"
  by (simp add: chunk_def min_def)

lemma full_chunk: "Suc j < frag_count (length bs) 1400 \<Longrightarrow> length (chunk bs j) = 1400"
proof -
  assume j: "Suc j < frag_count (length bs) 1400"
  then have "0 < length bs" by (cases "length bs = 0") (simp_all add: frag_count_def)
  from frag_count_bounds(2) [OF this, of 1400]
  have "(frag_count (length bs) 1400 - 1) * 1400 < length bs" by simp
  moreover have "Suc j * 1400 \<le> (frag_count (length bs) 1400 - 1) * 1400"
    using j by (intro mult_le_mono1) simp
  ultimately show ?thesis by (simp add: length_chunk)
qed

text \<open>The headers of the loop in closed form: 46 packets before the last keep the offset in its field.\<close>

lemma start_frag:
  assumes "loop_hdr h bs k j = h\<lparr>h_fragoff := off, h_total_length := t, h_flags := f, h_checksum := c\<rparr>"
  shows "sealed_hdr (frag_hdr (loop_hdr h bs k j) (length (chunk bs j)) (Suc j < k)) =
    sealed_hdr (h\<lparr>h_fragoff := off, h_total_length := of_nat (length (chunk bs j)),
      h_flags := mkflags 0 (if Suc j < k then 1 else 0)\<rparr>)"
  unfolding assms by (simp add: frag_hdr_def sealed_hdr_def Let_def)

lemma offset_step:
  assumes "j < 46"
  shows "(of_nat (177 * j) + (1400 + 20 :: u16) div 8) AND 0x1FFF = of_nat (177 * Suc j)"
proof -
  obtain x where x: "x = 177 * Suc j" by simp
  have small: "x < 8192" using assms by (simp add: x)
  then have "unat (of_nat x :: u16) = x" by (simp add: unat_of_nat take_bit_nat_eq_self)
  with small have "(of_nat x :: u16) < 2 ^ 13" by (simp add: word_less_nat_alt)
  then have "(of_nat x :: u16) AND mask 13 = of_nat x" by (rule less_mask_eq)
  moreover have "(0x1FFF :: u16) = mask 13" by (simp add: mask_eq_exp_minus_1)
  moreover have "(of_nat (177 * j) + (1400 + 20) div 8 :: u16) = of_nat x" by (simp add: x)
  ultimately show ?thesis by (simp only: x)
qed

lemma loop_hdr_eq:
  assumes k: "k = frag_count (length bs) 1400" "length bs < 65536" and h: "h_fragoff h = 0" and j: "j < k"
  shows "\<exists>t f c. loop_hdr h bs k j = h\<lparr>h_fragoff := of_nat (177 * j), h_total_length := t, h_flags := f, h_checksum := c\<rparr>"
  using j
proof (induction j)
  case 0
  have "loop_hdr h bs k 0 = h\<lparr>h_fragoff := of_nat (177 * 0), h_total_length := h_total_length h, h_flags := h_flags h,
    h_checksum := h_checksum h\<rparr>"
    using h by simp
  then show ?case by (intro exI)
next
  case (Suc j)
  then obtain t f c where "loop_hdr h bs k j =
      h\<lparr>h_fragoff := of_nat (177 * j), h_total_length := t, h_flags := f, h_checksum := c\<rparr>" by auto
  note s = start_frag [OF this]
  have full: "length (chunk bs j) = 1400" using full_chunk [of j bs] Suc.prems k(1) by simp
  have "0 < length bs" using Suc.prems k(1) by (cases "length bs = 0") (simp_all add: frag_count_def)
  from frag_count_bounds(2) [OF this, of 1400] have "(k - 1) * 1400 < 65536" using k by simp
  then have j46: "j < 46" using Suc.prems by linarith
  obtain y where y: "y = h\<lparr>h_fragoff := of_nat (177 * j), h_total_length := of_nat 1400,
    h_flags := mkflags 0 (if Suc j < k then 1 else 0)\<rparr>" by simp
  obtain c where c: "sealed_hdr y = y\<lparr>h_total_length := of_nat 1400 + 20, h_checksum := c\<rparr>"
    by (simp add: sealed_hdr_def Let_def y)
  have "frag_advance (sealed_hdr y) = y\<lparr>h_total_length := of_nat 1400 + 20, h_checksum := c,
      h_fragoff := (h_fragoff y + (1400 + 20) div 8) AND 0x1FFF\<rparr>"
    by (simp add: frag_advance_def c)
  also have "\<dots> = h\<lparr>h_fragoff := of_nat (177 * Suc j), h_total_length := of_nat 1400 + 20,
    h_flags := mkflags 0 (if Suc j < k then 1 else 0), h_checksum := c\<rparr>"
    using offset_step [OF j46] by (simp add: y)
  finally have "\<exists>t f c. frag_advance (sealed_hdr y) =
      h\<lparr>h_fragoff := of_nat (177 * Suc j), h_total_length := t, h_flags := f, h_checksum := c\<rparr>" by (intro exI)
  then show ?case by (simp only: loop_hdr.simps full s [unfolded full] y)
qed

lemma loop_sealed:
  assumes k: "k = frag_count (length bs) 1400" "length bs < 65536" and j: "j < k"
  shows "sealed_hdr (frag_hdr (loop_hdr (start_hdr ip i hdr) bs k j) (length (chunk bs j)) (Suc j < k)) =
    frag_out ip i hdr bs k j"
proof -
  obtain t f c where "loop_hdr (start_hdr ip i hdr) bs k j = (start_hdr ip i hdr)
      \<lparr>h_fragoff := of_nat (177 * j), h_total_length := t, h_flags := f, h_checksum := c\<rparr>"
    using loop_hdr_eq [OF k _ j, of "start_hdr ip i hdr"] by (auto simp: start_hdr_def)
  from start_frag [OF this] show ?thesis by (simp add: frag_out_def start_hdr_def)
qed

lemma loop_fields:
  "h_version (loop_hdr h bs k j) = h_version h" "h_option_size (loop_hdr h bs k j) = h_option_size h"
  "h_src (loop_hdr h bs k j) = h_src h" "h_dest (loop_hdr h bs k j) = h_dest h"
  by (induction j) (simp_all add: frag_advance_def sealed_hdr_def frag_hdr_def Let_def)

section \<open>The memory of the loop\<close>

text \<open>
  Before packet \<open>j\<close> of the payload in a node \<open>d\<close> of \<open>w\<close>: the header node and its buffer lie
  at the end of what was there before, then come the nodes of the pieces, of which those
  from \<open>j\<close> on are as \<^verbatim>\<open>dblk_fragment\<close> left them; everything older is as it was.
\<close>

definition frag_inv :: "'w netw_scheme \<Rightarrow> dblk \<Rightarrow> nat \<Rightarrow> nat \<Rightarrow> 'w netw_scheme \<Rightarrow> bool" where
  "frag_inv w d k j g \<longleftrightarrow> heap_only w g \<and> wf_heap g \<and> brk w + 2 + k \<le> brk g \<and>
     (\<forall>x < brk w. nodes g x = nodes w x \<and> bufs g x = bufs w x) \<and>
     (\<exists>hb. bufs g (brk w) = Some hb \<and> 20 \<le> length hb) \<and>
     (\<exists>r. nodes g (Suc (brk w)) = Some r \<and> d_data r = Ptr (brk w) 0 \<and> 20 \<le> d_size r \<and> d_vsize r = 0 \<and>
        \<not> d_node_malloc r \<and> \<not> d_data_malloc r) \<and>
     (\<forall>i. j \<le> i \<longrightarrow> i < k \<longrightarrow>
        nodes g (brk w + 2 + i) = Some (frag_of (d_data d) (d_size d) 1400 (brk w + 2) k i))"

text \<open>The memory that packet \<open>H\<close> is sent from, with the piece in the node \<open>c\<close>.\<close>

definition frag_world :: "addr \<Rightarrow> addr \<Rightarrow> ip_header \<Rightarrow> 'w heap_scheme \<Rightarrow> 'w heap_scheme" where
  "frag_world b c H g = set_node (Suc b) ((the (nodes g (Suc b)))\<lparr>d_size := 20, d_next := Some c, d_more := True\<rparr>)
     (set_node c ((the (nodes g c))\<lparr>d_next := None\<rparr>)
        (set_buf b (splice_at (the (bufs g b)) 0 (hdr_bytes H)) g))"

lemma frag_world_heap: "frag_world b c H g = g\<lparr>bufs := bufs (frag_world b c H g), nodes := nodes (frag_world b c H g)\<rparr>"
  by (simp add: frag_world_def set_buf_def set_node_def)

lemma frag_size:
  assumes "frag_inv w d k j g" "j < k" "j * 1400 < d_size d"
  shows "dblk_size g (Some (brk w + 2 + j)) = Some (min 1400 (d_size d - j * 1400))"
proof -
  obtain c where c: "c = brk w + 2 + j" by simp
  obtain f where f: "f = frag_of (d_data d) (d_size d) 1400 (brk w + 2) k j" by simp
  have "nodes g c = Some f" using assms(1,2) by (simp add: frag_inv_def c f)
  moreover have "\<not> d_more f" "node_size f = min 1400 (d_size d - j * 1400)"
    using assms(3) by (simp_all add: f frag_of_def blank_frag_def node_size_def)
  ultimately show ?thesis
    unfolding c [symmetric] by (simp add: dblk_size_def dblk_size_loop.simps [of g "Some c"])
qed

lemma frag_step:
  assumes inv: "frag_inv w d k j g" and j: "j < k" "j * 1400 < d_size d"
    and plain: "plain_hdr (dg_header dg)" and raw: "dg_raw dg = Some (Suc (brk w))"
  defines "c \<equiv> brk w + 2 + j" and "nxt \<equiv> chain_next (brk w + 2) k j"
  defines "H \<equiv> sealed_hdr (frag_hdr (dg_header dg) (min 1400 (d_size d - j * 1400)) (Suc j < k))"
  shows "send_fragments ll_send ip dg (Some c) nxt g = do {
     (ok, h) \<leftarrow> call_ll_send ll_send ip (dg\<lparr>dg_header := H\<rparr>) (frag_world (brk w) c H g);
     if ok = 0 then do {
       h \<leftarrow> dblk_list_delete (Some c) h;
       h \<leftarrow> dblk_list_delete nxt h;
       h \<leftarrow> dblk_list_delete (dg_payload dg) h;
       Some (0, h) }
     else do {
       nxt' \<leftarrow> dblk_next h nxt;
       send_fragments ll_send ip (dg\<lparr>dg_header := frag_advance H\<rparr>) nxt nxt' h } }"
proof -
  obtain hb where hb: "bufs g (brk w) = Some hb" "20 \<le> length hb" using inv by (auto simp: frag_inv_def)
  obtain r where r: "nodes g (Suc (brk w)) = Some r" "d_data r = Ptr (brk w) 0" "20 \<le> d_size r"
    using inv by (auto simp: frag_inv_def)
  have f: "nodes g c = Some (frag_of (d_data d) (d_size d) 1400 (brk w + 2) k j)"
    using inv j by (simp add: frag_inv_def c_def)
  have more: "(nxt \<noteq> None) = (Suc j < k)" by (simp add: nxt_def chain_next_def)
  have plain': "plain_hdr (frag_hdr (dg_header dg) n mf)" for n mf
    using plain by (simp add: plain_hdr_def frag_hdr_def)
  have pack: "ip_header_pack (frag_hdr (dg_header dg) (min 1400 (d_size d - j * 1400)) (Suc j < k))
      (d_data r) (d_size r) g = Some (20, H, set_buf (brk w) (splice_at hb 0 (hdr_bytes H)) g)"
    using ip_header_pack_ok [OF plain' r(3), of g "brk w" hb 0] hb r(2) by (simp add: H_def)
  have c: "c \<noteq> Suc (brk w)" by (simp add: c_def)
  have link: "do { h \<leftarrow> upd_node (Some (Suc (brk w))) (\<lambda>d. d\<lparr>d_size := u16_of 20\<rparr>)
        (set_buf (brk w) (splice_at hb 0 (hdr_bytes H)) g);
      h \<leftarrow> upd_node (Some c) (\<lambda>d. d\<lparr>d_next := None\<rparr>) h;
      dblk_node_concat (Some (Suc (brk w))) (Some c) h } = Some (frag_world (brk w) c H g)"
    using r(1) f hb(1) c
    by (simp add: dblk_node_concat_def frag_world_def set_node_def set_buf_def fun_upd_twist)
  show ?thesis
    using frag_size [OF inv j, folded c_def] raw r(1) pack [folded more] link
    by (subst send_fragments.simps) (simp add: Let_def del: not_None_eq cong: if_cong flip: bind_assoc)
qed

text \<open>That memory holds the packet as one block, and what the driver's call leaves of it goes on.\<close>

lemma frag_packet:
  assumes inv: "frag_inv w d k j g" and j: "j < k" "j * 1400 < d_size d" and wf: "wf_heap w"
    and d: "nodes w a = Some d" and bs: "mem_read w (d_data d) (d_size d) = Some bs"
    and H: "plain_hdr H"
  defines "c \<equiv> brk w + 2 + j"
  defines "g1 \<equiv> frag_world (brk w) c H g"
  shows "block g1 (Some (Suc (brk w))) [Suc (brk w), c] None"
    and "block_bytes g1 [Suc (brk w), c] = Some (hdr_bytes H @ chunk bs j)"
    and "deletable g1 [Suc (brk w), c]" and "wf_heap g1" and "heap_only w g1"
    and "link_keeps [Suc (brk w), c] r g1 g' \<Longrightarrow> frag_inv w d k (Suc j) g'"
proof -
  obtain hb where hb: "bufs g (brk w) = Some hb" "20 \<le> length hb" using inv by (auto simp: frag_inv_def)
  obtain r where r: "nodes g (Suc (brk w)) = Some r" "d_data r = Ptr (brk w) 0" "20 \<le> d_size r" "d_vsize r = 0"
    "\<not> d_node_malloc r" "\<not> d_data_malloc r"
    using inv by (auto simp: frag_inv_def)
  obtain f where f: "f = frag_of (d_data d) (d_size d) 1400 (brk w + 2) k j" by simp
  have fc: "nodes g c = Some f" using inv j by (simp add: frag_inv_def c_def f)
  have ff: "\<not> d_more f" "d_node_malloc f" "\<not> d_data_malloc f" "d_data f = padd (d_data d) (j * 1400)"
    "d_vsize f \<le> d_size f" "d_vsize f = min 1400 (d_size d - j * 1400)" "0 < d_vsize f"
    using j(2) by (simp_all add: f frag_of_def blank_frag_def)
  have cR: "c \<noteq> Suc (brk w)" by (simp add: c_def)
  let ?r = "r\<lparr>d_size := 20, d_next := Some c, d_more := True\<rparr>" and ?f = "f\<lparr>d_next := None\<rparr>"
  let ?hb = "splice_at hb 0 (hdr_bytes H)"
  have g1: "g1 = set_node (Suc (brk w)) ?r (set_node c ?f (set_buf (brk w) ?hb g))"
    using hb(1) r(1) fc by (simp add: g1_def frag_world_def)
  have n1: "nodes g1 = (nodes g)(c \<mapsto> ?f, Suc (brk w) \<mapsto> ?r)" "bufs g1 = (bufs g)(brk w \<mapsto> ?hb)" "brk g1 = brk g"
    by (simp_all add: g1)
  show "block g1 (Some (Suc (brk w))) [Suc (brk w), c] None"
    using cR ff(1) by (simp add: n1 block.simps(2))
  have pb: "ptr_buf (d_data d) = Some b \<Longrightarrow> b < brk w" for b by (rule wf_heap_data [OF wf d])
  have mr: "mem_read g1 (d_data d) n = mem_read w (d_data d) n" for n
    using inv pb by (cases "d_data d") (auto simp: mem_read_def n1 frag_inv_def)
  have "mem_read g1 (padd (d_data d) (j * 1400)) (min 1400 (d_size d - j * 1400)) =
      Some (take (min 1400 (d_size d - j * 1400)) (drop (j * 1400) bs))"
    by (rule mem_read_sub [where n = "d_size d"]) (use bs j(2) mr in \<open>simp, linarith\<close>)
  moreover have "take (min 1400 (d_size d - j * 1400)) (drop (j * 1400) bs) = chunk bs j"
    using mem_read_length [OF bs] by (simp add: chunk_def min_def)
  moreover have "node_bytes g1 c = mem_read g1 (d_data f) (d_vsize f)"
    using ff(5,7) cR by (simp add: node_bytes_def n1 node_size_def)
  ultimately have "node_bytes g1 c = Some (chunk bs j)" by (simp only: ff(4,6))
  moreover have "node_bytes g1 (Suc (brk w)) = Some (hdr_bytes H)"
    using r hb H take_drop_splice_at [of 0 "hdr_bytes H" hb] by (simp add: node_bytes_def node_size_def n1 mem_simps)
  ultimately show "block_bytes g1 [Suc (brk w), c] = Some (hdr_bytes H @ chunk bs j)" by simp
  show "deletable g1 [Suc (brk w), c]" using r ff cR by (simp add: n1)
  have wfg: "wf_heap g" and brk: "brk w + 2 + k \<le> brk g" and only: "heap_only w g"
    using inv by (simp_all add: frag_inv_def)
  show "wf_heap g1"
    unfolding g1
  proof (intro wf_heap_set_node wf_heap_set_buf wfg)
    fix b assume "ptr_buf (d_data ?f) = Some b"
    then have "ptr_buf (d_data d) = Some b" using ff(4) by (cases "d_data d") simp_all
    from pb [OF this] show "b < brk (set_buf (brk w) ?hb g)" using brk by simp
  qed (use brk j r(2) in \<open>auto simp: c_def\<close>)
  show "heap_only w g1" using only by (simp add: g1)
  show "frag_inv w d k (Suc j) g'" if lk: "link_keeps [Suc (brk w), c] q g1 g'" for q g'
  proof -
    have own: "owned_buf g1 ` set [Suc (brk w), c] = {None}" and fr: "\<not> freed_node g1 (Suc (brk w))"
      using \<open>\<not> d_data_malloc r\<close> \<open>\<not> d_node_malloc r\<close> ff cR by (simp_all add: owned_buf_def freed_node_def n1)
    have bf: "bufs g' x = bufs g1 x" if "x < brk g" for x
      using lk that own unfolding link_keeps_def by (simp add: n1)
    have nd: "nodes g' x = nodes g1 x" if "x < brk g" "x \<noteq> c" for x
      using lk that fr unfolding link_keeps_def by (auto simp: n1)
    have "brk g \<le> brk g'" "wf_heap g'" "heap_only g1 g'" using lk by (simp_all add: link_keeps_def n1)
    then show ?thesis
      using inv brk only bf nd \<open>heap_only w g1\<close> heap_only_trans [of w g1 g'] hb r cR H
      unfolding frag_inv_def by (auto simp: n1 c_def)
  qed
qed

section \<open>The loop over Ethernet\<close>

text \<open>A payload of 1400 bytes or more in one node \<open>a\<close>, for an address that the table knows.\<close>

definition frags_ready :: "'tm ext \<Rightarrow> addr \<Rightarrow> ether \<Rightarrow> ip \<Rightarrow> ip_header \<Rightarrow> ('tm, 'w) linkw_scheme \<Rightarrow> addr \<Rightarrow> dblk \<Rightarrow>
    u8 list \<Rightarrow> u8 list \<Rightarrow> bool" where
  "frags_ready E e dv ip hdr w a d bs mac \<longleftrightarrow> ether_up E e w \<and> wf_heap w \<and> eths w e = Some dv \<and> ip_ll ip = Some e \<and>
     link_ready ip hdr \<and> link_addr w (h_dest hdr) mac \<and> (\<forall>m. malloc_ok w m) \<and>
     nodes w a = Some d \<and> \<not> d_more d \<and> d_next d = None \<and> d_vsize d = 0 \<and> 1400 \<le> d_size d \<and> d_size d < 65536 \<and>
     mem_read w (d_data d) (d_size d) = Some bs \<and> deletable w [a] \<and> ident w \<noteq> 2147483647"

definition frag_frame :: "ip \<Rightarrow> ether \<Rightarrow> u8 list \<Rightarrow> int \<Rightarrow> ip_header \<Rightarrow> u8 list \<Rightarrow> nat \<Rightarrow> u8 list" where
  "frag_frame ip dv mac i hdr bs j = frame_hdr mac (mac_address dv) ETHER_TYPE_IP @
     hdr_bytes (frag_out ip i hdr bs (frag_count (length bs) 1400) j) @ chunk bs j"

lemma frag_out_fields:
  "link_ready ip hdr \<Longrightarrow> plain_hdr (frag_out ip i hdr bs k j)" "h_dest (frag_out ip i hdr bs k j) = h_dest hdr"
  by (simp_all add: frag_out_def plain_hdr_def link_ready_def sealed_hdr_def Let_def)

lemma frag_next:
  assumes "frag_inv w d k j g"
  shows "dblk_next g (if j < k then Some (brk w + 2 + j) else None) =
    Some (if j < k then chain_next (brk w + 2) k j else None)"
proof (cases "j < k")
  case True
  obtain c where c: "c = brk w + 2 + j" by simp
  have "nodes g c = Some (frag_of (d_data d) (d_size d) 1400 (brk w + 2) k j)"
    using assms True by (simp add: frag_inv_def c)
  then show ?thesis
    using True unfolding c [symmetric] by (simp add: dblk_next.simps [of g "Some c"] frag_of_def blank_frag_def)
qed (simp add: dblk_next.simps)

lemma frag_send:
  assumes rd: "frags_ready E e dv ip hdr w a d bs mac" and k: "k = frag_count (length bs) 1400"
    and inv: "frag_inv w d k j g" and j: "j < k"
    and dg: "dg_raw dg = Some (Suc (brk w))" "dg_payload dg = Some a"
      "dg_header dg = loop_hdr (start_hdr ip (ident w + 1) hdr) bs k j"
  defines "nxt \<equiv> chain_next (brk w + 2) k j" and "fr \<equiv> frag_frame ip dv mac (ident w + 1) hdr bs j"
  shows "accepts drv (e_interface dv) fr \<Longrightarrow> \<exists>g'. frag_inv w d k (Suc j) g' \<and> frame_given drv (e_interface dv) fr g g' \<and>
      send_fragments (ip_ether_send E drv) ip dg (Some (brk w + 2 + j)) nxt g =
      send_fragments (ip_ether_send E drv) ip
        (dg\<lparr>dg_header := loop_hdr (start_hdr ip (ident w + 1) hdr) bs k (Suc j)\<rparr>) nxt
        (if Suc j < k then chain_next (brk w + 2) k (Suc j) else None) g'"
    and "rejects drv (e_interface dv) fr \<Longrightarrow>
      send_fragments (ip_ether_send E drv) ip dg (Some (brk w + 2 + j)) nxt g = None"
proof -
  let ?H = "frag_out ip (ident w + 1) hdr bs k j"
  have len: "length bs = d_size d" using rd mem_read_length unfolding frags_ready_def by metis
  have n: "0 < d_size d" using rd by (simp add: frags_ready_def)
  have "j * 1400 \<le> (k - 1) * 1400" by (rule mult_le_mono1) (use j in linarith)
  then have jn: "j * 1400 < d_size d" using frag_count_bounds(2) [OF n, of 1400] k len by simp
  have chunk: "length (chunk bs j) = min 1400 (d_size d - j * 1400)" by (simp add: length_chunk len)
  have H: "sealed_hdr (frag_hdr (dg_header dg) (min 1400 (d_size d - j * 1400)) (Suc j < k)) = ?H"
    using loop_sealed [OF k _ j, of ip "ident w + 1" hdr] rd len dg(3) by (simp add: chunk frags_ready_def)
  have adv: "frag_advance ?H = loop_hdr (start_hdr ip (ident w + 1) hdr) bs k (Suc j)"
    by (simp add: chunk dg(3) flip: H)
  have plain: "plain_hdr (dg_header dg)"
    using rd by (simp add: dg(3) plain_hdr_def loop_fields start_hdr_def frags_ready_def link_ready_def)
  have pH: "plain_hdr ?H" "h_dest ?H = h_dest hdr" using rd frag_out_fields by (auto simp: frags_ready_def)
  obtain c where c: "c = brk w + 2 + j" by simp
  obtain g1 where g1: "g1 = frag_world (brk w) c ?H g" by simp
  note pk = frag_packet [OF inv j jn _ _ _ pH(1), of a bs, folded c, folded g1]
  have w: "wf_heap w" "nodes w a = Some d" "mem_read w (d_data d) (d_size d) = Some bs" "ip_ll ip = Some e"
    "ether_up E e w" "eths w e = Some dv" "link_addr w (h_dest hdr) mac" "malloc_ok w m" for m
    using rd by (simp_all add: frags_ready_def)
  note blk = pk(1) [OF w(1-3)] and bytes = pk(2) [OF w(1-3)] and del = pk(3) [OF w(1-3)]
    and wf1 = pk(4) [OF w(1-3)] and only = pk(5) [OF w(1-3)] and keeps = pk(6) [OF w(1-3)]
  note lk = only_link [OF only]
  let ?dg = "dg\<lparr>dg_header := ?H\<rparr>"
  have up1: "ether_up E e g1" "eths g1 e = Some dv" "link_addr g1 (h_dest (dg_header ?dg)) mac" "malloc_ok g1 (mallocs g1)"
    using lk w pH(2) by simp_all
  have small: "length (hdr_bytes ?H @ chunk bs j) \<le> 1500" using pH(1) chunk by simp
  have raw: "block g1 (dg_raw ?dg) [Suc (brk w), c] None" using blk dg(1) by simp
  note step = frag_step [OF inv j jn plain dg(1), of "ip_ether_send E drv" ip, unfolded H, folded c nxt_def, folded g1]
  have fr: "fr = frame_hdr mac (mac_address dv) ETHER_TYPE_IP @ hdr_bytes ?H @ chunk bs j"
    by (simp add: fr_def frag_frame_def k)
  show "\<exists>g'. frag_inv w d k (Suc j) g' \<and> frame_given drv (e_interface dv) fr g g' \<and>
      send_fragments (ip_ether_send E drv) ip dg (Some (brk w + 2 + j)) nxt g =
      send_fragments (ip_ether_send E drv) ip
        (dg\<lparr>dg_header := loop_hdr (start_hdr ip (ident w + 1) hdr) bs k (Suc j)\<rparr>) nxt
        (if Suc j < k then chain_next (brk w + 2) k (Suc j) else None) g'"
    if acc: "accepts drv (e_interface dv) fr"
  proof -
    obtain r g' where r: "ip_ether_send E drv e ?dg g1 = Some (r, g')" and lk: "link_keeps [Suc (brk w), c] r g1 g'"
      and gv: "frame_given drv (e_interface dv) fr g1 g'"
      using ip_ether_send_known [OF up1(1) wf1 up1(2) raw bytes small del up1(3), of drv] acc fr up1(4) by auto
    have gv: "frame_given drv (e_interface dv) fr g g'" using gv by (simp add: frame_given_def g1 frag_world_def)
    from lk have inv': "frag_inv w d k (Suc j) g'" by (intro keeps)
    have one: "r = 1" by (rule ip_ether_send_one [OF up1(1,3,4) r])
    have nxt: "nxt = (if Suc j < k then Some (brk w + 2 + Suc j) else None)" by (simp add: nxt_def chain_next_def)
    have "send_fragments (ip_ether_send E drv) ip dg (Some c) nxt g =
        send_fragments (ip_ether_send E drv) ip (dg\<lparr>dg_header := frag_advance ?H\<rparr>) nxt
        (if Suc j < k then chain_next (brk w + 2) k (Suc j) else None) g'"
      using step r one frag_next [OF inv', folded nxt] w(4) by (simp add: call_ll_send_def)
    then show ?thesis using inv' gv unfolding c adv by blast
  qed
  show "send_fragments (ip_ether_send E drv) ip dg (Some (brk w + 2 + j)) nxt g = None"
    if rej: "rejects drv (e_interface dv) fr"
    using ip_ether_send_rejected [OF up1(1) wf1 up1(2) raw bytes small up1(3,4), of drv] rej step w(4)
    unfolding c [symmetric] by (simp add: fr call_ll_send_def)
qed

text \<open>The frames \<open>fr j\<close> to \<open>fr (k - 1)\<close> given to the driver in their order, each by the rule of \<open>tries\<close>.\<close>

definition frames_given :: "('w heap_scheme) drv_send \<Rightarrow> addr \<Rightarrow> (nat \<Rightarrow> u8 list) \<Rightarrow> nat \<Rightarrow> nat \<Rightarrow> 'w heap_scheme \<Rightarrow> 'w heap_scheme \<Rightarrow>
    bool" where
  "frames_given drv i fr j k w w' \<longleftrightarrow> (\<exists>ns. (\<forall>m. j \<le> m \<longrightarrow> m < k \<longrightarrow> tries drv i (fr m) (ns m)) \<and>
     wire w' = wire w @ concat (map (\<lambda>m. replicate (ns m) (i, fr m)) [j..<k]))"

lemma frames_given_start: "frames_given drv i fr k k w w' \<longleftrightarrow> wire w' = wire w"
  by (simp add: frames_given_def)

lemma frames_given_step:
  assumes "frame_given drv i (fr j) w v" "frames_given drv i fr (Suc j) k v w'" "j < k"
  shows "frames_given drv i fr j k w w'"
proof -
  obtain n ns where n: "tries drv i (fr j) n" "wire v = wire w @ replicate n (i, fr j)"
    and ns: "\<And>m. Suc j \<le> m \<Longrightarrow> m < k \<Longrightarrow> tries drv i (fr m) (ns m)"
      "wire w' = wire v @ concat (map (\<lambda>m. replicate (ns m) (i, fr m)) [Suc j..<k])"
    using assms(1,2) unfolding frame_given_def frames_given_def by blast
  have e: "map (\<lambda>m. replicate ((ns(j := n)) m) (i, fr m)) [Suc j..<k] = map (\<lambda>m. replicate (ns m) (i, fr m)) [Suc j..<k]"
    by (rule map_cong) auto
  have "wire w' = wire w @ concat (map (\<lambda>m. replicate ((ns(j := n)) m) (i, fr m)) [j..<k])"
    unfolding upt_conv_Cons [OF assms(3)] list.map concat.simps ns(2) n(2) e by simp
  moreover have "tries drv i (fr m) ((ns(j := n)) m)" if "j \<le> m" "m < k" for m
    using n(1) ns(1) [of m] that by (cases "m = j") auto
  ultimately show ?thesis unfolding frames_given_def by blast
qed

text \<open>If every frame is taken, each is given once.\<close>

lemma frames_given_once:
  assumes "frames_given drv i fr 0 k w w'" "\<And>j. j < k \<Longrightarrow> takes drv i (fr j)"
  shows "wire w' = wire w @ map (\<lambda>j. (i, fr j)) [0..<k]"
proof -
  obtain ns where ns: "\<And>m. m < k \<Longrightarrow> tries drv i (fr m) (ns m)"
    "wire w' = wire w @ concat (map (\<lambda>m. replicate (ns m) (i, fr m)) [0..<k])"
    using assms(1) by (auto simp: frames_given_def)
  have "map (\<lambda>m. replicate (ns m) (i, fr m)) [0..<k] = map (\<lambda>m. [(i, fr m)]) [0..<k]"
    using ns(1) assms(2) by (auto simp: tries_def)
  moreover have "concat (map (\<lambda>m. [(i, fr m)]) [0..<k]) = map (\<lambda>m. (i, fr m)) [0..<k]"
    by (induction k) simp_all
  ultimately show ?thesis unfolding ns(2) by (simp only:)
qed

text \<open>The loop at packet \<open>j\<close>, or at its end.\<close>

definition frag_run :: "('w netw_scheme) ll_send \<Rightarrow> ip \<Rightarrow> 'w netw_scheme \<Rightarrow> nat \<Rightarrow> ip_datagram \<Rightarrow> nat \<Rightarrow> 'w netw_scheme \<Rightarrow>
    (int \<times> 'w netw_scheme) option" where
  "frag_run ll_send ip w k dg j g = send_fragments ll_send ip dg (if j < k then Some (brk w + 2 + j) else None)
     (if j < k then chain_next (brk w + 2) k j else None) g"

lemma frag_loop:
  fixes w :: "('tm, 'w) linkw_scheme" and drv :: "(('tm, 'w) linkw_scheme) drv_send"
  assumes rd: "frags_ready E e dv ip hdr w a d bs mac" and k: "k = frag_count (length bs) 1400"
    and "frag_inv w d k j g" "j \<le> k" "dg_raw dg = Some (Suc (brk w))" "dg_payload dg = Some a"
      "dg_header dg = loop_hdr (start_hdr ip (ident w + 1) hdr) bs k j"
  defines "fr \<equiv> frag_frame ip dv mac (ident w + 1) hdr bs" and "run \<equiv> frag_run (ip_ether_send E drv) ip w k"
  shows "\<forall>i. j \<le> i \<longrightarrow> i < k \<longrightarrow> accepts drv (e_interface dv) (fr i) \<Longrightarrow>
      \<exists>g'. frag_inv w d k k g' \<and> run dg j g = map_option (\<lambda>h. (1, h)) (dblk_list_delete (Some a) g') \<and>
        frames_given drv (e_interface dv) fr j k g g'"
    and "j \<le> m \<Longrightarrow> m < k \<Longrightarrow> \<forall>i. j \<le> i \<longrightarrow> i < m \<longrightarrow> accepts drv (e_interface dv) (fr i) \<Longrightarrow>
      rejects drv (e_interface dv) (fr m) \<Longrightarrow> run dg j g = None"
  using assms(3-7)
proof (induction "k - j" arbitrary: j g dg)
  case 0
  {
    case 1
    then show ?case using 0 by (auto simp: frames_given_start run_def frag_run_def send_fragments.simps [of _ _ _ None] map_option_case split: option.splits)
  next
    case 2
    then show ?case using 0 by simp
  }
next
  case (Suc n)
  have nxt: "(if j < k then chain_next (brk w + 2) k j else None) = (if Suc j < k then Some (brk w + 2 + Suc j) else None)"
    by (auto simp: chain_next_def)
  {
    case 1
    then have j: "j < k" using Suc.hyps(3) by simp
    obtain g' where g': "frag_inv w d k (Suc j) g'" "frame_given drv (e_interface dv) (fr j) g g'"
      "run dg j g = run (dg\<lparr>dg_header := loop_hdr (start_hdr ip (ident w + 1) hdr) bs k (Suc j)\<rparr>) (Suc j) g'"
      using frag_send(1) [OF rd k 1(2) j 1(4-6), of drv] 1(1) j nxt unfolding run_def frag_run_def fr_def by auto
    then show ?case
      using Suc.hyps(1) [of "Suc j" g' "dg\<lparr>dg_header := loop_hdr (start_hdr ip (ident w + 1) hdr) bs k (Suc j)\<rparr>"]
        Suc.hyps(3) 1 j g' frames_given_step [of drv "e_interface dv" fr j g g' k] by fastforce
  next
    case 2
    then have j: "j < k" by simp
    show ?case
    proof (cases "m = j")
      case True
      then show ?thesis
        using frag_send(2) [OF rd k 2(5) j 2(7-9), of drv] 2(4) j unfolding run_def frag_run_def fr_def by simp
    next
      case False
      then obtain g' where g': "frag_inv w d k (Suc j) g'"
        "run dg j g = run (dg\<lparr>dg_header := loop_hdr (start_hdr ip (ident w + 1) hdr) bs k (Suc j)\<rparr>) (Suc j) g'"
        using frag_send(1) [OF rd k 2(5) j 2(7-9), of drv] 2(1,3) j nxt unfolding run_def frag_run_def fr_def by auto
      then show ?thesis
        using Suc.hyps(2) [of "Suc j" g' "dg\<lparr>dg_header := loop_hdr (start_hdr ip (ident w + 1) hdr) bs k (Suc j)\<rparr>"]
          Suc.hyps(3) 2 j False by simp
    qed
  }
qed

section \<open>The whole call\<close>

text \<open>The header node and its buffer.\<close>

definition head_world :: "'w netw_scheme \<Rightarrow> 'w netw_scheme" where
  "head_world w = (bump (set_node (Suc (brk w)) (init_dblk (Ptr (brk w) 0) 64)
     (bump (set_buf (brk w) (fresh_bytes w 64) w))))\<lparr>ident := ident w + 1\<rparr>"

lemma head_world_sel [simp]:
  "nodes (head_world w) = (nodes w)(Suc (brk w) \<mapsto> init_dblk (Ptr (brk w) 0) 64)"
  "bufs (head_world w) = (bufs w)(brk w \<mapsto> fresh_bytes w 64)" "brk (head_world w) = Suc (Suc (brk w))"
  "malloc_ok (head_world w) = malloc_ok w" "heap_only v (head_world w) = heap_only v w"
  by (simp_all add: head_world_def)

lemma wf_head_world: "wf_heap w \<Longrightarrow> wf_heap (head_world w)"
  unfolding wf_heap_def by (auto simp: less_Suc_eq)

lemma frag_inv_start:
  assumes wf: "wf_heap w" and d: "nodes w a = Some d"
  shows "frag_inv w d k 0 (frag_heap (head_world w) k (frag_of (d_data d) (d_size d) 1400 (brk w + 2) k))" (is "frag_inv w d k 0 ?g")
proof -
  have wf1: "wf_heap (head_world w)" by (rule wf_head_world [OF wf])
  have pb: "ptr_buf (d_data d) = Some b \<Longrightarrow> b < brk w" for b by (rule wf_heap_data [OF wf d])
  have data: "ptr_buf (d_data (frag_of (d_data d) n f b k j)) = ptr_buf (d_data d)" for n f b j
    by (cases "d_data d") (simp_all add: frag_of_def)
  have "wf_heap ?g"
    using wf1 pb unfolding wf_heap_def by (auto simp: data split: if_splits)
  moreover have "heap_only w ?g" by (simp add: frag_heap_def)
  ultimately show ?thesis by (simp add: frag_inv_def)
qed

lemma frag_done:
  assumes rd: "frags_ready E e dv ip hdr w a d bs mac" and inv: "frag_inv w d k k g"
  shows "\<exists>w'. do { h \<leftarrow> dblk_list_delete (Some a) g; h \<leftarrow> pop_node (Some (Suc (brk w))) h; pop_buf (Ptr (brk w) 0) h } = Some w' \<and>
    heap_only w w' \<and> (\<forall>x < brk w. nodes w' x = (if x = a \<and> d_node_malloc d then None else nodes w x) \<and>
      bufs w' x = (if d_data_malloc d \<and> ptr_buf (d_data d) = Some x then None else bufs w x)) \<and> wire w' = wire g"
proof -
  have w: "wf_heap w" "nodes w a = Some d" "\<not> d_more d" "d_next d = None" "deletable w [a]"
    using rd by (simp_all only: frags_ready_def not_False_eq_True)
  have a: "a < brk w" by (rule wf_heap_node [OF w(1,2)])
  have pb: "ptr_buf (d_data d) = Some b \<Longrightarrow> b < brk w" for b by (rule wf_heap_data [OF w(1,2)])
  have na: "nodes g a = Some d" using inv a w(2) by (simp add: frag_inv_def)
  have own: "owned_buf g a = owned_buf w a" "freed_node g a = d_node_malloc d"
    "owned_buf w a = (if d_data_malloc d then ptr_buf (d_data d) else None)"
    using na w(2) by (simp_all add: owned_buf_def freed_node_def)
  have blk: "block g (Some a) [a] None" using na w(3,4) by (simp add: block.simps(2))
  have del: "deletable g [a]"
    by (rule deletable_frame [OF w(5)]) (use inv a na w(2) pb in \<open>auto simp: frag_inv_def owned_buf_def split: if_splits\<close>)
  obtain h where h: "dblk_delete (Some a) g = Some (None, h)"
    and nd: "nodes h = (\<lambda>x. if x \<in> set [a] \<and> freed_node g x then None else nodes g x)"
    and bf: "bufs h = (\<lambda>b. if Some b \<in> owned_buf g ` set [a] then None else bufs g b)"
    using dblk_delete_block [OF blk del] by blast
  have list: "dblk_list_delete (Some a) g = Some h"
    using h by (simp add: dblk_list_delete.simps [of "Some a"] dblk_list_delete.simps [of None])
  have heap: "h = g\<lparr>bufs := bufs h, nodes := nodes h\<rparr>" by (rule dblk_delete_heap [OF h])
  have only: "heap_only w h" using inv by (subst heap) (simp add: frag_inv_def)
  let ?w' = "del_buf (brk w) (del_node (Suc (brk w)) h)"
  have notB: "Some (brk w) \<noteq> ptr_buf (d_data d)" using pb by (metis less_irrefl)
  have R: "nodes h (Suc (brk w)) \<noteq> None" and B: "bufs h (brk w) \<noteq> None"
    using inv a notB by (auto simp: nd bf own frag_inv_def)
  then have "do { h \<leftarrow> dblk_list_delete (Some a) g; h \<leftarrow> pop_node (Some (Suc (brk w))) h; pop_buf (Ptr (brk w) 0) h } = Some ?w'"
    by (auto simp: list pop_node_def pop_buf_def)
  moreover have "nodes ?w' x = (if x = a \<and> d_node_malloc d then None else nodes w x) \<and>
      bufs ?w' x = (if d_data_malloc d \<and> ptr_buf (d_data d) = Some x then None else bufs w x)" if "x < brk w" for x
    using inv that own by (auto simp: nd bf frag_inv_def)
  moreover have "wire ?w' = wire g" by (simp, subst heap) simp
  ultimately show ?thesis using only by (intro exI [where x = ?w']) simp
qed

text \<open>
  The pieces go out in order, one frame each, and the payload is gone at the end; a driver
  that has no outcome on one of the frames is given it once it has taken those before.
\<close>

lemma ip_hl_send_fragments:
  assumes rd: "frags_ready E e dv ip (dg_header dg) w a d bs mac" and pl: "dg_payload dg = Some a"
  defines "k \<equiv> frag_count (length bs) 1400" and "fr \<equiv> frag_frame ip dv mac (ident w + 1) (dg_header dg) bs"
  shows "\<forall>j < k. accepts drv (e_interface dv) (fr j) \<Longrightarrow> \<exists>w'. ip_hl_send (ip_ether_send E drv) ip dg w = Some (1, w') \<and>
      heap_only w w' \<and> (\<forall>x < brk w. nodes w' x = (if x = a \<and> d_node_malloc d then None else nodes w x) \<and>
        bufs w' x = (if d_data_malloc d \<and> ptr_buf (d_data d) = Some x then None else bufs w x)) \<and>
      frames_given drv (e_interface dv) fr 0 k w w'"
    and "m < k \<Longrightarrow> \<forall>j < m. accepts drv (e_interface dv) (fr j) \<Longrightarrow> rejects drv (e_interface dv) (fr m) \<Longrightarrow>
      ip_hl_send (ip_ether_send E drv) ip dg w = None"
proof -
  have w: "wf_heap w" "nodes w a = Some d" "\<not> d_more d" "d_next d = None" "d_vsize d = 0" "1400 \<le> d_size d"
    "d_size d < 65536" "mem_read w (d_data d) (d_size d) = Some bs" "ident w \<noteq> 2147483647" "malloc_ok w m" for m
    using rd by (simp_all add: frags_ready_def)
  have len: "length bs = d_size d" using w(8) by (rule mem_read_length)
  have a: "a < brk w" by (rule wf_heap_node [OF w(1,2)])
  let ?v = "head_world w" and ?h = "start_hdr ip (ident w + 1) (dg_header dg)"
  let ?g = "frag_heap ?v k (frag_of (d_data d) (d_size d) 1400 (brk w + 2) k)"
  let ?dg = "dg\<lparr>dg_raw := Some (Suc (brk w)), dg_header := ?h\<rparr>"
  have size: "dblk_size w (Some a) = Some (d_size d)"
    using w(2-5) by (simp add: dblk_size_def dblk_size_loop.simps [of w "Some a"] node_size_def)
  have frag: "dblk_fragment (Some a) 1400 ?v = Some (Some (brk w + 2), ?g)"
    using dblk_fragment_node [OF wf_head_world [OF w(1)], of a d 1400] w(2-7,10) a
    by (simp add: k_def len)
  have inv: "frag_inv w d k 0 ?g" by (rule frag_inv_start [OF w(1,2)])
  have k0: "0 < k" using frag_count_bounds(1) [of "d_size d" 1400] w(6) by (simp add: k_def len)
  have nxt: "dblk_next ?g (Some (brk w + 2)) = Some (chain_next (brk w + 2) k 0)"
    using frag_next [OF inv] k0 by simp
  have body: "ip_hl_send_body (ip_ether_send E drv) ip
      (dg\<lparr>dg_raw := Some (Suc (brk w)), dg_header := (dg_header dg)\<lparr>h_version := ip_version (ip_self ip) AND 0x0F,
        h_src := ip_self ip, h_ident := of_int (ident w + 1)\<rparr>\<rparr>) (d_size d) ?v =
      frag_run (ip_ether_send E drv) ip w k ?dg 0 ?g"
    using w(6) pl frag nxt k0 by (simp add: ip_hl_send_body_def frag_run_def start_hdr_def)
  have eq: "ip_hl_send (ip_ether_send E drv) ip dg w = do {
      (r, h) \<leftarrow> frag_run (ip_ether_send E drv) ip w k ?dg 0 ?g;
      h \<leftarrow> pop_node (Some (Suc (brk w))) h;
      h \<leftarrow> pop_buf (Ptr (brk w) 0) h;
      Some (r, h) }"
    using pl size w(9) body by (simp add: ip_hl_send_def dblk_node_new_from_stack_with_buff_eq head_world_def)
  note loop = frag_loop [OF rd k_def [THEN meta_eq_to_obj_eq] inv, where dg = ?dg and drv = drv, folded fr_def]
  show "\<exists>w'. ip_hl_send (ip_ether_send E drv) ip dg w = Some (1, w') \<and>
      heap_only w w' \<and> (\<forall>x < brk w. nodes w' x = (if x = a \<and> d_node_malloc d then None else nodes w x) \<and>
        bufs w' x = (if d_data_malloc d \<and> ptr_buf (d_data d) = Some x then None else bufs w x)) \<and>
      frames_given drv (e_interface dv) fr 0 k w w'"
    if acc: "\<forall>j < k. accepts drv (e_interface dv) (fr j)"
  proof -
    obtain g' where g': "frag_inv w d k k g'" "frag_run (ip_ether_send E drv) ip w k ?dg 0 ?g =
        map_option (\<lambda>h. (1, h)) (dblk_list_delete (Some a) g')"
      and gv: "frames_given drv (e_interface dv) fr 0 k ?g g'"
      using loop(1) acc pl by auto
    have "wire ?g = wire w" by (simp add: frag_heap_def head_world_def)
    then have gv: "wire w' = wire g' \<Longrightarrow> frames_given drv (e_interface dv) fr 0 k w w'" for w'
      using gv by (simp add: frames_given_def)
    show ?thesis
      using frag_done [OF rd g'(1)] unfolding eq g'(2) by (cases "dblk_list_delete (Some a) g'") (auto simp: bind_eq_Some_conv intro: gv)
  qed
  show "ip_hl_send (ip_ether_send E drv) ip dg w = None"
    if rej: "m < k" "\<forall>j < m. accepts drv (e_interface dv) (fr j)" "rejects drv (e_interface dv) (fr m)"
    using loop(2) rej pl unfolding eq by simp
qed

end
