(* ===== verification/Tcp_Path.thy ===== *)
theory Tcp_Path
  imports Ether_Path Tcp_Data Tcp_World
begin

text \<open>
  TCP from frame to frame: a control segment is exactly one frame, a frame with a segment
  reaches the handler of its connection, and so the three frames of the handshake take a
  client and a server from \<^verbatim>\<open>tcp_open\<close> to \<^verbatim>\<open>ESTABLISHED\<close>.
\<close>

section \<open>Control segments\<close>

text \<open>The bytes of a control segment in its frame.\<close>

definition ctrl_eth_frame :: "('tm, 'w) tcpw_scheme \<Rightarrow> 'tm tcb \<Rightarrow> ip \<Rightarrow> ether \<Rightarrow> u8 list \<Rightarrow> u32 \<Rightarrow> u32 \<Rightarrow> u16 \<Rightarrow> u8 list" where
  "ctrl_eth_frame w t ip dv mac seq ack flags = frame_hdr mac (mac_address dv) ETHER_TYPE_IP @
     hdr_bytes (tcp_out_hdr w t ip 20) @ seg_bytes (ctrl_out w t ip seq ack flags)"

lemma ctrl_over_ethernet:
  fixes seq ack :: u32 and flags :: u16
  assumes cs: "can_send w t ip e" and ok: "\<And>m. malloc_ok w m"
    and up: "ether_up E e w" "eths w e = Some dv" and mac: "link_addr w (t_dest t) mac"
  defines "fr \<equiv> ctrl_eth_frame w t ip dv mac seq ack flags"
  shows "accepts drv (e_interface dv) fr \<Longrightarrow> \<exists>w'. tcp_send_ctrl_seg (ip_ether_send E drv) t seq ack flags w =
      Some (True, t\<lparr>snd_nxt := snd_nxt t + of_nat (flag_count flags)\<rparr>, w') \<and> clean w w' \<and>
      frame_given drv (e_interface dv) fr w w'"
    and "rejects drv (e_interface dv) fr \<Longrightarrow> tcp_send_ctrl_seg (ip_ether_send E drv) t seq ack flags w = None"
proof -
  let ?s = "ctrl_out w t ip seq ack flags"
  let ?G = "ctrl_world w t ip ?s" and ?hdr = "tcp_out_hdr w t ip 20"
  have csG: "can_send ?G t ip e" by (rule ctrl_world_can_send [OF cs])
  have wf: "wf_heap w" using cs by (simp add: can_send_def)
  have hdr: "tcp_out_hdr ?G t ip (length (seg_bytes ?s)) = ?hdr" by (simp add: tcp_out_hdr_def)
  have upG: "ether_up E e ?G" by (subst ctrl_world_heap) (rule ether_up_heap [OF up(1)])
  have ethG: "eths ?G e = Some dv" using up(2) by (subst ctrl_world_heap) simp
  have macG: "link_addr ?G (t_dest t) mac" using mac by (subst ctrl_world_heap, subst link_addr_heap) simp
  have fr: "tcp_frame ?G t ip dv mac (seg_bytes ?s) = fr"
    by (simp add: tcp_frame_def fr_def ctrl_eth_frame_def tcp_out_hdr_def)
  have len: "length (seg_bytes ?s) < 1400" by simp
  note S = sent_over_ethernet [OF csG len upG ethG macG, of drv, unfolded hdr fr]
  note eq = tcp_send_ctrl_seg_eq [OF cs ok ok, of "ip_ether_send E drv" seq ack flags]
  show "\<exists>w'. tcp_send_ctrl_seg (ip_ether_send E drv) t seq ack flags w =
      Some (True, t\<lparr>snd_nxt := snd_nxt t + of_nat (flag_count flags)\<rparr>, w') \<and> clean w w' \<and>
      frame_given drv (e_interface dv) fr w w'"
    if acc: "accepts drv (e_interface dv) fr"
  proof -
    obtain r g where r: "ip_ether_send E drv e (sent_dg ?G ?hdr) (sent_world ?G (seg_bytes ?s) ?hdr) = Some (r, g)"
      and k: "link_keeps [Suc (Suc (Suc (brk ?G))), Suc (brk ?G)] r (sent_world ?G (seg_bytes ?s) ?hdr) g"
      and gv: "malloc_ok ?G (mallocs ?G + 2) \<longrightarrow> frame_given drv (e_interface dv) fr ?G g"
      using S(1) [OF acc] by blast
    have "wire ?G = wire w" "malloc_ok ?G = malloc_ok w" by (subst ctrl_world_heap, simp)+
    then have gv: "frame_given drv (e_interface dv) fr w g" using gv ok by (simp add: frame_given_def)
    have upS: "ether_up E e (sent_world ?G (seg_bytes ?s) ?hdr)"
      by (subst sent_world_heap) (rule ether_up_heap [OF upG])
    have "h_dest (dg_header (sent_dg ?G ?hdr)) = t_dest t"
      by (simp add: sent_dg_def tcp_out_hdr_def out_hdr_def tcp_header_def)
    then have macS: "link_addr (sent_world ?G (seg_bytes ?s) ?hdr) (h_dest (dg_header (sent_dg ?G ?hdr))) mac"
      using macG by (subst sent_world_heap, subst link_addr_heap) simp
    have "malloc_ok (sent_world ?G (seg_bytes ?s) ?hdr) m" for m using ok by (simp add: sent_world_def)
    then have "r = 1" by (intro ip_ether_send_one [OF upS macS _ r])
    moreover obtain g1 where g1: "after_send ?G r g = Some (r \<noteq> 0, g1)" "clean ?G g1"
      using after_send_clean [OF k] by blast
    ultimately show ?thesis
      using ctrl_frame_pops [OF g1(2) wf, of True "t\<lparr>snd_nxt := snd_nxt t + of_nat (flag_count flags)\<rparr>"]
      unfolding eq using gv after_send_wire [OF g1(1)] by (auto simp: r g1(1) frame_given_def)
  qed
  show "tcp_send_ctrl_seg (ip_ether_send E drv) t seq ack flags w = None" if "rejects drv (e_interface dv) fr"
    using S(2) [OF that] ok unfolding eq by simp
qed

section \<open>A segment that arrives\<close>

text \<open>A packet with the segment \<open>s\<close>, the text \<open>ps\<close>, no options and a right checksum.\<close>

definition segment_ok :: "ip_header \<Rightarrow> tcp_segment \<Rightarrow> u8 list \<Rightarrow> bool" where
  "segment_ok hdr s ps \<longleftrightarrow> plain_hdr hdr \<and> unat (h_total_length hdr) = 20 + (20 + length ps) \<and>
     h_protocol hdr = IP_PROTOCOL_TCP \<and> sg_data_offset s = 5 \<and> sg_flags s < 4096 \<and> even (length ps) \<and>
     length ps < 1400 \<and> sg_checksum s = seg_csum \<lparr>ph_src = h_src hdr, ph_dest = h_dest hdr,
       ph_protocol = IP_PROTOCOL_TCP, ph_length = 0, ph_data = Null, ph_data_size = 0\<rparr> s ps"

definition segment_arrived :: "'w heap_scheme \<Rightarrow> addr \<Rightarrow> addr \<Rightarrow> nat \<Rightarrow> ip_header \<Rightarrow> tcp_segment \<Rightarrow> u8 list \<Rightarrow> bool" where
  "segment_arrived w a b i hdr s ps \<longleftrightarrow> ip_arrived w a b i hdr (seg_bytes s @ ps) \<and> wf_heap w \<and> segment_ok hdr s ps"

definition rx_read :: "ip_datagram \<Rightarrow> ip_header \<Rightarrow> dblk option \<Rightarrow> addr \<Rightarrow> ip_datagram" where
  "rx_read dg hdr d k = read_back (dg\<lparr>dg_payload := Some k\<rparr>) hdr (d_size (the d))"

text \<open>The segment object of \<^verbatim>\<open>tcp_ip_recv\<close>: the nodes of the text and of the options are its own.\<close>

definition rx_segment :: "ip_datagram \<Rightarrow> tcp_segment \<Rightarrow> addr \<Rightarrow> tcp_segment" where
  "rx_segment dg s k = (unpacked (tcp_segment_init\<lparr>sg_raw := Some k, sg_payload := Some (k + 2),
     sg_options := Some (k + 3)\<rparr>) s)\<lparr>sg_datagram := Some dg\<rparr>"

lemma rx_segment_sel [simp]:
  "sg_src_port (rx_segment dg s k) = sg_src_port s" "sg_dest_port (rx_segment dg s k) = sg_dest_port s"
  "sg_seq (rx_segment dg s k) = sg_seq s" "sg_ack (rx_segment dg s k) = sg_ack s" "sg_flags (rx_segment dg s k) = sg_flags s"
  "sg_payload (rx_segment dg s k) = Some (k + 2)" "sg_datagram (rx_segment dg s k) = Some dg"
  by (simp_all add: rx_segment_def unpacked_def)

text \<open>The state in which the handler of the connection runs.\<close>

definition handler_world :: "addr \<Rightarrow> nat \<Rightarrow> ip_header \<Rightarrow> tcp_segment \<Rightarrow> nat \<Rightarrow> ('tm, 'w) tcpw_scheme \<Rightarrow> ('tm, 'w) tcpw_scheme" where
  "handler_world b i hdr seg n w = w\<lparr>bufs := (bufs w)(b \<mapsto> splice_at (the (bufs w b)) (i + 36) [0, 0],
       Suc (brk w) \<mapsto> ph_bytes (h_src hdr) (h_dest hdr) IP_PROTOCOL_TCP (of_nat (20 + n))),
     nodes := (nodes w)(brk w \<mapsto> init_dblk (Ptr b (i + 20)) (20 + n), brk w + 3 \<mapsto> init_dblk (Ptr b (i + 40)) 0,
       brk w + 2 \<mapsto> init_dblk (Ptr b (i + 40)) n),
     brk := brk w + 5, segs := (segs w)(brk w + 4 \<mapsto> seg)\<rparr>"

text \<open>The connection \<open>q\<close> is the only one of interface \<open>n\<close> with this port.\<close>

definition only_conn :: "('tm, 'w) tcpw_scheme \<Rightarrow> addr \<Rightarrow> u16 \<Rightarrow> addr \<Rightarrow> 'tm tcb \<Rightarrow> bool" where
  "only_conn w n port q t \<longleftrightarrow> tcbs w q = Some t \<and> q \<in> set (tcp_list w) \<and> localhost t = n \<and> t_port t = ucast port \<and>
     (\<forall>p \<in> set (tcp_list w). \<exists>c. tcbs w p = Some c \<and> (p \<noteq> q \<longrightarrow> localhost c \<noteq> n \<or> t_port c \<noteq> ucast port))"

lemma best_match_only:
  assumes q: "cbs q = Some t" "localhost t = n" "t_port t = ucast (sg_dest_port seg)"
    and "\<forall>p \<in> set ps. \<exists>c. cbs p = Some c \<and> (p \<noteq> q \<longrightarrow> localhost c \<noteq> n \<or> t_port c \<noteq> ucast (sg_dest_port seg))"
  shows "best_match cbs n src seg best ps = Some (if q \<in> set ps then Some q else best)"
  using assms(4)
proof (induction ps arbitrary: best)
  case (Cons p ps)
  then show ?case using q by (cases "p = q") auto
qed simp

lemma only_conn_match:
  assumes "only_conn w n (sg_dest_port seg) q t"
  shows "best_match (tcbs w) n src seg None (tcp_list w) = Some (Some q)"
  using assms best_match_only [of "tcbs w" q t n seg "tcp_list w" src None] unfolding only_conn_def by auto

lemma ip_ll_recv_tcp:
  assumes arr: "segment_arrived w a b i hdr s ps" and dg: "rx_dg dg a" and a: "a < brk w" and b: "b < brk w"
    and E: "list_laws E" and q: "only_conn w n (sg_dest_port s) q t"
  defines "seg \<equiv> rx_segment (rx_read dg hdr (nodes w a) (brk w)) s (brk w)"
  shows "ip_ll_recv E ll_send call n dg w = do {
      (t', g) \<leftarrow> tcp_received E ll_send (t\<lparr>rx_segs := rx_segs t @ [brk w + 4]\<rparr>) (handler_world b i hdr seg (length ps) w);
      g \<leftarrow> pop_node (Some (brk w + 3)) (g\<lparr>tcbs := (tcbs g)(q \<mapsto> t'), segs := (segs g)(brk w + 4 := None)\<rparr>);
      g \<leftarrow> pop_node (Some (brk w + 2)) g;
      g \<leftarrow> pop_buf (Ptr (Suc (brk w)) 0) g;
      pop_node (Some (brk w)) g }"
proof -
  let ?k = "brk w" and ?n = "20 + length ps" and ?dg = "rx_read dg hdr (nodes w a) (brk w)"
  let ?W = "ip_rx b i (seg_bytes s @ ps) w"
  have ip: "ip_arrived w a b i hdr (seg_bytes s @ ps)" and s: "sg_data_offset s = 5" "sg_flags s < 4096"
    and ps: "even (length ps)" "length ps < 1400" and proto: "h_protocol hdr = IP_PROTOCOL_TCP"
    and sum: "sg_checksum s = seg_csum \<lparr>ph_src = h_src hdr, ph_dest = h_dest hdr, ph_protocol = IP_PROTOCOL_TCP,
      ph_length = 0, ph_data = Null, ph_data_size = 0\<rparr> s ps" and wf: "wf_heap w"
    using arr by (simp_all add: segment_arrived_def segment_ok_def)
  have plain: "plain_hdr hdr" using ip by (simp add: ip_arrived_def)
  have hd: "h_protocol (dg_header ?dg) = IP_PROTOCOL_TCP" "wf_addr (h_src (dg_header ?dg))" "wf_addr (h_dest (dg_header ?dg))"
    "ip_v4 (h_src (dg_header ?dg)) = ip_v4 (h_src hdr)" "ip_v4 (h_dest (dg_header ?dg)) = ip_v4 (h_dest hdr)"
    "dg_payload ?dg = Some ?k"
    using dg plain proto by (simp_all add: rx_read_def read_back_def rx_dg_def wf_addr_def plain_hdr_def)
  let ?ph = "\<lparr>ph_src = h_src (dg_header ?dg), ph_dest = h_dest (dg_header ?dg), ph_protocol = IP_PROTOCOL_TCP,
    ph_length = 0, ph_data = Ptr (Suc ?k) 0, ph_data_size = 12\<rparr>"
  let ?w1 = "bump (set_buf (Suc ?k) (fresh_bytes ?W 12) ?W)"
  let ?w2 = "bump (set_node (?k + 2) (init_dblk Null 0) ?w1)"
  let ?w3 = "bump (set_node (?k + 3) (init_dblk Null 0) ?w2)"
  let ?s0 = "tcp_segment_init\<lparr>sg_raw := Some ?k, sg_payload := Some (?k + 2), sg_options := Some (?k + 3)\<rparr>"
  obtain bs where bs: "bufs w b = Some bs" "i + 20 + ?n \<le> length bs" "take ?n (drop (i + 20) bs) = seg_bytes s @ ps"
  proof -
    have "held w b (i + 20) (seg_bytes s @ ps)"
      using ip length_hdr_bytes [OF plain] by (simp only: ip_arrived_def held_append)
    then show thesis using that by (auto simp: held_def)
  qed
  have csum: "sg_checksum s = seg_csum ?ph s ps"
    using sum hd(4,5) by (simp add: seg_csum_def ph_bytes_def)
  have bk: "b \<noteq> Suc ?k" using b by simp
  have sz: "u16_of ?n = ?n" using ps by simp
  obtain h' where u: "tcp_unpack ?s0 ?ph ?w3 = Some (sg_checksum s = seg_csum ?ph s ps, unpacked ?s0 s, h')"
    and nd: "nodes h' = (nodes ?w3)(?k + 3 \<mapsto> init_dblk (Ptr b (i + 20 + 20)) (size_sub (unat (sg_data_offset s) * 4) 20),
        ?k + 2 \<mapsto> init_dblk (Ptr b (i + 20 + unat (sg_data_offset s) * 4)) (size_sub (d_size (init_dblk (Ptr b (i + 20)) ?n)) (unat (sg_data_offset s) * 4)))"
    and bf: "bufs h' = (bufs ?w3)(b \<mapsto> splice_at bs (i + 20 + 16) [0, 0],
        Suc ?k \<mapsto> ph_bytes (ph_src ?ph) (ph_dest ?ph) (ph_protocol ?ph) (of_nat (d_size (init_dblk (Ptr b (i + 20)) ?n))))"
    and rest: "h' = ?w3\<lparr>bufs := bufs h', nodes := nodes h'\<rparr>"
    using tcp_unpack_node_heap [of ?w3 ?k "init_dblk (Ptr b (i + 20)) ?n" b "i + 20" ps bs s ?ph "Suc ?k" ?s0 "?k + 3" "?k + 2"]
      bs bk sz s ps hd(2,3) by (auto simp: ph_ready_def)
  have d5: "unat (sg_data_offset s) * 4 = 20" using s(1) by simp
  have H: "h'\<lparr>brk := ?k + 5, segs := (segs h')(?k + 4 \<mapsto> seg)\<rparr> = handler_world b i hdr seg (length ps) w"
  proof -
    have n: "nodes h' = nodes (handler_world b i hdr seg (length ps) w)"
      unfolding nd d5 using ps sz by (auto simp: handler_world_def fun_eq_iff add.commute)
    have f: "bufs h' = bufs (handler_world b i hdr seg (length ps) w)"
      unfolding bf using bs(1) sz hd(4,5) bk by (auto simp: handler_world_def fun_eq_iff ph_bytes_def add.commute)
    show ?thesis
      by (subst (1 2) rest) (simp add: n f, simp add: handler_world_def ip_rx_def set_node_def set_buf_def bump_def)
  qed
  have brk: "brk h' = ?k + 4" and tl: "tcbs h' = tcbs w" "tcp_list h' = tcp_list w"
    by (subst rest, simp add: set_node_def set_buf_def bump_def ip_rx_def)+
  have match: "best_match (tcbs h') n (h_src (dg_header ?dg)) (unpacked ?s0 s) None (tcp_list h') = Some (Some q)"
    using only_conn_match [of w n "unpacked ?s0 s" q t] q tl by (simp add: unpacked_def)
  have sg: "(unpacked ?s0 s)\<lparr>sg_datagram := Some ?dg\<rparr> = seg" by (simp add: seg_def rx_segment_def)
  have H': "bump (h'\<lparr>segs := (segs h')(?k + 4 \<mapsto> seg)\<rparr>) = handler_world b i hdr seg (length ps) w"
    unfolding H [symmetric] bump_def using brk by simp
  have enq: "list_enqueue E x xs = xs @ [x]" for x :: addr and xs using E by (simp add: list_laws_def)
  have tq: "tcbs h' q = Some t" using q tl by (simp add: only_conn_def)
  have dlv: "deliver E ll_send q seg h' = do {
      (t', g) \<leftarrow> tcp_received E ll_send (t\<lparr>rx_segs := rx_segs t @ [?k + 4]\<rparr>) (handler_world b i hdr seg (length ps) w);
      Some (g\<lparr>tcbs := (tcbs g)(q \<mapsto> t'), segs := (segs g)(?k + 4 := None)\<rparr>) }"
    unfolding deliver_def Let_def brk H' enq tq by simp
  have k3: "Suc (Suc (Suc x)) = x + 3" for x by simp
  have "tcp_ip_recv E ll_send n ?dg ?W = do {
      g \<leftarrow> deliver E ll_send q seg h';
      g \<leftarrow> pop_node (Some (?k + 3)) g;
      g \<leftarrow> pop_node (Some (?k + 2)) g;
      pop_buf (Ptr (Suc ?k) 0) g }"
    using u csum match E hd(1,6) sg
    by (simp add: tcp_ip_recv_def pseudo_header_new_eq dblk_node_new_from_stack_def new_node_def list_laws_def k3)
  moreover have "ip_dispatch E ll_send call n ?dg ?W = tcp_ip_recv E ll_send n ?dg ?W"
    using hd(1) by (simp add: ip_dispatch_def)
  moreover have "ip_ll_recv E ll_send call n dg w = do { w' \<leftarrow> ip_dispatch E ll_send call n ?dg ?W; pop_node (Some ?k) w' }"
    using ip_ll_recv_eq [OF ip a, of dg E ll_send call n] dg by (simp add: rx_dg_def rx_read_def)
  ultimately show ?thesis
    by (simp add: dlv bind_assoc case_prod_beta')
qed

section \<open>A frame with a segment\<close>

definition frame_conn :: "'tm tcb \<Rightarrow> addr \<Rightarrow> 'tm tcb" where
  "frame_conn t k = t\<lparr>rx_segs := rx_segs t @ [k + 5]\<rparr>"

text \<open>The segment and the state that the handler of the connection gets from a frame.\<close>

definition frame_seg :: "addr \<Rightarrow> u8 list \<Rightarrow> ip_header \<Rightarrow> tcp_segment \<Rightarrow> addr \<Rightarrow> tcp_segment" where
  "frame_seg fb fr hdr s k = rx_segment (rx_read (rx_datagram k) hdr (Some (init_dblk (Ptr fb 14) (length fr - 18))) (Suc k)) s (Suc k)"

definition frame_handler :: "addr \<Rightarrow> u8 list \<Rightarrow> u8 list \<Rightarrow> ip_header \<Rightarrow> tcp_segment \<Rightarrow> nat \<Rightarrow>
    ('tm, 'w) tcpw_scheme \<Rightarrow> ('tm, 'w) tcpw_scheme" where
  "frame_handler fb bs fr hdr s n w = handler_world fb 14 hdr (frame_seg fb fr hdr s (brk w)) n (frame_world fb bs fr w)"

lemma frame_handler_sel:
  fixes w :: "('tm, 'w) tcpw_scheme"
  shows "brk (frame_handler fb bs fr hdr s n w) = brk w + 6"
    and "segs (frame_handler fb bs fr hdr s n w) = (segs w)(brk w + 5 \<mapsto> frame_seg fb fr hdr s (brk w))"
    and "nodes (frame_handler fb bs fr hdr s n w) = (nodes w)(brk w \<mapsto> init_dblk (Ptr fb 14) (length fr - 18),
      brk w + 1 \<mapsto> init_dblk (Ptr fb 34) (20 + n), brk w + 4 \<mapsto> init_dblk (Ptr fb 54) 0, brk w + 3 \<mapsto> init_dblk (Ptr fb 54) n)"
    and "bufs (frame_handler fb bs fr hdr s n w) = (bufs w)(fb \<mapsto> splice_at (splice_at bs 0 fr) 50 [0, 0],
      brk w + 2 \<mapsto> ph_bytes (h_src hdr) (h_dest hdr) IP_PROTOCOL_TCP (of_nat (20 + n)))"
    and "tcbs (frame_handler fb bs fr hdr s n w) = tcbs w" "tcp_list (frame_handler fb bs fr hdr s n w) = tcp_list w"
    and "mallocs (frame_handler fb bs fr hdr s n w) = mallocs w" "malloc_ok (frame_handler fb bs fr hdr s n w) = malloc_ok w"
    and "ident (frame_handler fb bs fr hdr s n w) = ident w" "ips (frame_handler fb bs fr hdr s n w) = ips w"
    and "second (frame_handler fb bs fr hdr s n w) = second w"
proof -
  have k: "Suc (Suc (Suc x)) = x + 3" "Suc (x + 3) = x + 4" for x by simp_all
  show "nodes (frame_handler fb bs fr hdr s n w) = (nodes w)(brk w \<mapsto> init_dblk (Ptr fb 14) (length fr - 18),
      brk w + 1 \<mapsto> init_dblk (Ptr fb 34) (20 + n), brk w + 4 \<mapsto> init_dblk (Ptr fb 54) 0, brk w + 3 \<mapsto> init_dblk (Ptr fb 54) n)"
    by (simp add: frame_handler_def handler_world_def k)
  show "bufs (frame_handler fb bs fr hdr s n w) = (bufs w)(fb \<mapsto> splice_at (splice_at bs 0 fr) 50 [0, 0],
      brk w + 2 \<mapsto> ph_bytes (h_src hdr) (h_dest hdr) IP_PROTOCOL_TCP (of_nat (20 + n)))"
    by (simp add: frame_handler_def handler_world_def)
qed (simp_all add: frame_handler_def handler_world_def frame_world_def add.commute)

lemma frame_handler_heap:
  "frame_handler fb bs fr hdr s n w = w\<lparr>bufs := bufs (frame_handler fb bs fr hdr s n w),
     nodes := nodes (frame_handler fb bs fr hdr s n w), brk := brk w + 6, segs := segs (frame_handler fb bs fr hdr s n w)\<rparr>"
  by (rule tcpw.equality) (simp_all add: frame_handler_def handler_world_def frame_world_def add.commute)

text \<open>
  What is left when the frame has been handled and the connection has become \<open>t'\<close>: the
  handler's state \<open>g\<close> on everything older than the frame.
\<close>

definition frame_done :: "('tm, 'w) tcpw_scheme \<Rightarrow> addr \<Rightarrow> 'tm tcb \<Rightarrow> ('tm, 'w) tcpw_scheme \<Rightarrow> ('tm, 'w) tcpw_scheme \<Rightarrow> bool" where
  "frame_done w q t' g w' \<longleftrightarrow>
     heap_only (w\<lparr>tcbs := (tcbs w)(q \<mapsto> t'), segs := (segs w)(brk w + 5 := None)\<rparr>) w' \<and> wf_heap w' \<and>
     brk w \<le> brk w' \<and> (\<forall>x < brk w. nodes w' x = nodes g x \<and> bufs w' x = bufs g x) \<and> wire w' = wire g"

lemma tcp_frame_handled:
  fixes w :: "('tm, 'w) linkw_scheme" and dst src pad :: "u8 list" and drv :: "(('tm, 'w) linkw_scheme) drv_send"
    and fb :: addr and bs :: "u8 list"
  assumes E: "list_laws E" and e: "eths w eth = Some dv" and i: "ether_arp_get_ip E eth w = Some (Some n)"
    and s: "segment_ok hdr s ps" and q: "only_conn w n (sg_dest_port s) q t"
  defines "fr \<equiv> ip_frame dst src (hdr_bytes hdr @ seg_bytes s @ ps) pad"
  assumes rcv: "delivers rcv (e_interface dv) fr" and room: "has_room w frame fb bs fr"
    and len: "length dst = 6" "length src = 6"
  defines "W \<equiv> frame_handler fb bs fr hdr s (length ps) w"
  defines "handled \<equiv> tcp_received E (ip_ether_send E drv) (frame_conn t (brk w)) W"
  shows "handled = None \<Longrightarrow> ether_ll_recv E drv rcv pool call eth frame w = None"
    and "handled = Some (t', g) \<Longrightarrow> heap_only W g \<Longrightarrow> wf_heap g \<Longrightarrow> brk W \<le> brk g \<Longrightarrow>
      \<forall>x. brk w \<le> x \<and> x < brk W \<longrightarrow> nodes g x = nodes W x \<and> bufs g x = bufs W x \<Longrightarrow>
      \<exists>frame' w'. ether_ll_recv E drv rcv pool call eth frame w = Some (True, frame', w') \<and> frame_done w q t' g w'"
proof -
  let ?F = "frame_world fb bs fr w" and ?k = "brk w"
  have wf: "wf_heap ?F" by (rule wf_frame_world [OF room])
  have plain: "plain_hdr hdr" using s by (simp add: segment_ok_def)
  have held: "held ?F fb 14 (hdr_bytes hdr @ seg_bytes s @ ps)"
    unfolding fr_def by (rule frame_world_held) (use room len in \<open>simp_all add: fr_def\<close>)
  have big: "20 \<le> d_size (init_dblk (Ptr fb 14) (length fr - 18))"
  proof -
    have "64 \<le> length fr" "length fr - 18 < 65536" using room by (auto simp: has_room_def)
    then show ?thesis by simp
  qed
  have arr: "segment_arrived ?F ?k fb 14 hdr s ps"
    using s held big wf by (simp add: segment_arrived_def ip_arrived_def segment_ok_def)
  have fb: "fb < brk ?F" using room wf_heap_buf [of w fb bs] by (simp add: has_room_def)
  have qF: "only_conn ?F n (sg_dest_port s) q t" using q by (simp add: only_conn_def frame_world_def)
  have kF: "?k < brk ?F" by simp
  have fresh: "nodes w ?k = None" using room by (simp add: has_room_def wf_heap_def)
  have nk: "nodes ?F ?k = Some (init_dblk (Ptr fb 14) (length fr - 18))" by simp
  have hw: "handler_world fb 14 hdr (rx_segment (rx_read (rx_datagram ?k) hdr (nodes ?F ?k) (brk ?F)) s (brk ?F)) (length ps) ?F = W"
    "t\<lparr>rx_segs := rx_segs t @ [brk ?F + 4]\<rparr> = frame_conn t ?k"
    by (simp_all add: W_def frame_handler_def frame_seg_def frame_conn_def add.commute)
  note eq = ether_ll_recv_ip [OF e rcv [unfolded fr_def] room [unfolded fr_def] len i, of drv pool call, folded fr_def,
      unfolded ip_ll_recv_tcp [OF arr rx_datagram_rx kF fb E qF, of "ip_ether_send E drv" call, unfolded hw, folded handled_def]]
  show "ether_ll_recv E drv rcv pool call eth frame w = None" if "handled = None"
    using that by (simp add: eq)
  show "\<exists>frame' w'. ether_ll_recv E drv rcv pool call eth frame w = Some (True, frame', w') \<and> frame_done w q t' g w'"
    if r: "handled = Some (t', g)" and only: "heap_only W g" and wg: "wf_heap g" and bg: "brk W \<le> brk g"
      and same: "\<forall>x. ?k \<le> x \<and> x < brk W \<longrightarrow> nodes g x = nodes W x \<and> bufs g x = bufs W x"
  proof -
    note sel = frame_handler_sel [of fb bs fr hdr s "length ps" w, folded W_def]
    have nd: "nodes g (?k + j) = nodes W (?k + j)" and bf: "bufs g (?k + j) = bufs W (?k + j)" if "j < 6" for j
      using same that by (simp_all add: sel(1))
    have fbk: "fb < ?k" using room wf_heap_buf [of w fb bs] by (simp add: has_room_def)
    have live: "nodes g (?k + 4) \<noteq> None" "nodes g (?k + 3) \<noteq> None" "bufs g (?k + 2) \<noteq> None" "nodes g (?k + 1) \<noteq> None"
      "nodes g ?k \<noteq> None"
      using nd [of 4] nd [of 3] bf [of 2] nd [of 1] nd [of 0] by (simp_all add: sel)
    let ?g = "g\<lparr>tcbs := (tcbs g)(q \<mapsto> t'), segs := (segs g)(?k + 5 := None)\<rparr>"
    let ?w' = "del_node ?k (del_node (?k + 1) (del_buf (?k + 2) (del_node (?k + 3) (del_node (?k + 4) ?g))))"
    have k: "Suc (x + 4) = x + 5" "Suc (x + 3) = x + 4" "Suc (Suc (Suc x)) = x + 3" for x by simp_all
    have run: "ether_ll_recv E drv rcv pool call eth frame w = Some (True, frame_read frame fb ?k fr ETHER_TYPE_IP, ?w')"
      using live by (simp add: eq r pop_node_def pop_buf_def k)
    obtain B N K M I L where g: "g = W\<lparr>bufs := B, nodes := N, brk := K, mallocs := M, ident := I, wire := L\<rparr>"
      using heap_onlyD [OF only] by blast
    obtain B' N' where W: "W = w\<lparr>bufs := B', nodes := N', brk := ?k + 6, segs := segs W\<rparr>"
      using frame_handler_heap [of fb bs fr hdr s "length ps" w, folded W_def] by blast
    have gw: "g = w\<lparr>bufs := B, nodes := N, brk := K, mallocs := M, ident := I, wire := L, segs := (segs w)(?k + 5 \<mapsto> frame_seg fb fr hdr s ?k)\<rparr>"
      unfolding g by (subst W, subst sel(2)) simp
    have "heap_only (w\<lparr>tcbs := (tcbs w)(q \<mapsto> t'), segs := (segs w)(?k + 5 := None)\<rparr>) ?g"
      unfolding gw by (cases w) (simp add: heap_only_def)
    then have "heap_only (w\<lparr>tcbs := (tcbs w)(q \<mapsto> t'), segs := (segs w)(?k + 5 := None)\<rparr>) ?w'" by simp
    moreover have "wf_heap ?g" using wg by (simp add: wf_heap_def)
    then have "wf_heap ?w'" by simp
    ultimately have "frame_done w q t' g ?w'" using bg by (simp add: frame_done_def sel)
    then show ?thesis using run by blast
  qed
qed

section \<open>The handlers of the handshake\<close>

text \<open>A SYN for a listening connection: the answer is one frame with a SYN+ACK.\<close>

lemma listen_over_ethernet:
  fixes w :: "('tm, 'w) linkw_scheme" and drv :: "(('tm, 'w) linkw_scheme) drv_send"
  assumes E: "list_laws E" and q: "rx_segs t = [a]" "segs w a = Some seg" "t_state t = LISTEN"
    and f: "SEG_CTRL_S seg" "\<not> SEG_CTRL_R seg" "\<not> SEG_CTRL_A seg" "sg_datagram seg = Some dg"
    and cs: "can_send w (t\<lparr>t_dest := h_src (dg_header dg)\<rparr>) ip e" and ok: "\<And>m. malloc_ok w m"
    and up: "ether_up E e w" "eths w e = Some dv" and mac: "link_addr w (h_src (dg_header dg)) mac"
  defines "t1 \<equiv> t\<lparr>rx_segs := [], rcv_nxt := sg_seq seg + 1, rcv_irs := sg_seq seg,
      t_dest_port := sg_src_port seg, t_dest := h_src (dg_header dg)\<rparr>"
  defines "fr \<equiv> ctrl_eth_frame w t1 ip dv mac (snd_iss t) (sg_seq seg + 1) (SEG_FLAG_SYN OR SEG_FLAG_ACK)"
  shows "accepts drv (e_interface dv) fr \<Longrightarrow> \<exists>w'. tcp_received E (ip_ether_send E drv) t w =
      Some (t1\<lparr>snd_nxt := snd_nxt t + 1, t_state := SYN_RECEIVED\<rparr>, w') \<and> clean w w' \<and>
      frame_given drv (e_interface dv) fr w w'"
    and "rejects drv (e_interface dv) fr \<Longrightarrow> tcp_received E (ip_ether_send E drv) t w = None"
proof -
  have cs1: "can_send w t1 ip e" using cs by (simp add: can_send_def t1_def)
  have mac1: "link_addr w (t_dest t1) mac" using mac by (simp add: t1_def)
  note C = ctrl_over_ethernet [OF cs1 ok up mac1, of drv "snd_iss t" "sg_seq seg + 1" "SEG_FLAG_SYN OR SEG_FLAG_ACK", folded fr_def]
  have eq: "tcp_received E (ip_ether_send E drv) t w = do {
      (ok, t, w) \<leftarrow> tcp_send_ctrl_seg (ip_ether_send E drv) t1 (snd_iss t) (sg_seq seg + 1) (SEG_FLAG_SYN OR SEG_FLAG_ACK) w;
      Some (if ok then t\<lparr>t_state := SYN_RECEIVED\<rparr> else t, w) }"
    using next_seg_one [OF E q(1,2)] q(3) f
    by (simp add: tcp_received_def received_when_listen_def listen_seg_def listen_syn_def t1_def)
  show "\<exists>w'. tcp_received E (ip_ether_send E drv) t w =
      Some (t1\<lparr>snd_nxt := snd_nxt t + 1, t_state := SYN_RECEIVED\<rparr>, w') \<and> clean w w' \<and>
      frame_given drv (e_interface dv) fr w w'"
    if "accepts drv (e_interface dv) fr"
    using C(1) [OF that] unfolding eq by (auto simp: t1_def)
  show "tcp_received E (ip_ether_send E drv) t w = None" if "rejects drv (e_interface dv) fr"
    using C(2) [OF that] unfolding eq by simp
qed

text \<open>
  The SYN of a client is one block of its own on the heap; it is freed when the SYN+ACK
  arrives.
\<close>

definition own_block :: "'w heap_scheme \<Rightarrow> addr \<Rightarrow> addr \<Rightarrow> bool" where
  "own_block w r b \<longleftrightarrow> (\<exists>d. nodes w r = Some d \<and> \<not> d_more d \<and> d_next d = None \<and> d_node_malloc d \<and> d_data_malloc d \<and>
     d_data d = Ptr b 0) \<and> bufs w b \<noteq> None"

lemma own_block_delete:
  assumes "own_block w r b"
  shows "dblk_list_delete (Some r) w = Some (del_node r (del_buf b w))"
proof -
  obtain d where d: "nodes w r = Some d" "\<not> d_more d" "d_next d = None" "d_node_malloc d" "d_data_malloc d" "d_data d = Ptr b 0"
    and b: "bufs w b \<noteq> None" using assms by (auto simp: own_block_def)
  have "dblk_delete (Some r) w = Some (None, del_node r (del_buf b w))"
    using d b by (subst dblk_delete.simps) auto
  then show ?thesis by (simp add: dblk_list_delete.simps [of "Some r"] dblk_list_delete.simps [of None])
qed

lemma syn_sent_over_ethernet:
  fixes w :: "('tm, 'w) linkw_scheme" and drv :: "(('tm, 'w) linkw_scheme) drv_send"
  assumes E: "list_laws E" and q: "rx_segs t = [a]" "segs w a = Some seg" "t_state t = SYN_SENT"
    and f: "SEG_CTRL_S seg" "\<not> SEG_CTRL_R seg" "SEG_CTRL_A seg"
    and seq: "snd_una t = snd_iss t" "snd_nxt t = snd_iss t + 1" "sg_ack seg = snd_iss t + 1" "snd_iss t \<noteq> 0xFFFFFFFF"
    and tx: "tx_seg t = Some sy" "sg_raw sy = Some r" "own_block w r b"
    and cs: "can_send w t ip e" and ok: "\<And>m. malloc_ok w m"
    and up: "ether_up E e w" "eths w e = Some dv" and mac: "link_addr w (t_dest t) mac"
  defines "t1 \<equiv> t\<lparr>rx_segs := [], rcv_nxt := sg_seq seg + 1, rcv_irs := sg_seq seg, snd_una := sg_ack seg\<rparr>"
  defines "fr \<equiv> ctrl_eth_frame w t1 ip dv mac (sg_ack seg) (sg_seq seg + 1) SEG_FLAG_ACK"
  shows "accepts drv (e_interface dv) fr \<Longrightarrow> \<exists>w'. tcp_received E (ip_ether_send E drv) t w =
      Some (t1\<lparr>t_state := ESTABLISHED, tx_seg := None, tmr := timer_stop E (tmr t)\<rparr>, del_node r (del_buf b w')) \<and> clean w w' \<and>
      frame_given drv (e_interface dv) fr w w'"
    and "rejects drv (e_interface dv) fr \<Longrightarrow> tcp_received E (ip_ether_send E drv) t w = None"
proof -
  have cs1: "can_send w t1 ip e" using cs by (simp add: can_send_def t1_def)
  have mac1: "link_addr w (t_dest t1) mac" using mac by (simp add: t1_def)
  note C = ctrl_over_ethernet [OF cs1 ok up mac1, of drv "sg_ack seg" "sg_seq seg + 1" SEG_FLAG_ACK, folded fr_def]
  have less: "snd_iss t < snd_iss t + 1"
    using seq(4) by (simp add: word_less_nat_alt unat_word_ariths word_unat_eq_iff) (use unat_u32_less [of "snd_iss t"] in simp)
  have s: "sncmp (snd_iss t) SN_LS (sg_ack seg) SN_LE (snd_nxt t)" "sncmp (snd_una t) SN_LE (sg_ack seg) SN_LE (snd_nxt t)"
    using less seq by (simp_all add: sncmp_def)
  have eq: "tcp_received E (ip_ether_send E drv) t w = do {
      (ok, t, w) \<leftarrow> tcp_send_ctrl_seg (ip_ether_send E drv) t1 (sg_ack seg) (sg_seq seg + 1) SEG_FLAG_ACK w;
      if ok then tcp_tx_seg_complete E (t\<lparr>t_state := ESTABLISHED\<rparr>) w else Some (t, w) }"
    using next_seg_one [OF E q(1,2)] q(3) f s less seq
    by (simp add: tcp_received_def received_when_syn_sent_def syn_sent_ack_def t1_def)
  show "\<exists>w'. tcp_received E (ip_ether_send E drv) t w =
      Some (t1\<lparr>t_state := ESTABLISHED, tx_seg := None, tmr := timer_stop E (tmr t)\<rparr>, del_node r (del_buf b w')) \<and> clean w w' \<and>
      frame_given drv (e_interface dv) fr w w'"
    if acc: "accepts drv (e_interface dv) fr"
  proof -
    obtain w' where w': "tcp_send_ctrl_seg (ip_ether_send E drv) t1 (sg_ack seg) (sg_seq seg + 1) SEG_FLAG_ACK w = Some (True, t1, w')"
      "clean w w'" and gv: "frame_given drv (e_interface dv) fr w w'"
      using C(1) [OF acc] by auto
    have wf: "wf_heap w" using cs by (simp add: can_send_def)
    have "r < brk w" "b < brk w" using tx(3) wf by (auto simp: own_block_def dest: wf_heap_node wf_heap_buf)
    then have "own_block w' r b" using tx(3) w'(2) by (simp add: own_block_def clean_def)
    then have "tcp_received E (ip_ether_send E drv) t w =
        Some (t1\<lparr>t_state := ESTABLISHED, tx_seg := None, tmr := timer_stop E (tmr t)\<rparr>, del_node r (del_buf b w'))"
      using tx w'(1) own_block_delete [of w' r b] unfolding eq by (simp add: tcp_tx_seg_complete_def t1_def)
    then show ?thesis using w'(2) gv by blast
  qed
  show "tcp_received E (ip_ether_send E drv) t w = None" if "rejects drv (e_interface dv) fr"
    using C(2) [OF that] unfolding eq by simp
qed

section \<open>The SYN of a client\<close>

text \<open>The state in which \<^verbatim>\<open>tcp_open\<close> packs the SYN, and the one from which it is sent.\<close>

definition syn_packing :: "('tm, 'w) tcpw_scheme \<Rightarrow> ('tm, 'w) tcpw_scheme" where
  "syn_packing w = w\<lparr>bufs := (bufs w)(brk w \<mapsto> map (junk w (brk w)) [0..<32],
       brk w + 2 \<mapsto> map (junk w (brk w + 2)) [0..<12]),
     nodes := (nodes w)(Suc (brk w) \<mapsto> heap_node (brk w) 32), brk := brk w + 3, mallocs := mallocs w + 3\<rparr>"

definition syn_world :: "('tm, 'w) tcpw_scheme \<Rightarrow> 'tm tcb \<Rightarrow> ip \<Rightarrow> tcp_segment \<Rightarrow> ('tm, 'w) tcpw_scheme" where
  "syn_world w t ip seg = packed_heap (Suc (brk w)) (heap_node (brk w) 32) (brk w) 0 (map (junk w (brk w)) [0..<32])
     (brk w + 2) (ph_bytes (ip_self ip) (t_dest t) IP_PROTOCOL_TCP 20) (seg_bytes seg) (syn_packing w)"

lemma syn_packing_eq:
  "pseudo_header_new_from_stack s d pr 0 (fresh_blk 32 (w\<lparr>mallocs := Suc (mallocs w)\<rparr>)) =
    (\<lparr>ph_src = s, ph_dest = d, ph_protocol = pr, ph_length = 0, ph_data = Ptr (brk w + 2) 0, ph_data_size = 12\<rparr>, syn_packing w)"
proof -
  let ?W = "fresh_blk 32 (w\<lparr>mallocs := Suc (mallocs w)\<rparr>)"
  have "bump (set_buf (brk ?W) (fresh_bytes ?W 12) ?W) = syn_packing w"
    by (rule tcpw.equality)
       (auto simp: syn_packing_def fresh_blk_def fresh_bytes_def set_node_def set_buf_def bump_def heap_node_def
        init_dblk_def fun_eq_iff)
  moreover have "brk ?W = brk w + 2" by simp
  ultimately show ?thesis by (simp add: pseudo_header_new_eq)
qed

lemma syn_world_sel:
  "brk (syn_world w t ip seg) = brk w + 3" "mallocs (syn_world w t ip seg) = mallocs w + 3"
  "malloc_ok (syn_world w t ip seg) = malloc_ok w" "ident (syn_world w t ip seg) = ident w"
  "auto_header (syn_world w t ip seg) = auto_header w" "ips (syn_world w t ip seg) = ips w"
  "tcbs (syn_world w t ip seg) = tcbs w" "second (syn_world w t ip seg) = second w"
  by (simp_all add: syn_world_def syn_packing_def packed_heap_def set_node_def set_buf_def)

lemma syn_world_heap:
  "syn_world w t ip seg = w\<lparr>bufs := bufs (syn_world w t ip seg), nodes := nodes (syn_world w t ip seg),
     brk := brk w + 3, mallocs := mallocs w + 3, ident := ident w, wire := wire w\<rparr>"
  by (simp add: syn_world_def packed_heap_def syn_packing_def set_node_def set_buf_def)

lemma syn_world_can_send:
  assumes "can_send w t ip e"
  shows "can_send (syn_world w t ip seg) t ip e"
proof -
  have "wf_heap w" using assms by (simp add: can_send_def)
  then have "wf_heap (syn_packing w)"
    unfolding wf_heap_def syn_packing_def by (auto simp: less_Suc_eq intro: trans_less_add1)
  then have "wf_heap (syn_world w t ip seg)"
    unfolding syn_world_def by (intro wf_packed_heap) (auto simp: syn_packing_def)
  then show ?thesis using assms by (simp add: can_send_def syn_world_sel)
qed

lemma syn_world_raw:
  "block (syn_world w t ip seg) (Some (Suc (brk w))) [Suc (brk w)] None"
  "block_bytes (syn_world w t ip seg) [Suc (brk w)] = Some (seg_bytes seg)"
  using take_drop_splice_at [of 0 "seg_bytes seg" "map (junk w (brk w)) [0..<32]"]
  by (simp_all add: syn_world_def syn_packing_def block.simps(2) node_bytes_def node_size_def mem_simps)

lemma syn_pack:
  assumes cs: "can_send w t ip e"
  shows "tcp_pack (ctrl_seg t seq 0 flags (Some (Suc (brk w)))) (tcp_ph ip t (brk w + 2)) (syn_packing w) =
    Some (True, ctrl_out w t ip seq 0 flags, syn_world w t ip (ctrl_out w t ip seq 0 flags))"
proof -
  note C = cs [unfolded can_send_def]
  let ?a = "Suc (brk w)" and ?b = "brk w" and ?c = "Suc (Suc (brk w))" and ?F = "syn_packing w"
  let ?s = "ctrl_seg t seq 0 flags (Some ?a)" and ?ph = "tcp_ph ip t ?c"
  have hd: "hdr_node ?F ?a (heap_node ?b 32) ?b 0 (map (junk w ?b) [0..<32])" by (simp add: hdr_node_def syn_packing_def)
  have ph: "ph_ready ?ph ?c ?F" using C by (simp add: ph_ready_def tcp_ph_def syn_packing_def)
  have s: "sg_raw ?s = Some ?a" "sg_options ?s = None" "sg_payload ?s = None"
    by (simp_all add: ctrl_seg_def tcp_segment_init_def)
  have seal: "sealed_seg ?ph ?s [] = ctrl_out w t ip seq 0 flags"
    by (simp add: ctrl_out_def sealed_seg_def seg_csum_ph_data [of ip t ?c ?s "[]" 0])
  show ?thesis
    using tcp_pack_ready [OF hd ph _ s(1,2), of "[]"] s seal
    by (simp add: dblk_merge_def syn_world_def tcp_ph_def)
qed

text \<open>An active open: what is sent, and the connection that waits for the answer.\<close>

definition opening_conn :: "'tm tcb \<Rightarrow> u32 \<Rightarrow> 'tm tcb" where
  "opening_conn t isn = t\<lparr>snd_una := isn, snd_iss := isn, snd_nxt := isn, time_wait_seconds := 120\<rparr>"

definition syn_sent :: "'tm ext \<Rightarrow> ('tm, 'w) tcpw_scheme \<Rightarrow> 'tm tcb \<Rightarrow> u32 \<Rightarrow> tcp_segment \<Rightarrow> 'tm tcb" where
  "syn_sent E w t isn seg = (opening_conn t isn)\<lparr>tx_seg := Some seg, snd_nxt := isn + 1,
     tmr := timer_start E (sys_tick_s w) 5 (tmr t), t_state := SYN_SENT\<rparr>"

lemma open_when_closed_eq:
  fixes w :: "('tm, 'w) tcpw_scheme"
  assumes cs: "can_send w t ip e" and act: "\<not> t_passive t" and ok: "\<And>m. malloc_ok w m"
  defines "isn \<equiv> tcp_generate_isn w"
  defines "seg \<equiv> ctrl_out w (opening_conn t isn) ip isn 0 SEG_FLAG_SYN" and "hdr \<equiv> tcp_out_hdr w t ip 20"
  defines "S \<equiv> syn_world w t ip seg"
  shows "open_when_closed E ll_send t w = do {
    (r, g) \<leftarrow> ll_send e (sent_dg S hdr) (sent_world S (seg_bytes seg) hdr);
    (_, g) \<leftarrow> after_send S r g;
    g' \<leftarrow> pop_buf (Ptr (brk w + 2) 0) g;
    Some (syn_sent E g t isn seg, g') }"
proof -
  let ?t = "opening_conn t isn" and ?u = "w\<lparr>mallocs := Suc (mallocs w)\<rparr>"
  have cs1: "can_send w ?t ip e" using cs by (simp add: can_send_def opening_conn_def)
  note C = cs [unfolded can_send_def]
  have S: "S = syn_world w ?t ip seg" by (simp add: S_def syn_world_def opening_conn_def)
  have alloc: "mem_alloc_tcp_segment w = (Some tcp_segment_init, ?u)"
    using ok by (simp add: mem_alloc_tcp_segment_def malloc_try_def)
  have blk: "dblk_node_new_with_buff 32 ?u = Some (Some (Suc (brk w)), fresh_blk 32 ?u)"
    using dblk_node_new_with_buff_ok [of ?u 32] ok by simp
  have raw: "sg_raw seg = Some (Suc (brk w))" "sg_payload seg = None" "sg_flags seg = SEG_FLAG_SYN"
    by (simp_all add: seg_def ctrl_out_def ctrl_seg_def tcp_segment_init_def)
  have one: "tcp_segment_length g seg = Some 1" for g :: "('tm, 'w) tcpw_scheme"
    by (simp add: tcp_segment_length_def raw seg_ctrl_defs seg_flag_defs)
  have hdr: "tcp_out_hdr S t' ip (length (seg_bytes seg)) = hdr" if "t_dest t' = t_dest t" for t' :: "'tm tcb"
    using that by (simp add: tcp_out_hdr_def hdr_def S_def syn_world_sel)
  have send: "tcp_ip_send ll_send t' seg S = do {
      (r, g) \<leftarrow> ll_send e (sent_dg S hdr) (sent_world S (seg_bytes seg) hdr);
      after_send S r g }" if "t_dest t' = t_dest t" "localhost t' = localhost t" for t' :: "'tm tcb"
  proof -
    have "can_send S t' ip e" using syn_world_can_send [OF cs] that by (simp add: S_def can_send_def)
    then show ?thesis
      using tcp_ip_send_eq [of S t' ip e seg "[Suc (brk w)]" None "seg_bytes seg" ll_send] syn_world_raw [of w t ip seg] ok raw
        hdr [OF that(1)] by (simp add: S_def syn_world_sel)
  qed
  let ?K = "\<lambda>(seg :: tcp_segment) (w :: ('tm, 'w) tcpw_scheme). do {
      n \<leftarrow> tcp_segment_length w seg;
      let t = ?t\<lparr>tx_seg := Some seg, snd_nxt := snd_nxt ?t + of_nat n\<rparr>;
      (t, w) \<leftarrow> tcp_retransmit E ll_send t w;
      Some (t\<lparr>t_state := SYN_SENT\<rparr>, w) }"
  have K: "?K seg S = do {
      (r, g) \<leftarrow> ll_send e (sent_dg S hdr) (sent_world S (seg_bytes seg) hdr);
      (_, g) \<leftarrow> after_send S r g;
      Some (syn_sent E g t isn seg, g) }"
    using send [of "?t\<lparr>tx_seg := Some seg, snd_nxt := snd_nxt ?t + 1\<rparr>"]
    by (simp add: one tcp_retransmit_def syn_sent_def opening_conn_def bind_assoc case_prod_beta')
  have "open_when_closed E ll_send t w = tcp_pack_new ?t (ctrl_seg ?t isn 0 SEG_FLAG_SYN None) ?u ?K"
    using act alloc
    by (simp add: open_when_closed_def isn_def opening_conn_def ctrl_seg_def tcp_segment_init_def Let_def)
  also have "\<dots> = do { (t, g) \<leftarrow> ?K seg S; g' \<leftarrow> pop_buf (Ptr (brk w + 2) 0) g; Some (t, g') }"
  proof -
    have "(ctrl_seg ?t isn 0 SEG_FLAG_SYN None)\<lparr>sg_raw := Some (Suc (brk w))\<rparr> =
        ctrl_seg ?t isn 0 SEG_FLAG_SYN (Some (Suc (brk w)))" by (simp add: ctrl_seg_def)
    moreover have "ips (fresh_blk 32 ?u) (localhost ?t) = Some ip" using C by (simp add: opening_conn_def)
    ultimately show ?thesis
      using blk syn_packing_eq [of "ip_self ip" "t_dest ?t" IP_PROTOCOL_TCP w] syn_pack [OF cs1, of isn SEG_FLAG_SYN, folded seg_def]
      unfolding S tcp_pack_new_def by (simp add: tcp_ph_def del: heap_field_commute)
  qed
  finally show ?thesis unfolding K by (simp add: bind_assoc case_prod_beta')
qed

text \<open>What is on the wire does not depend on where the segment is kept.\<close>

lemma ctrl_eth_frame_cong:
  assumes "ident w' = ident w" "auto_header w' = auto_header w" "t_port t' = t_port t" "t_dest_port t' = t_dest_port t"
    "rcv_wnd t' = rcv_wnd t" "t_dest t' = t_dest t"
  shows "ctrl_eth_frame w' t' ip dv mac seq ack flags = ctrl_eth_frame w t ip dv mac seq ack flags"
  using assms
  by (simp add: ctrl_eth_frame_def tcp_out_hdr_def ctrl_out_def sealed_seg_def seg_csum_def seg_bytes_def
      ctrl_seg_def tcp_ph_def)

text \<open>One packet identification is used.\<close>

lemma after_send_ident:
  assumes "after_send w r g = Some (x, g')" "link_keeps as r (sent_world w bs hdr) g"
  shows "ident g' = ident w + 1"
proof -
  have "heap.more g' = heap.more g"
    using assms(1) by (auto simp: after_send_def bind_Some_iff split: if_splits dest!: free_frames loop_frames(3))
  then have "ident g' = ident g" by (cases g; cases g') simp
  moreover have "ident g = ident w + 1"
    using assms(2) by (simp add: link_keeps_def) (subst sent_world_heap, simp)
  ultimately show ?thesis by simp
qed

definition conn_opened :: "('tm, 'w) tcpw_scheme \<Rightarrow> addr \<Rightarrow> 'tm tcb \<Rightarrow> ('tm, 'w) tcpw_scheme \<Rightarrow> bool" where
  "conn_opened w p t w' \<longleftrightarrow> heap_only (w\<lparr>tcbs := (tcbs w)(p \<mapsto> t), tcp_list := tcp_list w @ [p]\<rparr>) w' \<and> wf_heap w' \<and>
     ident w' = ident w + 1 \<and> p < brk w' \<and> (\<forall>x < p. nodes w' x = nodes w x \<and> bufs w' x = bufs w x)"

lemma ether_up_conns [simp]:
  "ether_up E e (w\<lparr>tcbs := c\<rparr>) = ether_up E e w" "ether_up E e (w\<lparr>tcp_list := l\<rparr>) = ether_up E e w"
  "ether_up E e (w\<lparr>segs := sg\<rparr>) = ether_up E e w" "ether_up E e (w\<lparr>mallocs := m\<rparr>) = ether_up E e w"
  "ether_up E e (bump w) = ether_up E e w"
proof -
  have "list_match_eth (w\<lparr>tcbs := c\<rparr>) e = list_match_eth w e" "list_match_eth (w\<lparr>tcp_list := l\<rparr>) e = list_match_eth w e"
    "list_match_eth (w\<lparr>segs := sg\<rparr>) e = list_match_eth w e" "list_match_eth (w\<lparr>mallocs := m\<rparr>) e = list_match_eth w e"
    "list_match_eth (bump w) e = list_match_eth w e"
    by ((rule ext)+, simp add: list_match_eth_def bump_def)+
  then show "ether_up E e (w\<lparr>tcbs := c\<rparr>) = ether_up E e w" "ether_up E e (w\<lparr>tcp_list := l\<rparr>) = ether_up E e w"
    "ether_up E e (w\<lparr>segs := sg\<rparr>) = ether_up E e w" "ether_up E e (w\<lparr>mallocs := m\<rparr>) = ether_up E e w"
    "ether_up E e (bump w) = ether_up E e w"
    by (simp_all add: ether_up_def ether_arp_get_ip_def bump_def cong: option.case_cong)
qed

lemma link_addr_conns [simp]:
  "link_addr (w\<lparr>tcbs := c\<rparr>) d mac = link_addr w d mac" "link_addr (w\<lparr>tcp_list := l\<rparr>) d mac = link_addr w d mac"
  "link_addr (w\<lparr>segs := sg\<rparr>) d mac = link_addr w d mac" "link_addr (w\<lparr>mallocs := m\<rparr>) d mac = link_addr w d mac"
  "link_addr (bump w) d mac = link_addr w d mac"
proof -
  have "arp_hit (w\<lparr>tcbs := c\<rparr>) = arp_hit w" "arp_hit (w\<lparr>tcp_list := l\<rparr>) = arp_hit w"
    "arp_hit (w\<lparr>segs := sg\<rparr>) = arp_hit w" "arp_hit (w\<lparr>mallocs := m\<rparr>) = arp_hit w" "arp_hit (bump w) = arp_hit w"
    by ((rule ext)+, simp add: arp_hit_def bump_def)+
  then show "link_addr (w\<lparr>tcbs := c\<rparr>) d mac = link_addr w d mac" "link_addr (w\<lparr>tcp_list := l\<rparr>) d mac = link_addr w d mac"
    "link_addr (w\<lparr>segs := sg\<rparr>) d mac = link_addr w d mac" "link_addr (w\<lparr>mallocs := m\<rparr>) d mac = link_addr w d mac"
    "link_addr (bump w) d mac = link_addr w d mac"
    by (simp_all add: link_addr_def bump_def)
qed

lemma open_over_ethernet:
  fixes w :: "('tm, 'w) linkw_scheme" and drv :: "(('tm, 'w) linkw_scheme) drv_send"
    and port :: u32 and dport :: u16 and d :: ip_addr
  assumes E: "list_laws E" and f: "ip_find_netif E own local w = Some (Some i, local')"
    and free: "\<forall>p \<in> set (tcp_list w). \<exists>c. tcbs w p = Some c \<and> \<not> (localhost c = i \<and> t_port c = port \<and> \<not> t_passive c)"
  defines "v \<equiv> store_self own local' w" and "t \<equiv> new_tcb E i port (Some d) dport"
  assumes cs: "can_send v t ip e" and ok: "\<And>m. malloc_ok w m"
    and up: "ether_up E e v" "eths v e = Some dv" and mac: "link_addr v d mac"
  defines "isn \<equiv> sys_tick_s w"
  defines "fr \<equiv> ctrl_eth_frame v t ip dv mac isn 0 SEG_FLAG_SYN"
  shows "accepts drv (e_interface dv) fr \<Longrightarrow> \<exists>seg w'.
      tcp_open E (ip_ether_send E drv) own local port (Some d) dport w = Some (Some (brk w), local', w') \<and>
      conn_opened v (brk w) (syn_sent E w t isn seg) w' \<and> sg_raw seg = Some (brk w + 2) \<and> own_block w' (brk w + 2) (brk w + 1) \<and>
      frame_given drv (e_interface dv) fr w w'"
    and "rejects drv (e_interface dv) fr \<Longrightarrow> tcp_open E (ip_ether_send E drv) own local port (Some d) dport w = None"
proof -
  let ?v = "v\<lparr>mallocs := Suc (mallocs v)\<rparr>"
  let ?u = "bump (?v\<lparr>tcbs := (tcbs v)(brk w \<mapsto> t), tcp_list := tcp_list v @ [brk w]\<rparr>)"
  have v: "tcbs v = tcbs w" "tcp_list v = tcp_list w" "mallocs v = mallocs w" "malloc_ok v = malloc_ok w" "brk v = brk w"
    "second v = second w" by (simp_all add: v_def)
  have items: "list_items E xs = xs" "list_enqueue E x xs = xs @ [x]" for x :: addr and xs
    using E by (simp_all add: list_laws_def)
  have "tcbs w p \<noteq> None" if "p \<in> set (tcp_list w)" for p using free that by auto
  then have pt: "port_taken (tcbs w) (Some i) port (tcp_list w) = Some False"
    using free by (subst port_taken_iff) auto
  have t: "t_state t = CLOSED" "\<not> t_passive t" "t_dest t = d" "tmr t = timer_init E" by (simp_all add: t_def new_tcb_def)
  have u: "brk ?u = Suc (brk w)" "malloc_ok ?u = malloc_ok w" "ident ?u = ident v" "auto_header ?u = auto_header v"
    "tcp_generate_isn ?u = isn"
    by (simp_all add: bump_def v isn_def tcp_generate_isn_def sys_tick_s_def)
  have wfv: "wf_heap v" using cs by (simp add: can_send_def)
  have csu: "can_send ?u t ip e" using cs by (auto simp: can_send_def bump_def wf_heap_def less_Suc_eq)
  have upu: "ether_up E e ?u" using up(1) by simp
  have ethu: "eths ?u e = Some dv" using up(2) by (simp add: bump_def)
  have macu: "link_addr ?u d mac" using mac by simp
  let ?seg = "ctrl_out ?u (opening_conn t isn) ip isn 0 SEG_FLAG_SYN" and ?hdr = "tcp_out_hdr ?u t ip 20"
  let ?S = "syn_world ?u t ip ?seg"
  have csS: "can_send ?S t ip e" by (rule syn_world_can_send [OF csu])
  have upS: "ether_up E e ?S" by (subst syn_world_heap) (rule ether_up_heap [OF upu])
  have ethS: "eths ?S e = Some dv" using ethu by (subst syn_world_heap) simp
  have macS: "link_addr ?S (t_dest t) mac" using macu t(3) by (subst syn_world_heap, subst link_addr_heap) simp
  have len: "length (seg_bytes ?seg) < 1400" by simp
  have hdr: "tcp_out_hdr ?S t ip (length (seg_bytes ?seg)) = ?hdr" by (simp add: tcp_out_hdr_def syn_world_sel)
  have "tcp_frame ?S t ip dv mac (seg_bytes ?seg) = ctrl_eth_frame ?u (opening_conn t isn) ip dv mac isn 0 SEG_FLAG_SYN"
    by (simp add: tcp_frame_def ctrl_eth_frame_def tcp_out_hdr_def syn_world_sel opening_conn_def)
  also have "\<dots> = fr"
    unfolding fr_def by (rule ctrl_eth_frame_cong) (simp_all add: u opening_conn_def)
  finally have fr: "tcp_frame ?S t ip dv mac (seg_bytes ?seg) = fr" .
  note F = sent_over_ethernet [OF csS len upS ethS macS, of drv, unfolded hdr fr]
  have oku: "malloc_ok ?u m" for m using ok u(2) by simp
  have ev: "open_event E (ip_ether_send E drv) t ?u = do {
      (r, g) \<leftarrow> ip_ether_send E drv e (sent_dg ?S ?hdr) (sent_world ?S (seg_bytes ?seg) ?hdr);
      (_, g) \<leftarrow> after_send ?S r g;
      g' \<leftarrow> pop_buf (Ptr (brk w + 3) 0) g;
      Some (syn_sent E g t isn ?seg, g') }"
    using open_when_closed_eq [OF csu t(2) oku, of E "ip_ether_send E drv"] t(1) unfolding u(5) u(1)
    by (simp add: open_event_def numeral_3_eq_3)
  have op: "tcp_open E (ip_ether_send E drv) own local port (Some d) dport w = do {
      (t, g) \<leftarrow> open_event E (ip_ether_send E drv) t ?u;
      Some (Some (brk w), local', g\<lparr>tcbs := (tcbs g)(brk w \<mapsto> t)\<rparr>) }"
    using f pt ok by (simp add: tcp_open_def v_def [symmetric] v items malloc_try_def Let_def t_def)
  show "tcp_open E (ip_ether_send E drv) own local port (Some d) dport w = None" if "rejects drv (e_interface dv) fr"
  proof -
    have "ip_ether_send E drv e (sent_dg ?S ?hdr) (sent_world ?S (seg_bytes ?seg) ?hdr) = None"
      by (rule F(2) [OF that]) (simp only: syn_world_sel oku)
    then show ?thesis unfolding op ev by simp
  qed
  show "\<exists>seg w'. tcp_open E (ip_ether_send E drv) own local port (Some d) dport w = Some (Some (brk w), local', w') \<and>
      conn_opened v (brk w) (syn_sent E w t isn seg) w' \<and> sg_raw seg = Some (brk w + 2) \<and> own_block w' (brk w + 2) (brk w + 1) \<and>
      frame_given drv (e_interface dv) fr w w'"
    if acc: "accepts drv (e_interface dv) fr"
  proof -
    obtain r g where r: "ip_ether_send E drv e (sent_dg ?S ?hdr) (sent_world ?S (seg_bytes ?seg) ?hdr) = Some (r, g)"
      and k: "link_keeps [Suc (Suc (Suc (brk ?S))), Suc (brk ?S)] r (sent_world ?S (seg_bytes ?seg) ?hdr) g"
      and gv: "malloc_ok ?S (mallocs ?S + 2) \<longrightarrow> frame_given drv (e_interface dv) fr ?S g"
      using F(1) [OF acc] by blast
    have "wire (store_self own l w) = wire w" for l by (simp add: store_self_def split: option.split)
    then have "wire ?u = wire w" by (simp add: bump_def v_def)
    moreover have "wire ?S = wire ?u" by (subst syn_world_heap) simp
    ultimately have gv: "frame_given drv (e_interface dv) fr w g"
      using gv oku by (simp add: frame_given_def syn_world_sel)
    obtain g1 where g1: "after_send ?S r g = Some (r \<noteq> 0, g1)" "clean ?S g1" using after_send_clean [OF k] by blast
    have bS: "brk ?S = brk w + 4" by (simp add: syn_world_sel v)
    have nd: "nodes g1 a = nodes ?S a" and bf: "bufs g1 a = bufs ?S a" if "a < brk w + 4" for a
      using g1(2) that by (auto simp: clean_def bS)
    let ?t' = "syn_sent E w t isn ?seg" and ?g = "del_buf (brk w + 3) g1"
    have "bufs g1 (brk w + 3) \<noteq> None"
      using bf [of "brk w + 3"] by (simp add: syn_world_def syn_packing_def bump_def v)
    then have pop: "pop_buf (Ptr (brk w + 3) 0) g1 = Some ?g" by (simp add: pop_buf_def)
    have sec: "second g1 = second w" "tcbs g1 = tcbs ?u"
      using g1(2) v(6) by (simp_all add: clean_def same_conns_def syn_world_sel bump_def)
    have st: "syn_sent E g1 t isn ?seg = ?t'" using sec by (simp add: syn_sent_def sys_tick_s_def)
    let ?w' = "?g\<lparr>tcbs := (tcbs ?g)(brk w \<mapsto> ?t')\<rparr>"
    have run: "tcp_open E (ip_ether_send E drv) own local port (Some d) dport w = Some (Some (brk w), local', ?w')"
      unfolding op ev by (simp add: r g1(1) pop st)
    have old: "nodes ?S x = nodes v x" "bufs ?S x = bufs v x" if "x < brk w" for x
      using that by (auto simp: syn_world_def syn_packing_def bump_def v)
    have "wf_heap ?S" using csS by (simp add: can_send_def)
    then have wf: "wf_heap g1" using g1(2) by (simp add: clean_def)
    obtain B N K M I L where gS: "g1 = ?S\<lparr>bufs := B, nodes := N, brk := K, mallocs := M, ident := I, wire := L\<rparr>"
      using heap_onlyD [of ?S g1] g1(2) by (auto simp: clean_def)
    obtain B' N' where Su: "?S = ?u\<lparr>bufs := B', nodes := N', brk := brk ?u + 3, mallocs := mallocs ?u + 3, ident := ident ?u, wire := wire ?u\<rparr>"
      using syn_world_heap by blast
    have "heap_only (v\<lparr>tcbs := (tcbs v)(brk w \<mapsto> ?t'), tcp_list := tcp_list v @ [brk w]\<rparr>) ?w'"
    proof -
      obtain T where T: "?t' = T" by simp
      have "g1 = v\<lparr>bufs := B, nodes := N, brk := K, mallocs := M, ident := I, wire := L, tcbs := (tcbs v)(brk w \<mapsto> t),
          tcp_list := tcp_list v @ [brk w]\<rparr>"
        unfolding gS by (subst Su) (simp add: bump_def)
      then have "?w' = v\<lparr>bufs := B(brk w + 3 := None), nodes := N, brk := K, mallocs := M, ident := I, wire := L,
          tcbs := (tcbs v)(brk w \<mapsto> T), tcp_list := tcp_list v @ [brk w]\<rparr>"
        unfolding T by (simp add: del_buf_def)
      then show ?thesis unfolding T by (cases v) (simp add: heap_only_def)
    qed
    moreover have "wf_heap ?w'" using wf by (simp add: wf_heap_def del_buf_def)
    moreover have "brk w < brk g1" using g1(2) bS by (simp add: clean_def)
    moreover have "ident ?S = ident v" by (simp add: syn_world_sel u(3))
    then have "ident ?w' = ident v + 1" using after_send_ident [OF g1(1) k] by (simp add: del_buf_def)
    ultimately have "conn_opened v (brk w) ?t' ?w'" using nd bf old by (simp add: conn_opened_def)
    moreover have "own_block ?w' (brk w + 2) (brk w + 1)"
      using nd [of "brk w + 2"] bf [of "brk w + 1"]
      by (simp add: own_block_def syn_world_def syn_packing_def bump_def v numeral_2_eq_2)
    moreover have "sg_raw ?seg = Some (brk w + 2)"
      by (simp add: ctrl_out_def ctrl_seg_def v)
    moreover have "frame_given drv (e_interface dv) fr w ?w'"
      using gv after_send_wire [OF g1(1)] by (simp add: frame_given_def)
    ultimately show ?thesis using run by blast
  qed
qed

end
