(* ===== verification/Handshake.thy ===== *)
theory Handshake
  imports Tcp_Path Tcp_Text
begin

text \<open>
  The three frames of a handshake: what a host does with each of them, from the driver that
  receives the frame to the driver that gets the answer.
\<close>

section \<open>Hosts and frames\<close>

text \<open>
  A computation from \<open>w\<close> that gives the driver of device \<open>i\<close> the frame \<open>fr\<close> and no other: with
  a driver that answers it ends with \<open>Q\<close>, and the history shows the frame once, if it was
  taken, or as often as it was tried; with a driver that fails on the frame, it fails.
\<close>

definition one_frame :: "(('w heap_scheme) drv_send \<Rightarrow> ('a \<times> 'b \<times> 'w heap_scheme) option) \<Rightarrow> 'w heap_scheme \<Rightarrow> addr \<Rightarrow>
    u8 list \<Rightarrow> ('a \<times> 'b \<times> 'w heap_scheme \<Rightarrow> bool) \<Rightarrow> bool" where
  "one_frame run w i fr Q \<longleftrightarrow> (\<forall>drv. (accepts drv i fr \<longrightarrow> (\<exists>x y w'. run drv = Some (x, y, w') \<and>
     frame_given drv i fr w w' \<and> Q (x, y, w'))) \<and> (rejects drv i fr \<longrightarrow> run drv = None))"

text \<open>The frame \<open>fr\<close> arrives: the driver stores it in the buffer \<open>fb\<close> of the frame object.\<close>

definition arrives :: "'w heap_scheme \<Rightarrow> addr \<Rightarrow> ('w heap_scheme) drv_recv \<Rightarrow> ether_frame \<Rightarrow> addr \<Rightarrow> u8 list \<Rightarrow> bool" where
  "arrives w i rcv frame fb fr \<longleftrightarrow> delivers rcv i fr \<and> (\<exists>bs. has_room w frame fb bs fr)"

text \<open>The IP interface \<open>n\<close> over the device \<open>eth\<close> of a host that has memory.\<close>

definition host :: "'tm ext \<Rightarrow> ('tm, 'w) linkw_scheme \<Rightarrow> addr \<Rightarrow> ip \<Rightarrow> addr \<Rightarrow> ether \<Rightarrow> bool" where
  "host E w n ip eth dv \<longleftrightarrow> ips w n = Some ip \<and> ip_ll ip = Some eth \<and> ip_version (ip_self ip) = 4 \<and>
     wf_addr (ip_self ip) \<and> eths w eth = Some dv \<and> ether_up E eth w \<and> ether_arp_get_ip E eth w = Some (Some n) \<and>
     (\<forall>m. malloc_ok w m)"

lemma get_ip_conns [simp]:
  "ether_arp_get_ip E e (w\<lparr>tcbs := c\<rparr>) = ether_arp_get_ip E e w"
  "ether_arp_get_ip E e (w\<lparr>tcp_list := l\<rparr>) = ether_arp_get_ip E e w"
  "ether_arp_get_ip E e (w\<lparr>segs := sg\<rparr>) = ether_arp_get_ip E e w"
proof -
  have "list_match_eth (w\<lparr>tcbs := c\<rparr>) e = list_match_eth w e" "list_match_eth (w\<lparr>tcp_list := l\<rparr>) e = list_match_eth w e"
    "list_match_eth (w\<lparr>segs := sg\<rparr>) e = list_match_eth w e"
    by ((rule ext)+, simp add: list_match_eth_def)+
  then show "ether_arp_get_ip E e (w\<lparr>tcbs := c\<rparr>) = ether_arp_get_ip E e w"
    "ether_arp_get_ip E e (w\<lparr>tcp_list := l\<rparr>) = ether_arp_get_ip E e w"
    "ether_arp_get_ip E e (w\<lparr>segs := sg\<rparr>) = ether_arp_get_ip E e w"
    by (simp_all add: ether_arp_get_ip_def cong: option.case_cong)
qed

lemma host_conns [simp]:
  "host E (w\<lparr>tcbs := c\<rparr>) n ip e dv = host E w n ip e dv" "host E (w\<lparr>tcp_list := l\<rparr>) n ip e dv = host E w n ip e dv"
  "host E (w\<lparr>segs := sg\<rparr>) n ip e dv = host E w n ip e dv"
  by (simp_all add: host_def)

lemma host_heap_only:
  assumes "heap_only w w'" "host E w n ip e dv"
  shows "host E w' n ip e dv"
proof -
  obtain B N K M I L where w': "w' = w\<lparr>bufs := B, nodes := N, brk := K, mallocs := M, ident := I, wire := L\<rparr>"
    using heap_onlyD [OF assms(1)] by blast
  have "ether_up E e w'" using assms(2) ether_up_heap unfolding w' host_def by blast
  moreover have "ether_arp_get_ip E e w' = ether_arp_get_ip E e w" unfolding w' by (rule get_ip_heap)
  ultimately show ?thesis using assms(2) by (simp add: host_def w')
qed

lemma link_addr_heap_only:
  assumes "heap_only w w'"
  shows "link_addr w' d mac = link_addr w d mac"
  by (subst heap_onlyD [OF assms], rule link_addr_heap)

lemma host_can_send:
  assumes "host E w n ip e dv" "localhost t = n" "wf_addr (t_dest t)" "wf_heap w" "ident w \<noteq> 2147483647"
  shows "can_send w t ip e"
  using assms by (simp add: can_send_def host_def)

lemma wf_frame_handler:
  assumes "has_room w frame fb bs fr"
  shows "wf_heap (frame_handler fb bs fr hdr s n w)"
proof -
  have wf: "wf_heap w" and fb: "fb < brk w" using assms wf_heap_buf [of w fb bs] by (simp_all add: has_room_def)
  have "b < brk w + 6" if "nodes w a = Some d" "ptr_buf (d_data d) = Some b" for a d b
    using wf that unfolding wf_heap_def by (blast intro: trans_less_add1)
  then show ?thesis
    using wf fb by (auto simp: wf_heap_def frame_handler_sel init_dblk_def)
qed

lemma auto_header_handler [simp]: "auto_header (frame_handler fb bs fr hdr s n w) = auto_header w"
  by (simp add: frame_handler_def handler_world_def frame_world_def)

lemma heap_only_handler: "heap_only (w\<lparr>segs := segs (frame_handler fb bs fr hdr s n w)\<rparr>) (frame_handler fb bs fr hdr s n w)"
proof -
  let ?W = "frame_handler fb bs fr hdr s n w"
  have "heap_only (w\<lparr>segs := sg\<rparr>) (w\<lparr>bufs := b, nodes := m, brk := k, segs := sg\<rparr>)" for sg b m k
    by (cases w) (simp add: heap_only_def)
  then show ?thesis by (subst (2) frame_handler_heap)
qed

lemma wire_handler [simp]: "wire (frame_handler fb bs fr hdr s n w) = wire w"
  by (simp add: frame_handler_def handler_world_def frame_world_def)

lemma host_handler:
  "host E w n ip e dv \<Longrightarrow> host E (frame_handler fb bs fr hdr s m w) n ip e dv"
  by (rule host_heap_only [OF heap_only_handler]) simp

lemma link_addr_handler: "link_addr (frame_handler fb bs fr hdr s m w) d mac = link_addr w d mac"
  unfolding link_addr_heap_only [OF heap_only_handler] by simp

text \<open>The address a receiver finds in a packet: the mask is not sent.\<close>

definition heard :: "ip_addr \<Rightarrow> ip_addr" where
  "heard a = \<lparr>ip_version = 4, ip_v4 = ip_v4 a, ip_mask = [0, 0, 0, 0]\<rparr>"

lemma frame_seg_heard:
  "\<exists>dg. sg_datagram (frame_seg fb fr hdr s k) = Some dg \<and> h_src (dg_header dg) = heard (h_src hdr)"
  by (simp add: frame_seg_def rx_read_def read_back_def rx_datagram_def zero_header_def zero_addr_def heard_def)

lemma wf_heard [simp]: "wf_addr a \<Longrightarrow> wf_addr (heard a)"
  by (simp add: wf_addr_def heard_def)

section \<open>The segments that were sent\<close>

text \<open>A control segment is well formed for who receives it.\<close>

lemma ctrl_segment_ok:
  assumes "can_send w t ip e" "flags < 4096"
  shows "segment_ok (tcp_out_hdr w t ip 20) (ctrl_out w t ip seq ack flags) []"
proof -
  have "h_src (tcp_out_hdr w t ip 20) = ip_self ip" "h_dest (tcp_out_hdr w t ip 20) = t_dest t"
    "h_total_length (tcp_out_hdr w t ip 20) = 40" "h_protocol (tcp_out_hdr w t ip 20) = IP_PROTOCOL_TCP"
    by (simp_all add: tcp_out_hdr_def out_hdr_def tcp_header_def sealed_hdr_def Let_def)
  then show ?thesis
    using assms(2) tcp_out_hdr_plain [OF assms(1), of 20]
    by (simp add: segment_ok_def ctrl_out_def ctrl_seg_def sealed_seg_def seg_csum_def tcp_ph_def)
qed

lemma ctrl_out_sel [simp]:
  "sg_src_port (ctrl_out w t ip seq ack flags) = ucast (t_port t)" "sg_dest_port (ctrl_out w t ip seq ack flags) = t_dest_port t"
  "sg_seq (ctrl_out w t ip seq ack flags) = seq" "sg_ack (ctrl_out w t ip seq ack flags) = ack"
  "sg_flags (ctrl_out w t ip seq ack flags) = flags"
  by (simp_all add: ctrl_out_def ctrl_seg_def)

lemma tcp_out_hdr_src [simp]: "h_src (tcp_out_hdr w t ip n) = ip_self ip"
  by (simp add: tcp_out_hdr_def out_hdr_def)

lemma ctrl_eth_frame_pad:
  "ctrl_eth_frame w t ip dv mac seq ack flags @ pad = ip_frame mac (mac_address dv)
     (hdr_bytes (tcp_out_hdr w t ip 20) @ seg_bytes (ctrl_out w t ip seq ack flags) @ []) pad"
  by (simp add: ctrl_eth_frame_def ip_frame_def)

section \<open>A frame and its connection\<close>

text \<open>
  The state after a frame for connection \<open>q\<close>: the connection is \<open>t'\<close>, and of what is older
  than the frame only the addresses \<open>F\<close> were written or freed.
\<close>

definition frame_over :: "('tm, 'w) tcpw_scheme \<Rightarrow> addr set \<Rightarrow> addr \<Rightarrow> 'tm tcb \<Rightarrow> ('tm, 'w) tcpw_scheme \<Rightarrow> bool" where
  "frame_over w F q t' w' \<longleftrightarrow>
     heap_only (w\<lparr>tcbs := (tcbs w)(q \<mapsto> t'), segs := (segs w)(brk w + 5 := None)\<rparr>) w' \<and> wf_heap w' \<and>
     brk w \<le> brk w' \<and> (\<forall>x < brk w. x \<notin> F \<longrightarrow> nodes w' x = nodes w x \<and> bufs w' x = bufs w x)"

text \<open>Everything older than \<open>w\<close>, outside \<open>F\<close>, is still there.\<close>

definition untouched :: "'w heap_scheme \<Rightarrow> addr set \<Rightarrow> 'w heap_scheme \<Rightarrow> bool" where
  "untouched w F w' \<longleftrightarrow> wf_heap w' \<and> brk w \<le> brk w' \<and>
     (\<forall>x < brk w. x \<notin> F \<longrightarrow> nodes w' x = nodes w x \<and> bufs w' x = bufs w x)"

lemma untouched_trans: "untouched u {} w \<Longrightarrow> untouched w F w' \<Longrightarrow> (\<And>x. x \<in> F \<Longrightarrow> x < brk u \<Longrightarrow> x \<in> G) \<Longrightarrow> untouched u G w'"
  unfolding untouched_def by (metis empty_iff le_trans less_le_trans)

lemma frame_over_untouched: "frame_over w F q t w' \<Longrightarrow> untouched w F w'"
  by (simp add: frame_over_def untouched_def)

lemma conn_opened_untouched: "conn_opened v (brk v) t w' \<Longrightarrow> untouched v {} w'"
  by (simp add: conn_opened_def untouched_def)

lemma handler_old:
  assumes "x < brk w" "x \<noteq> fb"
  shows "nodes (frame_handler fb bs fr hdr s n w) x = nodes w x" "bufs (frame_handler fb bs fr hdr s n w) x = bufs w x"
  using assms by (simp_all add: frame_handler_sel)

lemma frame_overI:
  assumes "frame_done w q t' g w'" "\<And>x. x < brk w \<Longrightarrow> x \<notin> F \<Longrightarrow> nodes g x = nodes w x \<and> bufs g x = bufs w x"
  shows "frame_over w F q t' w'"
  using assms by (simp add: frame_done_def frame_over_def)

section \<open>The steps of the handshake\<close>

text \<open>A listening host gets a SYN and answers with one frame.\<close>

lemma listen_frame:
  fixes w :: "('tm, 'w) linkw_scheme" and dst src pad :: "u8 list" and t :: "'tm tcb"
  assumes H: "host E w n ip eth dv" "ident w \<noteq> 2147483647" and q: "only_conn w n (sg_dest_port s) q t"
    and t: "t_state t = LISTEN" "rx_segs t = []"
    and s: "segment_ok hdr s []" "sg_flags s = SEG_FLAG_SYN" and mac: "link_addr w (heard (h_src hdr)) mac"
  defines "fr \<equiv> ip_frame dst src (hdr_bytes hdr @ seg_bytes s @ []) pad"
  assumes arr: "arrives w (e_interface dv) rcv frame fb fr" and len: "length dst = 6" "length src = 6"
  defines "t1 \<equiv> t\<lparr>rcv_nxt := sg_seq s + 1, rcv_irs := sg_seq s, t_dest_port := sg_src_port s, t_dest := heard (h_src hdr)\<rparr>"
  shows "one_frame (\<lambda>drv. ether_ll_recv E drv rcv pool call eth frame w) w (e_interface dv)
    (ctrl_eth_frame w t1 ip dv mac (snd_iss t) (sg_seq s + 1) (SEG_FLAG_SYN OR SEG_FLAG_ACK))
    (\<lambda>(ok, frame', w'). ok \<and> frame_over w {fb} q (t1\<lparr>snd_nxt := snd_nxt t + 1, t_state := SYN_RECEIVED\<rparr>) w')"
    (is "one_frame _ _ _ ?ans _")
proof -
  obtain bs where rcv: "delivers rcv (e_interface dv) fr" and room: "has_room w frame fb bs fr"
    using arr by (auto simp: arrives_def)
  let ?W = "frame_handler fb bs fr hdr s 0 w" and ?t = "frame_conn t (brk w)" and ?sg = "frame_seg fb fr hdr s (brk w)"
  have E: "list_laws E" and e: "eths w eth = Some dv" and i: "ether_arp_get_ip E eth w = Some (Some n)"
    and src: "wf_addr (h_src hdr)"
    using H(1) s(1) by (simp_all add: host_def ether_up_def segment_ok_def plain_hdr_def)
  note TF = tcp_frame_handled [OF E e i s(1) q rcv [unfolded fr_def] room [unfolded fr_def] len, where pool = pool and call = call,
      folded fr_def, unfolded list.size]
  obtain dg where dg: "sg_datagram ?sg = Some dg" "h_src (dg_header dg) = heard (h_src hdr)"
    using frame_seg_heard by blast
  have HW: "host E ?W n ip eth dv" by (rule host_handler [OF H(1)])
  have wfW: "wf_heap ?W" by (rule wf_frame_handler [OF room])
  have loc: "localhost t = n" using q by (simp add: only_conn_def)
  have cs: "can_send ?W (?t\<lparr>t_dest := h_src (dg_header dg)\<rparr>) ip eth"
    by (rule host_can_send [OF HW]) (simp_all add: loc frame_conn_def dg src wfW frame_handler_sel H(2))
  have up: "ether_up E eth ?W" "eths ?W eth = Some dv" and ok: "malloc_ok ?W m" for m using HW by (simp_all add: host_def)
  have macW: "link_addr ?W (h_src (dg_header dg)) mac" using mac by (simp add: link_addr_handler dg)
  have rx: "rx_segs ?t = [brk w + 5]" "segs ?W (brk w + 5) = Some ?sg" "t_state ?t = LISTEN"
    using t by (simp_all add: frame_conn_def frame_handler_sel)
  have fl: "SEG_CTRL_S ?sg" "\<not> SEG_CTRL_R ?sg" "\<not> SEG_CTRL_A ?sg"
    using s(2) by (simp_all add: frame_seg_def seg_ctrl_defs seg_flag_defs)
  have t1: "?t\<lparr>rx_segs := [], rcv_nxt := sg_seq ?sg + 1, rcv_irs := sg_seq ?sg, t_dest_port := sg_src_port ?sg,
      t_dest := h_src (dg_header dg)\<rparr> = t1"
    using t(2) by (cases t) (simp add: t1_def frame_conn_def dg frame_seg_def)
  have ans: "ctrl_eth_frame ?W t1 ip dv mac (snd_iss ?t) (sg_seq ?sg + 1) (SEG_FLAG_SYN OR SEG_FLAG_ACK) = ?ans"
    by (subst ctrl_eth_frame_cong [of _ w _ t1]) (simp_all add: frame_handler_sel frame_conn_def frame_seg_def)
  note L = listen_over_ethernet [OF E rx fl dg(1) cs ok up macW, unfolded t1 ans]
  show ?thesis
    unfolding one_frame_def
  proof (intro allI conjI impI)
    fix drv :: "(('tm, 'w) linkw_scheme) drv_send" assume acc: "accepts drv (e_interface dv) ?ans"
    let ?t2 = "t1\<lparr>snd_nxt := snd_nxt t + 1, t_state := SYN_RECEIVED\<rparr>"
    obtain g where g: "tcp_received E (ip_ether_send E drv) ?t ?W = Some (?t2, g)" "clean ?W g"
      and gv: "frame_given drv (e_interface dv) ?ans ?W g"
      using L(1) [OF acc] by (auto simp: frame_conn_def)
    obtain frame' w' where r: "ether_ll_recv E drv rcv pool call eth frame w = Some (True, frame', w')"
      and d: "frame_done w q ?t2 g w'"
      using TF(2) [of drv ?t2 g] wfW g by (auto simp: clean_def)
    have "frame_over w {fb} q ?t2 w'"
      by (rule frame_overI [OF d]) (use g(2) in \<open>simp add: clean_def frame_handler_sel\<close>)
    moreover have "frame_given drv (e_interface dv) ?ans w w'"
      using gv d by (simp add: frame_given_def frame_done_def)
    ultimately show "\<exists>x y w'. ether_ll_recv E drv rcv pool call eth frame w = Some (x, y, w') \<and>
        frame_given drv (e_interface dv) ?ans w w' \<and>
        (case (x, y, w') of (ok, frame', w') \<Rightarrow> ok \<and> frame_over w {fb} q ?t2 w')"
      using r by auto
  next
    fix drv :: "(('tm, 'w) linkw_scheme) drv_send" assume "rejects drv (e_interface dv) ?ans"
    then show "ether_ll_recv E drv rcv pool call eth frame w = None" using TF(1) L(2) by blast
  qed
qed

text \<open>A client that waits gets a SYN+ACK, frees its SYN and answers with one frame.\<close>

lemma syn_sent_frame:
  fixes w :: "('tm, 'w) linkw_scheme" and dst src pad :: "u8 list" and t :: "'tm tcb"
  assumes H: "host E w n ip eth dv" "ident w \<noteq> 2147483647" and q: "only_conn w n (sg_dest_port s) q t"
    and t: "t_state t = SYN_SENT" "rx_segs t = []" "wf_addr (t_dest t)"
    and seq: "snd_una t = snd_iss t" "snd_nxt t = snd_iss t + 1" "sg_ack s = snd_iss t + 1" "snd_iss t \<noteq> 0xFFFFFFFF"
    and tx: "tx_seg t = Some sy" "sg_raw sy = Some r" "own_block w r b" "fb \<noteq> r" "fb \<noteq> b"
    and s: "segment_ok hdr s []" "sg_flags s = SEG_FLAG_SYN OR SEG_FLAG_ACK" and mac: "link_addr w (t_dest t) mac"
  defines "fr \<equiv> ip_frame dst src (hdr_bytes hdr @ seg_bytes s @ []) pad"
  assumes arr: "arrives w (e_interface dv) rcv frame fb fr" and len: "length dst = 6" "length src = 6"
  defines "t1 \<equiv> t\<lparr>rcv_nxt := sg_seq s + 1, rcv_irs := sg_seq s, snd_una := sg_ack s\<rparr>"
  shows "one_frame (\<lambda>drv. ether_ll_recv E drv rcv pool call eth frame w) w (e_interface dv)
    (ctrl_eth_frame w t1 ip dv mac (sg_ack s) (sg_seq s + 1) SEG_FLAG_ACK)
    (\<lambda>(ok, frame', w'). ok \<and> frame_over w {fb, r, b} q
       (t1\<lparr>t_state := ESTABLISHED, tx_seg := None, tmr := timer_stop E (tmr t)\<rparr>) w' \<and> nodes w' r = None \<and> bufs w' b = None)"
    (is "one_frame _ _ _ ?ans _")
proof -
  obtain bs where rcv: "delivers rcv (e_interface dv) fr" and room: "has_room w frame fb bs fr"
    using arr by (auto simp: arrives_def)
  let ?W = "frame_handler fb bs fr hdr s 0 w" and ?t = "frame_conn t (brk w)" and ?sg = "frame_seg fb fr hdr s (brk w)"
  have E: "list_laws E" and e: "eths w eth = Some dv" and i: "ether_arp_get_ip E eth w = Some (Some n)"
    using H(1) by (simp_all add: host_def ether_up_def)
  note TF = tcp_frame_handled [OF E e i s(1) q rcv [unfolded fr_def] room [unfolded fr_def] len, where pool = pool and call = call,
      folded fr_def, unfolded list.size]
  have HW: "host E ?W n ip eth dv" by (rule host_handler [OF H(1)])
  have wf: "wf_heap w" and wfW: "wf_heap ?W" using room wf_frame_handler [OF room] by (simp_all add: has_room_def)
  have loc: "localhost t = n" using q by (simp add: only_conn_def)
  have cs: "can_send ?W ?t ip eth"
    by (rule host_can_send [OF HW]) (simp_all add: loc frame_conn_def t(3) wfW frame_handler_sel H(2))
  have up: "ether_up E eth ?W" "eths ?W eth = Some dv" and ok: "malloc_ok ?W m" for m using HW by (simp_all add: host_def)
  have macW: "link_addr ?W (t_dest ?t) mac" using mac by (simp add: link_addr_handler frame_conn_def)
  have rx: "rx_segs ?t = [brk w + 5]" "segs ?W (brk w + 5) = Some ?sg" "t_state ?t = SYN_SENT"
    using t by (simp_all add: frame_conn_def frame_handler_sel)
  have fl: "SEG_CTRL_S ?sg" "\<not> SEG_CTRL_R ?sg" "SEG_CTRL_A ?sg"
    using s(2) by (simp_all add: frame_seg_def seg_ctrl_defs seg_flag_defs)
  have sq: "snd_una ?t = snd_iss ?t" "snd_nxt ?t = snd_iss ?t + 1" "sg_ack ?sg = snd_iss ?t + 1" "snd_iss ?t \<noteq> 0xFFFFFFFF"
    using seq by (simp_all add: frame_conn_def frame_seg_def)
  have rb: "r < brk w" "b < brk w" using tx(3) wf by (auto simp: own_block_def dest: wf_heap_node wf_heap_buf)
  then have own: "tx_seg ?t = Some sy" "sg_raw sy = Some r" "own_block ?W r b"
    using tx handler_old [of r w fb] handler_old [of b w fb] by (simp_all add: frame_conn_def own_block_def)
  have t1: "?t\<lparr>rx_segs := [], rcv_nxt := sg_seq ?sg + 1, rcv_irs := sg_seq ?sg, snd_una := sg_ack ?sg\<rparr> = t1" and tm: "tmr ?t = tmr t"
    using t(2) by (simp_all add: t1_def frame_conn_def frame_seg_def)
  have ans: "ctrl_eth_frame ?W t1 ip dv mac (sg_ack ?sg) (sg_seq ?sg + 1) SEG_FLAG_ACK = ?ans"
    by (subst ctrl_eth_frame_cong [of _ w _ t1]) (simp_all add: frame_handler_sel frame_seg_def)
  note L = syn_sent_over_ethernet [OF E rx fl sq own cs ok up macW, unfolded t1 ans tm]
  show ?thesis
    unfolding one_frame_def
  proof (intro allI conjI impI)
    fix drv :: "(('tm, 'w) linkw_scheme) drv_send" assume acc: "accepts drv (e_interface dv) ?ans"
    let ?t2 = "t1\<lparr>t_state := ESTABLISHED, tx_seg := None, tmr := timer_stop E (tmr t)\<rparr>"
    obtain g where g: "tcp_received E (ip_ether_send E drv) ?t ?W = Some (?t2, del_node r (del_buf b g))" "clean ?W g"
      and gv: "frame_given drv (e_interface dv) ?ans ?W g"
      using L(1) [OF acc] by blast
    have nd: "nodes g x = nodes ?W x \<and> bufs g x = bufs ?W x" if "x < brk ?W" for x
      using g(2) that by (simp add: clean_def)
    obtain frame' w' where R: "ether_ll_recv E drv rcv pool call eth frame w = Some (True, frame', w')"
      and d: "frame_done w q ?t2 (del_node r (del_buf b g)) w'"
      using TF(2) [of drv ?t2 "del_node r (del_buf b g)"] wfW rb g nd by (auto simp: clean_def frame_handler_sel(3))
    have "frame_over w {fb, r, b} q ?t2 w'"
      by (rule frame_overI [OF d]) (use g(2) in \<open>simp add: clean_def frame_handler_sel\<close>)
    moreover have "nodes w' r = None" "bufs w' b = None" using d rb by (simp_all add: frame_done_def)
    moreover have "frame_given drv (e_interface dv) ?ans w w'"
      using gv d by (simp add: frame_given_def frame_done_def)
    ultimately show "\<exists>x y w'. ether_ll_recv E drv rcv pool call eth frame w = Some (x, y, w') \<and>
        frame_given drv (e_interface dv) ?ans w w' \<and>
        (case (x, y, w') of (ok, frame', w') \<Rightarrow> ok \<and> frame_over w {fb, r, b} q ?t2 w' \<and> nodes w' r = None \<and> bufs w' b = None)"
      using R by auto
  next
    fix drv :: "(('tm, 'w) linkw_scheme) drv_send" assume "rejects drv (e_interface dv) ?ans"
    then show "ether_ll_recv E drv rcv pool call eth frame w = None" using TF(1) L(2) by blast
  qed
qed

text \<open>The server gets the ACK: the connection is established, and no frame is sent.\<close>

lemma syn_received_frame:
  fixes w :: "('tm, 'w) linkw_scheme" and dst src pad :: "u8 list" and t :: "'tm tcb"
  assumes E: "list_laws E" and e: "eths w eth = Some dv" and i: "ether_arp_get_ip E eth w = Some (Some n)"
    and q: "only_conn w n (sg_dest_port s) q t" and t: "t_state t = SYN_RECEIVED" "rx_segs t = []"
    and wnd: "rcv_wnd t \<noteq> 0" "unat (rcv_nxt t) + unat (rcv_wnd t) < 2 ^ 32" "sg_seq s = rcv_nxt t"
    and ack: "snd_una t \<le> sg_ack s" "sg_ack s \<le> snd_nxt t"
    and s: "segment_ok hdr s []" "sg_flags s = SEG_FLAG_ACK"
  defines "fr \<equiv> ip_frame dst src (hdr_bytes hdr @ seg_bytes s @ []) pad"
  assumes arr: "arrives w (e_interface dv) rcv frame fb fr" and len: "length dst = 6" "length src = 6"
  shows "\<exists>frame' w'. ether_ll_recv E drv rcv pool call eth frame w = Some (True, frame', w') \<and>
    frame_over w {fb} q (t\<lparr>snd_una := sg_ack s, t_state := ESTABLISHED\<rparr>) w'"
proof -
  obtain bs where rcv: "delivers rcv (e_interface dv) fr" and room: "has_room w frame fb bs fr"
    using arr by (auto simp: arrives_def)
  let ?W = "frame_handler fb bs fr hdr s 0 w" and ?t = "frame_conn t (brk w)" and ?sg = "frame_seg fb fr hdr s (brk w)"
  note TF = tcp_frame_handled [OF E e i s(1) q rcv [unfolded fr_def] room [unfolded fr_def] len, where pool = pool and call = call,
      folded fr_def, unfolded list.size]
  have rx: "rx_segs ?t = [brk w + 5]" "segs ?W (brk w + 5) = Some ?sg" "t_state ?t = SYN_RECEIVED"
    using t by (simp_all add: frame_conn_def frame_handler_sel)
  have fl: "SEG_CTRL_A ?sg" "\<not> SEG_CTRL_R ?sg" "\<not> SEG_CTRL_S ?sg" "\<not> SEG_CTRL_F ?sg"
    using s(2) by (simp_all add: frame_seg_def seg_ctrl_defs seg_flag_defs)
  have sz: "dblk_size ?W (sg_payload ?sg) = Some 0"
  proof -
    have "nodes ?W (brk w + 3) = Some (init_dblk (Ptr fb 54) 0)" by (simp add: frame_handler_sel)
    then have "dblk_size ?W (Some (brk w + 3)) = Some 0"
      using dblk_size_node [of ?W "brk w + 3" "init_dblk (Ptr fb 54) 0"] by (simp add: node_size_def)
    then show ?thesis by (simp add: frame_seg_def numeral_3_eq_3)
  qed
  have c: "rcv_wnd ?t \<noteq> 0" "unat (rcv_nxt ?t) + unat (rcv_wnd ?t) < 2 ^ 32" "sg_seq ?sg = rcv_nxt ?t"
    "snd_una ?t \<le> sg_ack ?sg" "sg_ack ?sg \<le> snd_nxt ?t"
    using wnd ack by (simp_all add: frame_conn_def frame_seg_def)
  let ?t2 = "t\<lparr>snd_una := sg_ack s, t_state := ESTABLISHED\<rparr>"
  have "?t\<lparr>rx_segs := [], snd_una := sg_ack ?sg, t_state := ESTABLISHED\<rparr> = ?t2"
    using t(2) by (cases t) (simp add: frame_conn_def frame_seg_def)
  then have g: "tcp_received E (ip_ether_send E drv) ?t ?W = Some (?t2, ?W)"
    using syn_received_ack_result [OF E rx fl sz c, of "ip_ether_send E drv"] by simp
  then obtain frame' w' where "ether_ll_recv E drv rcv pool call eth frame w = Some (True, frame', w')"
    and d: "frame_done w q ?t2 ?W w'"
    using TF(2) [of drv ?t2 ?W] wf_frame_handler [OF room] by auto
  moreover have "frame_over w {fb} q ?t2 w'"
    by (rule frame_overI [OF d]) (simp add: handler_old)
  ultimately show ?thesis by blast
qed

section \<open>The handshake\<close>

text \<open>A client opens a connection: one frame with a SYN.\<close>

lemma open_frame:
  fixes w :: "('tm, 'w) linkw_scheme" and port :: u32 and dport :: u16 and d :: ip_addr
  assumes f: "ip_find_netif E own local w = Some (Some n, local')"
    and free: "\<forall>p \<in> set (tcp_list w). \<exists>c. tcbs w p = Some c \<and> \<not> (localhost c = n \<and> t_port c = port)"
  defines "v \<equiv> store_self own local' w" and "t \<equiv> new_tcb E n port (Some d) dport"
  assumes H: "host E v n ip e dv" "ident v \<noteq> 2147483647" "wf_heap v" and d: "wf_addr d" and mac: "link_addr v d mac"
  defines "isn \<equiv> sys_tick_s w"
  shows "one_frame (\<lambda>drv. tcp_open E (ip_ether_send E drv) own local port (Some d) dport w) w (e_interface dv)
    (ctrl_eth_frame v t ip dv mac isn 0 SEG_FLAG_SYN)
    (\<lambda>(p, l, w'). p = Some (brk w) \<and> l = local' \<and> (\<exists>seg. conn_opened v (brk w) (syn_sent E w t isn seg) w' \<and>
       sg_raw seg = Some (brk w + 2) \<and> own_block w' (brk w + 2) (brk w + 1)))"
proof -
  have loc: "localhost t = n" "t_dest t = d" by (simp_all add: t_def new_tcb_def)
  have cs: "can_send v t ip e" by (rule host_can_send [OF H(1)]) (simp_all add: loc d H)
  have up: "ether_up E e v" "eths v e = Some dv" and okv: "malloc_ok v m" for m using H(1) by (simp_all add: host_def)
  have E: "list_laws E" using up(1) by (simp add: ether_up_def)
  have ok: "malloc_ok w m" for m using okv by (simp add: v_def)
  have free': "\<forall>p \<in> set (tcp_list w). \<exists>c. tcbs w p = Some c \<and> \<not> (localhost c = n \<and> t_port c = port \<and> \<not> t_passive c)"
    using free by blast
  note O = open_over_ethernet [OF E f free' cs [unfolded t_def v_def] ok up [unfolded v_def] mac [unfolded v_def],
      folded t_def v_def isn_def]
  show ?thesis
    unfolding one_frame_def
  proof (intro allI conjI impI)
    fix drv :: "(('tm, 'w) linkw_scheme) drv_send"
    assume "accepts drv (e_interface dv) (ctrl_eth_frame v t ip dv mac isn 0 SEG_FLAG_SYN)"
    from O(1) [OF this] show "\<exists>x y w'. tcp_open E (ip_ether_send E drv) own local port (Some d) dport w = Some (x, y, w') \<and>
      frame_given drv (e_interface dv) (ctrl_eth_frame v t ip dv mac isn 0 SEG_FLAG_SYN) w w' \<and>
      (case (x, y, w') of (p, l, w') \<Rightarrow> p = Some (brk w) \<and> l = local' \<and> (\<exists>seg. conn_opened v (brk w) (syn_sent E w t isn seg) w' \<and>
       sg_raw seg = Some (brk w + 2) \<and> own_block w' (brk w + 2) (brk w + 1)))"
      by blast
  qed (rule O(2))
qed

text \<open>The connection \<open>p\<close> is established, with these numbers and this peer.\<close>

definition conn_up :: "('tm, 'w) tcpw_scheme \<Rightarrow> addr \<Rightarrow> ip_addr \<Rightarrow> u16 \<Rightarrow> u32 \<Rightarrow> u32 \<Rightarrow> bool" where
  "conn_up w p peer peer_port nxt expected \<longleftrightarrow> (\<exists>t. tcbs w p = Some t \<and> t_state t = ESTABLISHED \<and> t_dest t = peer \<and>
     t_dest_port t = peer_port \<and> snd_una t = nxt \<and> snd_nxt t = nxt \<and> rcv_nxt t = expected \<and> tx_seg t = None \<and> rx_segs t = [])"

lemma one_frame_mono:
  "one_frame run w i fr P \<Longrightarrow> (\<And>r. P r \<Longrightarrow> Q r) \<Longrightarrow> one_frame run w i fr Q"
  unfolding one_frame_def by blast

lemma frame_over_sel:
  assumes "frame_over w F q t' w'"
  shows "tcbs w' = (tcbs w)(q \<mapsto> t')" "tcp_list w' = tcp_list w" "host E w n ip e dv \<Longrightarrow> host E w' n ip e dv"
proof -
  note H = assms [unfolded frame_over_def, THEN conjunct1]
  show "tcbs w' = (tcbs w)(q \<mapsto> t')" "tcp_list w' = tcp_list w"
    by (subst heap_onlyD [OF H], simp)+
  show "host E w' n ip e dv" if "host E w n ip e dv"
    by (rule host_heap_only [OF H]) (use that in simp)
qed

lemma conn_opened_sel:
  assumes "conn_opened w p t w'"
  shows "tcbs w' = (tcbs w)(p \<mapsto> t)" "tcp_list w' = tcp_list w @ [p]" "host E w n ip e dv \<Longrightarrow> host E w' n ip e dv"
    and "link_addr w' d mac = link_addr w d mac"
proof -
  note H = assms [unfolded conn_opened_def, THEN conjunct1]
  show "tcbs w' = (tcbs w)(p \<mapsto> t)" "tcp_list w' = tcp_list w @ [p]"
    by (subst heap_onlyD [OF H], simp)+
  show "host E w' n ip e dv" if "host E w n ip e dv"
    by (rule host_heap_only [OF H]) (use that in simp)
  show "link_addr w' d mac = link_addr w d mac"
    unfolding link_addr_heap_only [OF H] by simp
qed

lemma only_conn_upd:
  assumes "only_conn w n port q t" "tcbs w' = (tcbs w)(q \<mapsto> t')" "tcp_list w' = tcp_list w"
    and "localhost t' = localhost t" "t_port t' = t_port t"
  shows "only_conn w' n port q t'"
  using assms by (auto simp: only_conn_def)

lemma ucast_port [simp]: "(ucast (ucast (p :: u16) :: u32) :: u16) = p"
  by (rule bit_eqI) (auto simp: bit_simps dest: bit_imp_le_length)

lemma ctrl_flags [simp]:
  "SEG_FLAG_SYN < 4096" "SEG_FLAG_ACK < 4096" "SEG_FLAG_SYN OR SEG_FLAG_ACK < 4096"
  by (simp_all add: seg_flag_defs)

text \<open>The frame is as long as the addresses in it are.\<close>

lemma host_macs:
  assumes "host E w n ip e dv" "link_addr w d mac"
  shows "length mac = 6" "length (mac_address dv) = 6"
proof -
  have up: "ether_up E e w" "eths w e = Some dv" using assms(1) by (simp_all add: host_def)
  show "length mac = 6" by (rule known_address(2) [OF up(1) assms(2)])
  show "length (mac_address dv) = 6" using up by (auto simp: ether_up_def)
qed

text \<open>A frame with the segment \<open>s\<close> and no text, as \<^verbatim>\<open>tcp_send_ctrl_seg\<close> makes it.\<close>

definition carries :: "u8 list \<Rightarrow> ip_header \<Rightarrow> tcp_segment \<Rightarrow> bool" where
  "carries fr hdr s \<longleftrightarrow> segment_ok hdr s [] \<and> (\<exists>dst src. length dst = 6 \<and> length src = 6 \<and>
     fr = frame_hdr dst src ETHER_TYPE_IP @ hdr_bytes hdr @ seg_bytes s)"

lemma carriesD:
  assumes "carries fr hdr s"
  obtains dst src where "segment_ok hdr s []" "length dst = 6" "length src = 6"
    "\<And>pad. fr @ pad = ip_frame dst src (hdr_bytes hdr @ seg_bytes s @ []) pad"
  using assms by (auto simp: carries_def ip_frame_def)

lemma ctrl_carries:
  assumes "can_send w t ip e" "length mac = 6" "length (mac_address dv) = 6" "flags < 4096"
  shows "carries (ctrl_eth_frame w t ip dv mac seq ack flags) (tcp_out_hdr w t ip 20) (ctrl_out w t ip seq ack flags)"
  using assms ctrl_segment_ok [OF assms(1,4)] unfolding carries_def ctrl_eth_frame_def by blast

lemma carries_length: "carries fr hdr s \<Longrightarrow> length fr = 54"
  by (auto simp: carries_def segment_ok_def frame_hdr_def)

text \<open>A listening connection gets a SYN.\<close>

lemma server_answers:
  fixes w :: "('tm, 'w) linkw_scheme" and isn :: u32 and dport dp :: u16 and E :: "'tm ext" and n :: addr
  assumes H: "host E w n ip eth dv" "ident w \<noteq> 2147483647" "wf_heap w" and mac: "link_addr w (heard (h_src hdr)) mac"
  defines "t \<equiv> listening E n (ucast dport) dp isn"
  assumes q: "only_conn w n dport q t" and s: "carries f hdr s" "sg_flags s = SEG_FLAG_SYN" "sg_dest_port s = dport"
  defines "t1 \<equiv> t\<lparr>t_dest_port := sg_src_port s, t_dest := heard (h_src hdr)\<rparr>"
  defines "ans \<equiv> ctrl_eth_frame w t1 ip dv mac isn (sg_seq s + 1) (SEG_FLAG_SYN OR SEG_FLAG_ACK)"
  shows "arrives w (e_interface dv) rcv frame fb (f @ pad) \<Longrightarrow>
      one_frame (\<lambda>drv. ether_ll_recv E drv rcv pool call eth frame w) w (e_interface dv) ans
        (\<lambda>(ok, frame', w'). frame_over w {fb} q (t1\<lparr>rcv_nxt := sg_seq s + 1, rcv_irs := sg_seq s, snd_nxt := isn + 1,
          t_state := SYN_RECEIVED\<rparr>) w')"
    and "\<exists>hdr' s'. carries ans hdr' s' \<and> sg_flags s' = SEG_FLAG_SYN OR SEG_FLAG_ACK \<and> sg_dest_port s' = sg_src_port s \<and>
      sg_ack s' = sg_seq s + 1 \<and> sg_seq s' = isn"
proof -
  obtain dst src where d: "segment_ok hdr s []" "length dst = 6" "length src = 6"
    "\<And>pad. f @ pad = ip_frame dst src (hdr_bytes hdr @ seg_bytes s @ []) pad" using s(1) by (rule carriesD) blast
  let ?t1 = "t\<lparr>rcv_nxt := sg_seq s + 1, rcv_irs := sg_seq s, t_dest_port := sg_src_port s, t_dest := heard (h_src hdr)\<rparr>"
  have ans: "ans = ctrl_eth_frame w ?t1 ip dv mac isn (sg_seq s + 1) (SEG_FLAG_SYN OR SEG_FLAG_ACK)"
    unfolding ans_def t1_def by (rule ctrl_eth_frame_cong) simp_all
  have t: "t_state t = LISTEN" "rx_segs t = []" "snd_iss t = isn" "snd_nxt t = isn" "localhost t = n"
    by (simp_all add: t_def listening_def new_tcb_def)
  have "wf_addr (h_src hdr)" using d(1) by (simp add: segment_ok_def plain_hdr_def)
  then have cs: "can_send w ?t1 ip eth" by (intro host_can_send [OF H(1)]) (simp_all add: t H)
  show "\<exists>hdr' s'. carries ans hdr' s' \<and> sg_flags s' = SEG_FLAG_SYN OR SEG_FLAG_ACK \<and> sg_dest_port s' = sg_src_port s \<and>
      sg_ack s' = sg_seq s + 1 \<and> sg_seq s' = isn"
    unfolding ans using ctrl_carries [OF cs host_macs [OF H(1) mac] ctrl_flags(3), of isn "sg_seq s + 1"] by force
  have t1: "t1\<lparr>rcv_nxt := x, rcv_irs := y, snd_nxt := z, t_state := st\<rparr> =
      t\<lparr>rcv_nxt := x, rcv_irs := y, t_dest_port := sg_src_port s, t_dest := heard (h_src hdr), snd_nxt := z, t_state := st\<rparr>"
    for x y z st by (simp add: t1_def)
  show "one_frame (\<lambda>drv. ether_ll_recv E drv rcv pool call eth frame w) w (e_interface dv) ans
        (\<lambda>(ok, frame', w'). frame_over w {fb} q (t1\<lparr>rcv_nxt := sg_seq s + 1, rcv_irs := sg_seq s, snd_nxt := isn + 1,
          t_state := SYN_RECEIVED\<rparr>) w')"
    if "arrives w (e_interface dv) rcv frame fb (f @ pad)"
    unfolding ans t1
    by (rule one_frame_mono [OF listen_frame [OF H(1,2) q [folded s(3)] t(1,2) d(1) s(2) mac that [unfolded d(4)] d(2,3),
        of pool call, unfolded t(3,4)]]) auto
qed

text \<open>The ACK as it is on the wire, in terms of the state before the connection was opened.\<close>

lemma ack_frame:
  assumes "conn_opened v p (syn_sent E w (new_tcb E n port (Some d) dport) a sy) w1"
  shows "ctrl_eth_frame w1 ((syn_sent E w (new_tcb E n port (Some d) dport) a sy)\<lparr>rcv_nxt := x, rcv_irs := y, snd_una := z\<rparr>)
      ip dv mac seq ack flags =
    ctrl_eth_frame (v\<lparr>ident := ident v + 1\<rparr>) (new_tcb E n port (Some d) dport) ip dv mac seq ack flags"
proof -
  have "auto_header w1 = auto_header v" "ident w1 = ident v + 1"
    using assms by (simp_all add: conn_opened_def heap_only_def)
  then show ?thesis by (intro ctrl_eth_frame_cong) (simp_all add: syn_sent_def opening_conn_def)
qed

text \<open>A client that has opened gets the answer to its SYN.\<close>

lemma client_answers:
  fixes w v w1 :: "('tm, 'w) linkw_scheme" and port dport :: u16 and d :: ip_addr and a :: u32
    and E :: "'tm ext" and n :: addr
  defines "t \<equiv> new_tcb E n (ucast port) (Some d) dport"
  assumes o': "conn_opened v (brk v) (syn_sent E w t a sy) w1" "sg_raw sy = Some (brk v + 2)"
      "own_block w1 (brk v + 2) (brk v + 1)"
    and free: "\<forall>p \<in> set (tcp_list v). \<exists>c. tcbs v p = Some c \<and> \<not> (localhost c = n \<and> t_port c = ucast port)"
    and H: "host E v n ip eth dv" "ident v < 2147483646" and d: "wf_addr d" "link_addr v d mac" and a: "a \<noteq> 0xFFFFFFFF"
    and s: "carries f hdr s" "sg_flags s = SEG_FLAG_SYN OR SEG_FLAG_ACK" "sg_dest_port s = port" "sg_ack s = a + 1"
  defines "ack \<equiv> ctrl_eth_frame (v\<lparr>ident := ident v + 1\<rparr>) t ip dv mac (a + 1) (sg_seq s + 1) SEG_FLAG_ACK"
  shows "arrives w1 (e_interface dv) rcv frame fb (f @ pad) \<Longrightarrow> fb < brk v \<Longrightarrow>
      one_frame (\<lambda>drv. ether_ll_recv E drv rcv pool call eth frame w1) w1 (e_interface dv) ack
        (\<lambda>(ok, frame', w'). untouched v {fb} w' \<and> conn_up w' (brk v) d dport (a + 1) (sg_seq s + 1))"
    and "\<exists>hdr' s'. carries ack hdr' s' \<and> sg_flags s' = SEG_FLAG_ACK \<and> sg_dest_port s' = dport \<and>
      sg_ack s' = sg_seq s + 1 \<and> sg_seq s' = a + 1"
proof -
  obtain dst src where f: "segment_ok hdr s []" "length dst = 6" "length src = 6"
    "\<And>pad. f @ pad = ip_frame dst src (hdr_bytes hdr @ seg_bytes s @ []) pad" using s(1) by (rule carriesD) blast
  let ?t = "syn_sent E w t a sy" and ?r = "brk v + 2" and ?b = "brk v + 1"
  let ?t1 = "?t\<lparr>rcv_nxt := sg_seq s + 1, rcv_irs := sg_seq s, snd_una := a + 1\<rparr>"
  have ack: "ctrl_eth_frame w1 ?t1 ip dv mac (a + 1) (sg_seq s + 1) SEG_FLAG_ACK = ack"
    unfolding ack_def t_def by (rule ack_frame [OF o'(1) [unfolded t_def]])
  note O = conn_opened_sel [OF o'(1)]
  have id: "ident w1 \<noteq> 2147483647" and wf: "wf_heap w1" using o'(1) H(2) by (simp_all add: conn_opened_def)
  have H1: "host E w1 n ip eth dv" by (rule O(3) [OF H(1)])
  have t: "localhost ?t = n" "t_port ?t = ucast port" "t_state ?t = SYN_SENT" "rx_segs ?t = []" "t_dest ?t = d" "t_dest_port ?t = dport"
    "snd_una ?t = a" "snd_iss ?t = a" "snd_nxt ?t = a + 1" "tx_seg ?t = Some sy"
    by (simp_all add: syn_sent_def opening_conn_def t_def new_tcb_def)
  have q: "only_conn w1 n (sg_dest_port s) (brk v) ?t" using free by (auto simp: only_conn_def O(1,2) t s(3))
  have mac1: "link_addr w1 (t_dest ?t) mac" using d(2) by (simp add: O(4) t)
  have cs: "can_send w1 ?t1 ip eth" by (rule host_can_send [OF H1]) (simp_all add: t d wf id)
  show "\<exists>hdr' s'. carries ack hdr' s' \<and> sg_flags s' = SEG_FLAG_ACK \<and> sg_dest_port s' = dport \<and>
      sg_ack s' = sg_seq s + 1 \<and> sg_seq s' = a + 1"
    using ctrl_carries [OF cs host_macs [OF H(1) d(2)] ctrl_flags(2), of "a + 1" "sg_seq s + 1"] t(6) unfolding ack by force
  assume arr: "arrives w1 (e_interface dv) rcv frame fb (f @ pad)" "fb < brk v"
  have "one_frame (\<lambda>drv. ether_ll_recv E drv rcv pool call eth frame w1) w1 (e_interface dv) ack
      (\<lambda>(ok, frame', w'). ok \<and> frame_over w1 {fb, ?r, ?b} (brk v)
         (?t1\<lparr>t_state := ESTABLISHED, tx_seg := None, tmr := timer_stop E (tmr ?t)\<rparr>) w' \<and> nodes w' ?r = None \<and> bufs w' ?b = None)"
    using syn_sent_frame [OF H1 id q t(3,4), where sy = sy and r = ?r and b = ?b and fb = fb and hdr = hdr and mac = mac and
        dst = dst and src = src and pad = pad and rcv = rcv and frame = frame and pool = pool and call = call]
      t o' arr d(1) a s mac1 f unfolding ack [symmetric] by simp
  then show "one_frame (\<lambda>drv. ether_ll_recv E drv rcv pool call eth frame w1) w1 (e_interface dv) ack
      (\<lambda>(ok, frame', w'). untouched v {fb} w' \<and> conn_up w' (brk v) d dport (a + 1) (sg_seq s + 1))"
  proof (rule one_frame_mono, clarify, intro conjI)
    fix ok frame' w'
    assume o2: "frame_over w1 {fb, ?r, ?b} (brk v) (?t1\<lparr>t_state := ESTABLISHED, tx_seg := None, tmr := timer_stop E (tmr ?t)\<rparr>) w'"
    show "untouched v {fb} w'"
      by (rule untouched_trans [OF conn_opened_untouched [OF o'(1)] frame_over_untouched [OF o2]]) auto
    show "conn_up w' (brk v) d dport (a + 1) (sg_seq s + 1)"
      using frame_over_sel(1) [OF o2] by (simp add: conn_up_def t)
  qed
qed

text \<open>The connection of a server that has answered a SYN gets the last ACK.\<close>

lemma server_done:
  fixes w w1 :: "('tm, 'w) linkw_scheme" and isn a :: u32 and dport dp port :: u16
    and E :: "'tm ext" and n :: addr and peer :: ip_addr
  assumes q: "only_conn w n dport q (listening E n (ucast dport) dp isn)" and H: "host E w n ip eth dv"
  defines "t1 \<equiv> (listening E n (ucast dport) dp isn)\<lparr>t_dest_port := port, t_dest := peer\<rparr>"
  assumes o': "frame_over w F q (t1\<lparr>rcv_nxt := a + 1, rcv_irs := a, snd_nxt := isn + 1, t_state := SYN_RECEIVED\<rparr>) w1"
    and b: "isn \<noteq> 0xFFFFFFFF" and a: "unat a + 1501 < 2 ^ 32"
    and s: "carries f hdr s" "sg_flags s = SEG_FLAG_ACK" "sg_dest_port s = dport" "sg_ack s = isn + 1" "sg_seq s = a + 1"
    and arr: "arrives w1 (e_interface dv) rcv frame fb (f @ pad)"
  shows "\<exists>frame' w'. ether_ll_recv E drv rcv pool call eth frame w1 = Some (True, frame', w') \<and>
    untouched w1 {fb} w' \<and> conn_up w' q peer port (isn + 1) (a + 1)"
proof -
  obtain dst src where d: "segment_ok hdr s []" "length dst = 6" "length src = 6"
    "\<And>pad. f @ pad = ip_frame dst src (hdr_bytes hdr @ seg_bytes s @ []) pad" using s(1) by (rule carriesD) blast
  let ?t = "t1\<lparr>rcv_nxt := a + 1, rcv_irs := a, snd_nxt := isn + 1, t_state := SYN_RECEIVED\<rparr>"
  note O = frame_over_sel [OF o']
  have H1: "host E w1 n ip eth dv" by (rule O(3) [OF H])
  have E: "list_laws E" and e: "eths w1 eth = Some dv" and i: "ether_arp_get_ip E eth w1 = Some (Some n)"
    using H1 by (simp_all add: host_def ether_up_def)
  have q1: "only_conn w1 n (sg_dest_port s) q ?t"
    unfolding s(3) by (rule only_conn_upd [OF q O(1,2)]) (simp_all add: t1_def)
  have t: "t_state ?t = SYN_RECEIVED" "rx_segs ?t = []" "rcv_wnd ?t = 1500" "rcv_nxt ?t = a + 1" "snd_una ?t = isn"
    "snd_nxt ?t = isn + 1" "t_dest ?t = peer" "t_dest_port ?t = port" "tx_seg ?t = None"
    by (simp_all add: t1_def listening_def new_tcb_def)
  have "unat (a + 1) + 1500 < 2 ^ 32" using a by (simp add: unat_word_ariths)
  moreover have "isn \<le> isn + 1"
    using b by (simp add: word_le_nat_alt unat_word_ariths word_unat_eq_iff) (use unat_u32_less [of isn] in simp)
  ultimately obtain frame' w' where "ether_ll_recv E drv rcv pool call eth frame w1 = Some (True, frame', w')"
    and f: "frame_over w1 {fb} q (?t\<lparr>snd_una := sg_ack s, t_state := ESTABLISHED\<rparr>) w'"
    using syn_received_frame [OF E e i q1 t(1,2), where hdr = hdr and rcv = rcv and frame = frame and fb = fb and dst = dst and
        src = src and pad = pad and drv = drv and pool = pool and call = call]
      t s arr d by auto
  moreover have "conn_up w' q peer port (isn + 1) (a + 1)"
    using frame_over_sel(1) [OF f] t s(4) by (simp add: conn_up_def)
  ultimately show ?thesis using frame_over_untouched [OF f] by blast
qed

section \<open>After the handshake\<close>

text \<open>
  A frame with a segment that acknowledges, for an established connection with nothing in
  flight: the handler reads through the null pointer \<^verbatim>\<open>tx_seg\<close>.
\<close>

lemma established_frame_null:
  fixes w :: "('tm, 'w) linkw_scheme" and dst src pad :: "u8 list" and t :: "'tm tcb"
  assumes H: "host E w n ip eth dv" and q: "only_conn w n (sg_dest_port s) q t"
    and t: "t_state t = ESTABLISHED" "rx_segs t = []" "tx_seg t = None"
    and wnd: "rcv_wnd t \<noteq> 0" "unat (rcv_nxt t) + unat (rcv_wnd t) < 2 ^ 32" "sg_seq s = rcv_nxt t"
    and s: "segment_ok hdr s ps" "SEG_CTRL_A s" "\<not> SEG_CTRL_R s"
    and arr: "arrives w (e_interface dv) rcv frame fb (ip_frame dst src (hdr_bytes hdr @ seg_bytes s @ ps) pad)"
    and len: "length dst = 6" "length src = 6"
  shows "ether_ll_recv E drv rcv pool call eth frame w = None"
proof -
  let ?fr = "ip_frame dst src (hdr_bytes hdr @ seg_bytes s @ ps) pad"
  obtain bs where rcv: "delivers rcv (e_interface dv) ?fr" and room: "has_room w frame fb bs ?fr"
    using arr by (auto simp: arrives_def)
  let ?W = "frame_handler fb bs ?fr hdr s (length ps) w" and ?t = "frame_conn t (brk w)" and ?sg = "frame_seg fb ?fr hdr s (brk w)"
  have E: "list_laws E" and e: "eths w eth = Some dv" and i: "ether_arp_get_ip E eth w = Some (Some n)"
    using H by (simp_all add: host_def ether_up_def)
  have rx: "rx_segs ?t = [brk w + 5]" "segs ?W (brk w + 5) = Some ?sg" "t_state ?t = ESTABLISHED" "tx_seg ?t = None"
    using t by (simp_all add: frame_conn_def frame_handler_sel)
  have fl: "SEG_CTRL_A ?sg" "\<not> SEG_CTRL_R ?sg"
    using s(2,3) by (simp_all add: frame_seg_def seg_ctrl_defs)
  obtain m where sz: "tcp_segment_length ?W ?sg = Some m"
  proof -
    have "nodes ?W (brk w + 3) = Some (init_dblk (Ptr fb 54) (length ps))" by (simp add: frame_handler_sel)
    then have "\<exists>k. dblk_size ?W (sg_payload ?sg) = Some k"
      using dblk_size_node [of ?W "brk w + 3" "init_dblk (Ptr fb 54) (length ps)"]
      by (simp add: frame_seg_def numeral_3_eq_3)
    then show thesis using that by (auto simp: tcp_segment_length_def)
  qed
  have c: "rcv_wnd ?t \<noteq> 0" "unat (rcv_nxt ?t) + unat (rcv_wnd ?t) < 2 ^ 32" "sg_seq ?sg = rcv_nxt ?t"
    using wnd by (simp_all add: frame_conn_def frame_seg_def)
  have "tcp_received E (ip_ether_send E drv) ?t ?W = None"
    by (rule established_null_tx_seg [OF E rx(1-3) fl sz c rx(4)])
  then show ?thesis by (rule tcp_frame_handled(1) [OF E e i s(1) q rcv room len])
qed

end
