(* ===== verification/Tcp_Stream.thy ===== *)
theory Tcp_Stream
  imports Tcp_Text
begin

text \<open>
  Reading from a connection: the queue of blocks that \<^verbatim>\<open>tcp_handle_data\<close> fills, seen as a
  stream of bytes, and what \<^verbatim>\<open>tcp_recv\<close> takes from it over any number of blocks.
\<close>

section \<open>The stream\<close>

text \<open>A queued block: one heap node with a buffer of its own, of which the bytes \<open>us\<close> are unread.\<close>

definition unread :: "'w heap_scheme \<Rightarrow> addr \<Rightarrow> addr \<Rightarrow> u8 list \<Rightarrow> bool" where
  "unread w r b us \<longleftrightarrow> (\<exists>d bs. nodes w r = Some d \<and> \<not> d_more d \<and> d_node_malloc d \<and> d_data_malloc d \<and> d_data d = Ptr b 0 \<and>
     d_offset d \<le> d_size d \<and> d_size d < 65536 \<and> bufs w b = Some bs \<and> d_size d \<le> length bs \<and>
     us = drop (d_offset d) (take (d_size d) bs))"

fun queued_text :: "'w heap_scheme \<Rightarrow> addr list \<Rightarrow> addr list \<Rightarrow> u8 list list \<Rightarrow> bool" where
  "queued_text w [] [] [] = True"
| "queued_text w (r # rs) (b # bs) (us # uss) =
     (unread w r b us \<and> r \<notin> set rs \<and> b \<notin> set bs \<and> queued_text w rs bs uss)"
| "queued_text w _ _ _ = False"

text \<open>The pieces one read takes from the blocks, and what is unread afterwards.\<close>

fun recv_chunks :: "nat \<Rightarrow> u8 list list \<Rightarrow> u8 list list" where
  "recv_chunks n [] = []"
| "recv_chunks n (us # uss) = (if n = 0 then [] else if length us < n then us # recv_chunks (n - length us) uss
     else [take n us])"

fun recv_rest :: "nat \<Rightarrow> u8 list list \<Rightarrow> u8 list list" where
  "recv_rest n [] = []"
| "recv_rest n (us # uss) = (if n = 0 then us # uss else if length us < n then recv_rest (n - length us) uss
     else drop n us # uss)"

lemma concat_chunks: "concat (recv_chunks n uss) = take n (concat uss)"
  by (induction n uss rule: recv_chunks.induct) auto

lemma concat_rest: "concat (recv_rest n uss) = drop n (concat uss)"
  by (induction n uss rule: recv_rest.induct) auto

text \<open>Each piece is stored at the start of the caller's memory.\<close>

definition stored :: "nat \<Rightarrow> u8 list list \<Rightarrow> u8 list \<Rightarrow> u8 list" where
  "stored j chunks cs = foldl (\<lambda>cs ch. splice_at cs j ch) cs chunks"

lemma queued_text_frame:
  assumes "queued_text w rs bs uss" "\<And>r. r \<in> set rs \<Longrightarrow> nodes w' r = nodes w r" "\<And>b. b \<in> set bs \<Longrightarrow> bufs w' b = bufs w b"
  shows "queued_text w' rs bs uss"
  using assms by (induction w rs bs uss rule: queued_text.induct) (auto simp: unread_def)

section \<open>Reading\<close>

lemma unread_read:
  assumes u: "unread w r b us" and c: "bufs w c = Some cs" "c \<noteq> b" "j + n \<le> length cs"
  shows "\<exists>w'. dblk_read (Some r) (Ptr c j) n w = Some (min n (length us), w') \<and> unread w' r b (drop n us) \<and>
    bufs w' = (bufs w)(c \<mapsto> splice_at cs j (take n us)) \<and> (\<forall>x. x \<noteq> r \<longrightarrow> nodes w' x = nodes w x) \<and>
    (\<exists>ns. w' = w\<lparr>bufs := bufs w', nodes := ns\<rparr>)"
proof -
  obtain d bs where d: "nodes w r = Some d" "\<not> d_more d" "d_node_malloc d" "d_data_malloc d" "d_data d = Ptr b 0"
    "d_offset d \<le> d_size d" "d_size d < 65536" "bufs w b = Some bs" "d_size d \<le> length bs"
    and us: "us = drop (d_offset d) (take (d_size d) bs)" using u by (auto simp: unread_def)
  have len: "length us = d_size d - d_offset d" using d(9) by (simp add: us)
  have m: "mem_read w (d_data d) (d_size d) = Some (take (d_size d) bs)" using d by (simp add: mem_simps)
  have k: "take (min n (length us)) us = take n us" by (simp add: min_def)
  have fit: "j + min n (d_size d - d_offset d) \<le> length cs" using c(3) by simp
  let ?w' = "set_node r (d\<lparr>d_offset := d_offset d + min n (length us)\<rparr>) (set_buf c (splice_at cs j (take n us)) w)"
  have "dblk_read (Some r) (Ptr c j) n w = Some (min n (length us), ?w')"
    using read_loop_one [OF d(1,2,6,7) m c(1) fit] k d(9) by (simp add: len us min_absorb2)
  moreover have "unread ?w' r b (drop n us)"
  proof -
    have "drop n us = drop (d_offset d + min n (length us)) (take (d_size d) bs)"
      by (cases "n \<le> length us") (simp_all add: us add.commute min_def)
    then show ?thesis using d c(2) len by (auto simp: unread_def)
  qed
  moreover have "?w' = w\<lparr>bufs := bufs ?w', nodes := nodes ?w'\<rparr>" by (simp add: set_node_def set_buf_def)
  ultimately show ?thesis by (intro exI [of _ ?w']) (auto simp: set_node_def set_buf_def)
qed

lemma unread_delete:
  assumes "unread w r b us"
  shows "\<exists>q. dblk_delete (Some r) w = Some (q, del_node r (del_buf b w))"
proof -
  obtain d bs where "nodes w r = Some d" "\<not> d_more d" "d_node_malloc d" "d_data_malloc d" "d_data d = Ptr b 0" "bufs w b = Some bs"
    using assms by (auto simp: unread_def)
  then show ?thesis by (subst dblk_delete.simps) auto
qed

lemma same_heap: "\<exists>as ns. w = w\<lparr>bufs := as, nodes := ns\<rparr>"
  by (rule exI [of _ "bufs w"], rule exI [of _ "nodes w"]) simp

text \<open>The loop over the queue, with \<open>k\<close> bytes still wanted.\<close>

lemma recv_loop_stream:
  assumes E: "list_laws E"
    and "queued_text w (rx_data t) bs uss" "c \<notin> set bs" "bufs w c = Some cs" "j + k \<le> length cs" "did + k = n"
  shows "\<exists>t' w' bs'. recv_loop E t (Ptr c j) n did w = Some (did + min k (length (concat uss)), t', w') \<and>
    t' = t\<lparr>rx_data := rx_data t'\<rparr> \<and> queued_text w' (rx_data t') bs' (recv_rest k uss) \<and>
    bufs w' c = Some (stored j (recv_chunks k uss) cs) \<and>
    (\<forall>x. x \<notin> set (rx_data t) \<longrightarrow> nodes w' x = nodes w x) \<and> (\<forall>x. x \<noteq> c \<longrightarrow> x \<notin> set bs \<longrightarrow> bufs w' x = bufs w x) \<and>
    (\<exists>as ns. w' = w\<lparr>bufs := as, nodes := ns\<rparr>)"
  using assms(2-)
proof (induction "rx_data t" arbitrary: t w bs uss cs k did)
  case Nil
  then have "uss = []" "bs = []" by (cases bs; cases uss; force)+
  then show ?case
  proof (intro exI [of _ t] exI [of _ w] exI [of _ "[]"] conjI)
    show "\<exists>as ns. w = w\<lparr>bufs := as, nodes := ns\<rparr>" by (rule same_heap)
  qed (use E Nil in \<open>auto simp: recv_loop.simps list_laws_def stored_def\<close>)
next
  case (Cons r rs)
  obtain b bs1 us uss1 where s: "bs = b # bs1" "uss = us # uss1"
    and u: "unread w r b us" and nin: "r \<notin> set rs" "b \<notin> set bs1" and q: "queued_text w rs bs1 uss1"
    using Cons.prems(1) Cons.hyps(2) [symmetric] by (cases bs; cases uss) auto
  show ?case
  proof (cases "k = 0")
    case True
    then show ?thesis
    proof (intro exI [of _ t] exI [of _ w] exI [of _ bs] conjI)
      show "\<exists>as ns. w = w\<lparr>bufs := as, nodes := ns\<rparr>" by (rule same_heap)
    qed (use True Cons.prems E Cons.hyps(2) s in \<open>auto simp: recv_loop.simps stored_def\<close>)
  next
    case False
    have cb: "c \<noteq> b" and c1: "c \<notin> set bs1" using Cons.prems(2) by (simp_all add: s)
    obtain w1 where w1: "dblk_read (Some r) (Ptr c j) k w = Some (min k (length us), w1)" "unread w1 r b (drop k us)"
      "bufs w1 = (bufs w)(c \<mapsto> splice_at cs j (take k us))" "\<forall>x. x \<noteq> r \<longrightarrow> nodes w1 x = nodes w x"
      "\<exists>ns. w1 = w\<lparr>bufs := bufs w1, nodes := ns\<rparr>"
      using unread_read [OF u Cons.prems(3) cb Cons.prems(4)] by blast
    have x: "list_length E (rx_data t) \<noteq> 0" "did < n" "n - did = k" "list_queue_head E (rx_data t) = Some r"
      "snd (list_dequeue E (rx_data t)) = rs"
      using E Cons.hyps(2) [symmetric] False Cons.prems(5) by (simp_all add: list_laws_def)
    have q1: "queued_text w1 rs bs1 uss1"
      by (rule queued_text_frame [OF q]) (use w1(3,4) nin(1) c1 in auto)
    show ?thesis
    proof (cases "length us < k")
      case True
      let ?t = "t\<lparr>rx_data := rs\<rparr>" and ?w = "del_node r (del_buf b w1)"
      have "queued_text ?w rs bs1 uss1" by (rule queued_text_frame [OF q1]) (use nin in auto)
      then have q2: "queued_text ?w (rx_data ?t) bs1 uss1" by simp
      have hd: "rs = rx_data ?t" by simp
      have b2: "bufs ?w c = Some (splice_at cs j us)" using w1(3) cb True by simp
      have fit: "j + (k - length us) \<le> length (splice_at cs j us)" "did + length us + (k - length us) = n"
        using Cons.prems(4,5) True by simp_all
      obtain t' w' bs' where r: "recv_loop E ?t (Ptr c j) n (did + length us) ?w =
          Some (did + length us + min (k - length us) (length (concat uss1)), t', w')"
        "t' = ?t\<lparr>rx_data := rx_data t'\<rparr>" "queued_text w' (rx_data t') bs' (recv_rest (k - length us) uss1)"
        "bufs w' c = Some (stored j (recv_chunks (k - length us) uss1) (splice_at cs j us))"
        "\<forall>x. x \<notin> set (rx_data ?t) \<longrightarrow> nodes w' x = nodes ?w x" "\<forall>x. x \<noteq> c \<longrightarrow> x \<notin> set bs1 \<longrightarrow> bufs w' x = bufs ?w x"
        "\<exists>as ns. w' = ?w\<lparr>bufs := as, nodes := ns\<rparr>"
        using Cons.hyps(1) [OF hd q2 c1 b2 fit] by blast
      obtain z where "dblk_delete (Some r) w1 = Some (z, ?w)" using unread_delete [OF w1(2)] by blast
      then have "recv_loop E t (Ptr c j) n did w = recv_loop E ?t (Ptr c j) n (did + length us) ?w"
        using x w1(1) True by (subst recv_loop.simps) simp
      moreover have "t' = t\<lparr>rx_data := rx_data t'\<rparr>" by (rule trans [OF r(2)]) simp
      moreover have "\<exists>as ns. w' = w\<lparr>bufs := as, nodes := ns\<rparr>"
      proof -
        obtain as ns where e: "w' = ?w\<lparr>bufs := as, nodes := ns\<rparr>" using r(7) by blast
        obtain ns1 where e1: "w1 = w\<lparr>bufs := bufs w1, nodes := ns1\<rparr>" using w1(5) by blast
        have "w' = w1\<lparr>bufs := as, nodes := ns\<rparr>" unfolding e by (simp add: del_node_def del_buf_def)
        also have "\<dots> = w\<lparr>bufs := as, nodes := ns\<rparr>" by (subst e1) simp
        finally show ?thesis by blast
      qed
      ultimately show ?thesis
        using r w1(3,4) True False s Cons.hyps(2) [symmetric]
        by (intro exI [of _ t'] exI [of _ w'] exI [of _ bs']) (auto simp: stored_def)
    next
      case long: False
      have "recv_loop E t (Ptr c j) n did w = Some (n, t, w1)"
        using x w1(1) long Cons.prems(5) recv_loop.simps [of E t "Ptr c j" n n w1]
        by (subst recv_loop.simps) (simp add: min_absorb1)
      moreover have "queued_text w1 (rx_data t) bs (drop k us # uss1)"
        using w1(2) q1 nin Cons.hyps(2) [symmetric] by (simp add: s)
      ultimately show ?thesis
        using w1(3-5) long False s Cons.prems(5) Cons.hyps(2) [symmetric]
        by (intro exI [of _ t] exI [of _ w1] exI [of _ bs]) (auto simp: stored_def min_absorb1)
    qed
  qed
qed

text \<open>\<^verbatim>\<open>tcp_recv\<close> on an established connection is one run of that loop.\<close>

lemma recv_chunks_one: "length (recv_chunks n uss) \<le> 1 \<Longrightarrow> recv_chunks n uss = [] \<or> recv_chunks n uss = [concat (recv_chunks n uss)]"
  by (cases "recv_chunks n uss") auto

lemma splice_nil [simp]: "splice_at cs j [] = cs"
  by (simp add: splice_at_def)

lemma stored_one:
  assumes "length (recv_chunks n uss) \<le> 1"
  shows "stored j (recv_chunks n uss) cs = splice_at cs j (take n (concat uss))"
  using recv_chunks_one [OF assms]
proof
  assume a: "recv_chunks n uss = []"
  then have e: "take n (concat uss) = []" using concat_chunks [of n uss] by (metis concat.simps(1))
  show ?thesis unfolding a e by (simp add: stored_def)
next
  assume a: "recv_chunks n uss = [concat (recv_chunks n uss)]"
  then have "recv_chunks n uss = [take n (concat uss)]" by (simp only: concat_chunks)
  then show ?thesis by (simp add: stored_def)
qed

lemma tcp_recv_run:
  fixes w :: "('tm, 'w) tcpw_scheme"
  assumes E: "list_laws E" and t: "tcbs w p = Some t" "t_state t = ESTABLISHED"
    and q: "queued_text w (rx_data t) bs uss" "c \<notin> set bs" "bufs w c = Some cs" "j + n \<le> length cs"
  shows "\<exists>t' w' bs'. tcp_recv E p (Ptr c j) n w = Some (min n (length (concat uss)), w') \<and>
    tcbs w' = (tcbs w)(p \<mapsto> t') \<and> t' = t\<lparr>rx_data := rx_data t'\<rparr> \<and>
    queued_text w' (rx_data t') bs' (recv_rest n uss) \<and> bufs w' c = Some (stored j (recv_chunks n uss) cs) \<and>
    (\<forall>x. x \<notin> set (rx_data t) \<longrightarrow> nodes w' x = nodes w x) \<and> (\<forall>x. x \<noteq> c \<longrightarrow> x \<notin> set bs \<longrightarrow> bufs w' x = bufs w x)"
proof -
  have z: "0 + n = n" by simp
  obtain t' w1 bs' as ns where r: "recv_loop E t (Ptr c j) n 0 w = Some (0 + min n (length (concat uss)), t', w1)"
    "t' = t\<lparr>rx_data := rx_data t'\<rparr>" "queued_text w1 (rx_data t') bs' (recv_rest n uss)"
    "bufs w1 c = Some (stored j (recv_chunks n uss) cs)"
    "\<forall>x. x \<notin> set (rx_data t) \<longrightarrow> nodes w1 x = nodes w x" "\<forall>x. x \<noteq> c \<longrightarrow> x \<notin> set bs \<longrightarrow> bufs w1 x = bufs w x"
    and e: "w1 = w\<lparr>bufs := as, nodes := ns\<rparr>"
    using recv_loop_stream [OF E q z] by blast
  let ?w = "w1\<lparr>tcbs := (tcbs w1)(p \<mapsto> t')\<rparr>"
  have "tcp_recv E p (Ptr c j) n w = Some (min n (length (concat uss)), ?w)"
    using t r(1) by (simp add: tcp_recv_def recv_when_established_def)
  moreover have "tcbs ?w = (tcbs w)(p \<mapsto> t')" by (simp add: e)
  moreover have "queued_text ?w (rx_data t') bs' (recv_rest n uss)" by (rule queued_text_frame [OF r(3)]) simp_all
  ultimately show ?thesis using r(2,4-6) by (intro exI [of _ t'] exI [of _ ?w] exI [of _ bs']) simp
qed

section \<open>Text that arrives\<close>

lemma queued_text_live:
  "queued_text w rs bs uss \<Longrightarrow> (\<forall>r\<in>set rs. \<exists>d. nodes w r = Some d) \<and> (\<forall>b\<in>set bs. \<exists>x. bufs w b = Some x)"
  by (induction w rs bs uss rule: queued_text.induct) (auto simp: unread_def)

lemma queued_text_snoc:
  assumes "queued_text w rs bs uss" "unread w r b us" "r \<notin> set rs" "b \<notin> set bs"
  shows "queued_text w (rs @ [r]) (bs @ [b]) (uss @ [us])"
  using assms by (induction w rs bs uss rule: queued_text.induct) auto

lemma unread_fresh:
  assumes "n < 65536" "length ps = n"
  shows "unread (set_buf (brk w) ps (fresh_blk n w)) (Suc (brk w)) (brk w) ps"
  using assms by (auto simp: unread_def fresh_blk_def)

lemma queued_text_fresh:
  assumes wf: "wf_heap w" and q: "queued_text w rs bs uss" and n: "n < 65536" "length ps = n"
  shows "queued_text (set_buf (brk w) ps (fresh_blk n w)) (rs @ [Suc (brk w)]) (bs @ [brk w]) (uss @ [ps])"
proof -
  have "\<And>r. r \<in> set rs \<Longrightarrow> r < brk w" using queued_text_live [OF q] wf_heap_node [OF wf] by blast
  moreover have "\<And>b. b \<in> set bs \<Longrightarrow> b < brk w" using queued_text_live [OF q] wf_heap_buf [OF wf] by blast
  ultimately show ?thesis
    by (intro queued_text_snoc unread_fresh n queued_text_frame [OF q]) fastforce+
qed

end
