(* ===== verification/Tcp_Deliver.thy ===== *)
theory Tcp_Deliver
  imports Tcp_Path Tcp_Stream
begin

text \<open>
  Text that arrives at a connection: \<^verbatim>\<open>tcp_handle_data\<close> with the stream of queued blocks that
  \<^verbatim>\<open>tcp_recv\<close> reads from, and with the acknowledgment it sends over Ethernet when no segment is
  in flight.
\<close>

text \<open>A control segment looks the same from every state that agrees on the connection's header.\<close>

lemma ctrl_frame_same:
  assumes "ident w' = ident w" "auto_header w' = auto_header w"
    and "t_port t' = t_port t" "t_dest_port t' = t_dest_port t" "t_dest t' = t_dest t" "rcv_wnd t' = rcv_wnd t"
  shows "ctrl_eth_frame w' t' ip dv mac seq ack flags = ctrl_eth_frame w t ip dv mac seq ack flags"
  using assms
  by (simp add: ctrl_eth_frame_def tcp_out_hdr_def ctrl_out_def ctrl_seg_def tcp_ph_def sealed_seg_def seg_bytes_def seg_csum_def)

lemma fresh_text_world:
  fixes w :: "('tm, 'w) linkw_scheme"
  shows "set_buf (brk w) ps (fresh_blk n w) = w\<lparr>bufs := bufs (set_buf (brk w) ps (fresh_blk n w)),
      nodes := nodes (set_buf (brk w) ps (fresh_blk n w)), brk := brk w + 2, mallocs := mallocs w + 2,
      ident := ident w, wire := wire w\<rparr>"
  by (simp add: fresh_blk_def bump_def set_buf_def set_node_def)

text \<open>The payload of a segment without SYN and FIN: the bytes of its one node.\<close>

definition text_of :: "'w heap_scheme \<Rightarrow> tcp_segment \<Rightarrow> u8 list \<Rightarrow> bool" where
  "text_of w dat ps \<longleftrightarrow> \<not> SEG_CTRL_S dat \<and> \<not> SEG_CTRL_F dat \<and> ps \<noteq> [] \<and>
     (\<exists>m. block w (sg_payload dat) [m] None \<and> block_bytes w [m] = Some ps)"

lemma text_ofD:
  assumes "text_of w dat ps"
  shows "\<exists>m d. sg_payload dat = Some m \<and> nodes w m = Some d \<and> mem_read w (d_data d) (length ps) = Some ps \<and>
    tcp_segment_length w dat = Some (length ps)"
proof -
  obtain m where m: "block w (sg_payload dat) [m] None" "block_bytes w [m] = Some ps"
    using assms by (auto simp: text_of_def)
  then obtain d where d: "sg_payload dat = Some m" "nodes w m = Some d" "mem_read w (d_data d) (node_size d) = Some ps"
    by (auto simp: block.simps(2) node_bytes_def bind_Some_iff split: option.splits if_splits)
  have "dblk_size w (sg_payload dat) = Some (length ps)" by (rule dblk_size_bytes [OF m])
  then have "tcp_segment_length w dat = Some (length ps)"
    using assms by (intro tcp_segment_length_plain) (auto simp: text_of_def)
  moreover have "mem_read w (d_data d) (length ps) = Some ps" using d(3) mem_read_length [OF d(3)] by simp
  ultimately show ?thesis using d by blast
qed

lemma mem_read_prefix: "mem_read w p n = Some ps \<Longrightarrow> k \<le> n \<Longrightarrow> mem_read w p k = Some (take k ps)"
  by (cases p) (auto simp: mem_read_def min_def split: option.splits if_splits)

lemma data_queued_when_sending:
  assumes wf: "wf_heap w" and ok: "malloc_ok w (mallocs w)" "malloc_ok w (Suc (mallocs w))" and E: "list_laws E"
    and seq: "sg_seq dat = rcv_nxt t" and pay: "text_of w dat ps" and k: "k = min (length ps) (unat (rcv_wnd t))"
    and q: "queued_text w (rx_data t) bs uss" and tx: "tx_seg t = Some s"
  shows "\<exists>w'. tcp_handle_data E ll_send t dat w = Some (True,
      t\<lparr>rx_data := rx_data t @ [Suc (brk w)], rcv_nxt := rcv_nxt t + of_nat k,
        tx_seg := Some (s\<lparr>sg_ack := rcv_nxt t + of_nat k\<rparr>)\<rparr>, w') \<and>
    queued_text w' (rx_data t @ [Suc (brk w)]) (bs @ [brk w]) (uss @ [take k ps]) \<and>
    (\<forall>a < brk w. nodes w' a = nodes w a \<and> bufs w' a = bufs w a) \<and> wire w' = wire w"
proof -
  obtain m d where d: "sg_payload dat = Some m" "nodes w m = Some d" "mem_read w (d_data d) (length ps) = Some ps"
    and len: "tcp_segment_length w dat = Some (length ps)" using text_ofD [OF pay] by blast
  have ne: "0 < length ps" using pay by (simp add: text_of_def)
  have rd: "mem_read w (d_data d) k = Some (take k ps)" by (rule mem_read_prefix [OF d(3)]) (simp add: k)
  have n: "k < 65536" "length (take k ps) = k" using k unat_u16_less [of "rcv_wnd t"] by (linarith, simp)
  have enq: "list_enqueue E (Suc (brk w)) (rx_data t) = rx_data t @ [Suc (brk w)]" using E by (simp add: list_laws_def)
  have "wire (set_buf (brk w) (take k ps) (fresh_blk k w)) = wire w" by (simp add: fresh_blk_def)
  then show ?thesis
    using handle_data_queues [OF wf ok seq len ne k d(1,2) rd, of E ll_send] tx queued_text_fresh [OF wf q n]
    by (simp add: enq)
qed

lemma data_queued_and_acked:
  fixes w :: "('tm, 'w) linkw_scheme"
  assumes cs: "can_send w t ip e" and ok: "\<And>m. malloc_ok w m" and E: "list_laws E"
    and up: "ether_up E e w" "eths w e = Some dv" and mac: "link_addr w (t_dest t) mac"
    and seq: "sg_seq dat = rcv_nxt t" and pay: "text_of w dat ps" and k: "k = min (length ps) (unat (rcv_wnd t))"
    and q: "queued_text w (rx_data t) bs uss" and tx: "tx_seg t = None"
  defines "fr \<equiv> ctrl_eth_frame w t ip dv mac (snd_una t) (rcv_nxt t + of_nat k) SEG_FLAG_ACK"
  shows "accepts drv (e_interface dv) fr \<Longrightarrow>
      \<exists>w'. tcp_handle_data E (ip_ether_send E drv) t dat w = Some (True,
          t\<lparr>rx_data := rx_data t @ [Suc (brk w)], rcv_nxt := rcv_nxt t + of_nat k\<rparr>, w') \<and>
        queued_text w' (rx_data t @ [Suc (brk w)]) (bs @ [brk w]) (uss @ [take k ps]) \<and>
        (\<forall>a < brk w. nodes w' a = nodes w a \<and> bufs w' a = bufs w a) \<and> frame_given drv (e_interface dv) fr w w'"
    and "rejects drv (e_interface dv) fr \<Longrightarrow> tcp_handle_data E (ip_ether_send E drv) t dat w = None"
proof -
  have wf: "wf_heap w" using cs by (simp add: can_send_def)
  obtain m d where d: "sg_payload dat = Some m" "nodes w m = Some d" "mem_read w (d_data d) (length ps) = Some ps"
    and len: "tcp_segment_length w dat = Some (length ps)" using text_ofD [OF pay] by blast
  have ne: "0 < length ps" using pay by (simp add: text_of_def)
  have rd: "mem_read w (d_data d) k = Some (take k ps)" by (rule mem_read_prefix [OF d(3)]) (simp add: k)
  have n: "k < 65536" "length (take k ps) = k" using k unat_u16_less [of "rcv_wnd t"] by (linarith, simp)
  have enq: "list_enqueue E (Suc (brk w)) (rx_data t) = rx_data t @ [Suc (brk w)]" using E by (simp add: list_laws_def)
  let ?W = "set_buf (brk w) (take k ps) (fresh_blk k w)"
    and ?t = "t\<lparr>rx_data := rx_data t @ [Suc (brk w)], rcv_nxt := rcv_nxt t + of_nat k\<rparr>"
  note eq = handle_data_queues [OF wf ok ok seq len ne k d(1,2) rd, of E "ip_ether_send E drv"]
  have W: "ident ?W = ident w" "auto_header ?W = auto_header w" "wire ?W = wire w" "\<And>m. malloc_ok ?W m" "eths ?W e = Some dv"
    using ok up(2) by (simp_all add: fresh_blk_def set_buf_def set_node_def)
  have csW: "can_send ?W ?t ip e"
    using cs wf_heap_copy [OF wf] by (simp add: can_send_def fresh_blk_def)
  have upW: "ether_up E e ?W" by (subst fresh_text_world) (rule ether_up_heap [OF up(1)])
  have frW: "ctrl_eth_frame ?W ?t ip dv mac (snd_una t) (rcv_nxt t + of_nat k) SEG_FLAG_ACK = fr"
    unfolding fr_def by (rule ctrl_frame_same) (simp_all add: fresh_blk_def)
  have macW: "link_addr ?W (t_dest ?t) mac"
    using mac by (subst fresh_text_world, subst link_addr_heap) simp
  note C = ctrl_over_ethernet [OF csW W(4) upW W(5) macW, of drv "snd_una t" "rcv_nxt t + of_nat k" SEG_FLAG_ACK,
      unfolded frW]
  have q1: "queued_text ?W (rx_data t @ [Suc (brk w)]) (bs @ [brk w]) (uss @ [take k ps])"
    by (rule queued_text_fresh [OF wf q n])
  have low: "r < brk w + 2" if "r \<in> set (rx_data t @ [Suc (brk w)])" for r
    using that queued_text_live [OF q] wf_heap_node [OF wf] by fastforce
  have lowb: "b < brk w + 2" if "b \<in> set (bs @ [brk w])" for b
    using that queued_text_live [OF q] wf_heap_buf [OF wf] by fastforce
  show "\<exists>w'. tcp_handle_data E (ip_ether_send E drv) t dat w = Some (True, ?t, w') \<and>
      queued_text w' (rx_data t @ [Suc (brk w)]) (bs @ [brk w]) (uss @ [take k ps]) \<and>
      (\<forall>a < brk w. nodes w' a = nodes w a \<and> bufs w' a = bufs w a) \<and> frame_given drv (e_interface dv) fr w w'"
    if acc: "accepts drv (e_interface dv) fr"
  proof -
    obtain w' where w': "tcp_send_ctrl_seg (ip_ether_send E drv) ?t (snd_una t) (rcv_nxt t + of_nat k) SEG_FLAG_ACK ?W =
        Some (True, ?t\<lparr>snd_nxt := snd_nxt ?t + of_nat (flag_count SEG_FLAG_ACK)\<rparr>, w')"
      "clean ?W w'" "frame_given drv (e_interface dv) fr ?W w'" using C(1) [OF acc] by blast
    have keep: "nodes w' a = nodes ?W a" "bufs w' a = bufs ?W a" if "a < brk w + 2" for a
      using w'(2) that by (simp_all add: clean_def)
    have "queued_text w' (rx_data t @ [Suc (brk w)]) (bs @ [brk w]) (uss @ [take k ps])"
      by (rule queued_text_frame [OF q1]) (use keep low lowb in blast)+
    moreover have "frame_given drv (e_interface dv) fr w w'" using w'(3) W(3) by (simp add: frame_given_def)
    ultimately show ?thesis using eq tx w'(1) keep by (simp add: enq)
  qed
  show "tcp_handle_data E (ip_ether_send E drv) t dat w = None" if "rejects drv (e_interface dv) fr"
    using C(2) [OF that] eq tx by (simp add: enq)
qed

end
