(* ===== verification/Samples.thy ===== *)
theory Samples
  imports Dhcp_Behaviour Udp_Pool Tcp_Table Tcp_Data Ether_Path Ip_Fragments Handshake Tcp_Deliver
begin

text \<open>
  Concrete states in which the properties of the development are exercised: a host
  with one interface and an empty memory, and memories with a few nodes.
\<close>

definition host_addr :: ip_addr where
  "host_addr = \<lparr>ip_version = 4, ip_v4 = [10, 0, 0, 1], ip_mask = [255, 255, 255, 0]\<rparr>"

definition peer_addr :: ip_addr where
  "peer_addr = \<lparr>ip_version = 4, ip_v4 = [10, 0, 0, 2], ip_mask = [255, 255, 255, 0]\<rparr>"

lemma sample_addrs [simp]:
  "wf_addr host_addr" "wf_addr peer_addr" "ip_version host_addr = 4" "ip_version peer_addr = 4"
  "ip_v4 host_addr = [10, 0, 0, 1]" "ip_v4 peer_addr = [10, 0, 0, 2]"
  "ip_mask host_addr = [255, 255, 255, 0]"
  by (simp_all add: host_addr_def peer_addr_def wf_addr_def)

definition host_ip :: ip where
  "host_ip = \<lparr>ip_ll = Some 2, ip_self = host_addr\<rparr>"

lemma host_ip_sel [simp]: "ip_ll host_ip = Some 2" "ip_self host_ip = host_addr"
  by (simp_all add: host_ip_def)

type_synonym sample_world = "(u32 \<times> nat) option tcpw"

definition host_world :: sample_world where
  "host_world = \<lparr>bufs = Map.empty, nodes = Map.empty, brk = 10, mallocs = 0, malloc_ok = \<lambda>_. True,
     junk = \<lambda>_ _. 0, wire = [], tick = 7, second = 7, ident = 0, ips = [1 \<mapsto> host_ip], auto_header = zero_header,
     nifs = [3 \<mapsto> \<lparr>nif_ip = 1, nif_eth = 2\<rparr>], nif_list = [3], udps = Map.empty, udp_list = [],
     tcbs = Map.empty, tcp_list = [], segs = Map.empty\<rparr>"

lemma host_world_sel [simp]:
  "bufs host_world = Map.empty" "nodes host_world = Map.empty" "brk host_world = 10"
  "mallocs host_world = 0" "malloc_ok host_world = (\<lambda>_. True)" "second host_world = 7"
  "ident host_world = 0" "ips host_world = [1 \<mapsto> host_ip]" "auto_header host_world = zero_header"
  "nifs host_world = [3 \<mapsto> \<lparr>nif_ip = 1, nif_eth = 2\<rparr>]" "nif_list host_world = [3]"
  "udps host_world = Map.empty" "udp_list host_world = []"
  "tcbs host_world = Map.empty" "tcp_list host_world = []" "segs host_world = Map.empty"
  by (simp_all add: host_world_def)

lemma wf_host_world [simp]: "wf_heap host_world"
  by (simp add: wf_heap_def)

text \<open>A link layer that takes every packet and does nothing else.\<close>

definition quiet_link :: "sample_world ll_send" where
  "quiet_link = (\<lambda>e dg w. Some (1, w))"

text \<open>A connection on port 80 of that host, to port 5000 of its peer, at initial numbers 7 and 100.\<close>

definition sample_conn :: "tcp_state \<Rightarrow> (u32 \<times> nat) option tcb" where
  "sample_conn s = \<lparr>t_passive = True, t_dest = peer_addr, t_dest_port = 5000, localhost = 1, t_port = 80,
     t_state = s, rx_segs = [20], tx_data = [], rx_data = [], tx_seg = None, snd_una = 7,
     snd_nxt = 8, snd_iss = 7, rcv_nxt = 101, rcv_irs = 100, rcv_wnd = 1500, tmr = None,
     time_wait_seconds = 120\<rparr>"

lemma sample_conn_sel [simp]:
  "t_passive (sample_conn s) = True" "t_dest (sample_conn s) = peer_addr"
  "t_dest_port (sample_conn s) = 5000" "localhost (sample_conn s) = 1" "t_port (sample_conn s) = 80"
  "t_state (sample_conn s) = s" "rx_segs (sample_conn s) = [20]" "tx_data (sample_conn s) = []"
  "rx_data (sample_conn s) = []" "tx_seg (sample_conn s) = None" "snd_una (sample_conn s) = 7"
  "snd_nxt (sample_conn s) = 8" "snd_iss (sample_conn s) = 7" "rcv_nxt (sample_conn s) = 101"
  "rcv_wnd (sample_conn s) = 1500" "tmr (sample_conn s) = None"
  by (simp_all add: sample_conn_def)

text \<open>The segment in its queue, of the given flags, sequence number and acknowledgment.\<close>

definition sample_dg :: ip_datagram where
  "sample_dg = \<lparr>dg_header = zero_header\<lparr>h_src := peer_addr\<rparr>, dg_payload = None, dg_raw = None\<rparr>"

definition sample_seg :: "u16 \<Rightarrow> u32 \<Rightarrow> u32 \<Rightarrow> tcp_segment" where
  "sample_seg f s a = tcp_segment_init\<lparr>sg_src_port := 5000, sg_dest_port := 80, sg_seq := s, sg_ack := a,
     sg_flags := f, sg_datagram := Some sample_dg\<rparr>"

lemma sample_seg_sel [simp]:
  "sg_src_port (sample_seg f s a) = 5000" "sg_dest_port (sample_seg f s a) = 80"
  "sg_seq (sample_seg f s a) = s" "sg_ack (sample_seg f s a) = a" "sg_flags (sample_seg f s a) = f"
  "sg_payload (sample_seg f s a) = None" "sg_datagram (sample_seg f s a) = Some sample_dg"
  by (simp_all add: sample_seg_def tcp_segment_init_def)

definition seg_world :: "tcp_segment \<Rightarrow> sample_world" where
  "seg_world seg = host_world\<lparr>segs := [20 \<mapsto> seg]\<rparr>"

lemma seg_world_sel [simp]:
  "bufs (seg_world seg) = Map.empty" "nodes (seg_world seg) = Map.empty" "brk (seg_world seg) = 10"
  "mallocs (seg_world seg) = 0" "malloc_ok (seg_world seg) = (\<lambda>_. True)"
  "ident (seg_world seg) = 0" "ips (seg_world seg) = [1 \<mapsto> host_ip]" "auto_header (seg_world seg) = zero_header"
  "segs (seg_world seg) = [20 \<mapsto> seg]" "wf_heap (seg_world seg)"
  by (simp_all add: seg_world_def wf_heap_def)

text \<open>A memory with a block of two nodes that hold three and one byte, and two free buffers.\<close>

definition byte_node :: "addr option \<Rightarrow> addr \<Rightarrow> nat \<Rightarrow> dblk" where
  "byte_node n b k = init_dblk (Ptr b 0) k\<lparr>d_next := n, d_more := n \<noteq> None\<rparr>"

lemma byte_node_sel [simp]:
  "d_next (byte_node n b k) = n" "d_data (byte_node n b k) = Ptr b 0" "d_size (byte_node n b k) = u16_of k"
  "d_more (byte_node n b k) = (n \<noteq> None)" "d_vsize (byte_node n b k) = 0" "d_offset (byte_node n b k) = 0"
  "d_node_malloc (byte_node n b k) = False" "d_data_malloc (byte_node n b k) = False"
  "is_vmem_node (byte_node n b k) = False" "node_size (byte_node n b k) = u16_of k"
  by (simp_all add: byte_node_def is_vmem_node_def node_size_def)

definition two_nodes :: heap where
  "two_nodes = \<lparr>bufs = [1 \<mapsto> [11, 12, 13], 2 \<mapsto> [14], 3 \<mapsto> [0, 0, 0, 0, 0, 0], 4 \<mapsto> [21, 22, 23, 24, 25, 26]],
     nodes = [5 \<mapsto> byte_node (Some 6) 1 3, 6 \<mapsto> byte_node None 2 1, 7 \<mapsto> byte_node None 3 6],
     brk = 10, mallocs = 0, malloc_ok = \<lambda>_. True, junk = \<lambda>_ _. 0, wire = []\<rparr>"

lemma two_nodes_sel [simp]:
  "bufs two_nodes = [1 \<mapsto> [11, 12, 13], 2 \<mapsto> [14], 3 \<mapsto> [0, 0, 0, 0, 0, 0], 4 \<mapsto> [21, 22, 23, 24, 25, 26]]"
  "nodes two_nodes = [5 \<mapsto> byte_node (Some 6) 1 3, 6 \<mapsto> byte_node None 2 1, 7 \<mapsto> byte_node None 3 6]"
  "brk two_nodes = 10" "mallocs two_nodes = 0" "malloc_ok two_nodes = (\<lambda>_. True)"
  by (simp_all add: two_nodes_def)

lemma two_nodes_block [simp]:
  "block two_nodes (Some 5) [5, 6] None" "block two_nodes (Some 7) [7] None"
  by (simp_all only: block.simps two_nodes_sel) simp_all

lemma two_nodes_bytes [simp]:
  "block_bytes two_nodes [5, 6] = Some [11, 12, 13, 14]"
  "block_bytes two_nodes [7] = Some [0, 0, 0, 0, 0, 0]"
  by (simp_all add: node_bytes_def mem_read_def)

lemma two_nodes_data [simp]:
  "data_bufs two_nodes [5, 6] = {1, 2}" "data_bufs two_nodes [7] = {3}"
  by (auto simp: data_bufs_def split: if_splits)

lemma wf_two_nodes [simp]: "wf_heap two_nodes"
  by (auto simp: wf_heap_def split: if_splits)

text \<open>A host with an Ethernet device, and a driver that sends every frame.\<close>

type_synonym link_world = "(u32 \<times> nat) option linkw"

definition ether_world :: "tcp_segment \<Rightarrow> link_world" where
  "ether_world seg = \<lparr>bufs = Map.empty, nodes = Map.empty, brk = 40, mallocs = 0, malloc_ok = \<lambda>_. True,
     junk = \<lambda>_ _. 0, wire = [], tick = 7, second = 7, ident = 0, ips = [1 \<mapsto> host_ip], auto_header = zero_header,
     nifs = [3 \<mapsto> \<lparr>nif_ip = 1, nif_eth = 2\<rparr>], nif_list = [3], udps = Map.empty, udp_list = [],
     tcbs = Map.empty, tcp_list = [], segs = [20 \<mapsto> seg],
     eths = [2 \<mapsto> \<lparr>e_interface = 9, mac_address = [2, 0, 0, 0, 0, 1]\<rparr>], artis = Map.empty, arp_table = []\<rparr>"

definition free_driver :: "link_world drv_send" where
  "free_driver = (\<lambda>i p n w. Some (n, w))"

lemma ether_world_sel [simp]:
  "bufs (ether_world seg) = Map.empty" "nodes (ether_world seg) = Map.empty" "brk (ether_world seg) = 40"
  "mallocs (ether_world seg) = 0" "malloc_ok (ether_world seg) = (\<lambda>_. True)" "second (ether_world seg) = 7"
  "ident (ether_world seg) = 0" "ips (ether_world seg) = [1 \<mapsto> host_ip]"
  "auto_header (ether_world seg) = zero_header" "segs (ether_world seg) = [20 \<mapsto> seg]"
  "nifs (ether_world seg) = [3 \<mapsto> \<lparr>nif_ip = 1, nif_eth = 2\<rparr>]" "nif_list (ether_world seg) = [3]"
  "tcbs (ether_world seg) = Map.empty" "tcp_list (ether_world seg) = []"
  "eths (ether_world seg) = [2 \<mapsto> \<lparr>e_interface = 9, mac_address = [2, 0, 0, 0, 0, 1]\<rparr>]"
  "artis (ether_world seg) = Map.empty" "arp_table (ether_world seg) = []"
  by (simp_all add: ether_world_def)

lemma sample_driver [simp]: "driver_ok free_driver"
  by (simp add: driver_ok_def free_driver_def)

lemma plain_ext_find [simp]: "list_find plain_ext = find_from"
  by (simp add: plain_ext_def)

lemma wf_ether_world [simp]: "wf_heap (ether_world seg)"
  by (simp add: wf_heap_def)

lemma sample_ether_up [simp]: "ether_up plain_ext 2 (ether_world seg)"
  using plain_ext_laws by (simp add: ether_up_def ether_arp_get_ip_def list_match_eth_def)

lemma sample_ether_send:
  "t_dest t = peer_addr \<Longrightarrow> localhost t = 1 \<Longrightarrow> can_send (ether_world seg) t host_ip 2"
  by (simp add: can_send_def)

section \<open>A segment that arrives\<close>

text \<open>An ACK for the first of two connections, in the only node of a datagram.\<close>

definition arriving :: tcp_segment where
  "arriving = sealed_seg (pseudo_header.make peer_addr host_addr 6 0 (Ptr 40 0) 12)
     ((ctrl_seg (sample_conn LISTEN) 101 8 SEG_FLAG_ACK None)\<lparr>sg_src_port := 5000, sg_dest_port := 80\<rparr>) []"

definition arrival_world :: sample_world where
  "arrival_world = host_world\<lparr>bufs := [5 \<mapsto> seg_bytes arriving], nodes := [6 \<mapsto> byte_node None 5 20], brk := 40,
     tcbs := [30 \<mapsto> sample_conn CLOSED, 31 \<mapsto> (sample_conn LISTEN)\<lparr>t_port := 81\<rparr>],
     tcp_list := [30, 31]\<rparr>"

lemma arrival_world_sel [simp]:
  "bufs arrival_world = [5 \<mapsto> seg_bytes arriving]" "nodes arrival_world = [6 \<mapsto> byte_node None 5 20]"
  "brk arrival_world = 40" "tcp_list arrival_world = [30, 31]"
  "tcbs arrival_world = [30 \<mapsto> sample_conn CLOSED, 31 \<mapsto> (sample_conn LISTEN)\<lparr>t_port := 81\<rparr>]"
  by (simp_all add: arrival_world_def)

definition arrival_dg :: ip_datagram where
  "arrival_dg = \<lparr>dg_header = zero_header\<lparr>h_src := peer_addr, h_dest := host_addr, h_protocol := 6\<rparr>,
     dg_payload = Some 6, dg_raw = None\<rparr>"

lemma quiet_link_frame: "link_frame quiet_link"
  by (simp add: link_frame_def quiet_link_def)

lemma arriving_fields: "sg_data_offset arriving < 16" "sg_flags arriving < 4096"
   "sg_src_port arriving = 5000" "sg_dest_port arriving = 80"
  by (simp_all add: arriving_def sealed_seg_def ctrl_seg_def tcp_segment_init_def seg_flag_defs)

lemma arrival: "\<exists>w'. tcp_ip_recv plain_ext quiet_link 1 arrival_dg arrival_world = Some w'"
proof -
  let ?ph = "\<lparr>ph_src = peer_addr, ph_dest = host_addr, ph_protocol = 6, ph_length = 0, ph_data = Ptr 40 0, ph_data_size = 12\<rparr>"
  let ?w1 = "snd (pseudo_header_new_from_stack peer_addr host_addr 6 0 arrival_world)"
  let ?w2 = "snd (dblk_node_new_from_stack Null 0 ?w1)"
  let ?w3 = "snd (dblk_node_new_from_stack Null 0 ?w2)"
  let ?seg = "tcp_segment_init\<lparr>sg_raw := Some 6, sg_payload := Some 41, sg_options := Some 42\<rparr>"
  have w3: "nodes ?w3 = (nodes arrival_world)(41 \<mapsto> init_dblk Null 0, 42 \<mapsto> init_dblk Null 0)"
    "bufs ?w3 = (bufs arrival_world)(40 \<mapsto> fresh_bytes arrival_world 12)"
    by (simp_all add: pseudo_header_new_from_stack_def dblk_node_new_from_stack_def new_buf_def new_node_def fresh_bytes_def)
  have "\<exists>h'. tcp_unpack ?seg ?ph ?w3 = Some (sg_checksum arriving = seg_csum ?ph arriving [], unpacked ?seg arriving, h') \<and>
    nodes h' = (nodes ?w3)(42 \<mapsto> init_dblk (Ptr 5 (0 + 20)) (size_sub (unat (sg_data_offset arriving) * 4) 20),
      41 \<mapsto> init_dblk (Ptr 5 (0 + unat (sg_data_offset arriving) * 4)) (size_sub (d_size (byte_node None 5 20)) (unat (sg_data_offset arriving) * 4))) \<and>
    bufs h' = (bufs ?w3)(5 \<mapsto> splice_at (seg_bytes arriving) (0 + 16) [0, 0],
      40 \<mapsto> ph_bytes (ph_src ?ph) (ph_dest ?ph) (ph_protocol ?ph) (of_nat (d_size (byte_node None 5 20))))"
    by (rule tcp_unpack_node [where s = arriving and ps = "[]" and a = 6])
       (use arriving_fields in \<open>simp_all add: w3 ph_ready_def fresh_bytes_def tcp_segment_init_def\<close>)
  then obtain h' where u: "tcp_unpack ?seg ?ph ?w3 = Some (sg_checksum arriving = seg_csum ?ph arriving [], unpacked ?seg arriving, h')"
    and nb: "nodes h' = (nodes ?w3)(42 \<mapsto> init_dblk (Ptr 5 (0 + 20)) (size_sub (unat (sg_data_offset arriving) * 4) 20),
      41 \<mapsto> init_dblk (Ptr 5 (0 + unat (sg_data_offset arriving) * 4)) (size_sub (d_size (byte_node None 5 20)) (unat (sg_data_offset arriving) * 4)))"
    "bufs h' = (bufs ?w3)(5 \<mapsto> splice_at (seg_bytes arriving) (0 + 16) [0, 0],
      40 \<mapsto> ph_bytes (ph_src ?ph) (ph_dest ?ph) (ph_protocol ?ph) (of_nat (d_size (byte_node None 5 20))))"
    by (elim exE conjE)
  have n: "nodes h' 42 \<noteq> None" "nodes h' 41 \<noteq> None" and b: "bufs h' 40 \<noteq> None"
    by (simp_all add: nb)
  have r: "rest h' = rest arrival_world"
  proof -
    have "rest h' = rest ?w3" by (rule heap_rest [OF tcp_unpack_frame [OF u]])
    also have "\<dots> = rest arrival_world" by (rule heap_rest) simp
    finally show ?thesis .
  qed
  have t: "tcbs h' = tcbs arrival_world" "tcp_list h' = tcp_list arrival_world" "segs h' = segs arrival_world"
    using rest_tcpw [OF r] by blast+
  obtain w1 w2 w3 where e: "pseudo_header_new_from_stack peer_addr host_addr 6 0 arrival_world = (?ph, w1)"
    "dblk_node_new_from_stack Null 0 w1 = (Some 41, w2)" "dblk_node_new_from_stack Null 0 w2 = (Some 42, w3)"
    by (simp add: pseudo_header_new_from_stack_def dblk_node_new_from_stack_def new_buf_def new_node_def)
  have u': "tcp_unpack ?seg ?ph w3 = Some (sg_checksum arriving = seg_csum ?ph arriving [], unpacked ?seg arriving, h')"
    using u unfolding e snd_conv .
  have ok: "sg_checksum arriving = seg_csum ?ph arriving []"
    by (simp add: arriving_def sealed_seg_def seg_csum_def pseudo_header.make_def)
  have bm: "best_match (tcbs h') 1 peer_addr (unpacked ?seg arriving) None [30, 31] = Some (Some 30)"
    using arriving_fields by (simp add: t unpacked_def)
  show ?thesis
    using e u' ok bm arriving_fields n b plain_ext_laws
    by (simp add: tcp_ip_recv_def arrival_dg_def deliver_def tcp_received_def t list_laws_def pop_node_def pop_buf_def Let_def)
qed

section \<open>A DHCP client\<close>

text \<open>A message of a server with the options of an offer or an acknowledgement.\<close>

definition server_msg :: dhcp_message where
  "server_msg = dhcp_message_init\<lparr>m_op := BOOTREPLY, m_xid := 42, m_yiaddr := 0x0A000001\<rparr>"

definition server_opts :: "u8 \<Rightarrow> tlv list" where
  "server_opts ty = [(DHCP_OPT_DHCP_MSG_TYPE_TAG, [ty]), (DHCP_OPT_IP_LEASE_TIME_TAG, [0, 0, 14, 16]),
     (DHCP_OPT_SERVER_IDENTIFIER_TAG, [10, 0, 0, 2])]"

definition server_bytes :: "u8 \<Rightarrow> u8 list" where
  "server_bytes ty = dhcp_bytes server_msg @ options_bytes (server_opts ty) @ []"

lemma server_msg_ok [simp]: "wf_msg server_msg" "m_op server_msg = BOOTREPLY"
  by (simp_all add: server_msg_def dhcp_message_init_def wf_msg_def)

lemma server_opts_ok [simp]:
  "list_all wf_tlv (server_opts ty)" "answer_options (server_opts ty)" "reply_of ty' (server_opts ty) = (ty' = ty)"
  "tlv_find DHCP_OPT_IP_LEASE_TIME_TAG (server_opts ty) = Some [0, 0, 14, 16]"
  "tlv_find DHCP_OPT_SERVER_IDENTIFIER_TAG (server_opts ty) = Some [10, 0, 0, 2]"
  by (auto simp: server_opts_def wf_tlv_def answer_options_def reply_of_def dhcp_opt_defs)

lemma length_server_bytes [simp]: "length (server_bytes ty) = 256"
  by (simp add: server_bytes_def options_bytes_def server_opts_def)

text \<open>
  Two UDP sockets, at 101 and 102, and in the queue of the first a datagram.
\<close>

definition udp_sock :: "addr list \<Rightarrow> socket" where
  "udp_sock q = \<lparr>sk_domain = AF_INET, sk_type = SOCK_DGRAM, sk_protocol = 0, sk_tcp = None, sk_ip = None,
     sk_port = 0, rx_queue = q\<rparr>"

lemma udp_sock_sel [simp]: "IS_UDP_SOCK (udp_sock q)" "rx_queue (udp_sock q) = q"
  by (simp_all add: udp_sock_def IS_UDP_SOCK_def PF_INET_def)

type_synonym dhcp_world = "(u32 \<times> nat) option dhcpw"

definition client_world :: "dhcp_state \<Rightarrow> (u32 \<times> nat) option \<Rightarrow> (u32 \<times> nat) option \<Rightarrow> u8 \<Rightarrow> dhcp_world" where
  "client_world st t1 t2 ty = \<lparr>bufs = [50 \<mapsto> server_bytes ty],
     nodes = [51 \<mapsto> init_dblk (Ptr 50 0) 256\<lparr>d_node_malloc := True, d_data_malloc := True\<rparr>],
     brk = 60, mallocs = 0, malloc_ok = \<lambda>_. True,
     junk = \<lambda>_ _. 0, wire = [], tick = 7, second = 7, ident = 0, ips = [1 \<mapsto> host_ip], auto_header = zero_header,
     nifs = [3 \<mapsto> \<lparr>nif_ip = 1, nif_eth = 2\<rparr>], nif_list = [3], udps = Map.empty, udp_list = [],
     tcbs = Map.empty, tcp_list = [], segs = Map.empty,
     eths = Map.empty, artis = Map.empty, arp_table = [],
     socks = [101 \<mapsto> udp_sock [51], 102 \<mapsto> udp_sock []], sock_pool = \<lparr>lp_items = [101, 102], lp_free = []\<rparr>,
     socket_api_inited = True, rand_seq = \<lambda>_. 0, rands = 0,
     only = \<lparr>c_state = st, rx_sk = 101, tx_sk = 102, udp_setup = True, c_msg = dhcp_message_init,
       ethaddr = [2, 0, 0, 0, 0, 1], T1 = t1, T2 = t2, c_set_ip = 0, start_time = 0, c_lease = 3600\<rparr>\<rparr>"

lemma client_world_sel [simp]:
  "bufs (client_world st t1 t2 ty) = [50 \<mapsto> server_bytes ty]" "brk (client_world st t1 t2 ty) = 60"
  "mallocs (client_world st t1 t2 ty) = 0" "malloc_ok (client_world st t1 t2 ty) = (\<lambda>_. True)"
  "second (client_world st t1 t2 ty) = 7"
  "c_state (only (client_world st t1 t2 ty)) = st" "T1 (only (client_world st t1 t2 ty)) = t1"
  "T2 (only (client_world st t1 t2 ty)) = t2"
  by (simp_all add: client_world_def)

lemma client_world_ok [simp]:
  "wf_heap (client_world st t1 t2 ty)" "tx_ready (client_world st t1 t2 ty)" "rx_ready (client_world st t1 t2 ty)"
  "queued (server_bytes ty) 50 (udp_sock [51]) (client_world st t1 t2 ty)"
  by (auto simp: client_world_def wf_heap_def tx_ready_def rx_ready_def queued_def get_sock_def to_socket_def
      split: if_splits)

section \<open>Two hosts on one Ethernet\<close>

text \<open>
  A host that knows the hardware address of its peer, with four bytes to send and one
  connection to it, and the peer with a socket bound to UDP port 9.
\<close>

definition lan_world :: "(u32 \<times> nat) option tcb \<Rightarrow> link_world" where
  "lan_world t = (ether_world (sample_seg 0 0 0))\<lparr>bufs := [5 \<mapsto> [1, 2, 3, 4]], tcbs := [30 \<mapsto> t], tcp_list := [30],
     artis := [31 \<mapsto> \<lparr>ai_ip = [10, 0, 0, 2], ai_mac = [2, 0, 0, 0, 0, 2], ai_tmr = None\<rparr>], arp_table := [31]\<rparr>"

lemma lan_world_sel [simp]:
  "bufs (lan_world t) = [5 \<mapsto> [1, 2, 3, 4]]" "nodes (lan_world t) = Map.empty" "brk (lan_world t) = 40"
  "mallocs (lan_world t) = 0" "malloc_ok (lan_world t) = (\<lambda>_. True)" "second (lan_world t) = 7"
  "ident (lan_world t) = 0" "ips (lan_world t) = [1 \<mapsto> host_ip]" "auto_header (lan_world t) = zero_header"
  "nifs (lan_world t) = [3 \<mapsto> \<lparr>nif_ip = 1, nif_eth = 2\<rparr>]" "nif_list (lan_world t) = [3]"
  "tcbs (lan_world t) = [30 \<mapsto> t]" "tcp_list (lan_world t) = [30]"
  "eths (lan_world t) = [2 \<mapsto> \<lparr>e_interface = 9, mac_address = [2, 0, 0, 0, 0, 1]\<rparr>]"
  "artis (lan_world t) = [31 \<mapsto> \<lparr>ai_ip = [10, 0, 0, 2], ai_mac = [2, 0, 0, 0, 0, 2], ai_tmr = None\<rparr>]"
  "arp_table (lan_world t) = [31]"
  by (simp_all add: lan_world_def)

lemma wf_lan_world [simp]: "wf_heap (lan_world t)"
  by (simp add: wf_heap_def)

lemma lan_get_ip [simp]: "ether_arp_get_ip plain_ext 2 (lan_world t) = Some (Some 1)"
  by (simp add: ether_arp_get_ip_def list_match_eth_def)

lemma lan_up [simp]: "ether_up plain_ext 2 (lan_world t)"
  using plain_ext_laws by (simp add: ether_up_def)

lemma lan_peer [simp]: "ip_v4 d = [10, 0, 0, 2] \<Longrightarrow> link_addr (lan_world t) d [2, 0, 0, 0, 0, 2]"
  by (simp add: link_addr_def ip_addr_broadcast_def arp_hit_def au32_def of_be32_def)

lemma lan_can_send [simp]: "t_dest c = peer_addr \<Longrightarrow> localhost c = 1 \<Longrightarrow> can_send (lan_world t) c host_ip 2"
  by (simp add: can_send_def)

lemma lan_data [simp]: "data_at (lan_world t) (Ptr 5 0) 4 [1, 2, 3, 4]"
  by (simp add: data_at_def mem_simps)

definition bound_world :: dhcp_world where
  "bound_world = (client_world INIT None None 2)\<lparr>bufs := [50 \<mapsto> replicate 80 0, 52 \<mapsto> [0, 0, 0, 0, 0, 0]],
     nodes := Map.empty, udps := [61 \<mapsto> \<lparr>u_low_level = 1, u_port = 9, u_cb_data = 102, u_callback = Some UDP_RECV\<rparr>],
     udp_list := [61], eths := [2 \<mapsto> \<lparr>e_interface = 9, mac_address = [2, 0, 0, 0, 0, 2]\<rparr>]\<rparr>"

lemma bound_world_sel [simp]:
  "bufs bound_world = [50 \<mapsto> replicate 80 0, 52 \<mapsto> [0, 0, 0, 0, 0, 0]]" "nodes bound_world = Map.empty"
  "brk bound_world = 60" "mallocs bound_world = 0" "malloc_ok bound_world = (\<lambda>_. True)"
  "eths bound_world = [2 \<mapsto> \<lparr>e_interface = 9, mac_address = [2, 0, 0, 0, 0, 2]\<rparr>]"
  by (simp_all add: bound_world_def client_world_def)

lemma bound_world_ok [simp]:
  "wf_heap bound_world" "ether_arp_get_ip plain_ext 2 bound_world = Some (Some 1)"
  "socket_on plain_ext 1 9 102 (udp_sock []) bound_world"
  by (simp_all add: wf_heap_def ether_arp_get_ip_def list_match_eth_def socket_on_def find_udp_by_addr_def get_sock_def
      to_socket_def bound_world_def client_world_def) (simp_all add: plain_ext_def)

text \<open>A device that has received the bytes \<open>fr\<close>.\<close>

definition wire_recv :: "u8 list \<Rightarrow> ('w heap_scheme) drv_recv" where
  "wire_recv fr = (\<lambda>i p n w. map_option (\<lambda>w. (length fr, w)) (mem_write p fr w))"

lemma wire_recv_delivers [simp]: "delivers (wire_recv fr) i fr"
  by (simp add: delivers_def wire_recv_def mem_simps)

text \<open>A driver that takes every frame, and notes it.\<close>

definition any_driver :: "('w heap_scheme) drv_send" where
  "any_driver = (\<lambda>i p n w. map_option (\<lambda>bs. (1, w\<lparr>wire := wire w @ [(i, bs)]\<rparr>)) (mem_read w p n))"

lemma any_driver_takes [simp]: "takes any_driver i fr"
  by (simp add: takes_def answers_def any_driver_def)

lemma any_driver_accepts [simp]: "accepts any_driver i fr"
  by (rule takes_accepts) simp

lemma any_driver_given [simp]: "frame_given any_driver i fr w w' \<longleftrightarrow> wire w' = wire w @ [(i, fr)]"
proof -
  have "\<not> refuses any_driver i fr"
    by (auto simp: refuses_def answers_def any_driver_def intro!: exI [of _ "Ptr 0 0"] exI [of _ "length fr"]
        exI [of _ "\<lparr>bufs = [0 \<mapsto> fr], nodes = Map.empty, brk = 1, mallocs = 0, malloc_ok = \<lambda>_. True, junk = \<lambda>_ _. 0, wire = [], \<dots> = undefined\<rparr>"] simp: mem_read_def)
  then show ?thesis by (auto simp: frame_given_def tries_def)
qed

definition rx_frame :: ether_frame where
  "rx_frame = \<lparr>ef_dest = At Null, ef_src = At Null, ef_payload = None, ef_type = 0, ef_crc = 0, ef_data = Ptr 50 0,
     ef_data_size = 80\<rparr>"

definition no_items :: "('w heap_scheme) item_pool" where
  "no_items = \<lparr>mem_alloc = \<lambda>w. (None, w), mem_free = \<lambda>a w. w\<rparr>"

text \<open>The first host with an empty frame buffer, and an echo request of its peer.\<close>

definition lan_rx :: link_world where
  "lan_rx = (lan_world (sample_conn CLOSED))\<lparr>bufs := [39 \<mapsto> replicate 80 0]\<rparr>"

lemma lan_wire [simp]: "wire lan_rx = []" "wire (lan_world t) = []"
  by (simp_all add: lan_rx_def lan_world_def ether_world_def)

lemma lan_rx_sel [simp]:
  "bufs lan_rx = [39 \<mapsto> replicate 80 0]" "nodes lan_rx = Map.empty" "brk lan_rx = 40" "mallocs lan_rx = 0"
  "malloc_ok lan_rx = (\<lambda>_. True)" "ident lan_rx = 0" "ips lan_rx = [1 \<mapsto> host_ip]"
  "eths lan_rx = [2 \<mapsto> \<lparr>e_interface = 9, mac_address = [2, 0, 0, 0, 0, 1]\<rparr>]"
  "nifs lan_rx = [3 \<mapsto> \<lparr>nif_ip = 1, nif_eth = 2\<rparr>]" "nif_list lan_rx = [3]" "arp_table lan_rx = [31]"
  "artis lan_rx = [31 \<mapsto> \<lparr>ai_ip = [10, 0, 0, 2], ai_mac = [2, 0, 0, 0, 0, 2], ai_tmr = None\<rparr>]"
  by (simp_all add: lan_rx_def)

lemma lan_rx_ok [simp]:
  "wf_heap lan_rx" "ether_arp_get_ip plain_ext 2 lan_rx = Some (Some 1)" "ether_up plain_ext 2 lan_rx"
  "ip_v4 d = [10, 0, 0, 2] \<Longrightarrow> link_addr lan_rx d [2, 0, 0, 0, 0, 2]"
  "has_ip lan_rx [10, 0, 0, 1] 3" "nifs_ok lan_rx"
  using plain_ext_laws
  by (simp_all add: wf_heap_def ether_arp_get_ip_def list_match_eth_def ether_up_def link_addr_def
      ip_addr_broadcast_def arp_hit_def au32_def of_be32_def has_ip_def nifs_ok_def)

definition lan_frame :: ether_frame where
  "lan_frame = rx_frame\<lparr>ef_data := Ptr 39 0\<rparr>"

lemma lan_room: "length fr = 64 \<Longrightarrow> has_room lan_rx lan_frame 39 (replicate 80 0) fr"
  by (simp add: has_room_def lan_frame_def rx_frame_def)

definition ping_sample :: ip_header where
  "ping_sample = zero_header\<lparr>h_version := 4, h_protocol := IP_PROTOCOL_ICMP, h_total_length := 32, h_ttl := 64,
     h_src := peer_addr, h_dest := host_addr\<rparr>"

lemma ping_sample_ok [simp]: "ping_hdr ping_sample 4" "h_src ping_sample = peer_addr"
  by (simp_all add: ping_sample_def ping_hdr_def plain_hdr_def zero_header_def)

text \<open>That host with an ARP table of two entries and an empty pool of items.\<close>

definition cache_world :: "(u32 \<times> nat) option arpw" where
  "cache_world = \<lparr>bufs = [39 \<mapsto> replicate 80 0], nodes = Map.empty, brk = 40, mallocs = 0, malloc_ok = \<lambda>_. True,
     junk = \<lambda>_ _. 0, wire = [], tick = 7, second = 7, ident = 0, ips = [1 \<mapsto> host_ip], auto_header = zero_header,
     nifs = [3 \<mapsto> \<lparr>nif_ip = 1, nif_eth = 2\<rparr>], nif_list = [3], udps = Map.empty, udp_list = [],
     tcbs = Map.empty, tcp_list = [], segs = Map.empty,
     eths = [2 \<mapsto> \<lparr>e_interface = 9, mac_address = [2, 0, 0, 0, 0, 1]\<rparr>],
     artis = [31 \<mapsto> \<lparr>ai_ip = [10, 0, 0, 2], ai_mac = [2, 0, 0, 0, 0, 2], ai_tmr = Some (0, 100)\<rparr>,
       32 \<mapsto> \<lparr>ai_ip = [10, 0, 0, 3], ai_mac = [2, 0, 0, 0, 0, 3], ai_tmr = Some (0, 50)\<rparr>],
     arp_table = [31, 32], ai_pool = \<lparr>lp_items = [31, 32], lp_free = []\<rparr>\<rparr>"

lemma cache_world_sel [simp]:
  "bufs cache_world = [39 \<mapsto> replicate 80 0]" "nodes cache_world = Map.empty" "brk cache_world = 40"
  "second cache_world = 7" "arp_table cache_world = [31, 32]"
  "eths cache_world = [2 \<mapsto> \<lparr>e_interface = 9, mac_address = [2, 0, 0, 0, 0, 1]\<rparr>]"
  "artis cache_world = [31 \<mapsto> \<lparr>ai_ip = [10, 0, 0, 2], ai_mac = [2, 0, 0, 0, 0, 2], ai_tmr = Some (0, 100)\<rparr>,
    32 \<mapsto> \<lparr>ai_ip = [10, 0, 0, 3], ai_mac = [2, 0, 0, 0, 0, 3], ai_tmr = Some (0, 50)\<rparr>]"
  "ai_pool cache_world = \<lparr>lp_items = [31, 32], lp_free = []\<rparr>"
  by (simp_all add: cache_world_def)

lemma cache_room: "length fr = 64 \<Longrightarrow> has_room cache_world lan_frame 39 (replicate 80 0) fr"
  by (simp add: has_room_def lan_frame_def rx_frame_def wf_heap_def)

lemma cache_pool_empty: "ai_pool w = ai_pool cache_world \<Longrightarrow> fst (mem_alloc (arpti_pool plain_ext) w) = None"
  by (simp add: arpti_pool_def list_alloc_def plain_ext_def)

text \<open>A connection of the first host with 20 bytes in flight whose timer is over.\<close>

definition late_conn :: "(u32 \<times> nat) option tcb" where
  "late_conn = (sample_conn ESTABLISHED)\<lparr>tx_seg := Some ((sample_seg SEG_FLAG_ACK 7 101)\<lparr>sg_raw := Some 6\<rparr>), tmr := Some (0, 3)\<rparr>"

definition late_world :: link_world where
  "late_world = (lan_world late_conn)\<lparr>bufs := [5 \<mapsto> replicate 20 1], nodes := [6 \<mapsto> byte_node None 5 20]\<rparr>"

lemma late_world_sel [simp]:
  "tcbs late_world = [30 \<mapsto> late_conn]" "second late_world = 7" "mallocs late_world = 0" "malloc_ok late_world = (\<lambda>_. True)"
  "eths late_world = [2 \<mapsto> \<lparr>e_interface = 9, mac_address = [2, 0, 0, 0, 0, 1]\<rparr>]"
  by (simp_all add: late_world_def)

lemma late_world_ok:
  "in_flight late_world 30 ((sample_seg SEG_FLAG_ACK 7 101)\<lparr>sg_raw := Some 6\<rparr>) (replicate 20 1)"
  "can_send late_world late_conn host_ip 2" "ether_up plain_ext 2 late_world"
  "link_addr late_world (t_dest late_conn) [2, 0, 0, 0, 0, 2]"
proof -
  have "block late_world (Some 6) [6] None" by (simp add: late_world_def block.simps(2))
  moreover have "block_bytes late_world [6] = Some (replicate 20 1)"
    by (simp add: late_world_def node_bytes_def mem_simps)
  ultimately show "in_flight late_world 30 ((sample_seg SEG_FLAG_ACK 7 101)\<lparr>sg_raw := Some 6\<rparr>) (replicate 20 1)"
    unfolding in_flight_def by (auto simp: late_conn_def)
  show "can_send late_world late_conn host_ip 2"
    by (simp add: can_send_def late_world_def late_conn_def wf_heap_def)
  show "ether_up plain_ext 2 late_world" "link_addr late_world (t_dest late_conn) [2, 0, 0, 0, 0, 2]"
    using plain_ext_laws
    by (simp_all add: late_world_def late_conn_def ether_up_def ether_arp_get_ip_def list_match_eth_def link_addr_def
      ip_addr_broadcast_def arp_hit_def au32_def of_be32_def)
qed

text \<open>The first host with 1500 bytes to send to its peer, in one node on the stack.\<close>

definition big_world :: link_world where
  "big_world = (lan_world (sample_conn CLOSED))\<lparr>bufs := [5 \<mapsto> replicate 1500 7], nodes := [6 \<mapsto> init_dblk (Ptr 5 0) 1500]\<rparr>"

lemma big_world_sel [simp]:
  "bufs big_world = [5 \<mapsto> replicate 1500 7]" "nodes big_world = [6 \<mapsto> init_dblk (Ptr 5 0) 1500]" "brk big_world = 40"
  "malloc_ok big_world = (\<lambda>_. True)" "ident big_world = 0"
  "eths big_world = [2 \<mapsto> \<lparr>e_interface = 9, mac_address = [2, 0, 0, 0, 0, 1]\<rparr>]"
  by (simp_all add: big_world_def)

lemma big_world_ok [simp]:
  "wf_heap big_world" "ether_up plain_ext 2 big_world"
  "ip_v4 dest = [10, 0, 0, 2] \<Longrightarrow> link_addr big_world dest [2, 0, 0, 0, 0, 2]"
proof -
  let ?w = "lan_world (sample_conn CLOSED)"
  have w: "big_world = ?w\<lparr>bufs := bufs big_world, nodes := nodes big_world, brk := brk ?w, mallocs := mallocs ?w,
      ident := ident ?w, wire := wire ?w\<rparr>"
    by (simp add: big_world_def)
  show "wf_heap big_world" by (auto simp: wf_heap_def split: if_splits)
  show "ether_up plain_ext 2 big_world" by (subst w) (rule ether_up_heap [OF lan_up])
  show "link_addr big_world dest [2, 0, 0, 0, 0, 2]" if "ip_v4 dest = [10, 0, 0, 2]"
    by (subst w, subst link_addr_heap) (rule lan_peer [OF that])
qed

text \<open>The first host without connections, and its peer, which listens on port 80; both have frame buffers.\<close>

definition client_host :: link_world where
  "client_host = (lan_world (sample_conn CLOSED))\<lparr>bufs := [39 \<mapsto> replicate 80 0], tcbs := Map.empty, tcp_list := []\<rparr>"

definition peer_ip :: ip where
  "peer_ip = host_ip\<lparr>ip_self := peer_addr\<rparr>"

definition server_host :: link_world where
  "server_host = (lan_world (listening plain_ext 1 80 0 9))\<lparr>bufs := [38 \<mapsto> replicate 80 0, 39 \<mapsto> replicate 80 0],
     ips := [1 \<mapsto> peer_ip], eths := [2 \<mapsto> \<lparr>e_interface = 9, mac_address = [2, 0, 0, 0, 0, 2]\<rparr>],
     artis := [31 \<mapsto> \<lparr>ai_ip = [10, 0, 0, 1], ai_mac = [2, 0, 0, 0, 0, 1], ai_tmr = None\<rparr>]\<rparr>"

lemma hosts_sel [simp]:
  "bufs client_host = [39 \<mapsto> replicate 80 0]" "brk client_host = 40" "ident client_host = 0" "second client_host = 7"
  "tcp_list client_host = []" "bufs server_host = [38 \<mapsto> replicate 80 0, 39 \<mapsto> replicate 80 0]" "brk server_host = 40"
  "ident server_host = 0" "wf_heap client_host" "wf_heap server_host" "ip_self peer_ip = peer_addr"
  by (simp_all add: client_host_def server_host_def wf_heap_def peer_ip_def)

lemma hosts_up:
  "host plain_ext client_host 1 host_ip 2 \<lparr>e_interface = 9, mac_address = [2, 0, 0, 0, 0, 1]\<rparr>"
  "host plain_ext server_host 1 peer_ip 2 \<lparr>e_interface = 9, mac_address = [2, 0, 0, 0, 0, 2]\<rparr>"
  "ip_v4 d = [10, 0, 0, 2] \<Longrightarrow> link_addr client_host d [2, 0, 0, 0, 0, 2]"
  "ip_v4 d = [10, 0, 0, 1] \<Longrightarrow> link_addr server_host d [2, 0, 0, 0, 0, 1]"
  using plain_ext_laws
  by (simp_all add: client_host_def server_host_def host_def ether_arp_get_ip_def list_match_eth_def ether_up_def
      link_addr_def ip_addr_broadcast_def arp_hit_def au32_def of_be32_def peer_ip_def)

lemma server_listens: "only_conn server_host 1 80 30 (listening plain_ext 1 (ucast (80 :: u16)) 0 9)"
  by (simp add: only_conn_def server_host_def listening_def new_tcb_def)

lemma client_netif: "\<exists>a. ip_find_netif plain_ext None host_addr client_host = Some (Some 1, a)"
  using ip_find_netif_first [OF plain_ext_laws(1), of client_host host_addr]
  by (auto simp: client_host_def nifs_ok_def on_lan_def ip_addr_same_lan_def)

lemma one_frame_any:
  "one_frame run w i fr Q \<Longrightarrow> \<exists>r. run any_driver = Some r \<and> wire (snd (snd r)) = wire w @ [(i, fr)] \<and> Q r"
  by (fastforce simp: one_frame_def dest: spec [of _ any_driver])

lemma wire_arrives:
  assumes "length fr = 54" "wf_heap w" "ef_data frame = Ptr b 0" "ef_data_size frame = 80" "bufs w b = Some (replicate 80 0)"
  shows "arrives w i (wire_recv (fr @ replicate 10 0)) frame b (fr @ replicate 10 0)"
  using assms by (auto simp: arrives_def has_room_def)

text \<open>The frames of a handshake, each received in a frame buffer of its own.\<close>

lemma handshake_run:
  fixes wB v v0 :: link_world
  assumes H: "one_frame run v0 i syn
    (\<lambda>(p, _, wA1). p = Some k \<and> untouched v {} wA1 \<and>
      (\<forall>rcv pool call frame fb pad. arrives wB j rcv frame fb (syn @ pad) \<longrightarrow>
        one_frame (\<lambda>drv. ether_ll_recv E drv rcv pool call eB frame wB) wB j sa
        (\<lambda>(_, _, wB1). untouched wB {fb} wB1 \<and>
          (\<forall>rcv pool call frame fb pad. arrives wA1 i rcv frame fb (sa @ pad) \<and> fb < k \<longrightarrow>
            one_frame (\<lambda>drv. ether_ll_recv E drv rcv pool call eA frame wA1) wA1 i ack
            (\<lambda>(_, _, wA2). untouched v {fb} wA2 \<and> P wA2 \<and>
              (\<forall>drv rcv pool call frame fb pad. arrives wB1 j rcv frame fb (ack @ pad) \<longrightarrow>
                (\<exists>frame' wB2. ether_ll_recv E drv rcv pool call eB frame wB1 = Some (True, frame', wB2) \<and>
                  untouched wB1 {fb} wB2 \<and> Q wB2)))))))"
    and len: "length syn = 54" "length sa = 54" "length ack = 54"
    and f: "ef_data f = Ptr 39 0" "ef_data_size f = 80"
    and v: "bufs v 39 = Some (replicate 80 0)" "39 < brk v" "39 < k"
    and wB: "wf_heap wB" "bufs wB 38 = Some (replicate 80 0)" "bufs wB 39 = Some (replicate 80 0)" "38 < brk wB"
  defines "rcv \<equiv> \<lambda>fr. wire_recv (fr @ replicate 10 0)"
  shows "\<exists>l wA1 r1 wB1 r2 wA2 r3 wB2. run any_driver = Some (Some k, l, wA1) \<and>
    ether_ll_recv E any_driver (rcv syn) pool call eB f wB = Some (fst r1, snd r1, wB1) \<and>
    ether_ll_recv E any_driver (rcv sa) pool call eA f wA1 = Some (fst r2, snd r2, wA2) \<and>
    ether_ll_recv E any_driver (rcv ack) pool call eB (f\<lparr>ef_data := Ptr 38 0\<rparr>) wB1 = Some (True, r3, wB2) \<and> P wA2 \<and> Q wB2 \<and>
    wire wA1 = wire v0 @ [(i, syn)] \<and> wire wB1 = wire wB @ [(j, sa)] \<and> wire wA2 = wire wA1 @ [(i, ack)]"
proof -
  let ?F = "\<lambda>fr :: u8 list. fr @ replicate 10 0"
  obtain l wA1 where 1: "run any_driver = Some (Some k, l, wA1)" and A1: "untouched v {} wA1" "wire wA1 = wire v0 @ [(i, syn)]"
    and h1: "\<forall>rcv pool call frame fb pad. arrives wB j rcv frame fb (syn @ pad) \<longrightarrow>
        one_frame (\<lambda>drv. ether_ll_recv E drv rcv pool call eB frame wB) wB j sa
        (\<lambda>(_, _, wB1). untouched wB {fb} wB1 \<and>
          (\<forall>rcv pool call frame fb pad. arrives wA1 i rcv frame fb (sa @ pad) \<and> fb < k \<longrightarrow>
            one_frame (\<lambda>drv. ether_ll_recv E drv rcv pool call eA frame wA1) wA1 i ack
            (\<lambda>(_, _, wA2). untouched v {fb} wA2 \<and> P wA2 \<and>
              (\<forall>drv rcv pool call frame fb pad. arrives wB1 j rcv frame fb (ack @ pad) \<longrightarrow>
                (\<exists>frame' wB2. ether_ll_recv E drv rcv pool call eB frame wB1 = Some (True, frame', wB2) \<and>
                  untouched wB1 {fb} wB2 \<and> Q wB2)))))"
    using one_frame_any [OF H] by auto
  have "arrives wB j (rcv syn) f 39 (?F syn)" unfolding rcv_def by (rule wire_arrives) (use len f wB in simp_all)
  from one_frame_any [OF h1 [rule_format, OF this]] obtain r1 wB1 where
    2: "ether_ll_recv E any_driver (rcv syn) pool call eB f wB = Some (fst r1, snd r1, wB1)" and B1: "untouched wB {39} wB1" "wire wB1 = wire wB @ [(j, sa)]"
    and h2: "\<forall>rcv pool call frame fb pad. arrives wA1 i rcv frame fb (sa @ pad) \<and> fb < k \<longrightarrow>
            one_frame (\<lambda>drv. ether_ll_recv E drv rcv pool call eA frame wA1) wA1 i ack
            (\<lambda>(_, _, wA2). untouched v {fb} wA2 \<and> P wA2 \<and>
              (\<forall>drv rcv pool call frame fb pad. arrives wB1 j rcv frame fb (ack @ pad) \<longrightarrow>
                (\<exists>frame' wB2. ether_ll_recv E drv rcv pool call eB frame wB1 = Some (True, frame', wB2) \<and>
                  untouched wB1 {fb} wB2 \<and> Q wB2)))" by (force simp: split_paired_Ex)
  have "arrives wA1 i (rcv sa) f 39 (?F sa) \<and> 39 < k"
    unfolding rcv_def by (intro conjI wire_arrives) (use len f v A1 in \<open>simp_all add: untouched_def\<close>)
  from one_frame_any [OF h2 [rule_format, OF this]] obtain r2 wA2 where
    3: "ether_ll_recv E any_driver (rcv sa) pool call eA f wA1 = Some (fst r2, snd r2, wA2)" "P wA2" "wire wA2 = wire wA1 @ [(i, ack)]"
    and h3: "\<forall>drv rcv pool call frame fb pad. arrives wB1 j rcv frame fb (ack @ pad) \<longrightarrow>
                (\<exists>frame' wB2. ether_ll_recv E drv rcv pool call eB frame wB1 = Some (True, frame', wB2) \<and>
                  untouched wB1 {fb} wB2 \<and> Q wB2)" by (force simp: split_paired_Ex)
  have "arrives wB1 j (rcv ack) (f\<lparr>ef_data := Ptr 38 0\<rparr>) 38 (?F ack)"
    unfolding rcv_def by (rule wire_arrives) (use len f wB B1 in \<open>simp_all add: untouched_def\<close>)
  from h3 [rule_format, OF this, of any_driver pool call] show ?thesis using 1 2 3 A1(2) B1(2) by blast
qed

text \<open>That host with an established connection, and an acknowledgment its peer has sent.\<close>

definition up_conn :: "(u32 \<times> nat) option tcb" where
  "up_conn = (sample_conn ESTABLISHED)\<lparr>rx_segs := []\<rparr>"

definition up_host :: link_world where
  "up_host = client_host\<lparr>tcbs := [30 \<mapsto> up_conn], tcp_list := [30]\<rparr>"

lemma up_host_ok:
  "host plain_ext up_host 1 host_ip 2 \<lparr>e_interface = 9, mac_address = [2, 0, 0, 0, 0, 1]\<rparr>" "only_conn up_host 1 80 30 up_conn"
  "wf_heap up_host" "bufs up_host 39 = Some (replicate 80 0)"
proof -
  have "wf_heap (client_host\<lparr>tcbs := c, tcp_list := l\<rparr>)" for c l
    using hosts_sel(9) unfolding wf_heap_def by simp
  then show "host plain_ext up_host 1 host_ip 2 \<lparr>e_interface = 9, mac_address = [2, 0, 0, 0, 0, 1]\<rparr>"
    "only_conn up_host 1 80 30 up_conn" "wf_heap up_host" "bufs up_host 39 = Some (replicate 80 0)"
    using hosts_up(1) by (simp_all add: up_host_def only_conn_def up_conn_def)
qed

definition peer_conn :: "(u32 \<times> nat) option tcb" where
  "peer_conn = new_tcb plain_ext 1 5000 (Some host_addr) 80"

lemma peer_can_send: "can_send server_host peer_conn peer_ip 2"
  by (rule host_can_send [OF hosts_up(2)]) (simp_all add: peer_conn_def new_tcb_def)

end
