(* ===== verification/Spec2Isabelle.thy ===== *)
theory Spec2Isabelle
  imports Samples
begin

text \<open>
  The TCP/IP stack \<^verbatim>\<open>dts.net\<close>: a model of its C sources and what has been proved of it.
  Sources are named relative to \<^verbatim>\<open>src/\<close>.

  \<^bold>\<open>The program.\<close>  Packets are lists of data blocks (\<^verbatim>\<open>dblk_t\<close>), to which each layer on
  the way down puts a header node in front and each layer on the way up takes one off.
  A driver calls \<^verbatim>\<open>ether_ll_recv\<close>, which goes on to ARP or to \<^verbatim>\<open>ip_ll_recv\<close>, and this one to
  ICMP, UDP or TCP.  Downwards the transports call \<^verbatim>\<open>ip_hl_send\<close>, which calls the link layer
  of the interface through a function pointer; for Ethernet it is \<^verbatim>\<open>ip_ether_send\<close>.  Above
  UDP and TCP are a BSD socket layer and, above that, a DHCP client.  Timers are polled by
  \<^verbatim>\<open>tcp_loop\<close> and \<^verbatim>\<open>dhcp_loop\<close>; there are no threads.

  \<^bold>\<open>Memory and outcome.\<close>  \<open>Cmem\<close> is the memory of the C program: byte buffers and block
  nodes at addresses that are never used twice, with the flags that say whether \<^verbatim>\<open>malloc\<close>
  will succeed (\<open>malloc_ok\<close>, any sequence of answers) and what fresh memory holds
  (\<open>junk\<close>, anything).  Every operation that touches memory returns an \<open>option\<close>:
  \<open>None\<close> means that the C program has no defined outcome (a null or dangling pointer, an
  access outside an object, a second \<^verbatim>\<open>free\<close>) or does not return; error codes of the program
  are ordinary values.  The state has one part that is not memory: \<open>wire\<close>, the history of the
  frames the drivers have been given, which no operation of the stack reads or writes; only a
  driver adds to it.  So \<open>f x = Some y\<close> says that the call returns and does so without
  undefined behaviour.  Loops along pointers are \<^verbatim>\<open>partial_function (option)\<close>; no fuel is used.
  Integers have the width of the C types on a 32-bit little-endian machine; lengths are
  \<open>nat\<close> where the code bounds them, and written modulo where they wrap.  The states grow
  by extension, each layer adding its own part: heap, clock (\<open>sysw\<close>), IP (\<open>netw\<close>),
  interfaces (\<open>netifw\<close>), UDP (\<open>udpw\<close>), TCP (\<open>tcpw\<close>), Ethernet and ARP (\<open>linkw\<close>),
  sockets (\<open>sockw\<close>), DHCP (\<open>dhcpw\<close>); \<open>poolw\<close> is UDP with its pool.

  \<^bold>\<open>What is not in the repository\<close> is a parameter.  \<open>Ext\<close> collects the lists of
  \<^verbatim>\<open>dts.datastruct\<close> and the timers of \<^verbatim>\<open>dts.elib\<close> in the record \<open>ext\<close>; \<open>list_laws\<close> and
  \<open>timer_laws\<close> state their documented behaviour, and \<open>plain_ext\<close> is an instance.  The
  driver (\<open>drv_send\<close>, with \<open>driver_ok\<close> and \<open>driver_frame\<close>: it reads the frame and leaves the
  memory of the stack alone), the link layer behind an interface (\<open>ll_send\<close>, with the
  contract of \<open>Link_Layer\<close> and \<open>link_frame\<close>, which \<^verbatim>\<open>ip_ether_send\<close> is proved to keep), the item
  pools, the callbacks of UDP and of the DHCP client are arguments as well.

  \<^bold>\<open>Theories and sources.\<close>
  \<^item> \<open>Prelude\<close>: types and general lemmas.  \<open>Cmem\<close>: the memory.
  \<^item> \<open>Endian\<close>, \<open>Checksum\<close>, \<open>Inet\<close>: \<^verbatim>\<open>include/dts/net/endian.h\<close>, \<^verbatim>\<open>include/dts/net/checksum.h\<close>,
    \<^verbatim>\<open>include/arpa/inet.h\<close>.
  \<^item> \<open>Dblk\<close>, with the lemmas in \<open>Dblk_Block\<close>, \<open>Dblk_Access\<close>, \<open>Dblk_Fragment\<close>:
    \<^verbatim>\<open>dts_net_dblk.c\<close>, \<^verbatim>\<open>include/dts_net_dblk.h\<close>.
  \<^item> \<open>Sys\<close>: \<^verbatim>\<open>dts_net_sys.c\<close>.  \<open>Ip\<close>, \<open>Ip_Header\<close>, \<open>Ip_Send\<close>, \<open>Ip_Recv\<close>: \<^verbatim>\<open>dts_net_ip.c\<close>, the
    pseudo header, and the receiving half of \<^verbatim>\<open>dts_net_ether.c\<close>.
  \<^item> \<open>Arp\<close>, \<open>Ether\<close>, \<open>Ether_Arp\<close>, \<open>Netif\<close>: \<^verbatim>\<open>dts_net_arp.c\<close>, \<^verbatim>\<open>dts_net_ether.c\<close>,
    \<^verbatim>\<open>dts_net_ether_arp.c\<close> (packets; frames; the ARP table and \<^verbatim>\<open>ip_ether_send\<close>; the interfaces).
    \<open>Icmp\<close>: \<^verbatim>\<open>dts_net_icmp.c\<close>.  \<open>Udp\<close>: \<^verbatim>\<open>dts_net_udp.c\<close>.
  \<^item> \<open>Tcp_Segment\<close>, \<open>Tcp\<close>, \<open>Tcp_Events\<close>: \<^verbatim>\<open>dts_net_tcp.c\<close>, in the order of the file: segments and
    \<^verbatim>\<open>sncmp\<close>; the connection and what it sends; the event tables and entry points.
  \<^item> \<open>Mem_Pool\<close>, \<open>Udp_Pool\<close>: \<^verbatim>\<open>dts.net.mem.impl/\<close>, and the UDP table over such a pool.
  \<^item> \<open>Socket\<close>: \<^verbatim>\<open>socket/socket.c\<close>, \<^verbatim>\<open>include/bsd/socket.h\<close>.  \<open>Dhcp_Msg\<close>, \<open>Dhcp\<close>: \<^verbatim>\<open>dts_net_dhcp.c\<close>.

  Operations have the names of the C functions without the prefix \<^verbatim>\<open>dts_net_\<close>; a part of a
  function that is a definition of its own (a loop, a repeated tail) is named after it.

  \<^bold>\<open>What the lemmas show.\<close>
  \<^item> Over byte lists: \<open>Endian\<close> has the locale \<open>field_codec\<close> for fields of a packet, interpreted for
    each accessor; \<open>Checksum\<close>, \<open>Ip_Header\<close>, \<open>Arp\<close>, \<open>Icmp\<close>, \<open>Tcp_Codec\<close>, \<open>Dhcp_Msg\<close> state what each
    packer stores and that unpacking reads it back, or where it does not.
  \<^item> Over blocks: \<open>block h p as q\<close> says that the nodes \<open>as\<close> form the chain from \<open>p\<close> to \<open>q\<close>, and
    \<open>block_bytes\<close> are its bytes; the lemmas give each operation on blocks its meaning on bytes,
    together with the memory it changes.
  \<^item> \<open>Link_Layer\<close> states the contract of \<open>ll_send\<close> as a locale, what a control segment amounts to
    over it, and \<open>Ether_Link\<close> discharges it for Ethernet.  \<open>Tcp_Wire\<close> and \<open>Udp_Wire\<close> carry this up
    to the bytes on the wire, \<open>Ip_Fragments\<close> to the train of fragments of a long datagram,
    \<open>Tcp_Data\<close> to the segment that carries data of the application and its retransmission.
    Such a property is stated over all drivers: with one that answers when it is given these
    bytes and enters them in the history (\<open>accepts\<close>, whatever it does with others) the call
    returns, and \<open>frame_given\<close> says that the history has grown by these bytes and by nothing
    else; with one that has no outcome for them (\<open>rejects\<close>) neither has the call.  How often
    they are entered depends on what the driver reports, since \<^verbatim>\<open>ip_ether_send\<close> tries three times
    (\<open>tries\<close>): once if it reports success (\<open>takes\<close>), three times if it never does (\<open>refuses\<close>), and
    otherwise once to three times.  ARP packets are given to it once in any case.
  \<^item> Upwards, \<open>Ip_Path\<close>, \<open>Udp_Path\<close>, \<open>Icmp_Path\<close> and \<open>Ether_Path\<close> follow a frame that arrives
    (\<open>arrives\<close>: its bytes are in a buffer of the driver, and the memory has room) from
    \<^verbatim>\<open>ether_ll_recv\<close> to the handler; \<open>Arp_Table\<close> is the ARP table as a cache.
  \<^item> \<open>Tcp_Path\<close> and \<open>Handshake\<close> join both directions: what a host does with each frame of the
    handshake, from the driver that receives it to the driver that gets the answer.
    \<open>Tcp_Stream\<close>: the blocks queued at a connection as a stream of bytes (\<open>queued_text\<close>), from
    which \<^verbatim>\<open>tcp_recv\<close> takes; \<open>Tcp_Deliver\<close>: how \<^verbatim>\<open>tcp_handle_data\<close> appends to it and acknowledges.
  \<^item> \<open>Tcp_Inv\<close> and \<open>Tcp_Reach\<close>: the invariant of a connection, the edges of the state diagram, and
    reachability by the events of a connection.  \<open>Tcp_Behaviour\<close>, \<open>Tcp_Text\<close>: the handshake, the
    acceptance test, text.  \<open>Frame\<close>: what no handler of a connection touches.  \<open>Tcp_World\<close>: the
    connections side by side.  \<open>Tcp_Table\<close>: the whole table as a step relation (\<open>stack_step\<close>), in
    which each connection lives the life of \<open>Tcp_Reach\<close>.
  \<^item> \<open>Mem_Pool\<close>: the locale \<open>item_store\<close> and its extension \<open>bounded_store\<close>, a specification by
    rules (\<open>pool_spec\<close>, in which a request fails only when all items are in use), and interpretations for the three implementations.
  \<^item> \<open>Socket_Behaviour\<close>, \<open>Dhcp_Behaviour\<close>: a datagram through a socket; acknowledgement, offer and
    renewal of the DHCP client.
  \<^item> This theory states the properties and applies each at a concrete state of \<open>Samples\<close>.

  \<^bold>\<open>Where the code departs from its purpose\<close> a property states what it does: among others the
  acceptance test is inverted when the window wraps, an acknowledgment with nothing in flight
  follows a null pointer, a FIN delivers a byte that was never sent, fragment offsets count the
  header, \<^verbatim>\<open>dblk_read\<close> and \<^verbatim>\<open>tcp_recv\<close> overwrite what they have read where the bytes lie in
  several blocks, a DHCP offer leads to a double free.

  \<^bold>\<open>Bounds.\<close>  Properties that compute a checksum over a payload are about payloads of even length
  in one node: for an odd length the checksum functions also add the byte behind it, and what
  they compute is not the checksum of the packet.  The lemmas on blocks ask for sizes below \<open>2 ^ 16\<close>, the width of the size fields; sending
  in one piece for payloads below 1400 bytes, the fragmentation limit of \<^verbatim>\<open>ip_hl_send\<close>; timer
  periods below \<open>2 ^ 32\<close> seconds, the width of the clock.

  \<^bold>\<open>Not modelled.\<close>  The test programs under \<^verbatim>\<open>test/\<close>, which need a tap device; the alias headers under
  \<^verbatim>\<open>include/dts/net/\<close> that only rename identifiers (what else the headers hold are prototypes,
  constants and licence text; every function of the C files outside \<^verbatim>\<open>test/\<close> has a definition
  here); the padding between the fields of C structs;
  interrupts or threads that run during a call (the code has no provision for them).  The item
  pools are one model for all item types of the macros.
\<close>

section \<open>TCP: the life of a connection\<close>

text \<open>
  C1.  Whatever segments arrive, whenever the timer expires and however the application
  closes, reads and writes, a connection that was opened by \<^verbatim>\<open>tcp_open\<close> keeps its
  invariant: in \<^verbatim>\<open>SYN_SENT\<close> the segment in flight is a SYN, in \<^verbatim>\<open>ESTABLISHED\<close> and
  \<^verbatim>\<open>CLOSE_WAIT\<close> it is neither SYN nor FIN, in \<^verbatim>\<open>FIN_WAIT_2\<close> and \<^verbatim>\<open>TIME_WAIT\<close> nothing is in
  flight, the window stays at 1500, and the state \<^verbatim>\<open>CLOSING\<close> is never entered.
\<close>

theorem connection_invariant:
  assumes "conn_reach E ll_send t"
  shows "conn_ok t \<and> t_state t \<noteq> CLOSING \<and> rcv_wnd t = 1500 \<and>
    (t_state t \<in> {FIN_WAIT_2, TIME_WAIT} \<longrightarrow> tx_seg t = None)"
proof -
  have "conn_ok t" using assms by (rule conn_reach_conn_ok)
  then show ?thesis by (auto simp: conn_ok_def txf_def)
qed

theorem connection_invariant_witness:
  defines "t \<equiv> (new_tcb plain_ext 1 80 None 0)\<lparr>snd_una := 7, snd_nxt := 7, snd_iss := 7,
    time_wait_seconds := 120, t_state := LISTEN\<rparr>"
  shows "conn_ok t \<and> t_state t \<noteq> CLOSING \<and> rcv_wnd t = 1500"
proof -
  have "open_event plain_ext quiet_link (new_tcb plain_ext 1 80 None 0) host_world = Some (t, host_world)"
    by (simp add: t_def open_event_def open_when_closed_def new_tcb_def tcp_generate_isn_def sys_tick_s_def)
  then have "conn_reach plain_ext quiet_link t" by (rule conn_reach.opened)
  then show ?thesis using connection_invariant [of plain_ext quiet_link t] by simp
qed

text \<open>
  C2.  However connections are opened and closed, datagrams arrive, the application reads and
  writes, \<^verbatim>\<open>tcp_loop\<close> runs and the clock ticks: the list of connections has none twice, a
  connection is allocated if and only if it is in the list, so none leaks and none dangles,
  and every connection satisfies the invariant above.
\<close>

theorem connection_table:
  assumes "stack_reach E ll_send w" and "link_frame ll_send" and "list_laws E"
  shows "distinct (tcp_list w) \<and> dom (tcbs w) = set (tcp_list w) \<and>
    (\<forall>t \<in> ran (tcbs w). conn_ok t \<and> t_state t \<noteq> CLOSING)"
proof -
  have T: "table_inv E ll_send w" by (rule stack_reach_table [OF assms])
  have "conn_ok t \<and> t_state t \<noteq> CLOSING" if "t \<in> ran (tcbs w)" for t
    using conn_reach_conn_ok [of E ll_send t] T that by (auto simp: table_inv_def ran_def conn_ok_def)
  then show ?thesis using T by (simp add: table_inv_def)
qed

theorem connection_table_witness:
  "\<exists>w. stack_reach plain_ext quiet_link w \<and> tcp_list w = [10] \<and> distinct (tcp_list w) \<and>
    dom (tcbs w) = {10} \<and> (\<forall>t \<in> ran (tcbs w). conn_ok t)"
proof -
  obtain a where f: "ip_find_netif plain_ext None host_addr host_world = Some (Some 1, a)"
    using ip_find_netif_first [OF plain_ext_laws(1), of host_world host_addr]
    by (auto simp: nifs_ok_def on_lan_def ip_addr_same_lan_def)
  obtain w where o': "tcp_open plain_ext quiet_link None host_addr 80 None 0 host_world = Some (Some 10, a, w)"
    and l: "tcp_list w = [10]"
    using tcp_open_passive_result [OF plain_ext_laws(1) f, where port = 80 and ll_send = quiet_link and dport = 0] by auto
  have "stack_reach plain_ext quiet_link w"
    by (rule stack_reach.moved [OF stack_reach.booted stack_step.does_open [OF o']]) simp_all
  with l show ?thesis using connection_table [OF _ quiet_link_frame plain_ext_laws(1)] by fastforce
qed

text \<open>
  C3.  A segment that arrives moves the connection only along the edges of the table
  \<open>recv_edges\<close>, or leaves it in its state; the role, the interface and the local port of
  the connection never change.
\<close>

theorem segment_moves_along_edges:
  assumes "tcp_received E ll_send t w = Some (t', w')"
  shows "t_state t' \<in> insert (t_state t) (recv_edges (t_state t)) \<and>
    t_passive t' = t_passive t \<and> localhost t' = localhost t \<and> t_port t' = t_port t"
  using tcp_received_move [OF assms] by (auto simp: good_move_def)

lemma sample_handshake:
  "tcp_received plain_ext quiet_link (sample_conn SYN_RECEIVED) (seg_world (sample_seg SEG_FLAG_ACK 101 8)) =
   Some ((sample_conn SYN_RECEIVED)\<lparr>rx_segs := [], snd_una := 8, t_state := ESTABLISHED\<rparr>,
     seg_world (sample_seg SEG_FLAG_ACK 101 8))"
  using syn_received_ack_result [of plain_ext "sample_conn SYN_RECEIVED" 20
      "seg_world (sample_seg SEG_FLAG_ACK 101 8)" "sample_seg SEG_FLAG_ACK 101 8" 0 quiet_link] plain_ext_laws
  by (simp add: seg_ctrl_defs seg_flag_defs)

theorem segment_moves_along_edges_witness:
  defines "t \<equiv> sample_conn SYN_RECEIVED" and "t' \<equiv> (sample_conn SYN_RECEIVED)\<lparr>rx_segs := [], snd_una := 8, t_state := ESTABLISHED\<rparr>"
  shows "t_state t' \<in> insert (t_state t) (recv_edges (t_state t)) \<and>
    t_passive t' = t_passive t \<and> localhost t' = localhost t \<and> t_port t' = t_port t"
  unfolding t_def t'_def by (rule segment_moves_along_edges [OF sample_handshake])

section \<open>TCP: segments on the wire\<close>

text \<open>
  C10.  \<^verbatim>\<open>tcp_send_ctrl_seg\<close> calls the link layer of the interface exactly once, with one
  packet: an IPv4 header of protocol TCP and total length 40 with its checksum, from
  the address of the interface to that of the peer, followed by a 20-byte TCP header
  with the requested sequence number, acknowledgment and flags and with the checksum
  over pseudo header and segment.  Then it takes down what it had set up; if the link
  layer reported success, \<^verbatim>\<open>snd.nxt\<close> advances by the number of SYN and FIN flags.
\<close>

theorem control_segment_on_wire:
  fixes seq ack :: u32 and flags :: u16
  assumes "can_send w t ip e" and "malloc_ok w (mallocs w)" and "malloc_ok w (Suc (mallocs w))"
  defines "seg \<equiv> ctrl_out w t ip seq ack flags" and "hdr \<equiv> tcp_out_hdr w t ip 20"
  defines "G \<equiv> ctrl_world w t ip seg"
  shows "tcp_send_ctrl_seg ll_send t seq ack flags w = do {
      (r, g) \<leftarrow> ll_send e (sent_dg G hdr) (sent_world G (seg_bytes seg) hdr);
      (ok, g) \<leftarrow> after_send G r g;
      g \<leftarrow> pop_buf (Ptr (Suc (Suc (brk w))) 0) g;
      g \<leftarrow> pop_node (Some (Suc (brk w))) g;
      g \<leftarrow> pop_buf (Ptr (brk w) 0) g;
      Some (ok, if ok then t\<lparr>snd_nxt := snd_nxt t + of_nat (flag_count flags)\<rparr> else t, g) } \<and>
    on_wire (sent_world G (seg_bytes seg) hdr) (sent_dg G hdr) (hdr_bytes hdr @ seg_bytes seg)"
  unfolding seg_def hdr_def G_def using tcp_send_ctrl_seg_eq [OF assms(1-3)] ctrl_on_wire [OF assms(1)] by simp

lemma sample_can_send: "can_send (seg_world s) (sample_conn st) host_ip 2"
  by (simp add: can_send_def)

theorem control_segment_on_wire_witness:
  fixes w :: sample_world
  defines "w \<equiv> seg_world (sample_seg SEG_FLAG_SYN 100 0)" and "t \<equiv> sample_conn LISTEN"
  defines "seg \<equiv> ctrl_out w t host_ip 7 101 (SEG_FLAG_SYN OR SEG_FLAG_ACK)" and "hdr \<equiv> tcp_out_hdr w t host_ip 20"
  defines "G \<equiv> ctrl_world w t host_ip seg"
  shows "on_wire (sent_world G (seg_bytes seg) hdr) (sent_dg G hdr) (hdr_bytes hdr @ seg_bytes seg)"
  unfolding w_def t_def seg_def hdr_def G_def
  using control_segment_on_wire [OF sample_can_send] by simp

text \<open>
  Over Ethernet such a segment is sent without undefined behaviour whatever the driver
  returns and whether or not the peer is in the ARP table: the call returns, and no
  object that existed before, no connection and no queue has changed.
\<close>

theorem control_segment_over_ethernet:
  fixes seq ack :: u32 and flags :: u16 and w :: "('tm, 'w) linkw_scheme"
  assumes "can_send w t ip e" "driver_ok drv" "ether_up E e w"
    and "malloc_ok w (mallocs w)" "malloc_ok w (Suc (mallocs w))"
  shows "\<exists>ok w'. tcp_send_ctrl_seg (ip_ether_send E drv) t seq ack flags w =
      Some (ok, if ok then t\<lparr>snd_nxt := snd_nxt t + of_nat (flag_count flags)\<rparr> else t, w') \<and> clean w w'"
  by (rule ether.tcp_send_ctrl_seg_returns) (use assms in auto)

theorem control_segment_over_ethernet_witness:
  "\<exists>ok w'. tcp_send_ctrl_seg (ip_ether_send plain_ext free_driver) (sample_conn LISTEN) 7 101 SEG_FLAG_ACK
      (ether_world (sample_seg SEG_FLAG_SYN 100 0)) =
    Some (ok, if ok then (sample_conn LISTEN)\<lparr>snd_nxt := snd_nxt (sample_conn LISTEN) + of_nat (flag_count SEG_FLAG_ACK)\<rparr>
      else sample_conn LISTEN, w') \<and> clean (ether_world (sample_seg SEG_FLAG_SYN 100 0)) w'"
  by (rule control_segment_over_ethernet [OF sample_ether_send]) simp_all

text \<open>
  C11.  For a segment without payload or with one of even length in one node, below 65536
  bytes, \<^verbatim>\<open>tcp_pack\<close> writes the header, with its checksum, in front of the payload: it succeeds, stores exactly the 20 bytes of the header (the checksum being
  that of pseudo header, header and payload) and the 12 of the pseudo header, and
  merges the payload behind the header.  (For an odd length the checksum functions also add
  the byte behind the payload, so the checksum stored is then another.)
\<close>

theorem tcp_pack_writes_segment:
  assumes "hdr_node h a d b i bs" "ph_ready ph c h" "b \<noteq> c"
    and "sg_raw seg = Some a" "sg_options seg = None" "payload_is h (sg_payload seg) ps"
    and "sg_payload seg \<noteq> Some a"
    and "\<And>m. sg_payload seg = Some m \<Longrightarrow> b \<notin> data_bufs h [m] \<and> c \<notin> data_bufs h [m]"
    and "length ps < 65536"
  shows "tcp_pack seg ph h = do {
    g \<leftarrow> dblk_merge (Some a) (sg_payload seg)
       (packed_heap a d b i bs c (ph_bytes (ph_src ph) (ph_dest ph) (ph_protocol ph) (of_nat (20 + length ps)))
         (seg_bytes (sealed_seg ph seg ps)) h);
    Some (True, sealed_seg ph seg ps, g) }"
  by (rule tcp_pack_ready [OF assms])

text \<open>A memory with a header node and room for a pseudo header.\<close>

definition pack_heap :: heap where
  "pack_heap = two_nodes\<lparr>bufs := [1 \<mapsto> replicate 32 0, 2 \<mapsto> replicate 12 0, 3 \<mapsto> [65, 66]],
     nodes := [5 \<mapsto> byte_node None 1 32, 6 \<mapsto> byte_node None 3 2]\<rparr>"

definition pack_seg :: tcp_segment where
  "pack_seg = tcp_segment_init\<lparr>sg_raw := Some 5, sg_payload := Some 6, sg_data_offset := 5\<rparr>"

lemma pack_heap_sel [simp]:
  "bufs pack_heap = [1 \<mapsto> replicate 32 0, 2 \<mapsto> replicate 12 0, 3 \<mapsto> [65, 66]]"
  "nodes pack_heap = [5 \<mapsto> byte_node None 1 32, 6 \<mapsto> byte_node None 3 2]"
  by (simp_all add: pack_heap_def)

lemma pack_seg_sel [simp]: "sg_raw pack_seg = Some 5" "sg_payload pack_seg = Some 6"
  "sg_options pack_seg = None"
  by (simp_all add: pack_seg_def tcp_segment_init_def)

lemma sample_ph_ready: "ph_ready (tcp_ph host_ip (sample_conn LISTEN) 2) 2 pack_heap"
  by (simp add: ph_ready_def tcp_ph_def)

lemma pack_payload: "payload_is pack_heap (Some 6) [65, 66]"
  by (simp add: payload_is_Some mem_read_def)

theorem tcp_pack_writes_segment_witness:
  "tcp_pack pack_seg (tcp_ph host_ip (sample_conn LISTEN) 2) pack_heap = do {
    g \<leftarrow> dblk_merge (Some 5) (sg_payload pack_seg)
       (packed_heap 5 (byte_node None 1 32) 1 0 (replicate 32 0) 2
         (ph_bytes (ph_src (tcp_ph host_ip (sample_conn LISTEN) 2)) (ph_dest (tcp_ph host_ip (sample_conn LISTEN) 2))
           (ph_protocol (tcp_ph host_ip (sample_conn LISTEN) 2)) (of_nat (20 + length [65 :: u8, 66])))
         (seg_bytes (sealed_seg (tcp_ph host_ip (sample_conn LISTEN) 2) pack_seg [65, 66])) pack_heap);
    Some (True, sealed_seg (tcp_ph host_ip (sample_conn LISTEN) 2) pack_seg [65, 66], g) }"
  by (rule tcp_pack_writes_segment [OF _ sample_ph_ready])
     (use pack_payload in \<open>simp_all add: hdr_node_def data_bufs_def\<close>)

text \<open>
  C12.  \<^verbatim>\<open>tcp_unpack\<close> on a segment in one node with a text of even length accepts it if and only
  if the checksum it carries is the right one (for an odd length the byte behind the segment
  is summed as well, and a right checksum can be refused); it returns every header field, points the options and the
  payload behind the fixed header and behind the data offset, and clears the checksum
  in the buffer.
\<close>

theorem tcp_unpack_accepts_iff_checksum:
  assumes "nodes h a = Some d" "\<not> d_more d" "d_vsize d = 0" "d_data d = Ptr b i"
      "d_size d = 20 + length ps" "even (length ps)" "length ps < 65516"
    and "bufs h b = Some bs" "i + (20 + length ps) \<le> length bs"
      "take (20 + length ps) (drop i bs) = seg_bytes s @ ps"
    and "ph_ready ph c h" "b \<noteq> c"
    and "sg_raw seg = Some a" "sg_options seg = Some op" "sg_payload seg = Some pl"
      "nodes h op \<noteq> None" "nodes h pl \<noteq> None" "distinct [a, op, pl]"
    and "sg_data_offset s < 16" "sg_flags s < 4096"
  shows "\<exists>h'. tcp_unpack seg ph h = Some (sg_checksum s = seg_csum ph s ps, unpacked seg s, h') \<and>
    nodes h' = (nodes h)(op \<mapsto> init_dblk (Ptr b (i + 20)) (size_sub (unat (sg_data_offset s) * 4) 20),
      pl \<mapsto> init_dblk (Ptr b (i + unat (sg_data_offset s) * 4)) (size_sub (d_size d) (unat (sg_data_offset s) * 4))) \<and>
    bufs h' = (bufs h)(b \<mapsto> splice_at bs (i + 16) [0, 0],
      c \<mapsto> ph_bytes (ph_src ph) (ph_dest ph) (ph_protocol ph) (of_nat (d_size d)))"
  by (rule tcp_unpack_node [OF assms])

definition sent_seg :: tcp_segment where
  "sent_seg = (ctrl_seg (sample_conn LISTEN) 7 101 (SEG_FLAG_SYN OR SEG_FLAG_ACK) None)\<lparr>sg_checksum := 1\<rparr>"

definition unpack_heap :: heap where
  "unpack_heap = two_nodes\<lparr>bufs := [1 \<mapsto> seg_bytes sent_seg, 2 \<mapsto> replicate 12 0],
     nodes := [5 \<mapsto> byte_node None 1 20, 6 \<mapsto> byte_node None 3 0, 7 \<mapsto> byte_node None 3 0]\<rparr>"

definition recv_seg :: tcp_segment where
  "recv_seg = tcp_segment_init\<lparr>sg_raw := Some 5, sg_payload := Some 6, sg_options := Some 7\<rparr>"

lemma unpack_heap_sel [simp]:
  "bufs unpack_heap = [1 \<mapsto> seg_bytes sent_seg, 2 \<mapsto> replicate 12 0]"
  "nodes unpack_heap = [5 \<mapsto> byte_node None 1 20, 6 \<mapsto> byte_node None 3 0, 7 \<mapsto> byte_node None 3 0]"
  by (simp_all add: unpack_heap_def)

lemma sent_seg_fields: "sg_data_offset sent_seg < 16" "sg_flags sent_seg < 4096"
  by (simp_all add: sent_seg_def ctrl_seg_def tcp_segment_init_def seg_flag_defs)

theorem tcp_unpack_accepts_iff_checksum_witness:
  "\<exists>h'. tcp_unpack recv_seg (tcp_ph host_ip (sample_conn LISTEN) 2) unpack_heap =
      Some (sg_checksum sent_seg = seg_csum (tcp_ph host_ip (sample_conn LISTEN) 2) sent_seg [],
        unpacked recv_seg sent_seg, h') \<and>
    nodes h' = (nodes unpack_heap)(7 \<mapsto> init_dblk (Ptr 1 (0 + 20)) (size_sub (unat (sg_data_offset sent_seg) * 4) 20),
      6 \<mapsto> init_dblk (Ptr 1 (0 + unat (sg_data_offset sent_seg) * 4))
        (size_sub (d_size (byte_node None 1 20)) (unat (sg_data_offset sent_seg) * 4))) \<and>
    bufs h' = (bufs unpack_heap)(1 \<mapsto> splice_at (seg_bytes sent_seg) (0 + 16) [0, 0],
      2 \<mapsto> ph_bytes (ph_src (tcp_ph host_ip (sample_conn LISTEN) 2)) (ph_dest (tcp_ph host_ip (sample_conn LISTEN) 2))
        (ph_protocol (tcp_ph host_ip (sample_conn LISTEN) 2)) (of_nat (d_size (byte_node None 1 20))))"
  by (rule tcp_unpack_accepts_iff_checksum [where s = sent_seg and ps = "[]" and a = 5])
     (use sent_seg_fields in \<open>simp_all add: recv_seg_def tcp_segment_init_def ph_ready_def tcp_ph_def\<close>)

section \<open>TCP: arrival of segments\<close>

text \<open>
  C13.  The loop of \<^verbatim>\<open>tcp_ip_recv\<close> looks at the connections of the interface and the
  port a segment is addressed to: it takes the first that is active or whose remote end
  is the sender, and without one the last of them; when there is none, the segment
  is dropped.
\<close>

theorem demultiplexing:
  assumes "\<And>p. p \<in> set ps \<Longrightarrow> cbs p \<noteq> None"
  shows "best_match cbs ip src seg None ps =
    (let cands = filter (seg_for cbs ip seg) ps in
     Some (case find (takes_seg cbs src seg) cands of Some p \<Rightarrow> Some p
       | None \<Rightarrow> if cands = [] then None else Some (last cands)))"
  using best_match_chosen [OF assms, of ps] by (simp add: chosen_def Let_def)

theorem demultiplexing_witness:
  "best_match [30 \<mapsto> sample_conn LISTEN] 1 host_addr (sample_seg 0 0 0) None [30] =
    (let cands = filter (seg_for [30 \<mapsto> sample_conn LISTEN] 1 (sample_seg 0 0 0)) [30] in
     Some (case find (takes_seg [30 \<mapsto> sample_conn LISTEN] host_addr (sample_seg 0 0 0)) cands of Some p \<Rightarrow> Some p
       | None \<Rightarrow> if cands = [] then None else Some (last cands)))"
  by (rule demultiplexing) simp

text \<open>
  C14.  \<^verbatim>\<open>sncmp\<close> is the interval test of sequence space whenever the interval does not wrap
  around \<open>2 ^ 32\<close>, and, with both bounds excluded, also when it does; for the other three
  pairs of operators on a wrapping interval it returns the negation of that test.
\<close>

theorem sncmp_decides:
  "sncmp mi op1 x op2 ma =
    (if mi \<le> ma \<or> op1 = SN_LS \<and> op2 = SN_LS then sn_between mi op1 x op2 ma
     else \<not> sn_between mi op1 x op2 ma)"
  using sncmp_no_wrap [of mi ma op1 x op2] sncmp_wrap [of ma mi op1 x op2] by (cases "mi \<le> ma") auto

text \<open>
  C15.  The acceptance test of RFC 793: as long as the receive window does not wrap around
  \<open>2 ^ 32\<close>, \<^verbatim>\<open>process_received_seq\<close> accepts a segment exactly if its first or, when it has
  a length, its last sequence number lies in the window, and otherwise drops it,
  acknowledging what was received unless it is a reset.
\<close>

theorem window_acceptance:
  assumes "tcp_segment_length w seg = Some n" "rcv_wnd t \<noteq> 0"
    and "unat (rcv_nxt t) + unat (rcv_wnd t) < 2 ^ 32"
  shows "process_received_seq ll_send t seg w =
    (if in_window (rcv_nxt t) (rcv_wnd t) (sg_seq seg) \<or>
        0 < n \<and> in_window (rcv_nxt t) (rcv_wnd t) (sg_seq seg + of_nat n - 1)
     then Some (True, t, w) else reject ll_send t seg w)"
  using process_received_seq_ok [OF assms] by (simp add: seq_acceptable_def)

lemma sample_length:
  "tcp_segment_length (seg_world s) (sample_seg SEG_FLAG_ACK a b) = Some 0"
  "tcp_segment_length (seg_world s) (sample_seg (SEG_FLAG_ACK OR SEG_FLAG_FIN) a b) = Some 1"
  by (simp_all add: tcp_segment_length_def seg_ctrl_defs seg_flag_defs)

theorem window_acceptance_witness:
  "process_received_seq quiet_link (sample_conn ESTABLISHED) (sample_seg SEG_FLAG_ACK 90 8)
      (seg_world (sample_seg SEG_FLAG_ACK 90 8)) =
    (if in_window 101 1500 90 \<or> 0 < (0::nat) \<and> in_window 101 1500 (90 + of_nat 0 - 1)
     then Some (True, sample_conn ESTABLISHED, seg_world (sample_seg SEG_FLAG_ACK 90 8))
     else reject quiet_link (sample_conn ESTABLISHED) (sample_seg SEG_FLAG_ACK 90 8)
       (seg_world (sample_seg SEG_FLAG_ACK 90 8)))"
  using window_acceptance [where t = "sample_conn ESTABLISHED" and seg = "sample_seg SEG_FLAG_ACK 90 8"
      and w = "seg_world (sample_seg SEG_FLAG_ACK 90 8)" and ll_send = quiet_link, OF sample_length(1)]
  by simp

text \<open>
  When the receive window wraps around \<open>2 ^ 32\<close>, the test is inverted for segments
  without text: those in the window are dropped and those outside are accepted.
\<close>

theorem wrapped_window_inverted:
  assumes "tcp_segment_length w seg = Some 0" "rcv_wnd t \<noteq> 0"
    and "2 ^ 32 \<le> unat (rcv_nxt t) + unat (rcv_wnd t)"
  shows "process_received_seq ll_send t seg w =
    (if in_window (rcv_nxt t) (rcv_wnd t) (sg_seq seg) then reject ll_send t seg w else Some (True, t, w))"
  by (rule process_received_seq_wrapped [OF assms])

theorem wrapped_window_inverted_witness:
  "process_received_seq quiet_link ((sample_conn ESTABLISHED)\<lparr>rcv_nxt := 0xFFFFFF00\<rparr>)
      (sample_seg SEG_FLAG_ACK 5000 8) (seg_world (sample_seg SEG_FLAG_ACK 5000 8)) =
    (if in_window 0xFFFFFF00 1500 5000 then reject quiet_link ((sample_conn ESTABLISHED)\<lparr>rcv_nxt := 0xFFFFFF00\<rparr>)
        (sample_seg SEG_FLAG_ACK 5000 8) (seg_world (sample_seg SEG_FLAG_ACK 5000 8))
     else Some (True, (sample_conn ESTABLISHED)\<lparr>rcv_nxt := 0xFFFFFF00\<rparr>, seg_world (sample_seg SEG_FLAG_ACK 5000 8)))"
  using wrapped_window_inverted [where t = "(sample_conn ESTABLISHED)\<lparr>rcv_nxt := 0xFFFFFF00\<rparr>"
      and seg = "sample_seg SEG_FLAG_ACK 5000 8" and w = "seg_world (sample_seg SEG_FLAG_ACK 5000 8)"
      and ll_send = quiet_link, OF sample_length(1)]
  by simp

text \<open>
  C4.  The three-way handshake between two hosts, from frame to frame.  \<^verbatim>\<open>tcp_open\<close> on the
  client gives its driver one frame, the SYN, and no other.  If that frame reaches a host that
  listens on the port, \<^verbatim>\<open>ether_ll_recv\<close> there sends the SYN+ACK and nothing else; if this
  one reaches the client, the client frees its SYN, sends the ACK and nothing else, and is
  \<^verbatim>\<open>ESTABLISHED\<close>; and when the ACK reaches the server, it is \<^verbatim>\<open>ESTABLISHED\<close> too.  The
  history \<open>wire\<close> of each host shows each frame once, if the driver reports success, and three
  times, if it reports failure each time (\<open>one_frame\<close>).  Each end
  knows address and port of the other, expects the number the other sends next, and has
  nothing in flight; no other object of the memory was touched but the frame buffers.
\<close>

theorem three_way_handshake:
  fixes wA wB :: "('tm, 'w) linkw_scheme" and port dport dp :: u16 and d :: ip_addr and b :: u32 and E :: "'tm ext"
    and nA nB :: addr and own :: "addr option" and local' :: ip_addr
  assumes f: "ip_find_netif E own local wA = Some (Some nA, local')"
    and free: "\<forall>p \<in> set (tcp_list wA). \<exists>c. tcbs wA p = Some c \<and> \<not> (localhost c = nA \<and> t_port c = ucast port)"
  defines "v \<equiv> store_self own local' wA" and "a \<equiv> sys_tick_s wA" and "tA \<equiv> new_tcb E nA (ucast port) (Some d) dport"
    and "tB \<equiv> listening E nB (ucast dport) dp b"
  assumes A: "host E v nA ipA ethA dvA" "ident v < 2147483646" "wf_heap v" and d: "wf_addr d" "link_addr v d macA"
    and a: "unat a + 1501 < 2 ^ 32"
    and B: "host E wB nB ipB ethB dvB" "ident wB \<noteq> 2147483647" "wf_heap wB" "link_addr wB (heard (ip_self ipA)) macB"
    and q: "only_conn wB nB dport q tB" and b': "b \<noteq> 0xFFFFFFFF"
  defines "syn \<equiv> ctrl_eth_frame v tA ipA dvA macA a 0 SEG_FLAG_SYN"
    and "syn_ack \<equiv> ctrl_eth_frame wB (tB\<lparr>t_dest_port := port, t_dest := heard (ip_self ipA)\<rparr>) ipB dvB macB b (a + 1)
      (SEG_FLAG_SYN OR SEG_FLAG_ACK)"
    and "ack \<equiv> ctrl_eth_frame (v\<lparr>ident := ident v + 1\<rparr>) tA ipA dvA macA (a + 1) (b + 1) SEG_FLAG_ACK"
  shows "one_frame (\<lambda>drv. tcp_open E (ip_ether_send E drv) own local (ucast port) (Some d) dport wA) wA (e_interface dvA) syn
    (\<lambda>(p, _, wA1). p = Some (brk wA) \<and> untouched v {} wA1 \<and>
      (\<forall>rcv pool call frame fb pad. arrives wB (e_interface dvB) rcv frame fb (syn @ pad) \<longrightarrow>
        one_frame (\<lambda>drv. ether_ll_recv E drv rcv pool call ethB frame wB) wB (e_interface dvB) syn_ack
        (\<lambda>(_, _, wB1). untouched wB {fb} wB1 \<and>
          (\<forall>rcv pool call frame fb pad. arrives wA1 (e_interface dvA) rcv frame fb (syn_ack @ pad) \<and> fb < brk wA \<longrightarrow>
            one_frame (\<lambda>drv. ether_ll_recv E drv rcv pool call ethA frame wA1) wA1 (e_interface dvA) ack
            (\<lambda>(_, _, wA2). untouched v {fb} wA2 \<and> conn_up wA2 (brk wA) d dport (a + 1) (b + 1) \<and>
              (\<forall>drv rcv pool call frame fb pad. arrives wB1 (e_interface dvB) rcv frame fb (ack @ pad) \<longrightarrow>
                (\<exists>frame' wB2. ether_ll_recv E drv rcv pool call ethB frame wB1 = Some (True, frame', wB2) \<and>
                  untouched wB1 {fb} wB2 \<and> conn_up wB2 q (heard (ip_self ipA)) port (b + 1) (a + 1))))))))"
proof -
  let ?s1 = "ctrl_out v tA ipA a 0 SEG_FLAG_SYN" and ?h1 = "tcp_out_hdr v tA ipA 20"
  have idv: "ident v \<noteq> 2147483647" and bv: "brk v = brk wA" using A(2) by (simp_all add: v_def)
  have a1: "a \<noteq> 0xFFFFFFFF" using a by auto
  have free': "\<forall>p \<in> set (tcp_list v). \<exists>c. tcbs v p = Some c \<and> \<not> (localhost c = nA \<and> t_port c = ucast port)"
    using free by (simp add: v_def)
  note O = open_frame [OF f free A(1) [unfolded v_def] idv [unfolded v_def] A(3) [unfolded v_def] d(1) d(2) [unfolded v_def],
      of dport, folded v_def a_def tA_def, folded syn_def]
  have csA: "can_send v tA ipA ethA" by (rule host_can_send [OF A(1)]) (simp_all add: tA_def new_tcb_def d A idv)
  have s1: "carries syn ?h1 ?s1" unfolding syn_def by (rule ctrl_carries [OF csA host_macs [OF A(1) d(2)] ctrl_flags(1)])
  have n: "sg_dest_port ?s1 = dport" "sg_src_port ?s1 = port" by (simp_all add: tA_def new_tcb_def)
  note S = server_answers [OF B(1,2,3) B(4) [folded tcp_out_hdr_src [of v tA ipA 20]] q [unfolded tB_def] s1 ctrl_out_sel(5) n(1),
      unfolded n(2) ctrl_out_sel(3) tcp_out_hdr_src, folded tB_def, folded syn_ack_def]
  obtain h2 s2 where s2: "carries syn_ack h2 s2" "sg_flags s2 = SEG_FLAG_SYN OR SEG_FLAG_ACK" "sg_dest_port s2 = port"
    "sg_ack s2 = a + 1" "sg_seq s2 = b" using S(2) by blast
  show ?thesis
  proof (rule one_frame_mono [OF O], clarify, intro conjI allI impI refl)
    fix wA1 sy
    assume o': "conn_opened v (brk wA) (syn_sent E wA tA a sy) wA1" "sg_raw sy = Some (brk wA + 2)"
        "own_block wA1 (brk wA + 2) (brk wA + 1)"
    show "untouched v {} wA1" using o'(1) by (intro conn_opened_untouched) (simp add: bv)
    note C = client_answers [OF o' [folded bv, unfolded tA_def] free' A(1,2) d a1 s2(1-4), unfolded s2(5), folded tA_def, folded ack_def,
        unfolded bv]
    obtain h3 s3 where s3: "carries ack h3 s3" "sg_flags s3 = SEG_FLAG_ACK" "sg_dest_port s3 = dport"
      "sg_ack s3 = b + 1" "sg_seq s3 = a + 1" using C(2) by blast
    fix rcv pool call frame fb pad
    assume arrB: "arrives wB (e_interface dvB) rcv frame fb (syn @ pad)"
    show "one_frame (\<lambda>drv. ether_ll_recv E drv rcv pool call ethB frame wB) wB (e_interface dvB) syn_ack
        (\<lambda>(_, _, wB1). untouched wB {fb} wB1 \<and>
          (\<forall>rcv pool call frame fb pad. arrives wA1 (e_interface dvA) rcv frame fb (syn_ack @ pad) \<and> fb < brk wA \<longrightarrow>
            one_frame (\<lambda>drv. ether_ll_recv E drv rcv pool call ethA frame wA1) wA1 (e_interface dvA) ack
            (\<lambda>(_, _, wA2). untouched v {fb} wA2 \<and> conn_up wA2 (brk wA) d dport (a + 1) (b + 1) \<and>
              (\<forall>drv rcv pool call frame fb pad. arrives wB1 (e_interface dvB) rcv frame fb (ack @ pad) \<longrightarrow>
                (\<exists>frame' wB2. ether_ll_recv E drv rcv pool call ethB frame wB1 = Some (True, frame', wB2) \<and>
                  untouched wB1 {fb} wB2 \<and> conn_up wB2 q (heard (ip_self ipA)) port (b + 1) (a + 1))))))"
    proof (rule one_frame_mono [OF S(1) [OF arrB]], clarify, intro conjI allI impI, erule frame_over_untouched, elim conjE)
      fix wB1 rcv pool call frame fb pad F
      assume oB: "frame_over wB F q (tB\<lparr>t_dest_port := port, t_dest := heard (ip_self ipA), rcv_nxt := a + 1, rcv_irs := a,
          snd_nxt := b + 1, t_state := SYN_RECEIVED\<rparr>) wB1"
        and arrA: "arrives wA1 (e_interface dvA) rcv frame fb (syn_ack @ pad)" "fb < brk wA"
      note D = server_done [OF q [unfolded tB_def] B(1) oB [unfolded tB_def] b' a s3]
      show "one_frame (\<lambda>drv. ether_ll_recv E drv rcv pool call ethA frame wA1) wA1 (e_interface dvA) ack
            (\<lambda>(_, _, wA2). untouched v {fb} wA2 \<and> conn_up wA2 (brk wA) d dport (a + 1) (b + 1) \<and>
              (\<forall>drv rcv pool call frame fb pad. arrives wB1 (e_interface dvB) rcv frame fb (ack @ pad) \<longrightarrow>
                (\<exists>frame' wB2. ether_ll_recv E drv rcv pool call ethB frame wB1 = Some (True, frame', wB2) \<and>
                  untouched wB1 {fb} wB2 \<and> conn_up wB2 q (heard (ip_self ipA)) port (b + 1) (a + 1))))"
        by (rule one_frame_mono [OF C(1) [OF arrA]]) (auto dest: D)
    qed
  qed
qed

theorem three_way_handshake_witness:
  "\<exists>syn syn_ack ack l wA1 r1 wB1 r2 wA2 r3 wB2.
     tcp_open plain_ext (ip_ether_send plain_ext any_driver) None host_addr (ucast (5000 :: u16)) (Some peer_addr) 80 client_host =
       Some (Some 40, l, wA1) \<and>
     ether_ll_recv plain_ext any_driver (wire_recv (syn @ replicate 10 0)) no_items (\<lambda>f d p n w. None) 2 lan_frame server_host =
       Some (fst r1, snd r1, wB1) \<and>
     ether_ll_recv plain_ext any_driver (wire_recv (syn_ack @ replicate 10 0)) no_items (\<lambda>f d p n w. None) 2 lan_frame wA1 =
       Some (fst r2, snd r2, wA2) \<and>
     ether_ll_recv plain_ext any_driver (wire_recv (ack @ replicate 10 0)) no_items (\<lambda>f d p n w. None) 2
       (lan_frame\<lparr>ef_data := Ptr 38 0\<rparr>) wB1 = Some (True, r3, wB2) \<and>
     conn_up wA2 40 peer_addr 80 (7 + 1) (9 + 1) \<and> conn_up wB2 30 (heard (ip_self host_ip)) 5000 (9 + 1) (7 + 1) \<and>
     wire wA1 = wire client_host @ [(9, syn)] \<and> wire wB1 = wire server_host @ [(9, syn_ack)] \<and> wire wA2 = wire wA1 @ [(9, ack)]"
proof -
  obtain a where a: "ip_find_netif plain_ext None host_addr client_host = Some (Some 1, a)" using client_netif by blast
  have st: "store_self None x w = w" "sys_tick_s client_host = 7" for x :: ip_addr and w :: link_world
    by (simp_all add: store_self_def sys_tick_s_def)
  have len: "length (ctrl_eth_frame w t ip dv mac seq ack fl) = 54"
    if "wf_addr (ip_self ip)" "wf_addr (t_dest t)" "length mac = 6" "length (mac_address dv) = 6"
    for w :: link_world and t ip dv mac seq ack fl
    using that by (simp add: ctrl_eth_frame_def frame_hdr_def hdr_bytes_def tcp_out_hdr_def out_hdr_def tcp_header_def)
  have av: "\<forall>p \<in> set (tcp_list client_host). \<exists>c. tcbs client_host p = Some c \<and> \<not> (localhost c = 1 \<and> t_port c = ucast (5000 :: u16))"
    "wf_addr peer_addr" "unat (sys_tick_s client_host) + 1501 < 2 ^ 32" "ident server_host \<noteq> 2147483647" "(9 :: u32) \<noteq> 0xFFFFFFFF"
    "ident client_host < 2147483646"
    by (simp_all add: st)
  have lk: "link_addr client_host peer_addr [2, 0, 0, 0, 0, 2]" "link_addr server_host (heard (ip_self host_ip)) [2, 0, 0, 0, 0, 1]"
    by (simp_all add: hosts_up(3,4) heard_def)
  note H = three_way_handshake [where own = None, OF a av(1), unfolded st(1), OF hosts_up(1) av(6) hosts_sel(9) av(2) lk(1) av(3)
      hosts_up(2) av(4) hosts_sel(10) lk(2) server_listens av(5),
      unfolded st(2)]
  let ?tA = "new_tcb plain_ext 1 (ucast (5000 :: u16)) (Some peer_addr) 80"
  let ?tB = "(listening plain_ext 1 (ucast (80 :: u16)) 0 9)\<lparr>t_dest_port := 5000, t_dest := heard (ip_self host_ip)\<rparr>"
  let ?syn = "ctrl_eth_frame client_host ?tA host_ip \<lparr>e_interface = 9, mac_address = [2, 0, 0, 0, 0, 1]\<rparr> [2, 0, 0, 0, 0, 2]
      7 0 SEG_FLAG_SYN"
  let ?sa = "ctrl_eth_frame server_host ?tB peer_ip \<lparr>e_interface = 9, mac_address = [2, 0, 0, 0, 0, 2]\<rparr> [2, 0, 0, 0, 0, 1]
      9 (7 + 1) (SEG_FLAG_SYN OR SEG_FLAG_ACK)"
  let ?ack = "ctrl_eth_frame (client_host\<lparr>ident := ident client_host + 1\<rparr>) ?tA host_ip
      \<lparr>e_interface = 9, mac_address = [2, 0, 0, 0, 0, 1]\<rparr> [2, 0, 0, 0, 0, 2] (7 + 1) (9 + 1) SEG_FLAG_ACK"
  have fl: "length ?syn = 54" "length ?sa = 54" "length ?ack = 54"
    by (simp_all add: len new_tcb_def)
  have fo: "ef_data lan_frame = Ptr 39 0" "ef_data_size lan_frame = 80" by (simp_all add: lan_frame_def rx_frame_def)
  have w: "bufs client_host 39 = Some (replicate 80 0)" "39 < brk client_host" "bufs server_host 38 = Some (replicate 80 0)"
    "bufs server_host 39 = Some (replicate 80 0)" "38 < brk server_host"
    by simp_all
  note R = handshake_run [OF H fl fo w(1,2,2) hosts_sel(10) w(3-5), of no_items "\<lambda>f d p n w. None", unfolded hosts_sel(2) ether.simps]
  show ?thesis
    by (rule exI [of _ ?syn], rule exI [of _ ?sa], rule exI [of _ ?ack]) (rule R)
qed

text \<open>
  C16.  In \<^verbatim>\<open>SYN_RECEIVED\<close> an unacceptable acknowledgment is answered with a reset, and yet
  the FIN of the same segment moves the connection to \<^verbatim>\<open>CLOSE_WAIT\<close>.
\<close>

theorem bad_ack_fin_closes:
  fixes w :: "('tm, 'w) linkw_scheme"
  assumes "list_laws E" "rx_segs t = [a]" "segs w a = Some seg" "t_state t = SYN_RECEIVED"
    and "SEG_CTRL_A seg" "\<not> SEG_CTRL_R seg" "tcp_segment_length w seg = Some n"
    and "rcv_wnd t \<noteq> 0" "unat (rcv_nxt t) + unat (rcv_wnd t) < 2 ^ 32" "sg_seq seg = rcv_nxt t"
    and "\<not> sncmp (snd_una t) SN_LE (sg_ack seg) SN_LE (snd_nxt t)"
    and "can_send w t ip e" "driver_ok drv" "ether_up E e w"
    and "malloc_ok w (mallocs w)" "malloc_ok w (Suc (mallocs w))"
  shows "\<exists>w'. tcp_received E (ip_ether_send E drv) t w =
    Some (t\<lparr>rx_segs := [], t_state := (if SEG_CTRL_F seg then CLOSE_WAIT else SYN_RECEIVED)\<rparr>, w') \<and> clean w w'"
  by (rule ether.syn_received_bad_ack_returns) (use assms in auto)

theorem bad_ack_fin_closes_witness:
  fixes w :: link_world
  defines "w \<equiv> ether_world (sample_seg (SEG_FLAG_ACK OR SEG_FLAG_FIN) 101 50)"
  shows "\<exists>w'. tcp_received plain_ext (ip_ether_send plain_ext free_driver) (sample_conn SYN_RECEIVED) w =
    Some ((sample_conn SYN_RECEIVED)\<lparr>rx_segs := [], t_state := CLOSE_WAIT\<rparr>, w') \<and> clean w w'"
proof -
  let ?s = "sample_seg (SEG_FLAG_ACK OR SEG_FLAG_FIN) 101 50"
  have len: "tcp_segment_length (ether_world ?s) ?s = Some 1"
    by (simp add: tcp_segment_length_def seg_ctrl_defs seg_flag_defs)
  show ?thesis
    unfolding w_def
    using bad_ack_fin_closes [OF plain_ext_laws(1) _ _ _ _ _ len, of "sample_conn SYN_RECEIVED" 20 host_ip 2 free_driver]
      sample_ether_send [of "sample_conn SYN_RECEIVED" ?s]
    by (simp add: seg_ctrl_defs seg_flag_defs sncmp_def)
qed

text \<open>
  C17.  A frame with any segment that starts at \<^verbatim>\<open>rcv.nxt\<close>, has an ACK and no RST, a right
  checksum and text of even length, on a connection
  that is \<^verbatim>\<open>ESTABLISHED\<close> with nothing of its own in flight - the state in which the handshake
  leaves both ends - makes \<^verbatim>\<open>ether_ll_recv\<close> read through the null pointer \<^verbatim>\<open>tcp->tx_seg\<close>,
  whatever the text of the segment is and whatever the driver does.
\<close>

theorem established_reads_null:
  fixes w :: "('tm, 'w) linkw_scheme" and dst src pad :: "u8 list" and t :: "'tm tcb"
  assumes "host E w n ip eth dv" and "only_conn w n (sg_dest_port s) q t"
    and "t_state t = ESTABLISHED" "rx_segs t = []" "tx_seg t = None"
    and "rcv_wnd t \<noteq> 0" "unat (rcv_nxt t) + unat (rcv_wnd t) < 2 ^ 32" "sg_seq s = rcv_nxt t"
    and "segment_ok hdr s ps" "SEG_CTRL_A s" "\<not> SEG_CTRL_R s"
    and "arrives w (e_interface dv) rcv frame fb (ip_frame dst src (hdr_bytes hdr @ seg_bytes s @ ps) pad)"
    and "length dst = 6" "length src = 6"
  shows "ether_ll_recv E drv rcv pool call eth frame w = None"
  by (rule established_frame_null [OF assms])

theorem established_reads_null_witness:
  "\<exists>fr. ether_ll_recv plain_ext any_driver (wire_recv fr) no_items (\<lambda>f d p n w. None) 2 lan_frame up_host = None"
proof -
  let ?s = "ctrl_out server_host peer_conn peer_ip 101 8 SEG_FLAG_ACK" and ?h = "tcp_out_hdr server_host peer_conn peer_ip 20"
  let ?pkt = "hdr_bytes ?h @ seg_bytes ?s @ []" and ?mac = "[2, 0, 0, 0, 0, 1 :: u8]" and ?src = "[2, 0, 0, 0, 0, 2 :: u8]"
  have ok: "segment_ok ?h ?s []" by (rule ctrl_segment_ok [OF peer_can_send]) simp
  have "length (ip_frame ?mac ?src ?pkt []) = 54"
    using ok by (simp add: ip_frame_def frame_hdr_def segment_ok_def)
  then have arr: "arrives up_host 9 (wire_recv (ip_frame ?mac ?src ?pkt [] @ replicate 10 0)) lan_frame 39
      (ip_frame ?mac ?src ?pkt [] @ replicate 10 0)"
    by (rule wire_arrives) (simp_all add: up_host_ok lan_frame_def rx_frame_def)
  have pad: "ip_frame ?mac ?src ?pkt [] @ replicate 10 0 = ip_frame ?mac ?src ?pkt (replicate 10 0)" by (simp add: ip_frame_def)
  have q: "only_conn up_host 1 (sg_dest_port ?s) 30 up_conn" using up_host_ok(2) by (simp add: peer_conn_def new_tcb_def)
  show ?thesis
    using established_reads_null [OF up_host_ok(1) q _ _ _ _ _ _ ok, of "wire_recv (ip_frame ?mac ?src ?pkt (replicate 10 0))"
        lan_frame 39 ?mac ?src "replicate 10 0" any_driver no_items "\<lambda>f d p n w. None"] arr [unfolded pad]
    by (auto simp: up_conn_def seg_ctrl_defs seg_flag_defs)
qed

section \<open>TCP: text\<close>

text \<open>
  C18.  Text that continues the stream (a payload in one node, in a segment without SYN and
  without FIN) is queued as one block of its own, with the bytes of that node and no others,
  as many as the receive window takes, so the stream that \<^verbatim>\<open>tcp_recv\<close> reads from is longer by
  exactly these bytes; \<^verbatim>\<open>rcv.nxt\<close> advances by their number.  If a segment is in flight its
  acknowledgment field is set to the new \<^verbatim>\<open>rcv.nxt\<close> and nothing is sent; if none is, the
  driver is given one Ethernet frame and no other (once if it reports success, three times
  if it never does), a segment with ACK, \<^verbatim>\<open>snd.una\<close> and the new \<^verbatim>\<open>rcv.nxt\<close>.  No other object of
  the heap changes.
\<close>

theorem text_is_queued:
  fixes w :: "('tm, 'w) linkw_scheme"
  assumes "list_laws E" "wf_heap w" "malloc_ok w (mallocs w)" "malloc_ok w (Suc (mallocs w))"
    and "sg_seq dat = rcv_nxt t" "text_of w dat ps" "queued_text w (rx_data t) bs uss"
  defines "k \<equiv> min (length ps) (unat (rcv_wnd t))"
  defines "t1 \<equiv> t\<lparr>rx_data := rx_data t @ [Suc (brk w)], rcv_nxt := rcv_nxt t + of_nat k\<rparr>"
  defines "grown \<equiv> \<lambda>w'. queued_text w' (rx_data t1) (bs @ [brk w]) (uss @ [take k ps]) \<and>
    (\<forall>a < brk w. nodes w' a = nodes w a \<and> bufs w' a = bufs w a)"
  shows "(\<forall>s. tx_seg t = Some s \<longrightarrow> (\<exists>w'. tcp_handle_data E ll_send t dat w =
        Some (True, t1\<lparr>tx_seg := Some (s\<lparr>sg_ack := rcv_nxt t1\<rparr>)\<rparr>, w') \<and> grown w' \<and> wire w' = wire w)) \<and>
    (tx_seg t = None \<and> can_send w t ip e \<and> (\<forall>m. malloc_ok w m) \<and> ether_up E e w \<and> eths w e = Some dv \<and>
        link_addr w (t_dest t) mac \<longrightarrow>
      (let fr = ctrl_eth_frame w t ip dv mac (snd_una t) (rcv_nxt t1) SEG_FLAG_ACK in
        (accepts drv (e_interface dv) fr \<longrightarrow> (\<exists>w'. tcp_handle_data E (ip_ether_send E drv) t dat w = Some (True, t1, w') \<and>
          grown w' \<and> frame_given drv (e_interface dv) fr w w')) \<and>
        (rejects drv (e_interface dv) fr \<longrightarrow> tcp_handle_data E (ip_ether_send E drv) t dat w = None)))"
proof (intro conjI allI impI)
  fix s assume tx: "tx_seg t = Some s"
  show "\<exists>w'. tcp_handle_data E ll_send t dat w = Some (True, t1\<lparr>tx_seg := Some (s\<lparr>sg_ack := rcv_nxt t1\<rparr>)\<rparr>, w') \<and>
      grown w' \<and> wire w' = wire w"
    using data_queued_when_sending [OF assms(2-4,1,5,6) refl assms(7) tx, of ll_send]
    by (simp add: t1_def grown_def k_def)
next
  assume "tx_seg t = None \<and> can_send w t ip e \<and> (\<forall>m. malloc_ok w m) \<and> ether_up E e w \<and> eths w e = Some dv \<and>
    link_addr w (t_dest t) mac"
  then have n: "can_send w t ip e" "\<And>m. malloc_ok w m" "ether_up E e w" "eths w e = Some dv" "link_addr w (t_dest t) mac"
    "tx_seg t = None" by simp_all
  note D = data_queued_and_acked [OF n(1,2) assms(1) n(3-5) assms(5,6) refl assms(7) n(6), of drv, folded k_def]
  show "let fr = ctrl_eth_frame w t ip dv mac (snd_una t) (rcv_nxt t1) SEG_FLAG_ACK in
      (accepts drv (e_interface dv) fr \<longrightarrow> (\<exists>w'. tcp_handle_data E (ip_ether_send E drv) t dat w = Some (True, t1, w') \<and>
        grown w' \<and> frame_given drv (e_interface dv) fr w w')) \<and>
      (rejects drv (e_interface dv) fr \<longrightarrow> tcp_handle_data E (ip_ether_send E drv) t dat w = None)"
    using D by (simp add: Let_def t1_def grown_def)
qed

definition text_world :: sample_world where
  "text_world = host_world\<lparr>bufs := [1 \<mapsto> [65, 66, 67, 99]], nodes := [5 \<mapsto> byte_node None 1 3]\<rparr>"

lemma text_world_sel [simp]:
  "bufs text_world = [1 \<mapsto> [65, 66, 67, 99]]" "nodes text_world = [5 \<mapsto> byte_node None 1 3]"
  "brk text_world = 10" "mallocs text_world = 0" "malloc_ok text_world = (\<lambda>_. True)"
  by (simp_all add: text_world_def)

lemma wf_text_world [simp]: "wf_heap text_world"
  by (simp add: wf_heap_def)

definition text_conn :: "(u32 \<times> nat) option tcb" where
  "text_conn = (sample_conn ESTABLISHED)\<lparr>tx_seg := Some (sample_seg SEG_FLAG_ACK 7 101)\<rparr>"

lemma text_conn_sel [simp]:
  "rcv_nxt text_conn = 101" "rcv_wnd text_conn = 1500" "rx_data text_conn = []"
  "tx_seg text_conn = Some (sample_seg SEG_FLAG_ACK 7 101)"
  by (simp_all add: text_conn_def)

definition text_host :: link_world where
  "text_host = (lan_world text_conn)\<lparr>bufs := [1 \<mapsto> [65, 66, 67, 99]], nodes := [5 \<mapsto> byte_node None 1 3]\<rparr>"

lemma text_host_ok:
  "wf_heap text_host" "malloc_ok text_host m" "ether_up plain_ext 2 text_host"
  "can_send text_host (sample_conn ESTABLISHED) host_ip 2" "link_addr text_host peer_addr [2, 0, 0, 0, 0, 2]"
  "eths text_host 2 = Some \<lparr>e_interface = 9, mac_address = [2, 0, 0, 0, 0, 1]\<rparr>" "wire text_host = []"
proof -
  show wf: "wf_heap text_host" by (simp add: text_host_def wf_heap_def)
  show "ether_up plain_ext 2 text_host"
    using lan_up [of text_conn] by (simp add: text_host_def ether_up_def ether_arp_get_ip_def list_match_eth_def)
  show "link_addr text_host peer_addr [2, 0, 0, 0, 0, 2]"
    by (simp add: text_host_def link_addr_def ip_addr_broadcast_def arp_hit_def au32_def of_be32_def)
  show "can_send text_host (sample_conn ESTABLISHED) host_ip 2"
    using wf by (simp add: can_send_def text_host_def)
qed (simp_all add: text_host_def)

theorem text_is_queued_witness:
  fixes dat :: tcp_segment
  defines "dat \<equiv> (sample_seg SEG_FLAG_ACK 101 8)\<lparr>sg_payload := Some 5\<rparr>"
  shows "(\<exists>w'. tcp_handle_data plain_ext (\<lambda>e dg w. Some (1, w)) text_conn dat text_host = Some (True, text_conn\<lparr>rx_data := [41],
        rcv_nxt := 104, tx_seg := Some ((sample_seg SEG_FLAG_ACK 7 101)\<lparr>sg_ack := 104\<rparr>)\<rparr>, w') \<and>
      queued_text w' [41] [40] [[65, 66, 67]] \<and> wire w' = []) \<and>
    (\<exists>w' fr. tcp_handle_data plain_ext (ip_ether_send plain_ext any_driver) (sample_conn ESTABLISHED) dat text_host =
        Some (True, (sample_conn ESTABLISHED)\<lparr>rx_data := [41], rcv_nxt := 104\<rparr>, w') \<and>
      queued_text w' [41] [40] [[65, 66, 67]] \<and> wire w' = [(9, fr)])"
proof -
  have b: "brk text_host = 40" by (simp add: text_host_def)
  have pay: "text_of text_host dat [65, 66, 67]"
    by (simp add: dat_def text_of_def text_host_def block.simps(2) node_bytes_def mem_read_def seg_ctrl_defs seg_flag_defs)
  have seq: "sg_seq dat = rcv_nxt text_conn" "sg_seq dat = rcv_nxt (sample_conn ESTABLISHED)" by (simp_all add: dat_def)
  have q: "queued_text text_host (rx_data text_conn) [] []" "queued_text text_host (rx_data (sample_conn ESTABLISHED)) [] []"
    by simp_all
  show ?thesis
    using text_is_queued [OF plain_ext_laws(1) text_host_ok(1,2,2) seq(1) pay q(1),
        of "\<lambda>e dg w. Some (1, w)" host_ip 2 "\<lparr>e_interface = 9, mac_address = [2, 0, 0, 0, 0, 1]\<rparr>" "[2, 0, 0, 0, 0, 2]" any_driver]
      text_is_queued [OF plain_ext_laws(1) text_host_ok(1,2,2) seq(2) pay q(2),
        of "\<lambda>e dg w. Some (1, w)" host_ip 2 "\<lparr>e_interface = 9, mac_address = [2, 0, 0, 0, 0, 1]\<rparr>" "[2, 0, 0, 0, 0, 2]" any_driver]
      text_host_ok
    by (auto simp: b Let_def)
qed

text \<open>
  C20.  The FIN of a segment counts in its length, and so the code delivers one byte more
  than the segment carries: the byte that lies behind its text in the packet buffer.
\<close>

theorem fin_delivers_extra_byte:
  assumes "wf_heap w" "malloc_ok w (mallocs w)" "malloc_ok w (Suc (mallocs w))"
    and "sg_seq dat = rcv_nxt t" "SEG_CTRL_F dat" "\<not> SEG_CTRL_S dat" "length ps < unat (rcv_wnd t)"
    and "sg_payload dat = Some m" "nodes w m = Some d" "\<not> d_more d" "d_vsize d = 0" "d_size d = length ps"
    and "mem_read w (d_data d) (length ps + 1) = Some (ps @ [x])"
    and "tx_seg t = Some s"
  shows "\<exists>t' w'. tcp_handle_data E ll_send t dat w = Some (True, t', w') \<and>
    rx_data t' = list_enqueue E (Suc (brk w)) (rx_data t) \<and>
    block_bytes w' [Suc (brk w)] = Some (ps @ [x]) \<and> rcv_nxt t' = sg_seq dat + of_nat (length ps) + 1"
proof -
  let ?n = "length ps + 1"
  have len: "tcp_segment_length w dat = Some ?n"
    using assms(5,6,8-12) by (simp add: tcp_segment_length_def dblk_size_node node_size_def)
  have n: "?n \<le> unat (rcv_wnd t)" using assms(7) by simp
  have nn: "?n < 65536" "length (ps @ [x]) = ?n" using n unat_u16_less [of "rcv_wnd t"] by (linarith, simp)
  let ?t = "t\<lparr>rx_data := list_enqueue E (Suc (brk w)) (rx_data t), rcv_nxt := rcv_nxt t + of_nat ?n,
    tx_seg := Some (s\<lparr>sg_ack := rcv_nxt t + of_nat ?n\<rparr>)\<rparr>"
  have pos: "0 < ?n" by simp
  have "rx_data ?t = list_enqueue E (Suc (brk w)) (rx_data t)"
    "rcv_nxt ?t = sg_seq dat + of_nat (length ps) + 1"
    by (simp_all add: assms(4))
  then show ?thesis
    using handle_data_text [OF assms(1-4) len pos n assms(8,9,13,14), of E ll_send] fresh_text_block(2) [OF nn]
    by blast
qed

theorem fin_delivers_extra_byte_witness:
  fixes dat :: tcp_segment
  defines "dat \<equiv> (sample_seg (SEG_FLAG_ACK OR SEG_FLAG_FIN) 101 8)\<lparr>sg_payload := Some 5\<rparr>"
  shows "\<exists>t' w'. tcp_handle_data plain_ext quiet_link text_conn dat text_world = Some (True, t', w') \<and>
    rx_data t' = list_enqueue plain_ext (Suc (brk text_world)) (rx_data text_conn) \<and>
    block_bytes w' [Suc (brk text_world)] = Some ([65, 66, 67] @ [99]) \<and>
    rcv_nxt t' = sg_seq dat + of_nat (length [65 :: u8, 66, 67]) + 1"
  unfolding dat_def
  by (rule fin_delivers_extra_byte [where m = 5 and d = "byte_node None 1 3"])
     (simp_all add: seg_ctrl_defs seg_flag_defs mem_read_def)

text \<open>
  C19.  \<^verbatim>\<open>tcp_recv\<close> on an established connection and the stream: the unread bytes of the
  blocks that are queued, one behind the other.  The call returns, for any number of
  blocks, with the smaller of the number asked for and the bytes there are; exactly that
  many bytes leave the stream at its front, no other connection changes, and no memory but
  that of the caller and of the queue is written.  What the caller finds in its memory are
  those bytes if they lie in one block.  If they do not, the pieces are all stored at the
  same place, one over the other, because the pointer is not moved on.
\<close>

theorem tcp_recv_stream:
  fixes w :: "('tm, 'w) tcpw_scheme"
  assumes E: "list_laws E" and t: "tcbs w p = Some t" "t_state t = ESTABLISHED"
    and q: "queued_text w (rx_data t) bs uss" "c \<notin> set bs" "bufs w c = Some cs" "j + n \<le> length cs"
  shows "\<exists>t' w' bs'. tcp_recv E p (Ptr c j) n w = Some (min n (length (concat uss)), w') \<and>
    tcbs w' = (tcbs w)(p \<mapsto> t') \<and> t' = t\<lparr>rx_data := rx_data t'\<rparr> \<and>
    queued_text w' (rx_data t') bs' (recv_rest n uss) \<and> concat (recv_rest n uss) = drop n (concat uss) \<and>
    bufs w' c = Some (stored j (recv_chunks n uss) cs) \<and>
    (length (recv_chunks n uss) \<le> 1 \<longrightarrow> bufs w' c = Some (splice_at cs j (take n (concat uss)))) \<and>
    (\<forall>x. x \<notin> set (rx_data t) \<longrightarrow> nodes w' x = nodes w x) \<and> (\<forall>x. x \<noteq> c \<longrightarrow> x \<notin> set bs \<longrightarrow> bufs w' x = bufs w x)"
  using tcp_recv_run [OF assms] stored_one [of n uss j cs] concat_rest [of n uss] by metis

text \<open>Two blocks, of three bytes and of two, and a read of four into six bytes at zero.\<close>

definition stream_conn :: "(u32 \<times> nat) option tcb" where
  "stream_conn = text_conn\<lparr>rx_data := [5, 6]\<rparr>"

definition stream_world :: sample_world where
  "stream_world = text_world\<lparr>tcbs := [20 \<mapsto> stream_conn], bufs := [1 \<mapsto> [65, 66, 67], 2 \<mapsto> [68, 69], 3 \<mapsto> replicate 6 0],
     nodes := [5 \<mapsto> (byte_node None 1 3)\<lparr>d_node_malloc := True, d_data_malloc := True\<rparr>,
       6 \<mapsto> (byte_node None 2 2)\<lparr>d_node_malloc := True, d_data_malloc := True\<rparr>]\<rparr>"

theorem tcp_recv_stream_witness:
  "\<exists>t' w' bs'. tcp_recv plain_ext 20 (Ptr 3 0) 4 stream_world = Some (4, w') \<and>
    tcbs w' = (tcbs stream_world)(20 \<mapsto> t') \<and> queued_text w' (rx_data t') bs' [[69]] \<and>
    bufs w' 3 = Some [68, 66, 67, 0, 0, 0]"
proof -
  have q: "queued_text stream_world (rx_data stream_conn) [1, 2] [[65, 66, 67], [68, 69]]"
    by (simp add: stream_world_def stream_conn_def unread_def)
  have "\<exists>t' w' bs'. tcp_recv plain_ext 20 (Ptr 3 0) 4 stream_world = Some (min 4 (length (concat [[65, 66, 67], [68, 69 :: u8]])), w') \<and>
      tcbs w' = (tcbs stream_world)(20 \<mapsto> t') \<and> queued_text w' (rx_data t') bs' (recv_rest 4 [[65, 66, 67], [68, 69]]) \<and>
      bufs w' 3 = Some (stored 0 (recv_chunks 4 [[65, 66, 67], [68, 69]]) (replicate 6 0))"
    using tcp_recv_stream [OF plain_ext_laws(1) _ _ q, of 20 3 "replicate 6 0" 0 4]
    by (simp add: stream_world_def stream_conn_def text_conn_def del: recv_rest.simps recv_chunks.simps) blast
  then show ?thesis by (simp add: stored_def splice_at_def eval_nat_numeral)
qed

section \<open>IP\<close>

text \<open>
  C21.  \<^verbatim>\<open>ip_header_pack\<close> for a header without options writes its 20 bytes, adds 20 to the
  total length and stores the checksum with which a receiver's sum over the header is
  zero.
\<close>

theorem ip_header_packed:
  assumes "plain_hdr hdr" "20 \<le> len" "bufs h b = Some bs" "i + 20 \<le> length bs"
  shows "ip_header_pack hdr (Ptr b i) len h =
      Some (20, sealed_hdr hdr, set_buf b (splice_at bs i (hdr_bytes (sealed_hdr hdr))) h) \<and>
    h_total_length (sealed_hdr hdr) = h_total_length hdr + 20 \<and>
    inet_csum (hdr_bytes (sealed_hdr hdr)) = 0"
  using ip_header_pack_ok [OF assms] sealed_hdr_verifies [OF assms(1)] by simp

definition sample_hdr :: ip_header where
  "sample_hdr = zero_header\<lparr>h_version := 4, h_src := host_addr, h_dest := peer_addr, h_ident := 77\<rparr>"

lemma plain_sample_hdr [simp]: "plain_hdr sample_hdr"
  by (simp add: plain_hdr_def sample_hdr_def zero_header_def)

theorem ip_header_packed_witness:
  "ip_header_pack sample_hdr (Ptr 1 0) 32 pack_heap =
      Some (20, sealed_hdr sample_hdr, set_buf 1 (splice_at (replicate 32 0) 0 (hdr_bytes (sealed_hdr sample_hdr))) pack_heap) \<and>
    h_total_length (sealed_hdr sample_hdr) = h_total_length sample_hdr + 20 \<and>
    inet_csum (hdr_bytes (sealed_hdr sample_hdr)) = 0"
  by (rule ip_header_packed [OF plain_sample_hdr]) simp_all

text \<open>
  C22.  From a packed header \<^verbatim>\<open>ip_header_unpack\<close> reads back version, header length (5 words), type of
  service, total length, time to live, protocol, checksum and the two addresses.  The
  identification is not recovered: it becomes the word of the flags and the fragment offset;
  flags and fragment offset, like the network masks, keep the values the datagram object had
  before.  The checksum is not verified.
\<close>

theorem ip_header_read_back:
  assumes "plain_hdr hdr" "get_node h (dg_raw dg) = Some d" "20 \<le> d_size d"
    and "mem_read h (d_data d) 20 = Some (hdr_bytes hdr)"
  shows "\<exists>r. ip_header_unpack dg h = Some (True, dg\<lparr>dg_header := r\<rparr>) \<and>
    h_version r = h_version hdr \<and> h_ihl r = 5 \<and> h_tos r = h_tos hdr \<and> h_total_length r = h_total_length hdr \<and>
    h_ttl r = h_ttl hdr \<and> h_protocol r = h_protocol hdr \<and> h_checksum r = h_checksum hdr \<and>
    ip_v4 (h_src r) = ip_v4 (h_src hdr) \<and> ip_v4 (h_dest r) = ip_v4 (h_dest hdr) \<and>
    h_ident r = push_bit 13 (h_flags hdr) OR h_fragoff hdr \<and>
    h_flags r = h_flags (dg_header dg) \<and> h_fragoff r = h_fragoff (dg_header dg) \<and>
    ip_mask (h_src r) = ip_mask (h_src (dg_header dg)) \<and> ip_mask (h_dest r) = ip_mask (h_dest (dg_header dg))"
proof -
  have "read_back dg hdr (d_size d) = dg\<lparr>dg_header := dg_header (read_back dg hdr (d_size d))\<rparr>"
    by (simp add: read_back_def)
  then have "ip_header_unpack dg h = Some (True, dg\<lparr>dg_header := dg_header (read_back dg hdr (d_size d))\<rparr>)"
    using ip_header_unpack_packed [OF assms] by simp
  then show ?thesis using assms(1) by (intro exI conjI) (assumption | simp add: read_back_def plain_hdr_def)+
qed

theorem ip_header_read_back_witness:
  fixes h :: heap and dg :: ip_datagram
  defines "h \<equiv> two_nodes\<lparr>bufs := [1 \<mapsto> hdr_bytes sample_hdr], nodes := [5 \<mapsto> byte_node None 1 20]\<rparr>"
    and "dg \<equiv> sample_dg\<lparr>dg_raw := Some 5\<rparr>"
  shows "\<exists>r. ip_header_unpack dg h = Some (True, dg\<lparr>dg_header := r\<rparr>) \<and>
    h_total_length r = h_total_length sample_hdr \<and> ip_v4 (h_src r) = ip_v4 (h_src sample_hdr) \<and>
    h_ident r = push_bit 13 (h_flags sample_hdr) OR h_fragoff sample_hdr \<and> h_flags r = h_flags (dg_header dg)"
  unfolding h_def dg_def
  using ip_header_read_back [OF plain_sample_hdr, of "two_nodes\<lparr>bufs := [1 \<mapsto> hdr_bytes sample_hdr],
      nodes := [5 \<mapsto> byte_node None 1 20]\<rparr>" "sample_dg\<lparr>dg_raw := Some 5\<rparr>" "byte_node None 1 20"]
  by (auto simp: mem_read_def sample_dg_def)

text \<open>
  A datagram whose payload is a block of less than 1400 bytes goes to the link layer
  as one packet: a block that consists of a header node and the nodes of the payload,
  with the bytes of the sealed header followed by those of the payload.
\<close>

theorem small_datagram_sent_whole:
  assumes "wf_heap h" "block h (dg_payload dg) as q" "block_bytes h as = Some bs" "length bs < 1400"
    and "link_ready ip (dg_header dg)" "ip_ll ip = Some e" "ident h \<noteq> 2147483647"
  defines "hdr \<equiv> sealed_hdr (out_hdr ip (ident h + 1) (length bs) (dg_header dg))"
  defines "g0 \<equiv> packet_heap (dg_payload dg) hdr h"
  shows "ip_hl_send ll_send ip dg h = do {
      (r, g) \<leftarrow> ll_send e (dg\<lparr>dg_raw := Some (Suc (brk h)), dg_header := hdr\<rparr>) g0;
      g \<leftarrow> pop_node (Some (Suc (brk h))) g;
      g \<leftarrow> pop_buf (Ptr (brk h) 0) g;
      Some (r, g) } \<and>
    block g0 (Some (Suc (brk h))) (Suc (brk h) # as) q \<and>
    block_bytes g0 (Suc (brk h) # as) = Some (hdr_bytes hdr @ bs)"
proof -
  have "plain_hdr hdr" using plain_out_hdr [OF assms(5)] by (simp add: hdr_def)
  then show ?thesis
    using ip_hl_send_small_eq [OF dblk_size_bytes [OF assms(2,3)] assms(4-7)]
      packet_heap_block [OF assms(1,2)] packet_heap_bytes [OF assms(1-3)]
    by (simp add: hdr_def g0_def)
qed

theorem small_datagram_sent_whole_witness:
  fixes dg :: ip_datagram and hdr :: ip_header and g0 :: sample_world
  defines "dg \<equiv> \<lparr>dg_header = sample_hdr, dg_payload = Some 5, dg_raw = None\<rparr>"
  defines "hdr \<equiv> sealed_hdr (out_hdr host_ip (ident text_world + 1) (length [65 :: u8, 66, 67]) (dg_header dg))"
  defines "g0 \<equiv> packet_heap (dg_payload dg) hdr text_world"
  shows "block g0 (Some (Suc (brk text_world))) [Suc (brk text_world), 5] None \<and>
    block_bytes g0 [Suc (brk text_world), 5] = Some (hdr_bytes hdr @ [65, 66, 67])"
proof -
  have a: "block text_world (dg_payload dg) [5] None" "block_bytes text_world [5] = Some [65, 66, 67]"
    by (simp_all add: dg_def block.simps(2) node_bytes_def mem_read_def)
  have b: "length [65 :: u8, 66, 67] < 1400" "link_ready host_ip (dg_header dg)" "ip_ll host_ip = Some 2"
    "ident text_world \<noteq> 2147483647"
    by (simp_all add: dg_def link_ready_def sample_hdr_def zero_header_def text_world_def)
  show ?thesis
    unfolding g0_def hdr_def
    using small_datagram_sent_whole [OF wf_text_world a b, of quiet_link] by blast
qed

text \<open>
  From one fragment of 1400 bytes to the next the fragment offset grows by 177 units of
  eight bytes, although 1400 bytes are 175 of them: the code counts the header.
\<close>

theorem fragment_offset_counts_header:
  "h_fragoff (frag_advance (sealed_hdr (frag_hdr hdr 1400 mf))) = (h_fragoff hdr + 177) AND 0x1FFF"
  by (rule frag_advance_offset)

section \<open>Data blocks\<close>

text \<open>
  \<^verbatim>\<open>dblk_fragment\<close> cuts a plain node into a list of fragments.  It returns a chain of
  \<open>frag_count\<close> heap nodes, each a block of its own, and copying the \<open>j\<close>-th out of it gives
  the \<open>j\<close>-th stretch of \<open>f\<close> bytes of the original; in order they are all of its bytes.
\<close>

theorem fragments_partition:
  assumes "wf_heap h" "nodes h a = Some d" "d_next d = None" "\<not> d_more d" "d_vsize d = 0"
    and "0 < d_size d" "d_size d < 65536" "0 < f" "f < 65536"
    and "\<And>m. m < frag_count (d_size d) f \<Longrightarrow> malloc_ok h (mallocs h + m)"
    and "mem_read h (d_data d) (d_size d) = Some bs" "ptr_buf (d_data d) \<noteq> None"
    and "j < frag_count (d_size d) f" "bufs h b = Some dst" "i + f \<le> length dst"
  defines "k \<equiv> frag_count (d_size d) f"
  defines "H \<equiv> frag_heap h k (frag_of (d_data d) (d_size d) f (brk h) k)"
  shows "dblk_fragment (Some a) f h = Some (Some (brk h), H) \<and>
    dblk_copy_to (Some (brk h + j)) (Ptr b i) (min f (d_size d - j * f)) H =
      Some (min f (d_size d - j * f), set_buf b (splice_at dst i (take f (drop (j * f) bs))) H) \<and>
    concat (map (\<lambda>j. take f (drop (j * f) bs)) [0..<k]) = bs"
proof -
  have kf: "(k - 1) * f < d_size d" "d_size d \<le> k * f"
    using frag_count_bounds [OF assms(6,8)] by (simp_all add: k_def)
  have "j * f \<le> (k - 1) * f" using assms(13) by (intro mult_le_mono1) (simp add: k_def)
  then have "j * f < d_size d" using kf(1) by (rule le_less_trans)
  then have n: "0 < d_size d - j * f" by (rule zero_less_diff [THEN iffD2])
  have i: "i + min f (d_size d - j * f) \<le> length dst" using assms(15) by simp
  have "length bs \<le> k * f" using mem_read_length [OF assms(11)] kf(2) by simp
  then show ?thesis
    using dblk_fragment_node [OF assms(1-10)] concat_fragments [OF assms(8), of bs k]
      frag_of_copy_to [OF assms(13) n assms(8) assms(11,12,14) i]
    by (simp add: H_def k_def)
qed

theorem fragments_partition_witness:
  defines "H \<equiv> frag_heap two_nodes 3 (frag_of (Ptr 3 0) 6 2 10 3)"
  shows "dblk_fragment (Some 7) 2 two_nodes = Some (Some 10, H) \<and>
    concat (map (\<lambda>j. take 2 (drop (j * 2) [0, 0, 0, 0, 0, 0 :: u8])) [0..<3]) = [0, 0, 0, 0, 0, 0]"
  unfolding H_def
  using fragments_partition [of two_nodes 7 "byte_node None 3 6" 2 "[0, 0, 0, 0, 0, 0]" 1 4 "[21, 22, 23, 24, 25, 26]" 0]
  by (simp add: mem_read_def frag_count_def)

text \<open>
  \<^verbatim>\<open>dblk_copy_to\<close> copies the bytes of a block, over all its nodes, up to the given
  number, returns how many there were and changes nothing else.
\<close>

theorem copy_to_gets_block:
  assumes "block h p as q" "block_bytes h as = Some bs" "b \<notin> data_bufs h as"
    and "bufs h b = Some dst" "i + min n (length bs) \<le> length dst"
    and "length bs \<le> n \<or> (\<forall>a \<in> set as. d_vsize (the (nodes h a)) = 0)"
  shows "dblk_copy_to p (Ptr b i) n h =
    Some (min n (length bs), set_buf b (splice_at dst i (take n bs)) h)"
  by (rule dblk_copy_to_block [OF assms])

theorem copy_to_gets_block_witness:
  "dblk_copy_to (Some 5) (Ptr 3 0) 6 two_nodes = Some (min 6 (length [11, 12, 13, 14 :: u8]),
    set_buf 3 (splice_at [0, 0, 0, 0, 0, 0] 0 (take 6 [11, 12, 13, 14])) two_nodes)"
  by (rule copy_to_gets_block [OF two_nodes_block(1) two_nodes_bytes(1)]) (simp_all del: block_bytes.simps)

text \<open>
  \<^verbatim>\<open>dblk_copy\<close> makes a fresh heap node that owns a fresh buffer with all the bytes of
  the block; the original is untouched.  When the memory runs out it returns null and
  has freed what it took.
\<close>

theorem copy_is_fresh:
  assumes "wf_heap h" "block h p as q" "block_bytes h as = Some bs" "length bs < 65536"
  shows "if malloc_ok h (mallocs h) \<and> malloc_ok h (Suc (mallocs h))
    then dblk_copy p h = Some (Some (Suc (brk h)), set_buf (brk h) bs (fresh_blk (length bs) h)) \<and>
      block_bytes (set_buf (brk h) bs (fresh_blk (length bs) h)) [Suc (brk h)] = Some bs
    else \<exists>h'. dblk_copy p h = Some (None, h') \<and> bufs h' = bufs h \<and> nodes h' = nodes h"
proof (cases "malloc_ok h (mallocs h) \<and> malloc_ok h (Suc (mallocs h))")
  case True
  then show ?thesis
    using dblk_copy_block [OF assms] fresh_copy_bytes [OF assms(4)] by simp
next
  case False
  then show ?thesis
    using dblk_node_new_with_buff_fail [OF assms(1), of "length bs"] dblk_size_bytes [OF assms(2,3)]
    by (auto simp: dblk_copy_def copy_with_size_def)
qed

theorem copy_is_fresh_witness:
  fixes bs :: "u8 list" and h' :: heap
  defines "bs \<equiv> [11, 12, 13, 14]"
  defines "h' \<equiv> set_buf (brk two_nodes) bs (fresh_blk (length bs) two_nodes)"
  shows "dblk_copy (Some 5) two_nodes = Some (Some (Suc (brk two_nodes)), h') \<and>
    block_bytes h' [Suc (brk two_nodes)] = Some bs"
proof -
  have "length [11, 12, 13, 14 :: u8] < 65536" by simp
  from copy_is_fresh [OF wf_two_nodes two_nodes_block(1) two_nodes_bytes(1) this]
  show ?thesis unfolding h'_def bs_def two_nodes_sel(5) by simp
qed

text \<open>
  \<^verbatim>\<open>dblk_copy_from\<close> fills the nodes of a block one after the other: afterwards the
  block carries the given bytes and then what is left of its old ones; no other buffer
  and no node changes.
\<close>

theorem copy_from_fills_block:
  assumes "block h p as q" "block_bytes h as = Some bs" "mem_read h mem n = Some ys"
    and "distinct (map (\<lambda>a. ptr_buf (d_data (the (nodes h a)))) as)"
    and "\<And>a. a \<in> set as \<Longrightarrow> d_data (the (nodes h a)) \<noteq> Null"
    and "\<And>b. ptr_buf mem = Some b \<Longrightarrow> b \<notin> data_bufs h as"
    and "\<And>a. a \<in> set as \<Longrightarrow> d_vsize (the (nodes h a)) = 0"
  shows "\<exists>h'. dblk_copy_from p mem n h = Some (min n (length bs), h') \<and> nodes h' = nodes h \<and>
    (\<forall>b. b \<notin> data_bufs h as \<longrightarrow> bufs h' b = bufs h b) \<and>
    block_bytes h' as = Some (take (length bs) ys @ drop n bs)"
  by (rule dblk_copy_from_block [OF assms])

theorem copy_from_fills_block_witness:
  "\<exists>h'. dblk_copy_from (Some 5) (Ptr 4 0) 2 two_nodes = Some (min 2 (length [11, 12, 13, 14 :: u8]), h') \<and>
    nodes h' = nodes two_nodes \<and>
    (\<forall>b. b \<notin> data_bufs two_nodes [5, 6] \<longrightarrow> bufs h' b = bufs two_nodes b) \<and>
    block_bytes h' [5, 6] = Some (take (length [11, 12, 13, 14 :: u8]) [21, 22] @ drop 2 [11, 12, 13, 14])"
  by (rule copy_from_fills_block [OF two_nodes_block(1) two_nodes_bytes(1)])
     (auto simp: mem_read_def split: if_splits)

text \<open>
  C23.  \<^verbatim>\<open>dblk_delete\<close> frees exactly the nodes of a block that came from the heap and the
  buffers that its nodes own, returns the next block, and returns at all.
\<close>

theorem delete_frees_block:
  assumes "block h p as q" "deletable h as"
  shows "\<exists>h'. dblk_delete p h = Some (q, h') \<and>
    nodes h' = (\<lambda>x. if x \<in> set as \<and> freed_node h x then None else nodes h x) \<and>
    bufs h' = (\<lambda>b. if Some b \<in> owned_buf h ` set as then None else bufs h b)"
  by (rule dblk_delete_block [OF assms])

theorem delete_frees_block_witness:
  fixes h :: heap
  defines "h \<equiv> set_node 6 ((byte_node None 2 1)\<lparr>d_node_malloc := True, d_data_malloc := True\<rparr>) two_nodes"
  shows "\<exists>h'. dblk_delete (Some 5) h = Some (None, h') \<and>
    nodes h' = (\<lambda>x. if x \<in> set [5, 6] \<and> freed_node h x then None else nodes h x) \<and>
    bufs h' = (\<lambda>b. if Some b \<in> owned_buf h ` set [5, 6] then None else bufs h b)"
  unfolding h_def by (rule delete_frees_block) (simp_all add: block.simps(2) owned_buf_def)

text \<open>
  \<^verbatim>\<open>dblk_merge\<close> appends a node to a block: the block then has the node as its last one,
  its bytes are the old ones followed by those of the node, and the list goes on as before.
\<close>

theorem merge_appends:
  assumes "block h p as q" "distinct as" "m \<notin> set as" "nodes h m = Some dm" "\<not> d_more dm"
    and "block_bytes h as = Some xs" "node_bytes h m = Some ys"
  shows "\<exists>h'. dblk_merge p (Some m) h = Some h' \<and> block h' p (as @ [m]) q \<and>
    block_bytes h' (as @ [m]) = Some (xs @ ys) \<and> bufs h' = bufs h"
  by (rule dblk_merge_appends [OF assms])

theorem merge_appends_witness:
  "\<exists>h'. dblk_merge (Some 5) (Some 7) two_nodes = Some h' \<and> block h' (Some 5) ([5, 6] @ [7]) None \<and>
    block_bytes h' ([5, 6] @ [7]) = Some ([11, 12, 13, 14] @ [0, 0, 0, 0, 0, 0]) \<and> bufs h' = bufs two_nodes"
  by (rule merge_appends [where dm = "byte_node None 3 6", OF two_nodes_block(1) _ _ _ _ two_nodes_bytes(1)])
     (simp_all add: node_bytes_def mem_read_def)

text \<open>
  C24.  Over two nodes \<^verbatim>\<open>dblk_read\<close> stores the bytes of the second node over those of the
  first, and the number it returns is not bounded by the size it was given.
\<close>

theorem read_over_two_nodes:
  assumes "nodes h a = Some d" "d_more d" "d_next d = Some c" "d_offset d = 0"
    and "0 < d_size d" "d_size d < n" "n < 2 ^ 32" "mem_read h (d_data d) (d_size d) = Some xs"
    and "nodes h c = Some e" "\<not> d_more e" "d_offset e = 0" "0 < d_size e" "d_size e < 65536"
    and "mem_read h (d_data e) (d_size e) = Some ys" "c \<noteq> a" "d_size d < 65536"
    and "ptr_buf (d_data e) \<noteq> Some b" "bufs h b = Some dst" "i + n \<le> length dst"
  shows "dblk_read (Some a) (Ptr b i) n h =
    Some (d_size d + min n (d_size e),
      set_node c (e\<lparr>d_offset := min n (d_size e)\<rparr>)
       (set_node a (d\<lparr>d_offset := d_size d\<rparr>)
        (set_buf b (splice_at (splice_at dst i xs) i (take n ys)) h)))"
  by (rule read_loop_two [OF assms])

theorem read_over_two_nodes_witness:
  "dblk_read (Some 5) (Ptr 3 0) 4 two_nodes =
    Some (d_size (byte_node (Some 6) 1 3) + min 4 (d_size (byte_node None 2 1)),
      set_node 6 ((byte_node None 2 1)\<lparr>d_offset := min 4 (d_size (byte_node None 2 1))\<rparr>)
       (set_node 5 ((byte_node (Some 6) 1 3)\<lparr>d_offset := d_size (byte_node (Some 6) 1 3)\<rparr>)
        (set_buf 3 (splice_at (splice_at [0, 0, 0, 0, 0, 0] 0 [11, 12, 13]) 0 (take 4 [14])) two_nodes)))"
  by (rule read_over_two_nodes) (simp_all add: mem_read_def)

section \<open>Checksums and fields\<close>

text \<open>
  C25.  On a buffer of even length \<^verbatim>\<open>checksum\<close> computes the Internet checksum of RFC 1071: the
  complement of the one's complement sum of its 16-bit words.
\<close>

theorem checksum_is_rfc1071:
  assumes "mem_read h p n = Some bs" "even n" "n \<le> 65536"
  shows "checksum p n h = Some (inet_csum bs)"
  by (rule checksum_even [OF assms])

theorem checksum_is_rfc1071_witness:
  "checksum (Ptr 3 0) 6 two_nodes = Some (inet_csum [0, 0, 0, 0, 0, 0])"
  by (rule checksum_is_rfc1071) (simp_all add: mem_read_def)

text \<open>
  On a buffer of odd length it reads the byte behind the buffer, which C gives no
  meaning.
\<close>

theorem odd_checksum_overreads:
  assumes "odd n" "bufs h b = Some bs" "length bs = i + n"
  shows "checksum (Ptr b i) n h = None"
  by (rule checksum_odd_overread [OF assms])

theorem odd_checksum_overreads_witness: "checksum (Ptr 1 0) 3 two_nodes = None"
  by (rule odd_checksum_overreads [where bs = "[11, 12, 13]"]) simp_all

text \<open>
  The big-endian accessors are inverse to each other: what \<^verbatim>\<open>bw32\<close> stores \<^verbatim>\<open>br32\<close> reads
  back, and storing what was read changes nothing.
\<close>

theorem br32_bw32:
  "(bw32 v p h = Some (q, h') \<longrightarrow> br32 h' p = Some v \<and> q = padd p 4) \<and>
   (br32 h p = Some v \<longrightarrow> bw32 v p h = Some (padd p 4, h))"
  using be32.got_put [of v p h q h'] be32.put_got [of h p v] by blast

theorem br32_bw32_witness:
  "br32 (set_buf 3 [0, 0, 0, 1, 0, 0] two_nodes) (Ptr 3 0) = Some 1"
proof -
  have "bw32 1 (Ptr 3 0) two_nodes = Some (Ptr 3 4, set_buf 3 [0, 0, 0, 1, 0, 0] two_nodes)"
    by (simp add: bw32_write mem_simps be32_def splice_at_def)
  then show ?thesis using br32_bw32 by blast
qed

section \<open>UDP, ICMP, ARP, Ethernet and the interfaces\<close>

text \<open>
  \<^verbatim>\<open>udp_unpack\<close> accepts a datagram in one buffer if and only if its checksum is right,
  and returns its fields; but the payload gets the length the header claims, whatever
  the datagram really has.
\<close>

theorem udp_unpack_trusts_length:
  assumes "nodes h a = Some d" "d_data d = Ptr b i" "d_size d = 8 + length ps" "even (length ps)"
      "length ps < 65528"
    and "bufs h b = Some bs" "i + (8 + length ps) \<le> length bs"
      "take (8 + length ps) (drop i bs) = udp_hdr s t len c @ ps"
    and "ph_ready ph x h" "b \<noteq> x"
    and "ud_raw dg = Some a" "ud_payload dg = Some m" "nodes h m = Some e" "m \<noteq> a"
  shows "\<exists>h'. udp_unpack dg ph h = Some (c = udp_csum ph s t len ps,
      dg\<lparr>ud_src_port := s, ud_dest_port := t, ud_length := len, ud_checksum := c\<rparr>, h') \<and>
    nodes h' = (nodes h)(m \<mapsto> e\<lparr>d_data := Ptr b (i + 8), d_size := u16_of (size_sub (unat len) 8)\<rparr>) \<and>
    bufs h' = (bufs h)(b \<mapsto> splice_at bs (i + 6) [0, 0],
      x \<mapsto> ph_bytes (ph_src ph) (ph_dest ph) (ph_protocol ph) len)"
  by (rule udp_unpack_node [OF assms])

definition udp_heap :: heap where
  "udp_heap = two_nodes\<lparr>bufs := [1 \<mapsto> udp_hdr 53 99 500 1, 2 \<mapsto> replicate 12 0],
     nodes := [5 \<mapsto> byte_node None 1 8, 6 \<mapsto> byte_node None 3 0]\<rparr>"

definition udp_dg :: udp_datagram where
  "udp_dg = \<lparr>ud_src_port = 0, ud_dest_port = 0, ud_length = 0, ud_checksum = 0,
     ud_payload = Some 6, ud_raw = Some 5\<rparr>"

lemma udp_sample_sel [simp]:
  "bufs udp_heap = [1 \<mapsto> udp_hdr 53 99 500 1, 2 \<mapsto> replicate 12 0]"
  "nodes udp_heap = [5 \<mapsto> byte_node None 1 8, 6 \<mapsto> byte_node None 3 0]"
  "ud_payload udp_dg = Some 6" "ud_raw udp_dg = Some 5"
  by (simp_all add: udp_heap_def udp_dg_def)

theorem udp_unpack_trusts_length_witness:
  fixes ph :: pseudo_header
  defines "ph \<equiv> tcp_ph host_ip (sample_conn LISTEN) 2"
  shows "\<exists>h'. udp_unpack udp_dg ph udp_heap = Some (1 = udp_csum ph 53 99 500 [],
      udp_dg\<lparr>ud_src_port := 53, ud_dest_port := 99, ud_length := 500, ud_checksum := 1\<rparr>, h') \<and>
    nodes h' = (nodes udp_heap)(6 \<mapsto> (byte_node None 3 0)\<lparr>d_data := Ptr 1 (0 + 8),
      d_size := u16_of (size_sub (unat (500 :: u16)) 8)\<rparr>) \<and>
    bufs h' = (bufs udp_heap)(1 \<mapsto> splice_at (udp_hdr 53 99 500 1) (0 + 6) [0, 0],
      2 \<mapsto> ph_bytes (ph_src ph) (ph_dest ph) (ph_protocol ph) 500)"
  unfolding ph_def
  by (rule udp_unpack_trusts_length [where a = 5 and d = "byte_node None 1 8"])
     (simp_all add: ph_ready_def tcp_ph_def)

text \<open>
  However ports are bound, no two entries of the table have the same interface and
  port: \<^verbatim>\<open>udp_bind\<close> keeps the table free of duplicates, for any pool that hands out entries
  which are not in use.
\<close>

theorem udp_ports_stay_unique:
  assumes "list_laws E" "ports_unique w"
    and "\<And>p w'. alloc w = (p, w') \<Longrightarrow> udps w' = udps w \<and> udp_list w' = udp_list w \<and>
      (\<forall>q. p = Some q \<longrightarrow> q \<notin> set (udp_list w))"
    and "udp_bind E alloc ip port cbk cbkd w = Some (res, w')"
  shows "ports_unique w'"
  by (rule udp_bind_unique [OF assms])

theorem udp_ports_stay_unique_witness:
  fixes w :: sample_world
  defines "w \<equiv> host_world\<lparr>udps := [50 \<mapsto> \<lparr>u_low_level = 1, u_port = 68, u_cb_data = 0, u_callback = None\<rparr>], udp_list := [50]\<rparr>"
  shows "ports_unique host_world \<and> ports_unique w"
proof -
  have u: "ports_unique host_world" by (simp add: ports_unique_def)
  have b: "udp_bind plain_ext (\<lambda>w. (Some 50, w)) 1 68 None 0 host_world = Some (Some 50, w)"
    by (simp add: udp_bind_def find_udp_by_addr_def plain_ext_def w_def)
  show ?thesis using udp_ports_stay_unique [OF plain_ext_laws(1) u _ b] u by simp
qed

text \<open>
  \<^verbatim>\<open>ip_find_netif\<close> returns the first registered interface on whose network, under the
  netmask of that interface, the address lies (a broadcast address lies on each), and
  none if there is none.
\<close>

theorem netif_by_network:
  assumes "list_laws E" "nifs_ok w" "ip_version a = 4"
  shows "\<exists>a'. ip_find_netif E None a w =
    Some (map_option (\<lambda>n. nif_ip (the (nifs w n))) (find (on_lan w a) (nif_list w)), a')"
  by (rule ip_find_netif_first [OF assms])

theorem netif_by_network_witness:
  "\<exists>a'. ip_find_netif plain_ext None peer_addr host_world =
    Some (map_option (\<lambda>n. nif_ip (the (nifs host_world n))) (find (on_lan host_world peer_addr) (nif_list host_world)), a')"
  by (rule netif_by_network [OF plain_ext_laws(1)]) (simp_all add: nifs_ok_def)

text \<open>
  The answer to an echo request is packed in place: type 0, code 0, the identifier, the
  sequence number and the data of the request, and a checksum with which the sum over
  the whole message is zero.
\<close>

theorem echo_reply_packed:
  assumes "bufs h b = Some bs" "i + (8 + length ps) \<le> length bs"
    and "take (8 + length ps) (drop i bs) = old" "drop 8 old = ps"
    and "even (length ps)" "length ps < 65000"
    and "ic_type ic = ICMP_TYPE_ECHO_REPLY" "ic_data ic = Ptr b i" "ic_data_size ic = 8 + length ps"
      "ic_message ic = Echo x s (Ptr b (i + 8)) (length ps)"
  defines "c \<equiv> echo_csum ICMP_TYPE_ECHO_REPLY x s ps"
  shows "icmp_pack ic h = Some (True, ic\<lparr>ic_code := 0, ic_checksum := c\<rparr>,
      set_buf b (splice_at bs i (echo_bytes ICMP_TYPE_ECHO_REPLY c x s ps)) h) \<and>
    inet_csum (echo_bytes ICMP_TYPE_ECHO_REPLY c x s ps) = 0"
  unfolding c_def using icmp_pack_reply [OF assms(1-10)] echo_csum_verifies by simp

theorem echo_reply_packed_witness:
  fixes ic :: icmp and h :: heap
  defines "ic \<equiv> \<lparr>ic_type = 0, ic_code = 0, ic_checksum = 0, ic_message = Echo 3 4 (Ptr 1 8) 2, ic_data = Ptr 1 0,
      ic_data_size = 10\<rparr>"
    and "h \<equiv> set_buf 1 [8, 0, 0, 0, 0, 3, 0, 4, 65, 66] two_nodes"
  shows "icmp_pack ic h = Some (True, ic\<lparr>ic_code := 0, ic_checksum := echo_csum 0 3 4 [65, 66]\<rparr>,
      set_buf 1 (splice_at [8, 0, 0, 0, 0, 3, 0, 4, 65, 66] 0 (echo_bytes 0 (echo_csum 0 3 4 [65, 66]) 3 4 [65, 66])) h) \<and>
    inet_csum (echo_bytes 0 (echo_csum 0 3 4 [65, 66]) 3 4 [65, 66]) = 0"
  unfolding ic_def h_def
  by (rule echo_reply_packed [where old = "[8, 0, 0, 0, 0, 3, 0, 4, 65, 66]"]) simp_all

text \<open>
  C30.  ARP packets survive the wire: what \<^verbatim>\<open>arp_pack\<close> stores for an Ethernet and IPv4 packet
  \<^verbatim>\<open>arp_unpack\<close> reads back, with its address pointers at the four addresses.
\<close>

theorem arp_roundtrip:
  assumes "eth_ip q" "28 \<le> unat (ap_data_size q)" "ap_data q = Ptr b 0"
    and "bufs h b = Some bs" "28 \<le> length bs"
    and "src_apart b (ap_sha q)" "src_apart b (ap_spa q)" "src_apart b (ap_tpa q)" "src_apart b (ap_tha q)"
    and "src_read h (ap_sha q) 6 = Some sha" "src_read h (ap_spa q) 4 = Some spa"
      "src_read h (ap_tha q) 6 = Some tha" "src_read h (ap_tpa q) 4 = Some tpa"
    and "ap_data pkt = Ptr b 0" "28 \<le> unat (ap_data_size pkt)"
  shows "\<exists>q' h' r. arp_pack q h = Some (28, q', h') \<and> arp_unpack pkt h' = Some (True, r) \<and>
    ap_hrd r = ap_hrd q \<and> ap_pro r = ap_pro q \<and> ap_op r = ap_op q \<and> eth_ip r \<and>
    src_read h' (ap_sha r) 6 = Some sha \<and> src_read h' (ap_spa r) 4 = Some spa \<and>
    src_read h' (ap_tha r) 6 = Some tha \<and> src_read h' (ap_tpa r) 4 = Some tpa"
proof -
  let ?xs = "arp_bytes q sha spa tha tpa"
  let ?h = "set_buf b (splice_at bs 0 ?xs) h"
  have len: "length sha = 6" "length spa = 4" "length tha = 6" "length tpa = 4"
    using assms(10-13) by (auto dest: src_read_length)
  then have x: "length ?xs = 28" by (simp add: arp_bytes_def)
  have "mem_read ?h (Ptr b 0) 28 = Some ?xs"
    using take_drop_splice_at [of 0 ?xs bs] x assms(5) by (simp add: mem_simps)
  then have "arp_unpack pkt ?h = Some (True, pkt\<lparr>ap_hrd := ap_hrd q, ap_pro := ap_pro q, ap_hln := 6,
      ap_pln := 4, ap_op := ap_op q, ap_sha := At (padd (Ptr b 0) 8), ap_spa := At (padd (Ptr b 0) 14),
      ap_tha := At (padd (Ptr b 0) 18), ap_tpa := At (padd (Ptr b 0) 24)\<rparr>) \<and>
    mem_read ?h (padd (Ptr b 0) 8) 6 = Some sha \<and> mem_read ?h (padd (Ptr b 0) 14) 4 = Some spa \<and>
    mem_read ?h (padd (Ptr b 0) 18) 6 = Some tha \<and> mem_read ?h (padd (Ptr b 0) 24) 4 = Some tpa"
    by (rule arp_unpack_ok [OF _ assms(1) len assms(14,15)])
  then show ?thesis
    using arp_pack_ok [OF assms(1-4), of sha spa tha tpa] assms(5-13) by (simp add: eth_ip_def)
qed

theorem arp_roundtrip_witness:
  fixes q pkt :: arp_packet
  defines "q \<equiv> \<lparr>ap_hrd = 1, ap_pro = 0x0800, ap_hln = 6, ap_pln = 4, ap_op = 2, ap_sha = Lit [2, 0, 0, 0, 0, 1],
      ap_spa = Lit [10, 0, 0, 1], ap_tha = Lit [2, 0, 0, 0, 0, 2], ap_tpa = Lit [10, 0, 0, 2], ap_data = Ptr 1 0,
      ap_data_size = 32\<rparr>"
    and "pkt \<equiv> \<lparr>ap_hrd = 0, ap_pro = 0, ap_hln = 0, ap_pln = 0, ap_op = 0, ap_sha = At Null, ap_spa = At Null,
      ap_tha = At Null, ap_tpa = At Null, ap_data = Ptr 1 0, ap_data_size = 32\<rparr>"
  shows "\<exists>q' h' r. arp_pack q pack_heap = Some (28, q', h') \<and> arp_unpack pkt h' = Some (True, r) \<and>
    ap_hrd r = ap_hrd q \<and> ap_pro r = ap_pro q \<and> ap_op r = ap_op q \<and> eth_ip r \<and>
    src_read h' (ap_sha r) 6 = Some [2, 0, 0, 0, 0, 1] \<and> src_read h' (ap_spa r) 4 = Some [10, 0, 0, 1] \<and>
    src_read h' (ap_tha r) 6 = Some [2, 0, 0, 0, 0, 2] \<and> src_read h' (ap_tpa r) 4 = Some [10, 0, 0, 2]"
  unfolding q_def pkt_def
  by (rule arp_roundtrip [where b = 1 and bs = "replicate 32 0"]) (simp_all add: eth_ip_def)

text \<open>
  \<^verbatim>\<open>ether_hl_send\<close> gives the driver one frame: the destination, the address of the device,
  the type and the bytes of the whole payload block, and nothing more, so that a short
  payload is not padded to the 64 bytes below which \<^verbatim>\<open>ether_unpack\<close> drops a frame.
\<close>

theorem frame_given_to_driver:
  assumes "driver_ok drv" "bufs h b = Some bs" "14 + length ps \<le> length bs"
    and "length dst = 6" "length (mac_address e) = 6" "ef_dest frame = Lit dst"
    and "ef_data frame = Ptr b 0" "0x05DC \<le> ef_type frame" "14 + length ps \<le> ef_data_size frame"
      "ef_data_size frame < 2 ^ 32"
    and "block h (ef_payload frame) as q" "block_bytes h as = Some ps" "b \<notin> data_bufs h as"
  shows "\<exists>r. ether_hl_send drv e frame h = Some (r,
      frame\<lparr>ef_src := Lit (mac_address e), ef_data_size := length ps + 14\<rparr>,
      set_buf b (splice_at bs 0 (dst @ mac_address e @ be16 (ef_type frame) @ ps)) h)"
  using ether_hl_send_frame [OF driver_ok_answers [OF assms(1)] assms(2-13)] by (auto simp: frame_hdr_def)

theorem frame_given_to_driver_witness:
  fixes fr :: ether_frame and e :: ether
  defines "fr \<equiv> \<lparr>ef_dest = Lit broadcast_mac, ef_src = At Null, ef_payload = Some 5, ef_type = ETHER_TYPE_IP,
      ef_crc = 0, ef_data = Ptr 9 0, ef_data_size = 64\<rparr>"
    and "e \<equiv> \<lparr>e_interface = 9, mac_address = [2, 0, 0, 0, 0, 1]\<rparr>"
  shows "\<exists>r. ether_hl_send (\<lambda>i p n w. Some (n, w)) e fr (set_buf 9 (replicate 64 0) two_nodes) = Some (r,
      fr\<lparr>ef_src := Lit (mac_address e), ef_data_size := length [11, 12, 13, 14 :: u8] + 14\<rparr>,
      set_buf 9 (splice_at (replicate 64 0) 0 (broadcast_mac @ mac_address e @ be16 (ef_type fr) @ [11, 12, 13, 14]))
        (set_buf 9 (replicate 64 0) two_nodes))"
  unfolding fr_def e_def
  by (rule frame_given_to_driver [where as = "[5, 6]" and q = None])
     (simp_all add: driver_ok_def broadcast_mac_def frame_simps data_bufs_def del: block_bytes.simps)

section \<open>TCP: the table of connections\<close>

text \<open>
  C31.  A datagram changes at most one connection, and one of the interface it came in on;
  the list of connections, the UDP ports, the interfaces and the clock stay as they are, as
  long as the link layer keeps to its own.
\<close>

theorem segment_isolated:
  assumes "tcp_ip_recv E ll_send ip dg w = Some w'" and "link_frame ll_send" and "list_laws E"
  shows "\<exists>p. tcbs w' = (tcbs w)(p := tcbs w' p) \<and>
    (tcbs w' p \<noteq> tcbs w p \<longrightarrow> p \<in> set (tcp_list w) \<and> (\<exists>t. tcbs w p = Some t \<and> localhost t = ip)) \<and>
    tcp_list w' = tcp_list w \<and> udps w' = udps w \<and> udp_list w' = udp_list w \<and>
    nifs w' = nifs w \<and> nif_list w' = nif_list w \<and> ips w' = ips w \<and> second w' = second w"
  using tcp_ip_recv_isolated [OF assms] by (simp add: same_tables_def)

theorem segment_isolated_witness:
  "\<exists>w' p. tcp_ip_recv plain_ext quiet_link 1 arrival_dg arrival_world = Some w' \<and>
    tcbs w' = (tcbs arrival_world)(p := tcbs w' p) \<and> tcp_list w' = [30, 31]"
proof -
  obtain w' where "tcp_ip_recv plain_ext quiet_link 1 arrival_dg arrival_world = Some w'" using arrival by blast
  from segment_isolated [OF this quiet_link_frame plain_ext_laws(1)]
  obtain p where "tcbs w' = (tcbs arrival_world)(p := tcbs w' p)" "tcp_list w' = tcp_list arrival_world" by blast
  then show ?thesis
    using \<open>tcp_ip_recv plain_ext quiet_link 1 arrival_dg arrival_world = Some w'\<close> arrival_world_sel(4) by metis
qed

text \<open>
  C32.  A passive \<^verbatim>\<open>tcp_open\<close> always returns.  Unless another connection that is not passive
  holds the port, no interface has the address, or there is no memory, it appends a fresh
  connection in \<^verbatim>\<open>LISTEN\<close> that waits on that interface and port, with the clock as its
  initial sequence number; otherwise it returns null and the table is as it was.
\<close>

theorem passive_open:
  fixes w :: "('tm, 'w) tcpw_scheme" and port :: u32
  assumes "list_laws E" and "ip_find_netif E own local w = Some (ip, local')"
    and "\<forall>p \<in> set (tcp_list w). tcbs w p \<noteq> None"
  shows "\<exists>res w'. tcp_open E ll_send own local port None dport w = Some (res, local', w') \<and>
    (if ip = None \<or> \<not> malloc_ok w (mallocs w) \<or> (\<exists>p \<in> set (tcp_list w). \<exists>t. tcbs w p = Some t \<and>
        Some (localhost t) = ip \<and> t_port t = port \<and> \<not> t_passive t)
     then res = None \<and> tcbs w' = tcbs w \<and> tcp_list w' = tcp_list w
     else res = Some (brk w) \<and> tcp_list w' = tcp_list w @ [brk w] \<and>
       tcbs w' = (tcbs w)(brk w \<mapsto> (new_tcb E (the ip) port None dport)\<lparr>snd_una := sys_tick_s w,
         snd_nxt := sys_tick_s w, snd_iss := sys_tick_s w, time_wait_seconds := 120, t_state := LISTEN\<rparr>))"
proof -
  obtain w' where "tcp_open E ll_send own local port None dport w = Some (if (\<exists>p \<in> set (tcp_list w). \<exists>t.
      tcbs w p = Some t \<and> Some (localhost t) = ip \<and> t_port t = port \<and> \<not> t_passive t) \<or> ip = None \<or>
      \<not> malloc_ok w (mallocs w) then None else Some (brk w), local', w') \<and>
    (if (\<exists>p \<in> set (tcp_list w). \<exists>t. tcbs w p = Some t \<and> Some (localhost t) = ip \<and> t_port t = port \<and> \<not> t_passive t) \<or>
      ip = None \<or> \<not> malloc_ok w (mallocs w) then tcbs w' = tcbs w \<and> tcp_list w' = tcp_list w
     else tcbs w' = (tcbs w)(brk w \<mapsto> listening E (the ip) port dport (sys_tick_s w)) \<and>
       tcp_list w' = tcp_list w @ [brk w])"
    using tcp_open_passive_result [OF assms(1,2), where port = port and ll_send = ll_send and dport = dport] assms(3) by blast
  then show ?thesis by (auto simp: listening_def split: if_splits)
qed

theorem passive_open_witness:
  "\<exists>res w' a. tcp_open plain_ext quiet_link None host_addr 80 None 0 host_world = Some (res, a, w') \<and>
    res = Some 10 \<and> tcp_list w' = [10] \<and> map_option t_state (tcbs w' 10) = Some LISTEN"
proof -
  obtain a where "ip_find_netif plain_ext None host_addr host_world = Some (Some 1, a)"
    using ip_find_netif_first [OF plain_ext_laws(1), of host_world host_addr]
    by (auto simp: nifs_ok_def on_lan_def ip_addr_same_lan_def)
  from passive_open [OF plain_ext_laws(1) this, of quiet_link 80 0] show ?thesis by force
qed

text \<open>
  C33.  \<^verbatim>\<open>TIME_WAIT\<close> ends: while no other connection has anything to retransmit, a pass of
  \<^verbatim>\<open>tcp_loop\<close> \<open>k\<close> heartbeats later returns, and the connection is gone if and only if its
  period is over by then.
\<close>

theorem time_wait_ends:
  assumes "list_laws E" and "timer_laws E" and "clock_ok w" and "distinct (tcp_list w)"
    and "p \<in> set (tcp_list w)" and "tcbs w p = Some t" and "t_state t = TIME_WAIT"
    and "tmr t = timer_start E (sys_tick_s w) n x" and "n < 2 ^ 32" and "k < 2 ^ 32"
    and "\<forall>q \<in> set (tcp_list w). \<exists>t. tcbs w q = Some t \<and> quiet E (sys_tick_s w + of_nat k) t"
  shows "\<exists>w'. tcp_loop E ll_send ((dts_net_sys_heartbeat ^^ k) w) = Some w' \<and>
    (p \<in> set (tcp_list w') \<longleftrightarrow> k < n) \<and> (tcbs w' p = None \<longleftrightarrow> n \<le> k)"
proof -
  let ?w = "(dts_net_sys_heartbeat ^^ k) w"
  have now: "sys_tick_s ?w = sys_tick_s w + of_nat k"
    using heartbeats_clock [OF assms(3)] assms(3)
    by (simp add: DTS_NET_SYS_HEARTBEAT_FREQ_def clock_ok_def sys_tick_s_def)
  have "timer_expired E (sys_tick_s ?w) (tmr t) = (n \<le> k)"
    using assms(2,8,9,10) by (simp add: timer_laws_def now unat_of_nat take_bit_nat_eq_self)
  then have r: "reaped E (sys_tick_s ?w) t = (n \<le> k)" using assms(7) by (simp add: reaped_def)
  have "\<exists>t. tcbs ?w q = Some t \<and> quiet E (sys_tick_s ?w) t" if "q \<in> set (tcp_list ?w)" for q
    using that assms(11) by (simp add: heartbeats_conns now)
  then obtain w' where "tcp_loop E ll_send ?w = Some w'"
    "tcp_list w' = filter (\<lambda>p. \<not> reaped E (sys_tick_s ?w) (the (tcbs ?w p))) (tcp_list ?w)"
    "\<forall>p \<in> set (tcp_list ?w). map_option t_state (tcbs w' p) =
      (if reaped E (sys_tick_s ?w) (the (tcbs ?w p)) then None else map_option t_state (tcbs ?w p))"
    using tcp_loop_quiet [OF assms(1), of ?w ll_send] assms(4) by (auto simp: heartbeats_conns)
  then show ?thesis
    using assms(5,6) r by (intro exI [of _ w']) (auto simp: heartbeats_conns split: if_splits)
qed

theorem time_wait_ends_witness:
  fixes w :: sample_world
  defines "w \<equiv> host_world\<lparr>tcbs := [30 \<mapsto> (sample_conn TIME_WAIT)\<lparr>tmr := Some (7, 120)\<rparr>,
    31 \<mapsto> sample_conn LISTEN], tcp_list := [30, 31]\<rparr>"
  shows "\<exists>w'. tcp_loop plain_ext quiet_link ((dts_net_sys_heartbeat ^^ 120) w) = Some w' \<and>
    30 \<notin> set (tcp_list w') \<and> tcbs w' 30 = None"
proof -
  have w: "tcbs w = [30 \<mapsto> (sample_conn TIME_WAIT)\<lparr>tmr := Some (7, 120)\<rparr>, 31 \<mapsto> sample_conn LISTEN]"
    "tcp_list w = [30, 31]" "second w = 7" "clock_ok w"
    by (simp_all add: w_def clock_ok_def DTS_NET_SYS_HEARTBEAT_FREQ_def host_world_def)
  have "\<exists>w'. tcp_loop plain_ext quiet_link ((dts_net_sys_heartbeat ^^ 120) w) = Some w' \<and>
    (30 \<in> set (tcp_list w') \<longleftrightarrow> 120 < (120 :: nat)) \<and> (tcbs w' 30 = None \<longleftrightarrow> (120 :: nat) \<le> 120)"
    by (rule time_wait_ends [OF plain_ext_laws w(4), where x = None and t = "(sample_conn TIME_WAIT)\<lparr>tmr := Some (7, 120)\<rparr>"])
       (simp_all add: w sys_tick_s_def plain_ext_def quiet_def)
  then show ?thesis by simp
qed
section \<open>Memory pools\<close>

text \<open>
  C34.  Both static pools, the array and the free list, do over any sequence of requests and
  returns what the abstract pool does, the set of the items in use: for a client that
  returns only what it has, a request fails if and only if all items of the pool are in
  use, each item handed out is one of the pool's and was not in use, and afterwards exactly
  the items that were in use or handed out and not returned are in use.
\<close>

theorem pools_refine:
  assumes "arr_ok p" and "list_ok E q"
  shows "(\<exists>rs p'. pool_exec arr_alloc (\<lambda>a p. Some (arr_free a p)) ops p = Some (rs, p') \<and>
      (returns_own (arr_live p) ops rs \<longrightarrow>
        pool_spec (set (ap_items p)) (arr_live p) ops rs (arr_live p') \<and> arr_ok p')) \<and>
    (\<exists>rs q'. pool_exec (list_alloc E) (\<lambda>a p. Some (list_free E a p)) ops q = Some (rs, q') \<and>
      (returns_own (list_live q) ops rs \<longrightarrow>
        pool_spec (set (lp_items q)) (list_live q) ops rs (list_live q') \<and> list_ok E q'))"
proof (intro conjI)
  obtain rs p' where "pool_exec arr_alloc (\<lambda>a p. Some (arr_free a p)) ops p = Some (rs, p')"
    using pool_exec_total [where free = "\<lambda>a p. Some (arr_free a p)" and alloc = arr_alloc] by blast
  then show "\<exists>rs p'. pool_exec arr_alloc (\<lambda>a p. Some (arr_free a p)) ops p = Some (rs, p') \<and>
      (returns_own (arr_live p) ops rs \<longrightarrow>
        pool_spec (set (ap_items p)) (arr_live p) ops rs (arr_live p') \<and> arr_ok p')"
    using arr.exec_refines [OF assms(1)] by blast
  obtain rs q' where "pool_exec (list_alloc E) (\<lambda>a p. Some (list_free E a p)) ops q = Some (rs, q')"
    using pool_exec_total [where free = "\<lambda>a p. Some (list_free E a p)" and alloc = "list_alloc E"] by blast
  then show "\<exists>rs q'. pool_exec (list_alloc E) (\<lambda>a p. Some (list_free E a p)) ops q = Some (rs, q') \<and>
      (returns_own (list_live q) ops rs \<longrightarrow>
        pool_spec (set (lp_items q)) (list_live q) ops rs (list_live q') \<and> list_ok E q')"
    using free_list.exec_refines [OF assms(2)] by blast
qed

theorem pools_refine_witness:
  "\<exists>rs p'. pool_exec arr_alloc (\<lambda>a p. Some (arr_free a p)) [Alloc, Alloc, Alloc, Free 3, Alloc] (arr_init [3, 4]) =
      Some (rs, p') \<and> rs = [Some 3, Some 4, None, None, Some 3] \<and> pool_spec {3, 4} {} [Alloc, Alloc, Alloc, Free 3, Alloc] rs {3, 4}"
proof -
  have i: "arr_ok (arr_init [3, 4])" "list_ok plain_ext (list_init plain_ext [3, 4])"
    using arr_init_ok [of "[3, 4]"] list_init_ok [OF plain_ext_laws(1), of "[3, 4]"] by simp_all
  show ?thesis
    using pools_refine [OF i, of "[Alloc, Alloc, Alloc, Free 3, Alloc]", THEN conjunct1]
    by (simp add: arr_alloc_def arr_free_def arr_init_def arr_live_def)
qed

text \<open>
  C35.  With the array pool behind it, the table of UDP ports is a set of pairs of interface
  and port that has room for as many as the pool has items: \<^verbatim>\<open>udp_bind\<close> always returns, inserts
  a pair that is not in the set while there is room, and otherwise returns null and leaves
  the set as it was.
\<close>

theorem udp_bind_inserts:
  assumes "list_laws E" and "port_table_ok w"
  shows "\<exists>res w'. udp_bind E mem_alloc_udp ip port cbk cbkd w = Some (res, w') \<and> port_table_ok w' \<and>
    (res \<noteq> None \<longleftrightarrow> (ip, port) \<notin> bound_ports w \<and> card (bound_ports w) < card (set (ap_items (udp_pool w)))) \<and>
    bound_ports w' = (if res = None then bound_ports w else insert (ip, port) (bound_ports w)) \<and>
    set (ap_items (udp_pool w')) = set (ap_items (udp_pool w))"
  by (rule udp_bind_set [OF assms])

definition port_world :: poolw where
  "port_world = \<lparr>bufs = Map.empty, nodes = Map.empty, brk = 10, mallocs = 0, malloc_ok = \<lambda>_. True,
     junk = \<lambda>_ _. 0, wire = [], tick = 7, second = 7, ident = 0, ips = [1 \<mapsto> host_ip], auto_header = zero_header,
     nifs = [3 \<mapsto> \<lparr>nif_ip = 1, nif_eth = 2\<rparr>], nif_list = [3], udps = Map.empty, udp_list = [],
     udp_pool = arr_init [50]\<rparr>"

theorem udp_bind_inserts_witness:
  "\<exists>res w'. udp_bind plain_ext mem_alloc_udp 1 68 None 0 port_world = Some (res, w') \<and>
    res \<noteq> None \<and> bound_ports w' = {(1, 68)}"
proof -
  have "port_table_ok port_world"
    by (auto simp: port_table_ok_def port_world_def ports_unique_def arr_init_ok)
  from udp_bind_inserts [OF plain_ext_laws(1) this, of 1 68 None 0] show ?thesis
    by (auto simp: bound_ports_def port_world_def arr_init_def)
qed

section \<open>Addresses as text\<close>

text \<open>
  \<^verbatim>\<open>inet_addr\<close> on an address in dotted decimal notation gives the 32-bit number whose
  bytes, from the top, are the four numbers, and \<^verbatim>\<open>htonl\<close> stored by the processor puts the
  bytes of its argument into memory from the top.
\<close>

theorem inet_addr_reads_dotted:
  "inet_addr (Str (dotted a b c d)) = Some (of_be32 [a, b, c, d]) \<and>
   lw32 (htonl (of_be32 [a, b, c, d])) p h = map_option (Pair (padd p 4)) (mem_write p [a, b, c, d] h)"
  by (simp add: inet_addr_dotted lw32_htonl bw32_write be32_of_be32)

section \<open>Sockets\<close>

text \<open>
  A datagram goes from the callback of a UDP socket through its queue to the next
  \<^verbatim>\<open>recvfrom\<close>: the caller's buffer gets its bytes, the call returns their number, and the
  memory the queue used is free again.
\<close>

theorem udp_socket_delivers:
  fixes w :: "('tm, 'w) sockw_scheme"
  assumes "list_laws E" and "get_sock fd w = Some sk" "IS_UDP_SOCK sk" "rx_queue sk = []" and "wf_heap w"
    and "malloc_ok w (mallocs w)" "malloc_ok w (Suc (mallocs w))"
    and "mem_read w p n = Some ps" "0 < n" "n < 65536"
    and "bufs w b = Some bs" "i + n \<le> length bs" "n < len"
  shows "\<exists>w1 w2. udp_recv E fd p n w = Some w1 \<and>
    sock_recvfrom E fd (Ptr b i) len MSG_DONTWAIT w1 = Some (int n, w2) \<and>
    bufs w2 = (bufs w)(b \<mapsto> splice_at bs i ps) \<and> nodes w2 = nodes w \<and> socks w2 = socks w"
  by (rule udp_socket_datagram [OF assms])

theorem udp_socket_delivers_witness:
  fixes w :: dhcp_world
  defines "w \<equiv> (client_world INIT None None 2)\<lparr>bufs := [50 \<mapsto> [1, 2, 3], 52 \<mapsto> [0, 0, 0, 0, 0]], nodes := Map.empty\<rparr>"
  shows "\<exists>w1 w2. udp_recv plain_ext 102 (Ptr 50 0) 3 w = Some w1 \<and>
    sock_recvfrom plain_ext 102 (Ptr 52 1) 4 MSG_DONTWAIT w1 = Some (3, w2) \<and>
    bufs w2 = [50 \<mapsto> [1, 2, 3], 52 \<mapsto> [0, 1, 2, 3, 0]]"
proof -
  have w: "bufs w = [50 \<mapsto> [1, 2, 3], 52 \<mapsto> [0, 0, 0, 0, 0]]" "wf_heap w" "malloc_ok w = (\<lambda>_. True)"
    "get_sock 102 w = Some (udp_sock [])"
    by (auto simp: w_def wf_heap_def client_world_def get_sock_def to_socket_def)
  have "\<exists>w1 w2. udp_recv plain_ext 102 (Ptr 50 0) 3 w = Some w1 \<and>
    sock_recvfrom plain_ext 102 (Ptr 52 1) 4 MSG_DONTWAIT w1 = Some (int 3, w2) \<and>
    bufs w2 = (bufs w)(52 \<mapsto> splice_at [0, 0, 0, 0, 0] 1 [1, 2, 3]) \<and> nodes w2 = nodes w \<and> socks w2 = socks w"
    by (rule udp_socket_delivers [OF plain_ext_laws(1) w(4)]) (simp_all add: w mem_read_def)
  then show ?thesis by (auto simp: w splice_at_def)
qed

section \<open>DHCP\<close>

text \<open>
  C36.  What \<^verbatim>\<open>dhcp_message_pack\<close> stores \<^verbatim>\<open>dhcp_message_unpack\<close> reads back, all fields and the
  options, except the seconds and the flags: these come back as 0, since they are converted
  as if they had 32 bits.
\<close>

theorem dhcp_message_roundtrip:
  assumes "wf_msg m" "m_raw_data m = Ptr b i" "bufs h b = Some bs"
    and "236 + m_option_size m \<le> m_raw_data_size m" "m_raw_data_size m < 2 ^ 32"
    and "i + (236 + m_option_size m) \<le> length bs"
    and "mem_read h (m_option m) (m_option_size m) = Some opts" "ptr_buf (m_option m) \<noteq> Some b"
    and "5 \<le> m_option_size m"
  shows "\<exists>m' h'. dhcp_message_pack m h = Some (True, m', h') \<and>
    dhcp_message_unpack m' h' = Some (True, m\<lparr>m_secs := 0, m_flags := 0, m_option := Ptr b (i + 236),
      m_raw_data_size := 236 + m_option_size m\<rparr>) \<and>
    mem_read h' (Ptr b (i + 236)) (m_option_size m) = Some opts"
proof -
  let ?m = "m\<lparr>m_raw_data_size := 236 + m_option_size m\<rparr>" and ?h = "set_buf b (splice_at bs i (dhcp_bytes m @ opts)) h"
  have p: "dhcp_message_pack m h = Some (True, ?m, ?h)" by (rule dhcp_pack_writes [OF assms(1-8)])
  have l: "length opts = m_option_size m" by (rule mem_read_length [OF assms(7)])
  have r: "mem_read ?h (m_raw_data ?m) (m_raw_data_size ?m) = Some (dhcp_bytes m @ opts)"
    using assms(1,2,6) l take_drop_splice_at [of i "dhcp_bytes m @ opts" bs] by (simp add: mem_read_def)
  have u: "dhcp_message_unpack ?m ?h = Some (True, dhcp_read_back m ?m)"
    by (rule dhcp_unpack_reads [OF assms(1) r]) (use assms(9) in simp)
  have "dhcp_read_back m ?m = m\<lparr>m_secs := 0, m_flags := 0, m_option := Ptr b (i + 236),
      m_raw_data_size := 236 + m_option_size m\<rparr>"
    using assms(2) by (simp add: dhcp_read_back_def)
  moreover have "mem_read ?h (Ptr b (i + 236)) (m_option_size m) = Some opts"
    using mem_read_split [of ?h "Ptr b i" 236 "m_option_size m" "dhcp_bytes m @ opts"] r assms(1,2) by simp
  ultimately show ?thesis using p u by metis
qed

definition packing_heap :: heap where
  "packing_heap = two_nodes\<lparr>bufs := [1 \<mapsto> replicate 576 0, 2 \<mapsto> options_bytes (server_opts 5)]\<rparr>"

theorem dhcp_message_roundtrip_witness:
  fixes m :: dhcp_message
  defines "m \<equiv> server_msg\<lparr>m_secs := 9, m_option := Ptr 2 0, m_option_size := 20, m_raw_data := Ptr 1 0, m_raw_data_size := 576\<rparr>"
  shows "\<exists>m' h'. dhcp_message_pack m packing_heap = Some (True, m', h') \<and>
    dhcp_message_unpack m' h' = Some (True, m\<lparr>m_secs := 0, m_flags := 0, m_option := Ptr 1 236, m_raw_data_size := 256\<rparr>)"
proof -
  have l: "length (options_bytes (server_opts 5)) = 20" by (simp add: options_bytes_def server_opts_def)
  have "\<exists>m' h'. dhcp_message_pack m packing_heap = Some (True, m', h') \<and>
    dhcp_message_unpack m' h' = Some (True, m\<lparr>m_secs := 0, m_flags := 0, m_option := Ptr 1 (0 + 236),
      m_raw_data_size := 236 + m_option_size m\<rparr>) \<and>
    mem_read h' (Ptr 1 (0 + 236)) (m_option_size m) = Some (options_bytes (server_opts 5))"
    by (rule dhcp_message_roundtrip [where bs = "replicate 576 0"]) (use l in \<open>simp_all add: m_def packing_heap_def wf_msg_def mem_read_def server_msg_def dhcp_message_init_def\<close>)
  then show ?thesis by (auto simp: m_def)
qed

text \<open>
  C37.  In an option field without padding the searches find the first option with the tag:
  a value of four bytes is read as a number in network order, the message type is the first
  byte of its option, and what is not there is reported as missing.
\<close>

theorem dhcp_options_found:
  assumes "mem_read h (m_option m) (m_option_size m) = Some (options_bytes opts @ behind)"
    and "list_all wf_tlv opts" and "code \<noteq> DHCP_OPT_END"
    and "\<forall>v. tlv_find code opts = Some v \<longrightarrow> length v = 4"
    and "tlv_find DHCP_OPT_DHCP_MSG_TYPE_TAG opts \<noteq> Some []"
  shows "dhcp_option_long m l code h =
      Some (case tlv_find code opts of None \<Rightarrow> (False, l) | Some v \<Rightarrow> (True, of_be32 v)) \<and>
    dhcp_option_message_type m h =
      Some (case tlv_find DHCP_OPT_DHCP_MSG_TYPE_TAG opts of None \<Rightarrow> - 1 | Some v \<Rightarrow> uint (hd v))"
  using dhcp_option_long_value [OF assms(1-3)] dhcp_option_message_type_value [OF assms(1,2)] assms(4,5) by blast

theorem dhcp_options_found_witness:
  fixes m :: dhcp_message
  defines "m \<equiv> server_msg\<lparr>m_option := Ptr 2 0, m_option_size := 20\<rparr>"
  shows "dhcp_option_long m 0 DHCP_OPT_IP_LEASE_TIME_TAG packing_heap = Some (True, of_be32 [0, 0, 14, 16]) \<and>
    dhcp_option_message_type m packing_heap = Some 5"
proof -
  have l: "length (options_bytes (server_opts 5)) = 20" by (simp add: options_bytes_def server_opts_def)
  have "mem_read packing_heap (m_option m) (m_option_size m) = Some (options_bytes (server_opts 5) @ [])"
    using l by (simp add: m_def packing_heap_def mem_read_def)
  from dhcp_options_found [OF this, of DHCP_OPT_IP_LEASE_TIME_TAG 0] show ?thesis
    by (simp add: server_opts_def wf_tlv_def dhcp_opt_defs)
qed

text \<open>
  C38.  An acknowledgement that waits in the socket's queue binds the client, whatever its
  transaction and addresses: a pass of the receiving part of the loop returns, the client is
  \<^verbatim>\<open>BOUND\<close> with the lease of the message, T1 runs for half and T2 for seven eighths of it, and
  the memory of the datagram is free again.  The option field the client remembers is in
  that memory, so that its next request, the renewal, reads memory that was freed.
\<close>

theorem ack_binds_client:
  assumes "list_laws E" and "queued (dhcp_bytes s @ options_bytes opts @ pad) c sk w" and "wf_heap w"
    and "wf_msg s" "list_all wf_tlv opts" "answer_options opts"
    and "c_state (only w) \<in> {REQUESTING, RENEWING, REBINDING}"
    and "m_op s = BOOTREPLY" "reply_of DHCP_MSG_TYPE_ACK opts"
    and "tlv_find DHCP_OPT_IP_LEASE_TIME_TAG opts = Some v"
    and "malloc_ok w (mallocs w)"
  shows "\<exists>w'. dhcp_receive E ll_send call_ip w = Some w' \<and> dhcp_client_completed w' \<and>
    c_state (only w') = BOUND \<and> c_lease (only w') = of_be32 v \<and>
    T1 (only w') = timer_start E (sys_tick_s w) (unat (of_be32 v) div 2) (T1 (only w)) \<and>
    T2 (only w') = timer_start E (sys_tick_s w) (7 * unat (of_be32 v) div 8) (T2 (only w)) \<and>
    bufs w' = (bufs w)(c := None) \<and> nodes w' = (nodes w)(Suc c := None) \<and>
    dhcp_client_send_request E ll_send w' = None"
proof -
  obtain w' msg where r: "dhcp_receive E ll_send call_ip w = Some w'" "dhcp_client_completed w'"
    and o': "only w' = bound_with E (map_option of_be32 (tlv_find DHCP_OPT_IP_LEASE_TIME_TAG opts)) (sys_tick_s w)
      ((only w)\<lparr>c_msg := msg\<rparr>)"
    and m: "m_option msg = Ptr (brk w) 236" and b: "bufs w' = (bufs w)(c := None)" "nodes w' = (nodes w)(Suc c := None)"
    using ack_binds [OF assms(1-9,11)] by blast
  have "bufs w' (brk w) = None" using assms(3) by (auto simp: b wf_heap_def)
  moreover have "m_option (c_msg (only w')) = Ptr (brk w) 236" by (simp add: o' m bound_with_def assms(10))
  ultimately have "dhcp_client_send_request E ll_send w' = None" by (intro request_reads_freed)
  with r o' b show ?thesis by (simp add: bound_with_def assms(10))
qed

definition still_link :: "dhcp_world ll_send" where
  "still_link = (\<lambda>e dg w. Some (1, w))"

definition no_set_ip :: "dhcp_world set_ip_call" where
  "no_set_ip = (\<lambda>f bs w. Some w)"

lemma still_link_frame: "link_frame still_link" "set_ip_frame no_set_ip"
  by (simp_all add: link_frame_def still_link_def set_ip_frame_def no_set_ip_def)

lemmas sample_queued = client_world_ok(4) [unfolded server_bytes_def]

theorem ack_binds_client_witness:
  "\<exists>w'. dhcp_receive plain_ext still_link no_set_ip (client_world REQUESTING None None 5) = Some w' \<and>
    c_state (only w') = BOUND \<and> T1 (only w') = Some (7, 1800) \<and> T2 (only w') = Some (7, 3150) \<and>
    bufs w' = Map.empty \<and> dhcp_client_send_request plain_ext still_link w' = None"
proof -
  have l: "of_be32 [0, 0, 14, 16] = 3600" by (simp add: of_be32_def)
  show ?thesis
    using ack_binds_client [OF plain_ext_laws(1) sample_queued [where st = REQUESTING and ?t1.0 = None and ?t2.0 = None and ty = 5],
        where v = "[0, 0, 14, 16]" and ll_send = still_link and call_ip = no_set_ip] l
    by (force simp: DHCP_MSG_TYPE_ACK_def sys_tick_s_def plain_ext_def)
qed

text \<open>
  C39.  A valid offer has no defined outcome: the request the client sends in answer is built
  in a buffer whose address replaces that of the receive buffer, is freed behind the
  request, and is freed again at the end of the pass.
\<close>

theorem offer_frees_twice:
  assumes "list_laws E" and "queued (dhcp_bytes s @ options_bytes opts @ pad) c sk w" and "wf_heap w"
    and "wf_msg s" "list_all wf_tlv opts" "answer_options opts"
    and "c_state (only w) = SELECTING"
    and "m_op s = BOOTREPLY" "reply_of DHCP_MSG_TYPE_OFFER opts"
    and "tlv_find DHCP_OPT_SERVER_IDENTIFIER_TAG opts \<noteq> None"
    and "malloc_ok w (mallocs w)" "malloc_ok w (Suc (mallocs w))"
    and "link_frame ll_send" and "tx_ready w" and "set_ip_frame call_ip"
  shows "dhcp_receive E ll_send call_ip w = None"
  by (rule offer_freed_twice [OF assms])

theorem offer_frees_twice_witness:
  "dhcp_receive plain_ext still_link no_set_ip (client_world SELECTING None None 2) = None"
  by (rule offer_frees_twice [OF plain_ext_laws(1) sample_queued])
     (simp_all add: DHCP_MSG_TYPE_OFFER_def still_link_frame)

text \<open>
  C40.  A pass of \<^verbatim>\<open>dhcp_loop\<close> leaves a renewing client renewing or bound unless both timers
  have expired: when only T2 has, the loop stops it before the handler asks whether it has
  expired, so the client never turns to \<^verbatim>\<open>REBINDING\<close> on it.
\<close>

theorem renewing_ignores_T2:
  assumes "timer_laws E" and "link_frame ll_send" and "tx_ready w" and "rx_ready w"
    and "c_state (only w) = RENEWING"
    and "\<not> (timer_expired E (sys_tick_s w) (T1 (only w)) \<and> timer_expired E (sys_tick_s w) (T2 (only w)))"
    and "dhcp_loop E ll_send call_ip w = Some w'"
  shows "c_state (only w') \<in> {RENEWING, BOUND}"
  by (rule renewing_stays [OF assms])

theorem renewing_ignores_T2_witness:
  "\<exists>w'. dhcp_loop plain_ext still_link no_set_ip (client_world RENEWING (Some (7, 5)) None 5) = Some w' \<and>
    c_state (only w') \<in> {RENEWING, BOUND}"
proof -
  let ?w = "client_world RENEWING (Some (7, 5)) None 5"
  obtain w' where r: "dhcp_receive plain_ext still_link no_set_ip ?w = Some w'"
    using ack_binds [OF plain_ext_laws(1) sample_queued [where st = RENEWING and ?t1.0 = "Some (7, 5)" and ?t2.0 = None and ty = 5],
        where ll_send = still_link and call_ip = no_set_ip]
    by (auto simp: DHCP_MSG_TYPE_ACK_def)
  have t: "\<not> timer_expired plain_ext (sys_tick_s ?w) (T1 (only ?w))" "\<not> timer_expired plain_ext (sys_tick_s ?w) (T2 (only ?w))"
    by (simp_all add: plain_ext_def sys_tick_s_def)
  have d: "dhcp_loop plain_ext still_link no_set_ip ?w = Some w'"
    using r t by (simp add: dhcp_loop_def client_world_def)
  show ?thesis
    using renewing_ignores_T2 [OF plain_ext_laws(2) still_link_frame(1) _ _ _ _ d] t d by auto
qed

text \<open>
  C5.  From host to host, for a payload of even length, at least two bytes and below 1392.
  \<^verbatim>\<open>dts_net_udp_sendto\<close> towards a known neighbour gives the driver one frame and no other,
  with the IP and UDP headers and checksums computed for the payload, and returns without a
  trace in memory: once if the driver reports success, three times if it never does (a call
  with a driver that has no outcome on the frame has none).  When that frame, followed by any
  padding and checksum, reaches a host whose socket is bound to the destination port,
  \<^verbatim>\<open>ether_ll_recv\<close> succeeds and the next \<^verbatim>\<open>recvfrom\<close>, with room for more, returns the payload, byte for byte,
  with every node and queue as before.
\<close>

theorem udp_between_hosts:
  fixes w :: "('tm, 'w) linkw_scheme" and v :: "('tm, 'v) sockw_scheme" and port :: u16
    and mac pad :: "u8 list" and m :: addr
  assumes E: "list_laws E" and lan: "nifs_ok w" "ip_version dest = 4" "find (on_lan w dest) (nif_list w) = Some m"
      "nifs w m = Some nif" "ips w (nif_ip nif) = Some ip"
  defines "to \<equiv> dest\<lparr>ip_mask := ip_mask (ip_self ip)\<rparr>"
  assumes snd: "udp_can_send w ip e to" "data_at w data n ps" "even n" "0 < n" "n < 1392"
      "ether_up E e w" "eths w e = Some d" "link_addr w to mac" "malloc_ok w (mallocs w)"
  defines "fr \<equiv> udp_eth_frame w ip d mac to port n ps"
  assumes rcv: "eths v eth = Some dv" "delivers rcv (e_interface dv) (fr @ pad)" "has_room v frame fb bs (fr @ pad)"
      "ether_arp_get_ip E eth v = Some (Some i)" "socket_on E i port fd sk v"
      "malloc_ok v (mallocs v)" "malloc_ok v (Suc (mallocs v))"
    and dst: "bufs v c = Some cs" "c \<noteq> fb" "j + n \<le> length cs" "n < k"
  shows "(accepts drv (e_interface d) fr \<longrightarrow>
      (\<exists>r w'. udp_sendto E (ip_ether_send E drv) dest port data n w = Some (r, to, w') \<and> clean w w' \<and>
        frame_given drv (e_interface d) fr w w')) \<and>
    (rejects drv (e_interface d) fr \<longrightarrow> udp_sendto E (ip_ether_send E drv) dest port data n w = None) \<and>
    (\<exists>frame' v1 v2. ether_ll_recv E drv' rcv pool (sock_call E app) eth frame v = Some (True, frame', v1) \<and>
      sock_recvfrom E fd (Ptr c j) k MSG_DONTWAIT v1 = Some (int n, v2) \<and>
      (\<forall>x. x \<noteq> fb \<longrightarrow> bufs v2 x = (if x = c then Some (splice_at cs j ps) else bufs v x)) \<and>
      nodes v2 = nodes v \<and> socks v2 = socks v)"
proof -
  note first = udp_sendto_first [OF E lan, of "ip_ether_send E drv" port data n, folded to_def]
  note S = sendto_udp_frame [where drv = drv and port = port, OF snd(1,2,3,5-8), folded fr_def]
  have len: "length mac = 6" "length (mac_address d) = 6"
    using known_address(2) [OF snd(6,8)] snd(6,7) by (auto simp: ether_up_def)
  have fr: "fr @ pad = ip_frame mac (mac_address d) (hdr_bytes (udp_out_hdr w ip to n) @
      udp_bytes (ip_self ip) to udp_random_port port ps) pad"
    by (simp add: fr_def udp_eth_frame_def ip_frame_def)
  note R = frame_to_recvfrom [OF E snd(1) data_at_length [OF snd(2)] snd(3-5) rcv(1) rcv(2,3) [unfolded fr] len
      rcv(4-7) dst, of drv' pool app]
  show ?thesis
    using S first snd(9) R by auto
qed

theorem udp_between_hosts_witness:
  fixes d :: ether
  defines "d \<equiv> \<lparr>e_interface = 9, mac_address = [2, 0, 0, 0, 0, 1]\<rparr>"
  defines "fr \<equiv> udp_eth_frame (lan_world (sample_conn CLOSED)) host_ip d [2, 0, 0, 0, 0, 2] peer_addr 9 4 [1, 2, 3, 4]"
  shows "(\<exists>r w'. udp_sendto plain_ext (ip_ether_send plain_ext any_driver) peer_addr 9 (Ptr 5 0) 4
        (lan_world (sample_conn CLOSED)) = Some (r, peer_addr, w') \<and> clean (lan_world (sample_conn CLOSED)) w' \<and>
        wire w' = wire (lan_world (sample_conn CLOSED)) @ [(9, fr)]) \<and>
    (\<exists>frame' v1 v2. ether_ll_recv plain_ext any_driver (wire_recv (fr @ replicate 18 0)) no_items
        (sock_call plain_ext (\<lambda>f d p n w. None)) 2 rx_frame bound_world = Some (True, frame', v1) \<and>
      sock_recvfrom plain_ext 102 (Ptr 52 1) 5 MSG_DONTWAIT v1 = Some (4, v2) \<and>
      bufs v2 52 = Some [0, 1, 2, 3, 4, 0])"
proof -
  let ?w = "lan_world (sample_conn CLOSED)"
  have mask: "peer_addr\<lparr>ip_mask := ip_mask (ip_self host_ip)\<rparr> = peer_addr" by (simp add: peer_addr_def)
  have lan: "nifs_ok ?w" "find (on_lan ?w peer_addr) (nif_list ?w) = Some 3"
    by (simp_all add: nifs_ok_def on_lan_def au32_def of_be32_def)
  have snd: "udp_can_send ?w host_ip 2 peer_addr" by (simp add: udp_can_send_def)
  have fr: "length (fr @ replicate 18 0) = 64"
    using length_hdr_bytes [OF udp_out_hdr_plain [OF snd]]
    by (simp add: fr_def udp_eth_frame_def frame_hdr_def d_def)
  then have room: "has_room bound_world rx_frame 50 (replicate 80 0) (fr @ replicate 18 0)"
    unfolding has_room_def fr by (simp add: rx_frame_def)
  let ?n = "\<lparr>nif_ip = 1, nif_eth = 2\<rparr>" and ?d = "\<lparr>e_interface = 9, mac_address = [2, 0, 0, 0, 0, 2]\<rparr>"
  have p: "nifs ?w 3 = Some ?n" "ips ?w (nif_ip ?n) = Some host_ip" "eths ?w 2 = Some d" "malloc_ok ?w (mallocs ?w)"
    "even (4 :: nat)" "0 < (4 :: nat)" "(4 :: nat) < 1392" "link_addr ?w peer_addr [2, 0, 0, 0, 0, 2]"
    by (simp_all add: d_def)
  have q: "eths bound_world 2 = Some ?d" "malloc_ok bound_world (mallocs bound_world)"
    "malloc_ok bound_world (Suc (mallocs bound_world))" "bufs bound_world 52 = Some [0, 0, 0, 0, 0, 0]"
    "(52 :: addr) \<noteq> 50" "Suc 0 + 4 \<le> length [0, 0, 0, 0, 0, 0 :: u8]" "(4 :: nat) < 5"
    by simp_all
  note U = udp_between_hosts [where drv = any_driver and port = 9 and pad = "replicate 18 0" and rcv = "wire_recv (fr @ replicate 18 0)",
      OF plain_ext_laws(1) lan(1) sample_addrs(4) lan(2) p(1,2), unfolded mask,
      OF snd lan_data p(5-7) lan_up p(3,8,4) q(1), folded fr_def, OF wire_recv_delivers room bound_world_ok(2,3) q(2-7),
      of any_driver no_items "\<lambda>f d p n w. None"]
  have sp: "splice_at [0, 0, 0, 0, 0, 0] (Suc 0) [1, 2, 3, 4] = [0, 1, 2, 3, 4, 0 :: u8]"
    by (simp add: splice_at_def)
  obtain frame' v1 v2 where v: "ether_ll_recv plain_ext any_driver (wire_recv (fr @ replicate 18 0)) no_items
      (sock_call plain_ext (\<lambda>f d p n w. None)) 2 rx_frame bound_world = Some (True, frame', v1)"
    "sock_recvfrom plain_ext 102 (Ptr 52 (Suc 0)) 5 MSG_DONTWAIT v1 = Some (int 4, v2)"
    "\<forall>x. x \<noteq> 50 \<longrightarrow> bufs v2 x = (if x = 52 then Some (splice_at [0, 0, 0, 0, 0, 0] (Suc 0) [1, 2, 3, 4]) else bufs bound_world x)"
    using U by (elim conjE exE)
  have "bufs v2 52 = Some [0, 1, 2, 3, 4, 0]" using v(3) [rule_format, of 52] sp by simp
  moreover have "e_interface d = 9" by (simp add: d_def)
  ultimately show ?thesis using U v(1,2) by auto
qed

text \<open>
  C9.  The echo service, from frame to frame, for data of even length below 1392 bytes.  When
  a frame with an echo request for the host arrives from a neighbour it knows,
  \<^verbatim>\<open>ether_ll_recv\<close> gives the driver one frame and no other, once if the driver reports success
  and three times if it never does: to the hardware address of the sender, with source and
  destination of the packet exchanged and the identifier, sequence number and data of the
  request under a correct checksum.  Then it returns, and connections, nodes and buffers other than the frame's are
  as before.  The checksum \<open>c\<close> of the request plays no role: the code does not look at it.
\<close>

theorem ping_is_answered:
  fixes w :: "('tm, 'w) linkw_scheme" and c x s :: u16 and dst src pad :: "u8 list" and i fb :: addr
  assumes "ping_hdr hdr (length ps)" "eths w eth = Some dv" "ether_up E eth w"
    and "ether_arp_get_ip E eth w = Some (Some i)" "ips w i = Some ip" "ip_ll ip = Some eth"
      "ip_version (ip_self ip) = 4" "wf_addr (ip_self ip)" "ident w \<noteq> 2147483647"
    and "link_addr w ((h_src hdr)\<lparr>ip_version := 4\<rparr>) mac"
  defines "fr \<equiv> ip_frame dst src (hdr_bytes hdr @ echo_bytes ICMP_TYPE_ECHO c x s ps) pad"
  defines "h \<equiv> pong_hdr w ip (rx_header (rx_datagram (brk w)) hdr (Some (init_dblk (Ptr fb 14) (length fr - 18)))) (length ps)"
  assumes "delivers rcv (e_interface dv) fr" "has_room w frame fb bs fr" "length dst = 6" "length src = 6"
    and "malloc_ok w (mallocs w)"
  shows "(accepts drv (e_interface dv) (frame_hdr mac (mac_address dv) ETHER_TYPE_IP @ hdr_bytes h @ echo_reply x s ps) \<longrightarrow>
      (\<exists>frame' w'. ether_ll_recv E drv rcv pool call eth frame w = Some (True, frame', w') \<and>
        (\<forall>a \<le> brk w. nodes w' a = nodes w a) \<and> (\<forall>b \<le> brk w. b \<noteq> fb \<longrightarrow> bufs w' b = bufs w b) \<and> same_conns w w' \<and>
        frame_given drv (e_interface dv) (frame_hdr mac (mac_address dv) ETHER_TYPE_IP @ hdr_bytes h @ echo_reply x s ps) w w')) \<and>
    (rejects drv (e_interface dv) (frame_hdr mac (mac_address dv) ETHER_TYPE_IP @ hdr_bytes h @ echo_reply x s ps) \<longrightarrow>
      ether_ll_recv E drv rcv pool call eth frame w = None)"
  using ping_frame_answered [where c = c and x = x and s = s and pad = pad and fb = fb and dst = dst and src = src,
      OF assms(1-10), folded fr_def, folded h_def, OF assms(13-16)]
    assms(17)
  by (simp add: pong_frame_def)

theorem ping_is_answered_witness:
  "\<exists>frame' w'. ether_ll_recv plain_ext any_driver
      (wire_recv (ip_frame [2, 0, 0, 0, 0, 1] [2, 0, 0, 0, 0, 2] (hdr_bytes ping_sample @ echo_bytes ICMP_TYPE_ECHO 9 7 1 [1, 2, 3, 4])
        (replicate 18 0))) no_items (\<lambda>f d p n w. None) 2 lan_frame lan_rx = Some (True, frame', w') \<and>
    (\<forall>a \<le> 40. nodes w' a = None) \<and> same_conns lan_rx w' \<and> length (wire w') = Suc (length (wire lan_rx))"
proof -
  let ?fr = "ip_frame [2, 0, 0, 0, 0, 1] [2, 0, 0, 0, 0, 2] (hdr_bytes ping_sample @ echo_bytes ICMP_TYPE_ECHO 9 7 1 [1, 2, 3, 4])
        (replicate 18 0)"
  have l: "length [1, 2, 3, 4 :: u8] = 4" by simp
  have h: "ping_hdr ping_sample (length [1, 2, 3, 4 :: u8])" unfolding l by simp
  have p: "eths lan_rx 2 = Some \<lparr>e_interface = 9, mac_address = [2, 0, 0, 0, 0, 1]\<rparr>"
    "ips lan_rx 1 = Some host_ip" "ip_ll host_ip = Some 2" "ip_version (ip_self host_ip) = 4" "wf_addr (ip_self host_ip)"
    "ident lan_rx \<noteq> 2147483647" "link_addr lan_rx ((h_src ping_sample)\<lparr>ip_version := 4\<rparr>) [2, 0, 0, 0, 0, 2]"
    "malloc_ok lan_rx (mallocs lan_rx)" "length [2, 0, 0, 0, 0, 1 :: u8] = 6" "length [2, 0, 0, 0, 0, 2 :: u8] = 6"
    by simp_all
  have "plain_hdr ping_sample" using ping_sample_ok(1) by (simp add: ping_hdr_def)
  then have fr: "length ?fr = 64" by (simp add: ip_frame_def frame_hdr_def)
  show ?thesis
    using ping_is_answered [OF h p(1) lan_rx_ok(3,2) p(2-7) wire_recv_delivers lan_room [OF fr] p(9,10,8),
        of any_driver no_items "\<lambda>f d p n w. None"]
    by auto
qed

text \<open>
  C29.  A datagram for a neighbour whose hardware address is not known is not sent and not
  kept: \<^verbatim>\<open>ip_ether_send\<close> broadcasts the request frame for the address, once, and no other frame,
  returns 0 and leaves the datagram with the caller; nothing of the memory changes.
\<close>

theorem unknown_address_asked:
  fixes w :: "('tm, 'w) linkw_scheme"
  assumes "ether_up E e w" "wf_heap w"
    and "ether_arp_get_ip E e w = Some (Some i)" "ips w i = Some ip" "eths w e = Some d"
    and "\<not> ip_addr_broadcast (h_dest (dg_header dg))" "ip_v4 (h_dest (dg_header dg)) = target" "length target = 4"
    and "find (arp_hit w target) (arp_table w) = None"
  defines "fr \<equiv> frame_hdr broadcast_mac (mac_address d) ETHER_TYPE_ARP @
        ask_bytes (mac_address d) (ip_v4 (ip_self ip)) target"
  shows "(accepts drv (e_interface d) fr \<longrightarrow>
      ip_ether_send E drv e dg w = Some (0, w\<lparr>brk := brk w + 3, wire := wire w @ [(e_interface d, fr)]\<rparr>)) \<and>
    (rejects drv (e_interface d) fr \<longrightarrow> ip_ether_send E drv e dg w = None)"
  using ip_ether_send_asks [OF assms(1-9)] unfolding fr_def by blast

theorem unknown_address_asked_witness:
  "ip_ether_send plain_ext any_driver 2 \<lparr>dg_header = zero_header\<lparr>h_dest := peer_addr\<lparr>ip_v4 := [10, 0, 0, 3]\<rparr>\<rparr>,
      dg_payload = None, dg_raw = None\<rparr> lan_rx = Some (0, lan_rx\<lparr>brk := 43, wire := [(9,
        frame_hdr broadcast_mac [2, 0, 0, 0, 0, 1] ETHER_TYPE_ARP @ ask_bytes [2, 0, 0, 0, 0, 1] [10, 0, 0, 1] [10, 0, 0, 3])]\<rparr>)"
proof -
  let ?dg = "\<lparr>dg_header = zero_header\<lparr>h_dest := peer_addr\<lparr>ip_v4 := [10, 0, 0, 3]\<rparr>\<rparr>, dg_payload = None, dg_raw = None\<rparr>"
  have p: "ips lan_rx 1 = Some host_ip" "eths lan_rx 2 = Some \<lparr>e_interface = 9, mac_address = [2, 0, 0, 0, 0, 1]\<rparr>"
    "\<not> ip_addr_broadcast (h_dest (dg_header ?dg))" "ip_v4 (h_dest (dg_header ?dg)) = [10, 0, 0, 3]"
    "length [10, 0, 0, 3 :: u8] = 4" "find (arp_hit lan_rx [10, 0, 0, 3]) (arp_table lan_rx) = None"
    by (simp_all add: ip_addr_broadcast_def arp_hit_def au32_def of_be32_def)
  show ?thesis
    using unknown_address_asked [OF lan_rx_ok(3,1,2) p, of any_driver] by simp
qed

text \<open>
  C26.  A request frame for the address of an interface of this host is answered with
  one frame, once, and no other, addressed to who asked: the same packet with operation 2,
  the hardware and IP address of that interface as its sender and the asker as its target.
  \<^verbatim>\<open>ether_ll_recv\<close> returns, and only the frame buffer has changed.
\<close>

theorem arp_request_answered:
  fixes w :: "('tm, 'w) linkw_scheme" and dst src pad sha spa tha tpa :: "u8 list"
  assumes "list_laws E" "nifs_ok w"
    and "find (has_ip w tpa) (nif_list w) = Some n" "nifs w n = Some nif" "ips w (nif_ip nif) = Some ip"
      "length (ip_v4 (ip_self ip)) = 4" "eths w (nif_eth nif) = Some d" "length (mac_address d) = 6"
    and "eths w eth = Some dv" "length (mac_address dv) = 6"
    and "eth_ip q" "ap_op q = 1" "length sha = 6" "length spa = 4" "length tha = 6" "length tpa = 4"
  defines "fr \<equiv> arp_frame dst src (arp_bytes q sha spa tha tpa) pad"
  assumes "delivers rcv (e_interface dv) fr" "has_room w frame fb bs fr"
    and "length dst = 6" "length src = 6" "length pad < 232"
  defines "ans \<equiv> frame_hdr sha (mac_address dv) ETHER_TYPE_ARP @
    arp_bytes (q\<lparr>ap_op := 2\<rparr>) (mac_address d) (ip_v4 (ip_self ip)) sha spa"
  shows "(accepts drv (e_interface dv) ans \<longrightarrow>
      ether_ll_recv E drv rcv pool call eth frame w = Some (True, frame_read frame fb (brk w) fr ETHER_TYPE_ARP,
        w\<lparr>bufs := (bufs w)(fb \<mapsto> splice_at bs 0 fr), brk := brk w + 4, wire := wire w @ [(e_interface dv, ans)]\<rparr>)) \<and>
    (rejects drv (e_interface dv) ans \<longrightarrow> ether_ll_recv E drv rcv pool call eth frame w = None)"
  using request_frame_answered [where pad = pad and dst = dst and src = src, OF assms(1-16), folded fr_def ans_def, OF assms(18-22)]
  by blast

theorem arp_request_answered_witness:
  fixes fr :: "u8 list"
  defines "fr \<equiv> arp_frame broadcast_mac [2, 0, 0, 0, 0, 2]
    (arp_bytes ask_packet [2, 0, 0, 0, 0, 2] [10, 0, 0, 2] [0, 0, 0, 0, 0, 0] [10, 0, 0, 1]) (replicate 22 0)"
  shows "ether_ll_recv plain_ext any_driver (wire_recv fr) no_items (\<lambda>f d p n w. None) 2 lan_frame lan_rx =
    Some (True, frame_read lan_frame 39 40 fr ETHER_TYPE_ARP,
      lan_rx\<lparr>bufs := [39 \<mapsto> splice_at (replicate 80 0) 0 fr], brk := 44, wire := [(9,
        frame_hdr [2, 0, 0, 0, 0, 2] [2, 0, 0, 0, 0, 1] ETHER_TYPE_ARP @ arp_bytes (ask_packet\<lparr>ap_op := 2\<rparr>) [2, 0, 0, 0, 0, 1]
          [10, 0, 0, 1] [2, 0, 0, 0, 0, 2] [10, 0, 0, 2])]\<rparr>)"
proof -
  let ?d = "\<lparr>e_interface = 9, mac_address = [2, 0, 0, 0, 0, 1]\<rparr>" and ?n = "\<lparr>nif_ip = 1, nif_eth = 2\<rparr>"
  have fr: "length fr = 64"
    by (simp add: fr_def arp_frame_def frame_hdr_def broadcast_mac_def arp_bytes_def)
  have p: "find (has_ip lan_rx [10, 0, 0, 1]) (nif_list lan_rx) = Some 3" "nifs lan_rx 3 = Some ?n"
    "ips lan_rx (nif_ip ?n) = Some host_ip" "length (ip_v4 (ip_self host_ip)) = 4" "eths lan_rx (nif_eth ?n) = Some ?d"
    "length (mac_address ?d) = 6" "eths lan_rx 2 = Some ?d" "eth_ip ask_packet" "ap_op ask_packet = 1"
    by (simp_all add: eth_ip_def ask_packet_def)
  have l: "length [2, 0, 0, 0, 0, 2 :: u8] = 6" "length [10, 0, 0, 2 :: u8] = 4" "length [0, 0, 0, 0, 0, 0 :: u8] = 6"
    "length [10, 0, 0, 1 :: u8] = 4" "length broadcast_mac = 6" "length (replicate 22 (0 :: u8)) < 232"
    by (simp_all add: broadcast_mac_def)
  show ?thesis
    using arp_request_answered [where dst = broadcast_mac and src = "[2, 0, 0, 0, 0, 2]" and pad = "replicate 22 0",
        OF plain_ext_laws(1) lan_rx_ok(6) p(1-7) p(6) p(8,9) l(1-4), folded fr_def,
        OF wire_recv_delivers lan_room [OF fr] l(5,1,6), of any_driver no_items "\<lambda>f d p n w. None"]
    by simp
qed

text \<open>
  C28.  The ARP table is a cache of the size of its pool.  \<open>arp_learn\<close>, what the code does
  with a reply, returns unless pool and table are both empty, and then enters the address
  with a timer of two hours.  When the pool has an item all entries of the table stay; when
  it has none the code first drops all entries whose time is over, and if there are none
  the entry with the least time left; every entry that stays is as it was.  With both empty
  there is nothing to drop: the code removes the null pointer \<^verbatim>\<open>shortest\<close> from the table and
  frees it, and the outcome is undefined.
\<close>

theorem arp_cache_replaces:
  fixes w :: "('tm, 'w) linkw_scheme"
  assumes "list_laws E" "pool_laws pool" "\<forall>a \<in> set (arp_table w). artis w a \<noteq> None" "distinct (arp_table w)"
  defines "over \<equiv> \<lambda>a. timer_expired E (sys_tick_s w) (ai_tmr (the (artis w a)))"
    and "left \<equiv> \<lambda>a. timer_remain E (sys_tick_s w) (ai_tmr (the (artis w a)))"
  shows "if fst (mem_alloc pool w) = None \<and> arp_table w = [] then arp_learn E pool spa sha w = None
    else \<exists>a w' stay. arp_learn E pool spa sha w = Some w' \<and> mset (arp_table w') = add_mset a (mset stay) \<and>
      artis w' a = Some \<lparr>ai_ip = spa, ai_mac = sha, ai_tmr = timer_start E (sys_tick_s w) 7200 (timer_init E)\<rparr> \<and>
      (\<forall>b \<in> set stay. b \<noteq> a \<longrightarrow> artis w' b = artis w b) \<and>
      (if fst (mem_alloc pool w) \<noteq> None then stay = arp_table w
       else if \<exists>b \<in> set (arp_table w). over b then stay = filter (\<lambda>b. \<not> over b) (arp_table w)
       else \<exists>m \<in> set (arp_table w). stay = remove1 m (arp_table w) \<and> (\<forall>b \<in> set (arp_table w). left m \<le> left b))"
proof (cases "fst (mem_alloc pool w) = None \<and> arp_table w = []")
  case True
  then show ?thesis using arp_learn_stuck [OF assms(1,2), of w spa sha] by simp
next
  case False
  then obtain a w' where w': "arp_learn E pool spa sha w = Some w'" "artis w' a = Some (new_entry E w spa sha)"
    "arp_table w' = list_add E a (kept E pool w)" "\<forall>b \<in> set (kept E pool w). b \<noteq> a \<longrightarrow> artis w' b = artis w b"
    using arp_learn_eq [OF assms(1,2) _ assms(4)] assms(3) by blast
  have "mset (arp_table w') = add_mset a (mset (kept E pool w))"
    using w'(3) assms(1) by (simp add: list_laws_def)
  moreover have "if fst (mem_alloc pool w) \<noteq> None then kept E pool w = arp_table w
     else if \<exists>b \<in> set (arp_table w). over b then kept E pool w = filter (\<lambda>b. \<not> over b) (arp_table w)
     else \<exists>m \<in> set (arp_table w). kept E pool w = remove1 m (arp_table w) \<and> (\<forall>b \<in> set (arp_table w). left m \<le> left b)"
  proof (cases "fst (mem_alloc pool w) = None")
    case none: True
    then obtain m where "least_of (remain_in E w) None (arp_table w) = Some m" "m \<in> set (arp_table w)"
      "\<forall>b \<in> set (arp_table w). remain_in E w m \<le> remain_in E w b"
      using least_of_min [of "arp_table w" "remain_in E w"] False by blast
    then show ?thesis
      using none by (simp add: kept_def expired_in_def [abs_def] remain_in_def [abs_def] over_def left_def) blast
  qed (simp add: kept_def)
  ultimately show ?thesis using w' unfolding if_not_P [OF False] new_entry_def by blast
qed

theorem arp_cache_replaces_witness:
  "\<exists>a w'. arp_learn plain_ext (arpti_pool plain_ext) [10, 0, 0, 4] [2, 0, 0, 0, 0, 4] cache_world = Some w' \<and>
    mset (arp_table w') = {#a, 31#}"
proof -
  have p: "\<forall>a \<in> set (arp_table cache_world). artis cache_world a \<noteq> None" "distinct (arp_table cache_world)"
    "fst (mem_alloc (arpti_pool plain_ext) cache_world) = None" "arp_table cache_world \<noteq> []"
    using cache_pool_empty [of cache_world] by auto
  note C = arp_cache_replaces [OF plain_ext_laws(1) arpti_pool_laws [OF plain_ext_laws(1)] p(1,2),
      of "[10, 0, 0, 4]" "[2, 0, 0, 0, 0, 4]"]
  have "timer_expired plain_ext 7 (Some (0, n)) = (n \<le> 7)" "timer_remain plain_ext 7 (Some (0, n)) = n - 7" for n
    by (simp_all add: plain_ext_def)
  then show ?thesis using C p(3,4) by (auto simp: sys_tick_s_def)
qed

text \<open>
  C27.  A reply frame for an address that no kept entry has makes the address known:
  \<^verbatim>\<open>ether_ll_recv\<close> returns, and a datagram for that address will go to the hardware address
  of the reply; memory is as before but for the frame buffer.
\<close>

theorem arp_reply_learned:
  fixes w :: "('tm, 'w) linkw_scheme" and dst src pad sha spa tha tpa bs :: "u8 list" and fb :: addr
  assumes "list_laws E" "pool_laws pool" "\<forall>a \<in> set (arp_table w). artis w a \<noteq> None" "distinct (arp_table w)"
    and "eths w eth = Some dv" "eth_ip q" "ap_op q = 2"
    and "length sha = 6" "length spa = 4" "length tha = 6" "length tpa = 4"
  defines "fr \<equiv> arp_frame dst src (arp_bytes q sha spa tha tpa) pad"
  defines "W \<equiv> frame_world fb bs fr w"
  assumes "delivers rcv (e_interface dv) fr" "has_room w frame fb bs fr"
    and "length dst = 6" "length src = 6" "length pad < 232"
    and "arp_table w \<noteq> [] \<or> fst (mem_alloc pool W) \<noteq> None"
    and "\<forall>b \<in> set (kept E pool W). \<not> arp_hit w spa b"
    and "ip_v4 dest = spa" "\<not> ip_addr_broadcast dest"
  shows "\<exists>frame' w'. ether_ll_recv E drv rcv pool call eth frame w = Some (True, frame', w') \<and> link_addr w' dest sha \<and>
    bufs w' = (bufs w)(fb \<mapsto> splice_at bs 0 fr) \<and> nodes w' = nodes w"
  using reply_frame_learned [where pad = pad and dst = dst and src = src and bs = bs and fb = fb,
      OF assms(1,2) _ assms(4-11), folded fr_def, folded W_def, OF _ assms(14-19) _ assms(21,22)] assms(3,20)
  by blast

theorem arp_reply_learned_witness:
  fixes fr :: "u8 list"
  defines "fr \<equiv> arp_frame [2, 0, 0, 0, 0, 1] [2, 0, 0, 0, 0, 4]
    (arp_bytes (ask_packet\<lparr>ap_op := 2\<rparr>) [2, 0, 0, 0, 0, 4] [10, 0, 0, 4] [2, 0, 0, 0, 0, 1] [10, 0, 0, 1]) (replicate 22 0)"
  shows "\<exists>frame' w'. ether_ll_recv plain_ext any_driver (wire_recv fr) (arpti_pool plain_ext) (\<lambda>f d p n w. None) 2
      lan_frame cache_world = Some (True, frame', w') \<and> link_addr w' (peer_addr\<lparr>ip_v4 := [10, 0, 0, 4]\<rparr>) [2, 0, 0, 0, 0, 4]"
proof -
  let ?d = "\<lparr>e_interface = 9, mac_address = [2, 0, 0, 0, 0, 1]\<rparr>" and ?q = "ask_packet\<lparr>ap_op := 2\<rparr>"
  let ?W = "frame_world 39 (replicate 80 0) fr cache_world" and ?P = "arpti_pool plain_ext"
  have fr: "length fr = 64"
    by (simp add: fr_def arp_frame_def frame_hdr_def arp_bytes_def)
  have p: "\<forall>a \<in> set (arp_table cache_world). artis cache_world a \<noteq> None" "distinct (arp_table cache_world)"
    "eths cache_world 2 = Some ?d" "eth_ip ?q" "ap_op ?q = 2"
    "arp_table cache_world \<noteq> [] \<or> fst (mem_alloc ?P ?W) \<noteq> None"
    by (auto simp: eth_ip_def ask_packet_def)
  have l: "length [2, 0, 0, 0, 0, 4 :: u8] = 6" "length [10, 0, 0, 4 :: u8] = 4" "length [2, 0, 0, 0, 0, 1 :: u8] = 6"
    "length [10, 0, 0, 1 :: u8] = 4" "length (replicate 22 (0 :: u8)) < 232"
    by simp_all
  have t: "ip_v4 (peer_addr\<lparr>ip_v4 := [10, 0, 0, 4]\<rparr>) = [10, 0, 0, 4]"
    "\<not> ip_addr_broadcast (peer_addr\<lparr>ip_v4 := [10, 0, 0, 4]\<rparr>)"
    by (simp_all add: ip_addr_broadcast_def au32_def of_be32_def)
  have new: "\<forall>b \<in> set (kept plain_ext ?P ?W). \<not> arp_hit cache_world [10, 0, 0, 4] b"
  proof -
    have "set (kept plain_ext ?P ?W) \<subseteq> {31, 32}"
      by (auto simp: kept_def frame_world_def dest: set_remove1_subset [THEN subsetD])
    then show ?thesis by (auto simp: arp_hit_def au32_def of_be32_def)
  qed
  show ?thesis
    using arp_reply_learned [where dst = "[2, 0, 0, 0, 0, 1]" and src = "[2, 0, 0, 0, 0, 4]" and pad = "replicate 22 0" and fb = 39
        and bs = "replicate 80 0", OF plain_ext_laws(1) arpti_pool_laws [OF plain_ext_laws(1)] p(1-5) l(1-4), folded fr_def,
        OF wire_recv_delivers cache_room [OF fr] l(3,1,5) p(6) new t, of any_driver "\<lambda>f d p n w. None"]
    by blast
qed

text \<open>
  C6.  \<^verbatim>\<open>tcp_send\<close> of an even number of bytes, below 1380, on an idle established connection
  towards a known neighbour, while \<^verbatim>\<open>malloc\<close> succeeds, sends the data at once: it returns their number, after giving the driver one frame and no
  other, once if the driver reports success and three times if it never does, with the IP
  header and a segment that carries the ACK flag, \<^verbatim>\<open>snd.una\<close>, \<^verbatim>\<open>rcv.nxt\<close>, a correct checksum and the bytes
  of the caller.  The connection then has that segment in flight, as a copy of its own, its
  timer runs and \<^verbatim>\<open>snd.nxt\<close> counts the data; nothing older in memory has changed.
\<close>

theorem tcp_data_in_one_frame:
  fixes w :: "('tm, 'w) linkw_scheme"
  assumes "list_laws E" "tcbs w p = Some t" "t_state t = ESTABLISHED" "tx_data t = []" "tx_seg t = None"
    and "can_send w t ip e" "data_at w data n ps" "even n" "n < 1380"
    and "\<And>j. j < 8 \<Longrightarrow> malloc_ok w (mallocs w + j)"
    and "ether_up E e w" "eths w e = Some dv" "link_addr w (t_dest t) mac"
  defines "seg \<equiv> sealed_seg (tcp_ph ip t 0) (tcp_segment_init\<lparr>sg_src_port := ucast (t_port t), sg_dest_port := t_dest_port t,
      sg_seq := snd_una t, sg_ack := rcv_nxt t, sg_data_offset := 5, sg_flags := SEG_FLAG_ACK, sg_win := rcv_wnd t,
      sg_payload := Some (Suc (brk w)), sg_raw := Some (brk w + 3)\<rparr>) ps"
  defines "fr \<equiv> frame_hdr mac (mac_address dv) ETHER_TYPE_IP @ hdr_bytes (tcp_out_hdr w t ip (20 + n)) @ seg_bytes seg @ ps"
  shows "(accepts drv (e_interface dv) fr \<longrightarrow>
      (\<exists>w'. tcp_send E (ip_ether_send E drv) p data n w = Some (n, w') \<and>
        tcbs w' = (tcbs w)(p \<mapsto> t\<lparr>tx_seg := Some seg, tmr := timer_start E (sys_tick_s w) 3 (tmr t), snd_nxt := snd_nxt t + of_nat n\<rparr>) \<and>
        in_flight w' p seg (seg_bytes seg @ ps) \<and> (\<forall>a < brk w. nodes w' a = nodes w a \<and> bufs w' a = bufs w a) \<and>
        frame_given drv (e_interface dv) fr w w')) \<and>
    (rejects drv (e_interface dv) fr \<longrightarrow> tcp_send E (ip_ether_send E drv) p data n w = None)"
proof -
  have seg: "data_out w t ip ps = seg" by (simp add: seg_def data_out_def data_seg_def)
  have fr: "tcp_frame w t ip dv mac (seg_bytes seg @ ps) = fr"
    using data_at_length [OF assms(7)] by (simp add: fr_def tcp_frame_def)
  show ?thesis
    using tcp_send_over_ethernet [OF assms(1-13), of drv, unfolded seg fr data_sent_def] by blast
qed

theorem tcp_data_in_one_frame_witness:
  "\<exists>seg w'. tcp_send plain_ext (ip_ether_send plain_ext any_driver) 30 (Ptr 5 0) 4 (lan_world (sample_conn ESTABLISHED)) =
      Some (4, w') \<and> in_flight w' 30 seg (seg_bytes seg @ [1, 2, 3, 4]) \<and> length (wire w') = Suc (length (wire (lan_world (sample_conn ESTABLISHED))))"
proof -
  let ?w = "lan_world (sample_conn ESTABLISHED)" and ?d = "\<lparr>e_interface = 9, mac_address = [2, 0, 0, 0, 0, 1]\<rparr>"
  have p: "tcbs ?w 30 = Some (sample_conn ESTABLISHED)" "can_send ?w (sample_conn ESTABLISHED) host_ip 2"
    "even (4 :: nat)" "(4 :: nat) < 1380" "\<And>j. j < (8 :: nat) \<Longrightarrow> malloc_ok ?w (mallocs ?w + j)" "eths ?w 2 = Some ?d"
    "link_addr ?w (t_dest (sample_conn ESTABLISHED)) [2, 0, 0, 0, 0, 2]"
    by simp_all
  show ?thesis
    using tcp_data_in_one_frame [OF plain_ext_laws(1) p(1) sample_conn_sel(6,8,10) p(2) lan_data p(3-5) lan_up p(6,7), of any_driver]
    by auto
qed



text \<open>
  C8.  \<^verbatim>\<open>ip_hl_send\<close> with a payload of 1400 bytes or more, in one node, for an address that the
  table knows: the payload leaves in pieces of 1400 bytes, in order and without a gap, each
  in a frame of its own and with all but the last marked that more follow; each frame is
  given to the driver once if it reports success and three times if it never does, and no
  other frame is; at the end the call reports success, the payload is gone and nothing else that was there before has
  changed.  The offsets are not those of the pieces: they grow by 177, where 1400 bytes
  are 175 units of eight bytes.
\<close>

theorem fragments_on_wire:
  fixes w :: "('tm, 'w) linkw_scheme"
  assumes "ether_up E e w" "wf_heap w" "eths w e = Some dv" "ip_ll ip = Some e" "link_ready ip (dg_header dg)"
    and "link_addr w (h_dest (dg_header dg)) mac" "\<And>m. malloc_ok w m" "ident w \<noteq> 2147483647"
    and "dg_payload dg = Some a" "nodes w a = Some d" "\<not> d_more d" "d_next d = None" "d_vsize d = 0"
    and "1400 \<le> d_size d" "d_size d < 65536" "mem_read w (d_data d) (d_size d) = Some bs" "deletable w [a]"
  defines "k \<equiv> frag_count (length bs) 1400" and "piece \<equiv> \<lambda>j. take 1400 (drop (j * 1400) bs)"
  defines "fr \<equiv> \<lambda>j. frame_hdr mac (mac_address dv) ETHER_TYPE_IP @ hdr_bytes (sealed_hdr ((dg_header dg)\<lparr>
      h_version := ip_version (ip_self ip) AND 0x0F, h_src := ip_self ip, h_ident := of_int (ident w + 1),
      h_fragoff := of_nat (177 * j), h_total_length := of_nat (length (piece j)),
      h_flags := mkflags 0 (if Suc j < k then 1 else 0)\<rparr>)) @ piece j"
  shows "concat (map piece [0..<k]) = bs \<and>
    ((\<forall>j < k. accepts drv (e_interface dv) (fr j)) \<longrightarrow>
      (\<exists>w'. ip_hl_send (ip_ether_send E drv) ip dg w = Some (1, w') \<and>
        (\<forall>x < brk w. nodes w' x = (if x = a \<and> d_node_malloc d then None else nodes w x) \<and>
          bufs w' x = (if d_data_malloc d \<and> ptr_buf (d_data d) = Some x then None else bufs w x)) \<and>
        frames_given drv (e_interface dv) fr 0 k w w' \<and>
        ((\<forall>j < k. takes drv (e_interface dv) (fr j)) \<longrightarrow> wire w' = wire w @ map (\<lambda>j. (e_interface dv, fr j)) [0..<k]))) \<and>
    (\<forall>m < k. (\<forall>j < m. accepts drv (e_interface dv) (fr j)) \<and> rejects drv (e_interface dv) (fr m) \<longrightarrow>
      ip_hl_send (ip_ether_send E drv) ip dg w = None)"
proof -
  have rd: "frags_ready E e dv ip (dg_header dg) w a d bs mac"
    unfolding frags_ready_def using assms(1-8,10-17) by blast
  have fr: "fr = frag_frame ip dv mac (ident w + 1) (dg_header dg) bs"
    by (simp add: fun_eq_iff fr_def frag_frame_def frag_out_def chunk_def piece_def k_def)
  have "0 < length bs" using mem_read_length [OF assms(16)] assms(14) by simp
  then have all: "concat (map piece [0..<k]) = bs"
    unfolding piece_def k_def by (intro concat_fragments frag_count_bounds(3)) simp_all
  note loop = ip_hl_send_fragments [OF rd assms(9), where drv = drv, folded k_def fr]
  show ?thesis using all loop frames_given_once [of drv "e_interface dv" fr k w] by blast
qed

theorem fragments_on_wire_witness:
  "\<exists>w'. ip_hl_send (ip_ether_send plain_ext any_driver) host_ip
      \<lparr>dg_header = zero_header\<lparr>h_dest := peer_addr\<rparr>, dg_payload = Some 6, dg_raw = None\<rparr> big_world = Some (1, w') \<and>
    nodes w' 6 = Some (init_dblk (Ptr 5 0) 1500) \<and> length (wire w') = length (wire big_world) + 2 \<and>
    concat (map (\<lambda>j. take 1400 (drop (j * 1400) (replicate 1500 (7 :: u8)))) [0..<2]) = replicate 1500 7"
proof -
  let ?dg = "\<lparr>dg_header = zero_header\<lparr>h_dest := peer_addr\<rparr>, dg_payload = Some 6, dg_raw = None\<rparr>"
  let ?d = "init_dblk (Ptr 5 0) 1500" and ?bs = "replicate 1500 7 :: u8 list"
  have p: "eths big_world 2 = Some \<lparr>e_interface = 9, mac_address = [2, 0, 0, 0, 0, 1]\<rparr>" "ip_ll host_ip = Some 2"
    "link_ready host_ip (dg_header ?dg)" "link_addr big_world (h_dest (dg_header ?dg)) [2, 0, 0, 0, 0, 2]"
    "malloc_ok big_world m" "ident big_world \<noteq> 2147483647" "dg_payload ?dg = Some 6" "nodes big_world 6 = Some ?d"
    "\<not> d_more ?d" "d_next ?d = None" "d_vsize ?d = 0" "1400 \<le> d_size ?d" "d_size ?d < 65536"
    "mem_read big_world (d_data ?d) (d_size ?d) = Some ?bs" "deletable big_world [6]" for m
    by (simp_all add: link_ready_def zero_header_def mem_simps)
  have k: "frag_count (length ?bs) 1400 = 2" by (simp add: frag_count_def)
  show ?thesis
    using fragments_on_wire [OF big_world_ok(2,1) p, of any_driver] any_driver_accepts any_driver_takes unfolding k by auto
qed

end
